(* ===== verification/Prelude.thy ===== *)
theory Prelude
  imports Main "HOL-Library.Word" "HOL-Library.Multiset"
begin

text \<open>
  Shared vocabulary of the development: the types the Go sources use
  everywhere (bytes, unsigned words), \<open>sort.Slice\<close> as an insertion sort
  driven by the \<open>less\<close> callback, and the interfaces (locales) that several
  components share: the contract of a comparison callback, state machines
  whose operations keep an invariant, and state machines whose operations only
  move a state forward along a preorder.
\<close>

named_theorems go_defs \<open>definitions unfolded by the component proofs\<close>

type_synonym byte = "8 word"
type_synonym uint32 = "32 word"
type_synonym uint64 = "64 word"

unbundle bit_operations_syntax

section \<open>Generic list lemmas\<close>

lemma filter_first_split:
  assumes "x \<in> set xs"
  shows "\<exists>ys zs. xs = ys @ x # zs \<and> x \<notin> set ys"
  using assms by (metis split_list_first)

lemma distinct_map_remove1:
  "distinct (map f xs) \<Longrightarrow> distinct (map f (remove1 x xs))"
  by (induction xs) (auto dest: subsetD[OF set_remove1_subset])

lemma distinct_map_take: "distinct (map f xs) \<Longrightarrow> distinct (map f (take n xs))"
  by (metis distinct_take take_map)

lemma distinct_map_tl: "distinct (map f xs) \<Longrightarrow> distinct (map f (tl xs))"
  by (cases xs) auto

lemma map_eq_key_unique:
  assumes "distinct (map f xs)" "x \<in> set xs" "y \<in> set xs" "f x = f y"
  shows "x = y"
  using assms by (simp add: distinct_map inj_on_def)

lemma distinct_concat_indexed:
  assumes "\<And>i. i < length xss \<Longrightarrow> distinct (map f (xss ! i))"
    and "\<And>i x. i < length xss \<Longrightarrow> x \<in> set (xss ! i) \<Longrightarrow> g (f x) = i"
  shows "distinct (map f (concat xss))"
  using assms
proof (induction xss arbitrary: g rule: rev_induct)
  case Nil
  then show ?case by simp
next
  case (snoc ys yss)
  have "distinct (map f (concat yss))"
  proof (rule snoc.IH)
    fix i assume "i < length yss"
    then show "distinct (map f (yss ! i))"
      using snoc.prems(1)[of i] by (simp add: nth_append)
  next
    fix i x assume "i < length yss" "x \<in> set (yss ! i)"
    then show "g (f x) = i"
      using snoc.prems(2)[of i x] by (simp add: nth_append)
  qed
  moreover have "distinct (map f ys)"
    using snoc.prems(1)[of "length yss"] by simp
  moreover have "f ` set (concat yss) \<inter> f ` set ys = {}"
  proof -
    have a: "g (f x) = length yss" if "x \<in> set ys" for x
      using snoc.prems(2)[of "length yss" x] that by simp
    have b: "g (f x) < length yss" if x: "x \<in> set (concat yss)" for x
    proof -
      from x obtain zs where "zs \<in> set yss" "x \<in> set zs" by auto
      then obtain i where i: "i < length yss" "yss ! i = zs"
        by (auto simp: in_set_conv_nth)
      then show ?thesis
        using snoc.prems(2)[of i x] \<open>x \<in> set zs\<close> by (simp add: nth_append)
    qed
    show ?thesis
    proof (rule ccontr)
      assume "f ` set (concat yss) \<inter> f ` set ys \<noteq> {}"
      then obtain u v where "u \<in> set (concat yss)" "v \<in> set ys" "f u = f v" by auto
      with a[of v] b[of u] show False by simp
    qed
  qed
  ultimately show ?case by auto
qed

lemma sum_list_le_mult:
  fixes xs :: "nat list"
  assumes "\<And>x. x \<in> set xs \<Longrightarrow> x \<le> k"
  shows "sum_list xs \<le> length xs * k"
  using assms
proof (induction xs)
  case (Cons a xs)
  then have "a \<le> k" "sum_list xs \<le> length xs * k" by auto
  then show ?case by simp
qed simp

section \<open>sort.Slice\<close>

text \<open>
  \<open>sort.Slice(xs, less)\<close>: the standard library promises a permutation of the
  slice that is sorted by the callback. The model is the insertion sort the
  library itself runs on short slices; \<open>sort_unique\<close> below shows that with
  distinct keys every sorting routine returns this very list.
\<close>

fun insert_slice :: "('a \<Rightarrow> 'a \<Rightarrow> bool) \<Rightarrow> 'a \<Rightarrow> 'a list \<Rightarrow> 'a list" where
  "insert_slice lt x [] = [x]"
| "insert_slice lt x (y # ys) = (if lt y x then y # insert_slice lt x ys else x # y # ys)"

definition sort_Slice :: "('a \<Rightarrow> 'a \<Rightarrow> bool) \<Rightarrow> 'a list \<Rightarrow> 'a list" where
  "sort_Slice lt xs = foldr (insert_slice lt) xs []"

lemma sort_Slice_simps [simp]:
  "sort_Slice lt [] = []"
  "sort_Slice lt (x # xs) = insert_slice lt x (sort_Slice lt xs)"
  by (simp_all add: sort_Slice_def)

lemma mset_insert_slice [simp]: "mset (insert_slice lt x ys) = add_mset x (mset ys)"
  by (induction ys) auto

lemma mset_sort_Slice [simp]: "mset (sort_Slice lt xs) = mset xs"
  by (induction xs) auto

lemma set_sort_Slice [simp]: "set (sort_Slice lt xs) = set xs"
  by (metis mset_sort_Slice set_mset_mset)

lemma length_sort_Slice [simp]: "length (sort_Slice lt xs) = length xs"
  by (metis mset_sort_Slice size_mset)

lemma distinct_map_sort_Slice [simp]:
  "distinct (map f (sort_Slice lt xs)) = distinct (map f xs)"
  by (metis mset_map mset_eq_imp_distinct_iff mset_sort_Slice)

locale slice_less =
  fixes lt :: "'a \<Rightarrow> 'a \<Rightarrow> bool"
  assumes lt_irrefl: "\<not> lt x x"
    and lt_trans: "lt x y \<Longrightarrow> lt y z \<Longrightarrow> lt x z"
    and lt_cotrans: "lt x z \<Longrightarrow> lt x y \<or> lt y z"
begin

definition sorted_by :: "'a list \<Rightarrow> bool" where
  "sorted_by xs = sorted_wrt (\<lambda>x y. \<not> lt y x) xs"

lemma lt_asym: "lt x y \<Longrightarrow> \<not> lt y x"
  using lt_irrefl lt_trans by blast

lemma sorted_by_insert_slice:
  "sorted_by ys \<Longrightarrow> sorted_by (insert_slice lt x ys)"
proof (induction ys)
  case Nil
  then show ?case by (simp add: sorted_by_def)
next
  case (Cons y ys)
  have set_ins: "set (insert_slice lt x ys) = insert x (set ys)"
    by (metis mset_insert_slice set_mset_add_mset_insert set_mset_mset)
  show ?case
  proof (cases "lt y x")
    case True
    then show ?thesis
      using Cons lt_asym by (auto simp: sorted_by_def set_ins)
  next
    case False
    then show ?thesis
      using Cons.prems lt_cotrans by (auto simp: sorted_by_def)
  qed
qed

lemma sorted_by_sort_Slice: "sorted_by (sort_Slice lt xs)"
  by (induction xs) (simp_all add: sorted_by_def[of "[]"] sorted_by_insert_slice)

lemma sorted_by_take: "sorted_by xs \<Longrightarrow> sorted_by (take n xs)"
  by (simp add: sorted_by_def sorted_wrt_take)

lemma take_not_beaten:
  assumes "sorted_by xs" "x \<in> set (take n xs)" "y \<in> set (drop n xs)"
  shows "\<not> lt y x"
  using assms sorted_wrt_append[of "\<lambda>x y. \<not> lt y x" "take n xs" "drop n xs"]
  by (simp add: sorted_by_def)

end

locale slice_key =
  fixes lt :: "'a \<Rightarrow> 'a \<Rightarrow> bool" and key :: "'a \<Rightarrow> 'k :: linorder"
  assumes lt_key: "lt x y \<longleftrightarrow> key x < key y"

sublocale slice_key \<subseteq> slice_less lt
  by unfold_locales (auto simp: lt_key)

context slice_key begin

lemma sorted_by_keys: "sorted_by xs = sorted (map key xs)"
  unfolding sorted_by_def by (simp add: lt_key sorted_wrt_map not_less)

lemma sort_unique:
  assumes "mset ys = mset xs" "sorted_by ys" "inj_on key (set xs)"
  shows "ys = sort_Slice lt xs"
proof -
  have "map key ys = map key (sort_Slice lt xs)"
    using assms(1,2) sorted_by_sort_Slice[of xs]
    by (metis mset_map mset_sort_Slice properties_for_sort sorted_by_keys)
  moreover have "set ys = set xs" using assms(1) by (metis set_mset_mset)
  ultimately show ?thesis
    using assms(3) by (metis inj_on_map_eq_map inf_sup_aci(6) set_sort_Slice sup.idem)
qed

lemma sorted_strict:
  assumes "sorted_by xs" "distinct (map key xs)"
  shows "sorted_wrt lt xs"
proof -
  have "sorted_wrt (<) (map key xs)"
    using assms by (simp add: sorted_by_keys strict_sorted_iff)
  moreover have "lt = (\<lambda>x y. key x < key y)" using lt_key by blast
  ultimately show ?thesis by (simp add: sorted_wrt_map)
qed

end

section \<open>State machines\<close>

text \<open>A deterministic machine whose operations keep an invariant, under a guard on the
  operations.\<close>

locale guarded_machine =
  fixes step :: "'op \<Rightarrow> 's \<Rightarrow> 's" and inv :: "'s \<Rightarrow> bool" and ok :: "'op \<Rightarrow> bool"
  assumes guarded_step_inv: "ok op \<Longrightarrow> inv s \<Longrightarrow> inv (step op s)"
begin

lemma guarded_run_inv: "list_all ok ops \<Longrightarrow> inv s \<Longrightarrow> inv (fold step ops s)"
  by (induction ops arbitrary: s) (simp_all add: guarded_step_inv)

end

text \<open>The unguarded case: every operation keeps the invariant.\<close>

locale invariant_machine =
  fixes step :: "'op \<Rightarrow> 's \<Rightarrow> 's" and inv :: "'s \<Rightarrow> bool"
  assumes step_inv: "inv s \<Longrightarrow> inv (step op s)"

sublocale invariant_machine \<subseteq> guarded_machine step inv "\<lambda>_. True"
  by unfold_locales (rule step_inv)

context invariant_machine begin

lemma run_inv: "inv s \<Longrightarrow> inv (fold step ops s)"
  using guarded_run_inv by (simp add: list_all_iff)

end

text \<open>A machine whose every operation moves the state up along a preorder, from
  states that satisfy an invariant.\<close>

locale monotone_machine = invariant_machine step inv
  for step :: "'op \<Rightarrow> 's \<Rightarrow> 's" and inv :: "'s \<Rightarrow> bool" +
  fixes le :: "'s \<Rightarrow> 's \<Rightarrow> bool"
  assumes le_refl: "le s s"
    and le_trans: "le s t \<Longrightarrow> le t u \<Longrightarrow> le s u"
    and step_le: "inv s \<Longrightarrow> le s (step op s)"
begin

lemma run_le: "inv s \<Longrightarrow> le s (fold step ops s)"
proof (induction ops arbitrary: s)
  case Nil
  then show ?case by (simp add: le_refl)
next
  case (Cons op ops)
  then show ?case
    using step_inv step_le le_trans by (metis fold_simps(2))
qed

end

text \<open>A run of a machine: the results of its operations and the final state.\<close>

fun run_ops :: "('op \<Rightarrow> 's \<Rightarrow> 'r \<times> 's) \<Rightarrow> 'op list \<Rightarrow> 's \<Rightarrow> 'r list \<times> 's" where
  "run_ops step [] s = ([], s)"
| "run_ops step (op # ops) s =
     (let (r, s) = step op s; (rs, s) = run_ops step ops s in (r # rs, s))"

text \<open>A functional refinement: from states that satisfy the invariant, every operation of the
  implementation gives the result of the specification and keeps the abstraction.\<close>

locale refines =
  fixes cstep :: "'op \<Rightarrow> 'c \<Rightarrow> 'r \<times> 'c" and astep :: "'op \<Rightarrow> 'a \<Rightarrow> 'r \<times> 'a"
    and abs :: "'c \<Rightarrow> 'a" and inv :: "'c \<Rightarrow> bool"
  assumes step_inv: "inv c \<Longrightarrow> inv (snd (cstep op c))"
    and step_abs: "inv c \<Longrightarrow> astep op (abs c) = (fst (cstep op c), abs (snd (cstep op c)))"
begin

lemma run_refines:
  "inv c \<Longrightarrow> inv (snd (run_ops cstep ops c)) \<and>
     run_ops astep ops (abs c) = (fst (run_ops cstep ops c), abs (snd (run_ops cstep ops c)))"
proof (induction ops arbitrary: c)
  case (Cons op ops)
  then show ?case
    using step_inv[of c op] step_abs[of c op] Cons.IH[of "snd (cstep op c)"] by (simp add: split_beta)
qed simp

end

end
