(* ===== verification/Codec.thy ===== *)
theory Codec
  imports Prelude "HOL-Library.Monad_Syntax"
begin

text \<open>
  The byte and text encodings of Go's standard library that the sources rely on:
  strings as byte sequences, \<open>encoding/hex\<close>, \<open>encoding/base64\<close>
  (\<open>StdEncoding\<close>), \<open>encoding/binary\<close> big-endian words and \<open>hash/fnv\<close>.
  Every decoder returns an option, \<^term>\<open>None\<close> being a non-nil error.
  The locale \<open>text_codec\<close> is the round-trip contract the clients use; it
  is interpreted on the hexadecimal and the base64 codec.
\<close>

section \<open>Strings and byte slices\<close>

definition byte_of :: "nat \<Rightarrow> byte" where
  "byte_of n = word_of_nat n"

definition string_bytes :: "string \<Rightarrow> byte list" where
  "string_bytes s = map (\<lambda>c. byte_of (of_char c)) s"

definition bytes_string :: "byte list \<Rightarrow> string" where
  "bytes_string bs = map (\<lambda>b. char_of (unat b)) bs"

lemma unat_byte_lt [simp]: "unat (b :: byte) < 256"
  using unsigned_less[of b] by simp

lemma unat_byte_le: "unat (b :: byte) \<le> 255"
  using unat_byte_lt[of b] by linarith

lemma of_char_lt_256 [simp]: "(of_char c :: nat) < 256"
proof -
  have "of_char c = (of_char (char_of (of_char c :: nat)) :: nat)" by simp
  also have "\<dots> = of_char c mod 256" by (simp only: of_char_of)
  finally show ?thesis by (metis mod_less_divisor zero_less_numeral)
qed

lemma unat_byte_of [simp]: "n < 256 \<Longrightarrow> unat (byte_of n) = n"
  by (simp add: byte_of_def unat_of_nat take_bit_nat_eq_self_iff)

lemma byte_of_unat [simp]: "byte_of (unat b) = b"
  by (simp add: byte_of_def)

lemma bytes_string_bytes [simp]: "bytes_string (string_bytes s) = s"
  by (induction s) (simp_all add: bytes_string_def string_bytes_def)

lemma string_bytes_string [simp]: "string_bytes (bytes_string bs) = bs"
  by (induction bs) (simp_all add: bytes_string_def string_bytes_def)

lemma length_string_bytes [simp]: "length (string_bytes s) = length s"
  by (simp add: string_bytes_def)

lemma length_bytes_string [simp]: "length (bytes_string s) = length s"
  by (simp add: bytes_string_def)

lemma string_bytes_append [simp]:
  "string_bytes (s @ t) = string_bytes s @ string_bytes t"
  by (simp add: string_bytes_def)

lemma string_bytes_inj [simp]: "string_bytes s = string_bytes t \<longleftrightarrow> s = t"
  by (metis bytes_string_bytes)

section \<open>Text codecs\<close>

text \<open>A printable encoding of byte slices: what is encoded decodes to itself, so
  the encoding is injective and identifiers built from it do not collide.\<close>

locale text_codec =
  fixes enc :: "byte list \<Rightarrow> string" and dec :: "string \<Rightarrow> byte list option"
  assumes dec_enc: "dec (enc bs) = Some bs"
begin

lemma enc_inj: "enc as = enc bs \<longleftrightarrow> as = bs"
  by (metis dec_enc option.inject)

lemma prefixed_inj: "p @ enc as = p @ enc bs \<longleftrightarrow> as = bs"
  by (simp add: enc_inj)

end

subsection \<open>encoding/hex\<close>

definition hex_digit :: "nat \<Rightarrow> char" where
  "hex_digit n = ''0123456789abcdef'' ! n"

definition fromHexChar :: "char \<Rightarrow> nat option" where
  "fromHexChar c = (let n = of_char c in
     if 48 \<le> n \<and> n \<le> 57 then Some (n - 48)
     else if 97 \<le> n \<and> n \<le> 102 then Some (n - 87)
     else if 65 \<le> n \<and> n \<le> 70 then Some (n - 55)
     else None)"

definition hex_EncodeToString :: "byte list \<Rightarrow> string" where
  "hex_EncodeToString bs =
     concat (map (\<lambda>b. [hex_digit (unat b div 16), hex_digit (unat b mod 16)]) bs)"

fun hex_DecodeString :: "string \<Rightarrow> byte list option" where
  "hex_DecodeString [] = Some []"
| "hex_DecodeString [c] = None"
| "hex_DecodeString (c # d # r) = do {
     h \<leftarrow> fromHexChar c;
     l \<leftarrow> fromHexChar d;
     bs \<leftarrow> hex_DecodeString r;
     Some (byte_of (16 * h + l) # bs) }"

lemma less_16_cases:
  "n < 16 \<Longrightarrow> n \<in> {0,1,2,3,4,5,6,7,8,9,10,11,12,13,14,15 :: nat}"
  by (simp only: insert_iff empty_iff) presburger

lemma fromHexChar_hex_digit [simp]:
  assumes "n < 16"
  shows "fromHexChar (hex_digit n) = Some n"
  using less_16_cases[OF assms]
  by (elim insertE emptyE) (simp_all add: fromHexChar_def hex_digit_def Let_def)

lemma hex_encode_simps [simp]:
  "hex_EncodeToString [] = []"
  "hex_EncodeToString (b # bs) =
     hex_digit (unat b div 16) # hex_digit (unat b mod 16) # hex_EncodeToString bs"
  by (simp_all add: hex_EncodeToString_def)

lemma hex_decode_encode [simp]: "hex_DecodeString (hex_EncodeToString bs) = Some bs"
proof (induction bs)
  case (Cons b bs)
  have "unat b div 16 < 16" using unat_byte_lt[of b] by linarith
  moreover have "16 * (unat b div 16) + unat b mod 16 = unat b" by simp
  ultimately show ?case using Cons by simp
qed simp

lemma length_hex_encode [simp]: "length (hex_EncodeToString bs) = 2 * length bs"
  by (induction bs) simp_all

lemma hex_digit_range: "n < 16 \<Longrightarrow> hex_digit n \<in> set ''0123456789abcdef''"
  unfolding hex_digit_def by (rule nth_mem) simp

lemma set_hex_encode: "set (hex_EncodeToString bs) \<subseteq> set ''0123456789abcdef''"
proof (induction bs)
  case (Cons b bs)
  have "unat b div 16 < 16" using unat_byte_lt[of b] by linarith
  then have "hex_digit (unat b div 16) \<in> set ''0123456789abcdef''"
    by (rule hex_digit_range)
  moreover have "hex_digit (unat b mod 16) \<in> set ''0123456789abcdef''"
    by (rule hex_digit_range) simp
  ultimately show ?case using Cons by simp
qed simp

interpretation hexc: text_codec hex_EncodeToString hex_DecodeString
  by unfold_locales simp

subsection \<open>encoding/base64\<close>

definition b64_digit :: "nat \<Rightarrow> char" where
  "b64_digit n = (if n < 26 then char_of (65 + n)
     else if n < 52 then char_of (71 + n)
     else if n < 62 then char_of (n - 4)
     else if n = 62 then CHR ''+'' else CHR ''/'')"

definition b64_val :: "char \<Rightarrow> nat option" where
  "b64_val c = (let n = of_char c in
     if 65 \<le> n \<and> n \<le> 90 then Some (n - 65)
     else if 97 \<le> n \<and> n \<le> 122 then Some (n - 71)
     else if 48 \<le> n \<and> n \<le> 57 then Some (n + 4)
     else if c = CHR ''+'' then Some 62
     else if c = CHR ''/'' then Some 63
     else None)"

fun b64_EncodeToString :: "byte list \<Rightarrow> string" where
  "b64_EncodeToString [] = []"
| "b64_EncodeToString [a] = (let v = unat a * 16 in
     [b64_digit (v div 64), b64_digit (v mod 64), CHR ''='', CHR ''=''])"
| "b64_EncodeToString [a, b] = (let v = (unat a * 256 + unat b) * 4 in
     [b64_digit (v div 4096), b64_digit (v div 64 mod 64), b64_digit (v mod 64), CHR ''=''])"
| "b64_EncodeToString (a # b # c # r) =
     (let v = unat a * 65536 + unat b * 256 + unat c in
     [b64_digit (v div 262144), b64_digit (v div 4096 mod 64),
      b64_digit (v div 64 mod 64), b64_digit (v mod 64)] @ b64_EncodeToString r)"

text \<open>\<open>decodeQuantum\<close>: four characters give up to three bytes; padding is legal
  only in the last quantum.\<close>

fun b64_quanta :: "string \<Rightarrow> byte list option" where
  "b64_quanta [] = Some []"
| "b64_quanta (p # q # r # s # rest) = do {
     a \<leftarrow> b64_val p;
     b \<leftarrow> b64_val q;
     if r = CHR ''='' then
       (if s = CHR ''='' \<and> rest = [] then Some [byte_of ((a * 64 + b) div 16)] else None)
     else do {
       c \<leftarrow> b64_val r;
       if s = CHR ''='' then
         (if rest = [] then
            let v = ((a * 64 + b) * 64 + c) div 4 in
            Some [byte_of (v div 256), byte_of (v mod 256)]
          else None)
       else do {
         d \<leftarrow> b64_val s;
         bs \<leftarrow> b64_quanta rest;
         let v = ((a * 64 + b) * 64 + c) * 64 + d in
         Some (byte_of (v div 65536) # byte_of (v div 256 mod 256) #
               byte_of (v mod 256) # bs) } } }"
| "b64_quanta _ = None"

definition b64_DecodeString :: "string \<Rightarrow> byte list option" where
  "b64_DecodeString s = b64_quanta (filter (\<lambda>c. c \<noteq> CHR 0x0A \<and> c \<noteq> CHR 0x0D) s)"

lemma b64_digit_cases: "n < 64 \<Longrightarrow> b64_val (b64_digit n) = Some n"
  by (cases "n < 52"; simp add: b64_val_def b64_digit_def Let_def; linarith?)

lemma b64_digit_plain:
  assumes "n < 64"
  shows "b64_digit n \<noteq> CHR ''='' \<and> b64_digit n \<noteq> CHR 0x0A \<and> b64_digit n \<noteq> CHR 0x0D"
proof -
  have "b64_val (b64_digit n) \<noteq> None" using b64_digit_cases[OF assms] by simp
  moreover have "b64_val (CHR ''='') = None" "b64_val (CHR 0x0A) = None" "b64_val (CHR 0x0D) = None"
    by (simp_all add: b64_val_def Let_def)
  ultimately show ?thesis by metis
qed

lemma b64_encode_no_newline:
  "filter (\<lambda>c. c \<noteq> CHR 0x0A \<and> c \<noteq> CHR 0x0D) (b64_EncodeToString bs) = b64_EncodeToString bs"
proof (induction bs rule: b64_EncodeToString.induct)
  case (2 a)
  have "unat a * 16 div 64 < 64" using unat_byte_lt[of a] by linarith
  then show ?case using b64_digit_plain by (simp add: Let_def)
next
  case (3 a b)
  have "(unat a * 256 + unat b) * 4 div 4096 < 64"
    using unat_byte_le[of a] unat_byte_le[of b] by (intro less_mult_imp_div_less) simp
  then show ?case using b64_digit_plain by (simp add: Let_def)
next
  case (4 a b c r)
  have "(unat a * 65536 + unat b * 256 + unat c) div 262144 < 64"
    using unat_byte_le[of a] unat_byte_le[of b] unat_byte_le[of c]
    by (intro less_mult_imp_div_less) simp
  then show ?case using 4 b64_digit_plain by (simp add: Let_def)
qed simp

lemma b64_regroup3:
  fixes v :: nat
  shows "262144 * (v div 262144) + 4096 * (v div 4096 mod 64) + v div 64 mod 64 * 64 + v mod 64 = v"
proof -
  have "262144 * (v div 262144) + 4096 * (v div 4096 mod 64) + v div 64 mod 64 * 64 + v mod 64 =
    ((v div 262144 * 64 + v div 4096 mod 64) * 64 + v div 64 mod 64) * 64 + v mod 64"
    by simp
  moreover
  have "v div 4096 div 64 = v div 262144" "v div 64 div 64 = v div 4096"
    by (simp_all add: div_mult2_eq[symmetric])
  ultimately show ?thesis by (metis div_mult_mod_eq)
qed

lemma b64_quanta_encode: "b64_quanta (b64_EncodeToString bs) = Some bs"
proof (induction bs rule: b64_EncodeToString.induct)
  case (2 a)
  define v where "v = unat a * 16"
  have "v div 64 < 64" using unat_byte_lt[of a] unfolding v_def
    by (intro less_mult_imp_div_less) simp
  moreover have "(v div 64 * 64 + v mod 64) div 16 = unat a" by (simp only: div_mult_mod_eq) (simp add: v_def)
  ultimately show ?case
    using b64_digit_cases[of "v div 64"] b64_digit_cases[of "v mod 64"]
    by (simp add: Let_def flip: v_def)
next
  case (3 a b)
  define v where "v = (unat a * 256 + unat b) * 4"
  have lt: "v div 4096 < 64" using unat_byte_le[of a] unat_byte_le[of b]
    unfolding v_def by (intro less_mult_imp_div_less) simp
  have "v div 64 div 64 = v div 4096" by (simp add: div_mult2_eq[symmetric])
  have enc: "b64_EncodeToString [a, b] = [b64_digit (v div 4096), b64_digit (v div 64 mod 64),
      b64_digit (v mod 64), CHR ''='']"
    by (simp only: b64_EncodeToString.simps Let_def v_def)
  from \<open>v div 64 div 64 = v div 4096\<close>
  have e: "((v div 4096 * 64 + v div 64 mod 64) * 64 + v mod 64) div 4 =
      unat a * 256 + unat b"
    by (metis div_mult_mod_eq v_def nonzero_mult_div_cancel_right zero_neq_numeral)
  have "(unat a * 256 + unat b) div 256 = unat a" "(unat a * 256 + unat b) mod 256 = unat b"
    by simp_all
  then show ?case
    using b64_digit_cases[of "v div 4096"] b64_digit_cases[of "v div 64 mod 64"]
      b64_digit_cases[of "v mod 64"] lt e b64_digit_plain[of "v mod 64"]
      b64_digit_plain[of "v div 64 mod 64"]
    unfolding enc by (simp add: Let_def)
next
  case (4 a b c r)
  define v where "v = unat a * 65536 + unat b * 256 + unat c"
  have lt: "v div 262144 < 64"
    using unat_byte_le[of a] unat_byte_le[of b] unat_byte_le[of c]
    unfolding v_def by (intro less_mult_imp_div_less) simp
  have v: "v = (unat a * 256 + unat b) * 256 + unat c" by (simp add: v_def)
  have "v div 256 = unat a * 256 + unat b" "v mod 256 = unat c"
    unfolding v by (simp_all only: div_mult_self3 mod_mult_self3) simp_all
  moreover have "v div 65536 = v div 256 div 256" by (simp add: div_mult2_eq[symmetric])
  ultimately have d: "v div 65536 = unat a" "v mod 256 = unat c" "v div 256 mod 256 = unat b"
    by simp_all
  show ?case
    using b64_digit_cases[of "v div 262144"] b64_digit_cases[of "v div 4096 mod 64"]
      b64_digit_cases[of "v div 64 mod 64"] b64_digit_cases[of "v mod 64"]
      b64_digit_plain[of "v mod 64"] b64_digit_plain[of "v div 64 mod 64"] lt 4
    by (simp add: Let_def b64_regroup3 d flip: v_def)
qed simp

lemma b64_decode_encode [simp]: "b64_DecodeString (b64_EncodeToString bs) = Some bs"
  by (simp add: b64_DecodeString_def b64_encode_no_newline b64_quanta_encode)

interpretation b64c: text_codec b64_EncodeToString b64_DecodeString
  by unfold_locales simp

section \<open>encoding/binary, big endian\<close>

definition putUint32 :: "uint32 \<Rightarrow> byte list" where
  "putUint32 w = (let n = unat w in
     [byte_of (n div 16777216), byte_of (n div 65536 mod 256),
      byte_of (n div 256 mod 256), byte_of (n mod 256)])"

definition getUint32 :: "byte list \<Rightarrow> uint32" where
  "getUint32 bs = word_of_nat (((unat (bs ! 0) * 256 + unat (bs ! 1)) * 256 +
     unat (bs ! 2)) * 256 + unat (bs ! 3))"

lemma length_putUint32 [simp]: "length (putUint32 w) = 4"
  by (simp add: putUint32_def Let_def)

lemma getUint32_putUint32 [simp]: "getUint32 (putUint32 w @ rest) = w"
proof -
  let ?n = "unat w"
  have lt: "?n div 16777216 < 256" using unsigned_less[of w]
    by (intro less_mult_imp_div_less) simp
  have "?n div 256 div 256 = ?n div 65536" "?n div 65536 div 256 = ?n div 16777216"
    by (simp_all add: div_mult2_eq[symmetric])
  then have "((?n div 16777216 * 256 + ?n div 65536 mod 256) * 256 + ?n div 256 mod 256) * 256 +
      ?n mod 256 = ?n"
    by (metis div_mult_mod_eq)
  then show ?thesis using lt by (simp add: putUint32_def getUint32_def Let_def nth_append)
qed

lemma putUint32_inj: "putUint32 v = putUint32 w \<longleftrightarrow> v = w"
  by (metis append_Nil2 getUint32_putUint32)

section \<open>hash/fnv\<close>

definition fnv1a_64 :: "byte list \<Rightarrow> uint64" where
  "fnv1a_64 bs = fold (\<lambda>b h. (h XOR ucast b) * 0x100000001b3) bs 0xcbf29ce484222325"

definition fnv1_64 :: "byte list \<Rightarrow> uint64" where
  "fnv1_64 bs = fold (\<lambda>b h. (h * 0x100000001b3) XOR ucast b) bs 0xcbf29ce484222325"

end
