(* ===== verification/Sha256.thy ===== *)
theory Sha256
  imports Codec
begin

text \<open>
  \<open>crypto/sha256\<close> of the standard library (FIPS 180-4), as an executable
  function on byte lists. Node identifiers, entity, developer and registry
  identifiers and derived key seeds are computed from it; the proofs use that
  a digest has 32 bytes.
\<close>

type_synonym sha_state =
  "uint32 \<times> uint32 \<times> uint32 \<times> uint32 \<times> uint32 \<times> uint32 \<times> uint32 \<times> uint32"

text \<open>The constants are the first 32 bits of the fractional parts of the square roots (initial
  state) and cube roots (round constants) of the first primes: integer roots of
  \<open>p * 2^(32 e)\<close> reduced modulo \<open>2^32\<close>, found bit by bit.\<close>

definition root_bits :: "nat \<Rightarrow> nat \<Rightarrow> nat" where
  "root_bits e n = foldl (\<lambda>acc b. if (acc + 2 ^ b) ^ e \<le> n then acc + 2 ^ b else acc) 0 (rev [0..<37])"

definition frac_root :: "nat \<Rightarrow> nat \<Rightarrow> uint32" where
  "frac_root e p = word_of_nat (root_bits e (p * 2 ^ (32 * e)))"

definition small_primes :: "nat list" where
  "small_primes = filter (\<lambda>n. list_all (\<lambda>k. n mod k \<noteq> 0) [2..<n]) [2..<312]"

definition sha_K :: "uint32 list" where
  "sha_K = map (frac_root 3) small_primes"

definition sha_init :: sha_state where
  "sha_init = (let h = map (frac_root 2) (take 8 small_primes) in
     (h ! 0, h ! 1, h ! 2, h ! 3, h ! 4, h ! 5, h ! 6, h ! 7))"

definition sha_pad :: "byte list \<Rightarrow> byte list" where
  "sha_pad bs = (let n = length bs; bits = (8 * n) mod 2 ^ 64 in
     bs @ [0x80] @ replicate ((119 - n mod 64) mod 64) 0 @
     putUint32 (word_of_nat (bits div 2 ^ 32)) @ putUint32 (word_of_nat (bits mod 2 ^ 32)))"

fun sha_words :: "byte list \<Rightarrow> uint32 list" where
  "sha_words (a # b # c # d # r) = getUint32 [a, b, c, d] # sha_words r"
| "sha_words _ = []"

fun sha_schedule :: "nat \<Rightarrow> uint32 list \<Rightarrow> uint32 list" where
  "sha_schedule 0 ws = ws"
| "sha_schedule (Suc n) ws = (let i = length ws; x = ws ! (i - 15); y = ws ! (i - 2) in
     sha_schedule n (ws @ [
       (word_rotr 17 y XOR word_rotr 19 y XOR drop_bit 10 y) + ws ! (i - 7) +
       (word_rotr 7 x XOR word_rotr 18 x XOR drop_bit 3 x) + ws ! (i - 16)]))"

fun sha_round :: "uint32 \<times> uint32 \<Rightarrow> sha_state \<Rightarrow> sha_state" where
  "sha_round (k, w) (a, b, c, d, e, f, g, h) =
     (let t1 = h + (word_rotr 6 e XOR word_rotr 11 e XOR word_rotr 25 e) +
               ((e AND f) XOR (NOT e AND g)) + k + w;
          t2 = (word_rotr 2 a XOR word_rotr 13 a XOR word_rotr 22 a) +
               ((a AND b) XOR (a AND c) XOR (b AND c))
      in (t1 + t2, a, b, c, d + t1, e, f, g))"

fun sha_add :: "sha_state \<Rightarrow> sha_state \<Rightarrow> sha_state" where
  "sha_add (a, b, c, d, e, f, g, h) (a', b', c', d', e', f', g', h') =
     (a + a', b + b', c + c', d + d', e + e', f + f', g + g', h + h')"

definition sha_block :: "uint32 list \<Rightarrow> sha_state \<Rightarrow> sha_state" where
  "sha_block ws st = sha_add st (fold sha_round (zip sha_K (sha_schedule 48 ws)) st)"

fun sha_blocks :: "nat \<Rightarrow> uint32 list \<Rightarrow> sha_state \<Rightarrow> sha_state" where
  "sha_blocks 0 ws st = st"
| "sha_blocks (Suc n) ws st = sha_blocks n (drop 16 ws) (sha_block (take 16 ws) st)"

fun sha_digest :: "sha_state \<Rightarrow> byte list" where
  "sha_digest (a, b, c, d, e, f, g, h) = concat (map putUint32 [a, b, c, d, e, f, g, h])"

definition sha256_Sum256 :: "byte list \<Rightarrow> byte list" where
  "sha256_Sum256 bs = (let ws = sha_words (sha_pad bs) in
     sha_digest (sha_blocks (length ws div 16) ws sha_init))"

lemma length_sha256 [simp]: "length (sha256_Sum256 bs) = 32"
proof -
  have "length (sha_digest st) = 32" for st by (cases st rule: sha_digest.cases) simp
  then show ?thesis by (simp add: sha256_Sum256_def Let_def)
qed

end
