(* ===== verification/Kademlia.thy ===== *)
theory Kademlia
  imports Sha256
begin

text \<open>
  Node identifiers and the routing table of the DHT
  (\<open>src/internal/dht/types.go\<close>, \<open>src/internal/dht/routing.go\<close>).

  A \<open>NodeID\<close> is a fixed array of 32 bytes: a subtype of the byte lists whose
  operations are lifted from lists. \<open>Less\<close> makes the type a linear order and
  the type is finite, which the lookups of the DHT use to terminate. Contacts,
  k-buckets and the routing table are records; an operation that may panic
  (an index or a slice bound out of range) returns an option, \<^term>\<open>None\<close>
  being the panic. \<open>time.Now().Unix()\<close> is the argument \<open>now\<close>.
\<close>

section \<open>Node identifiers\<close>

definition IDLength :: nat where "IDLength = 32"
definition DefaultK :: int where "DefaultK = 20"
definition DefaultAlpha :: int where "DefaultAlpha = 3"

typedef NodeID = "{bs :: byte list. length bs = 32}" morphisms id_bytes mk_NodeID
  by (rule exI[of _ "replicate 32 0"]) simp

setup_lifting type_definition_NodeID

lemma length_id_bytes [simp]: "length (id_bytes a) = 32"
  using id_bytes[of a] by simp

text \<open>\<open>copy(id[:], b)\<close> into a zeroed array.\<close>

definition NodeIDFromBytes :: "byte list \<Rightarrow> NodeID" where
  "NodeIDFromBytes b = mk_NodeID (take 32 b @ replicate (32 - length b) 0)"

definition NodeIDFromPublicKey :: "byte list \<Rightarrow> NodeID" where
  "NodeIDFromPublicKey pubKey = mk_NodeID (sha256_Sum256 pubKey)"

fun strip_id_prefix :: "string list \<Rightarrow> string \<Rightarrow> string" where
  "strip_id_prefix [] s = s"
| "strip_id_prefix (p # ps) s =
     (if length s > length p \<and> take (length p) s = p then drop (length p) s
      else strip_id_prefix ps s)"

definition NodeIDFromAgentID :: "string \<Rightarrow> NodeID option" where
  "NodeIDFromAgentID agentID =
     (let hexPart = strip_id_prefix [''zns:registry:'', ''zns:svc:'', ''zns:dev:'', ''zns:''] agentID
      in case hex_DecodeString hexPart of
           None \<Rightarrow> None
         | Some b \<Rightarrow> Some (NodeIDFromBytes b))"

lift_definition Distance :: "NodeID \<Rightarrow> NodeID \<Rightarrow> NodeID" is "map2 (XOR)"
  by simp

lift_definition IsZero :: "NodeID \<Rightarrow> bool" is "list_all (\<lambda>b. b = 0)" .

definition bits_LeadingZeros8 :: "byte \<Rightarrow> nat" where
  "bits_LeadingZeros8 b = (if 128 \<le> b then 0 else if 64 \<le> b then 1 else if 32 \<le> b then 2
     else if 16 \<le> b then 3 else if 8 \<le> b then 4 else if 4 \<le> b then 5
     else if 2 \<le> b then 6 else if 1 \<le> b then 7 else 8)"

fun leading_zeros_from :: "nat \<Rightarrow> byte list \<Rightarrow> nat" where
  "leading_zeros_from i [] = i * 8"
| "leading_zeros_from i (b # bs) =
     (if b \<noteq> 0 then i * 8 + bits_LeadingZeros8 b else leading_zeros_from (Suc i) bs)"

lift_definition LeadingZeros :: "NodeID \<Rightarrow> nat" is "leading_zeros_from 0" .

fun less_bytes :: "byte list \<Rightarrow> byte list \<Rightarrow> bool" where
  "less_bytes (a # as) (b # bs) =
     (if a < b then True else if b < a then False else less_bytes as bs)"
| "less_bytes _ _ = False"

lift_definition Less :: "NodeID \<Rightarrow> NodeID \<Rightarrow> bool" is less_bytes .

definition node_Hex :: "NodeID \<Rightarrow> string" where
  "node_Hex a = hex_EncodeToString (id_bytes a)"

definition node_Short :: "NodeID \<Rightarrow> string" where
  "node_Short a = hex_EncodeToString (take 4 (id_bytes a))"

lemma id_bytes_simps [simp]:
  "id_bytes (NodeIDFromBytes b) = take 32 b @ replicate (32 - length b) 0"
  "id_bytes (NodeIDFromPublicKey pk) = sha256_Sum256 pk"
  "id_bytes (Distance x y) = map2 (XOR) (id_bytes x) (id_bytes y)"
  by (simp_all add: NodeIDFromBytes_def NodeIDFromPublicKey_def mk_NodeID_inverse Distance.rep_eq)

lemmas NodeID_eq = id_bytes_inject[symmetric]

instantiation NodeID :: equal
begin
definition equal_NodeID :: "NodeID \<Rightarrow> NodeID \<Rightarrow> bool" where
  "equal_NodeID a b = (id_bytes a = id_bytes b)"
instance
  by standard (simp add: equal_NodeID_def id_bytes_inject)
end

subsection \<open>Identifiers as big-endian numbers\<close>

fun be_nat :: "byte list \<Rightarrow> nat" where
  "be_nat [] = 0"
| "be_nat (b # bs) = unat b * 256 ^ length bs + be_nat bs"

definition id_nat :: "NodeID \<Rightarrow> nat" where
  "id_nat a = be_nat (id_bytes a)"

lemma be_nat_bound: "be_nat bs < 256 ^ length bs"
proof (induction bs)
  case (Cons b bs)
  have "unat b * 256 ^ length bs + be_nat bs < (unat b + 1) * 256 ^ length bs"
    using Cons by simp
  also have "\<dots> \<le> 256 * 256 ^ length bs"
    using unat_byte_le[of b] by (intro mult_le_mono1) simp
  finally show ?case by simp
qed simp

lemma less_bytes_be_nat:
  "length as = length bs \<Longrightarrow> less_bytes as bs \<longleftrightarrow> be_nat as < be_nat bs"
proof (induction as bs rule: list_induct2)
  case (Cons a as b bs)
  have lt: "unat x * 256 ^ length bs + u < unat y * 256 ^ length bs + v"
    if "x < y" "u < 256 ^ length bs" for x y :: byte and u v
  proof -
    have "unat x + 1 \<le> unat y" using that(1) by (simp add: word_less_nat_alt)
    then have "(unat x + 1) * 256 ^ length bs \<le> unat y * 256 ^ length bs"
      by (rule mult_le_mono1)
    then show ?thesis using that(2) by simp
  qed
  have "be_nat as < 256 ^ length bs" "be_nat bs < 256 ^ length bs"
    using be_nat_bound[of as] be_nat_bound[of bs] Cons.hyps by simp_all
  then show ?case
    using Cons lt[of a b] lt[of b a]
    by (cases a b rule: linorder_cases) (auto simp: less_imp_not_less)
qed simp

lemma euclid_unique:
  fixes m :: nat
  assumes "r < m" "s < m" "p * m + r = q * m + s"
  shows "p = q \<and> r = s"
proof -
  have "(p * m + r) div m = p" "(q * m + s) div m = q"
    "(p * m + r) mod m = r" "(q * m + s) mod m = s"
    using assms(1,2) by simp_all
  then show ?thesis using assms(3) by simp
qed

lemma be_nat_inj: "length as = length bs \<Longrightarrow> be_nat as = be_nat bs \<Longrightarrow> as = bs"
proof (induction as bs rule: list_induct2)
  case (Cons a as b bs)
  have "be_nat as < 256 ^ length bs" "be_nat bs < 256 ^ length bs"
    using be_nat_bound[of as] be_nat_bound[of bs] Cons.hyps by simp_all
  moreover have "unat a * 256 ^ length bs + be_nat as = unat b * 256 ^ length bs + be_nat bs"
    using Cons.prems Cons.hyps by simp
  ultimately have "unat a = unat b \<and> be_nat as = be_nat bs"
    by (rule euclid_unique)
  then show ?case using Cons.IH by (metis byte_of_unat)
qed simp

lemma Less_id_nat: "Less a b \<longleftrightarrow> id_nat a < id_nat b"
  by (simp add: Less.rep_eq id_nat_def less_bytes_be_nat)

lemma id_nat_inj [simp]: "id_nat a = id_nat b \<longleftrightarrow> a = b"
  using be_nat_inj[of "id_bytes a" "id_bytes b"] by (auto simp: id_nat_def id_bytes_inject)

lemma id_nat_bound: "id_nat a < 2 ^ 256"
  using be_nat_bound[of "id_bytes a"] by (simp add: id_nat_def power_mult[of 2 8 32, simplified])

instantiation NodeID :: linorder
begin
definition less_NodeID :: "NodeID \<Rightarrow> NodeID \<Rightarrow> bool" where
  "less_NodeID a b = Less a b"
definition less_eq_NodeID :: "NodeID \<Rightarrow> NodeID \<Rightarrow> bool" where
  "less_eq_NodeID a b = (\<not> Less b a)"
instance
  by standard (auto simp: less_NodeID_def less_eq_NodeID_def Less_id_nat)
end

instance NodeID :: finite
proof
  have "UNIV \<subseteq> id_nat -` {..<2 ^ 256}" using id_nat_bound by auto
  moreover have "finite (id_nat -` {..<2 ^ 256})"
    by (rule finite_vimageI) (auto simp: inj_def)
  ultimately show "finite (UNIV :: NodeID set)" by (rule finite_subset)
qed

subsection \<open>The XOR metric\<close>

lemma map2_xor_cancel:
  "length as = length bs \<Longrightarrow> map2 (XOR) (map2 (XOR) as bs) bs = (as :: byte list)"
  by (induction as bs rule: list_induct2) (simp_all add: xor.assoc)

lemma map2_xor_commute: "map2 (XOR) as bs = map2 (XOR) bs (as :: byte list)"
  by (induction as bs rule: list_induct2') (simp_all add: xor.commute)

lemma map2_xor_via:
  "length as = length bs \<Longrightarrow> length bs = length cs \<Longrightarrow>
   map2 (XOR) (map2 (XOR) as bs) (map2 (XOR) bs cs) = map2 (XOR) as (cs :: byte list)"
proof (induction as bs cs rule: list_induct3)
  case (Cons a as b bs c cs)
  have "(a XOR b) XOR (b XOR c) = a XOR c"
    by (metis xor.assoc xor_self_eq xor.right_neutral)
  then show ?case using Cons by simp
qed simp

lemma Distance_cancel [simp]: "Distance (Distance a b) b = a"
  by (simp add: NodeID_eq map2_xor_cancel)

lemma Distance_commute: "Distance a b = Distance b a"
  by (simp add: NodeID_eq map2_xor_commute)

lemma Distance_via: "Distance (Distance a b) (Distance b c) = Distance a c"
  by (simp add: NodeID_eq map2_xor_via)

lemma Distance_inj [simp]: "Distance a t = Distance b t \<longleftrightarrow> a = b"
  by (metis Distance_cancel)

lemma Distance_inj_right [simp]: "Distance t a = Distance t b \<longleftrightarrow> a = b"
  by (metis Distance_cancel Distance_commute)

lemma id_nat_zero_iff: "id_nat a = 0 \<longleftrightarrow> IsZero a"
proof -
  have "be_nat bs = 0 \<longleftrightarrow> list_all (\<lambda>b. b = 0) bs" for bs
    by (induction bs) (auto simp: unsigned_eq_0_iff)
  then show ?thesis by (simp add: id_nat_def IsZero.rep_eq)
qed

lemma IsZero_Distance [simp]: "IsZero (Distance a b) \<longleftrightarrow> a = b"
proof -
  have "length as = length bs \<Longrightarrow> list_all (\<lambda>b. b = 0) (map2 (XOR) as bs) \<longleftrightarrow> as = bs"
    for as bs :: "byte list"
  proof (induction as bs rule: list_induct2)
    case (Cons x xs y ys)
    have "x XOR y = 0 \<Longrightarrow> x = y"
      using xor.assoc[of x y y] by simp
    then have "x XOR y = 0 \<longleftrightarrow> x = y" by auto
    then show ?case using Cons by simp
  qed simp
  then show ?thesis by (simp add: IsZero.rep_eq NodeID_eq)
qed

lemma xor_le_add_nat: "x XOR y \<le> x + (y :: nat)"
proof (induction x arbitrary: y rule: less_induct)
  case (less x)
  show ?case
  proof (cases "x = 0")
    case False
    then have "(x div 2) XOR (y div 2) \<le> x div 2 + y div 2" by (intro less) simp
    moreover have "x XOR y = of_bool (odd x \<noteq> odd y) + 2 * ((x div 2) XOR (y div 2))"
      by (rule xor_rec)
    moreover have "x = of_bool (odd x) + 2 * (x div 2)" "y = of_bool (odd y) + 2 * (y div 2)"
      by (simp_all add: mod_2_eq_odd[symmetric])
    moreover have "of_bool (odd x \<noteq> odd y) \<le> of_bool (odd x) + (of_bool (odd y) :: nat)" by simp
    ultimately show ?thesis by linarith
  qed simp
qed

lemma unat_xor_le: "unat (x XOR y) \<le> unat x + unat (y :: byte)"
  by (simp add: unsigned_xor_eq xor_le_add_nat)

lemma be_nat_xor_le:
  "length as = length bs \<Longrightarrow> be_nat (map2 (XOR) as bs) \<le> be_nat as + be_nat bs"
proof (induction as bs rule: list_induct2)
  case (Cons a as b bs)
  have "unat (a XOR b) * 256 ^ length bs \<le> (unat a + unat b) * 256 ^ length bs"
    using unat_xor_le by (rule mult_le_mono1)
  then show ?case using Cons by (simp add: add_mult_distrib)
qed simp

lemma id_nat_Distance_triangle:
  "id_nat (Distance a c) \<le> id_nat (Distance a b) + id_nat (Distance b c)"
  using be_nat_xor_le[of "id_bytes (Distance a b)" "id_bytes (Distance b c)"]
  by (simp add: id_nat_def flip: Distance_via[of a b c])

subsection \<open>Leading zeros bracket the distance\<close>

lemma LeadingZeros8_bracket:
  assumes "b \<noteq> 0"
  shows "bits_LeadingZeros8 b < 8" "2 ^ (7 - bits_LeadingZeros8 b) \<le> unat b"
    "unat b < 2 ^ (8 - bits_LeadingZeros8 b)"
proof -
  have "unat b \<noteq> 0" using assms by (simp add: unsigned_eq_0_iff)
  moreover have "unat b < 256" by simp
  ultimately show "bits_LeadingZeros8 b < 8" "2 ^ (7 - bits_LeadingZeros8 b) \<le> unat b"
    "unat b < 2 ^ (8 - bits_LeadingZeros8 b)"
    by (simp_all add: bits_LeadingZeros8_def word_le_nat_alt)
qed

lemma leading_zeros_from_shift:
  "leading_zeros_from i bs = 8 * i + leading_zeros_from 0 bs"
proof (induction bs arbitrary: i)
  case (Cons b bs)
  show ?case using Cons[of "Suc i"] Cons[of "Suc 0"] by simp
qed simp

lemma leading_zeros_bracket:
  assumes "be_nat bs \<noteq> 0"
  shows "leading_zeros_from 0 bs < 8 * length bs \<and>
    2 ^ (8 * length bs - leading_zeros_from 0 bs - 1) \<le> be_nat bs \<and>
    be_nat bs < 2 ^ (8 * length bs - leading_zeros_from 0 bs)"
  using assms
proof (induction bs)
  case (Cons b bs)
  let ?n = "length bs"
  show ?case
  proof (cases "b = 0")
    case True
    with Cons show ?thesis by (simp add: leading_zeros_from_shift[of "Suc 0"])
  next
    case False
    define z where "z = bits_LeadingZeros8 b"
    note br = LeadingZeros8_bracket[OF False, folded z_def]
    have p: "(2 :: nat) ^ (8 * ?n) = 256 ^ ?n" by (simp add: power_mult)
    have e1: "8 * Suc ?n - z - 1 = (7 - z) + 8 * ?n" "8 * Suc ?n - z = (8 - z) + 8 * ?n"
      using br(1) by simp_all
    have "2 ^ (7 - z) * 256 ^ ?n \<le> unat b * 256 ^ ?n" using br(2) by (rule mult_le_mono1)
    then have lo: "2 ^ (8 * Suc ?n - z - 1) \<le> be_nat (b # bs)"
      unfolding e1(1) power_add p be_nat.simps by (rule trans_le_add1)
    have "(unat b + 1) * 256 ^ ?n \<le> 2 ^ (8 - z) * 256 ^ ?n"
      using br(3) by (intro mult_le_mono1) simp
    then have hi: "be_nat (b # bs) < 2 ^ (8 * Suc ?n - z)"
      unfolding e1(2) power_add p using be_nat_bound[of bs] by simp
    show ?thesis using False lo hi br(1) by (simp add: z_def)
  qed
qed simp

lemma LeadingZeros_bracket:
  assumes "\<not> IsZero d"
  shows "LeadingZeros d < 256" "2 ^ (255 - LeadingZeros d) \<le> id_nat d"
    "id_nat d < 2 ^ (256 - LeadingZeros d)"
  using leading_zeros_bracket[of "id_bytes d"] assms
  by (simp_all add: id_nat_zero_iff[symmetric] id_nat_def LeadingZeros.rep_eq)

section \<open>Contacts and k-buckets\<close>

record NodeContact =
  nc_ID :: NodeID
  nc_Address :: string
  nc_LastSeen :: int

record EntityDHTRecord =
  dr_EntityID :: string
  dr_Name :: string
  dr_Category :: string
  dr_Tags :: "string list"
  dr_Summary :: string
  dr_EntityURL :: string
  dr_PublicKey :: string
  dr_HomeRegistry :: string
  dr_DeveloperID :: string
  dr_Status :: string
  dr_LastHeartbeat :: string
  dr_StoredAt :: string

record KBucket =
  kb_entries :: "NodeContact list"
  kb_k :: int

text \<open>\<open>make([]NodeContact, 0, k)\<close> panics for a negative capacity.\<close>

definition newKBucket :: "int \<Rightarrow> KBucket option" where
  "newKBucket k = (if k < 0 then None else Some \<lparr>kb_entries = [], kb_k = k\<rparr>)"

definition kb_Len :: "KBucket \<Rightarrow> nat" where
  "kb_Len b = length (kb_entries b)"

definition IsFull :: "KBucket \<Rightarrow> bool" where
  "IsFull b = (int (length (kb_entries b)) \<ge> kb_k b)"

definition Contains :: "KBucket \<Rightarrow> NodeID \<Rightarrow> bool" where
  "Contains b i = list_ex (\<lambda>e. nc_ID e = i) (kb_entries b)"

definition kb_Get :: "KBucket \<Rightarrow> NodeID \<Rightarrow> NodeContact option" where
  "kb_Get b i = find (\<lambda>e. nc_ID e = i) (kb_entries b)"

text \<open>\<open>append(entries[:i], entries[i+1:]...)\<close> at the first entry with the ID.\<close>

fun drop_first :: "NodeID \<Rightarrow> NodeContact list \<Rightarrow> NodeContact list" where
  "drop_first i [] = []"
| "drop_first i (e # es) = (if nc_ID e = i then es else e # drop_first i es)"

definition AddOrUpdate ::
  "int \<Rightarrow> NodeContact \<Rightarrow> KBucket \<Rightarrow> (KBucket \<times> NodeContact option) option" where
  "AddOrUpdate now contact b =
     (if Contains b (nc_ID contact) then
        Some (b\<lparr>kb_entries := drop_first (nc_ID contact) (kb_entries b) @
                [contact\<lparr>nc_LastSeen := now\<rparr>]\<rparr>, None)
      else if \<not> IsFull b then
        Some (b\<lparr>kb_entries := kb_entries b @ [contact\<lparr>nc_LastSeen := now\<rparr>]\<rparr>, None)
      else case kb_entries b of
             [] \<Rightarrow> None
           | candidate # _ \<Rightarrow> Some (b, Some candidate))"

definition Evict :: "int \<Rightarrow> NodeContact \<Rightarrow> KBucket \<Rightarrow> KBucket" where
  "Evict now newContact b =
     b\<lparr>kb_entries := (if length (kb_entries b) > 0 then tl (kb_entries b) else kb_entries b) @
        [newContact\<lparr>nc_LastSeen := now\<rparr>]\<rparr>"

definition MoveToTail :: "int \<Rightarrow> NodeID \<Rightarrow> KBucket \<Rightarrow> KBucket" where
  "MoveToTail now i b = (case kb_Get b i of
       None \<Rightarrow> b
     | Some e \<Rightarrow> b\<lparr>kb_entries := drop_first i (kb_entries b) @ [e\<lparr>nc_LastSeen := now\<rparr>]\<rparr>)"

definition kb_Remove :: "NodeID \<Rightarrow> KBucket \<Rightarrow> KBucket" where
  "kb_Remove i b = b\<lparr>kb_entries := drop_first i (kb_entries b)\<rparr>"

definition kb_Entries :: "KBucket \<Rightarrow> NodeContact list" where
  "kb_Entries b = kb_entries b"

subsection \<open>Bucket invariant\<close>

definition kb_ok :: "int \<Rightarrow> KBucket \<Rightarrow> bool" where
  "kb_ok k b = (kb_k b = k \<and> int (length (kb_entries b)) \<le> k \<and>
     distinct (map nc_ID (kb_entries b)))"

abbreviation kb_ids :: "KBucket \<Rightarrow> NodeID set" where
  "kb_ids b \<equiv> nc_ID ` set (kb_entries b)"

lemma Contains_iff [simp]: "Contains b i \<longleftrightarrow> i \<in> kb_ids b"
  by (auto simp: Contains_def list_ex_iff)

lemma drop_first_notin: "i \<notin> nc_ID ` set es \<Longrightarrow> drop_first i es = es"
  by (induction es) auto

lemma drop_first_filter:
  "distinct (map nc_ID es) \<Longrightarrow> drop_first i es = filter (\<lambda>e. nc_ID e \<noteq> i) es"
proof (induction es)
  case (Cons e es)
  show ?case
  proof (cases "nc_ID e = i")
    case True
    with Cons.prems have "\<forall>x\<in>set es. nc_ID x \<noteq> i" by (auto simp: image_iff)
    then have "filter (\<lambda>e. nc_ID e \<noteq> i) es = es" by (intro filter_True)
    then show ?thesis using True by simp
  qed (use Cons in simp)
qed simp

lemma drop_first_props:
  assumes "distinct (map nc_ID es)"
  shows "nc_ID ` set (drop_first i es) = nc_ID ` set es - {i}"
    "distinct (map nc_ID (drop_first i es))"
  using assms by (auto simp: drop_first_filter distinct_map_filter)

lemma length_drop_first:
  "length (drop_first i es) = length es - (if i \<in> nc_ID ` set es then 1 else 0)"
  by (induction es) (auto simp: Suc_diff_Suc dest: length_pos_if_in_set)

lemma length_drop_first_le: "length (drop_first i es) \<le> length es"
  by (simp add: length_drop_first)

lemma kb_Get_Some:
  "kb_Get b i = Some e \<Longrightarrow> e \<in> set (kb_entries b) \<and> nc_ID e = i"
  by (auto simp: kb_Get_def find_Some_iff in_set_conv_nth)

lemma kb_Get_None: "kb_Get b i = None \<longleftrightarrow> i \<notin> kb_ids b"
  by (auto simp: kb_Get_def find_None_iff)

lemma kb_ids_nonempty: "i \<in> kb_ids b \<Longrightarrow> 0 < length (kb_entries b)"
  by (cases "kb_entries b") auto

lemma AddOrUpdate_known:
  assumes "kb_ok k b" "nc_ID c \<in> kb_ids b"
  shows "kb_ok k (b\<lparr>kb_entries := drop_first (nc_ID c) (kb_entries b) @ [c\<lparr>nc_LastSeen := now\<rparr>]\<rparr>)"
    "nc_ID ` set (drop_first (nc_ID c) (kb_entries b) @ [c\<lparr>nc_LastSeen := now\<rparr>]) = kb_ids b"
proof -
  have d: "distinct (map nc_ID (kb_entries b))" using assms(1) by (simp add: kb_ok_def)
  have len: "length (drop_first (nc_ID c) (kb_entries b)) + 1 = length (kb_entries b)"
    using kb_ids_nonempty[OF assms(2)] assms(2) by (simp add: length_drop_first)
  show "nc_ID ` set (drop_first (nc_ID c) (kb_entries b) @ [c\<lparr>nc_LastSeen := now\<rparr>]) = kb_ids b"
    using drop_first_props(1)[OF d, of "nc_ID c"] assms(2) by auto
  have "nc_ID c \<notin> nc_ID ` set (drop_first (nc_ID c) (kb_entries b))"
    by (simp add: drop_first_props(1)[OF d])
  then show "kb_ok k (b\<lparr>kb_entries := drop_first (nc_ID c) (kb_entries b) @ [c\<lparr>nc_LastSeen := now\<rparr>]\<rparr>)"
    using assms(1) len drop_first_props(2)[OF d] by (simp add: kb_ok_def)
qed

lemma AddOrUpdate_ok:
  assumes "kb_ok k b" "0 < k"
  obtains b' ev where "AddOrUpdate now c b = Some (b', ev)" "kb_ok k b'"
    "kb_ids b' \<subseteq> insert (nc_ID c) (kb_ids b)"
    "ev \<noteq> None \<Longrightarrow> b' = b \<and> nc_ID c \<notin> kb_ids b \<and> IsFull b \<and> ev = Some (hd (kb_entries b))"
    "ev = None \<Longrightarrow> kb_ids b' = insert (nc_ID c) (kb_ids b) \<and>
       last (kb_entries b') = c\<lparr>nc_LastSeen := now\<rparr>"
proof (cases "nc_ID c \<in> kb_ids b")
  case True
  with AddOrUpdate_known[OF assms(1) True, of now] show ?thesis
    by (intro that[of "b\<lparr>kb_entries := drop_first (nc_ID c) (kb_entries b) @ [c\<lparr>nc_LastSeen := now\<rparr>]\<rparr>" None])
      (simp_all add: AddOrUpdate_def insert_absorb)
next
  case out: False
  show ?thesis
  proof (cases "IsFull b")
    case True
    then obtain e es where "kb_entries b = e # es"
      using assms by (cases "kb_entries b") (auto simp: IsFull_def kb_ok_def)
    then show ?thesis
      using out True assms by (intro that[of b "Some e"]) (auto simp: AddOrUpdate_def)
  next
    case False
    then show ?thesis
      using out assms
      by (intro that[of "b\<lparr>kb_entries := kb_entries b @ [c\<lparr>nc_LastSeen := now\<rparr>]\<rparr>" None])
        (simp_all add: AddOrUpdate_def kb_ok_def IsFull_def)
  qed
qed

lemma Evict_ok:
  assumes "kb_ok k b" "0 < k" "nc_ID c \<notin> kb_ids b"
  shows "kb_ok k (Evict now c b)" "kb_ids (Evict now c b) \<subseteq> insert (nc_ID c) (kb_ids b)"
    "nc_ID c \<in> kb_ids (Evict now c b)"
  using assms by (cases "kb_entries b"; auto simp: Evict_def kb_ok_def)+

lemma MoveToTail_ok:
  assumes "kb_ok k b"
  shows "kb_ok k (MoveToTail now i b) \<and> kb_ids (MoveToTail now i b) = kb_ids b"
proof (cases "kb_Get b i")
  case (Some e)
  then have "nc_ID e = i" "nc_ID e \<in> kb_ids b" using kb_Get_Some by blast+
  then show ?thesis
    using Some AddOrUpdate_known[OF assms, of e now] by (simp add: MoveToTail_def)
qed (use assms in \<open>simp add: MoveToTail_def\<close>)

lemma Remove_ok:
  assumes "kb_ok k b"
  shows "kb_ok k (kb_Remove i b) \<and> kb_ids (kb_Remove i b) = kb_ids b - {i}"
proof -
  have d: "distinct (map nc_ID (kb_entries b))" using assms by (simp add: kb_ok_def)
  show ?thesis
    using assms drop_first_props[OF d, of i] length_drop_first_le[of i "kb_entries b"]
    by (simp add: kb_Remove_def kb_ok_def)
qed

end
