(* ===== verification/Routing.thy ===== *)
theory Routing
  imports Kademlia
begin

text \<open>
  The Kademlia routing table (\<open>src/internal/dht/routing.go\<close>): 256 k-buckets
  indexed by the position of the highest bit in which an identifier differs
  from the local one. The invariant \<open>rt_inv\<close> says that every bucket is
  within its capacity, has no duplicates, holds only identifiers that belong to
  it and never the local node. \<open>FindClosest\<close> is proved to return the closest
  nodes of the table, in order.
\<close>

definition NumBuckets :: nat where "NumBuckets = IDLength * 8"

lemma NumBuckets_256 [simp]: "NumBuckets = 256"
  by (simp add: NumBuckets_def IDLength_def)

record RoutingTable =
  rt_selfID :: NodeID
  rt_buckets :: "KBucket list"
  rt_k :: int

definition NewRoutingTable :: "NodeID \<Rightarrow> int \<Rightarrow> RoutingTable option" where
  "NewRoutingTable selfID k = (case newKBucket k of
       None \<Rightarrow> None
     | Some b \<Rightarrow> Some \<lparr>rt_selfID = selfID, rt_buckets = replicate NumBuckets b, rt_k = k\<rparr>)"

definition BucketIndex :: "RoutingTable \<Rightarrow> NodeID \<Rightarrow> nat" where
  "BucketIndex rt target =
     (let dist = Distance (rt_selfID rt) target;
          lz = LeadingZeros dist;
          idx = int NumBuckets - 1 - int lz
      in if idx < 0 then 0 else nat idx)"

definition set_bucket :: "nat \<Rightarrow> KBucket \<Rightarrow> RoutingTable \<Rightarrow> RoutingTable" where
  "set_bucket i b rt = rt\<lparr>rt_buckets := (rt_buckets rt)[i := b]\<rparr>"

definition AddNode ::
  "int \<Rightarrow> NodeContact \<Rightarrow> RoutingTable \<Rightarrow> (RoutingTable \<times> NodeContact option) option" where
  "AddNode now contact rt =
     (if nc_ID contact = rt_selfID rt then Some (rt, None)
      else let idx = BucketIndex rt (nc_ID contact) in
        case AddOrUpdate now contact (rt_buckets rt ! idx) of
          None \<Rightarrow> None
        | Some (b, candidate) \<Rightarrow> Some (set_bucket idx b rt, candidate))"

definition RemoveNode :: "NodeID \<Rightarrow> RoutingTable \<Rightarrow> RoutingTable" where
  "RemoveNode i rt = (let idx = BucketIndex rt i in
     set_bucket idx (kb_Remove i (rt_buckets rt ! idx)) rt)"

definition EvictAndReplace :: "int \<Rightarrow> int \<Rightarrow> NodeContact \<Rightarrow> RoutingTable \<Rightarrow> RoutingTable" where
  "EvictAndReplace now bucketIdx newContact rt =
     (if bucketIdx \<ge> 0 \<and> bucketIdx < int NumBuckets
      then set_bucket (nat bucketIdx) (Evict now newContact (rt_buckets rt ! nat bucketIdx)) rt
      else rt)"

definition MarkSeen :: "int \<Rightarrow> NodeID \<Rightarrow> RoutingTable \<Rightarrow> RoutingTable" where
  "MarkSeen now i rt = (let idx = BucketIndex rt i in
     set_bucket idx (MoveToTail now i (rt_buckets rt ! idx)) rt)"

definition AllNodes :: "RoutingTable \<Rightarrow> NodeContact list" where
  "AllNodes rt = concat (map kb_Entries (rt_buckets rt))"

text \<open>The callback of \<open>sort.Slice\<close>, and the bounded reslice \<open>all[:cnt]\<close>, which
  panics on a negative bound.\<close>

definition closer :: "NodeID \<Rightarrow> NodeContact \<Rightarrow> NodeContact \<Rightarrow> bool" where
  "closer target x y = Less (Distance (nc_ID x) target) (Distance (nc_ID y) target)"

definition slice_to :: "int \<Rightarrow> 'a list \<Rightarrow> 'a list option" where
  "slice_to cnt xs =
     (if int (length xs) > cnt then if cnt < 0 then None else Some (take (nat cnt) xs)
      else Some xs)"

definition FindClosest :: "RoutingTable \<Rightarrow> NodeID \<Rightarrow> int \<Rightarrow> NodeContact list option" where
  "FindClosest rt target cnt =
     slice_to cnt (sort_Slice (closer target) (concat (map kb_Entries (rt_buckets rt))))"

definition rt_Size :: "RoutingTable \<Rightarrow> nat" where
  "rt_Size rt = sum_list (map kb_Len (rt_buckets rt))"

section \<open>The bucket index\<close>

lemma BucketIndex_range [simp]: "BucketIndex rt target < 256"
  by (auto simp: BucketIndex_def Let_def)

lemma BucketIndex_set_bucket [simp]: "BucketIndex (set_bucket i b rt) = BucketIndex rt"
  by (simp add: BucketIndex_def set_bucket_def fun_eq_iff)

lemma BucketIndex_bracket:
  assumes "target \<noteq> rt_selfID rt"
  shows "2 ^ BucketIndex rt target \<le> id_nat (Distance (rt_selfID rt) target)"
    "id_nat (Distance (rt_selfID rt) target) < 2 ^ Suc (BucketIndex rt target)"
proof -
  let ?d = "Distance (rt_selfID rt) target"
  have nz: "\<not> IsZero ?d" using assms by auto
  note br = LeadingZeros_bracket[OF nz]
  have "BucketIndex rt target = 255 - LeadingZeros ?d"
    "256 - LeadingZeros ?d = Suc (255 - LeadingZeros ?d)"
    using br(1) by (auto simp: BucketIndex_def Let_def)
  then show "2 ^ BucketIndex rt target \<le> id_nat ?d" "id_nat ?d < 2 ^ Suc (BucketIndex rt target)"
    using br(2,3) by metis+
qed

section \<open>The routing table invariant\<close>

definition rt_inv :: "RoutingTable \<Rightarrow> bool" where
  "rt_inv rt = (0 < rt_k rt \<and> length (rt_buckets rt) = 256 \<and>
     (\<forall>i<256. kb_ok (rt_k rt) (rt_buckets rt ! i) \<and>
        (\<forall>c\<in>set (kb_entries (rt_buckets rt ! i)).
           nc_ID c \<noteq> rt_selfID rt \<and> BucketIndex rt (nc_ID c) = i)))"

abbreviation rt_ids :: "RoutingTable \<Rightarrow> NodeID set" where
  "rt_ids rt \<equiv> nc_ID ` set (AllNodes rt)"

lemma rt_invD:
  assumes "rt_inv rt"
  shows "0 < rt_k rt" "length (rt_buckets rt) = 256"
    "i < 256 \<Longrightarrow> kb_ok (rt_k rt) (rt_buckets rt ! i)"
    "i < 256 \<Longrightarrow> x \<in> kb_ids (rt_buckets rt ! i) \<Longrightarrow> x \<noteq> rt_selfID rt"
    "i < 256 \<Longrightarrow> x \<in> kb_ids (rt_buckets rt ! i) \<Longrightarrow> BucketIndex rt x = i"
  using assms by (auto simp: rt_inv_def)

lemma set_AllNodes:
  assumes "length (rt_buckets rt) = 256"
  shows "set (AllNodes rt) = (\<Union>i<256. set (kb_entries (rt_buckets rt ! i)))"
proof -
  have "set (rt_buckets rt) = (!) (rt_buckets rt) ` {..<256}"
    using nth_image[of 256 "rt_buckets rt"] assms by (simp add: atLeast0LessThan)
  then show ?thesis by (simp add: AllNodes_def kb_Entries_def)
qed

lemma rt_ids_iff:
  assumes "rt_inv rt"
  shows "x \<in> rt_ids rt \<longleftrightarrow> x \<in> kb_ids (rt_buckets rt ! BucketIndex rt x)"
proof -
  have "x \<in> rt_ids rt \<longleftrightarrow> (\<exists>i<256. x \<in> kb_ids (rt_buckets rt ! i))"
    using rt_invD(2)[OF assms] by (auto simp: set_AllNodes)
  also have "\<dots> \<longleftrightarrow> x \<in> kb_ids (rt_buckets rt ! BucketIndex rt x)"
    using rt_invD(5)[OF assms] by (metis BucketIndex_range)
  finally show ?thesis .
qed

lemma self_notin_table:
  assumes "rt_inv rt"
  shows "rt_selfID rt \<notin> rt_ids rt"
  unfolding rt_ids_iff[OF assms] using rt_invD(4)[OF assms BucketIndex_range] by blast

lemma set_bucket_simps [simp]:
  "rt_selfID (set_bucket i b rt) = rt_selfID rt" "rt_k (set_bucket i b rt) = rt_k rt"
  "rt_buckets (set_bucket i b rt) = (rt_buckets rt)[i := b]"
  by (simp_all add: set_bucket_def)

lemma set_bucket_same [simp]: "set_bucket i (rt_buckets rt ! i) rt = rt"
  by (simp add: set_bucket_def)

lemma rt_inv_set_bucket:
  assumes "rt_inv rt" "i < 256" "kb_ok (rt_k rt) b"
    "\<And>x. x \<in> kb_ids b \<Longrightarrow> x \<noteq> rt_selfID rt \<and> BucketIndex rt x = i"
  shows "rt_inv (set_bucket i b rt)"
proof -
  show ?thesis
    using assms unfolding rt_inv_def BucketIndex_set_bucket by (simp add: nth_list_update)
qed

lemma rt_inv_grow_bucket:
  assumes "rt_inv rt" "i < 256" "kb_ok (rt_k rt) b"
    "kb_ids b \<subseteq> kb_ids (rt_buckets rt ! i) \<union> {x. x \<noteq> rt_selfID rt \<and> BucketIndex rt x = i}"
  shows "rt_inv (set_bucket i b rt)"
proof (rule rt_inv_set_bucket[OF assms(1-3)])
  fix x assume "x \<in> kb_ids b"
  then show "x \<noteq> rt_selfID rt \<and> BucketIndex rt x = i"
    using assms(4) rt_invD(4,5)[OF assms(1,2)] by blast
qed

lemma NewRoutingTable_inv:
  assumes "0 < k"
  obtains rt where "NewRoutingTable selfID k = Some rt" "rt_inv rt" "rt_selfID rt = selfID"
    "rt_k rt = k" "AllNodes rt = []"
  using assms
  by (auto simp: NewRoutingTable_def newKBucket_def rt_inv_def kb_ok_def AllNodes_def kb_Entries_def)

lemma AddNode_cases:
  assumes "rt_inv rt"
  obtains rt' ev where "AddNode now c rt = Some (rt', ev)" "rt_inv rt'"
    "rt_selfID rt' = rt_selfID rt" "rt_k rt' = rt_k rt"
    "ev \<noteq> None \<Longrightarrow> rt' = rt \<and> nc_ID c \<notin> rt_ids rt \<and> nc_ID c \<noteq> rt_selfID rt \<and>
       IsFull (rt_buckets rt ! BucketIndex rt (nc_ID c)) \<and>
       ev = Some (hd (kb_entries (rt_buckets rt ! BucketIndex rt (nc_ID c))))"
    "ev = None \<Longrightarrow> nc_ID c \<noteq> rt_selfID rt \<Longrightarrow> nc_ID c \<in> rt_ids rt'"
proof (cases "nc_ID c = rt_selfID rt")
  case True
  then show ?thesis using assms that[of rt None] by (simp add: AddNode_def)
next
  case False
  let ?i = "BucketIndex rt (nc_ID c)"
  have i: "?i < 256" by simp
  obtain b' ev where b': "AddOrUpdate now c (rt_buckets rt ! ?i) = Some (b', ev)"
    "kb_ok (rt_k rt) b'" "kb_ids b' \<subseteq> insert (nc_ID c) (kb_ids (rt_buckets rt ! ?i))"
    "ev \<noteq> None \<Longrightarrow> b' = rt_buckets rt ! ?i \<and> nc_ID c \<notin> kb_ids (rt_buckets rt ! ?i) \<and>
       IsFull (rt_buckets rt ! ?i) \<and> ev = Some (hd (kb_entries (rt_buckets rt ! ?i)))"
    "ev = None \<Longrightarrow> kb_ids b' = insert (nc_ID c) (kb_ids (rt_buckets rt ! ?i))"
    using AddOrUpdate_ok[OF rt_invD(3)[OF assms i] rt_invD(1)[OF assms]] by metis
  have inv: "rt_inv (set_bucket ?i b' rt)"
    by (rule rt_inv_grow_bucket[OF assms i b'(2)], rule order_trans[OF b'(3)]) (use False in simp)
  show ?thesis
  proof (rule that)
    show "AddNode now c rt = Some (set_bucket ?i b' rt, ev)"
      using False b'(1) by (simp add: AddNode_def)
    show "rt_inv (set_bucket ?i b' rt)" by (fact inv)
    show "nc_ID c \<in> rt_ids (set_bucket ?i b' rt)" if "ev = None"
      unfolding rt_ids_iff[OF inv] using b'(5)[OF that] rt_invD(2)[OF assms] by simp
    show "set_bucket ?i b' rt = rt \<and> nc_ID c \<notin> rt_ids rt \<and> nc_ID c \<noteq> rt_selfID rt \<and>
       IsFull (rt_buckets rt ! ?i) \<and> ev = Some (hd (kb_entries (rt_buckets rt ! ?i)))"
      if "ev \<noteq> None"
      unfolding rt_ids_iff[OF assms] using b'(4)[OF that] False by simp
  qed simp_all
qed

lemma EvictAndReplace_inv:
  assumes "rt_inv rt" "nc_ID c \<notin> rt_ids rt" "nc_ID c \<noteq> rt_selfID rt"
  shows "rt_inv (EvictAndReplace now (int (BucketIndex rt (nc_ID c))) c rt)"
    "nc_ID c \<in> rt_ids (EvictAndReplace now (int (BucketIndex rt (nc_ID c))) c rt)"
proof -
  let ?i = "BucketIndex rt (nc_ID c)"
  let ?b = "Evict now c (rt_buckets rt ! ?i)"
  have e: "EvictAndReplace now (int ?i) c rt = set_bucket ?i ?b rt"
    by (simp add: EvictAndReplace_def)
  have out: "nc_ID c \<notin> kb_ids (rt_buckets rt ! ?i)" using assms rt_ids_iff by simp
  have i: "?i < 256" by simp
  note ev = Evict_ok[OF rt_invD(3)[OF assms(1) i] rt_invD(1)[OF assms(1)] out]
  show inv: "rt_inv (EvictAndReplace now (int ?i) c rt)"
    unfolding e by (rule rt_inv_grow_bucket[OF assms(1) i ev(1)], rule order_trans[OF ev(2)])
      (use assms(3) in simp)
  show "nc_ID c \<in> rt_ids (EvictAndReplace now (int ?i) c rt)"
    unfolding rt_ids_iff[OF inv] unfolding e using ev(3) rt_invD(2)[OF assms(1)] by simp
qed

lemma RemoveNode_inv: "rt_inv rt \<Longrightarrow> rt_inv (RemoveNode i rt)"
  unfolding RemoveNode_def Let_def
  by (rule rt_inv_grow_bucket) (use Remove_ok[OF rt_invD(3)] in \<open>simp_all, blast\<close>)

lemma MarkSeen_inv: "rt_inv rt \<Longrightarrow> rt_inv (MarkSeen now i rt)"
  unfolding MarkSeen_def Let_def
  by (rule rt_inv_grow_bucket) (use MoveToTail_ok[OF rt_invD(3)] in \<open>simp_all\<close>)

lemma AllNodes_distinct: "rt_inv rt \<Longrightarrow> distinct (map nc_ID (AllNodes rt))"
  unfolding AllNodes_def
proof (rule distinct_concat_indexed[where g = "BucketIndex rt"])
  fix i assume "rt_inv rt" "i < length (map kb_Entries (rt_buckets rt))"
  then show "distinct (map nc_ID (map kb_Entries (rt_buckets rt) ! i))"
    using rt_invD(2,3) by (simp add: kb_Entries_def kb_ok_def)
next
  fix i x assume "rt_inv rt" "i < length (map kb_Entries (rt_buckets rt))"
    "x \<in> set (map kb_Entries (rt_buckets rt) ! i)"
  then show "BucketIndex rt (nc_ID x) = i"
    using rt_invD(2,5) by (simp add: kb_Entries_def)
qed

lemma rt_Size_bound:
  assumes "rt_inv rt"
  shows "int (rt_Size rt) \<le> 256 * rt_k rt" "rt_Size rt = card (rt_ids rt)"
proof -
  have "rt_Size rt \<le> length (map kb_Len (rt_buckets rt)) * nat (rt_k rt)"
    unfolding rt_Size_def
  proof (rule sum_list_le_mult)
    fix x assume "x \<in> set (map kb_Len (rt_buckets rt))"
    then obtain i where "i < 256" "x = length (kb_entries (rt_buckets rt ! i))"
      using rt_invD(2)[OF assms] by (auto simp: kb_Len_def in_set_conv_nth)
    then show "x \<le> nat (rt_k rt)" using rt_invD(3)[OF assms, of i] by (simp add: kb_ok_def le_nat_iff)
  qed
  then have "rt_Size rt \<le> 256 * nat (rt_k rt)" using rt_invD(2)[OF assms] by simp
  then show "int (rt_Size rt) \<le> 256 * rt_k rt" using rt_invD(1)[OF assms] by linarith
  have "rt_Size rt = length (AllNodes rt)"
    by (simp add: rt_Size_def AllNodes_def kb_Len_def[abs_def] kb_Entries_def[abs_def]
        length_concat comp_def)
  then show "rt_Size rt = card (rt_ids rt)"
    using AllNodes_distinct[OF assms] by (metis distinct_card length_map set_map)
qed

section \<open>FindClosest\<close>

interpretation near: slice_key "closer t" "\<lambda>c. Distance (nc_ID c) t" for t
  by unfold_locales (simp add: closer_def less_NodeID_def)

lemma slice_to_Some: "0 \<le> cnt \<Longrightarrow> slice_to cnt xs = Some (take (nat cnt) xs)"
  by (auto simp: slice_to_def)

lemma closer_total:
  assumes "nc_ID x \<noteq> nc_ID y" "\<not> closer t x y"
  shows "closer t y x"
  using assms by (auto simp: closer_def Less_id_nat) (metis Distance_inj id_nat_inj linorder_neqE_nat)

lemma FindClosest_Some:
  "0 \<le> cnt \<Longrightarrow> FindClosest rt target cnt =
     Some (take (nat cnt) (sort_Slice (closer target) (AllNodes rt)))"
  by (simp add: FindClosest_def slice_to_Some AllNodes_def)

lemma FindClosest_correct:
  assumes "rt_inv rt" "0 \<le> cnt"
  obtains xs where "FindClosest rt target cnt = Some xs"
    "length xs = min (nat cnt) (rt_Size rt)"
    "set xs \<subseteq> set (AllNodes rt)" "distinct (map nc_ID xs)"
    "sorted_wrt (closer target) xs"
    "\<And>x y. x \<in> set xs \<Longrightarrow> y \<in> set (AllNodes rt) - set xs \<Longrightarrow> closer target x y"
proof -
  let ?s = "sort_Slice (closer target) (AllNodes rt)"
  let ?n = "nat cnt"
  have dist: "distinct (map nc_ID (AllNodes rt))" using AllNodes_distinct assms(1) by blast
  have sort: "near.sorted_by target ?s" by (rule near.sorted_by_sort_Slice)
  show ?thesis
  proof (rule that)
    show "FindClosest rt target cnt = Some (take ?n ?s)" using assms(2) by (rule FindClosest_Some)
    show "length (take ?n ?s) = min ?n (rt_Size rt)"
      using dist rt_Size_bound(2)[OF assms(1)]
      by (simp add: distinct_card[of "map nc_ID (AllNodes rt)", simplified] min.commute)
    show "set (take ?n ?s) \<subseteq> set (AllNodes rt)" using set_take_subset[of ?n ?s] by simp
    have d: "distinct (map nc_ID ?s)" using dist by simp
    then show dt: "distinct (map nc_ID (take ?n ?s))" by (rule distinct_map_take)
    have "distinct (map (\<lambda>c. Distance (nc_ID c) target) (take ?n ?s))"
      using dt by (simp add: distinct_map inj_on_def)
    then show "sorted_wrt (closer target) (take ?n ?s)"
      using near.sorted_strict near.sorted_by_take[OF sort] by blast
    fix x y assume x: "x \<in> set (take ?n ?s)" and y: "y \<in> set (AllNodes rt) - set (take ?n ?s)"
    then have "y \<in> set (drop ?n ?s)"
      by (metis Diff_iff UnE append_take_drop_id set_append set_sort_Slice)
    then have "\<not> closer target y x" using near.take_not_beaten[OF sort x] by blast
    moreover have "nc_ID x \<noteq> nc_ID y"
      using map_eq_key_unique[OF d, of x y] in_set_takeD[OF x] x y by auto
    ultimately show "closer target x y" using closer_total by blast
  qed
qed

end
