(* ===== verification/Dht.thy ===== *)
theory Dht
  imports Routing
begin

text \<open>
  The DHT node (\<open>src/internal/dht/dht.go\<close>, \<open>src/internal/dht/mesh_adapter.go\<close>):
  its configuration and state, the message handler, the k-bucket maintenance
  with liveness pings, the local store with expiry, and the iterative lookups.

  The network is the parameter \<open>send\<close> (a reply or \<^term>\<open>None\<close> for an error), for
  the lookups \<open>net r j\<close>, the answer to the \<open>j\<close>-th query of round \<open>r\<close>. The order in
  which the goroutines of a round deliver their answers, and the deadline of
  the context, are the schedule \<open>sched r\<close>: the queries whose answers arrive, in
  order; a round whose answers do not all arrive is one the deadline cuts.
  Both are arbitrary in every theorem. \<open>time.Now()\<close> is \<open>now\<close> (nanoseconds),
  random request identifiers are \<open>rid\<close>. An outer \<^term>\<open>None\<close> is a panic.
\<close>

section \<open>Configuration, messages and state\<close>

record Config =
  cf_K :: int
  cf_Alpha :: int
  cf_RepublishInterval :: int
  cf_ExpireAfter :: int
  cf_LookupTimeout :: int

definition nsSecond :: int where "nsSecond = 1000000000"

definition DefaultConfig :: Config where
  "DefaultConfig = \<lparr>cf_K = DefaultK, cf_Alpha = DefaultAlpha,
     cf_RepublishInterval = 3600 * nsSecond, cf_ExpireAfter = 24 * 3600 * nsSecond,
     cf_LookupTimeout = 5 * nsSecond\<rparr>"

record storedRecord =
  sr_Record :: EntityDHTRecord
  sr_StoredAt :: int

definition MsgPing :: string where "MsgPing = ''dht_ping''"
definition MsgPingReply :: string where "MsgPingReply = ''dht_ping_reply''"
definition MsgStore :: string where "MsgStore = ''dht_store''"
definition MsgStoreReply :: string where "MsgStoreReply = ''dht_store_reply''"
definition MsgFindNode :: string where "MsgFindNode = ''dht_find_node''"
definition MsgFindNodeReply :: string where "MsgFindNodeReply = ''dht_find_node_reply''"
definition MsgFindValue :: string where "MsgFindValue = ''dht_find_value''"
definition MsgFindValueReply :: string where "MsgFindValueReply = ''dht_find_value_reply''"

lemmas msg_type_defs = MsgPing_def MsgPingReply_def MsgStore_def MsgStoreReply_def
  MsgFindNode_def MsgFindNodeReply_def MsgFindValue_def MsgFindValueReply_def

record Message =
  m_Type :: string
  m_SenderID :: NodeID
  m_RequestID :: string
  m_SenderAddr :: string
  m_Key :: NodeID
  m_Record :: "EntityDHTRecord option"
  m_Target :: NodeID
  m_Nodes :: "NodeContact list"
  m_Value :: "EntityDHTRecord option"
  m_OK :: bool
  m_Timestamp :: int

text \<open>The fields a Go composite literal leaves out are zero.\<close>

definition zeroID :: NodeID where "zeroID = NodeIDFromBytes []"

definition zeroMessage :: Message where
  "zeroMessage = \<lparr>m_Type = '''', m_SenderID = zeroID, m_RequestID = '''', m_SenderAddr = '''',
     m_Key = zeroID, m_Record = None, m_Target = zeroID, m_Nodes = [], m_Value = None,
     m_OK = False, m_Timestamp = 0\<rparr>"

type_synonym transport = "string \<Rightarrow> Message \<Rightarrow> Message option"

record DHT =
  d_selfID :: NodeID
  d_selfAddr :: string
  d_routingTable :: RoutingTable
  d_config :: Config
  d_store :: "string \<rightharpoonup> storedRecord"

definition default_to :: "int \<Rightarrow> int \<Rightarrow> int" where
  "default_to v dflt = (if v = 0 then dflt else v)"

definition dht_New :: "NodeID \<Rightarrow> string \<Rightarrow> Config \<Rightarrow> DHT option" where
  "dht_New selfID selfAddr cfg =
     (let c = \<lparr>cf_K = default_to (cf_K cfg) DefaultK,
               cf_Alpha = default_to (cf_Alpha cfg) DefaultAlpha,
               cf_RepublishInterval = default_to (cf_RepublishInterval cfg) (3600 * nsSecond),
               cf_ExpireAfter = default_to (cf_ExpireAfter cfg) (24 * 3600 * nsSecond),
               cf_LookupTimeout = default_to (cf_LookupTimeout cfg) (5 * nsSecond)\<rparr>
      in case NewRoutingTable selfID (cf_K c) of
           None \<Rightarrow> None
         | Some rt \<Rightarrow> Some \<lparr>d_selfID = selfID, d_selfAddr = selfAddr, d_routingTable = rt,
                            d_config = c, d_store = Map.empty\<rparr>)"

section \<open>Local store\<close>

definition storeLocal :: "int \<Rightarrow> NodeID \<Rightarrow> EntityDHTRecord \<Rightarrow> DHT \<Rightarrow> DHT" where
  "storeLocal now key record d =
     d\<lparr>d_store := (d_store d)(node_Hex key \<mapsto> \<lparr>sr_Record = record, sr_StoredAt = now\<rparr>)\<rparr>"

definition getLocal :: "NodeID \<Rightarrow> DHT \<Rightarrow> EntityDHTRecord option" where
  "getLocal key d = map_option sr_Record (d_store d (node_Hex key))"

definition expire :: "int \<Rightarrow> DHT \<Rightarrow> DHT" where
  "expire now d =
     (let cutoff = now - cf_ExpireAfter (d_config d) in
      d\<lparr>d_store := (\<lambda>k. case d_store d k of
          None \<Rightarrow> None
        | Some sr \<Rightarrow> if sr_StoredAt sr < cutoff then None else Some sr)\<rparr>)"

definition StoreCount :: "DHT \<Rightarrow> nat" where
  "StoreCount d = card (dom (d_store d))"

section \<open>Ping, AddNode and the message handler\<close>

definition unixSeconds :: "int \<Rightarrow> int" where
  "unixSeconds now = now div nsSecond"

definition randomID :: "byte list \<Rightarrow> string" where
  "randomID b = hex_EncodeToString b"

definition Ping :: "transport \<Rightarrow> string \<Rightarrow> int \<Rightarrow> NodeContact \<Rightarrow> DHT \<Rightarrow> (DHT \<times> bool) option" where
  "Ping send rid now contact d =
     (let msg = zeroMessage\<lparr>m_Type := MsgPing, m_SenderID := d_selfID d,
                m_SenderAddr := d_selfAddr d, m_RequestID := rid, m_Timestamp := now\<rparr>
      in case send (nc_Address contact) msg of
           None \<Rightarrow> Some (d, False)
         | Some resp \<Rightarrow>
             if m_Type resp = MsgPingReply then
               case AddNode (unixSeconds now) contact (d_routingTable d) of
                 None \<Rightarrow> None
               | Some (rt, _) \<Rightarrow> Some (d\<lparr>d_routingTable := rt\<rparr>, True)
             else Some (d, False))"

definition dht_AddNode :: "transport \<Rightarrow> string \<Rightarrow> int \<Rightarrow> NodeContact \<Rightarrow> DHT \<Rightarrow> DHT option" where
  "dht_AddNode send rid now contact d =
     (case AddNode (unixSeconds now) contact (d_routingTable d) of
        None \<Rightarrow> None
      | Some (rt, None) \<Rightarrow> Some (d\<lparr>d_routingTable := rt\<rparr>)
      | Some (rt, Some eviction) \<Rightarrow>
          (case Ping send rid now eviction (d\<lparr>d_routingTable := rt\<rparr>) of
             None \<Rightarrow> None
           | Some (d', True) \<Rightarrow> Some d'
           | Some (d', False) \<Rightarrow>
               let idx = BucketIndex (d_routingTable d') (nc_ID contact) in
               Some (d'\<lparr>d_routingTable :=
                 EvictAndReplace (unixSeconds now) (int idx) contact (d_routingTable d')\<rparr>)))"

definition HandleMessage ::
  "transport \<Rightarrow> string \<Rightarrow> int \<Rightarrow> Message \<Rightarrow> DHT \<Rightarrow> (DHT \<times> Message) option" where
  "HandleMessage send rid now msg d0 =
     (case dht_AddNode send rid now
        \<lparr>nc_ID = m_SenderID msg, nc_Address = m_SenderAddr msg, nc_LastSeen = unixSeconds now\<rparr> d0 of
        None \<Rightarrow> None
      | Some d \<Rightarrow>
        let reply = zeroMessage\<lparr>m_SenderID := d_selfID d, m_RequestID := m_RequestID msg,
                                m_Timestamp := now\<rparr>
        in if m_Type msg = MsgPing then
             Some (d, reply\<lparr>m_Type := MsgPingReply, m_OK := True\<rparr>)
           else if m_Type msg = MsgStore then
             Some (case m_Record msg of None \<Rightarrow> d | Some rec \<Rightarrow> storeLocal now (m_Key msg) rec d,
                   reply\<lparr>m_Type := MsgStoreReply, m_OK := True\<rparr>)
           else if m_Type msg = MsgFindNode then
             map_option (\<lambda>closest. (d, reply\<lparr>m_Type := MsgFindNodeReply, m_Nodes := closest\<rparr>))
               (FindClosest (d_routingTable d) (m_Target msg) (cf_K (d_config d)))
           else if m_Type msg = MsgFindValue then
             (case getLocal (m_Key msg) d of
                Some rec \<Rightarrow> Some (d, reply\<lparr>m_Type := MsgFindValueReply, m_Value := Some rec\<rparr>)
              | None \<Rightarrow>
                  map_option (\<lambda>closest. (d, reply\<lparr>m_Type := MsgFindValueReply, m_Nodes := closest\<rparr>))
                    (FindClosest (d_routingTable d) (m_Key msg) (cf_K (d_config d))))
           else Some (d, reply\<lparr>m_Type := MsgPingReply\<rparr>))"

section \<open>Iterative lookups\<close>

type_synonym network = "nat \<Rightarrow> nat \<Rightarrow> transport"
type_synonym schedule = "nat \<Rightarrow> nat list"

text \<open>The answers received in a round of \<open>n\<close> queries, in arrival order; each
  goroutine sends once.\<close>

definition received :: "schedule \<Rightarrow> nat \<Rightarrow> nat \<Rightarrow> nat list" where
  "received sched r n = remdups (filter (\<lambda>j. j < n) (sched r))"

definition unqueried :: "NodeID set \<Rightarrow> NodeContact list \<Rightarrow> NodeContact list" where
  "unqueried queried ns = filter (\<lambda>n. nc_ID n \<notin> queried) ns"

definition collect ::
  "NodeID \<Rightarrow> NodeID set \<Rightarrow> NodeContact list \<Rightarrow> NodeContact list \<times> bool \<Rightarrow> NodeContact list \<times> bool" where
  "collect self queried nodes st =
     (let fresh = filter (\<lambda>n. \<not> (nc_ID n = self \<or> nc_ID n \<in> queried)) nodes in
      (fst st @ fresh, snd st \<or> fresh \<noteq> []))"

definition find_node_msg :: "DHT \<Rightarrow> string \<Rightarrow> int \<Rightarrow> NodeID \<Rightarrow> Message" where
  "find_node_msg d rid now target = zeroMessage\<lparr>m_Type := MsgFindNode, m_SenderID := d_selfID d,
     m_RequestID := rid, m_Target := target, m_Timestamp := now\<rparr>"

definition find_value_msg :: "DHT \<Rightarrow> string \<Rightarrow> int \<Rightarrow> NodeID \<Rightarrow> Message" where
  "find_value_msg d rid now key = zeroMessage\<lparr>m_Type := MsgFindValue, m_SenderID := d_selfID d,
     m_RequestID := rid, m_Key := key, m_Timestamp := now\<rparr>"

definition answer_nodes :: "Message option \<Rightarrow> NodeContact list" where
  "answer_nodes resp = (case resp of None \<Rightarrow> [] | Some m \<Rightarrow> m_Nodes m)"

text \<open>One round of \<open>iterativeFindNode\<close>: query, collect in arrival order.\<close>

definition node_round ::
  "network \<Rightarrow> schedule \<Rightarrow> Message \<Rightarrow> NodeID \<Rightarrow> nat \<Rightarrow> NodeID set \<Rightarrow> NodeContact list \<Rightarrow>
   NodeContact list \<Rightarrow> NodeContact list \<times> bool" where
  "node_round net sched msg self r queried toQuery result =
     fold (\<lambda>j. collect self queried (answer_nodes (net r j (nc_Address (toQuery ! j)) msg)))
       (received sched r (length toQuery)) (result, False)"

lemma collect_new:
  "snd (collect self queried nodes st) \<Longrightarrow> \<not> snd st \<Longrightarrow> nodes \<noteq> []"
  by (auto simp: collect_def Let_def)

lemma node_round_Nil [simp]: "node_round net sched msg self r queried [] result = (result, False)"
  by (simp add: node_round_def received_def)

text \<open>The queried set grows strictly in every round that goes on, inside the finite type of
  identifiers: the loop terminates.\<close>

lemma queried_grows:
  assumes "unqueried queried result \<noteq> []" "slice_to n (unqueried queried result) = Some toQuery"
    "toQuery \<noteq> []"
  shows "card (UNIV - (queried \<union> nc_ID ` set toQuery)) < card (UNIV - queried)"
proof -
  obtain c where c: "c \<in> set toQuery" using assms(3) by (cases toQuery) auto
  have "set toQuery \<subseteq> set (unqueried queried result)"
    using assms(2) by (auto simp: slice_to_def split: if_splits dest: in_set_takeD)
  then have "nc_ID c \<in> UNIV - queried" using c by (auto simp: unqueried_def)
  then have "UNIV - (queried \<union> nc_ID ` set toQuery) \<subset> UNIV - queried" using c by auto
  then show ?thesis by (intro psubset_card_mono) simp_all
qed

function find_node_loop ::
  "network \<Rightarrow> schedule \<Rightarrow> Message \<Rightarrow> NodeID \<Rightarrow> Config \<Rightarrow> NodeID \<Rightarrow> nat \<Rightarrow> NodeID set \<Rightarrow>
   NodeContact list \<Rightarrow> NodeContact list option" where
  "find_node_loop net sched msg self cfg target r queried result =
     (if unqueried queried result = [] then Some result
      else case slice_to (cf_Alpha cfg) (unqueried queried result) of
        None \<Rightarrow> None
      | Some toQuery \<Rightarrow>
        let queried' = queried \<union> nc_ID ` set toQuery;
            st = node_round net sched msg self r queried' toQuery result
        in if length (received sched r (length toQuery)) < length toQuery then Some (fst st)
           else if \<not> snd st then Some (fst st)
           else case slice_to (cf_K cfg) (sort_Slice (closer target) (fst st)) of
             None \<Rightarrow> None
           | Some result' \<Rightarrow>
               find_node_loop net sched msg self cfg target (Suc r) queried' result')"
  by pat_completeness auto
termination
proof (relation "measure (\<lambda>(net, sched, msg, self, cfg, target, r, queried, result).
    card (UNIV - queried))", goal_cases)
  case (2 net sched msg self cfg target r queried result toQuery queried' st result')
  then have "toQuery \<noteq> []" by auto
  with 2 show ?case using queried_grows by simp
qed simp

declare find_node_loop.simps [simp del]

fun dedup_ids :: "NodeID set \<Rightarrow> NodeContact list \<Rightarrow> NodeContact list" where
  "dedup_ids seen [] = []"
| "dedup_ids seen (n # ns) =
     (if nc_ID n \<notin> seen then n # dedup_ids (insert (nc_ID n) seen) ns else dedup_ids seen ns)"

definition iterativeFindNode ::
  "network \<Rightarrow> schedule \<Rightarrow> string \<Rightarrow> int \<Rightarrow> NodeID \<Rightarrow> DHT \<Rightarrow> NodeContact list option" where
  "iterativeFindNode net sched rid now target d =
     (case FindClosest (d_routingTable d) target (cf_Alpha (d_config d)) of
        None \<Rightarrow> None
      | Some [] \<Rightarrow> Some []
      | Some closest \<Rightarrow>
          (case find_node_loop net sched (find_node_msg d rid now target) (d_selfID d)
                  (d_config d) target 0 {d_selfID d} closest of
             None \<Rightarrow> None
           | Some result \<Rightarrow>
               slice_to (cf_K (d_config d)) (sort_Slice (closer target) (dedup_ids {} result))))"

text \<open>One round of \<open>iterativeFindValue\<close>: the first answer that carries a value ends it.\<close>

fun value_round ::
  "network \<Rightarrow> Message \<Rightarrow> NodeID \<Rightarrow> nat \<Rightarrow> NodeID set \<Rightarrow> NodeContact list \<Rightarrow> nat list \<Rightarrow>
   NodeContact list \<times> bool \<Rightarrow> EntityDHTRecord + (NodeContact list \<times> bool)" where
  "value_round net msg self r queried toQuery [] st = Inr st"
| "value_round net msg self r queried toQuery (j # js) st =
     (let resp = net r j (nc_Address (toQuery ! j)) msg in
      case Option.bind resp m_Value of
        Some v \<Rightarrow> Inl v
      | None \<Rightarrow> value_round net msg self r queried toQuery js
                  (collect self queried (answer_nodes resp) st))"

function find_value_loop ::
  "network \<Rightarrow> schedule \<Rightarrow> Message \<Rightarrow> NodeID \<Rightarrow> Config \<Rightarrow> NodeID \<Rightarrow> nat \<Rightarrow> NodeID set \<Rightarrow>
   NodeContact list \<Rightarrow> EntityDHTRecord option option" where
  "find_value_loop net sched msg self cfg key r queried candidates =
     (if unqueried queried candidates = [] then Some None
      else case slice_to (cf_Alpha cfg) (unqueried queried candidates) of
        None \<Rightarrow> None
      | Some toQuery \<Rightarrow>
        let queried' = queried \<union> nc_ID ` set toQuery;
            js = received sched r (length toQuery)
        in case value_round net msg self r queried' toQuery js (candidates, False) of
             Inl v \<Rightarrow> Some (Some v)
           | Inr st \<Rightarrow>
               if length js < length toQuery then Some None
               else if \<not> snd st then Some None
               else case slice_to (cf_K cfg) (sort_Slice (closer key) (fst st)) of
                 None \<Rightarrow> None
               | Some candidates' \<Rightarrow>
                   find_value_loop net sched msg self cfg key (Suc r) queried' candidates')"
  by pat_completeness auto
termination
proof (relation "measure (\<lambda>(net, sched, msg, self, cfg, key, r, queried, candidates).
    card (UNIV - queried))", goal_cases)
  case (2 net sched msg self cfg key r queried candidates toQuery queried' js st candidates')
  then have "toQuery \<noteq> []" by (auto simp: received_def)
  with 2 show ?case using queried_grows by simp
qed simp

declare find_value_loop.simps [simp del]

definition iterativeFindValue ::
  "network \<Rightarrow> schedule \<Rightarrow> string \<Rightarrow> int \<Rightarrow> NodeID \<Rightarrow> DHT \<Rightarrow> (DHT \<times> EntityDHTRecord option) option" where
  "iterativeFindValue net sched rid now key d =
     (case FindClosest (d_routingTable d) key (cf_Alpha (d_config d)) of
        None \<Rightarrow> None
      | Some [] \<Rightarrow> Some (d, None)
      | Some closest \<Rightarrow>
          (case find_value_loop net sched (find_value_msg d rid now key) (d_selfID d)
                  (d_config d) key 0 {d_selfID d} closest of
             None \<Rightarrow> None
           | Some None \<Rightarrow> Some (d, None)
           | Some (Some v) \<Rightarrow> Some (storeLocal now key v d, Some v)))"

definition FindNode ::
  "network \<Rightarrow> schedule \<Rightarrow> string \<Rightarrow> int \<Rightarrow> NodeID \<Rightarrow> DHT \<Rightarrow> NodeContact list option" where
  "FindNode net sched rid now target d = iterativeFindNode net sched rid now target d"

definition FindValue ::
  "network \<Rightarrow> schedule \<Rightarrow> string \<Rightarrow> int \<Rightarrow> NodeID \<Rightarrow> DHT \<Rightarrow> (DHT \<times> EntityDHTRecord option) option" where
  "FindValue net sched rid now key d =
     (case getLocal key d of
        Some rec \<Rightarrow> Some (d, Some rec)
      | None \<Rightarrow> iterativeFindValue net sched rid now key d)"

definition store_msg :: "DHT \<Rightarrow> string \<Rightarrow> int \<Rightarrow> NodeID \<Rightarrow> EntityDHTRecord \<Rightarrow> Message" where
  "store_msg d rid now key record = zeroMessage\<lparr>m_Type := MsgStore, m_SenderID := d_selfID d,
     m_RequestID := rid, m_Key := key, m_Record := Some record, m_Timestamp := now\<rparr>"

text \<open>\<open>Store\<close> and \<open>republish\<close> return the STORE messages they send (their answers are ignored).\<close>

definition dht_Store ::
  "network \<Rightarrow> schedule \<Rightarrow> string \<Rightarrow> int \<Rightarrow> NodeID \<Rightarrow> EntityDHTRecord \<Rightarrow> DHT \<Rightarrow>
   (DHT \<times> (string \<times> Message) list) option" where
  "dht_Store net sched rid now key record d =
     (let d' = storeLocal now key record d in
      case iterativeFindNode net sched rid now key d' of
        None \<Rightarrow> None
      | Some closest \<Rightarrow>
          Some (d', map (\<lambda>n. (nc_Address n, store_msg d' rid now key record)) closest))"

fun hex_decode_prefix :: "string \<Rightarrow> byte list" where
  "hex_decode_prefix (c # e # r) = (case (fromHexChar c, fromHexChar e) of
       (Some h, Some l) \<Rightarrow> byte_of (16 * h + l) # hex_decode_prefix r
     | _ \<Rightarrow> [])"
| "hex_decode_prefix _ = []"

text \<open>\<open>republish\<close> walks a snapshot of the store in some order of its keys.\<close>

fun republish ::
  "(string \<Rightarrow> network) \<Rightarrow> schedule \<Rightarrow> string \<Rightarrow> int \<Rightarrow> string list \<Rightarrow> DHT \<Rightarrow>
   (string \<times> Message) list option" where
  "republish nets sched rid now [] d = Some []"
| "republish nets sched rid now (hexKey # ks) d =
     (let key = NodeIDFromBytes (hex_decode_prefix hexKey) in
      case d_store d hexKey of
        None \<Rightarrow> republish nets sched rid now ks d
      | Some sr \<Rightarrow>
         (case iterativeFindNode (nets hexKey) sched rid now key d of
            None \<Rightarrow> None
          | Some closest \<Rightarrow>
              map_option (\<lambda>rest. map (\<lambda>n. (nc_Address n, store_msg d rid now key (sr_Record sr))) closest @ rest)
                (republish nets sched rid now ks d)))"

section \<open>The mesh adapter\<close>

definition SendDHT ::
  "(Message \<Rightarrow> 'w option) \<Rightarrow> ('w \<Rightarrow> Message option) \<Rightarrow> (string \<Rightarrow> 'w \<Rightarrow> 'w option) \<Rightarrow>
   string \<Rightarrow> Message \<Rightarrow> Message option" where
  "SendDHT marshal unmarshal SendFunc peerAddr msg =
     (case marshal msg of
        None \<Rightarrow> None
      | Some msgBytes \<Rightarrow>
         (case SendFunc peerAddr msgBytes of
            None \<Rightarrow> None
          | Some respBytes \<Rightarrow> unmarshal respBytes))"

definition HandleRawMessage ::
  "(Message \<Rightarrow> 'w option) \<Rightarrow> ('w \<Rightarrow> Message option) \<Rightarrow> transport \<Rightarrow> string \<Rightarrow> int \<Rightarrow> 'w \<Rightarrow> DHT \<Rightarrow>
   (DHT \<times> 'w option) option" where
  "HandleRawMessage marshal unmarshal send rid now raw d =
     (case unmarshal raw of
        None \<Rightarrow> Some (d, None)
      | Some msg \<Rightarrow> map_option (\<lambda>(d', resp). (d', marshal resp)) (HandleMessage send rid now msg d))"

end
