(* ===== verification/DhtProps.thy ===== *)
theory DhtProps
  imports Dht
begin

text \<open>
  Correctness of the DHT node: the node invariant and its preservation by every
  operation, panic freedom of whole runs, the eviction policy, the lookups
  and the local store.
\<close>

section \<open>The node invariant\<close>

definition dht_inv :: "DHT \<Rightarrow> bool" where
  "dht_inv d = (rt_inv (d_routingTable d) \<and> rt_selfID (d_routingTable d) = d_selfID d \<and>
     rt_k (d_routingTable d) = cf_K (d_config d) \<and> 0 \<le> cf_Alpha (d_config d) \<and>
     dom (d_store d) \<subseteq> range node_Hex)"

lemma dht_invD:
  assumes "dht_inv d"
  shows "rt_inv (d_routingTable d)" "rt_selfID (d_routingTable d) = d_selfID d"
    "rt_k (d_routingTable d) = cf_K (d_config d)" "0 \<le> cf_Alpha (d_config d)"
    "dom (d_store d) \<subseteq> range node_Hex" "0 < cf_K (d_config d)"
  using assms rt_invD(1)[of "d_routingTable d"] by (auto simp: dht_inv_def)

lemma dht_inv_set_rt:
  assumes "dht_inv d" "rt_inv rt" "rt_selfID rt = d_selfID d" "rt_k rt = cf_K (d_config d)"
  shows "dht_inv (d\<lparr>d_routingTable := rt\<rparr>)"
  using assms by (simp add: dht_inv_def)

lemma default_to_nonneg: "0 \<le> v \<Longrightarrow> 0 < dflt \<Longrightarrow> 0 < default_to v dflt"
  by (simp add: default_to_def)

lemma dht_New_inv:
  assumes "0 \<le> cf_K cfg" "0 \<le> cf_Alpha cfg"
  obtains d where "dht_New selfID addr cfg = Some d" "dht_inv d" "d_selfID d = selfID"
    "d_store d = Map.empty"
proof -
  have k: "0 < default_to (cf_K cfg) DefaultK" "0 < default_to (cf_Alpha cfg) DefaultAlpha"
    using assms by (simp_all add: default_to_nonneg DefaultK_def DefaultAlpha_def)
  obtain rt where "NewRoutingTable selfID (default_to (cf_K cfg) DefaultK) = Some rt" "rt_inv rt"
    "rt_selfID rt = selfID" "rt_k rt = default_to (cf_K cfg) DefaultK"
    using NewRoutingTable_inv[OF k(1)] by metis
  then show ?thesis
    using k(2) that by (simp add: dht_New_def Let_def dht_inv_def)
qed

lemma storeLocal_inv: "dht_inv d \<Longrightarrow> dht_inv (storeLocal now key rec d)"
  by (auto simp: dht_inv_def storeLocal_def)

lemma expire_dom: "dom (d_store (expire now d)) \<subseteq> dom (d_store d)"
  by (auto simp: expire_def Let_def split: option.splits)

lemma expire_inv: "dht_inv d \<Longrightarrow> dht_inv (expire now d)"
proof -
  have "d_routingTable (expire now d) = d_routingTable d" "d_selfID (expire now d) = d_selfID d"
    "d_config (expire now d) = d_config d"
    by (simp_all add: expire_def Let_def)
  then show "dht_inv d \<Longrightarrow> dht_inv (expire now d)"
    using expire_dom[of now d] by (auto simp: dht_inv_def)
qed

lemma Ping_inv:
  assumes "dht_inv d"
  obtains d' ok where "Ping send rid now c d = Some (d', ok)" "dht_inv d'"
    "\<not> ok \<Longrightarrow> d' = d" "d_store d' = d_store d" "d_selfID d' = d_selfID d" "d_config d' = d_config d"
proof -
  obtain rt ev where "AddNode (unixSeconds now) c (d_routingTable d) = Some (rt, ev)" "rt_inv rt"
    "rt_selfID rt = d_selfID d" "rt_k rt = cf_K (d_config d)"
    using AddNode_cases[OF dht_invD(1)[OF assms]] dht_invD(2,3)[OF assms] by metis
  moreover from this have "Ping send rid now c d = Some (d, False) \<or>
      Ping send rid now c d = Some (d\<lparr>d_routingTable := rt\<rparr>, True)"
    by (auto simp: Ping_def Let_def split: option.splits)
  ultimately show ?thesis
    using assms that[of d False] that[of "d\<lparr>d_routingTable := rt\<rparr>" True]
      dht_inv_set_rt[OF assms, of rt] by auto
qed

lemma dht_AddNode_inv:
  assumes "dht_inv d"
  obtains d' where "dht_AddNode send rid now c d = Some d'" "dht_inv d'"
    "d_store d' = d_store d" "d_selfID d' = d_selfID d" "d_config d' = d_config d"
proof -
  let ?rt = "d_routingTable d"
  obtain rt ev where a: "AddNode (unixSeconds now) c ?rt = Some (rt, ev)" "rt_inv rt"
    "rt_selfID rt = d_selfID d" "rt_k rt = cf_K (d_config d)"
    and ev: "ev \<noteq> None \<Longrightarrow> rt = ?rt \<and> nc_ID c \<notin> rt_ids ?rt \<and> nc_ID c \<noteq> d_selfID d"
    using AddNode_cases[OF dht_invD(1)[OF assms]] dht_invD(2,3)[OF assms] by metis
  show ?thesis
  proof (cases ev)
    case None
    then show ?thesis
      using a that[of "d\<lparr>d_routingTable := rt\<rparr>"] dht_inv_set_rt[OF assms, of rt]
      by (simp add: dht_AddNode_def)
  next
    case (Some e)
    then have same: "d\<lparr>d_routingTable := rt\<rparr> = d" and
      out: "nc_ID c \<notin> rt_ids ?rt" "nc_ID c \<noteq> rt_selfID ?rt"
      using ev dht_invD(2)[OF assms] by auto
    obtain d' ok where p: "Ping send rid now e d = Some (d', ok)" "dht_inv d'" "\<not> ok \<Longrightarrow> d' = d"
      "d_store d' = d_store d" "d_selfID d' = d_selfID d" "d_config d' = d_config d"
      using Ping_inv[OF assms] by metis
    show ?thesis
    proof (cases ok)
      case True
      then show ?thesis using that[of d'] a Some p same by (simp add: dht_AddNode_def)
    next
      case False
      let ?rt' = "EvictAndReplace (unixSeconds now) (int (BucketIndex ?rt (nc_ID c))) c ?rt"
      have "dht_inv (d\<lparr>d_routingTable := ?rt'\<rparr>)"
        using dht_inv_set_rt[OF assms, of ?rt'] EvictAndReplace_inv(1)[OF dht_invD(1)[OF assms] out]
          dht_invD(2,3)[OF assms]
        by (simp add: EvictAndReplace_def)
      then show ?thesis
        using that[of "d\<lparr>d_routingTable := ?rt'\<rparr>"] False a Some p same
        by (simp add: dht_AddNode_def Let_def)
    qed
  qed
qed

lemma FindClosest_total: "0 \<le> k \<Longrightarrow> \<exists>xs. FindClosest rt t k = Some xs"
  by (simp add: FindClosest_Some)

lemma HandleMessage_inv:
  assumes "dht_inv d"
  obtains d' resp where "HandleMessage send rid now msg d = Some (d', resp)" "dht_inv d'"
    "m_RequestID resp = m_RequestID msg" "m_SenderID resp = d_selfID d"
    "d_selfID d' = d_selfID d" "d_config d' = d_config d"
proof -
  obtain d1 where d1: "dht_AddNode send rid now \<lparr>nc_ID = m_SenderID msg,
      nc_Address = m_SenderAddr msg, nc_LastSeen = unixSeconds now\<rparr> d = Some d1"
    "dht_inv d1" "d_selfID d1 = d_selfID d" "d_config d1 = d_config d"
    using dht_AddNode_inv[OF assms] by metis
  show ?thesis
  proof (cases "HandleMessage send rid now msg d")
    case None
    then show ?thesis
      using d1 dht_invD(6)[OF assms]
      by (auto simp: HandleMessage_def Let_def FindClosest_Some split: if_splits option.splits)
  next
    case (Some p)
    obtain d' resp where "p = (d', resp)" by (cases p)
    moreover from this have "d' = d1 \<or> (\<exists>k r. d' = storeLocal now k r d1)"
      "m_RequestID resp = m_RequestID msg" "m_SenderID resp = d_selfID d"
      using Some d1 by (auto simp: HandleMessage_def Let_def split: if_splits option.splits)
    moreover from this have "dht_inv d'" "d_selfID d' = d_selfID d" "d_config d' = d_config d"
      using d1 storeLocal_inv by (auto simp: storeLocal_def)
    ultimately show ?thesis using Some that by blast
  qed
qed

section \<open>Lookups\<close>

text \<open>The contacts that peers ever name in answer to a message.\<close>

definition reply_nodes :: "network \<Rightarrow> Message \<Rightarrow> NodeContact set" where
  "reply_nodes net msg = {n. \<exists>r j a resp. net r j a msg = Some resp \<and> n \<in> set (m_Nodes resp)}"

lemma slice_to_set: "slice_to n xs = Some ys \<Longrightarrow> set ys \<subseteq> set xs"
  by (auto simp: slice_to_def split: if_splits dest: in_set_takeD)

lemma slice_to_length: "0 \<le> n \<Longrightarrow> slice_to n xs = Some ys \<Longrightarrow> int (length ys) \<le> n"
  by (auto simp: slice_to_def split: if_splits)

lemma set_answer_nodes: "set (answer_nodes (net r j a msg)) \<subseteq> reply_nodes net msg"
  by (cases "net r j a msg") (auto simp: answer_nodes_def reply_nodes_def)

lemma collect_fold_set:
  "set (fst (fold (\<lambda>j. collect self queried (answer_nodes (net r j (f j) msg))) js st))
     \<subseteq> set (fst st) \<union> {n \<in> reply_nodes net msg. nc_ID n \<noteq> self} \<and>
   set (fst st) \<subseteq> set (fst (fold (\<lambda>j. collect self queried (answer_nodes (net r j (f j) msg))) js st))"
proof (induction js arbitrary: st)
  case (Cons j js)
  let ?st = "collect self queried (answer_nodes (net r j (f j) msg)) st"
  have "set (fst ?st) \<subseteq> set (fst st) \<union> {n \<in> reply_nodes net msg. nc_ID n \<noteq> self}"
    "set (fst st) \<subseteq> set (fst ?st)"
    using set_answer_nodes[of net r j "f j" msg] by (auto simp: collect_def Let_def)
  then show ?case using Cons[of ?st] by auto
qed simp

lemma node_round_bounds:
  "set (fst (node_round net sched msg self r queried toQuery result))
     \<subseteq> set result \<union> {n \<in> reply_nodes net msg. nc_ID n \<noteq> self}"
  "set result \<subseteq> set (fst (node_round net sched msg self r queried toQuery result))"
  unfolding node_round_def
  using collect_fold_set[of self queried net r "\<lambda>j. nc_Address (toQuery ! j)" msg _ "(result, False)"]
  by auto

lemma find_node_loop_total:
  assumes "0 \<le> cf_Alpha cfg" "0 \<le> cf_K cfg"
  shows "\<exists>ys. find_node_loop net sched msg self cfg target r queried result = Some ys"
  using assms
proof (induction net sched msg self cfg target r queried result rule: find_node_loop.induct)
  case (1 net sched msg self cfg target r queried result)
  show ?case
    using "1.IH" "1.prems"
    by (subst find_node_loop.simps) (simp add: slice_to_Some Let_def)
qed

text \<open>A predicate on the result list that a round and the sort-and-truncate step keep holds
  at the end of the loop.\<close>

lemma find_node_loop_invariant:
  assumes "find_node_loop net sched msg self cfg target r queried result = Some ys" "I result"
    and round: "\<And>r queried toQuery result. I result \<Longrightarrow>
      I (fst (node_round net sched msg self r queried toQuery result))"
    and trunc: "\<And>xs res. I xs \<Longrightarrow> slice_to (cf_K cfg) (sort_Slice (closer target) xs) = Some res \<Longrightarrow> I res"
  shows "I ys"
  using assms
proof (induction net sched msg self cfg target r queried result rule: find_node_loop.induct)
  case (1 net sched msg self cfg target r queried result)
  show ?case
  proof (cases "unqueried queried result = []")
    case False
    with "1.prems"(1) obtain toQuery where
      tq: "slice_to (cf_Alpha cfg) (unqueried queried result) = Some toQuery"
      by (subst (asm) find_node_loop.simps) (auto split: option.splits)
    let ?q = "queried \<union> nc_ID ` set toQuery"
    let ?st = "node_round net sched msg self r ?q toQuery result"
    have ist: "I (fst ?st)" using "1.prems"(2,3) by blast
    show ?thesis
    proof (cases "length (received sched r (length toQuery)) < length toQuery \<or> \<not> snd ?st")
      case True
      then have "ys = fst ?st"
        using "1.prems"(1) False tq
        by (subst (asm) find_node_loop.simps) (auto simp: Let_def split: if_splits)
      then show ?thesis using ist by simp
    next
      case go: False
      obtain res where res: "slice_to (cf_K cfg) (sort_Slice (closer target) (fst ?st)) = Some res"
        and ys: "find_node_loop net sched msg self cfg target (Suc r) ?q res = Some ys"
        using "1.prems"(1) False tq go
        by (subst (asm) find_node_loop.simps) (auto simp: Let_def split: option.splits)
      show ?thesis
        using "1.IH"[OF False tq refl refl _ _ res ys] go "1.prems"(3,4) ist res by blast
    qed
  qed (use "1.prems"(1,2) in \<open>subst (asm) find_node_loop.simps, auto\<close>)
qed

lemma find_node_loop_set:
  assumes "find_node_loop net sched msg self cfg target r queried result = Some ys"
  shows "set ys \<subseteq> set result \<union> {n \<in> reply_nodes net msg. nc_ID n \<noteq> self}"
  using assms
proof (rule find_node_loop_invariant)
  fix xs res
  assume "slice_to (cf_K cfg) (sort_Slice (closer target) xs) = Some res"
    "set xs \<subseteq> set result \<union> {n \<in> reply_nodes net msg. nc_ID n \<noteq> self}"
  then show "set res \<subseteq> set result \<union> {n \<in> reply_nodes net msg. nc_ID n \<noteq> self}"
    using slice_to_set by fastforce
qed (use node_round_bounds(1) in blast)+

text \<open>The closest contact known so far is never lost.\<close>

definition as_close :: "NodeID \<Rightarrow> NodeContact \<Rightarrow> NodeContact list \<Rightarrow> bool" where
  "as_close target c xs = (\<exists>x\<in>set xs. \<not> closer target c x)"

lemma sort_head_closest:
  assumes "as_close target c xs" "sort_Slice (closer target) xs = y # ys"
  shows "\<not> closer target c y"
proof -
  obtain x where x: "x \<in> set (y # ys)" "\<not> closer target c x"
    using assms unfolding as_close_def by (metis set_sort_Slice)
  moreover have "\<not> closer target x y" if "x \<in> set ys"
    using near.sorted_by_sort_Slice[of target xs] that
    by (simp add: assms(2) near.sorted_by_def)
  ultimately show ?thesis using near.lt_cotrans by fastforce
qed

lemma as_close_sort_Cons:
  assumes "as_close target c xs"
  obtains y ys where "sort_Slice (closer target) xs = y # ys"
proof (cases "sort_Slice (closer target) xs")
  case Nil
  then have "xs = []" by (metis length_0_conv length_sort_Slice)
  then show ?thesis using assms by (simp add: as_close_def)
qed

lemma as_close_slice:
  assumes "as_close target c xs" "slice_to k (sort_Slice (closer target) xs) = Some res" "0 < k"
  shows "as_close target c res"
proof -
  obtain y ys where y: "sort_Slice (closer target) xs = y # ys"
    using as_close_sort_Cons[OF assms(1)] by blast
  have "res = take (nat k) (y # ys)" using assms(2,3) y by (simp add: slice_to_Some)
  then have "y \<in> set res" using assms(3) by (cases "nat k") auto
  then show ?thesis using sort_head_closest[OF assms(1) y] by (auto simp: as_close_def)
qed

lemma as_close_mono: "as_close target c xs \<Longrightarrow> set xs \<subseteq> set ys \<Longrightarrow> as_close target c ys"
  by (auto simp: as_close_def)

lemma find_node_loop_as_close:
  assumes "find_node_loop net sched msg self cfg target r queried result = Some ys"
    "as_close target c result" "0 < cf_K cfg"
  shows "as_close target c ys"
  using assms(1,2)
  by (rule find_node_loop_invariant)
    (use as_close_mono[OF _ node_round_bounds(2)] as_close_slice[OF _ _ assms(3)] in blast)+

lemma dedup_ids_props:
  "distinct (map nc_ID (dedup_ids seen ns))"
  "nc_ID ` set (dedup_ids seen ns) = nc_ID ` set ns - seen"
  "set (dedup_ids seen ns) \<subseteq> set ns"
  by (induction seen ns rule: dedup_ids.induct) auto

lemma as_close_dedup: "as_close target c xs \<Longrightarrow> as_close target c (dedup_ids {} xs)"
proof -
  assume "as_close target c xs"
  then obtain x where x: "x \<in> set xs" "\<not> closer target c x" by (auto simp: as_close_def)
  then have "nc_ID x \<in> nc_ID ` set (dedup_ids {} xs)" by (simp add: dedup_ids_props(2))
  then obtain y where "y \<in> set (dedup_ids {} xs)" "nc_ID y = nc_ID x" by auto
  then show ?thesis using x(2) unfolding as_close_def closer_def by metis
qed

lemma iterativeFindNode_cases:
  assumes "dht_inv d"
  obtains ys where "iterativeFindNode net sched rid now target d = Some ys"
    "distinct (map nc_ID ys)" "sorted_wrt (closer target) ys"
    "int (length ys) \<le> cf_K (d_config d)"
    "d_selfID d \<notin> nc_ID ` set ys"
    "set ys \<subseteq> set (AllNodes (d_routingTable d)) \<union> reply_nodes net (find_node_msg d rid now target)"
    "0 < cf_Alpha (d_config d) \<Longrightarrow> c \<in> set (AllNodes (d_routingTable d)) \<Longrightarrow>
       ys \<noteq> [] \<and> \<not> closer target c (hd ys)"
proof -
  note inv = dht_invD[OF assms]
  let ?all = "AllNodes (d_routingTable d)" and ?msg = "find_node_msg d rid now target"
  let ?cl = "take (nat (cf_Alpha (d_config d))) (sort_Slice (closer target) ?all)"
  have fc: "FindClosest (d_routingTable d) target (cf_Alpha (d_config d)) = Some ?cl"
    using FindClosest_Some inv(4) by blast
  show ?thesis
  proof (cases ?cl)
    case Nil
    then have "0 < cf_Alpha (d_config d) \<Longrightarrow> ?all = []"
      by (metis length_0_conv length_sort_Slice not_less take_eq_Nil zero_less_nat_eq le_zero_eq nat_le_0 linorder_not_less)
    then show ?thesis
      using that[of "[]"] fc Nil inv(6) by (auto simp: iterativeFindNode_def)
  next
    case (Cons e es)
    obtain res where res: "find_node_loop net sched ?msg (d_selfID d) (d_config d) target 0
        {d_selfID d} (e # es) = Some res"
      using find_node_loop_total inv(4,6) by (metis order_less_imp_le)
    let ?s = "sort_Slice (closer target) (dedup_ids {} res)"
    let ?ys = "take (nat (cf_K (d_config d))) ?s"
    have k: "0 < nat (cf_K (d_config d))" using inv(6) by simp
    have seed: "set (e # es) \<subseteq> set ?all" using set_take_subset[of _ "sort_Slice (closer target) ?all"]
      by (simp only: Cons[symmetric] set_sort_Slice)
    have "set ?ys \<subseteq> set res"
      using dedup_ids_props(3)[of "{}" res] order_trans[OF set_take_subset[of _ ?s]] by simp
    then have src: "set ?ys \<subseteq> set (e # es) \<union> {n \<in> reply_nodes net ?msg. nc_ID n \<noteq> d_selfID d}"
      using find_node_loop_set[OF res] by (rule order_trans)
    have dist: "distinct (map nc_ID ?ys)"
      by (intro distinct_map_take) (simp add: dedup_ids_props(1))
    show ?thesis
    proof (rule that)
      show "iterativeFindNode net sched rid now target d = Some ?ys"
        using fc Cons res k by (simp add: iterativeFindNode_def slice_to_Some)
      show "distinct (map nc_ID ?ys)" by (fact dist)
      then have "distinct (map (\<lambda>c. Distance (nc_ID c) target) ?ys)"
        by (simp add: distinct_map inj_on_def)
      then show "sorted_wrt (closer target) ?ys"
        using near.sorted_strict near.sorted_by_take near.sorted_by_sort_Slice by blast
      show "int (length ?ys) \<le> cf_K (d_config d)" using k by simp
      have "d_selfID d \<notin> nc_ID ` set ?all"
        using self_notin_table[OF inv(1)] inv(2) by simp
      then have "\<forall>n\<in>set ?all. nc_ID n \<noteq> d_selfID d" by (metis imageI)
      then have "nc_ID n \<noteq> d_selfID d" if "n \<in> set ?ys" for n
        using subsetD[OF src that] subsetD[OF seed, of n] by blast
      then show "d_selfID d \<notin> nc_ID ` set ?ys" by (metis imageE)
      show "set ?ys \<subseteq> set ?all \<union> reply_nodes net ?msg"
        by (rule order_trans[OF src]) (use seed in auto)
    next
      assume a: "0 < cf_Alpha (d_config d)" "c \<in> set ?all"
      then have "as_close target c ?all" using near.lt_irrefl by (auto simp: as_close_def)
      then have "as_close target c (e # es)"
        using as_close_slice[of target c ?all "cf_Alpha (d_config d)" "?cl"] a(1) Cons
        by (simp add: slice_to_Some)
      then have "as_close target c res" using find_node_loop_as_close[OF res] inv(6) by blast
      then have dd: "as_close target c (dedup_ids {} res)" by (rule as_close_dedup)
      then obtain y ys where "?s = y # ys" by (rule as_close_sort_Cons)
      then show "?ys \<noteq> [] \<and> \<not> closer target c (hd ?ys)"
        using sort_head_closest[OF dd] k by (cases "nat (cf_K (d_config d))") auto
    qed
  qed
qed

text \<open>A record that some peer returned as the value in answer to a message.\<close>

definition replied_value :: "network \<Rightarrow> Message \<Rightarrow> EntityDHTRecord \<Rightarrow> bool" where
  "replied_value net msg v =
     (\<exists>r j a resp. net r j a msg = Some resp \<and> m_Value resp = Some v)"

lemma value_round_Inl:
  "value_round net msg self r queried toQuery js st = Inl v \<Longrightarrow> replied_value net msg v"
proof (induction js arbitrary: st)
  case (Cons j js)
  then show ?case
    by (cases "Option.bind (net r j (nc_Address (toQuery ! j)) msg) m_Value")
      (auto simp: Let_def replied_value_def bind_eq_Some_conv)
qed simp

lemma find_value_loop_cases:
  assumes "0 \<le> cf_Alpha cfg" "0 \<le> cf_K cfg"
  shows "\<exists>v. find_value_loop net sched msg self cfg key r queried cands = Some v \<and>
    (\<forall>w. v = Some w \<longrightarrow> replied_value net msg w)"
  using assms
proof (induction net sched msg self cfg key r queried cands rule: find_value_loop.induct)
  case (1 net sched msg self cfg key r queried cands)
  show ?case
    using "1.IH" "1.prems"
    by (subst (1) find_value_loop.simps)
      (auto simp: slice_to_Some Let_def split: sum.splits dest: value_round_Inl)
qed

lemma iterativeFindValue_cases:
  assumes "dht_inv d"
  obtains "iterativeFindValue net sched rid now key d = Some (d, None)"
  | v where "iterativeFindValue net sched rid now key d = Some (storeLocal now key v d, Some v)"
      "replied_value net (find_value_msg d rid now key) v"
proof -
  note inv = dht_invD[OF assms]
  obtain cl where cl: "FindClosest (d_routingTable d) key (cf_Alpha (d_config d)) = Some cl"
    using FindClosest_total inv(4) by blast
  obtain w where w: "find_value_loop net sched (find_value_msg d rid now key) (d_selfID d)
      (d_config d) key 0 {d_selfID d} cl = Some w"
    "\<And>v. w = Some v \<Longrightarrow> replied_value net (find_value_msg d rid now key) v"
    using find_value_loop_cases inv(4,6) by (metis order_less_imp_le)
  show ?thesis
  proof (cases "cl = [] \<or> w = None")
    case True
    then have "iterativeFindValue net sched rid now key d = Some (d, None)"
      using cl w(1) by (auto simp: iterativeFindValue_def split: list.splits)
    then show ?thesis by (rule that(1))
  next
    case False
    then obtain v where "w = Some v" by auto
    moreover from this have
      "iterativeFindValue net sched rid now key d = Some (storeLocal now key v d, Some v)"
      using False cl w(1) by (auto simp: iterativeFindValue_def split: list.splits)
    ultimately show ?thesis using that(2) w(2) by blast
  qed
qed

lemma FindValue_cases:
  assumes "dht_inv d"
  obtains v where "FindValue net sched rid now key d = Some (d, Some v)" "getLocal key d = Some v"
  | "FindValue net sched rid now key d = Some (d, None)" "getLocal key d = None"
  | v where "FindValue net sched rid now key d = Some (storeLocal now key v d, Some v)"
      "getLocal key d = None" "replied_value net (find_value_msg d rid now key) v"
proof (cases "getLocal key d")
  case None
  then have e: "FindValue net sched rid now key d = iterativeFindValue net sched rid now key d"
    by (simp add: FindValue_def)
  show ?thesis
    by (rule iterativeFindValue_cases[OF assms, of net sched rid now key])
      (use e None that(2,3) in auto)
next
  case (Some v)
  then show ?thesis using that(1) by (simp add: FindValue_def)
qed

section \<open>Runs of a node\<close>

datatype dht_op =
  OpMessage transport string int Message
| OpLearn transport string int NodeContact
| OpPing transport string int NodeContact
| OpStore network schedule string int NodeID EntityDHTRecord
| OpFindValue network schedule string int NodeID
| OpRemove NodeID
| OpSeen int NodeID
| OpExpire int

fun dht_apply :: "dht_op \<Rightarrow> DHT \<Rightarrow> DHT option" where
  "dht_apply (OpMessage send rid now msg) d = map_option fst (HandleMessage send rid now msg d)"
| "dht_apply (OpLearn send rid now c) d = dht_AddNode send rid now c d"
| "dht_apply (OpPing send rid now c) d = map_option fst (Ping send rid now c d)"
| "dht_apply (OpStore net sched rid now key rec) d =
     map_option fst (dht_Store net sched rid now key rec d)"
| "dht_apply (OpFindValue net sched rid now key) d =
     map_option fst (FindValue net sched rid now key d)"
| "dht_apply (OpRemove i) d = Some (d\<lparr>d_routingTable := RemoveNode i (d_routingTable d)\<rparr>)"
| "dht_apply (OpSeen now i) d =
     Some (d\<lparr>d_routingTable := MarkSeen (unixSeconds now) i (d_routingTable d)\<rparr>)"
| "dht_apply (OpExpire now) d = Some (expire now d)"

definition dht_step :: "dht_op \<Rightarrow> DHT option \<Rightarrow> DHT option" where
  "dht_step op s = Option.bind s (dht_apply op)"

definition dht_running :: "DHT option \<Rightarrow> bool" where
  "dht_running s = (case s of None \<Rightarrow> False | Some d \<Rightarrow> dht_inv d)"

lemma dht_Store_cases:
  assumes "dht_inv d"
  obtains sent where
    "dht_Store net sched rid now key rec d = Some (storeLocal now key rec d, sent)"
    "list_all (\<lambda>(a, m). m = store_msg (storeLocal now key rec d) rid now key rec) sent"
    "int (length sent) \<le> cf_K (d_config d)"
proof -
  have "dht_inv (storeLocal now key rec d)" using assms by (rule storeLocal_inv)
  then obtain ys where "iterativeFindNode net sched rid now key (storeLocal now key rec d) = Some ys"
    "int (length ys) \<le> cf_K (d_config (storeLocal now key rec d))"
    using iterativeFindNode_cases by metis
  then show ?thesis using that
    by (simp add: dht_Store_def Let_def list_all_iff storeLocal_def)
qed

lemma dht_apply_inv:
  assumes "dht_inv d"
  shows "\<exists>d'. dht_apply op d = Some d' \<and> dht_inv d' \<and> d_config d' = d_config d"
proof (cases op)
  case (OpMessage send rid now msg)
  then show ?thesis using HandleMessage_inv[OF assms] by (metis dht_apply.simps(1) fst_conv option.simps(9))
next
  case (OpLearn send rid now c)
  then show ?thesis using dht_AddNode_inv[OF assms] by (metis dht_apply.simps(2))
next
  case (OpPing send rid now c)
  then show ?thesis using Ping_inv[OF assms] by (metis dht_apply.simps(3) fst_conv option.simps(9))
next
  case (OpStore net sched rid now key rec)
  have "d_config (storeLocal now key rec d) = d_config d" by (simp add: storeLocal_def)
  then show ?thesis
    by - (rule dht_Store_cases[OF assms, of net sched rid now key rec],
      use OpStore storeLocal_inv[OF assms] in simp)
next
  case (OpFindValue net sched rid now key)
  have "d_config (storeLocal now key v d) = d_config d" for v by (simp add: storeLocal_def)
  then show ?thesis
    by - (rule FindValue_cases[OF assms, of net sched rid now key],
      use OpFindValue storeLocal_inv[OF assms] assms in simp_all)
next
  case (OpRemove i)
  have "rt_selfID (RemoveNode i rt) = rt_selfID rt" "rt_k (RemoveNode i rt) = rt_k rt" for rt
    by (simp_all add: RemoveNode_def Let_def)
  then show ?thesis
    using OpRemove assms RemoveNode_inv by (simp add: dht_inv_def)
next
  case (OpSeen now i)
  have "rt_selfID (MarkSeen n i rt) = rt_selfID rt" "rt_k (MarkSeen n i rt) = rt_k rt" for rt n
    by (simp_all add: MarkSeen_def Let_def)
  then show ?thesis
    using OpSeen assms MarkSeen_inv by (simp add: dht_inv_def)
next
  case (OpExpire now)
  then show ?thesis using expire_inv[OF assms] by (simp add: expire_def Let_def)
qed

interpretation dht: invariant_machine dht_step dht_running
proof
  fix s op assume "dht_running s"
  then obtain d where d: "s = Some d" "dht_inv d" by (auto simp: dht_running_def split: option.splits)
  then obtain d' where "dht_apply op d = Some d'" "dht_inv d'" using dht_apply_inv by blast
  then show "dht_running (dht_step op s)" using d by (simp add: dht_running_def dht_step_def)
qed

subsection \<open>Records survive every operation that does not replace them\<close>

lemma node_Hex_inj [simp]: "node_Hex a = node_Hex b \<longleftrightarrow> a = b"
  by (simp add: node_Hex_def hexc.enc_inj id_bytes_inject)

text \<open>The operations that leave the record stored under \<open>key\<close> at time \<open>t\<close> in place: everything
  except a STORE for that key and an expiry run after the record's lifetime \<open>life\<close>.\<close>

fun op_keeps :: "NodeID \<Rightarrow> int \<Rightarrow> int \<Rightarrow> dht_op \<Rightarrow> bool" where
  "op_keeps key t life (OpMessage send rid now msg) =
     (\<not> (m_Type msg = MsgStore \<and> m_Key msg = key \<and> m_Record msg \<noteq> None))"
| "op_keeps key t life (OpStore net sched rid now k rec) = (k \<noteq> key)"
| "op_keeps key t life (OpExpire now) = (now - life \<le> t)"
| "op_keeps key t life _ = True"

definition holds_record :: "NodeID \<Rightarrow> EntityDHTRecord \<Rightarrow> int \<Rightarrow> int \<Rightarrow> DHT option \<Rightarrow> bool" where
  "holds_record key rec t life s = (case s of
       None \<Rightarrow> False
     | Some d \<Rightarrow> dht_inv d \<and> cf_ExpireAfter (d_config d) = life \<and>
                 d_store d (node_Hex key) = Some \<lparr>sr_Record = rec, sr_StoredAt = t\<rparr>)"

lemma HandleMessage_store:
  assumes "dht_inv d" "HandleMessage send rid now msg d = Some (d', resp)"
  shows "d_store d' = (if m_Type msg = MsgStore then
      (case m_Record msg of None \<Rightarrow> d_store d
       | Some rec \<Rightarrow> (d_store d)(node_Hex (m_Key msg) \<mapsto> \<lparr>sr_Record = rec, sr_StoredAt = now\<rparr>))
      else d_store d)"
proof -
  obtain d1 where "dht_AddNode send rid now \<lparr>nc_ID = m_SenderID msg,
      nc_Address = m_SenderAddr msg, nc_LastSeen = unixSeconds now\<rparr> d = Some d1"
    "d_store d1 = d_store d"
    using dht_AddNode_inv[OF assms(1)] by metis
  then show ?thesis
    using assms(2)
    by (auto simp: HandleMessage_def Let_def storeLocal_def msg_type_defs
        split: if_splits option.splits)
qed

lemma dht_apply_keeps:
  assumes "dht_inv d" "op_keeps key t (cf_ExpireAfter (d_config d)) op"
    "d_store d (node_Hex key) = Some \<lparr>sr_Record = rec, sr_StoredAt = t\<rparr>" "dht_apply op d = Some d'"
  shows "d_store d' (node_Hex key) = Some \<lparr>sr_Record = rec, sr_StoredAt = t\<rparr>"
proof (cases op)
  case (OpMessage send rid now msg)
  then obtain resp where "HandleMessage send rid now msg d = Some (d', resp)"
    using assms(4) by auto
  from HandleMessage_store[OF assms(1) this] show ?thesis
    using OpMessage assms(2,3) by (auto split: if_splits option.splits)
next
  case (OpLearn send rid now c)
  then show ?thesis using assms(3,4) dht_AddNode_inv[OF assms(1)]
    by (metis dht_apply.simps(2) option.inject)
next
  case (OpPing send rid now c)
  then obtain ok where "Ping send rid now c d = Some (d', ok)" using assms(4) by auto
  then show ?thesis using assms(3) Ping_inv[OF assms(1)] by (metis option.inject prod.inject)
next
  case (OpStore net sched rid now k rec')
  then have "d' = storeLocal now k rec' d"
    using assms(4) by (auto simp: dht_Store_def Let_def split: option.splits)
  then show ?thesis using OpStore assms(2,3) by (simp add: storeLocal_def)
next
  case (OpFindValue net sched rid now k)
  then have "FindValue net sched rid now k d \<noteq> None \<and> d' = fst (the (FindValue net sched rid now k d))"
    using assms(4) by auto
  then show ?thesis
    by - (rule FindValue_cases[OF assms(1), of net sched rid now k],
      use assms(3) in \<open>auto simp: storeLocal_def getLocal_def\<close>)
next
  case (OpExpire now)
  then show ?thesis using assms by (auto simp: expire_def Let_def)
qed (use assms in auto)

interpretation kept: guarded_machine dht_step "holds_record key rec t life" "op_keeps key t life"
  for key rec t life
proof
  fix op s assume ok: "op_keeps key t life op" and "holds_record key rec t life s"
  then obtain d where d: "s = Some d" "dht_inv d" "cf_ExpireAfter (d_config d) = life"
    "d_store d (node_Hex key) = Some \<lparr>sr_Record = rec, sr_StoredAt = t\<rparr>"
    by (auto simp: holds_record_def split: option.splits)
  obtain d' where d': "dht_apply op d = Some d'" "dht_inv d'" "d_config d' = d_config d"
    using dht_apply_inv[OF d(2)] by blast
  then have "d_store d' (node_Hex key) = Some \<lparr>sr_Record = rec, sr_StoredAt = t\<rparr>"
    using dht_apply_keeps[OF d(2) _ d(4) d'(1)] ok d(3) by simp
  then show "holds_record key rec t life (dht_step op s)"
    using d d' by (simp add: holds_record_def dht_step_def)
qed

section \<open>Properties\<close>

text \<open>The XOR distance is a metric on node identifiers. The distance of two nodes is zero
  exactly when they are equal, it is symmetric and satisfies the triangle inequality as a
  big-endian number, it is unidirectional (for each node and distance there is exactly one node
  at that distance), and \<open>Less\<close> compares identifiers as 256-bit big-endian numbers.\<close>

theorem xor_metric:
  "(IsZero (Distance a b) \<longleftrightarrow> a = b) \<and> Distance a b = Distance b a \<and>
   id_nat (Distance a c) \<le> id_nat (Distance a b) + id_nat (Distance b c) \<and>
   (\<exists>!x. Distance a x = b) \<and>
   (Less a b \<longleftrightarrow> id_nat a < id_nat b) \<and> id_nat a < 2 ^ 256"
proof -
  have "\<exists>!x. Distance a x = b" by (metis Distance_cancel Distance_commute)
  then show ?thesis
    using IsZero_Distance[of a b] Distance_commute[of a b] id_nat_Distance_triangle[of a c b]
      Less_id_nat[of a b] id_nat_bound[of a] by (intro conjI)
qed

text \<open>The k-bucket index brackets the distance: a node other than the local one falls into
  the bucket \<open>i\<close> exactly when its distance lies in \<open>[2^i, 2^(i+1))\<close>.\<close>

theorem bucket_index_brackets:
  assumes "target \<noteq> rt_selfID rt"
  shows "BucketIndex rt target = i \<longleftrightarrow>
    i < 256 \<and> 2 ^ i \<le> id_nat (Distance (rt_selfID rt) target) \<and>
    id_nat (Distance (rt_selfID rt) target) < 2 ^ Suc i"
proof -
  let ?d = "id_nat (Distance (rt_selfID rt) target)" and ?j = "BucketIndex rt target"
  note br = BucketIndex_bracket[OF assms]
  have "i = ?j" if "2 ^ i \<le> ?d" "?d < 2 ^ Suc i"
  proof -
    have "(2::nat) ^ i < 2 ^ Suc ?j" "(2::nat) ^ ?j < 2 ^ Suc i" using that br by linarith+
    then have "i < Suc ?j" "?j < Suc i" by (simp_all only: power_strict_increasing_iff one_less_numeral_iff semiring_norm)
    then show ?thesis by simp
  qed
  then show ?thesis using br by auto
qed

theorem bucket_index_brackets_witness:
  "BucketIndex \<lparr>rt_selfID = NodeIDFromBytes [], rt_buckets = [], rt_k = 20\<rparr>
     (NodeIDFromBytes [1]) = 248 \<longleftrightarrow>
   248 < (256::nat) \<and>
   2 ^ 248 \<le> id_nat (Distance (NodeIDFromBytes []) (NodeIDFromBytes [1])) \<and>
   id_nat (Distance (NodeIDFromBytes []) (NodeIDFromBytes [1])) < 2 ^ Suc 248"
proof -
  have "NodeIDFromBytes [1] \<noteq> NodeIDFromBytes []"
    by (simp add: NodeID_eq numeral_eq_Suc)
  then show ?thesis
    using bucket_index_brackets[of "NodeIDFromBytes [1]"
        "\<lparr>rt_selfID = NodeIDFromBytes [], rt_buckets = [], rt_k = 20\<rparr>" 248]
    by simp
qed

text \<open>C2: No run of a DHT node panics, and every run keeps the node invariant. From a node
  created with non-negative configuration values, any sequence of incoming messages, learned
  contacts, pings, stores, lookups, removals and expiry ticks, whatever the network answers and
  in whatever order, leaves 256 buckets within capacity, without duplicates, each contact in the
  bucket of its distance, never the local node itself, and a store keyed by node identifiers.\<close>

theorem dht_run_safe:
  assumes "0 \<le> cf_K cfg" "0 \<le> cf_Alpha cfg"
  shows "\<exists>d. fold dht_step ops (dht_New selfID addr cfg) = Some d \<and> dht_inv d \<and>
    int (rt_Size (d_routingTable d)) \<le> 256 * cf_K (d_config d)"
proof -
  obtain d0 where "dht_New selfID addr cfg = Some d0" "dht_inv d0"
    using dht_New_inv[OF assms] by metis
  then have "dht_running (fold dht_step ops (dht_New selfID addr cfg))"
    by (intro dht.run_inv) (simp add: dht_running_def)
  then show ?thesis
    using dht_invD(1,3) rt_Size_bound(1) by (fastforce simp: dht_running_def split: option.splits)
qed

theorem dht_run_safe_witness:
  "\<exists>d. fold dht_step [OpMessage (\<lambda>_ _. None) ''r'' 7 zeroMessage, OpExpire 9]
     (dht_New (NodeIDFromBytes [1]) ''host:4001'' DefaultConfig) = Some d \<and> dht_inv d \<and>
    int (rt_Size (d_routingTable d)) \<le> 256 * cf_K (d_config d)"
  by (rule dht_run_safe) (simp_all add: DefaultConfig_def DefaultK_def DefaultAlpha_def)

text \<open>C18: \<open>FindClosest\<close> returns the closest contacts of the routing table: as many as asked for
  (or all), each once, in strictly increasing order of distance to the target, and every
  contact of the table that is left out is farther away than every contact returned.\<close>

theorem find_closest_correct:
  assumes "rt_inv rt" "0 \<le> n"
  shows "\<exists>xs. FindClosest rt target n = Some xs \<and>
    length xs = min (nat n) (rt_Size rt) \<and> set xs \<subseteq> set (AllNodes rt) \<and>
    distinct (map nc_ID xs) \<and> sorted_wrt (closer target) xs \<and>
    (\<forall>x\<in>set xs. \<forall>y\<in>set (AllNodes rt) - set xs. closer target x y)"
  using FindClosest_correct[OF assms, of target] by metis

theorem find_closest_correct_witness:
  "\<exists>rt xs. NewRoutingTable (NodeIDFromBytes [1]) 20 = Some rt \<and>
    FindClosest rt (NodeIDFromBytes [3]) 20 = Some xs \<and> length xs = min 20 (rt_Size rt) \<and>
    distinct (map nc_ID xs)"
proof -
  obtain rt where rt: "NewRoutingTable (NodeIDFromBytes [1]) 20 = Some rt" "rt_inv rt"
    using NewRoutingTable_inv[of 20] by (metis zero_less_numeral)
  show ?thesis
    using rt find_closest_correct[OF rt(2), of 20 "NodeIDFromBytes [3]"] by auto
qed

text \<open>C8: An iterative node lookup always returns (whatever the peers answer, in whatever order,
  whether or not the deadline fires), with at most \<open>K\<close> contacts, no duplicates, strictly
  sorted by distance to the target, never the local node, and only contacts that the local table
  or some answering peer named. Its first contact is at least as close to the target as every
  contact of the local routing table.\<close>

theorem iterative_find_node_correct:
  assumes "dht_inv d"
  shows "\<exists>ys. iterativeFindNode net sched rid now target d = Some ys \<and>
    distinct (map nc_ID ys) \<and> sorted_wrt (closer target) ys \<and>
    int (length ys) \<le> cf_K (d_config d) \<and> d_selfID d \<notin> nc_ID ` set ys \<and>
    set ys \<subseteq> set (AllNodes (d_routingTable d)) \<union> reply_nodes net (find_node_msg d rid now target) \<and>
    (0 < cf_Alpha (d_config d) \<longrightarrow>
      (\<forall>c\<in>set (AllNodes (d_routingTable d)). ys \<noteq> [] \<and> \<not> closer target c (hd ys)))"
proof -
  obtain ys where ys: "iterativeFindNode net sched rid now target d = Some ys"
    "distinct (map nc_ID ys)" "sorted_wrt (closer target) ys"
    "int (length ys) \<le> cf_K (d_config d)" "d_selfID d \<notin> nc_ID ` set ys"
    "set ys \<subseteq> set (AllNodes (d_routingTable d)) \<union> reply_nodes net (find_node_msg d rid now target)"
    using iterativeFindNode_cases[OF assms] by metis
  moreover have "ys \<noteq> [] \<and> \<not> closer target c (hd ys)"
    if "0 < cf_Alpha (d_config d)" "c \<in> set (AllNodes (d_routingTable d))" for c
    using iterativeFindNode_cases[OF assms, of net sched rid now target c] ys(1) that
    by (metis option.inject)
  ultimately show ?thesis by blast
qed

theorem iterative_find_node_correct_witness:
  "\<exists>d ys. dht_New (NodeIDFromBytes [1]) ''host:4001'' DefaultConfig = Some d \<and>
    iterativeFindNode (\<lambda>_ _ _ _. None) (\<lambda>_. [0, 1, 2]) ''r'' 7 (NodeIDFromBytes [3]) d = Some ys \<and>
    distinct (map nc_ID ys)"
proof -
  obtain d where d: "dht_New (NodeIDFromBytes [1]) ''host:4001'' DefaultConfig = Some d" "dht_inv d"
    using dht_New_inv[of DefaultConfig]
    by (metis DefaultConfig_def DefaultK_def DefaultAlpha_def Config.select_convs(1,2) zero_le_numeral)
  show ?thesis
    using d iterative_find_node_correct[OF d(2), of "\<lambda>_ _ _ _. None" "\<lambda>_. [0, 1, 2]" "''r''" 7
        "NodeIDFromBytes [3]"] by blast
qed

lemma AddNode_full:
  assumes "rt_inv rt" "IsFull (rt_buckets rt ! BucketIndex rt (nc_ID c))"
    "nc_ID c \<notin> rt_ids rt" "nc_ID c \<noteq> rt_selfID rt"
  obtains e es where "kb_entries (rt_buckets rt ! BucketIndex rt (nc_ID c)) = e # es"
    "AddNode now c rt = Some (rt, Some e)"
    "BucketIndex rt (nc_ID e) = BucketIndex rt (nc_ID c)" "nc_ID e \<noteq> rt_selfID rt"
proof -
  let ?b = "rt_buckets rt ! BucketIndex rt (nc_ID c)"
  have ok: "kb_ok (rt_k rt) ?b" using rt_invD(3)[OF assms(1)] by simp
  obtain e es where e: "kb_entries ?b = e # es"
    using assms(2) ok rt_invD(1)[OF assms(1)] by (cases "kb_entries ?b") (auto simp: IsFull_def kb_ok_def)
  have "nc_ID c \<notin> kb_ids ?b" using assms(1,3) rt_ids_iff by blast
  then have "AddNode now c rt = Some (rt, Some e)"
    using assms(2,4) e by (simp add: AddNode_def AddOrUpdate_def)
  moreover have "nc_ID e \<in> kb_ids ?b" using e by simp
  ultimately show ?thesis
    using that[OF e] rt_invD(4,5)[OF assms(1) BucketIndex_range] by blast
qed

text \<open>The eviction policy of a full bucket. When a new contact's bucket is full, its least
  recently seen entry is pinged: if it answers with a ping reply it stays, moved to the most
  recently seen position, and the new contact is dropped; otherwise it is replaced by the new
  contact. Every other entry and every other bucket is unchanged.\<close>

theorem add_node_eviction_policy:
  fixes d :: DHT and c :: NodeContact and rid :: string and now :: int
  defines "rt \<equiv> d_routingTable d"
  defines "idx \<equiv> BucketIndex rt (nc_ID c)"
  defines "b \<equiv> rt_buckets rt ! idx"
  defines "ping \<equiv> zeroMessage\<lparr>m_Type := MsgPing, m_SenderID := d_selfID d,
    m_SenderAddr := d_selfAddr d, m_RequestID := rid, m_Timestamp := now\<rparr>"
  assumes "dht_inv d" "IsFull b" "nc_ID c \<notin> rt_ids rt" "nc_ID c \<noteq> d_selfID d"
  shows "dht_AddNode send rid now c d =
    Some (d\<lparr>d_routingTable := set_bucket idx (b\<lparr>kb_entries := tl (kb_entries b) @
      [(if map_option m_Type (send (nc_Address (hd (kb_entries b))) ping) = Some MsgPingReply
        then hd (kb_entries b) else c)\<lparr>nc_LastSeen := unixSeconds now\<rparr>]\<rparr>) rt\<rparr>)"
proof -
  have inv: "rt_inv rt" "rt_selfID rt = d_selfID d" using assms(5) by (simp_all add: dht_inv_def rt_def)
  obtain e es where e: "kb_entries b = e # es" "AddNode (unixSeconds now) c rt = Some (rt, Some e)"
    "BucketIndex rt (nc_ID e) = idx" "nc_ID e \<noteq> d_selfID d"
    using AddNode_full[OF inv(1)] assms(6-8) inv(2) unfolding b_def idx_def by metis
  have same: "d\<lparr>d_routingTable := rt\<rparr> = d" by (simp add: rt_def)
  have add_e: "AddNode (unixSeconds now) e rt =
      Some (set_bucket idx (b\<lparr>kb_entries := es @ [e\<lparr>nc_LastSeen := unixSeconds now\<rparr>]\<rparr>) rt, None)"
    using e inv(2) by (simp add: AddNode_def AddOrUpdate_def flip: b_def)
  show ?thesis
  proof (cases "map_option m_Type (send (nc_Address e) ping) = Some MsgPingReply")
    case True
    then have "Ping send rid now e d = Some (d\<lparr>d_routingTable := set_bucket idx
        (b\<lparr>kb_entries := es @ [e\<lparr>nc_LastSeen := unixSeconds now\<rparr>]\<rparr>) rt\<rparr>, True)"
      using add_e by (auto simp: Ping_def Let_def ping_def rt_def)
    then show ?thesis using True e by (simp add: dht_AddNode_def same flip: rt_def)
  next
    case False
    then have "Ping send rid now e d = Some (d, False)"
      by (auto simp: Ping_def Let_def ping_def split: option.splits)
    moreover have "EvictAndReplace (unixSeconds now) (int idx) c rt =
        set_bucket idx (b\<lparr>kb_entries := es @ [c\<lparr>nc_LastSeen := unixSeconds now\<rparr>]\<rparr>) rt"
      using e(1) BucketIndex_range[of rt "nc_ID c", folded idx_def]
      by (simp add: EvictAndReplace_def Evict_def flip: b_def)
    ultimately show ?thesis
      using False e by (auto simp: dht_AddNode_def same Let_def simp flip: rt_def idx_def)
  qed
qed

text \<open>A node with one-entry buckets whose bucket 249 is full, used as a concrete instance.\<close>

definition sample_contact :: "byte \<Rightarrow> string \<Rightarrow> NodeContact" where
  "sample_contact x addr = \<lparr>nc_ID = NodeIDFromBytes [x], nc_Address = addr, nc_LastSeen = 0\<rparr>"

definition sample_table :: RoutingTable where
  "sample_table = set_bucket 249 \<lparr>kb_entries = [sample_contact 2 ''b:1''], kb_k = 1\<rparr>
     \<lparr>rt_selfID = NodeIDFromBytes [1], rt_buckets = replicate 256 \<lparr>kb_entries = [], kb_k = 1\<rparr>, rt_k = 1\<rparr>"

definition sample_dht :: DHT where
  "sample_dht = \<lparr>d_selfID = NodeIDFromBytes [1], d_selfAddr = ''a:1'', d_routingTable = sample_table,
     d_config = DefaultConfig\<lparr>cf_K := 1\<rparr>, d_store = Map.empty\<rparr>"

lemma sample_index:
  assumes "rt_selfID rt = NodeIDFromBytes [1]"
  shows "BucketIndex rt (NodeIDFromBytes [2]) = 249" "BucketIndex rt (NodeIDFromBytes [3]) = 249"
  by (simp_all add: assms BucketIndex_def LeadingZeros.rep_eq bits_LeadingZeros8_def Let_def)

lemma byte_id_neq: "x \<noteq> y \<Longrightarrow> NodeIDFromBytes [x] \<noteq> NodeIDFromBytes [y]"
  by (simp add: NodeID_eq)

lemma sample_table_inv: "rt_inv sample_table"
  unfolding sample_table_def
proof (rule rt_inv_set_bucket)
  show "rt_inv \<lparr>rt_selfID = NodeIDFromBytes [1], rt_buckets = replicate 256 \<lparr>kb_entries = [], kb_k = 1\<rparr>,
      rt_k = 1\<rparr>"
    by (simp add: rt_inv_def kb_ok_def)
qed (auto simp: kb_ok_def sample_contact_def sample_index byte_id_neq)

lemma sample_dht_inv: "dht_inv sample_dht"
proof -
  have "rt_selfID sample_table = NodeIDFromBytes [1]" "rt_k sample_table = 1"
    by (simp_all add: sample_table_def)
  then show ?thesis
    using sample_table_inv by (simp add: dht_inv_def sample_dht_def DefaultConfig_def DefaultAlpha_def)
qed

lemma sample_bucket: "rt_buckets sample_table ! 249 = \<lparr>kb_entries = [sample_contact 2 ''b:1''], kb_k = 1\<rparr>"
  by (simp add: sample_table_def)

lemma sample_fresh: "NodeIDFromBytes [3] \<notin> rt_ids sample_table"
proof -
  have "rt_selfID sample_table = NodeIDFromBytes [1]" by (simp add: sample_table_def)
  then show ?thesis
    unfolding rt_ids_iff[OF sample_table_inv] using sample_index(2)[of sample_table]
    by (simp add: sample_bucket sample_contact_def byte_id_neq)
qed

theorem add_node_eviction_policy_witness:
  "dht_AddNode (\<lambda>_ _. None) ''r'' 0 (sample_contact 3 ''c:1'') sample_dht =
    Some (sample_dht\<lparr>d_routingTable := set_bucket 249
      \<lparr>kb_entries = [sample_contact 3 ''c:1''], kb_k = 1\<rparr> sample_table\<rparr>)"
proof -
  have rt: "d_routingTable sample_dht = sample_table" "d_selfID sample_dht = NodeIDFromBytes [1]"
    by (simp_all add: sample_dht_def)
  have i: "BucketIndex sample_table (nc_ID (sample_contact 3 ''c:1'')) = 249"
    by (simp add: sample_contact_def sample_index sample_table_def)
  show ?thesis
    using add_node_eviction_policy[OF sample_dht_inv, of "sample_contact 3 ''c:1''" "\<lambda>_ _. None" "''r''" 0]
      sample_fresh
    unfolding rt i sample_bucket
    by (simp add: IsFull_def sample_contact_def byte_id_neq unixSeconds_def)
qed

text \<open>A value lookup always returns. A locally stored record is returned as it is, without
  network traffic or a change of state; otherwise a returned record is one that a queried peer
  answered with, and it is cached locally under the key; a miss changes nothing.\<close>

theorem find_value_correct:
  assumes "dht_inv d"
  shows "\<exists>d' v. FindValue net sched rid now key d = Some (d', v) \<and> dht_inv d' \<and>
    (case v of
       None \<Rightarrow> d' = d \<and> getLocal key d = None
     | Some w \<Rightarrow> getLocal key d' = Some w \<and>
         (getLocal key d = Some w \<and> d' = d \<or>
          getLocal key d = None \<and> d' = storeLocal now key w d \<and>
          replied_value net (find_value_msg d rid now key) w))"
  by (rule FindValue_cases[OF assms, of net sched rid now key])
    (use assms storeLocal_inv[OF assms] in \<open>auto simp: getLocal_def storeLocal_def\<close>)

theorem find_value_correct_witness:
  "\<exists>d' v. FindValue (\<lambda>_ _ _ _. None) (\<lambda>_. [0]) ''r'' 5 (NodeIDFromBytes [9]) sample_dht = Some (d', v) \<and>
    dht_inv d'"
  using find_value_correct[OF sample_dht_inv, of "\<lambda>_ _ _ _. None" "\<lambda>_. [0]" "''r''" 5 "NodeIDFromBytes [9]"]
  by blast

text \<open>C9: A stored record is found. After a STORE message, any sequence of operations that
  neither stores another record under the same key nor runs an expiry after the record's
  lifetime leaves the record in place, and a FIND_VALUE message for the key is answered with it.\<close>

theorem stored_record_is_found:
  assumes "dht_inv d" "HandleMessage send rid t msg d = Some (d1, r1)"
    "m_Type msg = MsgStore" "m_Record msg = Some rec"
    "list_all (op_keeps (m_Key msg) t (cf_ExpireAfter (d_config d))) ops"
    "m_Type q = MsgFindValue" "m_Key q = m_Key msg"
  shows "\<exists>d2 d3 r. fold dht_step ops (Some d1) = Some d2 \<and>
    HandleMessage send' rid' now q d2 = Some (d3, r) \<and>
    m_Type r = MsgFindValueReply \<and> m_Value r = Some rec"
proof -
  let ?life = "cf_ExpireAfter (d_config d)" and ?key = "m_Key msg"
  have d1: "dht_inv d1" "d_config d1 = d_config d"
    using HandleMessage_inv[OF assms(1)] assms(2) by (metis option.inject prod.inject)+
  then have "holds_record ?key rec t ?life (Some d1)"
    using HandleMessage_store[OF assms(1,2)] assms(3,4) by (simp add: holds_record_def)
  from kept.guarded_run_inv[OF assms(5) this] obtain d2 where
    d2: "fold dht_step ops (Some d1) = Some d2" "dht_inv d2"
    "d_store d2 (node_Hex ?key) = Some \<lparr>sr_Record = rec, sr_StoredAt = t\<rparr>"
    by (auto simp: holds_record_def split: option.splits)
  obtain d3 where "dht_AddNode send' rid' now \<lparr>nc_ID = m_SenderID q,
      nc_Address = m_SenderAddr q, nc_LastSeen = unixSeconds now\<rparr> d2 = Some d3"
    "d_store d3 = d_store d2"
    using dht_AddNode_inv[OF d2(2)] by metis
  then show ?thesis
    using d2 assms(6,7)
    by (simp add: HandleMessage_def Let_def getLocal_def msg_type_defs)
qed

definition sample_record :: EntityDHTRecord where
  "sample_record = \<lparr>dr_EntityID = ''zns:ab'', dr_Name = ''n'', dr_Category = ''c'', dr_Tags = [],
     dr_Summary = '''', dr_EntityURL = ''u'', dr_PublicKey = ''k'', dr_HomeRegistry = ''h'',
     dr_DeveloperID = '''', dr_Status = '''', dr_LastHeartbeat = '''', dr_StoredAt = ''''\<rparr>"

theorem stored_record_is_found_witness:
  "\<exists>d1 r1 d2 d3 r. HandleMessage (\<lambda>_ _. None) ''x'' 5
      (zeroMessage\<lparr>m_Type := MsgStore, m_Key := NodeIDFromBytes [7], m_Record := Some sample_record\<rparr>)
      sample_dht = Some (d1, r1) \<and>
    fold dht_step [OpExpire 6] (Some d1) = Some d2 \<and>
    HandleMessage (\<lambda>_ _. None) ''y'' 9
      (zeroMessage\<lparr>m_Type := MsgFindValue, m_Key := NodeIDFromBytes [7]\<rparr>) d2 = Some (d3, r) \<and>
    m_Type r = MsgFindValueReply \<and> m_Value r = Some sample_record"
proof -
  let ?m = "zeroMessage\<lparr>m_Type := MsgStore, m_Key := NodeIDFromBytes [7], m_Record := Some sample_record\<rparr>"
  obtain d1 r1 where h: "HandleMessage (\<lambda>_ _. None) ''x'' 5 ?m sample_dht = Some (d1, r1)"
    using HandleMessage_inv[OF sample_dht_inv] by metis
  have "0 \<le> cf_ExpireAfter (d_config sample_dht)" "1 \<le> cf_ExpireAfter (d_config sample_dht)"
    by (simp_all add: sample_dht_def DefaultConfig_def nsSecond_def)
  then show ?thesis
    using h stored_record_is_found[OF sample_dht_inv h, of sample_record "[OpExpire 6]"
        "zeroMessage\<lparr>m_Type := MsgFindValue, m_Key := NodeIDFromBytes [7]\<rparr>" "\<lambda>_ _. None" "''y''" 9]
    by simp
qed

text \<open>Expiry removes exactly the records that were stored longer than \<open>ExpireAfter\<close> ago; every
  other record, the routing table and the configuration are untouched.\<close>

theorem expire_exact:
  "(d_store (expire now d) k = Some sr \<longleftrightarrow>
     d_store d k = Some sr \<and> now - sr_StoredAt sr \<le> cf_ExpireAfter (d_config d)) \<and>
   d_routingTable (expire now d) = d_routingTable d \<and> d_config (expire now d) = d_config d"
  by (auto simp: expire_def Let_def split: option.splits)

lemma in_AllNodes_bucket:
  assumes "rt_inv rt" "c \<in> set (kb_entries (rt_buckets rt ! i))" "i < 256"
  shows "c \<in> set (AllNodes rt)"
  using assms set_AllNodes[OF rt_invD(2)[OF assms(1)]] by blast

lemma AddNode_known:
  assumes "rt_inv rt" "nc_ID c \<in> rt_ids rt"
  obtains rt' where "AddNode now c rt = Some (rt', None)" "rt_inv rt'"
    "c\<lparr>nc_LastSeen := now\<rparr> \<in> set (AllNodes rt')"
proof -
  let ?i = "BucketIndex rt (nc_ID c)"
  let ?b = "rt_buckets rt ! ?i"
  let ?b' = "?b\<lparr>kb_entries := drop_first (nc_ID c) (kb_entries ?b) @ [c\<lparr>nc_LastSeen := now\<rparr>]\<rparr>"
  have "nc_ID c \<in> kb_ids ?b" using assms rt_ids_iff by blast
  moreover have "nc_ID c \<noteq> rt_selfID rt" using assms self_notin_table by metis
  ultimately have a: "AddNode now c rt = Some (set_bucket ?i ?b' rt, None)"
    by (simp add: AddNode_def AddOrUpdate_def Let_def)
  then have inv: "rt_inv (set_bucket ?i ?b' rt)"
    using AddNode_cases[OF assms(1), of now c] by (metis option.inject prod.inject)
  have "rt_buckets (set_bucket ?i ?b' rt) ! ?i = ?b'" using rt_invD(2)[OF assms(1)] by simp
  then have "c\<lparr>nc_LastSeen := now\<rparr> \<in> set (AllNodes (set_bucket ?i ?b' rt))"
    by (intro in_AllNodes_bucket[OF inv, of _ ?i]) simp_all
  then show ?thesis using that a inv by blast
qed

lemma HandleMessage_routing:
  assumes "HandleMessage send rid now msg d = Some (d', resp)"
  obtains d1 where "dht_AddNode send rid now \<lparr>nc_ID = m_SenderID msg,
      nc_Address = m_SenderAddr msg, nc_LastSeen = unixSeconds now\<rparr> d = Some d1"
    "d_routingTable d' = d_routingTable d1"
  using assms
  by (auto simp: HandleMessage_def Let_def storeLocal_def split: if_splits option.splits)

text \<open>The requests of a lookup carry no sender address, and a receiver that already knows
  the sender overwrites the address it has: after a FIND_NODE, FIND_VALUE or STORE request from a
  known node, the receiver's routing table still holds that node, but with an empty address, so
  the node can no longer be contacted through it.\<close>

theorem lookup_request_erases_address:
  assumes "dht_inv d" "d_selfID sender \<in> rt_ids (d_routingTable d)"
    "msg \<in> {find_node_msg sender rid' t key, find_value_msg sender rid' t key,
            store_msg sender rid' t key rec}"
    "HandleMessage send rid now msg d = Some (d', resp)"
  shows "d_selfID sender \<in> rt_ids (d_routingTable d') \<and>
    (\<forall>c\<in>set (AllNodes (d_routingTable d')). nc_ID c = d_selfID sender \<longrightarrow> nc_Address c = '''')"
proof -
  let ?c = "\<lparr>nc_ID = d_selfID sender, nc_Address = '''', nc_LastSeen = unixSeconds now\<rparr>"
  have m: "m_SenderID msg = d_selfID sender" "m_SenderAddr msg = ''''"
    using assms(3) by (auto simp: find_node_msg_def find_value_msg_def store_msg_def zeroMessage_def)
  obtain rt where rt: "AddNode (unixSeconds now) ?c (d_routingTable d) = Some (rt, None)"
    "rt_inv rt" "?c \<in> set (AllNodes rt)"
    using AddNode_known[OF dht_invD(1)[OF assms(1)], of ?c "unixSeconds now"] assms(2) by auto
  have "d_routingTable d' = rt"
    using HandleMessage_routing[OF assms(4)] rt(1) m by (auto simp: dht_AddNode_def)
  moreover have "c = ?c" if "c \<in> set (AllNodes rt)" "nc_ID c = d_selfID sender" for c
    using map_eq_key_unique[OF AllNodes_distinct[OF rt(2)] that(1) rt(3)] that(2) by simp
  ultimately show ?thesis using rt(3) by force
qed

theorem lookup_request_erases_address_witness:
  "\<exists>d' resp. HandleMessage (\<lambda>_ _. None) ''r'' 0
      (find_node_msg (sample_dht\<lparr>d_selfID := NodeIDFromBytes [2]\<rparr>) ''q'' 0 (NodeIDFromBytes [9]))
      sample_dht = Some (d', resp) \<and>
    (\<exists>c\<in>set (AllNodes sample_table). nc_ID c = NodeIDFromBytes [2] \<and> nc_Address c = ''b:1'') \<and>
    (\<exists>c\<in>set (AllNodes (d_routingTable d')). nc_ID c = NodeIDFromBytes [2] \<and> nc_Address c = '''')"
proof -
  let ?s = "sample_dht\<lparr>d_selfID := NodeIDFromBytes [2]\<rparr>"
  let ?m = "find_node_msg ?s ''q'' 0 (NodeIDFromBytes [9])"
  obtain d' resp where h: "HandleMessage (\<lambda>_ _. None) ''r'' 0 ?m sample_dht = Some (d', resp)"
    using HandleMessage_inv[OF sample_dht_inv] by metis
  have known: "sample_contact 2 ''b:1'' \<in> set (AllNodes sample_table)"
    by (rule in_AllNodes_bucket[OF sample_table_inv, of _ 249]) (simp_all add: sample_bucket)
  moreover have "d_routingTable sample_dht = sample_table" by (simp add: sample_dht_def)
  ultimately have "d_selfID ?s \<in> rt_ids (d_routingTable sample_dht)"
    by (force simp: sample_contact_def)
  from lookup_request_erases_address[OF sample_dht_inv this _ h]
  have "\<exists>c\<in>set (AllNodes (d_routingTable d')). nc_ID c = NodeIDFromBytes [2] \<and> nc_Address c = ''''"
    by fastforce
  moreover have "\<exists>c\<in>set (AllNodes sample_table). nc_ID c = NodeIDFromBytes [2] \<and> nc_Address c = ''b:1''"
    using known by (intro bexI[of _ "sample_contact 2 ''b:1''"]) (simp_all add: sample_contact_def)
  ultimately show ?thesis using h by blast
qed

text \<open>Two nodes connected through the mesh adapter exchange exactly the messages of the
  handler: with a JSON codec that decodes what it encodes, sending a message over the raw channel
  to a peer that runs \<open>HandleRawMessage\<close> returns the reply its \<open>HandleMessage\<close> computes.\<close>

theorem mesh_adapter_transparent:
  assumes "\<And>m. \<exists>w. marshal m = Some w \<and> unmarshal w = Some m"
  shows "SendDHT marshal unmarshal
      (\<lambda>addr raw. Option.bind (HandleRawMessage marshal unmarshal send rid now raw d) snd) addr msg =
    map_option snd (HandleMessage send rid now msg d)"
proof -
  obtain w where "marshal msg = Some w" "unmarshal w = Some msg" using assms by blast
  moreover obtain v where "\<And>d' r. HandleMessage send rid now msg d = Some (d', r) \<Longrightarrow>
      marshal r = Some v \<and> unmarshal v = Some r"
    using assms by (cases "HandleMessage send rid now msg d") (auto, metis)
  ultimately show ?thesis
    by (cases "HandleMessage send rid now msg d")
      (auto simp: SendDHT_def HandleRawMessage_def split: option.splits)
qed

theorem mesh_adapter_transparent_witness:
  "SendDHT Some Some
      (\<lambda>addr raw. Option.bind (HandleRawMessage Some Some (\<lambda>_ _. None) ''r'' 0 raw sample_dht) snd)
      ''b:1'' zeroMessage =
    map_option snd (HandleMessage (\<lambda>_ _. None) ''r'' 0 zeroMessage sample_dht)"
  by (rule mesh_adapter_transparent) simp

end
