(* ===== verification/DhtRace.thy ===== *)
theory DhtRace
  imports DhtProps
begin

text \<open>
  Concurrent \<open>DHT.AddNode\<close> calls (\<open>src/internal/dht/dht.go\<close>). The routing table's mutex is
  held inside each of its methods, not across the sequence AddNode, Ping, EvictAndReplace, so
  the goroutines that handle incoming messages interleave at these points. The step relation
  \<open>add_step\<close> has one transition per critical section of each goroutine.
\<close>

datatype add_pc = Idle | Pinging NodeContact | Evicting | Finished

type_synonym add_conf = "RoutingTable \<times> (nat \<Rightarrow> add_pc)"

inductive add_step :: "(string \<Rightarrow> bool) \<Rightarrow> int \<Rightarrow> NodeContact \<Rightarrow> add_conf \<Rightarrow> add_conf \<Rightarrow> bool"
  for alive now c where
  add: "pcs i = Idle \<Longrightarrow> AddNode now c rt = Some (rt', ev) \<Longrightarrow>
    add_step alive now c (rt, pcs)
      (rt', pcs(i := (case ev of None \<Rightarrow> Finished | Some e \<Rightarrow> Pinging e)))"
| ping_ok: "pcs i = Pinging e \<Longrightarrow> alive (nc_Address e) \<Longrightarrow> AddNode now e rt = Some (rt', ev) \<Longrightarrow>
    add_step alive now c (rt, pcs) (rt', pcs(i := Finished))"
| ping_fail: "pcs i = Pinging e \<Longrightarrow> \<not> alive (nc_Address e) \<Longrightarrow>
    add_step alive now c (rt, pcs) (rt, pcs(i := Evicting))"
| evict: "pcs i = Evicting \<Longrightarrow>
    add_step alive now c (rt, pcs)
      (EvictAndReplace now (int (BucketIndex rt (nc_ID c))) c rt, pcs(i := Finished))"

abbreviation add_steps where
  "add_steps alive now c \<equiv> (add_step alive now c)\<^sup>*\<^sup>*"

lemma EvictAndReplace_bucket:
  assumes "length (rt_buckets rt) = 256" "kb_entries (rt_buckets rt ! BucketIndex rt (nc_ID c)) = e # es"
  shows "rt_buckets (EvictAndReplace now (int (BucketIndex rt (nc_ID c))) c rt) ! BucketIndex rt (nc_ID c) =
    (rt_buckets rt ! BucketIndex rt (nc_ID c))\<lparr>kb_entries := es @ [c\<lparr>nc_LastSeen := now\<rparr>]\<rparr>"
    "BucketIndex (EvictAndReplace now i c rt) = BucketIndex rt"
    "length (rt_buckets (EvictAndReplace now i c rt)) = length (rt_buckets rt)"
    "rt_selfID (EvictAndReplace now i c rt) = rt_selfID rt"
  using assms by (simp_all add: EvictAndReplace_def Evict_def)

lemma two_evictions_bucket:
  fixes rt :: RoutingTable and c :: NodeContact and now :: int
  defines "i \<equiv> BucketIndex rt (nc_ID c)"
  defines "rt1 \<equiv> EvictAndReplace now (int i) c rt"
  defines "rt2 \<equiv> EvictAndReplace now (int (BucketIndex rt1 (nc_ID c))) c rt1"
  assumes "length (rt_buckets rt) = 256" "kb_entries (rt_buckets rt ! i) = e # e' # es"
  shows "kb_entries (rt_buckets rt2 ! i) = es @ [c\<lparr>nc_LastSeen := now\<rparr>, c\<lparr>nc_LastSeen := now\<rparr>]"
proof -
  have i1: "BucketIndex rt1 (nc_ID c) = i"
    using EvictAndReplace_bucket(2)[OF assms(4) assms(5)[unfolded i_def]] by (simp add: rt1_def i_def)
  have b1: "kb_entries (rt_buckets rt1 ! i) = e' # es @ [c\<lparr>nc_LastSeen := now\<rparr>]"
    using EvictAndReplace_bucket(1)[OF assms(4) assms(5)[unfolded i_def]] by (simp add: rt1_def i_def)
  have "length (rt_buckets rt1) = 256"
    using EvictAndReplace_bucket(3)[OF assms(4) assms(5)[unfolded i_def]] assms(4) by (simp add: rt1_def)
  from EvictAndReplace_bucket(1)[OF this, of c e' "es @ [c\<lparr>nc_LastSeen := now\<rparr>]" now] b1
  show ?thesis by (simp add: i1 rt2_def)
qed

text \<open>Two goroutines that both see the full bucket and a dead head evict twice.\<close>

lemma race_schedule:
  assumes "AddNode now c rt = Some (rt, Some e)" "\<not> alive (nc_Address e)"
  defines "rt1 \<equiv> EvictAndReplace now (int (BucketIndex rt (nc_ID c))) c rt"
  shows "\<exists>pcs. add_steps alive now c (rt, \<lambda>_. Idle)
    (EvictAndReplace now (int (BucketIndex rt1 (nc_ID c))) c rt1, pcs)"
proof -
  let ?p0 = "(\<lambda>_. Idle) :: nat \<Rightarrow> add_pc"
  let ?p1 = "?p0(0 := Pinging e)"
  let ?p2 = "?p1(1 := Pinging e)"
  let ?p3 = "?p2(0 := Evicting)"
  let ?p4 = "?p3(1 := Evicting)"
  let ?p5 = "?p4(0 := Finished)"
  have "add_step alive now c (rt, ?p0) (rt, ?p1)" using add_step.add[of ?p0 0] assms(1) by fastforce
  moreover have "add_step alive now c (rt, ?p1) (rt, ?p2)"
    using add_step.add[of ?p1 1] assms(1) by fastforce
  moreover have "add_step alive now c (rt, ?p2) (rt, ?p3)"
    by (rule add_step.ping_fail[where e = e]) (simp_all add: assms(2))
  moreover have "add_step alive now c (rt, ?p3) (rt, ?p4)"
    by (rule add_step.ping_fail[where e = e]) (simp_all add: assms(2))
  moreover have "add_step alive now c (rt, ?p4) (rt1, ?p5)"
    unfolding rt1_def by (rule add_step.evict) simp
  moreover have "add_step alive now c (rt1, ?p5)
      (EvictAndReplace now (int (BucketIndex rt1 (nc_ID c))) c rt1, ?p5(1 := Finished))"
    by (rule add_step.evict) simp
  ultimately show ?thesis
    by (intro exI[of _ "?p5(1 := Finished)"])
      ((rule converse_rtranclp_into_rtranclp, assumption)+, rule rtranclp.rtrancl_refl)
qed

text \<open>C40: Concurrent additions of one contact break the routing table. When the bucket of a new
  contact is full (with at least two entries) and its head is dead, two goroutines adding the
  contact can interleave so that each evicts an entry: the table ends with the contact twice in
  its bucket, and the second oldest entry, which was never pinged, is gone.\<close>

theorem add_node_race:
  assumes "rt_inv rt" "kb_entries (rt_buckets rt ! BucketIndex rt (nc_ID c)) = e # e' # es"
    "IsFull (rt_buckets rt ! BucketIndex rt (nc_ID c))"
    "nc_ID c \<notin> rt_ids rt" "nc_ID c \<noteq> rt_selfID rt" "\<not> alive (nc_Address e)"
  shows "\<exists>rt' pcs. add_steps alive now c (rt, \<lambda>_. Idle) (rt', pcs) \<and> \<not> rt_inv rt' \<and>
    kb_entries (rt_buckets rt' ! BucketIndex rt (nc_ID c)) =
      es @ [c\<lparr>nc_LastSeen := now\<rparr>, c\<lparr>nc_LastSeen := now\<rparr>]"
proof -
  let ?i = "BucketIndex rt (nc_ID c)"
  let ?rt1 = "EvictAndReplace now (int ?i) c rt"
  let ?rt2 = "EvictAndReplace now (int (BucketIndex ?rt1 (nc_ID c))) c ?rt1"
  have "AddNode now c rt = Some (rt, Some e)"
    using AddNode_full[OF assms(1,3-5), of now] assms(2) by (metis list.inject)
  from race_schedule[of now c rt e alive, OF this assms(6)]
  obtain pcs where steps: "add_steps alive now c (rt, \<lambda>_. Idle) (?rt2, pcs)" by blast
  have b2: "kb_entries (rt_buckets ?rt2 ! ?i) = es @ [c\<lparr>nc_LastSeen := now\<rparr>, c\<lparr>nc_LastSeen := now\<rparr>]"
    by (rule two_evictions_bucket[OF rt_invD(2)[OF assms(1)] assms(2)])
  have "\<not> rt_inv ?rt2"
  proof
    assume "rt_inv ?rt2"
    then have "kb_ok (rt_k ?rt2) (rt_buckets ?rt2 ! ?i)" using rt_invD(3) by simp
    then show False using b2 by (simp add: kb_ok_def)
  qed
  then show ?thesis using steps b2 by blast
qed

text \<open>A table with two-entry buckets whose bucket 249 is full.\<close>

definition race_contact :: NodeContact where
  "race_contact = \<lparr>nc_ID = NodeIDFromBytes [2, 1], nc_Address = ''d:1'', nc_LastSeen = 0\<rparr>"

definition race_table :: RoutingTable where
  "race_table = set_bucket 249
     \<lparr>kb_entries = [sample_contact 2 ''b:1'', sample_contact 3 ''c:1''], kb_k = 2\<rparr>
     \<lparr>rt_selfID = NodeIDFromBytes [1], rt_buckets = replicate 256 \<lparr>kb_entries = [], kb_k = 2\<rparr>, rt_k = 2\<rparr>"

lemma race_table_facts:
  "rt_inv race_table" "rt_selfID race_table = NodeIDFromBytes [1]"
  "BucketIndex race_table (nc_ID race_contact) = 249"
  "rt_buckets race_table ! 249 =
     \<lparr>kb_entries = [sample_contact 2 ''b:1'', sample_contact 3 ''c:1''], kb_k = 2\<rparr>"
proof -
  show "rt_inv race_table"
    unfolding race_table_def
  proof (rule rt_inv_set_bucket)
    show "rt_inv \<lparr>rt_selfID = NodeIDFromBytes [1],
        rt_buckets = replicate 256 \<lparr>kb_entries = [], kb_k = 2\<rparr>, rt_k = 2\<rparr>"
      by (simp add: rt_inv_def kb_ok_def)
  qed (auto simp: kb_ok_def sample_contact_def sample_index byte_id_neq)
  show "BucketIndex race_table (nc_ID race_contact) = 249"
    by (simp add: race_table_def race_contact_def BucketIndex_def LeadingZeros.rep_eq
        bits_LeadingZeros8_def Let_def)
qed (simp_all add: race_table_def)

theorem add_node_race_witness:
  "\<exists>rt' pcs. add_steps (\<lambda>_. False) 0 race_contact (race_table, \<lambda>_. Idle) (rt', pcs) \<and> \<not> rt_inv rt' \<and>
    kb_entries (rt_buckets rt' ! 249) = [race_contact, race_contact]"
proof -
  have ne: "NodeIDFromBytes [2, 1] \<noteq> NodeIDFromBytes [x]" for x by (simp add: NodeID_eq numeral_eq_Suc)
  have "nc_ID race_contact \<notin> rt_ids race_table"
    unfolding rt_ids_iff[OF race_table_facts(1)] race_table_facts(3,4)
    using ne[of 2] ne[of 3] by (simp add: race_contact_def sample_contact_def)
  moreover have "nc_ID race_contact \<noteq> rt_selfID race_table"
    using ne[of 1] by (simp add: race_contact_def race_table_facts(2))
  ultimately show ?thesis
    using add_node_race[OF race_table_facts(1), of race_contact "sample_contact 2 ''b:1''"
        "sample_contact 3 ''c:1''" "[]" "\<lambda>_. False" 0]
    by (simp add: race_table_facts IsFull_def) (simp add: race_contact_def)
qed

end
