(* ===== verification/GoStrings.thy ===== *)
theory GoStrings
  imports Codec
begin

text \<open>
  The functions of Go's package \<open>strings\<close> that the sources call, on byte strings
  (\<^typ>\<open>string\<close>). \<open>Index\<close> and \<open>LastIndex\<close> return an option instead of \<open>-1\<close>. White space
  and case are those of the ASCII range; a separator is a single character, as
  in every call of the sources.
\<close>

definition HasPrefix :: "string \<Rightarrow> string \<Rightarrow> bool" where
  "HasPrefix s p = (take (length p) s = p)"

definition HasSuffix :: "string \<Rightarrow> string \<Rightarrow> bool" where
  "HasSuffix s p = (length p \<le> length s \<and> drop (length s - length p) s = p)"

definition TrimPrefix :: "string \<Rightarrow> string \<Rightarrow> string" where
  "TrimPrefix s p = (if HasPrefix s p then drop (length p) s else s)"

definition TrimSuffix :: "string \<Rightarrow> string \<Rightarrow> string" where
  "TrimSuffix s p = (if HasSuffix s p then take (length s - length p) s else s)"

fun str_Contains :: "string \<Rightarrow> string \<Rightarrow> bool" where
  "str_Contains [] p = (p = [])"
| "str_Contains (c # s) p = (HasPrefix (c # s) p \<or> str_Contains s p)"

fun IndexByte :: "string \<Rightarrow> char \<Rightarrow> nat option" where
  "IndexByte [] c = None"
| "IndexByte (x # s) c = (if x = c then Some 0 else map_option Suc (IndexByte s c))"

definition LastIndexByte :: "string \<Rightarrow> char \<Rightarrow> nat option" where
  "LastIndexByte s c = map_option (\<lambda>i. length s - 1 - i) (IndexByte (rev s) c)"

text \<open>\<open>strings.SplitN(s, sep, n)\<close> for \<open>n > 0\<close>.\<close>

fun SplitN :: "string \<Rightarrow> char \<Rightarrow> nat \<Rightarrow> string list" where
  "SplitN s c n = (case IndexByte s c of
       None \<Rightarrow> [s]
     | Some i \<Rightarrow> if n \<le> 1 then [s] else take i s # SplitN (drop (Suc i) s) c (n - 1))"

declare SplitN.simps [simp del]

definition is_space :: "char \<Rightarrow> bool" where
  "is_space c = (c \<in> {CHR '' '', CHR 0x09, CHR 0x0A, CHR 0x0B, CHR 0x0C, CHR 0x0D})"

definition TrimSpace :: "string \<Rightarrow> string" where
  "TrimSpace s = rev (dropWhile is_space (rev (dropWhile is_space s)))"

fun fields_acc :: "string \<Rightarrow> string \<Rightarrow> string list" where
  "fields_acc [] acc = (if acc = [] then [] else [rev acc])"
| "fields_acc (c # s) acc =
     (if is_space c then (if acc = [] then fields_acc s [] else rev acc # fields_acc s [])
      else fields_acc s (c # acc))"

definition Fields :: "string \<Rightarrow> string list" where
  "Fields s = fields_acc s []"

definition lower_char :: "char \<Rightarrow> char" where
  "lower_char c = (let n = of_char c :: nat in if 65 \<le> n \<and> n \<le> 90 then char_of (n + 32) else c)"

definition ToLower :: "string \<Rightarrow> string" where
  "ToLower s = map lower_char s"

definition lowerLetters :: string where "lowerLetters = ''abcdefghijklmnopqrstuvwxyz''"
definition digits :: string where "digits = ''0123456789''"

section \<open>Prefixes and suffixes\<close>

lemma HasPrefix_append [simp]: "HasPrefix (p @ s) p"
  by (simp add: HasPrefix_def)

lemma TrimPrefix_append [simp]: "TrimPrefix (p @ s) p = s"
  by (simp add: TrimPrefix_def)

lemma HasPrefix_iff: "HasPrefix s p \<longleftrightarrow> (\<exists>r. s = p @ r)"
  unfolding HasPrefix_def by (metis append_eq_conv_conj append_take_drop_id)

lemma HasSuffix_append [simp]: "HasSuffix (s @ p) p"
  by (simp add: HasSuffix_def)

section \<open>Searching for a character\<close>

lemma IndexByte_None [simp]: "IndexByte s c = None \<longleftrightarrow> c \<notin> set s"
  by (induction s) auto

lemma IndexByte_notin [simp]: "c \<notin> set s \<Longrightarrow> IndexByte s c = None"
  by simp

lemma IndexByte_append: "c \<notin> set s \<Longrightarrow> IndexByte (s @ c # t) c = Some (length s)"
  by (induction s) auto

lemma IndexByte_Some:
  "IndexByte s c = Some i \<Longrightarrow> i < length s \<and> s = take i s @ c # drop (Suc i) s \<and> c \<notin> set (take i s)"
proof (induction s arbitrary: i)
  case (Cons x s)
  show ?case
  proof (cases "x = c")
    case False
    then obtain j where "IndexByte s c = Some j" "i = Suc j" using Cons.prems by auto
    then show ?thesis using Cons.IH[of j] False by simp
  qed (use Cons.prems in simp)
qed simp

lemma LastIndexByte_None [simp]: "LastIndexByte s c = None \<longleftrightarrow> c \<notin> set s"
  by (simp add: LastIndexByte_def)

lemma LastIndexByte_notin [simp]: "c \<notin> set s \<Longrightarrow> LastIndexByte s c = None"
  by simp

lemma LastIndexByte_append: "c \<notin> set t \<Longrightarrow> LastIndexByte (s @ c # t) c = Some (length s)"
  using IndexByte_append[of c "rev t" "rev s"] by (simp add: LastIndexByte_def)

lemma LastIndexByte_Some:
  assumes "LastIndexByte s c = Some i"
  shows "i < length s \<and> s = take i s @ c # drop (Suc i) s \<and> c \<notin> set (drop (Suc i) s)"
proof -
  from assms have "c \<in> set s" using LastIndexByte_None[of s c] by (metis option.distinct(1))
  then obtain u v where uv: "s = u @ c # v" "c \<notin> set v" using split_list_last by metis
  then have "i = length u" using assms LastIndexByte_append by force
  then show ?thesis using uv by simp
qed

lemma SplitN_none: "c \<notin> set s \<Longrightarrow> SplitN s c n = [s]"
  by (subst SplitN.simps) simp

lemma SplitN_step: "c \<notin> set s \<Longrightarrow> 1 < n \<Longrightarrow> SplitN (s @ c # t) c n = s # SplitN t c (n - 1)"
  by (subst SplitN.simps) (simp add: IndexByte_append)

lemma SplitN_last: "SplitN s c (Suc 0) = [s]"
  by (subst SplitN.simps) (simp split: option.splits)

section \<open>Fields\<close>

lemma fields_acc_word:
  "\<forall>c\<in>set w. \<not> is_space c \<Longrightarrow> fields_acc (w @ s) acc = fields_acc s (rev w @ acc)"
  by (induction w arbitrary: acc) auto

lemma Fields_word_space:
  assumes "\<forall>c\<in>set w. \<not> is_space c" "w \<noteq> []" "is_space d"
  shows "Fields (w @ d # s) = w # Fields s"
  using assms by (simp add: Fields_def fields_acc_word)

lemma Fields_word:
  assumes "\<forall>c\<in>set w. \<not> is_space c" "w \<noteq> []"
  shows "Fields w = [w]"
  using assms fields_acc_word[of w "[]" "[]"] by (simp add: Fields_def)

end
