(* ===== verification/Models.thy ===== *)
theory Models
  imports GoStrings Sha256 Complex_Main
begin

text \<open>
  The data model (\<open>src/internal/models\<close>): registry records, developer records, ZNS names and
  versions, gossip announcements and index entries, peers and tombstones as records with the
  fields of the Go structs, the derivation of identifiers from public keys, and the validation
  functions. A validation function returns \<^term>\<open>None\<close> for \<open>nil\<close> and otherwise the message of
  the error (without formatted arguments). A pointer field is an option; \<open>float64\<close> is
  idealised as \<^typ>\<open>real\<close>.
\<close>

definition CurrentSchemaVersion :: string where "CurrentSchemaVersion = ''1.0''"

record EntityPricing =
  ep_Model :: string
  ep_BasePriceUSD :: real
  ep_Currency :: string
  ep_PaymentMethods :: "string list"
  ep_Rates :: "string \<rightharpoonup> real"

record CapabilitySummary =
  cs_Skills :: "string list"
  cs_Protocols :: "string list"
  cs_Languages :: "string list"
  cs_Models :: "string list"
  cs_InputTypes :: "string list"
  cs_OutputTypes :: "string list"

record DeveloperProof =
  dp_DeveloperPublicKey :: string
  dp_EntityIndex :: int
  dp_DeveloperSignature :: string

record RegistryRecord =
  rr_EntityID :: string
  rr_Name :: string
  rr_Owner :: string
  rr_EntityURL :: string
  rr_Category :: string
  rr_Tags :: "string list"
  rr_Summary :: string
  rr_CapabilitySummary :: "CapabilitySummary option"
  rr_PublicKey :: string
  rr_HomeRegistry :: string
  rr_SchemaVersion :: string
  rr_RegisteredAt :: string
  rr_UpdatedAt :: string
  rr_TTL :: int
  rr_Signature :: string
  rr_DeveloperID :: string
  rr_EntityIndex :: "int option"
  rr_DeveloperProof :: "DeveloperProof option"
  rr_CodebaseHash :: string
  rr_Status :: string
  rr_LastHeartbeat :: string
  rr_EntityType :: string
  rr_ServiceEndpoint :: string
  rr_OpenAPIURL :: string
  rr_EntityPricing :: "EntityPricing option"

record DeveloperRecord =
  dev_DeveloperID :: string
  dev_Name :: string
  dev_PublicKey :: string
  dev_ProfileURL :: string
  dev_GitHub :: string
  dev_HomeRegistry :: string
  dev_SchemaVersion :: string
  dev_RegisteredAt :: string
  dev_UpdatedAt :: string
  dev_Signature :: string
  dev_DevHandle :: string
  dev_DevHandleVerified :: bool
  dev_VerificationMethod :: string
  dev_VerificationProof :: string

record GossipDeveloperEntry =
  gd_DeveloperID :: string
  gd_Name :: string
  gd_PublicKey :: string
  gd_ProfileURL :: string
  gd_GitHub :: string
  gd_HomeRegistry :: string
  gd_ReceivedAt :: string
  gd_Tombstoned :: bool
  gd_TombstoneAt :: string
  gd_DevHandle :: string
  gd_DevHandleVerified :: bool
  gd_VerificationMethod :: string
  gd_VerificationProof :: string

record ZNSName =
  zn_FQAN :: string
  zn_EntityName :: string
  zn_DeveloperHandle :: string
  zn_RegistryHost :: string
  zn_EntityID :: string
  zn_DeveloperID :: string
  zn_CurrentVersion :: string
  zn_CapabilityTags :: "string list"
  zn_RegisteredAt :: string
  zn_UpdatedAt :: string
  zn_Signature :: string

record ZNSVersion =
  zv_FQAN :: string
  zv_Version :: string
  zv_EntityID :: string
  zv_BuildHash :: string
  zv_RegisteredAt :: string
  zv_Signature :: string

record GossipZNSName =
  gz_FQAN :: string
  gz_EntityName :: string
  gz_DeveloperHandle :: string
  gz_RegistryHost :: string
  gz_EntityID :: string
  gz_CurrentVersion :: string
  gz_CapabilityTags :: "string list"
  gz_ReceivedAt :: string
  gz_Tombstoned :: bool

record RegistryIdentityProof =
  ri_Type :: string
  ri_Version :: string
  ri_Domain :: string
  ri_RegistryID :: string
  ri_Ed25519PublicKey :: string
  ri_TLSSPKIFingerprint :: string
  ri_IssuedAt :: string
  ri_ExpiresAt :: string
  ri_Signature :: string
  ri_VerificationTier :: string
  ri_ReceivedAt :: string

record PeerAttestation =
  pa_AttesterID :: string
  pa_AttesterDomain :: string
  pa_SubjectID :: string
  pa_SubjectDomain :: string
  pa_VerifiedLayers :: "string list"
  pa_AttestedAt :: string
  pa_Signature :: string

record GossipAnnouncement =
  ga_Type :: string
  ga_EntityID :: string
  ga_Name :: string
  ga_Category :: string
  ga_Tags :: "string list"
  ga_Summary :: string
  ga_CapabilitySummary :: "CapabilitySummary option"
  ga_HomeRegistry :: string
  ga_EntityURL :: string
  ga_Action :: string
  ga_Status :: string
  ga_EntityType :: string
  ga_ServiceEndpoint :: string
  ga_OpenAPIURL :: string
  ga_EntityPricing :: "EntityPricing option"
  ga_Timestamp :: string
  ga_OriginPublicKey :: string
  ga_Signature :: string
  ga_HopCount :: int
  ga_MaxHops :: int
  ga_DeveloperID :: string
  ga_DeveloperPublicKey :: string
  ga_DeveloperProof :: "DeveloperProof option"
  ga_ProfileURL :: string
  ga_GitHub :: string
  ga_PublicKey :: string
  ga_DevHandle :: string
  ga_DevHandleVerified :: bool
  ga_VerificationMethod :: string
  ga_FQAN :: string
  ga_AgentNameZNS :: string
  ga_RegistryHost :: string
  ga_Version :: string
  ga_CapabilityTags :: "string list"
  ga_Domain :: string
  ga_Ed25519PublicKey :: string
  ga_TLSSPKIFingerprint :: string
  ga_VerificationTier :: string
  ga_AttesterID :: string
  ga_SubjectID :: string
  ga_VerifiedLayers :: "string list"

record GossipEntry =
  ge_EntityID :: string
  ge_Name :: string
  ge_Category :: string
  ge_Tags :: "string list"
  ge_Summary :: string
  ge_CapabilitySummary :: "CapabilitySummary option"
  ge_HomeRegistry :: string
  ge_EntityURL :: string
  ge_ReceivedAt :: string
  ge_Tombstoned :: bool
  ge_TombstoneAt :: string
  ge_DeveloperID :: string
  ge_DeveloperPublicKey :: string
  ge_DeveloperProof :: "DeveloperProof option"
  ge_Status :: string
  ge_OriginPublicKey :: string
  ge_EntityType :: string
  ge_ServiceEndpoint :: string
  ge_OpenAPIURL :: string
  ge_EntityPricing :: "EntityPricing option"

record PeerInfo =
  pi_RegistryID :: string
  pi_Name :: string
  pi_Address :: string
  pi_PublicKey :: string
  pi_AgentCount :: int
  pi_ConnectedAt :: string
  pi_LastSeen :: string
  pi_Latency :: int
  pi_BloomFilter :: "byte list"
  pi_RegistryHost :: string

record Tombstone =
  ts_EntityID :: string
  ts_Reason :: string
  ts_CreatedAt :: string
  ts_ExpiresAt :: string
  ts_Signature :: string

section \<open>Identifiers\<close>

definition GenerateEntityID :: "byte list \<Rightarrow> string \<Rightarrow> string" where
  "GenerateEntityID publicKey entityType =
     (let hash = sha256_Sum256 publicKey;
          suffix = hex_EncodeToString (take 16 hash)
      in if entityType = ''service'' then ''zns:svc:'' @ suffix else ''zns:'' @ suffix)"

definition GenerateRegistryID :: "byte list \<Rightarrow> string" where
  "GenerateRegistryID publicKey =
     ''zns:registry:'' @ hex_EncodeToString (take 16 (sha256_Sum256 publicKey))"

definition GenerateDeveloperID :: "byte list \<Rightarrow> string" where
  "GenerateDeveloperID publicKey =
     ''zns:dev:'' @ hex_EncodeToString (take 16 (sha256_Sum256 publicKey))"

section \<open>Canonical bytes to sign\<close>

text \<open>\<open>CanonicalJSON\<close> strips the newline that \<open>json.Encoder.Encode\<close> appends; the encoder is a
  parameter (\<^term>\<open>None\<close> is its error).\<close>

definition CanonicalJSON :: "('a \<Rightarrow> byte list option) \<Rightarrow> 'a \<Rightarrow> byte list option" where
  "CanonicalJSON encode v = map_option
     (\<lambda>out. if length out > 0 \<and> last out = 10 then butlast out else out) (encode v)"

definition rr_SignableBytes ::
  "(RegistryRecord \<Rightarrow> byte list option) \<Rightarrow> RegistryRecord \<Rightarrow> byte list option" where
  "rr_SignableBytes encode r =
     CanonicalJSON encode (r\<lparr>rr_Signature := '''', rr_Status := '''', rr_LastHeartbeat := ''''\<rparr>)"

definition dev_SignableBytes ::
  "(DeveloperRecord \<Rightarrow> byte list option) \<Rightarrow> DeveloperRecord \<Rightarrow> byte list option" where
  "dev_SignableBytes encode d = CanonicalJSON encode (d\<lparr>dev_Signature := ''''\<rparr>)"

definition zn_SignableBytes :: "(ZNSName \<Rightarrow> byte list option) \<Rightarrow> ZNSName \<Rightarrow> byte list option" where
  "zn_SignableBytes encode n = CanonicalJSON encode (n\<lparr>zn_Signature := ''''\<rparr>)"

definition zv_SignableBytes :: "(ZNSVersion \<Rightarrow> byte list option) \<Rightarrow> ZNSVersion \<Rightarrow> byte list option" where
  "zv_SignableBytes encode v = CanonicalJSON encode (v\<lparr>zv_Signature := ''''\<rparr>)"

definition ri_SignableBytes ::
  "(RegistryIdentityProof \<Rightarrow> byte list option) \<Rightarrow> RegistryIdentityProof \<Rightarrow> byte list option" where
  "ri_SignableBytes encode p = CanonicalJSON encode
     (p\<lparr>ri_Signature := '''', ri_VerificationTier := '''', ri_ReceivedAt := ''''\<rparr>)"

definition pa_SignableBytes ::
  "(PeerAttestation \<Rightarrow> byte list option) \<Rightarrow> PeerAttestation \<Rightarrow> byte list option" where
  "pa_SignableBytes encode a = CanonicalJSON encode (a\<lparr>pa_Signature := ''''\<rparr>)"

section \<open>Validation\<close>

definition ValidPricingModels :: "string list" where
  "ValidPricingModels = [''per_request'', ''subscription'', ''free'']"

definition ValidEntityTypes :: "string list" where
  "ValidEntityTypes = [''agent'', ''service'']"

definition ValidateServiceFields :: "RegistryRecord \<Rightarrow> string option" where
  "ValidateServiceFields r =
     (if rr_ServiceEndpoint r = '''' then Some ''service_endpoint is required for entity_type service''
      else case rr_EntityPricing r of
        None \<Rightarrow> None
      | Some p \<Rightarrow> if ep_Model p \<noteq> '''' \<and> ep_Model p \<notin> set ValidPricingModels
                  then Some ''invalid pricing model'' else None)"

definition rr_Validate :: "RegistryRecord \<Rightarrow> string option" where
  "rr_Validate r =
     (if rr_EntityID r = '''' then Some ''entity_id is required''
      else if rr_Name r = '''' then Some ''name is required''
      else if length (rr_Name r) > 100 then Some ''name must be 100 characters or less''
      else if rr_Owner r = '''' then Some ''owner is required''
      else if (rr_EntityType r = '''' \<or> rr_EntityType r = ''agent'') \<and> rr_EntityURL r = ''''
        then Some ''entity_url is required for agent type''
      else if rr_Category r = '''' then Some ''category is required''
      else if length (rr_Summary r) > 200 then Some ''summary must be 200 characters or less''
      else if rr_PublicKey r = '''' then Some ''public_key is required''
      else if length (rr_Tags r) > 20 then Some ''maximum 20 tags allowed''
      else if rr_EntityType r \<noteq> '''' \<and> rr_EntityType r \<notin> set ValidEntityTypes
        then Some ''invalid entity_type''
      else if rr_EntityType r = ''service'' then ValidateServiceFields r
      else None)"

definition dev_Validate :: "DeveloperRecord \<Rightarrow> string option" where
  "dev_Validate d =
     (if dev_DeveloperID d = '''' then Some ''developer_id is required''
      else if dev_Name d = '''' then Some ''name is required''
      else if length (dev_Name d) > 100 then Some ''name must be 100 characters or less''
      else if dev_PublicKey d = '''' then Some ''public_key is required''
      else None)"

definition zn_Validate :: "ZNSName \<Rightarrow> string option" where
  "zn_Validate n =
     (if zn_FQAN n = '''' then Some ''fqan is required''
      else if zn_EntityName n = '''' then Some ''entity_name is required''
      else if zn_DeveloperHandle n = '''' then Some ''developer_handle is required''
      else if zn_RegistryHost n = '''' then Some ''registry_host is required''
      else if zn_EntityID n = '''' then Some ''entity_id is required''
      else if zn_DeveloperID n = '''' then Some ''developer_id is required''
      else None)"

section \<open>Private key custody\<close>

text \<open>AES-256-GCM with the key SHA-256(state): \<open>gcmSeal\<close> and \<open>gcmOpen\<close> are the library's AEAD, the
  nonce is drawn by the caller's random source and prepended to the ciphertext.\<close>

definition gcmNonceSize :: nat where "gcmNonceSize = 12"

definition EncryptPrivateKey ::
  "(byte list \<Rightarrow> byte list \<Rightarrow> byte list \<Rightarrow> byte list) \<Rightarrow> byte list \<Rightarrow> string \<Rightarrow> string \<Rightarrow> string" where
  "EncryptPrivateKey gcmSeal nonce privateKeyB64 state =
     (let key = sha256_Sum256 (string_bytes state);
          ciphertext = nonce @ gcmSeal key nonce (string_bytes privateKeyB64)
      in b64_EncodeToString ciphertext)"

definition DecryptPrivateKey ::
  "(byte list \<Rightarrow> byte list \<Rightarrow> byte list \<Rightarrow> byte list option) \<Rightarrow> string \<Rightarrow> string \<Rightarrow> string option" where
  "DecryptPrivateKey gcmOpen ciphertextB64 state =
     (let key = sha256_Sum256 (string_bytes state) in
      case b64_DecodeString ciphertextB64 of
        None \<Rightarrow> None
      | Some ciphertext \<Rightarrow>
          if length ciphertext < gcmNonceSize then None
          else map_option bytes_string
            (gcmOpen key (take gcmNonceSize ciphertext) (drop gcmNonceSize ciphertext)))"

text \<open>A developer key that the registry encrypts for the onboarding website decrypts to
  itself with the same state string, whatever nonce was drawn. The hypothesis is the documented
  behaviour of AES-GCM: what was sealed opens.\<close>

theorem private_key_custody_roundtrip:
  assumes "\<And>key nonce plain. gcmOpen key nonce (gcmSeal key nonce plain) = Some plain"
    "length nonce = gcmNonceSize"
  shows "DecryptPrivateKey gcmOpen (EncryptPrivateKey gcmSeal nonce privateKeyB64 state) state =
    Some privateKeyB64"
  using assms by (simp add: DecryptPrivateKey_def EncryptPrivateKey_def Let_def)

theorem private_key_custody_roundtrip_witness:
  "DecryptPrivateKey (\<lambda>key nonce c. Some (rev c))
     (EncryptPrivateKey (\<lambda>key nonce p. rev p) (replicate 12 7) ''c2VjcmV0'' ''st'') ''st'' =
   Some ''c2VjcmV0''"
  by (rule private_key_custody_roundtrip) (simp_all add: gcmNonceSize_def)

end
