(* ===== verification/Identity.thy ===== *)
theory Identity
  imports Models Kademlia
begin

text \<open>
  Key pairs, signatures and derivation proofs (\<open>src/internal/identity/identity.go\<close>). The
  Ed25519 primitives of the standard library are the record \<open>ed25519\<close> of functions; the
  theorems assume \<open>ed25519_ok\<close>, their documented behaviour: sizes, and that a signature made
  with a key generated from a seed verifies under its public key. Reading and writing key
  files is the (un)marshalling of the two base64 fields.
\<close>

record ed25519 =
  ed_NewKeyFromSeed :: "byte list \<Rightarrow> byte list"
  ed_Public :: "byte list \<Rightarrow> byte list"
  ed_Sign :: "byte list \<Rightarrow> byte list \<Rightarrow> byte list"
  ed_Verify :: "byte list \<Rightarrow> byte list \<Rightarrow> byte list \<Rightarrow> bool"

definition PublicKeySize :: nat where "PublicKeySize = 32"
definition PrivateKeySize :: nat where "PrivateKeySize = 64"
definition SignatureSize :: nat where "SignatureSize = 64"
definition SeedSize :: nat where "SeedSize = 32"

definition ed25519_ok :: "ed25519 \<Rightarrow> bool" where
  "ed25519_ok E = (\<forall>seed msg. length seed = SeedSize \<longrightarrow>
     length (ed_NewKeyFromSeed E seed) = PrivateKeySize \<and>
     length (ed_Public E (ed_NewKeyFromSeed E seed)) = PublicKeySize \<and>
     length (ed_Sign E (ed_NewKeyFromSeed E seed) msg) = SignatureSize \<and>
     ed_Verify E (ed_Public E (ed_NewKeyFromSeed E seed)) msg
       (ed_Sign E (ed_NewKeyFromSeed E seed) msg))"

record Keypair =
  kp_PublicKey :: "byte list"
  kp_PrivateKey :: "byte list"
  kp_PublicKeyB64 :: string
  kp_PrivateKeyB64 :: string

definition keypair_of :: "ed25519 \<Rightarrow> byte list \<Rightarrow> Keypair" where
  "keypair_of E priv = \<lparr>kp_PublicKey = ed_Public E priv, kp_PrivateKey = priv,
     kp_PublicKeyB64 = b64_EncodeToString (ed_Public E priv),
     kp_PrivateKeyB64 = b64_EncodeToString priv\<rparr>"

text \<open>\<open>GenerateKeypair\<close>: \<open>ed25519.GenerateKey\<close> reads a seed from the random source
  (\<^term>\<open>None\<close>: the source failed).\<close>

definition GenerateKeypair :: "ed25519 \<Rightarrow> byte list option \<Rightarrow> Keypair option" where
  "GenerateKeypair E rand = map_option (\<lambda>seed. keypair_of E (ed_NewKeyFromSeed E seed)) rand"

definition LoadKeypair ::
  "('w \<Rightarrow> (string \<times> string) option) \<Rightarrow> 'w option \<Rightarrow> Keypair option" where
  "LoadKeypair unmarshal file = do {
     data \<leftarrow> file;
     (pub64, priv64) \<leftarrow> unmarshal data;
     pubBytes \<leftarrow> b64_DecodeString pub64;
     privBytes \<leftarrow> b64_DecodeString priv64;
     Some \<lparr>kp_PublicKey = pubBytes, kp_PrivateKey = privBytes,
           kp_PublicKeyB64 = pub64, kp_PrivateKeyB64 = priv64\<rparr> }"

text \<open>\<open>SaveKeypair\<close>: the bytes written, when the directory can be made and the write succeeds.\<close>

definition SaveKeypair ::
  "(string \<times> string \<Rightarrow> 'w option) \<Rightarrow> bool \<Rightarrow> bool \<Rightarrow> Keypair \<Rightarrow> 'w option" where
  "SaveKeypair marshal mkdirOK writeOK kp =
     (if \<not> mkdirOK then None
      else case marshal (kp_PublicKeyB64 kp, kp_PrivateKeyB64 kp) of
        None \<Rightarrow> None
      | Some data \<Rightarrow> if writeOK then Some data else None)"

definition kp_Sign :: "ed25519 \<Rightarrow> Keypair \<Rightarrow> byte list \<Rightarrow> string" where
  "kp_Sign E kp message = ''ed25519:'' @ b64_EncodeToString (ed_Sign E (kp_PrivateKey kp) message)"

datatype verify_error = BadPublicKey | BadPublicKeyLength | BadSignatureFormat
  | BadSignatureEncoding | BadSignatureLength | NilProof | BadAgentKey | NegativeIndex

definition Verify :: "ed25519 \<Rightarrow> string \<Rightarrow> byte list \<Rightarrow> string \<Rightarrow> verify_error + bool" where
  "Verify E publicKeyB64 message signature =
     (case b64_DecodeString publicKeyB64 of
        None \<Rightarrow> Inl BadPublicKey
      | Some pubBytes \<Rightarrow>
          if length pubBytes \<noteq> PublicKeySize then Inl BadPublicKeyLength
          else if length signature < 9 \<or> take 8 signature \<noteq> ''ed25519:'' then Inl BadSignatureFormat
          else case b64_DecodeString (drop 8 signature) of
            None \<Rightarrow> Inl BadSignatureEncoding
          | Some sigBytes \<Rightarrow>
              if length sigBytes \<noteq> SignatureSize then Inl BadSignatureLength
              else Inr (ed_Verify E pubBytes message sigBytes))"

definition kp_EntityID :: "Keypair \<Rightarrow> string" where
  "kp_EntityID kp = GenerateEntityID (kp_PublicKey kp) ''agent''"

definition kp_RegistryID :: "Keypair \<Rightarrow> string" where
  "kp_RegistryID kp = GenerateRegistryID (kp_PublicKey kp)"

definition PublicKeyString :: "Keypair \<Rightarrow> string" where
  "PublicKeyString kp = ''ed25519:'' @ kp_PublicKeyB64 kp"

definition kp_DeveloperID :: "Keypair \<Rightarrow> string" where
  "kp_DeveloperID kp = GenerateDeveloperID (kp_PublicKey kp)"

text \<open>\<open>DeriveAgentKeypair\<close>; \<open>developerPrivateKey.Seed()\<close> is its first 32 bytes and the hash
  \<open>sha512\<close> of the standard library is a parameter.\<close>

definition derivation_input :: "byte list \<Rightarrow> uint32 \<Rightarrow> byte list" where
  "derivation_input priv index = take SeedSize priv @ string_bytes ''zns:agent:'' @ putUint32 index"

definition DeriveAgentKeypair ::
  "ed25519 \<Rightarrow> (byte list \<Rightarrow> byte list) \<Rightarrow> byte list \<Rightarrow> uint32 \<Rightarrow> Keypair option" where
  "DeriveAgentKeypair E sha512 developerPrivateKey index =
     (if length developerPrivateKey \<noteq> PrivateKeySize then None
      else let hash = sha512 (derivation_input developerPrivateKey index);
               agentPrivKey = ed_NewKeyFromSeed E (take SeedSize hash)
           in Some (keypair_of E agentPrivKey))"

definition buildProofMessage :: "byte list \<Rightarrow> uint32 \<Rightarrow> byte list" where
  "buildProofMessage agentPubKey index = agentPubKey @ putUint32 index"

definition CreateDerivationProof :: "ed25519 \<Rightarrow> Keypair \<Rightarrow> byte list \<Rightarrow> uint32 \<Rightarrow> DeveloperProof" where
  "CreateDerivationProof E developerKP agentPubKey index =
     \<lparr>dp_DeveloperPublicKey = PublicKeyString developerKP,
      dp_EntityIndex = uint index,
      dp_DeveloperSignature = kp_Sign E developerKP (buildProofMessage agentPubKey index)\<rparr>"

definition VerifyDerivationProof ::
  "ed25519 \<Rightarrow> DeveloperProof option \<Rightarrow> string \<Rightarrow> verify_error + bool" where
  "VerifyDerivationProof E proof agentPubKeyB64 =
     (case proof of
        None \<Rightarrow> Inl NilProof
      | Some p \<Rightarrow>
          let agentPubStr = TrimPrefix agentPubKeyB64 ''ed25519:'' in
          case b64_DecodeString agentPubStr of
            None \<Rightarrow> Inl BadAgentKey
          | Some agentPubBytes \<Rightarrow>
              if dp_EntityIndex p < 0 then Inl NegativeIndex
              else let proofMsg = buildProofMessage agentPubBytes (word_of_int (dp_EntityIndex p));
                       devPubKey = TrimPrefix (dp_DeveloperPublicKey p) ''ed25519:''
                   in Verify E devPubKey proofMsg (dp_DeveloperSignature p))"

section \<open>Signatures\<close>

lemma ed25519_okD:
  assumes "ed25519_ok E" "length seed = SeedSize"
  shows "length (ed_NewKeyFromSeed E seed) = PrivateKeySize"
    "length (ed_Public E (ed_NewKeyFromSeed E seed)) = PublicKeySize"
    "length (ed_Sign E (ed_NewKeyFromSeed E seed) msg) = SignatureSize"
    "ed_Verify E (ed_Public E (ed_NewKeyFromSeed E seed)) msg (ed_Sign E (ed_NewKeyFromSeed E seed) msg)"
  using assms by (simp_all add: ed25519_ok_def)

text \<open>A key pair that the code generates or derives.\<close>

definition generated :: "ed25519 \<Rightarrow> Keypair \<Rightarrow> bool" where
  "generated E kp = (\<exists>seed. length seed = SeedSize \<and> kp = keypair_of E (ed_NewKeyFromSeed E seed))"

lemma length_b64_nonempty: "bs \<noteq> [] \<Longrightarrow> b64_EncodeToString bs \<noteq> []"
  by (cases bs rule: b64_EncodeToString.cases) (simp_all add: Let_def)

lemma Verify_Sign:
  assumes "ed25519_ok E" "generated E kp"
  shows "Verify E (kp_PublicKeyB64 kp) msg (kp_Sign E kp msg) = Inr True"
proof -
  obtain seed where s: "length seed = SeedSize" "kp = keypair_of E (ed_NewKeyFromSeed E seed)"
    using assms(2) by (auto simp: generated_def)
  note ok = ed25519_okD[OF assms(1) s(1)]
  have "ed_Sign E (ed_NewKeyFromSeed E seed) msg \<noteq> []"
    using ok(3)[of msg] by (auto simp: SignatureSize_def)
  then have "length (b64_EncodeToString (ed_Sign E (ed_NewKeyFromSeed E seed) msg)) > 0"
    using length_b64_nonempty by blast
  then show ?thesis using ok s(2) by (simp add: Verify_def kp_Sign_def keypair_of_def)
qed

lemma generated_GenerateKeypair:
  "GenerateKeypair E (Some seed) = Some kp \<Longrightarrow> length seed = SeedSize \<Longrightarrow> generated E kp"
  by (auto simp: GenerateKeypair_def generated_def)

lemma buildProofMessage_inj:
  "buildProofMessage a i = buildProofMessage b j \<longleftrightarrow> a = b \<and> i = j"
  by (auto simp: buildProofMessage_def putUint32_inj)

lemma VerifyDerivationProof_Create:
  assumes "ed25519_ok E" "generated E kp"
  shows "VerifyDerivationProof E (Some (CreateDerivationProof E kp pub i))
      (''ed25519:'' @ b64_EncodeToString pub) = Inr True"
  using Verify_Sign[OF assms, of "buildProofMessage pub i"]
    TrimPrefix_append[of "''ed25519:''" "b64_EncodeToString pub"]
    TrimPrefix_append[of "''ed25519:''" "kp_PublicKeyB64 kp"]
  unfolding VerifyDerivationProof_def CreateDerivationProof_def PublicKeyString_def
  by (simp add: Let_def)

section \<open>Properties\<close>

text \<open>What a generated key signs, verifies: for every message the string \<open>Sign\<close> returns
  passes \<open>Verify\<close> under the key's base64 public key, and the key survives being saved to and
  loaded from its file.\<close>

theorem sign_verify_roundtrip:
  assumes "ed25519_ok E" "length seed = SeedSize" "GenerateKeypair E (Some seed) = Some kp"
    "\<And>p. \<exists>w. marshal p = Some w \<and> unmarshal w = Some p"
  shows "Verify E (kp_PublicKeyB64 kp) msg (kp_Sign E kp msg) = Inr True \<and>
    LoadKeypair unmarshal (SaveKeypair marshal True True kp) = Some kp"
proof -
  have "Verify E (kp_PublicKeyB64 kp) msg (kp_Sign E kp msg) = Inr True"
    using Verify_Sign generated_GenerateKeypair assms(1-3) by blast
  moreover obtain w where "marshal (kp_PublicKeyB64 kp, kp_PrivateKeyB64 kp) = Some w"
    "unmarshal w = Some (kp_PublicKeyB64 kp, kp_PrivateKeyB64 kp)"
    using assms(4) by blast
  ultimately show ?thesis
    using assms(3) by (auto simp: LoadKeypair_def SaveKeypair_def GenerateKeypair_def keypair_of_def)
qed

text \<open>A concrete signature scheme with the sizes of Ed25519, for the witnesses: the signature
  repeats the public key, the message plays no role.\<close>

definition toy_ed25519 :: ed25519 where
  "toy_ed25519 = \<lparr>ed_NewKeyFromSeed = (\<lambda>seed. seed @ seed), ed_Public = take 32,
     ed_Sign = (\<lambda>priv msg. take 32 priv @ take 32 priv), ed_Verify = (\<lambda>pub msg s. s = pub @ pub)\<rparr>"

lemma toy_ed25519_ok: "ed25519_ok toy_ed25519"
  by (simp add: ed25519_ok_def toy_ed25519_def SeedSize_def PrivateKeySize_def PublicKeySize_def
      SignatureSize_def)

theorem sign_verify_roundtrip_witness:
  "\<exists>kp. GenerateKeypair toy_ed25519 (Some (replicate 32 5)) = Some kp \<and>
    Verify toy_ed25519 (kp_PublicKeyB64 kp) [1, 2] (kp_Sign toy_ed25519 kp [1, 2]) = Inr True \<and>
    LoadKeypair Some (SaveKeypair Some True True kp) = Some kp"
proof -
  obtain kp where kp: "GenerateKeypair toy_ed25519 (Some (replicate 32 5)) = Some kp"
    by (simp add: GenerateKeypair_def)
  then show ?thesis
    using sign_verify_roundtrip[OF toy_ed25519_ok _ kp, of Some Some "[1, 2]"]
    by (simp add: SeedSize_def)
qed

text \<open>A derivation proof verifies for the agent key and index it was made for, and its
  signed message determines both: the messages of two proofs agree only when the agent keys and
  the 32-bit indices agree. The agent key derived for an index is deterministic and itself a
  proper key pair.\<close>

theorem derivation_proof_sound:
  assumes "ed25519_ok E" "generated E devKP" "\<And>x. SeedSize \<le> length (sha512 x)"
    "DeriveAgentKeypair E sha512 (kp_PrivateKey devKP) index = Some agentKP"
  shows "generated E agentKP \<and>
    VerifyDerivationProof E (Some (CreateDerivationProof E devKP (kp_PublicKey agentKP) index))
      (PublicKeyString agentKP) = Inr True \<and>
    (buildProofMessage (kp_PublicKey agentKP) index = buildProofMessage otherKey otherIndex \<longleftrightarrow>
      otherKey = kp_PublicKey agentKP \<and> otherIndex = index)"
proof -
  have "agentKP = keypair_of E (ed_NewKeyFromSeed E (take SeedSize
      (sha512 (derivation_input (kp_PrivateKey devKP) index))))"
    using assms(4) by (auto simp: DeriveAgentKeypair_def Let_def split: if_splits)
  moreover have "length (take SeedSize (sha512 (derivation_input (kp_PrivateKey devKP) index))) = SeedSize"
    using assms(3) by simp
  ultimately have "generated E agentKP" unfolding generated_def by blast
  moreover have "PublicKeyString agentKP = ''ed25519:'' @ b64_EncodeToString (kp_PublicKey agentKP)"
    using \<open>agentKP = _\<close> by (simp add: PublicKeyString_def keypair_of_def)
  ultimately show ?thesis
    using VerifyDerivationProof_Create[OF assms(1,2)] buildProofMessage_inj by metis
qed

theorem derivation_proof_sound_witness:
  "\<exists>devKP agentKP. DeriveAgentKeypair toy_ed25519 (\<lambda>x. replicate 64 9) (kp_PrivateKey devKP) 3 = Some agentKP \<and>
    VerifyDerivationProof toy_ed25519
      (Some (CreateDerivationProof toy_ed25519 devKP (kp_PublicKey agentKP) 3))
      (PublicKeyString agentKP) = Inr True"
proof -
  let ?dev = "keypair_of toy_ed25519 (ed_NewKeyFromSeed toy_ed25519 (replicate 32 5))"
  have gen: "generated toy_ed25519 ?dev"
    unfolding generated_def by (rule exI[of _ "replicate 32 5"]) (simp add: SeedSize_def)
  have "length (kp_PrivateKey ?dev) = PrivateKeySize"
    by (simp add: keypair_of_def toy_ed25519_def PrivateKeySize_def)
  then obtain agent where
    a: "DeriveAgentKeypair toy_ed25519 (\<lambda>x. replicate 64 9) (kp_PrivateKey ?dev) 3 = Some agent"
    by (simp add: DeriveAgentKeypair_def)
  then show ?thesis
    using derivation_proof_sound[OF toy_ed25519_ok gen _ a] by (auto simp: SeedSize_def)
qed

text \<open>The entity index of a derivation proof is truncated to 32 bits before it is checked: a
  proof verifies for an index exactly when it verifies for the index plus \<open>2^32\<close>, so the index
  recorded with an entity is not determined by the developer's signature.\<close>

theorem derivation_proof_index_wraps:
  assumes "0 \<le> dp_EntityIndex p"
  shows "VerifyDerivationProof E (Some (p\<lparr>dp_EntityIndex := dp_EntityIndex p + 2 ^ 32\<rparr>)) key =
    VerifyDerivationProof E (Some p) key"
proof -
  have "(word_of_int (dp_EntityIndex p + 2 ^ 32) :: uint32) = word_of_int (dp_EntityIndex p)"
    by (simp add: word_of_int_eq_iff take_bit_eq_mod)
  then show ?thesis
    using assms unfolding VerifyDerivationProof_def Let_def
    by (cases "b64_DecodeString (TrimPrefix key ''ed25519:'')") (simp_all del: of_int_add)
qed

theorem derivation_proof_index_wraps_witness:
  "VerifyDerivationProof toy_ed25519
     (Some \<lparr>dp_DeveloperPublicKey = ''k'', dp_EntityIndex = 1 + 2 ^ 32, dp_DeveloperSignature = ''s''\<rparr>) ''a'' =
   VerifyDerivationProof toy_ed25519
     (Some \<lparr>dp_DeveloperPublicKey = ''k'', dp_EntityIndex = 1, dp_DeveloperSignature = ''s''\<rparr>) ''a''"
  using derivation_proof_index_wraps[of
      "\<lparr>dp_DeveloperPublicKey = ''k'', dp_EntityIndex = 1, dp_DeveloperSignature = ''s''\<rparr>" toy_ed25519 "''a''"]
  by simp

section \<open>Identifiers and DHT keys\<close>

lemma hex_no_colon: "CHR '':'' \<notin> set (hex_EncodeToString bs)" "CHR ''r'' \<notin> set (hex_EncodeToString bs)"
  "CHR ''s'' \<notin> set (hex_EncodeToString bs)" "CHR ''v'' \<notin> set (hex_EncodeToString bs)"
  using set_hex_encode[of bs] by auto

abbreviation id_prefixes :: "string list" where
  "id_prefixes \<equiv> [''zns:registry:'', ''zns:svc:'', ''zns:dev:'', ''zns:'']"

lemma take_prefix_mismatch:
  assumes "c \<in> set q" "c \<notin> set h"
  shows "take (length (p @ q)) (p @ h) \<noteq> p @ q"
  using assms in_set_takeD[of c "length q" h] by auto

lemma strip_id:
  assumes "bs \<noteq> []"
  defines "h \<equiv> hex_EncodeToString bs"
  shows "strip_id_prefix id_prefixes (''zns:'' @ h) = h"
    "strip_id_prefix id_prefixes (''zns:svc:'' @ h) = h"
    "strip_id_prefix id_prefixes (''zns:dev:'' @ h) = h"
    "strip_id_prefix id_prefixes (''zns:registry:'' @ h) = h"
proof -
  have len: "h \<noteq> []" using assms by (cases bs) simp_all
  then show "strip_id_prefix id_prefixes (''zns:svc:'' @ h) = h"
    "strip_id_prefix id_prefixes (''zns:dev:'' @ h) = h"
    "strip_id_prefix id_prefixes (''zns:registry:'' @ h) = h"
    by simp_all
  show "strip_id_prefix id_prefixes (''zns:'' @ h) = h"
    using take_prefix_mismatch[of "CHR ''r''" "''registry:''" h "''zns:''"]
      take_prefix_mismatch[of "CHR ''s''" "''svc:''" h "''zns:''"]
      take_prefix_mismatch[of "CHR ''v''" "''dev:''" h "''zns:''"] hex_no_colon[of bs] assms(1)
    by (simp add: h_def)
qed

lemma NodeIDFromAgentID_prefixed:
  assumes "bs \<noteq> []"
  shows "NodeIDFromAgentID (''zns:'' @ hex_EncodeToString bs) = Some (NodeIDFromBytes bs)"
    "NodeIDFromAgentID (''zns:svc:'' @ hex_EncodeToString bs) = Some (NodeIDFromBytes bs)"
    "NodeIDFromAgentID (''zns:dev:'' @ hex_EncodeToString bs) = Some (NodeIDFromBytes bs)"
    "NodeIDFromAgentID (''zns:registry:'' @ hex_EncodeToString bs) = Some (NodeIDFromBytes bs)"
  unfolding NodeIDFromAgentID_def Let_def strip_id[OF assms] by simp_all

text \<open>The agent, service, developer and registry identifiers of one public key all lead to the
  same DHT key: the first 16 bytes of the key's SHA-256 digest, extended with zeros. Hence two
  identifiers of the same kind are equal exactly when these digest prefixes are.\<close>

theorem identifiers_to_node_id:
  "NodeIDFromAgentID (GenerateEntityID pk t) = Some (NodeIDFromBytes (take 16 (sha256_Sum256 pk))) \<and>
   NodeIDFromAgentID (GenerateDeveloperID pk) = Some (NodeIDFromBytes (take 16 (sha256_Sum256 pk))) \<and>
   NodeIDFromAgentID (GenerateRegistryID pk) = Some (NodeIDFromBytes (take 16 (sha256_Sum256 pk))) \<and>
   (GenerateEntityID pk t = GenerateEntityID pk' t \<longleftrightarrow>
      take 16 (sha256_Sum256 pk) = take 16 (sha256_Sum256 pk'))"
proof -
  let ?d = "take 16 (sha256_Sum256 pk)"
  have ne: "?d \<noteq> []" using length_sha256[of pk] by (metis length_0_conv take_eq_Nil zero_neq_numeral)
  show ?thesis
    using NodeIDFromAgentID_prefixed[OF ne]
    unfolding GenerateEntityID_def GenerateDeveloperID_def GenerateRegistryID_def Let_def
    by (cases "t = ''service''") (simp_all add: hexc.enc_inj)
qed

end
