(* ===== verification/Table.thy ===== *)
theory Table
  imports Prelude
begin

text \<open>
  Relational tables as lists of rows with a key function: the SQL statements of the store as
  list operations (select by key, insert with a primary key check, update, delete, and
  \<open>INSERT ... ON CONFLICT DO UPDATE\<close>), with the laws its clients use. The locale
  \<open>upsert_table\<close> is the contract of a table that is written by upserts only through a merge
  that keeps the key; every upserted table of the store interprets it.
\<close>

definition keys_distinct :: "('r \<Rightarrow> 'k) \<Rightarrow> 'r list \<Rightarrow> bool" where
  "keys_distinct key rows = distinct (map key rows)"

definition t_get :: "('r \<Rightarrow> 'k) \<Rightarrow> 'k \<Rightarrow> 'r list \<Rightarrow> 'r option" where
  "t_get key k rows = find (\<lambda>r. key r = k) rows"

definition t_insert :: "('r \<Rightarrow> 'k) \<Rightarrow> 'r \<Rightarrow> 'r list \<Rightarrow> 'r list option" where
  "t_insert key r rows = (case t_get key (key r) rows of None \<Rightarrow> Some (rows @ [r]) | Some _ \<Rightarrow> None)"

definition t_update :: "('r \<Rightarrow> bool) \<Rightarrow> ('r \<Rightarrow> 'r) \<Rightarrow> 'r list \<Rightarrow> 'r list" where
  "t_update P f rows = map (\<lambda>r. if P r then f r else r) rows"

definition t_delete :: "('r \<Rightarrow> bool) \<Rightarrow> 'r list \<Rightarrow> 'r list" where
  "t_delete P rows = filter (\<lambda>r. \<not> P r) rows"

definition t_count :: "('r \<Rightarrow> bool) \<Rightarrow> 'r list \<Rightarrow> nat" where
  "t_count P rows = length (filter P rows)"

definition t_upsert :: "('r \<Rightarrow> 'k) \<Rightarrow> ('r \<Rightarrow> 'r \<Rightarrow> 'r) \<Rightarrow> 'r \<Rightarrow> 'r list \<Rightarrow> 'r list" where
  "t_upsert key merge r rows = (case t_get key (key r) rows of
       None \<Rightarrow> rows @ [r]
     | Some _ \<Rightarrow> t_update (\<lambda>old. key old = key r) (\<lambda>old. merge old r) rows)"

lemma t_get_None: "t_get key k rows = None \<longleftrightarrow> k \<notin> key ` set rows"
  by (auto simp: t_get_def find_None_iff)

lemma t_get_Some: "t_get key k rows = Some r \<Longrightarrow> r \<in> set rows \<and> key r = k"
  by (auto simp: t_get_def find_Some_iff in_set_conv_nth)

lemma t_get_simps [simp]:
  "t_get key k [] = None"
  "t_get key k (r # rows) = (if key r = k then Some r else t_get key k rows)"
  by (simp_all add: t_get_def)

lemma t_get_append:
  "t_get key k (rows @ rows') = (case t_get key k rows of None \<Rightarrow> t_get key k rows' | Some r \<Rightarrow> Some r)"
  by (induction rows) auto

lemma t_get_unique:
  "keys_distinct key rows \<Longrightarrow> r \<in> set rows \<Longrightarrow> t_get key (key r) rows = Some r"
  by (induction rows) (auto simp: keys_distinct_def image_iff)

lemma t_get_update:
  assumes "\<And>r. r \<in> set rows \<Longrightarrow> P r \<Longrightarrow> key (f r) = key r"
  shows "t_get key k (t_update P f rows) =
    map_option (\<lambda>r. if P r then f r else r) (t_get key k rows)"
  using assms by (induction rows) (auto simp: t_update_def)

lemma map_key_update:
  assumes "\<And>r. r \<in> set rows \<Longrightarrow> P r \<Longrightarrow> key (f r) = key r"
  shows "map key (t_update P f rows) = map key rows"
  using assms by (induction rows) (auto simp: t_update_def)

lemma keys_distinct_update:
  "(\<And>r. r \<in> set rows \<Longrightarrow> P r \<Longrightarrow> key (f r) = key r) \<Longrightarrow> keys_distinct key rows \<Longrightarrow>
   keys_distinct key (t_update P f rows)"
  by (simp add: keys_distinct_def map_key_update)

lemma keys_distinct_delete: "keys_distinct key rows \<Longrightarrow> keys_distinct key (t_delete P rows)"
  by (simp add: keys_distinct_def t_delete_def distinct_map_filter)

lemma keys_distinct_append:
  "t_get key (key r) rows = None \<Longrightarrow> keys_distinct key rows \<Longrightarrow> keys_distinct key (rows @ [r])"
  by (auto simp: keys_distinct_def t_get_None)

lemma t_insert_Some:
  "t_insert key r rows = Some rows' \<Longrightarrow> t_get key (key r) rows = None \<and> rows' = rows @ [r]"
  by (simp add: t_insert_def split: option.splits)

lemma keys_distinct_insert:
  "t_insert key r rows = Some rows' \<Longrightarrow> keys_distinct key rows \<Longrightarrow> keys_distinct key rows'"
  using t_insert_Some keys_distinct_append by metis

lemma t_get_insert:
  assumes "t_insert key r rows = Some rows'"
  shows "t_get key k rows' = (if k = key r then Some r else t_get key k rows)"
  using t_insert_Some[OF assms] by (auto simp: t_get_append split: option.splits)

lemma t_get_delete:
  "keys_distinct key rows \<Longrightarrow>
   t_get key k (t_delete P rows) = (case t_get key k rows of
      None \<Rightarrow> None | Some r \<Rightarrow> if P r then None else Some r)"
proof (induction rows)
  case (Cons r rows)
  then have d: "keys_distinct key rows" "t_get key (key r) rows = None"
    by (auto simp: keys_distinct_def t_get_None)
  show ?case
  proof (cases "key r = k \<and> P r")
    case True
    have "t_get key (key r) (t_delete P rows) = None"
      using d Cons.IH[OF d(1)] True by simp
    then show ?thesis using True by (simp add: t_delete_def)
  next
    case False
    then show ?thesis using Cons.IH[OF d(1)] by (auto simp: t_delete_def)
  qed
qed (simp add: t_delete_def)

lemma set_t_update: "r' \<in> set (t_update P f rows) \<longleftrightarrow> (\<exists>r\<in>set rows. r' = (if P r then f r else r))"
  by (auto simp: t_update_def)

lemma set_t_delete [simp]: "set (t_delete P rows) = {r \<in> set rows. \<not> P r}"
  by (auto simp: t_delete_def)

text \<open>A table written by upserts: merging a new row into an old one keeps the key.\<close>

locale upsert_table =
  fixes key :: "'r \<Rightarrow> 'k" and merge :: "'r \<Rightarrow> 'r \<Rightarrow> 'r"
  assumes merge_key: "key old = key r \<Longrightarrow> key (merge old r) = key r"
begin

lemma get_upsert:
  "t_get key k (t_upsert key merge r rows) =
    (if k = key r then Some (case t_get key k rows of None \<Rightarrow> r | Some old \<Rightarrow> merge old r)
     else t_get key k rows)"
proof (cases "t_get key (key r) rows")
  case None
  then show ?thesis by (auto simp: t_upsert_def t_get_append split: option.splits)
next
  case (Some old)
  have "t_get key k (t_upsert key merge r rows) =
      map_option (\<lambda>o'. if key o' = key r then merge o' r else o') (t_get key k rows)"
    unfolding t_upsert_def using Some merge_key by (simp, subst t_get_update) auto
  moreover have "key r' = k" if "t_get key k rows = Some r'" for r' using t_get_Some[OF that] by simp
  ultimately show ?thesis using Some by (cases "t_get key k rows") auto
qed

lemma distinct_upsert: "keys_distinct key rows \<Longrightarrow> keys_distinct key (t_upsert key merge r rows)"
  unfolding t_upsert_def using merge_key
  by (auto intro!: keys_distinct_append keys_distinct_update split: option.splits)

end

text \<open>The table whose upsert overwrites the old row.\<close>

interpretation overwrite: upsert_table key "\<lambda>old new. new" for key :: "'r \<Rightarrow> 'k"
  by unfold_locales simp

end
