(* ===== verification/Store.thy ===== *)
theory Store
  imports Models Table
begin

text \<open>
  The PostgreSQL store (\<open>src/internal/store/postgres.go\<close>): each table is a list of rows, each
  method the effect of its SQL statements under the schema's constraints (primary keys, unique
  indexes, foreign keys, defaults, ON CONFLICT clauses). The database itself is not part of the
  sources; \<open>db_fault\<close> makes every statement fail, so the error branches are modelled.

  TIMESTAMPTZ columns hold integers: \<open>tf_Parse\<close> is PostgreSQL's reading of a timestamp string
  (\<^term>\<open>None\<close>: a syntax error), \<open>tf_Format\<close> is Go's RFC3339 formatting in UTC; both are
  parameters. JSONB columns hold the value that was marshalled. A nullable TEXT column that the
  code writes through \<open>nilIfEmpty\<close> is the string itself, the empty string being NULL. The time
  of the statement (\<open>NOW()\<close>, \<open>time.Now()\<close>) is the argument \<open>now\<close>.
\<close>

record timefmt =
  tf_Parse :: "string \<Rightarrow> int option"
  tf_Format :: "int \<Rightarrow> string"

datatype dberr = DbFault | UniqueViolation | ForeignKeyViolation | BadTimestamp | NoRowsAffected
  | HandleTaken

record EntityRow =
  er_rec :: RegistryRecord
  er_registered :: int
  er_updated :: int
  er_heartbeat :: "int option"

record GossipRow =
  gr_rec :: GossipEntry
  gr_received :: int
  gr_tombstone_at :: "int option"

record TombstoneRow =
  tr_rec :: Tombstone
  tr_created :: int
  tr_expires :: int

record DevRow =
  dv_rec :: DeveloperRecord
  dv_handle :: "string option"
  dv_registered :: int
  dv_updated :: int

record GossipDevRow =
  gdr_rec :: GossipDeveloperEntry
  gdr_received :: int
  gdr_tombstone_at :: "int option"

record ZnsRow =
  zr_rec :: ZNSName
  zr_registered :: int
  zr_updated :: int

record ZnsVersionRow =
  vr_rec :: ZNSVersion
  vr_registered :: int

record GossipZnsRow =
  gzr_rec :: GossipZNSName
  gzr_received :: int

record ProofRow =
  pr_rec :: RegistryIdentityProof
  pr_issued :: int
  pr_expires :: int
  pr_received :: int

record AttestationRow =
  ar_rec :: PeerAttestation
  ar_attested :: int

record DB =
  db_fault :: bool
  db_entities :: "EntityRow list"
  db_gossip :: "GossipRow list"
  db_tombstones :: "TombstoneRow list"
  db_meta :: "(string \<times> string) list"
  db_developers :: "DevRow list"
  db_gossip_developers :: "GossipDevRow list"
  db_zns :: "ZnsRow list"
  db_zns_versions :: "ZnsVersionRow list"
  db_gossip_zns :: "GossipZnsRow list"
  db_proofs :: "ProofRow list"
  db_attestations :: "AttestationRow list"

type_synonym exec = "(dberr + unit) \<times> DB"

definition pool_Exec :: "DB \<Rightarrow> (DB \<Rightarrow> exec) \<Rightarrow> exec" where
  "pool_Exec db stmt = (if db_fault db then (Inl DbFault, db) else stmt db)"

definition pool_Query :: "DB \<Rightarrow> (DB \<Rightarrow> 'a) \<Rightarrow> dberr + 'a" where
  "pool_Query db q = (if db_fault db then Inl DbFault else Inr (q db))"

text \<open>\<open>ct.RowsAffected() == 0\<close> after an UPDATE or DELETE.\<close>

definition require_rows :: "('r \<Rightarrow> bool) \<Rightarrow> 'r list \<Rightarrow> dberr + unit" where
  "require_rows P rows = (if t_count P rows = 0 then Inl NoRowsAffected else Inr ())"

abbreviation ekey :: "EntityRow \<Rightarrow> string" where "ekey r \<equiv> rr_EntityID (er_rec r)"
abbreviation gkey :: "GossipRow \<Rightarrow> string" where "gkey r \<equiv> ge_EntityID (gr_rec r)"
abbreviation tkey :: "TombstoneRow \<Rightarrow> string" where "tkey r \<equiv> ts_EntityID (tr_rec r)"
abbreviation dkey :: "DevRow \<Rightarrow> string" where "dkey r \<equiv> dev_DeveloperID (dv_rec r)"
abbreviation gdkey :: "GossipDevRow \<Rightarrow> string" where "gdkey r \<equiv> gd_DeveloperID (gdr_rec r)"
abbreviation zkey :: "ZnsRow \<Rightarrow> string" where "zkey r \<equiv> zn_FQAN (zr_rec r)"
abbreviation vkey :: "ZnsVersionRow \<Rightarrow> string \<times> string" where
  "vkey r \<equiv> (zv_FQAN (vr_rec r), zv_Version (vr_rec r))"
abbreviation gzkey :: "GossipZnsRow \<Rightarrow> string" where "gzkey r \<equiv> gz_FQAN (gzr_rec r)"
abbreviation pkey :: "ProofRow \<Rightarrow> string" where "pkey r \<equiv> ri_RegistryID (pr_rec r)"
abbreviation akey :: "AttestationRow \<Rightarrow> string \<times> string" where
  "akey r \<equiv> (pa_AttesterID (ar_rec r), pa_SubjectID (ar_rec r))"

definition or_default :: "string \<Rightarrow> string \<Rightarrow> string" where
  "or_default s d = (if s = '''' then d else s)"

section \<open>Entities\<close>

definition CreateAgent :: "timefmt \<Rightarrow> int \<Rightarrow> RegistryRecord \<Rightarrow> DB \<Rightarrow> exec" where
  "CreateAgent T now agent db = pool_Exec db (\<lambda>db.
     case (tf_Parse T (rr_RegisteredAt agent), tf_Parse T (rr_UpdatedAt agent)) of
       (Some ra, Some ua) \<Rightarrow>
         (let row = \<lparr>er_rec = agent\<lparr>
                rr_SchemaVersion := or_default (rr_SchemaVersion agent) CurrentSchemaVersion,
                rr_EntityType := or_default (rr_EntityType agent) ''agent'',
                rr_CapabilitySummary := None, rr_CodebaseHash := '''', rr_Status := ''active''\<rparr>,
              er_registered = ra, er_updated = ua, er_heartbeat = Some now\<rparr>
          in case t_insert ekey row (db_entities db) of
               None \<Rightarrow> (Inl UniqueViolation, db)
             | Some rows \<Rightarrow> (Inr (), db\<lparr>db_entities := rows\<rparr>))
     | _ \<Rightarrow> (Inl BadTimestamp, db))"

text \<open>The columns the SELECT statements read; \<open>codebase_hash\<close> is not among them.\<close>

definition scanAgentRow :: "timefmt \<Rightarrow> EntityRow \<Rightarrow> RegistryRecord" where
  "scanAgentRow T row = (er_rec row)\<lparr>
     rr_RegisteredAt := tf_Format T (er_registered row),
     rr_UpdatedAt := tf_Format T (er_updated row),
     rr_LastHeartbeat := (case er_heartbeat row of None \<Rightarrow> '''' | Some t \<Rightarrow> tf_Format T t),
     rr_CapabilitySummary := None, rr_CodebaseHash := ''''\<rparr>"

definition GetEntity :: "timefmt \<Rightarrow> string \<Rightarrow> DB \<Rightarrow> dberr + RegistryRecord option" where
  "GetEntity T agentID db = pool_Query db (\<lambda>db.
     map_option (scanAgentRow T) (t_get ekey agentID (db_entities db)))"

definition UpdateEntity :: "timefmt \<Rightarrow> RegistryRecord \<Rightarrow> DB \<Rightarrow> exec" where
  "UpdateEntity T agent db = pool_Exec db (\<lambda>db.
     case tf_Parse T (rr_UpdatedAt agent) of
       None \<Rightarrow> (Inl BadTimestamp, db)
     | Some ua \<Rightarrow>
         (let P = (\<lambda>r. ekey r = rr_EntityID agent \<and> rr_Owner (er_rec r) = rr_Owner agent);
              f = (\<lambda>r. r\<lparr>er_updated := ua, er_rec := (er_rec r)\<lparr>
                    rr_Name := rr_Name agent, rr_EntityURL := rr_EntityURL agent,
                    rr_Category := rr_Category agent, rr_Tags := rr_Tags agent,
                    rr_Summary := rr_Summary agent, rr_TTL := rr_TTL agent,
                    rr_Signature := rr_Signature agent, rr_SchemaVersion := rr_SchemaVersion agent,
                    rr_CodebaseHash := rr_CodebaseHash agent,
                    rr_EntityType := or_default (rr_EntityType agent) ''agent'',
                    rr_ServiceEndpoint := rr_ServiceEndpoint agent,
                    rr_OpenAPIURL := rr_OpenAPIURL agent,
                    rr_EntityPricing := rr_EntityPricing agent\<rparr>\<rparr>)
          in (require_rows P (db_entities db), db\<lparr>db_entities := t_update P f (db_entities db)\<rparr>)))"

text \<open>Deleting rows of \<open>zns_names\<close> cascades to \<open>zns_versions\<close>.\<close>

definition delete_names :: "(ZnsRow \<Rightarrow> bool) \<Rightarrow> DB \<Rightarrow> DB" where
  "delete_names P db =
     db\<lparr>db_zns := t_delete P (db_zns db),
        db_zns_versions := t_delete (\<lambda>v. \<exists>z\<in>set (db_zns db). P z \<and> zkey z = zv_FQAN (vr_rec v))
          (db_zns_versions db)\<rparr>"

definition DeleteEntity :: "string \<Rightarrow> string \<Rightarrow> DB \<Rightarrow> exec" where
  "DeleteEntity agentID owner db0 =
     (case pool_Exec db0 (\<lambda>db. (Inr (), delete_names (\<lambda>z. zn_EntityID (zr_rec z) = agentID) db)) of
        (Inl e, db) \<Rightarrow> (Inl e, db)
      | (Inr _, db) \<Rightarrow> pool_Exec db (\<lambda>db.
          let P = (\<lambda>r. ekey r = agentID \<and> rr_Owner (er_rec r) = owner)
          in (require_rows P (db_entities db), db\<lparr>db_entities := t_delete P (db_entities db)\<rparr>)))"

definition newer_entity :: "EntityRow \<Rightarrow> EntityRow \<Rightarrow> bool" where
  "newer_entity r s = (er_updated r > er_updated s)"

definition page :: "nat \<Rightarrow> nat \<Rightarrow> 'a list \<Rightarrow> 'a list" where
  "page limit offset xs = take limit (drop offset xs)"

definition ListEntities ::
  "timefmt \<Rightarrow> string \<Rightarrow> nat \<Rightarrow> nat \<Rightarrow> DB \<Rightarrow> dberr + RegistryRecord list" where
  "ListEntities T category limit offset db = pool_Query db (\<lambda>db.
     let rows = (if category \<noteq> '''' then filter (\<lambda>r. rr_Category (er_rec r) = category) (db_entities db)
                 else db_entities db)
     in map (scanAgentRow T) (page limit offset (sort_Slice newer_entity rows)))"

definition CountEntities :: "DB \<Rightarrow> dberr + nat" where
  "CountEntities db = pool_Query db (\<lambda>db. length (db_entities db))"

definition ListEntitiesByDeveloper ::
  "timefmt \<Rightarrow> string \<Rightarrow> nat \<Rightarrow> nat \<Rightarrow> DB \<Rightarrow> dberr + RegistryRecord list" where
  "ListEntitiesByDeveloper T developerID limit offset db = pool_Query db (\<lambda>db.
     map (scanAgentRow T) (page limit offset (sort_Slice newer_entity
       (filter (\<lambda>r. rr_DeveloperID (er_rec r) = developerID) (db_entities db)))))"

definition UpdateEntityHeartbeat :: "int \<Rightarrow> string \<Rightarrow> DB \<Rightarrow> exec" where
  "UpdateEntityHeartbeat now agentID db = pool_Exec db (\<lambda>db.
     let P = (\<lambda>r. ekey r = agentID);
         f = (\<lambda>r. r\<lparr>er_heartbeat := Some now, er_rec := (er_rec r)\<lparr>rr_Status := ''active''\<rparr>\<rparr>)
     in (require_rows P (db_entities db), db\<lparr>db_entities := t_update P f (db_entities db)\<rparr>))"

definition stale :: "int \<Rightarrow> EntityRow \<Rightarrow> bool" where
  "stale cutoff r = (rr_Status (er_rec r) = ''active'' \<and>
     (case er_heartbeat r of None \<Rightarrow> True | Some t \<Rightarrow> t < cutoff))"

definition MarkInactiveEntities :: "int \<Rightarrow> int \<Rightarrow> DB \<Rightarrow> (dberr + string list) \<times> DB" where
  "MarkInactiveEntities now threshold db =
     (if db_fault db then (Inl DbFault, db)
      else let cutoff = now - threshold
           in (Inr (map ekey (filter (stale cutoff) (db_entities db))),
               db\<lparr>db_entities := t_update (stale cutoff)
                 (\<lambda>r. r\<lparr>er_rec := (er_rec r)\<lparr>rr_Status := ''inactive''\<rparr>\<rparr>) (db_entities db)\<rparr>))"

section \<open>Gossip entries\<close>

definition GetGossipEntry :: "timefmt \<Rightarrow> string \<Rightarrow> DB \<Rightarrow> dberr + GossipEntry option" where
  "GetGossipEntry T agentID db = pool_Query db (\<lambda>db. map_option
     (\<lambda>r. (gr_rec r)\<lparr>ge_ReceivedAt := tf_Format T (gr_received r), ge_CapabilitySummary := None,
        ge_TombstoneAt := '''', ge_DeveloperID := '''', ge_DeveloperPublicKey := '''',
        ge_DeveloperProof := None\<rparr>)
     (t_get gkey agentID (db_gossip db)))"

definition gossip_merge :: "GossipRow \<Rightarrow> GossipRow \<Rightarrow> GossipRow" where
  "gossip_merge old new = old\<lparr>gr_received := gr_received new, gr_rec := (gr_rec old)\<lparr>
     ge_Name := ge_Name (gr_rec new), ge_Category := ge_Category (gr_rec new),
     ge_Tags := ge_Tags (gr_rec new), ge_Summary := ge_Summary (gr_rec new),
     ge_EntityURL := ge_EntityURL (gr_rec new), ge_DeveloperID := ge_DeveloperID (gr_rec new),
     ge_DeveloperPublicKey := ge_DeveloperPublicKey (gr_rec new),
     ge_DeveloperProof := ge_DeveloperProof (gr_rec new),
     ge_OriginPublicKey := or_default (ge_OriginPublicKey (gr_rec old)) (ge_OriginPublicKey (gr_rec new)),
     ge_Status := ge_Status (gr_rec new), ge_EntityType := ge_EntityType (gr_rec new),
     ge_ServiceEndpoint := ge_ServiceEndpoint (gr_rec new),
     ge_OpenAPIURL := ge_OpenAPIURL (gr_rec new),
     ge_EntityPricing := ge_EntityPricing (gr_rec new)\<rparr>\<rparr>"

definition UpsertGossipEntry :: "timefmt \<Rightarrow> GossipEntry \<Rightarrow> DB \<Rightarrow> exec" where
  "UpsertGossipEntry T entry db = pool_Exec db (\<lambda>db.
     case tf_Parse T (ge_ReceivedAt entry) of
       None \<Rightarrow> (Inl BadTimestamp, db)
     | Some ra \<Rightarrow>
         (let row = \<lparr>gr_rec = entry\<lparr>ge_Status := or_default (ge_Status entry) ''inactive'',
                       ge_EntityType := or_default (ge_EntityType entry) ''agent''\<rparr>,
                     gr_received = ra, gr_tombstone_at = None\<rparr>
          in (Inr (), db\<lparr>db_gossip := t_upsert gkey gossip_merge row (db_gossip db)\<rparr>)))"

definition TombstoneGossipEntry :: "int \<Rightarrow> string \<Rightarrow> DB \<Rightarrow> exec" where
  "TombstoneGossipEntry now agentID db = pool_Exec db (\<lambda>db. (Inr (),
     db\<lparr>db_gossip := t_update (\<lambda>r. gkey r = agentID)
       (\<lambda>r. r\<lparr>gr_tombstone_at := Some now, gr_rec := (gr_rec r)\<lparr>ge_Tombstoned := True\<rparr>\<rparr>)
       (db_gossip db)\<rparr>))"

definition UpdateGossipEntryStatus :: "string \<Rightarrow> string \<Rightarrow> DB \<Rightarrow> exec" where
  "UpdateGossipEntryStatus agentID status db = pool_Exec db (\<lambda>db. (Inr (),
     db\<lparr>db_gossip := t_update (\<lambda>r. gkey r = agentID)
       (\<lambda>r. r\<lparr>gr_rec := (gr_rec r)\<lparr>ge_Status := status\<rparr>\<rparr>) (db_gossip db)\<rparr>))"

definition CountGossipEntries :: "DB \<Rightarrow> dberr + nat" where
  "CountGossipEntries db = pool_Query db (\<lambda>db. t_count (\<lambda>r. \<not> ge_Tombstoned (gr_rec r)) (db_gossip db))"

section \<open>Tombstones and node metadata\<close>

definition CreateTombstone :: "timefmt \<Rightarrow> Tombstone \<Rightarrow> DB \<Rightarrow> exec" where
  "CreateTombstone T t db = pool_Exec db (\<lambda>db.
     case (tf_Parse T (ts_CreatedAt t), tf_Parse T (ts_ExpiresAt t)) of
       (Some c, Some e) \<Rightarrow> (Inr (), db\<lparr>db_tombstones :=
          t_upsert tkey (\<lambda>old new. new) \<lparr>tr_rec = t, tr_created = c, tr_expires = e\<rparr> (db_tombstones db)\<rparr>)
     | _ \<Rightarrow> (Inl BadTimestamp, db))"

definition CleanExpiredTombstones :: "int \<Rightarrow> DB \<Rightarrow> (dberr + nat) \<times> DB" where
  "CleanExpiredTombstones now db =
     (if db_fault db then (Inl DbFault, db)
      else (Inr (t_count (\<lambda>r. tr_expires r < now) (db_tombstones db)),
        db\<lparr>db_tombstones := t_delete (\<lambda>r. tr_expires r < now) (db_tombstones db),
           db_gossip := t_delete (\<lambda>r. ge_Tombstoned (gr_rec r) \<and>
              (case gr_tombstone_at r of None \<Rightarrow> False | Some t \<Rightarrow> t < now)) (db_gossip db)\<rparr>))"

definition SetMeta :: "string \<Rightarrow> string \<Rightarrow> DB \<Rightarrow> exec" where
  "SetMeta key value db = pool_Exec db (\<lambda>db. (Inr (),
     db\<lparr>db_meta := t_upsert fst (\<lambda>old new. new) (key, value) (db_meta db)\<rparr>))"

definition GetMeta :: "string \<Rightarrow> DB \<Rightarrow> dberr + string" where
  "GetMeta key db = pool_Query db (\<lambda>db.
     case t_get fst key (db_meta db) of None \<Rightarrow> '''' | Some (_, value) \<Rightarrow> value)"

section \<open>Developers and handles\<close>

text \<open>The unique index on \<open>(dev_handle, home_registry)\<close> of rows with a handle.\<close>

definition handle_clash :: "DevRow \<Rightarrow> DevRow \<Rightarrow> bool" where
  "handle_clash r s = (dv_handle r \<noteq> None \<and> dv_handle r = dv_handle s \<and>
     dev_HomeRegistry (dv_rec r) = dev_HomeRegistry (dv_rec s))"

definition CreateDeveloper :: "timefmt \<Rightarrow> DeveloperRecord \<Rightarrow> DB \<Rightarrow> exec" where
  "CreateDeveloper T dev db = pool_Exec db (\<lambda>db.
     case (tf_Parse T (dev_RegisteredAt dev), tf_Parse T (dev_UpdatedAt dev)) of
       (Some ra, Some ua) \<Rightarrow>
         (let row = \<lparr>dv_rec = dev\<lparr>dev_SchemaVersion := or_default (dev_SchemaVersion dev) CurrentSchemaVersion,
                        dev_DevHandleVerified := False, dev_VerificationMethod := '''',
                        dev_VerificationProof := ''''\<rparr>,
                     dv_handle = (if dev_DevHandle dev \<noteq> '''' then Some (dev_DevHandle dev) else None),
                     dv_registered = ra, dv_updated = ua\<rparr>
          in if list_ex (\<lambda>r. dkey r = dkey row \<or> dev_PublicKey (dv_rec r) = dev_PublicKey dev \<or>
                  handle_clash row r) (db_developers db)
             then (Inl UniqueViolation, db)
             else (Inr (), db\<lparr>db_developers := db_developers db @ [row]\<rparr>))
     | _ \<Rightarrow> (Inl BadTimestamp, db))"

definition scanDeveloper :: "timefmt \<Rightarrow> DevRow \<Rightarrow> DeveloperRecord" where
  "scanDeveloper T r = (dv_rec r)\<lparr>dev_RegisteredAt := tf_Format T (dv_registered r),
     dev_UpdatedAt := tf_Format T (dv_updated r),
     dev_DevHandle := (case dv_handle r of None \<Rightarrow> '''' | Some h \<Rightarrow> h)\<rparr>"

definition GetDeveloper :: "timefmt \<Rightarrow> string \<Rightarrow> DB \<Rightarrow> dberr + DeveloperRecord option" where
  "GetDeveloper T developerID db = pool_Query db (\<lambda>db.
     map_option (scanDeveloper T) (t_get dkey developerID (db_developers db)))"

definition GetDeveloperByPublicKey :: "timefmt \<Rightarrow> string \<Rightarrow> DB \<Rightarrow> dberr + DeveloperRecord option" where
  "GetDeveloperByPublicKey T publicKey db = pool_Query db (\<lambda>db.
     map_option (scanDeveloper T) (t_get (\<lambda>r. dev_PublicKey (dv_rec r)) publicKey (db_developers db)))"

definition GetDeveloperByHandle :: "timefmt \<Rightarrow> string \<Rightarrow> string \<Rightarrow> DB \<Rightarrow> dberr + DeveloperRecord option" where
  "GetDeveloperByHandle T handle homeRegistry db = pool_Query db (\<lambda>db.
     map_option (scanDeveloper T)
       (find (\<lambda>r. dv_handle r = Some handle \<and> dev_HomeRegistry (dv_rec r) = homeRegistry) (db_developers db)))"

definition UpdateDeveloper :: "timefmt \<Rightarrow> DeveloperRecord \<Rightarrow> DB \<Rightarrow> exec" where
  "UpdateDeveloper T dev db = pool_Exec db (\<lambda>db.
     case tf_Parse T (dev_UpdatedAt dev) of
       None \<Rightarrow> (Inl BadTimestamp, db)
     | Some ua \<Rightarrow>
         (let P = (\<lambda>r. dkey r = dev_DeveloperID dev);
              f = (\<lambda>r. r\<lparr>dv_updated := ua, dv_rec := (dv_rec r)\<lparr>dev_Name := dev_Name dev,
                     dev_ProfileURL := dev_ProfileURL dev, dev_GitHub := dev_GitHub dev,
                     dev_Signature := dev_Signature dev\<rparr>\<rparr>)
          in (require_rows P (db_developers db), db\<lparr>db_developers := t_update P f (db_developers db)\<rparr>)))"

definition DeleteDeveloper :: "string \<Rightarrow> DB \<Rightarrow> exec" where
  "DeleteDeveloper developerID db = pool_Exec db (\<lambda>db.
     let P = (\<lambda>r. dkey r = developerID)
     in (require_rows P (db_developers db), db\<lparr>db_developers := t_delete P (db_developers db)\<rparr>))"

definition CountDevelopers :: "DB \<Rightarrow> dberr + nat" where
  "CountDevelopers db = pool_Query db (\<lambda>db. length (db_developers db))"

definition unclaimed :: "string \<Rightarrow> DevRow \<Rightarrow> bool" where
  "unclaimed developerID r = (dkey r = developerID \<and> (dv_handle r = None \<or> dv_handle r = Some ''''))"

definition ClaimHandle :: "int \<Rightarrow> string \<Rightarrow> string \<Rightarrow> string \<Rightarrow> DB \<Rightarrow> exec" where
  "ClaimHandle now developerID handle homeRegistry db = pool_Exec db (\<lambda>db.
     let P = unclaimed developerID;
         f = (\<lambda>r. r\<lparr>dv_handle := Some handle, dv_updated := now,
               dv_rec := (dv_rec r)\<lparr>dev_HomeRegistry := homeRegistry\<rparr>\<rparr>)
     in if t_count P (db_developers db) = 0 then (Inl NoRowsAffected, db)
        else if list_ex (\<lambda>r. \<not> P r \<and> dv_handle r = Some handle \<and>
               dev_HomeRegistry (dv_rec r) = homeRegistry) (db_developers db)
        then (Inl HandleTaken, db)
        else (Inr (), db\<lparr>db_developers := t_update P f (db_developers db)\<rparr>))"

definition ReleaseHandle :: "int \<Rightarrow> string \<Rightarrow> string \<Rightarrow> DB \<Rightarrow> exec" where
  "ReleaseHandle now developerID handle db = pool_Exec db (\<lambda>db.
     let P = (\<lambda>r. dkey r = developerID \<and> dv_handle r = Some handle);
         f = (\<lambda>r. r\<lparr>dv_handle := None, dv_updated := now, dv_rec := (dv_rec r)\<lparr>
               dev_DevHandleVerified := False, dev_VerificationMethod := '''',
               dev_VerificationProof := ''''\<rparr>\<rparr>)
     in (require_rows P (db_developers db), db\<lparr>db_developers := t_update P f (db_developers db)\<rparr>))"

definition UpdateHandleVerification :: "int \<Rightarrow> string \<Rightarrow> bool \<Rightarrow> string \<Rightarrow> string \<Rightarrow> DB \<Rightarrow> exec" where
  "UpdateHandleVerification now developerID verified method prf db = pool_Exec db (\<lambda>db.
     let P = (\<lambda>r. dkey r = developerID);
         f = (\<lambda>r. r\<lparr>dv_updated := now, dv_rec := (dv_rec r)\<lparr>dev_DevHandleVerified := verified,
               dev_VerificationMethod := method, dev_VerificationProof := prf\<rparr>\<rparr>)
     in (require_rows P (db_developers db), db\<lparr>db_developers := t_update P f (db_developers db)\<rparr>))"

section \<open>Gossip developers\<close>

definition gossip_dev_merge :: "GossipDevRow \<Rightarrow> GossipDevRow \<Rightarrow> GossipDevRow" where
  "gossip_dev_merge old new = old\<lparr>gdr_received := gdr_received new, gdr_rec := (gdr_rec old)\<lparr>
     gd_Name := gd_Name (gdr_rec new), gd_PublicKey := gd_PublicKey (gdr_rec new),
     gd_ProfileURL := gd_ProfileURL (gdr_rec new), gd_GitHub := gd_GitHub (gdr_rec new)\<rparr>\<rparr>"

text \<open>The INSERT names no handle column, so they keep their defaults.\<close>

definition UpsertGossipDeveloper :: "timefmt \<Rightarrow> GossipDeveloperEntry \<Rightarrow> DB \<Rightarrow> exec" where
  "UpsertGossipDeveloper T entry db = pool_Exec db (\<lambda>db.
     case tf_Parse T (gd_ReceivedAt entry) of
       None \<Rightarrow> (Inl BadTimestamp, db)
     | Some ra \<Rightarrow>
         (let row = \<lparr>gdr_rec = entry\<lparr>gd_DevHandle := '''', gd_DevHandleVerified := False,
                        gd_VerificationMethod := '''', gd_VerificationProof := ''''\<rparr>,
                     gdr_received = ra, gdr_tombstone_at = None\<rparr>
          in (Inr (), db\<lparr>db_gossip_developers :=
                t_upsert gdkey gossip_dev_merge row (db_gossip_developers db)\<rparr>)))"

definition GetGossipDeveloper :: "timefmt \<Rightarrow> string \<Rightarrow> DB \<Rightarrow> dberr + GossipDeveloperEntry option" where
  "GetGossipDeveloper T developerID db = pool_Query db (\<lambda>db. map_option
     (\<lambda>r. (gdr_rec r)\<lparr>gd_ReceivedAt := tf_Format T (gdr_received r), gd_TombstoneAt := '''',
        gd_DevHandle := '''', gd_DevHandleVerified := False, gd_VerificationMethod := '''',
        gd_VerificationProof := ''''\<rparr>)
     (t_get gdkey developerID (db_gossip_developers db)))"

definition TombstoneGossipDeveloper :: "int \<Rightarrow> string \<Rightarrow> DB \<Rightarrow> exec" where
  "TombstoneGossipDeveloper now developerID db = pool_Exec db (\<lambda>db. (Inr (),
     db\<lparr>db_gossip_developers := t_update (\<lambda>r. gdkey r = developerID)
       (\<lambda>r. r\<lparr>gdr_tombstone_at := Some now, gdr_rec := (gdr_rec r)\<lparr>gd_Tombstoned := True\<rparr>\<rparr>)
       (db_gossip_developers db)\<rparr>))"

section \<open>ZNS names and versions\<close>

definition CreateZNSName :: "timefmt \<Rightarrow> ZNSName \<Rightarrow> DB \<Rightarrow> exec" where
  "CreateZNSName T name db = pool_Exec db (\<lambda>db.
     case (tf_Parse T (zn_RegisteredAt name), tf_Parse T (zn_UpdatedAt name)) of
       (Some ra, Some ua) \<Rightarrow>
         (case t_insert zkey \<lparr>zr_rec = name, zr_registered = ra, zr_updated = ua\<rparr> (db_zns db) of
            None \<Rightarrow> (Inl UniqueViolation, db)
          | Some rows \<Rightarrow>
              if t_get ekey (zn_EntityID name) (db_entities db) = None then (Inl ForeignKeyViolation, db)
              else (Inr (), db\<lparr>db_zns := rows\<rparr>))
     | _ \<Rightarrow> (Inl BadTimestamp, db))"

definition scanZNSName :: "timefmt \<Rightarrow> ZnsRow \<Rightarrow> ZNSName" where
  "scanZNSName T r = (zr_rec r)\<lparr>zn_RegisteredAt := tf_Format T (zr_registered r),
     zn_UpdatedAt := tf_Format T (zr_updated r)\<rparr>"

definition GetZNSName :: "timefmt \<Rightarrow> string \<Rightarrow> DB \<Rightarrow> dberr + ZNSName option" where
  "GetZNSName T fqan db = pool_Query db (\<lambda>db. map_option (scanZNSName T) (t_get zkey fqan (db_zns db)))"

definition GetZNSNameByParts ::
  "timefmt \<Rightarrow> string \<Rightarrow> string \<Rightarrow> string \<Rightarrow> DB \<Rightarrow> dberr + ZNSName option" where
  "GetZNSNameByParts T devHandle agentName registryHost db = pool_Query db (\<lambda>db.
     map_option (scanZNSName T) (find (\<lambda>r. zn_DeveloperHandle (zr_rec r) = devHandle \<and>
       zn_EntityName (zr_rec r) = agentName \<and> zn_RegistryHost (zr_rec r) = registryHost) (db_zns db)))"

definition GetZNSNameByAgentID :: "timefmt \<Rightarrow> string \<Rightarrow> DB \<Rightarrow> dberr + ZNSName option" where
  "GetZNSNameByAgentID T agentID db = pool_Query db (\<lambda>db.
     map_option (scanZNSName T) (find (\<lambda>r. zn_EntityID (zr_rec r) = agentID) (db_zns db)))"

definition GetZNSNamesByAgentIDs ::
  "timefmt \<Rightarrow> string list \<Rightarrow> DB \<Rightarrow> dberr + (string \<rightharpoonup> ZNSName)" where
  "GetZNSNamesByAgentIDs T agentIDs db =
     (if agentIDs = [] then Inr Map.empty
      else pool_Query db (\<lambda>db. fold (\<lambda>r m. m(zn_EntityID (zr_rec r) \<mapsto> scanZNSName T r))
        (filter (\<lambda>r. zn_EntityID (zr_rec r) \<in> set agentIDs) (db_zns db)) Map.empty))"

definition UpdateZNSName :: "timefmt \<Rightarrow> ZNSName \<Rightarrow> DB \<Rightarrow> exec" where
  "UpdateZNSName T name db = pool_Exec db (\<lambda>db.
     case tf_Parse T (zn_UpdatedAt name) of
       None \<Rightarrow> (Inl BadTimestamp, db)
     | Some ua \<Rightarrow>
         (let P = (\<lambda>r. zkey r = zn_FQAN name);
              f = (\<lambda>r. r\<lparr>zr_updated := ua, zr_rec := (zr_rec r)\<lparr>
                    zn_CurrentVersion := zn_CurrentVersion name,
                    zn_CapabilityTags := zn_CapabilityTags name,
                    zn_Signature := zn_Signature name\<rparr>\<rparr>)
          in (require_rows P (db_zns db), db\<lparr>db_zns := t_update P f (db_zns db)\<rparr>)))"

definition DeleteZNSName :: "string \<Rightarrow> DB \<Rightarrow> exec" where
  "DeleteZNSName fqan db = pool_Exec db (\<lambda>db.
     (require_rows (\<lambda>r. zkey r = fqan) (db_zns db), delete_names (\<lambda>r. zkey r = fqan) db))"

definition CreateZNSVersion :: "timefmt \<Rightarrow> ZNSVersion \<Rightarrow> DB \<Rightarrow> exec" where
  "CreateZNSVersion T v db = pool_Exec db (\<lambda>db.
     case tf_Parse T (zv_RegisteredAt v) of
       None \<Rightarrow> (Inl BadTimestamp, db)
     | Some ra \<Rightarrow>
         (case t_insert vkey \<lparr>vr_rec = v, vr_registered = ra\<rparr> (db_zns_versions db) of
            None \<Rightarrow> (Inl UniqueViolation, db)
          | Some rows \<Rightarrow>
              if t_get zkey (zv_FQAN v) (db_zns db) = None then (Inl ForeignKeyViolation, db)
              else (Inr (), db\<lparr>db_zns_versions := rows\<rparr>)))"

definition scanZNSVersion :: "timefmt \<Rightarrow> ZnsVersionRow \<Rightarrow> ZNSVersion" where
  "scanZNSVersion T r = (vr_rec r)\<lparr>zv_RegisteredAt := tf_Format T (vr_registered r)\<rparr>"

definition newer_version :: "ZnsVersionRow \<Rightarrow> ZnsVersionRow \<Rightarrow> bool" where
  "newer_version r s = (vr_registered r > vr_registered s)"

definition GetZNSVersions :: "timefmt \<Rightarrow> string \<Rightarrow> DB \<Rightarrow> dberr + ZNSVersion list" where
  "GetZNSVersions T fqan db = pool_Query db (\<lambda>db. map (scanZNSVersion T)
     (sort_Slice newer_version (filter (\<lambda>r. zv_FQAN (vr_rec r) = fqan) (db_zns_versions db))))"

definition GetZNSVersion :: "timefmt \<Rightarrow> string \<Rightarrow> string \<Rightarrow> DB \<Rightarrow> dberr + ZNSVersion option" where
  "GetZNSVersion T fqan version db = pool_Query db (\<lambda>db.
     map_option (scanZNSVersion T) (t_get vkey (fqan, version) (db_zns_versions db)))"

section \<open>Gossiped ZNS names\<close>

definition gossip_zns_merge :: "GossipZnsRow \<Rightarrow> GossipZnsRow \<Rightarrow> GossipZnsRow" where
  "gossip_zns_merge old new = new\<lparr>gzr_rec := (gzr_rec new)\<lparr>gz_Tombstoned := False\<rparr>\<rparr>"

definition UpsertGossipZNSName :: "timefmt \<Rightarrow> GossipZNSName \<Rightarrow> DB \<Rightarrow> exec" where
  "UpsertGossipZNSName T entry db = pool_Exec db (\<lambda>db.
     case tf_Parse T (gz_ReceivedAt entry) of
       None \<Rightarrow> (Inl BadTimestamp, db)
     | Some ra \<Rightarrow> (Inr (), db\<lparr>db_gossip_zns := t_upsert gzkey gossip_zns_merge
          \<lparr>gzr_rec = entry\<lparr>gz_Tombstoned := False\<rparr>, gzr_received = ra\<rparr> (db_gossip_zns db)\<rparr>))"

definition scanGossipZNSName :: "timefmt \<Rightarrow> GossipZnsRow \<Rightarrow> GossipZNSName" where
  "scanGossipZNSName T r = (gzr_rec r)\<lparr>gz_ReceivedAt := tf_Format T (gzr_received r)\<rparr>"

definition GetGossipZNSName :: "timefmt \<Rightarrow> string \<Rightarrow> DB \<Rightarrow> dberr + GossipZNSName option" where
  "GetGossipZNSName T fqan db = pool_Query db (\<lambda>db. map_option (scanGossipZNSName T)
     (find (\<lambda>r. gzkey r = fqan \<and> \<not> gz_Tombstoned (gzr_rec r)) (db_gossip_zns db)))"

definition GetGossipZNSNameByParts ::
  "timefmt \<Rightarrow> string \<Rightarrow> string \<Rightarrow> DB \<Rightarrow> dberr + GossipZNSName option" where
  "GetGossipZNSNameByParts T devHandle agentName db = pool_Query db (\<lambda>db. map_option (scanGossipZNSName T)
     (find (\<lambda>r. gz_DeveloperHandle (gzr_rec r) = devHandle \<and> gz_EntityName (gzr_rec r) = agentName \<and>
        \<not> gz_Tombstoned (gzr_rec r)) (db_gossip_zns db)))"

definition TombstoneGossipZNSName :: "string \<Rightarrow> DB \<Rightarrow> exec" where
  "TombstoneGossipZNSName fqan db = pool_Exec db (\<lambda>db. (Inr (),
     db\<lparr>db_gossip_zns := t_update (\<lambda>r. gzkey r = fqan)
       (\<lambda>r. r\<lparr>gzr_rec := (gzr_rec r)\<lparr>gz_Tombstoned := True\<rparr>\<rparr>) (db_gossip_zns db)\<rparr>))"

section \<open>Registry proofs and attestations\<close>

definition UpsertRegistryProof :: "timefmt \<Rightarrow> RegistryIdentityProof \<Rightarrow> DB \<Rightarrow> exec" where
  "UpsertRegistryProof T p db = pool_Exec db (\<lambda>db.
     case (tf_Parse T (ri_IssuedAt p), tf_Parse T (ri_ExpiresAt p), tf_Parse T (ri_ReceivedAt p)) of
       (Some i, Some e, Some r) \<Rightarrow>
         if list_ex (\<lambda>row. pkey row \<noteq> ri_RegistryID p \<and> ri_Domain (pr_rec row) = ri_Domain p) (db_proofs db)
         then (Inl UniqueViolation, db)
         else (Inr (), db\<lparr>db_proofs := t_upsert pkey (\<lambda>old new. new)
            \<lparr>pr_rec = p, pr_issued = i, pr_expires = e, pr_received = r\<rparr> (db_proofs db)\<rparr>)
     | _ \<Rightarrow> (Inl BadTimestamp, db))"

definition scanProof :: "timefmt \<Rightarrow> ProofRow \<Rightarrow> RegistryIdentityProof" where
  "scanProof T r = (pr_rec r)\<lparr>ri_Type := ''registry-identity-proof'', ri_Version := ''1.0'',
     ri_IssuedAt := tf_Format T (pr_issued r), ri_ExpiresAt := tf_Format T (pr_expires r),
     ri_ReceivedAt := tf_Format T (pr_received r)\<rparr>"

definition GetRegistryProof :: "timefmt \<Rightarrow> string \<Rightarrow> DB \<Rightarrow> dberr + RegistryIdentityProof option" where
  "GetRegistryProof T registryID db = pool_Query db (\<lambda>db.
     map_option (scanProof T) (t_get pkey registryID (db_proofs db)))"

definition GetRegistryProofByDomain :: "timefmt \<Rightarrow> string \<Rightarrow> DB \<Rightarrow> dberr + RegistryIdentityProof option" where
  "GetRegistryProofByDomain T domain db = pool_Query db (\<lambda>db.
     map_option (scanProof T) (t_get (\<lambda>r. ri_Domain (pr_rec r)) domain (db_proofs db)))"

definition attestation_merge :: "AttestationRow \<Rightarrow> AttestationRow \<Rightarrow> AttestationRow" where
  "attestation_merge old new = new"

definition CreatePeerAttestation :: "timefmt \<Rightarrow> PeerAttestation \<Rightarrow> DB \<Rightarrow> exec" where
  "CreatePeerAttestation T att db = pool_Exec db (\<lambda>db.
     case tf_Parse T (pa_AttestedAt att) of
       None \<Rightarrow> (Inl BadTimestamp, db)
     | Some t \<Rightarrow> (Inr (), db\<lparr>db_attestations := t_upsert akey attestation_merge
          \<lparr>ar_rec = att\<lparr>pa_AttesterDomain := '''', pa_SubjectDomain := ''''\<rparr>, ar_attested = t\<rparr>
          (db_attestations db)\<rparr>))"

definition CountPeerAttestations :: "string \<Rightarrow> DB \<Rightarrow> dberr + nat" where
  "CountPeerAttestations subjectID db = pool_Query db (\<lambda>db.
     t_count (\<lambda>r. pa_SubjectID (ar_rec r) = subjectID) (db_attestations db))"

definition UpdateRegistryVerificationTier :: "string \<Rightarrow> string \<Rightarrow> DB \<Rightarrow> exec" where
  "UpdateRegistryVerificationTier registryID tier db = pool_Exec db (\<lambda>db. (Inr (),
     db\<lparr>db_proofs := t_update (\<lambda>r. pkey r = registryID)
       (\<lambda>r. r\<lparr>pr_rec := (pr_rec r)\<lparr>ri_VerificationTier := tier\<rparr>\<rparr>) (db_proofs db)\<rparr>))"

section \<open>The upserted tables\<close>

interpretation gossip_tbl: upsert_table gkey gossip_merge
  by unfold_locales (simp add: gossip_merge_def)

interpretation gossip_dev_tbl: upsert_table gdkey gossip_dev_merge
  by unfold_locales (simp add: gossip_dev_merge_def)

interpretation gossip_zns_tbl: upsert_table gzkey gossip_zns_merge
  by unfold_locales (simp add: gossip_zns_merge_def)

interpretation attestation_tbl: upsert_table akey attestation_merge
  by unfold_locales (simp add: attestation_merge_def)

end
