(* ===== verification/StoreProps.thy ===== *)
theory StoreProps
  imports Store
begin

text \<open>
  The integrity of the store: primary keys, the unique indexes on developer keys, handles and
  registry domains, and the foreign keys of the name tables are kept by every method, and what
  the methods promise their clients: entities and handles are found again, name bindings
  disappear with their entity, liveness is tracked exactly.
\<close>

section \<open>Integrity constraints\<close>

definition names_ok :: "EntityRow list \<Rightarrow> ZnsRow list \<Rightarrow> ZnsVersionRow list \<Rightarrow> bool" where
  "names_ok es zs vs = (keys_distinct zkey zs \<and> keys_distinct vkey vs \<and>
     (\<forall>z\<in>set zs. zn_EntityID (zr_rec z) \<in> ekey ` set es) \<and>
     (\<forall>v\<in>set vs. zv_FQAN (vr_rec v) \<in> zkey ` set zs))"

definition devs_ok :: "DevRow list \<Rightarrow> bool" where
  "devs_ok ds = (keys_distinct dkey ds \<and> keys_distinct (\<lambda>r. dev_PublicKey (dv_rec r)) ds \<and>
     (\<forall>r\<in>set ds. \<forall>s\<in>set ds. handle_clash r s \<longrightarrow> dkey r = dkey s))"

definition proofs_ok :: "ProofRow list \<Rightarrow> bool" where
  "proofs_ok ps = (keys_distinct pkey ps \<and> keys_distinct (\<lambda>r. ri_Domain (pr_rec r)) ps)"

definition db_inv :: "DB \<Rightarrow> bool" where
  "db_inv db = (keys_distinct ekey (db_entities db) \<and>
     names_ok (db_entities db) (db_zns db) (db_zns_versions db) \<and>
     devs_ok (db_developers db) \<and> keys_distinct gkey (db_gossip db) \<and>
     keys_distinct tkey (db_tombstones db) \<and> keys_distinct fst (db_meta db) \<and>
     keys_distinct gdkey (db_gossip_developers db) \<and> keys_distinct gzkey (db_gossip_zns db) \<and>
     proofs_ok (db_proofs db) \<and> keys_distinct akey (db_attestations db))"

definition empty_db :: DB where
  "empty_db = \<lparr>db_fault = False, db_entities = [], db_gossip = [], db_tombstones = [], db_meta = [],
     db_developers = [], db_gossip_developers = [], db_zns = [], db_zns_versions = [],
     db_gossip_zns = [], db_proofs = [], db_attestations = []\<rparr>"

lemma empty_db_inv: "db_inv empty_db"
  by (simp add: db_inv_def empty_db_def keys_distinct_def names_ok_def devs_ok_def proofs_ok_def)

section \<open>Preservation\<close>

lemma pool_Exec_inv:
  assumes "db_inv db" "\<not> db_fault db \<Longrightarrow> db_inv (snd (stmt db))"
  shows "db_inv (snd (pool_Exec db stmt))"
  using assms by (simp add: pool_Exec_def)

lemma keys_of_set: "keys_distinct key rows \<Longrightarrow> key ` set (t_update P f rows) = key ` set rows"
  if "\<And>r. r \<in> set rows \<Longrightarrow> P r \<Longrightarrow> key (f r) = key r"
  using map_key_update[of rows P key f] that by (metis set_map)

lemma names_ok_entities:
  "names_ok es zs vs \<Longrightarrow> ekey ` set es \<subseteq> ekey ` set es' \<Longrightarrow> names_ok es' zs vs"
  by (auto simp: names_ok_def)

lemma names_ok_delete_names:
  assumes "names_ok es zs vs"
  shows "names_ok es (t_delete P zs)
    (t_delete (\<lambda>v. \<exists>z\<in>set zs. P z \<and> zkey z = zv_FQAN (vr_rec v)) vs)"
proof -
  have fk: "\<And>z. z \<in> set zs \<Longrightarrow> zn_EntityID (zr_rec z) \<in> ekey ` set es"
    "\<And>v. v \<in> set vs \<Longrightarrow> zv_FQAN (vr_rec v) \<in> zkey ` set zs"
    using assms by (auto simp: names_ok_def)
  have "zv_FQAN (vr_rec v) \<in> zkey ` set (t_delete P zs)"
    if v: "v \<in> set vs" "\<not> (\<exists>z\<in>set zs. P z \<and> zkey z = zv_FQAN (vr_rec v))" for v
  proof -
    obtain z where "z \<in> set zs" "zkey z = zv_FQAN (vr_rec v)" using fk(2)[OF v(1)] by auto
    then show ?thesis using v(2) by force
  qed
  then show ?thesis
    using assms fk(1) by (auto simp: names_ok_def keys_distinct_delete)
qed

lemma delete_names_inv: "db_inv db \<Longrightarrow> db_inv (delete_names P db)"
  using names_ok_delete_names by (simp add: db_inv_def delete_names_def)

lemma entities_update_inv:
  assumes "db_inv db" "\<And>r. P r \<Longrightarrow> ekey (f r) = ekey r"
  shows "db_inv (db\<lparr>db_entities := t_update P f (db_entities db)\<rparr>)"
proof -
  have "ekey ` set (t_update P f (db_entities db)) = ekey ` set (db_entities db)"
    using map_key_update[of "db_entities db" P ekey f] assms(2) by (metis set_map)
  then show ?thesis
    using assms by (simp add: db_inv_def keys_distinct_update names_ok_def)
qed

lemma devs_update_inv:
  assumes "db_inv db" "devs_ok (t_update P f (db_developers db))"
  shows "db_inv (db\<lparr>db_developers := t_update P f (db_developers db)\<rparr>)"
  using assms by (simp add: db_inv_def)

lemma devs_ok_update_plain:
  assumes "devs_ok ds" "\<And>r. P r \<Longrightarrow> dkey (f r) = dkey r"
    "\<And>r. P r \<Longrightarrow> dev_PublicKey (dv_rec (f r)) = dev_PublicKey (dv_rec r)"
    "\<And>r. P r \<Longrightarrow> dv_handle (f r) = dv_handle r \<or> dv_handle (f r) = None"
    "\<And>r. P r \<Longrightarrow> dev_HomeRegistry (dv_rec (f r)) = dev_HomeRegistry (dv_rec r)"
  shows "devs_ok (t_update P f ds)"
proof -
  have "handle_clash (if P r then f r else r) (if P s then f s else s) \<Longrightarrow> handle_clash r s" for r s
    using assms(4)[of r] assms(4)[of s] assms(5) by (auto simp: handle_clash_def split: if_splits)
  moreover have "dkey (if P r then f r else r) = dkey r" for r using assms(2) by simp
  moreover have "\<forall>r\<in>set ds. \<forall>s\<in>set ds. handle_clash r s \<longrightarrow> dkey r = dkey s"
    using assms(1) by (simp add: devs_ok_def)
  ultimately have "\<forall>r\<in>set (t_update P f ds). \<forall>s\<in>set (t_update P f ds). handle_clash r s \<longrightarrow> dkey r = dkey s"
    unfolding t_update_def set_map ball_simps by metis
  moreover have "keys_distinct dkey (t_update P f ds)"
    "keys_distinct (\<lambda>r. dev_PublicKey (dv_rec r)) (t_update P f ds)"
    using assms(1) by (auto intro!: keys_distinct_update assms(2,3) simp: devs_ok_def)
  ultimately show ?thesis by (simp add: devs_ok_def)
qed

lemma devs_ok_claim:
  assumes "devs_ok ds"
    "\<not> list_ex (\<lambda>r. \<not> unclaimed devID r \<and> dv_handle r = Some handle \<and>
        dev_HomeRegistry (dv_rec r) = home) ds"
  shows "devs_ok (t_update (unclaimed devID) (\<lambda>r. r\<lparr>dv_handle := Some handle, dv_updated := now,
      dv_rec := (dv_rec r)\<lparr>dev_HomeRegistry := home\<rparr>\<rparr>) ds)"
  (is "devs_ok (t_update ?P ?f ds)")
proof -
  have "dkey r' = dkey s'"
    if r': "r' \<in> set (t_update ?P ?f ds)" and s': "s' \<in> set (t_update ?P ?f ds)"
      and clash: "handle_clash r' s'" for r' s'
  proof -
    obtain r s where r: "r \<in> set ds" "r' = (if ?P r then ?f r else r)"
      and s: "s \<in> set ds" "s' = (if ?P s then ?f s else s)"
      using r' s' by (auto simp: set_t_update)
    show ?thesis
    proof (cases "?P r"; cases "?P s")
      assume "?P r" "?P s"
      then show ?thesis using r(2) s(2) by (simp add: unclaimed_def)
    next
      assume a: "?P r" "\<not> ?P s"
      then have "dv_handle s = Some handle \<and> dev_HomeRegistry (dv_rec s) = home"
        using clash r(2) s(2) by (simp add: handle_clash_def)
      then show ?thesis using assms(2) a(2) s(1) by (auto simp: list_ex_iff)
    next
      assume a: "\<not> ?P r" "?P s"
      then have "dv_handle r = Some handle \<and> dev_HomeRegistry (dv_rec r) = home"
        using clash r(2) s(2) by (simp add: handle_clash_def)
      then show ?thesis using assms(2) a(1) r(1) by (auto simp: list_ex_iff)
    next
      assume "\<not> ?P r" "\<not> ?P s"
      then show ?thesis using assms(1) clash r s by (simp add: devs_ok_def)
    qed
  qed
  then show ?thesis
    using assms(1) by (simp add: devs_ok_def keys_distinct_update)
qed

lemma devs_ok_append:
  assumes "devs_ok ds" "\<not> list_ex (\<lambda>r. dkey r = dkey row \<or>
      dev_PublicKey (dv_rec r) = dev_PublicKey (dv_rec row) \<or> handle_clash row r) ds"
  shows "devs_ok (ds @ [row])"
proof -
  have "\<not> handle_clash row r" "\<not> handle_clash r row" if "r \<in> set ds" for r
    using assms(2) that by (auto simp: handle_clash_def list_ex_iff)
  moreover have "keys_distinct dkey (ds @ [row])" "keys_distinct (\<lambda>r. dev_PublicKey (dv_rec r)) (ds @ [row])"
    using assms by (auto simp: devs_ok_def keys_distinct_def list_ex_iff)
  ultimately show ?thesis using assms(1) by (simp add: devs_ok_def)
qed

lemma devs_ok_delete: "devs_ok ds \<Longrightarrow> devs_ok (t_delete P ds)"
  by (simp add: devs_ok_def keys_distinct_delete)

lemma proofs_ok_upsert:
  assumes "proofs_ok ps" "\<not> list_ex (\<lambda>r. pkey r \<noteq> pkey row \<and> ri_Domain (pr_rec r) = ri_Domain (pr_rec row)) ps"
  shows "proofs_ok (t_upsert pkey (\<lambda>old new. new) row ps)"
proof -
  let ?dom = "\<lambda>r. ri_Domain (pr_rec r)"
  have "keys_distinct ?dom (t_upsert pkey (\<lambda>old new. new) row ps)"
    using assms
  proof (induction ps)
    case (Cons p ps)
    show ?case
    proof (cases "pkey p = pkey row")
      case True
      then have "\<forall>q\<in>set ps. pkey q \<noteq> pkey row"
        using Cons.prems(1) by (auto simp: proofs_ok_def keys_distinct_def image_iff)
      then have "t_upsert pkey (\<lambda>old new. new) row (p # ps) = row # ps"
        using True by (simp add: t_upsert_def t_update_def map_idI)
      moreover have "?dom row \<notin> ?dom ` set ps"
      proof
        assume "?dom row \<in> ?dom ` set ps"
        then obtain q where "q \<in> set ps" "?dom q = ?dom row" by auto
        moreover from this have "pkey q \<noteq> pkey row"
          using Cons.prems(1) True by (auto simp: proofs_ok_def keys_distinct_def image_iff)
        ultimately show False using Cons.prems(2) by (auto simp: list_ex_iff)
      qed
      ultimately show ?thesis
        using Cons.prems(1) by (simp add: proofs_ok_def keys_distinct_def)
    next
      case False
      then have e: "t_upsert pkey (\<lambda>old new. new) row (p # ps) = p # t_upsert pkey (\<lambda>old new. new) row ps"
        by (simp add: t_upsert_def t_update_def split: option.splits)
      have "set (t_upsert pkey (\<lambda>old new. new) row ps) \<subseteq> insert row (set ps)"
        by (auto simp: t_upsert_def t_update_def split: option.splits if_splits)
      moreover have "?dom p \<noteq> ?dom row" using False Cons.prems(2) by simp
      ultimately have "?dom p \<notin> ?dom ` set (t_upsert pkey (\<lambda>old new. new) row ps)"
        using Cons.prems(1) by (auto simp: proofs_ok_def keys_distinct_def image_iff)
      moreover have "keys_distinct ?dom (t_upsert pkey (\<lambda>old new. new) row ps)"
        using Cons.IH Cons.prems by (simp add: proofs_ok_def keys_distinct_def)
      ultimately show ?thesis unfolding e by (simp add: keys_distinct_def)
    qed
  qed (simp add: t_upsert_def keys_distinct_def)
  then show ?thesis
    using assms(1) overwrite.distinct_upsert[of pkey ps row] by (simp add: proofs_ok_def)
qed

datatype store_op =
  SCreateAgent int RegistryRecord | SUpdateEntity RegistryRecord | SDeleteEntity string string
| SHeartbeat int string | SMarkInactive int int
| SUpsertGossip GossipEntry | STombstoneGossip int string | SGossipStatus string string
| SCreateTombstone Tombstone | SCleanTombstones int | SSetMeta string string
| SCreateDeveloper DeveloperRecord | SUpdateDeveloper DeveloperRecord | SDeleteDeveloper string
| SClaimHandle int string string string | SReleaseHandle int string string
| SVerifyHandle int string bool string string
| SUpsertGossipDev GossipDeveloperEntry | STombstoneGossipDev int string
| SCreateName ZNSName | SUpdateName ZNSName | SDeleteName string | SCreateVersion ZNSVersion
| SUpsertGossipName GossipZNSName | STombstoneGossipName string
| SUpsertProof RegistryIdentityProof | SCreateAttestation PeerAttestation | SUpdateTier string string

fun store_step :: "timefmt \<Rightarrow> store_op \<Rightarrow> DB \<Rightarrow> DB" where
  "store_step T (SCreateAgent now a) db = snd (CreateAgent T now a db)"
| "store_step T (SUpdateEntity a) db = snd (UpdateEntity T a db)"
| "store_step T (SDeleteEntity i w) db = snd (DeleteEntity i w db)"
| "store_step T (SHeartbeat now i) db = snd (UpdateEntityHeartbeat now i db)"
| "store_step T (SMarkInactive now th) db = snd (MarkInactiveEntities now th db)"
| "store_step T (SUpsertGossip e) db = snd (UpsertGossipEntry T e db)"
| "store_step T (STombstoneGossip now i) db = snd (TombstoneGossipEntry now i db)"
| "store_step T (SGossipStatus i st) db = snd (UpdateGossipEntryStatus i st db)"
| "store_step T (SCreateTombstone t) db = snd (CreateTombstone T t db)"
| "store_step T (SCleanTombstones now) db = snd (CleanExpiredTombstones now db)"
| "store_step T (SSetMeta k v) db = snd (SetMeta k v db)"
| "store_step T (SCreateDeveloper d) db = snd (CreateDeveloper T d db)"
| "store_step T (SUpdateDeveloper d) db = snd (UpdateDeveloper T d db)"
| "store_step T (SDeleteDeveloper i) db = snd (DeleteDeveloper i db)"
| "store_step T (SClaimHandle now i h r) db = snd (ClaimHandle now i h r db)"
| "store_step T (SReleaseHandle now i h) db = snd (ReleaseHandle now i h db)"
| "store_step T (SVerifyHandle now i v m p) db = snd (UpdateHandleVerification now i v m p db)"
| "store_step T (SUpsertGossipDev e) db = snd (UpsertGossipDeveloper T e db)"
| "store_step T (STombstoneGossipDev now i) db = snd (TombstoneGossipDeveloper now i db)"
| "store_step T (SCreateName n) db = snd (CreateZNSName T n db)"
| "store_step T (SUpdateName n) db = snd (UpdateZNSName T n db)"
| "store_step T (SDeleteName f) db = snd (DeleteZNSName f db)"
| "store_step T (SCreateVersion v) db = snd (CreateZNSVersion T v db)"
| "store_step T (SUpsertGossipName e) db = snd (UpsertGossipZNSName T e db)"
| "store_step T (STombstoneGossipName f) db = snd (TombstoneGossipZNSName f db)"
| "store_step T (SUpsertProof p) db = snd (UpsertRegistryProof T p db)"
| "store_step T (SCreateAttestation a) db = snd (CreatePeerAttestation T a db)"
| "store_step T (SUpdateTier i tier) db = snd (UpdateRegistryVerificationTier i tier db)"

lemma CreateAgent_inv: "db_inv db \<Longrightarrow> db_inv (snd (CreateAgent T now a db))"
  unfolding CreateAgent_def
proof (rule pool_Exec_inv, assumption, goal_cases)
  case 1
  have "names_ok es' zs vs" if "t_insert ekey row es = Some es'" "names_ok es zs vs" for row es es' zs vs
    using that by (auto intro!: names_ok_entities[of es] dest: t_insert_Some)
  then show ?case
    using 1 keys_distinct_insert[of ekey]
    by (auto simp: db_inv_def Let_def split: option.splits)
qed

lemma DeleteEntity_inv: "db_inv db \<Longrightarrow> db_inv (snd (DeleteEntity i w db))"
proof (cases "db_fault db")
  case False
  assume inv: "db_inv db"
  let ?db = "delete_names (\<lambda>z. zn_EntityID (zr_rec z) = i) db"
  let ?P = "\<lambda>r. ekey r = i \<and> rr_Owner (er_rec r) = w"
  have d: "db_inv ?db" using inv by (rule delete_names_inv)
  have "\<forall>z\<in>set (db_zns ?db). zn_EntityID (zr_rec z) \<noteq> i" by (simp add: delete_names_def)
  then have "names_ok (t_delete ?P (db_entities ?db)) (db_zns ?db) (db_zns_versions ?db)"
    using d by (fastforce simp: db_inv_def names_ok_def)
  then have "db_inv (?db\<lparr>db_entities := t_delete ?P (db_entities ?db)\<rparr>)"
    using d by (simp add: db_inv_def keys_distinct_delete)
  moreover have "\<not> db_fault ?db" using False by (simp add: delete_names_def)
  ultimately show ?thesis using False by (simp add: DeleteEntity_def pool_Exec_def Let_def)
qed (simp add: DeleteEntity_def pool_Exec_def)

lemma entity_update_ops_inv:
  "db_inv db \<Longrightarrow> db_inv (snd (UpdateEntity T a db))"
  "db_inv db \<Longrightarrow> db_inv (snd (UpdateEntityHeartbeat now i db))"
  "db_inv db \<Longrightarrow> db_inv (snd (MarkInactiveEntities now th db))"
  unfolding UpdateEntity_def UpdateEntityHeartbeat_def MarkInactiveEntities_def Let_def
  by (auto intro!: pool_Exec_inv entities_update_inv split: option.splits)

lemma gossip_ops_inv:
  "db_inv db \<Longrightarrow> db_inv (snd (UpsertGossipEntry T e db))"
  "db_inv db \<Longrightarrow> db_inv (snd (TombstoneGossipEntry now i db))"
  "db_inv db \<Longrightarrow> db_inv (snd (UpdateGossipEntryStatus i st db))"
  "db_inv db \<Longrightarrow> db_inv (snd (CreateTombstone T t db))"
  "db_inv db \<Longrightarrow> db_inv (snd (CleanExpiredTombstones now db))"
  "db_inv db \<Longrightarrow> db_inv (snd (SetMeta k v db))"
  "db_inv db \<Longrightarrow> db_inv (snd (UpsertGossipDeveloper T gd db))"
  "db_inv db \<Longrightarrow> db_inv (snd (TombstoneGossipDeveloper now i db))"
  "db_inv db \<Longrightarrow> db_inv (snd (UpsertGossipZNSName T gz db))"
  "db_inv db \<Longrightarrow> db_inv (snd (TombstoneGossipZNSName f db))"
  "db_inv db \<Longrightarrow> db_inv (snd (CreatePeerAttestation T att db))"
  unfolding UpsertGossipEntry_def TombstoneGossipEntry_def UpdateGossipEntryStatus_def
    CreateTombstone_def CleanExpiredTombstones_def SetMeta_def UpsertGossipDeveloper_def
    TombstoneGossipDeveloper_def UpsertGossipZNSName_def TombstoneGossipZNSName_def
    CreatePeerAttestation_def Let_def pool_Exec_def db_inv_def
  using gossip_tbl.distinct_upsert overwrite.distinct_upsert gossip_dev_tbl.distinct_upsert
    gossip_zns_tbl.distinct_upsert attestation_tbl.distinct_upsert
  by (auto intro!: keys_distinct_update keys_distinct_delete split: option.splits)

lemma developer_ops_inv:
  "db_inv db \<Longrightarrow> db_inv (snd (CreateDeveloper T d db))"
  "db_inv db \<Longrightarrow> db_inv (snd (UpdateDeveloper T d db))"
  "db_inv db \<Longrightarrow> db_inv (snd (DeleteDeveloper i db))"
  "db_inv db \<Longrightarrow> db_inv (snd (ClaimHandle now i h r db))"
  "db_inv db \<Longrightarrow> db_inv (snd (ReleaseHandle now i h db))"
  "db_inv db \<Longrightarrow> db_inv (snd (UpdateHandleVerification now i v m p db))"
  unfolding CreateDeveloper_def UpdateDeveloper_def DeleteDeveloper_def ClaimHandle_def
    ReleaseHandle_def UpdateHandleVerification_def Let_def pool_Exec_def db_inv_def
  by (auto intro!: devs_ok_append devs_ok_update_plain devs_ok_delete devs_ok_claim
      split: option.splits if_splits)

lemma names_ok_append:
  "names_ok es zs vs \<Longrightarrow> t_insert zkey row zs = Some zs' \<Longrightarrow> t_get ekey (zn_EntityID (zr_rec row)) es \<noteq> None
    \<Longrightarrow> names_ok es zs' vs"
  using keys_distinct_insert[of zkey row zs zs'] t_insert_Some[of zkey row zs zs']
  by (auto simp: names_ok_def t_get_None)

lemma names_ok_append_version:
  "names_ok es zs vs \<Longrightarrow> t_insert vkey row vs = Some vs' \<Longrightarrow> t_get zkey (zv_FQAN (vr_rec row)) zs \<noteq> None
    \<Longrightarrow> names_ok es zs vs'"
  using keys_distinct_insert[of vkey row vs vs'] t_insert_Some[of vkey row vs vs']
  by (auto simp: names_ok_def t_get_None)

lemma names_ok_update:
  assumes "names_ok es zs vs" "\<And>r. P r \<Longrightarrow> zkey (f r) = zkey r"
    "\<And>r. P r \<Longrightarrow> zn_EntityID (zr_rec (f r)) = zn_EntityID (zr_rec r)"
  shows "names_ok es (t_update P f zs) vs"
proof -
  have "zkey ` set (t_update P f zs) = zkey ` set zs"
    using map_key_update[of zs P zkey f] assms(2) by (metis set_map)
  moreover have "(\<lambda>r. zn_EntityID (zr_rec r)) ` set (t_update P f zs) = (\<lambda>r. zn_EntityID (zr_rec r)) ` set zs"
    using map_key_update[of zs P "\<lambda>r. zn_EntityID (zr_rec r)" f] assms(3) by (metis set_map)
  ultimately show ?thesis
    using assms(1,2) by (simp add: names_ok_def keys_distinct_update flip: image_subset_iff)
qed

lemma name_ops_inv:
  "db_inv db \<Longrightarrow> db_inv (snd (CreateZNSName T n db))"
  "db_inv db \<Longrightarrow> db_inv (snd (UpdateZNSName T n db))"
  "db_inv db \<Longrightarrow> db_inv (snd (DeleteZNSName f db))"
  "db_inv db \<Longrightarrow> db_inv (snd (CreateZNSVersion T v db))"
  unfolding CreateZNSName_def UpdateZNSName_def DeleteZNSName_def CreateZNSVersion_def Let_def
  by (auto intro!: pool_Exec_inv delete_names_inv split: option.splits)
    (auto simp: db_inv_def intro!: names_ok_update intro: names_ok_append names_ok_append_version)

lemma proof_ops_inv:
  "db_inv db \<Longrightarrow> db_inv (snd (UpsertRegistryProof T p db))"
  "db_inv db \<Longrightarrow> db_inv (snd (UpdateRegistryVerificationTier i tier db))"
  unfolding UpsertRegistryProof_def UpdateRegistryVerificationTier_def Let_def
  by (auto intro!: pool_Exec_inv split: option.splits)
    (auto simp: db_inv_def proofs_ok_def intro!: keys_distinct_update
      proofs_ok_upsert[unfolded proofs_ok_def])

lemmas store_ops_inv = CreateAgent_inv DeleteEntity_inv entity_update_ops_inv gossip_ops_inv
  developer_ops_inv name_ops_inv proof_ops_inv

interpretation store: invariant_machine "store_step T" db_inv
proof
  show "db_inv s \<Longrightarrow> db_inv (store_step T op s)" for s op
    by (cases op) (simp_all add: store_ops_inv)
qed

section \<open>What the methods promise\<close>

lemma pool_Exec_ok:
  "pool_Exec db stmt = (Inr (), db') \<longleftrightarrow> \<not> db_fault db \<and> stmt db = (Inr (), db')"
  by (simp add: pool_Exec_def)

lemma require_rows_ok: "require_rows P rows = Inr () \<longleftrightarrow> (\<exists>r\<in>set rows. P r)"
  by (auto simp: require_rows_def t_count_def filter_empty_conv)

lemma require_rows_err: "require_rows P rows = Inl NoRowsAffected \<longleftrightarrow> (\<forall>r\<in>set rows. \<not> P r)"
  by (auto simp: require_rows_def t_count_def filter_empty_conv)

definition stored_agent :: "timefmt \<Rightarrow> int \<Rightarrow> int \<Rightarrow> int \<Rightarrow> RegistryRecord \<Rightarrow> RegistryRecord" where
  "stored_agent T now ra ua a = a\<lparr>
     rr_SchemaVersion := or_default (rr_SchemaVersion a) CurrentSchemaVersion,
     rr_EntityType := or_default (rr_EntityType a) ''agent'', rr_Status := ''active'',
     rr_RegisteredAt := tf_Format T ra, rr_UpdatedAt := tf_Format T ua,
     rr_LastHeartbeat := tf_Format T now, rr_CapabilitySummary := None, rr_CodebaseHash := ''''\<rparr>"

lemma CreateAgent_ok:
  assumes "CreateAgent T now a db = (Inr (), db')"
  obtains ra ua where "tf_Parse T (rr_RegisteredAt a) = Some ra" "tf_Parse T (rr_UpdatedAt a) = Some ua"
    "\<not> db_fault db'" "\<And>i. GetEntity T i db' = (if i = rr_EntityID a
        then Inr (Some (stored_agent T now ra ua a)) else GetEntity T i db)"
    "t_get ekey (rr_EntityID a) (db_entities db') \<noteq> None"
proof -
  obtain ra ua where p: "tf_Parse T (rr_RegisteredAt a) = Some ra" "tf_Parse T (rr_UpdatedAt a) = Some ua"
    using assms by (auto simp: CreateAgent_def pool_Exec_ok split: option.splits)
  define row where "row = \<lparr>er_rec = a\<lparr>
                rr_SchemaVersion := or_default (rr_SchemaVersion a) CurrentSchemaVersion,
                rr_EntityType := or_default (rr_EntityType a) ''agent'',
                rr_CapabilitySummary := None, rr_CodebaseHash := '''', rr_Status := ''active''\<rparr>,
              er_registered = ra, er_updated = ua, er_heartbeat = Some now\<rparr>"
  have f: "\<not> db_fault db" using assms by (simp add: CreateAgent_def pool_Exec_ok)
  obtain rows where r: "t_insert ekey row (db_entities db) = Some rows" "db' = db\<lparr>db_entities := rows\<rparr>"
    using assms p f by (auto simp: CreateAgent_def pool_Exec_ok Let_def row_def split: option.splits)
  have "scanAgentRow T row = stored_agent T now ra ua a"
    by (simp add: scanAgentRow_def row_def stored_agent_def)
  moreover have "ekey row = rr_EntityID a" by (simp add: row_def)
  ultimately show ?thesis
    using that[OF p] f t_get_insert[OF r(1)] r(2) by (simp add: GetEntity_def pool_Query_def)
qed

text \<open>Creating an entity. When the insert succeeds, the timestamps parsed and the entity is
  read back as it was given, with the defaults filled in, status active and the heartbeat at the
  time of the insert; the capability summary and the codebase hash are not stored. No
  other entity changes, and a second insert under the same id is refused without effect.\<close>

theorem create_get_entity_roundtrip:
  assumes "CreateAgent T now a db = (Inr (), db')"
  shows "(\<exists>ra ua. tf_Parse T (rr_RegisteredAt a) = Some ra \<and> tf_Parse T (rr_UpdatedAt a) = Some ua \<and>
           GetEntity T (rr_EntityID a) db' = Inr (Some (stored_agent T now ra ua a)))
    \<and> (\<forall>i. i \<noteq> rr_EntityID a \<longrightarrow> GetEntity T i db' = GetEntity T i db)
    \<and> (\<forall>b t. rr_EntityID b = rr_EntityID a \<longrightarrow>
         (\<exists>e. CreateAgent T t b db' = (Inl e, db')))"
  using assms
proof (rule CreateAgent_ok, goal_cases)
  case (1 ra ua)
  have "\<exists>e. CreateAgent T t b db' = (Inl e, db')" if b: "rr_EntityID b = rr_EntityID a" for b t
    using 1(3,5) b by (auto simp: CreateAgent_def pool_Exec_def Let_def t_insert_def split: option.splits)
  then show ?case using 1 by auto
qed

definition unix_time :: timefmt where
  "unix_time = \<lparr>tf_Parse = (\<lambda>s. if s = '''' then None else Some (int (length s))),
     tf_Format = (\<lambda>t. replicate (nat t) (CHR ''0''))\<rparr>"

definition sample_agent :: "string \<Rightarrow> string \<Rightarrow> RegistryRecord" where
  "sample_agent i w = \<lparr>rr_EntityID = i, rr_Name = ''n'', rr_Owner = w, rr_EntityURL = ''https://a'',
     rr_Category = ''tools'', rr_Tags = [], rr_Summary = '''', rr_CapabilitySummary = None,
     rr_PublicKey = ''k'', rr_HomeRegistry = ''r'', rr_SchemaVersion = '''', rr_RegisteredAt = ''00'',
     rr_UpdatedAt = ''000'', rr_TTL = 60, rr_Signature = ''s'', rr_DeveloperID = '''',
     rr_EntityIndex = None, rr_DeveloperProof = None, rr_CodebaseHash = ''h'', rr_Status = '''',
     rr_LastHeartbeat = '''', rr_EntityType = '''', rr_ServiceEndpoint = '''', rr_OpenAPIURL = '''',
     rr_EntityPricing = None\<rparr>"

theorem create_get_entity_roundtrip_witness:
  "\<exists>db'. CreateAgent unix_time 9 (sample_agent ''a'' ''w'') empty_db = (Inr (), db') \<and>
     (\<exists>e. CreateAgent unix_time 10 (sample_agent ''a'' ''v'') db' = (Inl e, db'))"
proof -
  have "\<exists>db'. CreateAgent unix_time 9 (sample_agent ''a'' ''w'') empty_db = (Inr (), db')"
    by (simp add: CreateAgent_def pool_Exec_def empty_db_def unix_time_def sample_agent_def t_insert_def)
  then obtain db' where c: "CreateAgent unix_time 9 (sample_agent ''a'' ''w'') empty_db = (Inr (), db')" ..
  have "rr_EntityID (sample_agent ''a'' ''v'') = rr_EntityID (sample_agent ''a'' ''w'')"
    by (simp add: sample_agent_def)
  then show ?thesis using create_get_entity_roundtrip[OF c] c by blast
qed

text \<open>Integrity. After any sequence of the store's writing methods, successful or not, from an
  empty database: primary keys are unique in every table, no two developers share a public key
  or a handle at one registry, no two registries claim one domain, every ZNS name belongs to an
  existing entity and every version to an existing name.\<close>

theorem store_integrity: "db_inv (fold (store_step T) ops empty_db)"
  using empty_db_inv by (rule store.run_inv)

lemma unclaimed_row:
  assumes "db_inv db" "t_count (unclaimed i) (db_developers db) \<noteq> 0"
  obtains r where "r \<in> set (db_developers db)" "unclaimed i r"
  using assms by (auto simp: t_count_def filter_empty_conv)

lemma keys_distinct_eq:
  assumes "keys_distinct key rows" "r \<in> set rows" "s \<in> set rows" "key r = key s"
  shows "r = s"
  using assms unfolding keys_distinct_def distinct_map inj_on_def by blast

lemma handle_unique:
  assumes "db_inv db" "r \<in> set (db_developers db)" "s \<in> set (db_developers db)"
    "dv_handle r = Some h" "dv_handle s = Some h"
    "dev_HomeRegistry (dv_rec r) = dev_HomeRegistry (dv_rec s)"
  shows "r = s"
proof -
  have "handle_clash r s" using assms(4-6) by (simp add: handle_clash_def)
  moreover have "devs_ok (db_developers db)" using assms(1) by (simp add: db_inv_def)
  ultimately have "dkey r = dkey s" using assms(2,3) unfolding devs_ok_def by blast
  moreover have "keys_distinct dkey (db_developers db)"
    using assms(1) unfolding db_inv_def devs_ok_def by blast
  ultimately show ?thesis using keys_distinct_eq[of dkey] assms(2,3) by blast
qed

lemma handle_found:
  assumes "db_inv db" "\<not> db_fault db" "r \<in> set (db_developers db)" "dv_handle r = Some h"
    "dev_HomeRegistry (dv_rec r) = home"
  shows "GetDeveloperByHandle T h home db = Inr (Some (scanDeveloper T r))"
proof -
  let ?P = "\<lambda>r. dv_handle r = Some h \<and> dev_HomeRegistry (dv_rec r) = home"
  obtain s where s: "find ?P (db_developers db) = Some s"
    using assms(3,4,5) by (cases "find ?P (db_developers db)") (auto simp: find_None_iff)
  then have "s \<in> set (db_developers db)" "?P s" by (auto simp: find_Some_iff in_set_conv_nth)
  then have "s = r" using handle_unique[OF assms(1)] assms(3-5) by simp
  then show ?thesis using s assms(2) by (simp add: GetDeveloperByHandle_def pool_Query_def)
qed

text \<open>A claimed handle is owned. If claiming a handle at a registry succeeds, the handle
  resolves to the claiming developer, no other developer can claim it there any more (the
  attempt fails and changes nothing), and after the owner releases it, it resolves to
  nobody.\<close>

theorem claim_handle_exclusive:
  assumes inv: "db_inv db" and claim: "ClaimHandle now dev h home db = (Inr (), db')"
  shows "(\<exists>d. GetDeveloperByHandle T h home db' = Inr (Some d) \<and> dev_DeveloperID d = dev \<and>
      dev_DevHandle d = h \<and> dev_HomeRegistry d = home)
    \<and> (\<forall>t dev'. dev' \<noteq> dev \<longrightarrow> (\<exists>e. ClaimHandle t dev' h home db' = (Inl e, db')))
    \<and> (\<exists>db''. ReleaseHandle t dev h db' = (Inr (), db'') \<and> GetDeveloperByHandle T h home db'' = Inr None)"
proof -
  let ?f = "\<lambda>r. r\<lparr>dv_handle := Some h, dv_updated := now, dv_rec := (dv_rec r)\<lparr>dev_HomeRegistry := home\<rparr>\<rparr>"
  have c: "\<not> db_fault db" "t_count (unclaimed dev) (db_developers db) \<noteq> 0"
    "db' = db\<lparr>db_developers := t_update (unclaimed dev) ?f (db_developers db)\<rparr>"
    using claim by (auto simp: ClaimHandle_def pool_Exec_ok Let_def split: if_splits)
  have inv': "db_inv db'" using developer_ops_inv(4)[OF inv, of now dev h home] claim by simp
  obtain r0 where r0: "r0 \<in> set (db_developers db)" "unclaimed dev r0"
    using unclaimed_row[OF inv c(2)] .
  define r where "r = ?f r0"
  have r: "r \<in> set (db_developers db')" "dv_handle r = Some h" "dev_HomeRegistry (dv_rec r) = home"
    "dkey r = dev" "\<not> db_fault db'"
    using r0 c(1) by (auto simp: c(3) r_def set_t_update unclaimed_def)
  have only: "s = r" if "s \<in> set (db_developers db')" "dv_handle s = Some h" "dev_HomeRegistry (dv_rec s) = home" for s
    using handle_unique[OF inv' that(1) r(1)] that(2,3) r(2,3) by simp
  have "\<exists>e. ClaimHandle t dev' h home db' = (Inl e, db')" if "dev' \<noteq> dev" for t dev'
  proof -
    have "\<not> unclaimed dev' r" using that r(4) by (simp add: unclaimed_def)
    then show ?thesis using r by (auto simp: ClaimHandle_def pool_Exec_def Let_def list_ex_iff)
  qed
  moreover have "\<exists>db''. ReleaseHandle t dev h db' = (Inr (), db'') \<and> GetDeveloperByHandle T h home db'' = Inr None"
  proof -
    have "require_rows (\<lambda>r. dkey r = dev \<and> dv_handle r = Some h) (db_developers db') = Inr ()"
      using r by (auto simp: require_rows_ok)
    moreover have "\<not> (\<exists>s\<in>set (db_developers db'). \<not> (dkey s = dev \<and> dv_handle s = Some h) \<and>
        dv_handle s = Some h \<and> dev_HomeRegistry (dv_rec s) = home)"
      using only r(2,4) by blast
    ultimately show ?thesis
      using r(5) by (auto simp: ReleaseHandle_def pool_Exec_def Let_def GetDeveloperByHandle_def
          pool_Query_def find_None_iff set_t_update)
  qed
  ultimately show ?thesis
    using handle_found[OF inv' r(5,1,2,3), of T] r by (simp add: scanDeveloper_def)
qed

definition sample_developer :: "string \<Rightarrow> string \<Rightarrow> DeveloperRecord" where
  "sample_developer i k = \<lparr>dev_DeveloperID = i, dev_Name = ''n'', dev_PublicKey = k,
     dev_ProfileURL = '''', dev_GitHub = '''', dev_HomeRegistry = ''r'', dev_SchemaVersion = '''',
     dev_RegisteredAt = ''0'', dev_UpdatedAt = ''0'', dev_Signature = ''s'', dev_DevHandle = '''',
     dev_DevHandleVerified = False, dev_VerificationMethod = '''', dev_VerificationProof = ''''\<rparr>"

definition two_developers :: DB where
  "two_developers = fold (store_step unix_time)
     [SCreateDeveloper (sample_developer ''d'' ''k''), SCreateDeveloper (sample_developer ''e'' ''l'')] empty_db"

theorem claim_handle_exclusive_witness:
  "\<exists>db' db''. ClaimHandle 5 ''d'' ''acme'' ''r'' two_developers = (Inr (), db') \<and>
     (\<exists>e. ClaimHandle 6 ''e'' ''acme'' ''r'' db' = (Inl e, db')) \<and>
     ReleaseHandle 7 ''d'' ''acme'' db' = (Inr (), db'') \<and>
     GetDeveloperByHandle unix_time ''acme'' ''r'' db'' = Inr None"
proof -
  have inv: "db_inv two_developers" unfolding two_developers_def by (rule store.run_inv[OF empty_db_inv])
  have "\<exists>db'. ClaimHandle 5 ''d'' ''acme'' ''r'' two_developers = (Inr (), db')"
    by (simp add: two_developers_def CreateDeveloper_def pool_Exec_def empty_db_def unix_time_def
        sample_developer_def ClaimHandle_def Let_def unclaimed_def t_count_def handle_clash_def)
  then obtain db' where c: "ClaimHandle 5 ''d'' ''acme'' ''r'' two_developers = (Inr (), db')" ..
  show ?thesis using claim_handle_exclusive[OF inv c, where t = 7 and T = unix_time] c by fastforce
qed

section \<open>Deletion\<close>

lemma DeleteEntity_eq:
  "\<not> db_fault db \<Longrightarrow> DeleteEntity i w db =
    (require_rows (\<lambda>r. ekey r = i \<and> rr_Owner (er_rec r) = w) (db_entities db),
     (delete_names (\<lambda>z. zn_EntityID (zr_rec z) = i) db)
       \<lparr>db_entities := t_delete (\<lambda>r. ekey r = i \<and> rr_Owner (er_rec r) = w) (db_entities db)\<rparr>)"
  by (simp add: DeleteEntity_def pool_Exec_def delete_names_def Let_def)

lemma DeleteEntity_effect:
  assumes "db_inv db" "\<not> db_fault db" "DeleteEntity i w db = (res, db')"
  shows "(\<forall>f n. GetZNSName T f db = Inr (Some n) \<longrightarrow> zn_EntityID n = i \<longrightarrow> GetZNSName T f db' = Inr None)"
    and "res = Inr () \<longleftrightarrow> (\<exists>a. GetEntity T i db = Inr (Some a) \<and> rr_Owner a = w)"
    and "GetEntity T i db' = (if res = Inr () then Inr None else GetEntity T i db)"
proof -
  let ?P = "\<lambda>r. ekey r = i \<and> rr_Owner (er_rec r) = w"
  let ?N = "\<lambda>z. zn_EntityID (zr_rec z) = i"
  have e: "res = require_rows ?P (db_entities db)" "\<not> db_fault db'"
    "db_zns db' = t_delete ?N (db_zns db)" "db_entities db' = t_delete ?P (db_entities db)"
    using assms(2,3) by (auto simp: DeleteEntity_eq delete_names_def)
  have kd: "keys_distinct ekey (db_entities db)" "keys_distinct zkey (db_zns db)"
    using assms(1) by (auto simp: db_inv_def names_ok_def)
  show "\<forall>f n. GetZNSName T f db = Inr (Some n) \<longrightarrow> zn_EntityID n = i \<longrightarrow> GetZNSName T f db' = Inr None"
    using e t_get_delete[OF kd(2), of _ ?N] assms(2)
    by (auto simp: GetZNSName_def pool_Query_def scanZNSName_def)
  have get: "t_get ekey i (db_entities db) = Some r \<longleftrightarrow> r \<in> set (db_entities db) \<and> ekey r = i" for r
    using t_get_unique[OF kd(1)] t_get_Some[of ekey i] by blast
  show r: "res = Inr () \<longleftrightarrow> (\<exists>a. GetEntity T i db = Inr (Some a) \<and> rr_Owner a = w)"
    using assms(2) by (auto simp: e(1) require_rows_ok GetEntity_def pool_Query_def scanAgentRow_def get)
  show "GetEntity T i db' = (if res = Inr () then Inr None else GetEntity T i db)"
  proof (cases "t_get ekey i (db_entities db)")
    case None
    then show ?thesis using e(2,4) assms(2) t_get_delete[OF kd(1), of i ?P]
      by (simp add: GetEntity_def pool_Query_def)
  next
    case (Some a)
    then have a: "ekey a = i" using t_get_Some[OF Some] by simp
    have "res = Inr () \<longleftrightarrow> rr_Owner (er_rec a) = w"
      using r Some assms(2) by (simp add: GetEntity_def pool_Query_def scanAgentRow_def)
    then show ?thesis using a Some e(2,4) assms(2) t_get_delete[OF kd(1), of i ?P]
      by (simp add: GetEntity_def pool_Query_def)
  qed
qed

text \<open>Deleting an entity. On a reachable database that answers: the names bound to the entity
  are gone whatever the outcome; the entity itself goes exactly when the caller owns it. So a
  caller who does not own the entity is told that nothing was found, yet every name of the
  entity stops resolving, while the entity stays.\<close>

theorem delete_entity_names_before_owner_check:
  assumes "db_inv db" "\<not> db_fault db" "DeleteEntity i w db = (res, db')"
  shows "(\<forall>f n. GetZNSName T f db = Inr (Some n) \<longrightarrow> zn_EntityID n = i \<longrightarrow> GetZNSName T f db' = Inr None)
    \<and> (res = Inr () \<longleftrightarrow> (\<exists>a. GetEntity T i db = Inr (Some a) \<and> rr_Owner a = w))
    \<and> GetEntity T i db' = (if res = Inr () then Inr None else GetEntity T i db)"
  using DeleteEntity_effect[OF assms] by blast

definition sample_name :: "string \<Rightarrow> string \<Rightarrow> ZNSName" where
  "sample_name f i = \<lparr>zn_FQAN = f, zn_EntityName = ''x'', zn_DeveloperHandle = ''acme'',
     zn_RegistryHost = ''r'', zn_EntityID = i, zn_DeveloperID = ''d'', zn_CurrentVersion = '''',
     zn_CapabilityTags = [], zn_RegisteredAt = ''0'', zn_UpdatedAt = ''0'', zn_Signature = ''s''\<rparr>"

definition named_agent :: DB where
  "named_agent = fold (store_step unix_time)
     [SCreateAgent 9 (sample_agent ''a'' ''w''), SCreateName (sample_name ''r/acme/x'' ''a'')] empty_db"

theorem delete_entity_names_before_owner_check_witness:
  "\<exists>db'. DeleteEntity ''a'' ''intruder'' named_agent = (Inl NoRowsAffected, db') \<and>
     GetZNSName unix_time ''r/acme/x'' db' = Inr None \<and>
     GetEntity unix_time ''a'' db' = GetEntity unix_time ''a'' named_agent"
proof -
  have n: "named_agent = empty_db\<lparr>
      db_entities := [\<lparr>er_rec = (sample_agent ''a'' ''w'')\<lparr>rr_SchemaVersion := CurrentSchemaVersion,
          rr_EntityType := ''agent'', rr_CodebaseHash := '''', rr_Status := ''active''\<rparr>,
        er_registered = 2, er_updated = 3, er_heartbeat = Some 9\<rparr>],
      db_zns := [\<lparr>zr_rec = sample_name ''r/acme/x'' ''a'', zr_registered = 1, zr_updated = 1\<rparr>]\<rparr>"
    by (simp add: named_agent_def CreateAgent_def CreateZNSName_def pool_Exec_def empty_db_def unix_time_def
        sample_agent_def sample_name_def t_insert_def or_default_def)
  have inv: "db_inv named_agent" unfolding named_agent_def by (rule store.run_inv[OF empty_db_inv])
  have f: "\<not> db_fault named_agent" by (simp add: n empty_db_def)
  have "\<exists>db'. DeleteEntity ''a'' ''intruder'' named_agent = (Inl NoRowsAffected, db')"
    unfolding DeleteEntity_eq[OF f] by (simp add: require_rows_err n sample_agent_def)
  then obtain db' where d: "DeleteEntity ''a'' ''intruder'' named_agent = (Inl NoRowsAffected, db')" ..
  have "\<exists>m. GetZNSName unix_time ''r/acme/x'' named_agent = Inr (Some m) \<and> zn_EntityID m = ''a''"
    by (simp add: GetZNSName_def pool_Query_def n empty_db_def sample_name_def scanZNSName_def)
  then show ?thesis
    using delete_entity_names_before_owner_check[OF inv f d, of unix_time] d by auto
qed

section \<open>Liveness tracking\<close>

lemma MarkInactive_eq:
  "\<not> db_fault db \<Longrightarrow> MarkInactiveEntities now th db =
    (Inr (map ekey (filter (stale (now - th)) (db_entities db))),
     db\<lparr>db_entities := t_update (stale (now - th))
        (\<lambda>r. r\<lparr>er_rec := (er_rec r)\<lparr>rr_Status := ''inactive''\<rparr>\<rparr>) (db_entities db)\<rparr>)"
  by (simp add: MarkInactiveEntities_def Let_def)

text \<open>Liveness. A sweep at time \<open>now\<close> after a heartbeat of entity \<open>i\<close> at time \<open>t\<close> reports \<open>i\<close>
  exactly when the heartbeat is older than the threshold, sets its status to inactive then and
  leaves it active otherwise; a second sweep at the same time reports nobody, so every
  transition is reported once.\<close>

theorem liveness_sweep_exact:
  assumes "db_inv db" "UpdateEntityHeartbeat t i db = (Inr (), db1)"
    "MarkInactiveEntities now th db1 = (Inr ids, db2)"
  shows "(i \<in> set ids \<longleftrightarrow> t < now - th)
    \<and> (\<exists>a. GetEntity T i db2 = Inr (Some a) \<and>
         rr_Status a = (if t < now - th then ''inactive'' else ''active'') \<and>
         rr_LastHeartbeat a = tf_Format T t)
    \<and> MarkInactiveEntities now th db2 = (Inr [], db2)"
proof -
  let ?P = "\<lambda>r. ekey r = i"
  let ?hb = "\<lambda>r. r\<lparr>er_heartbeat := Some t, er_rec := (er_rec r)\<lparr>rr_Status := ''active''\<rparr>\<rparr>"
  let ?off = "\<lambda>r. r\<lparr>er_rec := (er_rec r)\<lparr>rr_Status := ''inactive''\<rparr>\<rparr>"
  have h: "\<not> db_fault db" "\<exists>r\<in>set (db_entities db). ?P r"
    "db1 = db\<lparr>db_entities := t_update ?P ?hb (db_entities db)\<rparr>"
    using assms(2) by (auto simp: UpdateEntityHeartbeat_def pool_Exec_ok Let_def require_rows_ok)
  have f1: "\<not> db_fault db1" using h(1,3) by simp
  have s: "ids = map ekey (filter (stale (now - th)) (db_entities db1))"
    "db2 = db1\<lparr>db_entities := t_update (stale (now - th)) ?off (db_entities db1)\<rparr>"
    using assms(3) unfolding MarkInactive_eq[OF f1] by simp_all
  have "db_inv db1" using assms(1,2) store_ops_inv by (metis snd_conv)
  then have kd: "keys_distinct ekey (db_entities db1)" by (simp add: db_inv_def)
  obtain r0 where r0: "r0 \<in> set (db_entities db)" "ekey r0 = i" using h(2) by blast
  define r where "r = ?hb r0"
  have r: "r \<in> set (db_entities db1)" "ekey r = i" using r0 by (auto simp: h(3) set_t_update r_def)
  have st: "stale (now - th) r \<longleftrightarrow> t < now - th" by (simp add: r_def stale_def)
  have "i \<in> set ids \<longleftrightarrow> stale (now - th) r"
  proof
    assume "i \<in> set ids"
    then obtain q where "q \<in> set (db_entities db1)" "stale (now - th) q" "ekey q = i" by (auto simp: s(1))
    then show "stale (now - th) r" using keys_distinct_eq[OF kd _ r(1)] r(2) by metis
  qed (use r in \<open>auto simp: s(1)\<close>)
  moreover have "t_get ekey i (db_entities db2) = Some (if stale (now - th) r then ?off r else r)"
    using t_get_unique[OF kd r(1)] by (simp add: s(2) t_get_update r(2))
  moreover have off: "\<not> stale c (?off q)" for c q by (simp add: stale_def)
  have "filter (stale (now - th)) (db_entities db2) = []"
    unfolding s(2) filter_empty_conv using off by (auto simp: t_update_def)
  moreover from this have "t_update (stale (now - th)) g (db_entities db2) = db_entities db2" for g
    by (simp add: t_update_def filter_empty_conv map_idI)
  moreover have "\<not> db_fault db2" using f1 by (simp add: s(2))
  ultimately show ?thesis
    using st by (simp add: GetEntity_def pool_Query_def scanAgentRow_def MarkInactive_eq r_def)
qed

theorem liveness_sweep_exact_witness:
  "\<exists>db1 ids db2. UpdateEntityHeartbeat 20 ''a'' named_agent = (Inr (), db1) \<and>
     MarkInactiveEntities 400 300 db1 = (Inr ids, db2) \<and> ''a'' \<in> set ids"
proof -
  have inv: "db_inv named_agent" unfolding named_agent_def by (rule store.run_inv[OF empty_db_inv])
  have "\<exists>db1. UpdateEntityHeartbeat 20 ''a'' named_agent = (Inr (), db1) \<and> \<not> db_fault db1"
    by (simp add: named_agent_def CreateAgent_def CreateZNSName_def pool_Exec_def empty_db_def unix_time_def
        sample_agent_def sample_name_def t_insert_def or_default_def UpdateEntityHeartbeat_def
        require_rows_ok Let_def)
  then obtain db1 where 1: "UpdateEntityHeartbeat 20 ''a'' named_agent = (Inr (), db1)" "\<not> db_fault db1" by blast
  obtain ids db2 where 2: "MarkInactiveEntities 400 300 db1 = (Inr ids, db2)"
    using MarkInactive_eq[OF 1(2), of 400 300] by simp
  show ?thesis using liveness_sweep_exact[OF inv 1(1) 2] 1 2 by auto
qed

section \<open>Gossip entries\<close>

text \<open>A gossip entry that was tombstoned stays tombstoned when its entity is announced again.
  The upsert renews the received fields but keeps the tombstone flag and the pinned origin key,
  so the live count never includes the entity again before the tombstone is cleaned.\<close>

theorem reregistration_keeps_tombstone:
  assumes "TombstoneGossipEntry now (ge_EntityID e) db = (Inr (), db1)"
    "UpsertGossipEntry T e db1 = (Inr (), db2)" "GetGossipEntry T (ge_EntityID e) db = Inr (Some old)"
  shows "\<exists>g. GetGossipEntry T (ge_EntityID e) db2 = Inr (Some g) \<and> ge_Tombstoned g \<and>
     ge_Name g = ge_Name e \<and>
     ge_OriginPublicKey g = or_default (ge_OriginPublicKey old) (ge_OriginPublicKey e) \<and>
     CountGossipEntries db2 = CountGossipEntries db1"
proof -
  let ?k = "ge_EntityID e"
  let ?t = "\<lambda>r. r\<lparr>gr_tombstone_at := Some now, gr_rec := (gr_rec r)\<lparr>ge_Tombstoned := True\<rparr>\<rparr>"
  obtain r where r: "t_get gkey ?k (db_gossip db) = Some r" "ge_OriginPublicKey old = ge_OriginPublicKey (gr_rec r)"
    using assms(3) by (auto simp: GetGossipEntry_def pool_Query_def split: if_splits)
  have f: "\<not> db_fault db" "db1 = db\<lparr>db_gossip := t_update (\<lambda>r. gkey r = ?k) ?t (db_gossip db)\<rparr>"
    using assms(1) by (auto simp: TombstoneGossipEntry_def pool_Exec_ok)
  have k: "gkey r = ?k" using t_get_Some[OF r(1)] by simp
  have g1: "t_get gkey ?k (db_gossip db1) = Some (?t r)" using r(1) k by (simp add: f(2) t_get_update)
  obtain ra where ra: "tf_Parse T (ge_ReceivedAt e) = Some ra"
    using assms(2) by (auto simp: UpsertGossipEntry_def pool_Exec_ok split: option.splits)
  define row where "row = \<lparr>gr_rec = e\<lparr>ge_Status := or_default (ge_Status e) ''inactive'',
                       ge_EntityType := or_default (ge_EntityType e) ''agent''\<rparr>,
                     gr_received = ra, gr_tombstone_at = None\<rparr>"
  have rk: "gkey row = ?k" by (simp add: row_def)
  have u: "db2 = db1\<lparr>db_gossip := t_upsert gkey gossip_merge row (db_gossip db1)\<rparr>"
    using assms(2) ra f by (simp add: UpsertGossipEntry_def pool_Exec_ok row_def)
  have "t_get gkey ?k (db_gossip db2) = Some (gossip_merge (?t r) row)"
    using gossip_tbl.get_upsert[of ?k row "db_gossip db1"] g1 rk by (simp add: u)
  moreover have up: "db_gossip db2 = t_update (\<lambda>old. gkey old = ?k) (\<lambda>old. gossip_merge old row) (db_gossip db1)"
    using g1 rk by (simp add: u t_upsert_def)
  have cnt: "t_count (\<lambda>r. \<not> ge_Tombstoned (gr_rec r)) (t_update P (\<lambda>old. gossip_merge old row) rows) =
      t_count (\<lambda>r. \<not> ge_Tombstoned (gr_rec r)) rows" for P rows
    by (induction rows) (auto simp: t_count_def t_update_def gossip_merge_def)
  have "db_fault db2 = db_fault db1" by (simp add: u)
  then have "CountGossipEntries db2 = CountGossipEntries db1"
    by (simp add: CountGossipEntries_def pool_Query_def up cnt)
  ultimately show ?thesis
    using f(1) r(2) by (simp add: GetGossipEntry_def pool_Query_def u f(2) gossip_merge_def row_def)
qed

definition sample_entry :: "string \<Rightarrow> string \<Rightarrow> GossipEntry" where
  "sample_entry i k = \<lparr>ge_EntityID = i, ge_Name = ''n'', ge_Category = ''c'', ge_Tags = [], ge_Summary = '''',
     ge_CapabilitySummary = None, ge_HomeRegistry = ''r'', ge_EntityURL = '''', ge_ReceivedAt = ''0'',
     ge_Tombstoned = False, ge_TombstoneAt = '''', ge_DeveloperID = '''', ge_DeveloperPublicKey = '''',
     ge_DeveloperProof = None, ge_Status = ''active'', ge_OriginPublicKey = k, ge_EntityType = ''agent'',
     ge_ServiceEndpoint = '''', ge_OpenAPIURL = '''', ge_EntityPricing = None\<rparr>"

theorem reregistration_keeps_tombstone_witness:
  "\<exists>db db1 db2 g. UpsertGossipEntry unix_time (sample_entry ''a'' ''k'') empty_db = (Inr (), db) \<and>
     TombstoneGossipEntry 9 ''a'' db = (Inr (), db1) \<and>
     UpsertGossipEntry unix_time (sample_entry ''a'' ''l'') db1 = (Inr (), db2) \<and>
     GetGossipEntry unix_time ''a'' db2 = Inr (Some g) \<and> ge_Tombstoned g"
proof -
  let ?e = "sample_entry ''a'' ''l''"
  let ?db = "empty_db\<lparr>db_gossip := [\<lparr>gr_rec = sample_entry ''a'' ''k'', gr_received = 1, gr_tombstone_at = None\<rparr>]\<rparr>"
  have 1: "UpsertGossipEntry unix_time (sample_entry ''a'' ''k'') empty_db = (Inr (), ?db)"
    by (simp add: UpsertGossipEntry_def pool_Exec_def empty_db_def unix_time_def sample_entry_def
        t_upsert_def or_default_def)
  have "\<exists>old. GetGossipEntry unix_time (ge_EntityID ?e) ?db = Inr (Some old)"
    by (simp add: GetGossipEntry_def pool_Query_def empty_db_def sample_entry_def)
  then obtain old where 2: "GetGossipEntry unix_time (ge_EntityID ?e) ?db = Inr (Some old)" ..
  have "\<exists>db1. TombstoneGossipEntry 9 (ge_EntityID ?e) ?db = (Inr (), db1) \<and> \<not> db_fault db1"
    by (simp add: TombstoneGossipEntry_def pool_Exec_def empty_db_def)
  then obtain db1 where 3: "TombstoneGossipEntry 9 (ge_EntityID ?e) ?db = (Inr (), db1)" "\<not> db_fault db1" by blast
  have "\<exists>db2. UpsertGossipEntry unix_time ?e db1 = (Inr (), db2)"
    using 3(2) by (simp add: UpsertGossipEntry_def pool_Exec_def unix_time_def sample_entry_def Let_def)
  then obtain db2 where 4: "UpsertGossipEntry unix_time ?e db1 = (Inr (), db2)" ..
  have "ge_EntityID ?e = ''a''" by (simp add: sample_entry_def)
  then show ?thesis using reregistration_keeps_tombstone[OF 3(1) 4 2] 1 3(1) 4 by auto
qed

end
