(* ===== verification/Gossip.thy ===== *)
theory Gossip
  imports Identity StoreProps
begin

text \<open>
  The gossip handler (\<open>src/internal/mesh/gossip.go\<close>): its state is the store, the dedup map and
  which callbacks are set; calls of the callbacks and published events are appended to
  \<open>gh_out\<close> in the order they happen. \<open>E\<close> is the signature scheme, \<open>marshal\<close> is
  \<open>json.Marshal\<close> on announcements (\<^term>\<open>None\<close>: an error), \<open>T\<close> the store's time format and
  \<open>now\<close> the time read by the call.
\<close>

section \<open>State\<close>

record GossipEventData =
  gev_EntityID :: string
  gev_Name :: string
  gev_Action :: string
  gev_HomeRegistry :: string
  gev_HopCount :: int
  gev_Direction :: string

datatype gossip_effect = Indexed GossipAnnouncement | BroadcastTo GossipAnnouncement
  | Published string GossipEventData

record GossipHandler =
  gh_store :: DB
  gh_MaxHops :: int
  gh_DedupWindowSeconds :: int
  gh_seen :: "string \<rightharpoonup> int"
  gh_onAnnounce :: bool
  gh_onBroadcast :: bool
  gh_eventBus :: bool
  gh_out :: "gossip_effect list"

definition NewGossipHandler :: "DB \<Rightarrow> int \<Rightarrow> int \<Rightarrow> GossipHandler" where
  "NewGossipHandler st maxHops window = \<lparr>gh_store = st, gh_MaxHops = maxHops,
     gh_DedupWindowSeconds = window, gh_seen = Map.empty, gh_onAnnounce = False,
     gh_onBroadcast = False, gh_eventBus = False, gh_out = []\<rparr>"

definition SetAnnounceCallback :: "GossipHandler \<Rightarrow> GossipHandler" where
  "SetAnnounceCallback gh = gh\<lparr>gh_onAnnounce := True\<rparr>"

definition SetEventBus :: "GossipHandler \<Rightarrow> GossipHandler" where
  "SetEventBus gh = gh\<lparr>gh_eventBus := True\<rparr>"

definition SetBroadcastFunc :: "GossipHandler \<Rightarrow> GossipHandler" where
  "SetBroadcastFunc gh = gh\<lparr>gh_onBroadcast := True\<rparr>"

definition emit :: "bool \<Rightarrow> gossip_effect \<Rightarrow> GossipHandler \<Rightarrow> GossipHandler" where
  "emit isSet e gh = (if isSet then gh\<lparr>gh_out := gh_out gh @ [e]\<rparr> else gh)"

definition gossip_event :: "string \<Rightarrow> GossipAnnouncement \<Rightarrow> GossipEventData" where
  "gossip_event direction ann = \<lparr>gev_EntityID = ga_EntityID ann, gev_Name = ga_Name ann,
     gev_Action = ga_Action ann, gev_HomeRegistry = ga_HomeRegistry ann,
     gev_HopCount = ga_HopCount ann, gev_Direction = direction\<rparr>"

definition BroadcastAnnouncement :: "int \<Rightarrow> GossipAnnouncement option \<Rightarrow> GossipHandler \<Rightarrow> GossipHandler" where
  "BroadcastAnnouncement now ann gh = (case ann of
       None \<Rightarrow> gh
     | Some ann \<Rightarrow>
         let dedupKey = ga_EntityID ann @ '':'' @ ga_Timestamp ann;
             gh = gh\<lparr>gh_seen := (gh_seen gh)(dedupKey \<mapsto> now)\<rparr>;
             gh = emit (gh_onBroadcast gh) (BroadcastTo ann) gh
         in emit (gh_eventBus gh) (Published ''gossip_outgoing'' (gossip_event ''outgoing'' ann)) gh)"

section \<open>Incoming announcements\<close>

definition verifyOriginAuthorization :: "timefmt \<Rightarrow> string \<Rightarrow> string \<Rightarrow> bool \<Rightarrow> DB \<Rightarrow> bool" where
  "verifyOriginAuthorization T agentID originKey requireExisting db =
     (case GetGossipEntry T agentID db of
        Inl _ \<Rightarrow> False
      | Inr None \<Rightarrow> \<not> requireExisting
      | Inr (Some existing) \<Rightarrow>
          if ge_OriginPublicKey existing = '''' then True
          else ge_OriginPublicKey existing = originKey)"

definition dedupKey :: "GossipAnnouncement \<Rightarrow> string" where
  "dedupKey ann =
     (let dedupID =
        (if ga_Type ann = ''developer_announce'' \<or> ga_Type ann = ''dev_handle'' then ga_DeveloperID ann
         else if ga_Type ann = ''name_binding'' then ga_FQAN ann
         else if ga_Type ann = ''registry_proof'' then ga_Domain ann
         else if ga_Type ann = ''peer_attestation'' then ga_AttesterID ann @ '':'' @ ga_SubjectID ann
         else ga_EntityID ann)
      in dedupID @ '':'' @ ga_Timestamp ann)"

text \<open>The checks before the dedup map: hop limit, presence of the signature, and the signature over
  the announcement without it.\<close>

definition announcement_valid ::
  "ed25519 \<Rightarrow> (GossipAnnouncement \<Rightarrow> byte list option) \<Rightarrow> GossipAnnouncement \<Rightarrow> bool" where
  "announcement_valid E marshal ann =
     (if ga_HopCount ann \<ge> ga_MaxHops ann then False
      else if ga_Signature ann = '''' \<or> ga_OriginPublicKey ann = '''' then False
      else case marshal (ann\<lparr>ga_Signature := ''''\<rparr>) of
        None \<Rightarrow> False
      | Some data \<Rightarrow>
          let pubKey = (if HasPrefix (ga_OriginPublicKey ann) ''ed25519:''
                        then drop 8 (ga_OriginPublicKey ann) else ga_OriginPublicKey ann)
          in case Verify E pubKey data (ga_Signature ann) of Inl _ \<Rightarrow> False | Inr valid \<Rightarrow> valid)"

definition gossip_developer_of :: "timefmt \<Rightarrow> int \<Rightarrow> GossipAnnouncement \<Rightarrow> GossipDeveloperEntry" where
  "gossip_developer_of T now ann = \<lparr>gd_DeveloperID = ga_DeveloperID ann, gd_Name = ga_Name ann,
     gd_PublicKey = ga_PublicKey ann, gd_ProfileURL = '''', gd_GitHub = '''',
     gd_HomeRegistry = ga_HomeRegistry ann, gd_ReceivedAt = tf_Format T now, gd_Tombstoned = False,
     gd_TombstoneAt = '''', gd_DevHandle = '''', gd_DevHandleVerified = False,
     gd_VerificationMethod = '''', gd_VerificationProof = ''''\<rparr>"

definition handle_developer_announce :: "timefmt \<Rightarrow> int \<Rightarrow> GossipAnnouncement \<Rightarrow> DB \<Rightarrow> DB" where
  "handle_developer_announce T now ann db =
     (if ga_Action ann = ''register'' \<or> ga_Action ann = ''update'' then
        snd (UpsertGossipDeveloper T ((gossip_developer_of T now ann)
          \<lparr>gd_ProfileURL := ga_ProfileURL ann, gd_GitHub := ga_GitHub ann\<rparr>) db)
      else if ga_Action ann = ''deregister'' then
        snd (TombstoneGossipDeveloper now (ga_DeveloperID ann) db)
      else db)"

definition handle_dev_handle :: "timefmt \<Rightarrow> int \<Rightarrow> GossipAnnouncement \<Rightarrow> DB \<Rightarrow> DB" where
  "handle_dev_handle T now ann db =
     (if ga_Action ann = ''claim'' \<or> ga_Action ann = ''verify'' then
        snd (UpsertGossipDeveloper T ((gossip_developer_of T now ann)
          \<lparr>gd_DevHandle := ga_DevHandle ann, gd_DevHandleVerified := ga_DevHandleVerified ann,
           gd_VerificationMethod := ga_VerificationMethod ann\<rparr>) db)
      else if ga_Action ann = ''release'' then
        snd (UpsertGossipDeveloper T (gossip_developer_of T now ann) db)
      else db)"

definition handle_name_binding :: "timefmt \<Rightarrow> int \<Rightarrow> GossipAnnouncement \<Rightarrow> DB \<Rightarrow> DB" where
  "handle_name_binding T now ann db =
     (if ga_Action ann = ''register'' \<or> ga_Action ann = ''update'' \<or> ga_Action ann = ''version'' then
        snd (UpsertGossipZNSName T \<lparr>gz_FQAN = ga_FQAN ann, gz_EntityName = ga_AgentNameZNS ann,
          gz_DeveloperHandle = ga_DevHandle ann, gz_RegistryHost = ga_RegistryHost ann,
          gz_EntityID = ga_EntityID ann, gz_CurrentVersion = ga_Version ann,
          gz_CapabilityTags = ga_CapabilityTags ann, gz_ReceivedAt = tf_Format T now,
          gz_Tombstoned = False\<rparr> db)
      else if ga_Action ann = ''release'' then snd (TombstoneGossipZNSName (ga_FQAN ann) db)
      else db)"

definition handle_registry_proof :: "timefmt \<Rightarrow> int \<Rightarrow> GossipAnnouncement \<Rightarrow> DB \<Rightarrow> DB" where
  "handle_registry_proof T now ann db =
     (if ga_Action ann = ''publish'' \<or> ga_Action ann = ''update'' then
        snd (UpsertRegistryProof T \<lparr>ri_Type = ''registry-identity-proof'', ri_Version = ''1.0'',
          ri_Domain = ga_Domain ann, ri_RegistryID = ga_HomeRegistry ann,
          ri_Ed25519PublicKey = ga_Ed25519PublicKey ann,
          ri_TLSSPKIFingerprint = ga_TLSSPKIFingerprint ann, ri_IssuedAt = ga_Timestamp ann,
          ri_ExpiresAt = ga_Timestamp ann, ri_Signature = ga_Signature ann,
          ri_VerificationTier = ga_VerificationTier ann, ri_ReceivedAt = tf_Format T now\<rparr> db)
      else db)"

text \<open>The count is zero when the query fails.\<close>

definition handle_peer_attestation :: "timefmt \<Rightarrow> int \<Rightarrow> GossipAnnouncement \<Rightarrow> DB \<Rightarrow> DB" where
  "handle_peer_attestation T now ann db =
     (if ga_Action ann = ''attest'' then
        let db1 = snd (CreatePeerAttestation T \<lparr>pa_AttesterID = ga_AttesterID ann, pa_AttesterDomain = '''',
                pa_SubjectID = ga_SubjectID ann, pa_SubjectDomain = '''',
                pa_VerifiedLayers = ga_VerifiedLayers ann, pa_AttestedAt = ga_Timestamp ann,
                pa_Signature = ga_Signature ann\<rparr> db);
            count = (case CountPeerAttestations (ga_SubjectID ann) db1 of Inl _ \<Rightarrow> 0 | Inr n \<Rightarrow> n)
        in if count \<ge> 3 then snd (UpdateRegistryVerificationTier (ga_SubjectID ann) ''mesh-verified'' db1)
           else db1
      else db)"

definition gossip_entry_of :: "timefmt \<Rightarrow> int \<Rightarrow> GossipAnnouncement \<Rightarrow> GossipEntry" where
  "gossip_entry_of T now ann = \<lparr>ge_EntityID = ga_EntityID ann, ge_Name = ga_Name ann,
     ge_Category = ga_Category ann, ge_Tags = ga_Tags ann, ge_Summary = ga_Summary ann,
     ge_CapabilitySummary = None, ge_HomeRegistry = ga_HomeRegistry ann,
     ge_EntityURL = ga_EntityURL ann, ge_ReceivedAt = tf_Format T now, ge_Tombstoned = False,
     ge_TombstoneAt = '''', ge_DeveloperID = ga_DeveloperID ann,
     ge_DeveloperPublicKey = ga_DeveloperPublicKey ann, ge_DeveloperProof = ga_DeveloperProof ann,
     ge_Status = ''active'', ge_OriginPublicKey = ga_OriginPublicKey ann,
     ge_EntityType = ga_EntityType ann, ge_ServiceEndpoint = ga_ServiceEndpoint ann,
     ge_OpenAPIURL = ga_OpenAPIURL ann, ge_EntityPricing = ga_EntityPricing ann\<rparr>"

text \<open>The default case; \<^term>\<open>None\<close> is the early \<open>return false\<close>.\<close>

definition handle_agent_announce ::
  "timefmt \<Rightarrow> int \<Rightarrow> GossipAnnouncement \<Rightarrow> GossipHandler \<Rightarrow> GossipHandler option" where
  "handle_agent_announce T now ann gh =
     (if ga_Action ann = ''agent_status'' then
        if \<not> verifyOriginAuthorization T (ga_EntityID ann) (ga_OriginPublicKey ann) True (gh_store gh)
        then None
        else Some (gh\<lparr>gh_store := snd (UpdateGossipEntryStatus (ga_EntityID ann) (ga_Status ann) (gh_store gh))\<rparr>)
      else if ga_Action ann = ''register'' \<or> ga_Action ann = ''update'' then
        if ga_Action ann = ''update'' \<and>
           \<not> verifyOriginAuthorization T (ga_EntityID ann) (ga_OriginPublicKey ann) False (gh_store gh)
        then None
        else Some (emit (gh_onAnnounce gh) (Indexed ann)
          (gh\<lparr>gh_store := snd (UpsertGossipEntry T (gossip_entry_of T now ann) (gh_store gh))\<rparr>))
      else if ga_Action ann = ''deregister'' then
        if \<not> verifyOriginAuthorization T (ga_EntityID ann) (ga_OriginPublicKey ann) True (gh_store gh)
        then None
        else Some (gh\<lparr>gh_store := snd (TombstoneGossipEntry now (ga_EntityID ann) (gh_store gh))\<rparr>)
      else Some gh)"

definition dispatch :: "timefmt \<Rightarrow> int \<Rightarrow> GossipAnnouncement \<Rightarrow> GossipHandler \<Rightarrow> GossipHandler option" where
  "dispatch T now ann gh =
     (if ga_Type ann = ''developer_announce'' then
        Some (gh\<lparr>gh_store := handle_developer_announce T now ann (gh_store gh)\<rparr>)
      else if ga_Type ann = ''dev_handle'' then
        Some (gh\<lparr>gh_store := handle_dev_handle T now ann (gh_store gh)\<rparr>)
      else if ga_Type ann = ''name_binding'' then
        Some (gh\<lparr>gh_store := handle_name_binding T now ann (gh_store gh)\<rparr>)
      else if ga_Type ann = ''registry_proof'' then
        Some (gh\<lparr>gh_store := handle_registry_proof T now ann (gh_store gh)\<rparr>)
      else if ga_Type ann = ''peer_attestation'' then
        Some (gh\<lparr>gh_store := handle_peer_attestation T now ann (gh_store gh)\<rparr>)
      else handle_agent_announce T now ann gh)"

text \<open>The result is the return value, the announcement as the caller sees it afterwards (the
  handler increments its hop count in place) and the new state.\<close>

definition HandleAnnouncement ::
  "ed25519 \<Rightarrow> (GossipAnnouncement \<Rightarrow> byte list option) \<Rightarrow> timefmt \<Rightarrow> int \<Rightarrow> GossipAnnouncement \<Rightarrow> GossipHandler
    \<Rightarrow> bool \<times> GossipAnnouncement \<times> GossipHandler" where
  "HandleAnnouncement E marshal T now ann gh =
     (if \<not> announcement_valid E marshal ann then (False, ann, gh)
      else if gh_seen gh (dedupKey ann) \<noteq> None then (False, ann, gh)
      else let gh = gh\<lparr>gh_seen := (gh_seen gh)(dedupKey ann \<mapsto> now)\<rparr> in
        case dispatch T now ann gh of
          None \<Rightarrow> (False, ann, gh)
        | Some gh \<Rightarrow>
            (True, ann\<lparr>ga_HopCount := ga_HopCount ann + 1\<rparr>,
             emit (gh_eventBus gh) (Published ''gossip_incoming'' (gossip_event ''incoming'' ann)) gh))"

text \<open>One round of \<open>cleanDedupWindow\<close>.\<close>

definition cleanDedupWindow :: "int \<Rightarrow> GossipHandler \<Rightarrow> GossipHandler" where
  "cleanDedupWindow now gh =
     (let cutoff = now - gh_DedupWindowSeconds gh
      in gh\<lparr>gh_seen := (\<lambda>k. case gh_seen gh k of
            None \<Rightarrow> None | Some receivedAt \<Rightarrow> if receivedAt < cutoff then None else Some receivedAt)\<rparr>)"

section \<open>Outgoing announcements\<close>

definition zero_announcement :: GossipAnnouncement where
  "zero_announcement = \<lparr>ga_Type = '''', ga_EntityID = '''', ga_Name = '''', ga_Category = '''', ga_Tags = [],
     ga_Summary = '''', ga_CapabilitySummary = None, ga_HomeRegistry = '''', ga_EntityURL = '''',
     ga_Action = '''', ga_Status = '''', ga_EntityType = '''', ga_ServiceEndpoint = '''',
     ga_OpenAPIURL = '''', ga_EntityPricing = None, ga_Timestamp = '''', ga_OriginPublicKey = '''',
     ga_Signature = '''', ga_HopCount = 0, ga_MaxHops = 0, ga_DeveloperID = '''',
     ga_DeveloperPublicKey = '''', ga_DeveloperProof = None, ga_ProfileURL = '''', ga_GitHub = '''',
     ga_PublicKey = '''', ga_DevHandle = '''', ga_DevHandleVerified = False,
     ga_VerificationMethod = '''', ga_FQAN = '''', ga_AgentNameZNS = '''', ga_RegistryHost = '''',
     ga_Version = '''', ga_CapabilityTags = [], ga_Domain = '''', ga_Ed25519PublicKey = '''',
     ga_TLSSPKIFingerprint = '''', ga_VerificationTier = '''', ga_AttesterID = '''',
     ga_SubjectID = '''', ga_VerifiedLayers = []\<rparr>"

text \<open>What the constructors share: the envelope, and the signature over the JSON of the
  announcement while its signature field is empty (\<open>data, _ := json.Marshal(ann)\<close> is empty on an
  error).\<close>

definition announcement_envelope ::
  "timefmt \<Rightarrow> int \<Rightarrow> string \<Rightarrow> string \<Rightarrow> string \<Rightarrow> string \<Rightarrow> GossipHandler \<Rightarrow> GossipAnnouncement" where
  "announcement_envelope T now typ action registryID pubKey gh = zero_announcement\<lparr>
     ga_Type := typ, ga_HomeRegistry := registryID, ga_Action := action,
     ga_Timestamp := tf_Format T now, ga_OriginPublicKey := pubKey, ga_HopCount := 0,
     ga_MaxHops := gh_MaxHops gh\<rparr>"

definition sign_announcement ::
  "(GossipAnnouncement \<Rightarrow> byte list option) \<Rightarrow> (byte list \<Rightarrow> string) \<Rightarrow> GossipAnnouncement \<Rightarrow> GossipAnnouncement" where
  "sign_announcement marshal signFn ann =
     ann\<lparr>ga_Signature := signFn (case marshal ann of None \<Rightarrow> [] | Some data \<Rightarrow> data)\<rparr>"

definition agent_announcement ::
  "timefmt \<Rightarrow> int \<Rightarrow> RegistryRecord \<Rightarrow> string \<Rightarrow> string \<Rightarrow> string \<Rightarrow> GossipHandler \<Rightarrow> GossipAnnouncement" where
  "agent_announcement T now agent action registryID pubKey gh =
     (let ann = (announcement_envelope T now ''agent_announce'' action registryID pubKey gh)\<lparr>
        ga_EntityID := rr_EntityID agent, ga_Name := rr_Name agent, ga_Category := rr_Category agent,
        ga_Tags := rr_Tags agent, ga_Summary := rr_Summary agent, ga_EntityURL := rr_EntityURL agent,
        ga_EntityType := rr_EntityType agent, ga_ServiceEndpoint := rr_ServiceEndpoint agent,
        ga_OpenAPIURL := rr_OpenAPIURL agent, ga_EntityPricing := rr_EntityPricing agent\<rparr>
      in if rr_DeveloperID agent \<noteq> '''' then
           let ann = ann\<lparr>ga_DeveloperID := rr_DeveloperID agent\<rparr>
           in case rr_DeveloperProof agent of
                None \<Rightarrow> ann
              | Some p \<Rightarrow> ann\<lparr>ga_DeveloperPublicKey := dp_DeveloperPublicKey p,
                              ga_DeveloperProof := Some p\<rparr>
         else ann)"

definition CreateAnnouncement ::
  "(GossipAnnouncement \<Rightarrow> byte list option) \<Rightarrow> timefmt \<Rightarrow> int \<Rightarrow> RegistryRecord \<Rightarrow> string \<Rightarrow> string \<Rightarrow> string
    \<Rightarrow> (byte list \<Rightarrow> string) \<Rightarrow> GossipHandler \<Rightarrow> GossipAnnouncement" where
  "CreateAnnouncement marshal T now agent action registryID pubKey signFn gh =
     sign_announcement marshal signFn (agent_announcement T now agent action registryID pubKey gh)"

definition CreateDeveloperAnnouncement ::
  "(GossipAnnouncement \<Rightarrow> byte list option) \<Rightarrow> timefmt \<Rightarrow> int \<Rightarrow> DeveloperRecord \<Rightarrow> string \<Rightarrow> string \<Rightarrow> string
    \<Rightarrow> (byte list \<Rightarrow> string) \<Rightarrow> GossipHandler \<Rightarrow> GossipAnnouncement" where
  "CreateDeveloperAnnouncement marshal T now dev action registryID pubKey signFn gh =
     sign_announcement marshal signFn
       ((announcement_envelope T now ''developer_announce'' action registryID pubKey gh)\<lparr>
          ga_Name := dev_Name dev, ga_DeveloperID := dev_DeveloperID dev,
          ga_PublicKey := dev_PublicKey dev, ga_ProfileURL := dev_ProfileURL dev,
          ga_GitHub := dev_GitHub dev\<rparr>)"

definition CreateStatusAnnouncement ::
  "(GossipAnnouncement \<Rightarrow> byte list option) \<Rightarrow> timefmt \<Rightarrow> int \<Rightarrow> string \<Rightarrow> string \<Rightarrow> string \<Rightarrow> string
    \<Rightarrow> (byte list \<Rightarrow> string) \<Rightarrow> GossipHandler \<Rightarrow> GossipAnnouncement" where
  "CreateStatusAnnouncement marshal T now agentID status registryID pubKey signFn gh =
     sign_announcement marshal signFn
       ((announcement_envelope T now ''agent_announce'' ''agent_status'' registryID pubKey gh)\<lparr>
          ga_EntityID := agentID, ga_Status := status\<rparr>)"

definition CreateHandleAnnouncement ::
  "(GossipAnnouncement \<Rightarrow> byte list option) \<Rightarrow> timefmt \<Rightarrow> int \<Rightarrow> DeveloperRecord \<Rightarrow> string \<Rightarrow> bool \<Rightarrow> string \<Rightarrow> string
    \<Rightarrow> string \<Rightarrow> string \<Rightarrow> (byte list \<Rightarrow> string) \<Rightarrow> GossipHandler \<Rightarrow> GossipAnnouncement" where
  "CreateHandleAnnouncement marshal T now dev handle verified verificationMethod action registryID pubKey
       signFn gh =
     sign_announcement marshal signFn
       ((announcement_envelope T now ''dev_handle'' action registryID pubKey gh)\<lparr>
          ga_DeveloperID := dev_DeveloperID dev, ga_Name := dev_Name dev,
          ga_PublicKey := dev_PublicKey dev, ga_DevHandle := handle,
          ga_DevHandleVerified := verified, ga_VerificationMethod := verificationMethod\<rparr>)"

definition CreateNameBindingAnnouncement ::
  "(GossipAnnouncement \<Rightarrow> byte list option) \<Rightarrow> timefmt \<Rightarrow> int \<Rightarrow> ZNSName \<Rightarrow> string \<Rightarrow> string \<Rightarrow> string
    \<Rightarrow> (byte list \<Rightarrow> string) \<Rightarrow> GossipHandler \<Rightarrow> GossipAnnouncement" where
  "CreateNameBindingAnnouncement marshal T now name action registryID pubKey signFn gh =
     sign_announcement marshal signFn
       ((announcement_envelope T now ''name_binding'' action registryID pubKey gh)\<lparr>
          ga_FQAN := zn_FQAN name, ga_AgentNameZNS := zn_EntityName name,
          ga_DevHandle := zn_DeveloperHandle name, ga_RegistryHost := zn_RegistryHost name,
          ga_EntityID := zn_EntityID name, ga_DeveloperID := zn_DeveloperID name,
          ga_Version := zn_CurrentVersion name, ga_CapabilityTags := zn_CapabilityTags name\<rparr>)"

definition CreateRegistryProofAnnouncement ::
  "(GossipAnnouncement \<Rightarrow> byte list option) \<Rightarrow> timefmt \<Rightarrow> int \<Rightarrow> RegistryIdentityProof \<Rightarrow> string \<Rightarrow> string \<Rightarrow> string
    \<Rightarrow> (byte list \<Rightarrow> string) \<Rightarrow> GossipHandler \<Rightarrow> GossipAnnouncement" where
  "CreateRegistryProofAnnouncement marshal T now proof action registryID pubKey signFn gh =
     sign_announcement marshal signFn
       ((announcement_envelope T now ''registry_proof'' action registryID pubKey gh)\<lparr>
          ga_Domain := ri_Domain proof, ga_Ed25519PublicKey := ri_Ed25519PublicKey proof,
          ga_TLSSPKIFingerprint := ri_TLSSPKIFingerprint proof,
          ga_VerificationTier := ri_VerificationTier proof\<rparr>)"

definition CreatePeerAttestationAnnouncement ::
  "(GossipAnnouncement \<Rightarrow> byte list option) \<Rightarrow> timefmt \<Rightarrow> int \<Rightarrow> PeerAttestation \<Rightarrow> string \<Rightarrow> string \<Rightarrow> string
    \<Rightarrow> (byte list \<Rightarrow> string) \<Rightarrow> GossipHandler \<Rightarrow> GossipAnnouncement" where
  "CreatePeerAttestationAnnouncement marshal T now att action registryID pubKey signFn gh =
     sign_announcement marshal signFn
       ((announcement_envelope T now ''peer_attestation'' action registryID pubKey gh)\<lparr>
          ga_AttesterID := pa_AttesterID att, ga_SubjectID := pa_SubjectID att,
          ga_VerifiedLayers := pa_VerifiedLayers att\<rparr>)"

end
