(* ===== verification/Zns.thy ===== *)
theory Zns
  imports GoStrings
begin

text \<open>
  The Zynd Naming Service (\<open>src/internal/zns\<close>): validation of handles and agent names,
  construction and parsing of fully qualified agent names (FQANs) with version and capability
  qualifiers, and the DNS TXT verifications. The resolver of the DNS checks is a
  parameter, as it is in the sources (\<open>DNSResolver\<close>); \<^term>\<open>None\<close> is a failed lookup.
\<close>

section \<open>Handles and names (validate.go)\<close>

definition handle_char :: "char \<Rightarrow> bool" where
  "handle_char c = (c \<in> set lowerLetters \<or> c \<in> set digits \<or> c = CHR ''-'')"

text \<open>\<open>^[a-z][a-z0-9-]{2,39}$\<close>\<close>

definition handleRegex :: "string \<Rightarrow> bool" where
  "handleRegex s = (case s of
       [] \<Rightarrow> False
     | c # r \<Rightarrow> c \<in> set lowerLetters \<and> 2 \<le> length r \<and> length r \<le> 39 \<and> list_all handle_char r)"

definition reservedHandles :: "string list" where
  "reservedHandles = [''zynd'', ''system'', ''admin'', ''test'', ''root'', ''registry'',
     ''anonymous'', ''unknown'']"

definition ValidateHandle :: "string \<Rightarrow> string option" where
  "ValidateHandle handle =
     (if handle = '''' then Some ''handle is required''
      else if handle \<in> set reservedHandles then Some ''handle is reserved''
      else if \<not> handleRegex handle then Some ''handle must be 3-40 lowercase alphanumeric characters''
      else if HasSuffix handle ''-'' then Some ''handle must not end with a hyphen''
      else if str_Contains handle ''--'' then Some ''handle must not contain consecutive hyphens''
      else None)"

definition ValidateAgentName :: "string \<Rightarrow> string option" where
  "ValidateAgentName name =
     (if name = '''' then Some ''agent name is required''
      else if \<not> handleRegex name then Some ''agent name must be 3-40 lowercase alphanumeric characters''
      else if HasSuffix name ''-'' then Some ''agent name must not end with a hyphen''
      else if str_Contains name ''--'' then Some ''agent name must not contain consecutive hyphens''
      else None)"

definition IsReservedHandle :: "string \<Rightarrow> bool" where
  "IsReservedHandle handle = (handle \<in> set reservedHandles)"

definition BuildFQAN :: "string \<Rightarrow> string \<Rightarrow> string \<Rightarrow> string" where
  "BuildFQAN registryHost devHandle agentName =
     registryHost @ ''/'' @ devHandle @ ''/'' @ agentName"

datatype fqan_error = EmptyFQAN | EmptyCapability | EmptyVersion | EmptyBase | NotThreeParts
  | EmptyHost | BadHandle string | BadAgentName string

text \<open>Cut at the last occurrence of a qualifier mark: what precedes it, the qualifier, and
  whether the qualifier is present but empty.\<close>

definition cut_last :: "string \<Rightarrow> char \<Rightarrow> string \<times> string \<times> bool" where
  "cut_last s c = (case LastIndexByte s c of
       None \<Rightarrow> (s, '''', False)
     | Some idx \<Rightarrow> (take idx s, drop (idx + 1) s, drop (idx + 1) s = ''''))"

definition ParseQualifiedFQAN :: "string \<Rightarrow> fqan_error + (string \<times> string \<times> string)" where
  "ParseQualifiedFQAN fqan0 =
     (if fqan0 = '''' then Inl EmptyFQAN
      else let fqan = TrimPrefix (TrimPrefix fqan0 ''zns://'') ''agdns://'';
               (s1, capability, badCap) = cut_last fqan (CHR ''#'')
           in if badCap then Inl EmptyCapability
              else let (s2, version, badVer) = cut_last s1 (CHR ''@'')
                   in if badVer then Inl EmptyVersion
                      else if s2 = '''' then Inl EmptyBase
                      else Inr (s2, version, capability))"

definition ParseFQAN :: "string \<Rightarrow> fqan_error + (string \<times> string \<times> string)" where
  "ParseFQAN fqan = (case ParseQualifiedFQAN fqan of
       Inl e \<Rightarrow> Inl e
     | Inr (base, _, _) \<Rightarrow>
         (case SplitN base (CHR ''/'') 3 of
            [registryHost, devHandle, agentName] \<Rightarrow>
              if registryHost = '''' then Inl EmptyHost
              else (case ValidateHandle devHandle of
                  Some e \<Rightarrow> Inl (BadHandle e)
                | None \<Rightarrow> (case ValidateAgentName agentName of
                      Some e \<Rightarrow> Inl (BadAgentName e)
                    | None \<Rightarrow> Inr (registryHost, devHandle, agentName)))
          | _ \<Rightarrow> Inl NotThreeParts))"

definition BuildZNSURI :: "string \<Rightarrow> string" where
  "BuildZNSURI fqan = ''zns://'' @ fqan"

definition BuildAgdnsURI :: "string \<Rightarrow> string" where
  "BuildAgdnsURI fqan = BuildZNSURI fqan"

section \<open>DNS verification (dns\_verify.go)\<close>

type_synonym resolver = "string \<Rightarrow> string list option"

datatype dns_error = DomainRequired | KeyRequired | LookupFailed | NoFQAN

definition VerifyDeveloperDNSWithResolver :: "string \<Rightarrow> string \<Rightarrow> resolver \<Rightarrow> dns_error + bool" where
  "VerifyDeveloperDNSWithResolver domain expectedPublicKey resolver =
     (if domain = '''' then Inl DomainRequired
      else if expectedPublicKey = '''' then Inl KeyRequired
      else case resolver (''_zynd-verify.'' @ domain) of
        None \<Rightarrow> Inl LookupFailed
      | Some records \<Rightarrow>
          let cleanExpected = TrimPrefix expectedPublicKey ''ed25519:'' in
          Inr (list_ex (\<lambda>record. TrimPrefix (TrimSpace record) ''ed25519:'' = cleanExpected) records))"

fun txt_field :: "string \<Rightarrow> (string \<rightharpoonup> string) \<Rightarrow> (string \<rightharpoonup> string)" where
  "txt_field part m = (case IndexByte part (CHR ''='') of
       Some idx \<Rightarrow> if idx > 0 then m(take idx part \<mapsto> drop (idx + 1) part) else m
     | None \<Rightarrow> m)"

definition parseZyndTXTRecord :: "string \<Rightarrow> string \<rightharpoonup> string" where
  "parseZyndTXTRecord record = fold txt_field (Fields record) Map.empty"

text \<open>Reading a Go map at a missing key gives the zero value.\<close>

definition map_read :: "(string \<rightharpoonup> string) \<Rightarrow> string \<Rightarrow> string" where
  "map_read m k = (case m k of None \<Rightarrow> '''' | Some v \<Rightarrow> v)"

definition VerifyRegistryDNSWithResolver :: "string \<Rightarrow> string \<Rightarrow> resolver \<Rightarrow> dns_error + bool" where
  "VerifyRegistryDNSWithResolver domain expectedPublicKey resolver =
     (if domain = '''' then Inl DomainRequired
      else if expectedPublicKey = '''' then Inl KeyRequired
      else case resolver (''_zynd.'' @ domain) of
        None \<Rightarrow> Inl LookupFailed
      | Some records \<Rightarrow>
          let cleanExpected = TrimPrefix expectedPublicKey ''ed25519:'' in
          Inr (list_ex (\<lambda>record. let fields = parseZyndTXTRecord record in
                 map_read fields ''v'' = ''zynd1'' \<and>
                 TrimPrefix (map_read fields ''key'') ''ed25519:'' = cleanExpected) records))"

fun first_fqan :: "string list \<Rightarrow> dns_error + string" where
  "first_fqan [] = Inl NoFQAN"
| "first_fqan (record # rs) =
     (let fqan = map_read (parseZyndTXTRecord record) ''fqan'' in
      if fqan \<noteq> '''' then Inr fqan else first_fqan rs)"

definition ResolveDNSBridgeWithResolver :: "string \<Rightarrow> resolver \<Rightarrow> dns_error + string" where
  "ResolveDNSBridgeWithResolver domain resolver =
     (if domain = '''' then Inl DomainRequired
      else case resolver (''_zynd.'' @ domain) of
        None \<Rightarrow> Inl LookupFailed
      | Some records \<Rightarrow> first_fqan records)"

section \<open>The language of handles\<close>

text \<open>Splitting at every occurrence of a character.\<close>

fun split_on :: "char \<Rightarrow> string \<Rightarrow> string list" where
  "split_on c [] = [[]]"
| "split_on c (x # xs) = (if x = c then [] # split_on c xs
     else (x # hd (split_on c xs)) # tl (split_on c xs))"

lemma split_on_Cons: "split_on c s = hd (split_on c s) # tl (split_on c s)"
  by (cases s) auto

lemma split_on_labels:
  "(\<forall>p\<in>set (split_on c s). p \<noteq> []) \<longleftrightarrow>
     s \<noteq> [] \<and> hd s \<noteq> c \<and> last s \<noteq> c \<and> \<not> str_Contains s [c, c]"
proof (induction s rule: induct_list012)
  case (3 x y zs)
  show ?case
  proof (cases "x = c")
    case neq: False
    show ?thesis
    proof (cases "y = c")
      case True
      then show ?thesis using neq 3(1) by (cases zs) (auto simp: HasPrefix_def)
    next
      case False
      then have "(\<forall>p\<in>set (split_on c (x # y # zs)). p \<noteq> []) \<longleftrightarrow>
          (\<forall>p\<in>set (split_on c (y # zs)). p \<noteq> [])"
        using neq by simp
      then show ?thesis using 3(2) neq False by (auto simp: HasPrefix_def)
    qed
  qed simp
qed (simp_all add: HasPrefix_def)

lemma set_split_on: "x \<in> set s \<and> x \<noteq> c \<longleftrightarrow> (\<exists>p\<in>set (split_on c s). x \<in> set p)"
proof (induction s)
  case (Cons y s)
  show ?case
  proof (cases "y = c")
    case False
    have "set (split_on c s) = insert (hd (split_on c s)) (set (tl (split_on c s)))"
      by (metis list.simps(15) split_on_Cons)
    then show ?thesis using Cons False by auto
  qed (use Cons in auto)
qed simp

definition alnum :: "char \<Rightarrow> bool" where
  "alnum c = (c \<in> set lowerLetters \<or> c \<in> set digits)"

lemma hyphen_not_alnum [simp]: "\<not> alnum (CHR ''-'')"
  by (simp add: alnum_def lowerLetters_def digits_def)

lemma HasSuffix_char: "s \<noteq> [] \<Longrightarrow> HasSuffix s [c] \<longleftrightarrow> last s = c"
  by (cases s rule: rev_cases) (auto simp: HasSuffix_def)

lemma letter_not_hyphen: "c \<in> set lowerLetters \<Longrightarrow> c \<noteq> CHR ''-'' \<and> c \<noteq> CHR ''/'' \<and> handle_char c"
  by (auto simp: lowerLetters_def handle_char_def)

lemma handleRegex_iff:
  "handleRegex s \<longleftrightarrow> 3 \<le> length s \<and> length s \<le> 40 \<and> hd s \<in> set lowerLetters \<and> list_all handle_char s"
  by (cases s) (auto simp: handleRegex_def letter_not_hyphen)

lemma name_language:
  assumes "s \<noteq> []"
  shows "handleRegex s \<and> \<not> HasSuffix s ''-'' \<and> \<not> str_Contains s ''--'' \<longleftrightarrow>
    3 \<le> length s \<and> length s \<le> 40 \<and> hd s \<in> set lowerLetters \<and>
    (\<forall>label\<in>set (split_on (CHR ''-'') s). label \<noteq> [] \<and> list_all alnum label)"
proof -
  have "list_all handle_char s \<longleftrightarrow> (\<forall>label\<in>set (split_on (CHR ''-'') s). list_all alnum label)"
  proof -
    have "list_all handle_char s \<longleftrightarrow> (\<forall>x. x \<in> set s \<and> x \<noteq> CHR ''-'' \<longrightarrow> alnum x)"
      by (auto simp: list_all_iff handle_char_def alnum_def)
    then show ?thesis unfolding set_split_on by (auto simp: list_all_iff)
  qed
  moreover have "(\<forall>label\<in>set (split_on (CHR ''-'') s). label \<noteq> []) \<longleftrightarrow>
      hd s \<noteq> CHR ''-'' \<and> \<not> HasSuffix s ''-'' \<and> \<not> str_Contains s ''--''"
    using split_on_labels[of "CHR ''-''" s] assms by (simp add: HasSuffix_char)
  ultimately show ?thesis
    unfolding handleRegex_iff using letter_not_hyphen by blast
qed

section \<open>Qualified names\<close>

lemma valid_name_chars:
  assumes "ValidateAgentName n = None \<or> ValidateHandle n = None"
  shows "n \<noteq> []" "CHR ''/'' \<notin> set n" "CHR ''@'' \<notin> set n" "CHR ''#'' \<notin> set n"
    "hd n \<in> set lowerLetters"
proof -
  have r: "n \<noteq> []" "handleRegex n"
    using assms by (auto simp: ValidateAgentName_def ValidateHandle_def split: if_splits)
  then show "n \<noteq> []" "hd n \<in> set lowerLetters" by (auto simp: handleRegex_iff)
  have "\<not> handle_char (CHR ''/'')" "\<not> handle_char (CHR ''@'')" "\<not> handle_char (CHR ''#'')"
    by (simp_all add: handle_char_def lowerLetters_def digits_def)
  then show "CHR ''/'' \<notin> set n" "CHR ''@'' \<notin> set n" "CHR ''#'' \<notin> set n"
    using r(2) by (auto simp: handleRegex_iff list_all_iff)
qed

text \<open>Registry hosts have no separator character.\<close>

definition plain_host :: "string \<Rightarrow> bool" where
  "plain_host h = (h \<noteq> [] \<and> CHR ''/'' \<notin> set h \<and> CHR ''@'' \<notin> set h \<and> CHR ''#'' \<notin> set h)"

lemma no_scheme_prefix:
  assumes "plain_host h" "d \<noteq> []" "hd d \<noteq> CHR ''/''" "CHR ''/'' \<notin> set p"
  shows "TrimPrefix (h @ ''/'' @ d @ r) (p @ ''://'') = h @ ''/'' @ d @ r"
proof -
  have "\<not> HasPrefix (h @ ''/'' @ d @ r) (p @ ''://'')"
  proof
    assume "HasPrefix (h @ ''/'' @ d @ r) (p @ ''://'')"
    then obtain t where "h @ CHR ''/'' # (d @ r) = (p @ '':'') @ CHR ''/'' # (CHR ''/'' # t)"
      by (auto simp: HasPrefix_iff)
    moreover have "CHR ''/'' \<notin> set (p @ '':'')" "CHR ''/'' \<notin> set h"
      using assms by (auto simp: plain_host_def)
    ultimately have "d @ r = CHR ''/'' # t"
      using append_Cons_eq_iff[of "CHR ''/''" h "d @ r" "p @ '':''" "CHR ''/'' # t"]
      by (metis IndexByte_append append_eq_append_conv list.inject option.inject)
    then show False using assms(2,3) by (cases d) auto
  qed
  then show ?thesis by (simp add: TrimPrefix_def)
qed

lemma strip_schemes_FQAN:
  assumes "plain_host h" "d \<noteq> []" "hd d \<noteq> CHR ''/''"
  shows "TrimPrefix (TrimPrefix (h @ ''/'' @ d @ r) ''zns://'') ''agdns://'' = h @ ''/'' @ d @ r"
    "TrimPrefix (TrimPrefix (BuildZNSURI (h @ ''/'' @ d @ r)) ''zns://'') ''agdns://'' = h @ ''/'' @ d @ r"
  using no_scheme_prefix[OF assms, of "''zns''" r] no_scheme_prefix[OF assms, of "''agdns''" r]
    TrimPrefix_append[of "''zns://''" "h @ ''/'' @ d @ r"]
  by (simp_all add: BuildZNSURI_def)

lemma cut_last_append:
  assumes "c \<notin> set base" "c \<notin> set q"
  shows "cut_last (base @ (if q = [] then [] else c # q)) c = (base, q, False)"
  using assms by (cases "q = []") (simp_all add: cut_last_def LastIndexByte_append)

lemma cut_last_props:
  assumes "cut_last s c = (b, q, e)"
  shows "c \<notin> set q" "s = b @ (if q = [] \<and> \<not> e then [] else c # q)" "e \<Longrightarrow> q = []"
  using assms LastIndexByte_Some[of s c] unfolding cut_last_def
  by (cases "LastIndexByte s c"; force)+

lemma ParseQualified_core:
  assumes "fqan0 \<noteq> []"
    "TrimPrefix (TrimPrefix fqan0 ''zns://'') ''agdns://'' =
       (base @ (if v = [] then [] else CHR ''@'' # v)) @ (if c = [] then [] else CHR ''#'' # c)"
    "base \<noteq> []" "CHR ''@'' \<notin> set base" "CHR ''#'' \<notin> set base"
    "CHR ''@'' \<notin> set v" "CHR ''#'' \<notin> set v" "CHR ''#'' \<notin> set c"
  shows "ParseQualifiedFQAN fqan0 = Inr (base, v, c)"
proof -
  have "CHR ''#'' \<notin> set (base @ (if v = [] then [] else CHR ''@'' # v))" using assms by auto
  note cap = cut_last_append[OF this assms(8)]
  note ver = cut_last_append[OF assms(4,6)]
  show ?thesis
    unfolding ParseQualifiedFQAN_def Let_def assms(2) cap prod.case ver using assms(1,3) by simp
qed

lemma SplitN_FQAN:
  assumes "CHR ''/'' \<notin> set h" "CHR ''/'' \<notin> set d" "CHR ''/'' \<notin> set a"
  shows "SplitN (BuildFQAN h d a) (CHR ''/'') 3 = [h, d, a]"
  using SplitN_step[OF assms(1), of 3 "d @ CHR ''/'' # a"] SplitN_step[OF assms(2), of 2 a]
    SplitN_none[OF assms(3)]
  by (simp add: BuildFQAN_def)

lemma ParseFQAN_of_qualified:
  assumes "ParseQualifiedFQAN s = Inr (BuildFQAN h d a, v, c)" "plain_host h"
    "ValidateHandle d = None" "ValidateAgentName a = None"
  shows "ParseFQAN s = Inr (h, d, a)"
  using assms SplitN_FQAN[of h d a] valid_name_chars[of d] valid_name_chars[of a]
  by (simp add: ParseFQAN_def plain_host_def)

section \<open>Properties\<close>

text \<open>A fully qualified agent name can be taken apart again. For a registry host without
  separator characters, a valid developer handle and a valid agent name, parsing the built name
  returns the three parts; with an optional version and capability qualifier appended, and with
  the \<open>zns://\<close> scheme in front, it returns the same parts, and the qualifiers are recovered.\<close>

theorem fqan_roundtrip:
  assumes "plain_host h" "ValidateHandle d = None" "ValidateAgentName a = None"
    "CHR ''@'' \<notin> set v" "CHR ''#'' \<notin> set v" "CHR ''#'' \<notin> set c"
  defines "q \<equiv> BuildFQAN h d a @ (if v = [] then [] else CHR ''@'' # v) @
     (if c = [] then [] else CHR ''#'' # c)"
  shows "ParseQualifiedFQAN q = Inr (BuildFQAN h d a, v, c) \<and> ParseFQAN q = Inr (h, d, a) \<and>
    ParseQualifiedFQAN (BuildZNSURI q) = Inr (BuildFQAN h d a, v, c) \<and>
    ParseFQAN (BuildZNSURI q) = Inr (h, d, a)"
proof -
  note dc = valid_name_chars[of d] and ac = valid_name_chars[of a]
  have hd: "d \<noteq> []" "hd d \<noteq> CHR ''/''"
    using dc assms(2) letter_not_hyphen by auto
  let ?r = "''/'' @ a @ (if v = [] then [] else CHR ''@'' # v) @ (if c = [] then [] else CHR ''#'' # c)"
  have q: "q = h @ ''/'' @ d @ ?r" by (simp add: q_def BuildFQAN_def)
  have q': "h @ ''/'' @ d @ ?r = (BuildFQAN h d a @ (if v = [] then [] else CHR ''@'' # v)) @
      (if c = [] then [] else CHR ''#'' # c)"
    by (simp add: BuildFQAN_def)
  note s = strip_schemes_FQAN[OF assms(1) hd, of ?r, unfolded q']
  have base: "BuildFQAN h d a \<noteq> []" "CHR ''@'' \<notin> set (BuildFQAN h d a)" "CHR ''#'' \<notin> set (BuildFQAN h d a)"
    using dc ac assms(1-3) by (auto simp: BuildFQAN_def plain_host_def)
  have "q \<noteq> []" "BuildZNSURI q \<noteq> []" by (simp_all add: q BuildZNSURI_def)
  then have "ParseQualifiedFQAN q = Inr (BuildFQAN h d a, v, c)"
    "ParseQualifiedFQAN (BuildZNSURI q) = Inr (BuildFQAN h d a, v, c)"
    using ParseQualified_core[OF _ s(1) base assms(4-6)] ParseQualified_core[OF _ s(2) base assms(4-6)]
    by (simp_all add: q_def)
  then show ?thesis using ParseFQAN_of_qualified assms(1-3) by blast
qed

theorem fqan_roundtrip_witness:
  "ParseFQAN ''dns01.zynd.ai/acme-corp/doc-translator@2.1.0#nlp'' =
     Inr (''dns01.zynd.ai'', ''acme-corp'', ''doc-translator'')"
proof -
  have "ValidateHandle ''acme-corp'' = None" "ValidateAgentName ''doc-translator'' = None"
    "plain_host ''dns01.zynd.ai''"
    by (simp_all add: ValidateHandle_def ValidateAgentName_def reservedHandles_def handleRegex_def
        handle_char_def lowerLetters_def digits_def HasSuffix_def HasPrefix_def plain_host_def)
  then show ?thesis
    using fqan_roundtrip[of "''dns01.zynd.ai''" "''acme-corp''" "''doc-translator''" "''2.1.0''" "''nlp''"]
    by (simp add: BuildFQAN_def)
qed

lemma SplitN_cut:
  assumes "SplitN s c (Suc (Suc n)) = p # q # r"
  shows "c \<notin> set p \<and> (\<exists>t. s = p @ c # t \<and> SplitN t c (Suc n) = q # r)"
proof (cases "IndexByte s c")
  case (Some i)
  then have "p = take i s" "SplitN (drop (Suc i) s) c (Suc n) = q # r"
    using assms SplitN.simps[of s c "Suc (Suc n)"] by simp_all
  then show ?thesis using IndexByte_Some[OF Some] by blast
qed (use assms SplitN.simps[of s c "Suc (Suc n)"] in simp)

lemma ParseQualifiedFQAN_sound:
  assumes "ParseQualifiedFQAN s = Inr (base, v, c)"
  shows "TrimPrefix (TrimPrefix s ''zns://'') ''agdns://'' =
    base @ (if v = [] then [] else CHR ''@'' # v) @ (if c = [] then [] else CHR ''#'' # c)"
proof -
  obtain s1 c' bc where c1: "cut_last (TrimPrefix (TrimPrefix s ''zns://'') ''agdns://'') (CHR ''#'') = (s1, c', bc)"
    by (rule prod_cases3)
  obtain s2 v' bv where c2: "cut_last s1 (CHR ''@'') = (s2, v', bv)" by (rule prod_cases3)
  have "\<not> bc" "\<not> bv" "s2 = base" "v' = v" "c' = c"
    using assms c1 c2 by (auto simp: ParseQualifiedFQAN_def Let_def split: if_splits)
  then show ?thesis using cut_last_props(2)[OF c1] cut_last_props(2)[OF c2] by simp
qed

text \<open>The parser accepts only well-formed names: a parsed name has a non-empty host without
  a slash, a valid handle and a valid agent name, and it is the base of the input, which is the
  base followed by the qualifiers after an optional scheme.\<close>

theorem parse_fqan_sound:
  assumes "ParseFQAN s = Inr (h, d, a)"
  shows "h \<noteq> [] \<and> CHR ''/'' \<notin> set h \<and> ValidateHandle d = None \<and> ValidateAgentName a = None \<and>
    (\<exists>v c. ParseQualifiedFQAN s = Inr (BuildFQAN h d a, v, c) \<and>
      TrimPrefix (TrimPrefix s ''zns://'') ''agdns://'' =
        BuildFQAN h d a @ (if v = [] then [] else CHR ''@'' # v) @ (if c = [] then [] else CHR ''#'' # c))"
proof -
  obtain base v c where q: "ParseQualifiedFQAN s = Inr (base, v, c)"
    using assms by (auto simp: ParseFQAN_def split: sum.splits)
  then have sp: "SplitN base (CHR ''/'') 3 = [h, d, a]" and
    ok: "h \<noteq> []" "ValidateHandle d = None" "ValidateAgentName a = None"
    using assms by (auto simp: ParseFQAN_def split: list.splits option.splits if_splits)
  have "\<exists>t. base = h @ CHR ''/'' # t \<and> SplitN t (CHR ''/'') 2 = [d, a] \<and> CHR ''/'' \<notin> set h"
    using SplitN_cut[of base "CHR ''/''" 1 h d "[a]"] sp by (auto simp: numeral_eq_Suc)
  then obtain t where t: "base = h @ CHR ''/'' # t" "SplitN t (CHR ''/'') 2 = [d, a]"
    "CHR ''/'' \<notin> set h" by blast
  have "t = d @ CHR ''/'' # a"
    using SplitN_cut[of t "CHR ''/''" 0 d a "[]"] t(2) by (auto simp: numeral_eq_Suc SplitN_last)
  then have "base = BuildFQAN h d a" using t(1) by (simp add: BuildFQAN_def)
  then show ?thesis using q ok t(3) ParseQualifiedFQAN_sound[OF q] by blast
qed

theorem parse_fqan_sound_witness:
  "\<exists>v c. ParseQualifiedFQAN ''h/dev/bot'' = Inr (BuildFQAN ''h'' ''dev'' ''bot'', v, c)"
proof -
  have v: "ValidateHandle ''dev'' = None" "ValidateAgentName ''bot'' = None" "plain_host ''h''"
    by (simp_all add: ValidateHandle_def ValidateAgentName_def reservedHandles_def handleRegex_def
        handle_char_def lowerLetters_def digits_def HasSuffix_def HasPrefix_def plain_host_def)
  have "ParseQualifiedFQAN ''h/dev/bot'' = Inr (BuildFQAN ''h'' ''dev'' ''bot'', '''', '''')"
    by (rule ParseQualified_core)
      (simp_all add: BuildFQAN_def TrimPrefix_def HasPrefix_def)
  then have "ParseFQAN ''h/dev/bot'' = Inr (''h'', ''dev'', ''bot'')"
    using ParseFQAN_of_qualified v by blast
  from parse_fqan_sound[OF this] show ?thesis by blast
qed

text \<open>The valid handles are exactly the names of 3 to 40 characters that start with a
  lower-case letter, are made of non-empty alphanumeric labels separated by single hyphens, and
  are not reserved; an agent name follows the same rules without the reserved list.\<close>

theorem handle_language:
  "(ValidateHandle s = None \<longleftrightarrow>
     3 \<le> length s \<and> length s \<le> 40 \<and> hd s \<in> set lowerLetters \<and> \<not> IsReservedHandle s \<and>
     (\<forall>label\<in>set (split_on (CHR ''-'') s). label \<noteq> [] \<and> list_all alnum label)) \<and>
   (ValidateAgentName s = None \<longleftrightarrow>
     3 \<le> length s \<and> length s \<le> 40 \<and> hd s \<in> set lowerLetters \<and>
     (\<forall>label\<in>set (split_on (CHR ''-'') s). label \<noteq> [] \<and> list_all alnum label))"
proof (cases "s = []")
  case False
  have "ValidateHandle s = None \<longleftrightarrow> \<not> IsReservedHandle s \<and>
      handleRegex s \<and> \<not> HasSuffix s ''-'' \<and> \<not> str_Contains s ''--''"
    using False by (simp add: ValidateHandle_def IsReservedHandle_def)
  moreover have "ValidateAgentName s = None \<longleftrightarrow>
      handleRegex s \<and> \<not> HasSuffix s ''-'' \<and> \<not> str_Contains s ''--''"
    using False by (simp add: ValidateAgentName_def)
  ultimately show ?thesis unfolding name_language[OF False] by blast
qed (simp add: ValidateHandle_def ValidateAgentName_def)

theorem handle_language_witness:
  "ValidateHandle ''acme-corp'' = None \<and> ValidateHandle ''acme--corp'' \<noteq> None \<and>
   ValidateHandle ''admin'' \<noteq> None \<and> ValidateAgentName ''admin'' = None"
  using handle_language[of "''acme-corp''"] handle_language[of "''acme--corp''"]
    handle_language[of "''admin''"]
  by (simp add: IsReservedHandle_def reservedHandles_def lowerLetters_def digits_def alnum_def)

section \<open>DNS verification\<close>

text \<open>The TXT record a registry publishes.\<close>

definition published_record :: "string \<Rightarrow> string \<Rightarrow> string" where
  "published_record rid key = ''v=zynd1 id='' @ rid @ '' key='' @ key"

abbreviation spaceless :: "string \<Rightarrow> bool" where
  "spaceless w \<equiv> \<forall>c\<in>set w. \<not> is_space c"

lemma Fields_published:
  assumes "spaceless rid" "spaceless key"
  shows "Fields (published_record rid key) = [''v=zynd1'', ''id='' @ rid, ''key='' @ key]"
proof -
  have "Fields (''v=zynd1'' @ CHR '' '' # (''id='' @ rid @ '' key='' @ key)) =
      ''v=zynd1'' # Fields ((''id='' @ rid) @ CHR '' '' # (''key='' @ key))"
    by (subst Fields_word_space) (auto simp: is_space_def)
  also have "\<dots> = [''v=zynd1'', ''id='' @ rid, ''key='' @ key]"
    using assms Fields_word_space[of "''id='' @ rid" "CHR '' ''" "''key='' @ key"]
      Fields_word[of "''key='' @ key"]
    by (auto simp: is_space_def)
  finally show ?thesis by (simp add: published_record_def)
qed

text \<open>DNS verification of a registry succeeds exactly when some TXT record of \<open>_zynd.domain\<close>
  carries version \<open>zynd1\<close> and the expected key, compared without the \<open>ed25519:\<close> prefix; in
  particular the record format the registries publish is recognised, whatever else is published
  beside it, and a failed lookup is an error and never a success.\<close>

theorem registry_dns_verification:
  assumes "domain \<noteq> []" "expected \<noteq> []"
  shows "(VerifyRegistryDNSWithResolver domain expected resolver = Inr True \<longleftrightarrow>
      (\<exists>records record. resolver (''_zynd.'' @ domain) = Some records \<and> record \<in> set records \<and>
         map_read (parseZyndTXTRecord record) ''v'' = ''zynd1'' \<and>
         TrimPrefix (map_read (parseZyndTXTRecord record) ''key'') ''ed25519:'' =
           TrimPrefix expected ''ed25519:'')) \<and>
    (spaceless rid \<longrightarrow> spaceless expected \<longrightarrow>
      resolver (''_zynd.'' @ domain) = Some (others @ published_record rid expected # more) \<longrightarrow>
      VerifyRegistryDNSWithResolver domain expected resolver = Inr True)"
proof -
  have iff: "VerifyRegistryDNSWithResolver domain expected resolver = Inr True \<longleftrightarrow>
      (\<exists>records record. resolver (''_zynd.'' @ domain) = Some records \<and> record \<in> set records \<and>
         map_read (parseZyndTXTRecord record) ''v'' = ''zynd1'' \<and>
         TrimPrefix (map_read (parseZyndTXTRecord record) ''key'') ''ed25519:'' =
           TrimPrefix expected ''ed25519:'')"
    using assms by (auto simp: VerifyRegistryDNSWithResolver_def Let_def list_ex_iff split: option.splits)
  moreover have "map_read (parseZyndTXTRecord (published_record rid expected)) ''v'' = ''zynd1''"
    "map_read (parseZyndTXTRecord (published_record rid expected)) ''key'' = expected"
    if "spaceless rid" "spaceless expected"
    unfolding parseZyndTXTRecord_def Fields_published[OF that] by (simp_all add: map_read_def)
  ultimately show ?thesis by auto
qed

theorem registry_dns_verification_witness:
  "VerifyRegistryDNSWithResolver ''zynd.ai'' ''ed25519:QUJD''
     (\<lambda>_. Some [''other=1'', published_record ''zns:registry:0a'' ''ed25519:QUJD'']) = Inr True"
  using registry_dns_verification[of "''zynd.ai''" "''ed25519:QUJD''"
      "\<lambda>_. Some [''other=1'', published_record ''zns:registry:0a'' ''ed25519:QUJD'']"
      "''zns:registry:0a''" "[''other=1'']" "[]"]
  by (simp add: is_space_def)

end
