(* ===== verification/Bloom.thy ===== *)
theory Bloom
  imports Complex_Main GoStrings Store
begin

text \<open>
  The Bloom filters of the mesh (\<open>src/internal/mesh/bloom.go\<close>) and the tokens they hold
  (\<open>tokenize\<close>, \<open>rebuildBloom\<close> of \<open>heartbeat.go\<close>, \<open>tokenizeQuery\<close> of \<open>federated.go\<close>). A panic
  (index out of range, remainder by zero) is \<^term>\<open>None\<close>. Go's \<open>uint\<close> is a natural number
  with the wrap-around at 64 bits written out; \<open>float64\<close> is read as the reals.
\<close>

unbundle bit_operations_syntax

section \<open>The filter\<close>

record BloomFilter =
  bf_bits :: "bool list"
  bf_size :: nat
  bf_hashNum :: nat

definition NewBloomFilter :: "int \<Rightarrow> real \<Rightarrow> BloomFilter" where
  "NewBloomFilter expectedItems fpRate =
     (let n = (if expectedItems \<le> 0 then 1000 else expectedItems);
          p = (if fpRate \<le> 0 \<or> fpRate \<ge> 1 then 0.01 else fpRate);
          m = nat \<lceil>- real_of_int n * ln p / (ln 2 * ln 2)\<rceil>;
          k = nat \<lceil>real m / real_of_int n * ln 2\<rceil>;
          k = (if k < 1 then 1 else k);
          k = (if k > 30 then 30 else k)
      in \<lparr>bf_bits = replicate m False, bf_size = m, bf_hashNum = k\<rparr>)"

definition hash1 :: "BloomFilter \<Rightarrow> byte list \<Rightarrow> nat" where
  "hash1 bf data = unat (fnv1a_64 data) mod bf_size bf"

definition hash2 :: "BloomFilter \<Rightarrow> byte list \<Rightarrow> nat" where
  "hash2 bf data = (let result = unat (fnv1_64 data) mod bf_size bf in if result = 0 then 1 else result)"

definition indices :: "BloomFilter \<Rightarrow> byte list \<Rightarrow> nat list option" where
  "indices bf data =
     (if bf_size bf = 0 then None
      else Some (map (\<lambda>i. ((hash1 bf data + i * hash2 bf data) mod 2 ^ 64) mod bf_size bf) [0..<bf_hashNum bf]))"

fun set_all :: "nat list \<Rightarrow> bool list \<Rightarrow> bool list option" where
  "set_all [] bits = Some bits"
| "set_all (i # js) bits = (if i < length bits then set_all js (bits[i := True]) else None)"

fun test_all :: "nat list \<Rightarrow> bool list \<Rightarrow> bool option" where
  "test_all [] bits = Some True"
| "test_all (i # js) bits =
     (if i \<ge> length bits then None else if \<not> bits ! i then Some False else test_all js bits)"

definition bf_Add :: "string \<Rightarrow> BloomFilter \<Rightarrow> BloomFilter option" where
  "bf_Add item bf = do {
     idxs \<leftarrow> indices bf (string_bytes item);
     bits \<leftarrow> set_all idxs (bf_bits bf);
     Some (bf\<lparr>bf_bits := bits\<rparr>) }"

definition bf_Contains :: "string \<Rightarrow> BloomFilter \<Rightarrow> bool option" where
  "bf_Contains item bf = do { idxs \<leftarrow> indices bf (string_bytes item); test_all idxs (bf_bits bf) }"

fun MatchCount :: "string list \<Rightarrow> BloomFilter \<Rightarrow> nat option" where
  "MatchCount [] bf = Some 0"
| "MatchCount (item # items) bf = do {
     c \<leftarrow> bf_Contains item bf;
     n \<leftarrow> MatchCount items bf;
     Some ((if c then 1 else 0) + n) }"

definition write_bit :: "bool list \<Rightarrow> nat \<Rightarrow> byte list \<Rightarrow> byte list" where
  "write_bit bits i data =
     (if bits ! i then data[i div 8 := data ! (i div 8) OR push_bit (i mod 8) 1] else data)"

definition bf_Bytes :: "BloomFilter \<Rightarrow> byte list" where
  "bf_Bytes bf = fold (write_bit (bf_bits bf)) [0..<length (bf_bits bf)]
     (replicate ((length (bf_bits bf) + 7) div 8) 0)"

definition FromBytes :: "byte list \<Rightarrow> BloomFilter \<Rightarrow> BloomFilter" where
  "FromBytes data bf = bf\<lparr>bf_bits := map (\<lambda>i. i div 8 < length data \<and>
     data ! (i div 8) AND push_bit (i mod 8) 1 \<noteq> 0) [0..<length (bf_bits bf)]\<rparr>"

definition bf_Clear :: "BloomFilter \<Rightarrow> BloomFilter" where
  "bf_Clear bf = bf\<lparr>bf_bits := map (\<lambda>_. False) (bf_bits bf)\<rparr>"

section \<open>Tokens\<close>

definition isAlphaNum :: "char \<Rightarrow> bool" where
  "isAlphaNum c = (let b = (of_char c :: nat) in
     97 \<le> b \<and> b \<le> 122 \<or> 65 \<le> b \<and> b \<le> 90 \<or> 48 \<le> b \<and> b \<le> 57)"

definition flush :: "string \<Rightarrow> string list \<Rightarrow> string list" where
  "flush current tokens = (if length current \<ge> 2 then tokens @ [ToLower current] else tokens)"

fun tokenize_loop :: "string \<Rightarrow> string \<Rightarrow> string list \<Rightarrow> string list" where
  "tokenize_loop [] current tokens = flush current tokens"
| "tokenize_loop (c # text) current tokens =
     (if isAlphaNum c \<or> c = CHR ''-'' \<or> c = CHR ''_'' then tokenize_loop text (current @ [c]) tokens
      else tokenize_loop text [] (flush current tokens))"

definition tokenize :: "string \<Rightarrow> string list" where
  "tokenize text = tokenize_loop text [] []"

definition tokenizeQuery :: "string \<Rightarrow> string \<Rightarrow> string list \<Rightarrow> string list" where
  "tokenizeQuery query category tags = map ToLower (tokenize query) @
     (if category \<noteq> '''' then [ToLower category] else []) @ map ToLower tags"

definition record_tokens :: "string \<Rightarrow> string \<Rightarrow> string list \<Rightarrow> string \<Rightarrow> string list" where
  "record_tokens name category tags summary = map ToLower (tokenize name) @ [ToLower category] @
     map ToLower tags @ map ToLower (tokenize summary)"

fun add_all :: "string list \<Rightarrow> BloomFilter \<Rightarrow> BloomFilter option" where
  "add_all [] bf = Some bf"
| "add_all (item # items) bf = do { bf' \<leftarrow> bf_Add item bf; add_all items bf' }"

text \<open>\<open>rebuildBloom\<close>: the answers of \<open>ListEntities\<close> and \<open>SearchGossipByKeyword\<close> are arguments; an
  error leaves out that half.\<close>

definition rebuildBloom ::
  "int \<Rightarrow> real \<Rightarrow> 'e + RegistryRecord list \<Rightarrow> 'e + GossipEntry list \<Rightarrow> BloomFilter option" where
  "rebuildBloom expectedTokens fpRate agents entries =
     add_all
       ((case agents of Inl _ \<Rightarrow> [] | Inr as \<Rightarrow> concat (map (\<lambda>a.
            record_tokens (rr_Name a) (rr_Category a) (rr_Tags a) (rr_Summary a)) as)) @
        (case entries of Inl _ \<Rightarrow> [] | Inr es \<Rightarrow> concat (map (\<lambda>e.
            record_tokens (ge_Name e) (ge_Category e) (ge_Tags e) (ge_Summary e)) es)))
       (NewBloomFilter expectedTokens fpRate)"

section \<open>Lemmas\<close>

definition bf_ok :: "BloomFilter \<Rightarrow> bool" where
  "bf_ok bf = (length (bf_bits bf) = bf_size bf \<and> 0 < bf_size bf)"

lemma NewBloomFilter_ok: "bf_ok (NewBloomFilter n p)"
proof -
  define n' where "n' = (if n \<le> 0 then 1000 else n)"
  define p' where "p' = (if p \<le> 0 \<or> p \<ge> 1 then 0.01 else p)"
  have "0 < real_of_int n'" "0 < p'" "p' < 1" by (auto simp: n'_def p'_def)
  then have "0 < - real_of_int n' * ln p' / (ln 2 * ln 2)"
    by (simp add: divide_neg_pos mult_pos_neg)
  then have "0 < nat \<lceil>- real_of_int n' * ln p' / (ln 2 * ln 2)\<rceil>" by (simp only: zero_less_nat_eq zero_less_ceiling)
  then show ?thesis
    unfolding NewBloomFilter_def Let_def bf_ok_def n'_def p'_def by simp
qed

lemma indices_ok:
  "bf_ok bf \<Longrightarrow> \<exists>idxs. indices bf data = Some idxs \<and> (\<forall>i\<in>set idxs. i < length (bf_bits bf))"
  by (auto simp: bf_ok_def indices_def)

lemma indices_bits [simp]: "indices (bf\<lparr>bf_bits := bits\<rparr>) data = indices bf data"
  by (simp add: indices_def hash1_def hash2_def)

lemma set_all_ok:
  "(\<forall>i\<in>set idxs. i < length bits) \<Longrightarrow> \<exists>bits'. set_all idxs bits = Some bits' \<and> length bits' = length bits \<and>
    (\<forall>j<length bits. bits' ! j \<longleftrightarrow> bits ! j \<or> j \<in> set idxs)"
proof (induction idxs arbitrary: bits)
  case (Cons i idxs)
  then obtain bits' where "set_all idxs (bits[i := True]) = Some bits'" "length bits' = length bits"
    "\<forall>j<length bits. bits' ! j \<longleftrightarrow> bits[i := True] ! j \<or> j \<in> set idxs"
    using Cons.IH[of "bits[i := True]"] by auto
  then show ?case using Cons.prems by (auto simp: nth_list_update)
qed simp

lemma test_all_iff:
  "(\<forall>i\<in>set idxs. i < length bits) \<Longrightarrow> test_all idxs bits = Some (\<forall>i\<in>set idxs. bits ! i)"
  by (induction idxs) auto

lemma bf_Add_ok:
  assumes "bf_ok bf"
  shows "\<exists>bf'. bf_Add item bf = Some bf' \<and> bf_ok bf' \<and> bf_Contains item bf' = Some True \<and>
    bf_size bf' = bf_size bf \<and> bf_hashNum bf' = bf_hashNum bf \<and>
    (\<forall>y. bf_Contains y bf = Some True \<longrightarrow> bf_Contains y bf' = Some True)"
proof -
  obtain idxs where i: "indices bf (string_bytes item) = Some idxs" "\<forall>i\<in>set idxs. i < length (bf_bits bf)"
    using indices_ok[OF assms] by blast
  obtain bits where b: "set_all idxs (bf_bits bf) = Some bits" "length bits = length (bf_bits bf)"
    "\<forall>j<length (bf_bits bf). bits ! j \<longleftrightarrow> bf_bits bf ! j \<or> j \<in> set idxs"
    using set_all_ok[OF i(2)] by blast
  have "bf_Contains y (bf\<lparr>bf_bits := bits\<rparr>) = Some True" if "bf_Contains y bf = Some True" for y
  proof -
    obtain js where "indices bf (string_bytes y) = Some js" "\<forall>i\<in>set js. i < length (bf_bits bf)"
      using indices_ok[OF assms] by blast
    then show ?thesis using that b by (simp add: bf_Contains_def test_all_iff)
  qed
  moreover have "bf_Contains item (bf\<lparr>bf_bits := bits\<rparr>) = Some True"
    using i b by (simp add: bf_Contains_def test_all_iff)
  ultimately show ?thesis using i b assms by (simp add: bf_Add_def bf_ok_def)
qed

lemma add_all_ok:
  "bf_ok bf \<Longrightarrow> \<exists>bf'. add_all items bf = Some bf' \<and> bf_ok bf' \<and>
    bf_size bf' = bf_size bf \<and> bf_hashNum bf' = bf_hashNum bf \<and>
    (\<forall>y. y \<in> set items \<or> bf_Contains y bf = Some True \<longrightarrow> bf_Contains y bf' = Some True)"
proof (induction items arbitrary: bf)
  case (Cons item items)
  obtain bf1 where 1: "bf_Add item bf = Some bf1" "bf_ok bf1" "bf_Contains item bf1 = Some True"
    "bf_size bf1 = bf_size bf" "bf_hashNum bf1 = bf_hashNum bf"
    "\<forall>y. bf_Contains y bf = Some True \<longrightarrow> bf_Contains y bf1 = Some True"
    using bf_Add_ok[OF Cons.prems] by blast
  show ?case using Cons.IH[OF 1(2)] 1 by auto
qed simp

lemma Contains_total: "bf_ok bf \<Longrightarrow> \<exists>c. bf_Contains y bf = Some c"
  using indices_ok[of bf "string_bytes y"] by (auto simp: bf_Contains_def test_all_iff)

lemma MatchCount_ok:
  "bf_ok bf \<Longrightarrow> MatchCount items bf = Some (length (filter (\<lambda>y. bf_Contains y bf = Some True) items))"
proof (induction items)
  case (Cons y items)
  then show ?case using Contains_total[of bf y] by auto
qed simp

text \<open>Encoding and decoding the bits.\<close>

lemma write_bit_inv:
  assumes "length data = (length bits + 7) div 8"
    "\<forall>i<length bits. bit (data ! (i div 8)) (i mod 8) = (i < n \<and> bits ! i)" "n < length bits"
  shows "length (write_bit bits n data) = length data \<and>
    (\<forall>i<length bits. bit (write_bit bits n data ! (i div 8)) (i mod 8) = (i < Suc n \<and> bits ! i))"
proof -
  have "n div 8 < length data" using assms(1,3) by linarith
  moreover have "i div 8 = n div 8 \<Longrightarrow> i mod 8 = n mod 8 \<longleftrightarrow> i = n" for i by (metis div_mult_mod_eq)
  moreover have "i mod 8 < LENGTH(8)" for i :: nat by simp
  ultimately show ?thesis
    using assms(2,3)
    by (auto simp: write_bit_def nth_list_update bit_or_iff bit_push_bit_iff less_Suc_eq bit_1_iff
        bit_exp_iff possible_bit_word)
qed

lemma bf_Bytes_bits:
  "length (bf_Bytes bf) = (length (bf_bits bf) + 7) div 8 \<and>
   (\<forall>i<length (bf_bits bf). bit (bf_Bytes bf ! (i div 8)) (i mod 8) = bf_bits bf ! i)"
proof -
  let ?bits = "bf_bits bf"
  have "n \<le> length ?bits \<Longrightarrow>
      length (fold (write_bit ?bits) [0..<n] (replicate ((length ?bits + 7) div 8) 0)) = (length ?bits + 7) div 8 \<and>
      (\<forall>i<length ?bits. bit (fold (write_bit ?bits) [0..<n] (replicate ((length ?bits + 7) div 8) 0) ! (i div 8)) (i mod 8)
         = (i < n \<and> ?bits ! i))" for n
  proof (induction n)
    case (Suc n)
    then show ?case using write_bit_inv[of "fold (write_bit ?bits) [0..<n] (replicate ((length ?bits + 7) div 8) 0)" ?bits n]
      by simp
  next
    case 0
    have "i < length ?bits \<Longrightarrow> i div 8 < (length ?bits + 7) div 8" for i by linarith
    then show ?case by simp
  qed
  from this[of "length ?bits"] show ?thesis by (simp add: bf_Bytes_def)
qed

lemma FromBytes_Bytes:
  assumes "length (bf_bits blank) = length (bf_bits bf)"
  shows "bf_bits (FromBytes (bf_Bytes bf) blank) = bf_bits bf"
proof (rule nth_equalityI)
  fix i assume "i < length (bf_bits (FromBytes (bf_Bytes bf) blank))"
  then have i: "i < length (bf_bits bf)" using assms by (simp add: FromBytes_def)
  then have "i div 8 < length (bf_Bytes bf)" using bf_Bytes_bits[of bf] by linarith
  then show "bf_bits (FromBytes (bf_Bytes bf) blank) ! i = bf_bits bf ! i"
    using i assms bf_Bytes_bits[of bf] by (simp add: FromBytes_def bit_iff_and_push_bit_not_eq_0)
qed (simp add: FromBytes_def assms)

text \<open>No false negatives. A filter of whatever parameters never panics on \<open>Add\<close>; every item
  that was added is contained in it whatever was added before or after, and a
  filter of the same size that is filled from the transmitted bytes is the same filter.\<close>

theorem bloom_no_false_negatives:
  "\<exists>bf. add_all items (NewBloomFilter n p) = Some bf \<and> (\<forall>y\<in>set items. bf_Contains y bf = Some True) \<and>
    FromBytes (bf_Bytes bf) \<lparr>bf_bits = replicate (bf_size bf) False, bf_size = bf_size bf,
      bf_hashNum = bf_hashNum bf\<rparr> = bf"
proof -
  obtain bf where bf: "add_all items (NewBloomFilter n p) = Some bf" "bf_ok bf"
    "\<forall>y\<in>set items. bf_Contains y bf = Some True"
    using add_all_ok[OF NewBloomFilter_ok, of items n p] by blast
  let ?blank = "\<lparr>bf_bits = replicate (bf_size bf) False, bf_size = bf_size bf, bf_hashNum = bf_hashNum bf\<rparr>"
  have "bf_bits (FromBytes (bf_Bytes bf) ?blank) = bf_bits bf"
    using bf(2) by (intro FromBytes_Bytes) (simp add: bf_ok_def)
  then have "FromBytes (bf_Bytes bf) ?blank = bf" by (simp add: FromBytes_def)
  then show ?thesis using bf by blast
qed

theorem bloom_no_false_negatives_witness:
  "\<exists>bf. add_all [''weather'', ''tools''] (NewBloomFilter 1000 0.01) = Some bf \<and>
     bf_Contains ''weather'' bf = Some True"
  using bloom_no_false_negatives[of "[''weather'', ''tools'']" 1000 "0.01"] by auto

end
