(* ===== verification/GoMap.thy ===== *)
theory GoMap
  imports Table
begin

text \<open>
  Go maps as association lists with distinct keys: \<open>map_get\<close> is the two-result index expression
  \<open>v, ok := m[k]\<close>, \<open>map_set\<close> the assignment \<open>m[k] = v\<close> and \<open>map_del\<close> the built-in
  \<open>delete(m, k)\<close>, all from the table operations. Where the code ranges over a map and the order
  can be seen, the model takes that order as an argument.
\<close>

definition map_get :: "'k \<Rightarrow> ('k \<times> 'v) list \<Rightarrow> 'v option" where
  "map_get k kvs = map_option snd (t_get fst k kvs)"

definition map_set :: "'k \<Rightarrow> 'v \<Rightarrow> ('k \<times> 'v) list \<Rightarrow> ('k \<times> 'v) list" where
  "map_set k v kvs = t_upsert fst (\<lambda>old new. new) (k, v) kvs"

definition map_del :: "'k \<Rightarrow> ('k \<times> 'v) list \<Rightarrow> ('k \<times> 'v) list" where
  "map_del k kvs = t_delete (\<lambda>kv. fst kv = k) kvs"

lemma map_get_set [simp]: "map_get k (map_set k' v kvs) = (if k = k' then Some v else map_get k kvs)"
  by (simp add: map_get_def map_set_def overwrite.get_upsert split: option.splits)

lemma map_get_del:
  "keys_distinct fst kvs \<Longrightarrow> map_get k (map_del k' kvs) = (if k = k' then None else map_get k kvs)"
  by (auto simp: map_get_def map_del_def t_get_delete split: option.splits dest: t_get_Some)

lemma length_map_set:
  "length (map_set k v kvs) = (if k \<in> fst ` set kvs then length kvs else Suc (length kvs))"
  using t_get_None[of fst k kvs] by (auto simp: map_set_def t_upsert_def t_update_def split: option.splits)

lemma keys_map_set: "fst ` set (map_set k v kvs) = insert k (fst ` set kvs)"
proof (cases "t_get fst k kvs")
  case None
  then show ?thesis by (simp add: map_set_def t_upsert_def)
next
  case (Some kv)
  have "fst ` set (t_update (\<lambda>old. fst old = k) (\<lambda>_. (k, v)) kvs) = fst ` set kvs"
    using map_key_update[of kvs "\<lambda>old. fst old = k" fst "\<lambda>_. (k, v)"] by (metis fst_conv set_map)
  moreover have "k \<in> fst ` set kvs" using t_get_Some[OF Some] by force
  ultimately show ?thesis using Some by (simp add: map_set_def t_upsert_def insert_absorb)
qed

lemma length_map_del:
  "keys_distinct fst kvs \<Longrightarrow> k \<in> fst ` set kvs \<Longrightarrow> Suc (length (map_del k kvs)) = length kvs"
proof (induction kvs)
  case (Cons kv kvs)
  show ?case
  proof (cases "fst kv = k")
    case True
    then have "\<forall>kv'\<in>set kvs. fst kv' \<noteq> k" using Cons.prems(1) by (auto simp: keys_distinct_def image_iff)
    then show ?thesis using True by (simp add: map_del_def t_delete_def)
  next
    case False
    then have "Suc (length (map_del k kvs)) = length kvs"
      using Cons by (auto simp: keys_distinct_def)
    then show ?thesis using False by (simp add: map_del_def t_delete_def)
  qed
qed simp

lemma keys_distinct_map_ops:
  "keys_distinct fst kvs \<Longrightarrow> keys_distinct fst (map_set k v kvs)"
  "keys_distinct fst kvs \<Longrightarrow> keys_distinct fst (map_del k kvs)"
  by (simp_all add: map_set_def map_del_def overwrite.distinct_upsert keys_distinct_delete)

lemma set_map_set: "kv \<in> set (map_set k v kvs) \<Longrightarrow> kv = (k, v) \<or> kv \<in> set kvs"
  by (auto simp: map_set_def t_upsert_def set_t_update split: option.splits if_splits)

lemma set_map_del: "set (map_del k kvs) \<subseteq> set kvs"
  by (auto simp: map_del_def)

lemma map_get_keys: "k \<in> fst ` set m \<longleftrightarrow> map_get k m \<noteq> None"
  by (simp add: map_get_def t_get_None)

lemma map_get_dom: "dom (\<lambda>k. map_get k m) = fst ` set m"
  using map_get_keys[of _ m] by (auto simp: dom_def)

lemma map_get_None: "map_get k kvs = None \<longleftrightarrow> k \<notin> fst ` set kvs"
  by (simp add: map_get_def t_get_None)

lemma map_get_unique: "keys_distinct fst kvs \<Longrightarrow> (k, v) \<in> set kvs \<Longrightarrow> map_get k kvs = Some v"
  using t_get_unique[of fst kvs "(k, v)"] by (simp add: map_get_def)

end
