(* ===== verification/Peers.thy ===== *)
theory Peers
  imports Bloom StoreProps GoMap
begin

text \<open>
  The peer manager (\<open>src/internal/mesh/peers.go\<close>) and the routing of federated searches: a peer's
  Bloom filter arrives with its heartbeat (\<open>handleHeartbeat\<close> of \<open>transport.go\<close>) and
  \<open>GetRelevantPeers\<close> ranks the peers by it. The Go maps are association lists with distinct
  keys; where the code ranges over a map, the order it happens to see is the argument
  \<open>order\<close>, a permutation of the keys. \<open>T\<close> formats and parses RFC3339 times.
\<close>

section \<open>State\<close>

record PeerManager =
  pm_peers :: "(string \<times> PeerInfo) list"
  pm_maxPeers :: int
  pm_blooms :: "(string \<times> BloomFilter) list"

definition NewPeerManager :: "int \<Rightarrow> PeerManager" where
  "NewPeerManager maxPeers = \<lparr>pm_peers = [], pm_maxPeers = maxPeers, pm_blooms = []\<rparr>"

section \<open>Peers\<close>

text \<open>The loop of \<open>evictOldest\<close>: the first peer whose time does not parse ends it.\<close>

fun oldest_scan :: "timefmt \<Rightarrow> (string \<times> PeerInfo) list \<Rightarrow> string list \<Rightarrow> string \<Rightarrow> int \<Rightarrow> string" where
  "oldest_scan T peers [] oldestID oldestTime = oldestID"
| "oldest_scan T peers (pid # ids) oldestID oldestTime =
     (case map_get pid peers of
        None \<Rightarrow> oldest_scan T peers ids oldestID oldestTime
      | Some peer \<Rightarrow>
          (case tf_Parse T (pi_LastSeen peer) of
             None \<Rightarrow> pid
           | Some t \<Rightarrow> if oldestID = '''' \<or> t < oldestTime then oldest_scan T peers ids pid t
                       else oldest_scan T peers ids oldestID oldestTime))"

definition RemovePeer :: "string \<Rightarrow> PeerManager \<Rightarrow> PeerManager" where
  "RemovePeer registryID pm =
     pm\<lparr>pm_peers := map_del registryID (pm_peers pm), pm_blooms := map_del registryID (pm_blooms pm)\<rparr>"

definition evictOldest :: "timefmt \<Rightarrow> string list \<Rightarrow> PeerManager \<Rightarrow> PeerManager" where
  "evictOldest T order pm =
     (let oldestID = oldest_scan T (pm_peers pm) order '''' 0
      in if oldestID \<noteq> '''' then
           pm\<lparr>pm_peers := map_del oldestID (pm_peers pm), pm_blooms := map_del oldestID (pm_blooms pm)\<rparr>
         else pm)"

definition AddPeer :: "timefmt \<Rightarrow> string list \<Rightarrow> int \<Rightarrow> PeerInfo \<Rightarrow> PeerManager \<Rightarrow> PeerManager" where
  "AddPeer T order now peer pm =
     (let pm = (if int (length (pm_peers pm)) \<ge> pm_maxPeers pm then evictOldest T order pm else pm);
          peer = peer\<lparr>pi_ConnectedAt := tf_Format T now, pi_LastSeen := tf_Format T now\<rparr>
      in pm\<lparr>pm_peers := map_set (pi_RegistryID peer) peer (pm_peers pm)\<rparr>)"

definition UpdatePeerLastSeen :: "timefmt \<Rightarrow> int \<Rightarrow> string \<Rightarrow> PeerManager \<Rightarrow> PeerManager" where
  "UpdatePeerLastSeen T now registryID pm =
     (case map_get registryID (pm_peers pm) of
        None \<Rightarrow> pm
      | Some peer \<Rightarrow> pm\<lparr>pm_peers := map_set registryID (peer\<lparr>pi_LastSeen := tf_Format T now\<rparr>) (pm_peers pm)\<rparr>)"

definition GetPeers :: "string list \<Rightarrow> PeerManager \<Rightarrow> PeerInfo list" where
  "GetPeers order pm = List.map_filter (\<lambda>pid. map_get pid (pm_peers pm)) order"

definition GetPeer :: "string \<Rightarrow> PeerManager \<Rightarrow> PeerInfo option" where
  "GetPeer registryID pm = map_get registryID (pm_peers pm)"

definition PeerCount :: "PeerManager \<Rightarrow> nat" where
  "PeerCount pm = length (pm_peers pm)"

definition SetPeerBloomFilter :: "string \<Rightarrow> BloomFilter \<Rightarrow> PeerManager \<Rightarrow> PeerManager" where
  "SetPeerBloomFilter registryID bf pm = pm\<lparr>pm_blooms := map_set registryID bf (pm_blooms pm)\<rparr>"

section \<open>Heartbeats\<close>

record HeartbeatMessage =
  hb_RegistryID :: string
  hb_AgentCount :: int
  hb_BloomFilter :: "byte list"
  hb_BloomSize :: nat
  hb_BloomHashes :: nat
  hb_PeerAddrs :: "string list"

text \<open>The message \<open>sendHeartbeats\<close> builds (the count is zero when the query fails), and what
  \<open>handleHeartbeat\<close> does to the peer manager; the dialling of unknown addresses is not
  part of this component.\<close>

definition heartbeat_message :: "string \<Rightarrow> int \<Rightarrow> string list \<Rightarrow> BloomFilter option \<Rightarrow> HeartbeatMessage" where
  "heartbeat_message registryID agentCount peerAddrs bloom =
     (let hb = \<lparr>hb_RegistryID = registryID, hb_AgentCount = agentCount, hb_BloomFilter = [], hb_BloomSize = 0,
                hb_BloomHashes = 0, hb_PeerAddrs = peerAddrs\<rparr>
      in case bloom of
           None \<Rightarrow> hb
         | Some bf \<Rightarrow> hb\<lparr>hb_BloomFilter := bf_Bytes bf, hb_BloomSize := bf_size bf, hb_BloomHashes := bf_hashNum bf\<rparr>)"

definition handleHeartbeat :: "timefmt \<Rightarrow> int \<Rightarrow> string \<Rightarrow> HeartbeatMessage \<Rightarrow> PeerManager \<Rightarrow> PeerManager" where
  "handleHeartbeat T now peerID hb pm =
     (let pm = UpdatePeerLastSeen T now peerID pm
      in if length (hb_BloomFilter hb) > 0 \<and> hb_BloomSize hb > 0 then
           SetPeerBloomFilter peerID (FromBytes (hb_BloomFilter hb)
             \<lparr>bf_bits = replicate (hb_BloomSize hb) False, bf_size = hb_BloomSize hb,
              bf_hashNum = hb_BloomHashes hb\<rparr>) pm
         else pm)"

section \<open>Ranking peers for a query\<close>

definition peer_score :: "string list \<Rightarrow> PeerManager \<Rightarrow> string \<Rightarrow> nat option" where
  "peer_score queryTokens pm pid =
     (case map_get pid (pm_blooms pm) of None \<Rightarrow> Some 1 | Some bf \<Rightarrow> MatchCount queryTokens bf)"

fun score_peers :: "string list \<Rightarrow> PeerManager \<Rightarrow> string list \<Rightarrow> (PeerInfo \<times> nat) list option" where
  "score_peers queryTokens pm [] = Some []"
| "score_peers queryTokens pm (pid # ids) =
     (case map_get pid (pm_peers pm) of
        None \<Rightarrow> score_peers queryTokens pm ids
      | Some peer \<Rightarrow> do {
          s \<leftarrow> peer_score queryTokens pm pid;
          rest \<leftarrow> score_peers queryTokens pm ids;
          Some ((peer, s) # rest) })"

text \<open>The exchange sort: with \<open>scored[i]\<close> in hand, one pass of the inner loop over the
  rest swaps it with every larger element it meets.\<close>

fun exchange_pass :: "'a \<times> nat \<Rightarrow> ('a \<times> nat) list \<Rightarrow> ('a \<times> nat) \<times> ('a \<times> nat) list" where
  "exchange_pass x [] = (x, [])"
| "exchange_pass x (y # ys) =
     (if snd y > snd x then (let (m, zs) = exchange_pass y ys in (m, x # zs))
      else (let (m, zs) = exchange_pass x ys in (m, y # zs)))"

lemma exchange_pass_length [simp]: "length (snd (exchange_pass x ys)) = length ys"
  by (induction ys arbitrary: x) (simp_all add: split_beta)

function exchange_sort :: "('a \<times> nat) list \<Rightarrow> ('a \<times> nat) list" where
  "exchange_sort [] = []"
| "exchange_sort (x # xs) = fst (exchange_pass x xs) # exchange_sort (snd (exchange_pass x xs))"
  by pat_completeness auto

termination exchange_sort by (relation "measure length") simp_all

fun take_scored :: "int \<Rightarrow> (PeerInfo \<times> nat) list \<Rightarrow> PeerInfo list \<Rightarrow> PeerInfo list" where
  "take_scored maxPeers [] result = result"
| "take_scored maxPeers ((p, s) # rest) result =
     (if int (length result) \<ge> maxPeers then result
      else take_scored maxPeers rest (if s \<ge> 1 then result @ [p] else result))"

definition GetRelevantPeers :: "string list \<Rightarrow> string list \<Rightarrow> int \<Rightarrow> PeerManager \<Rightarrow> PeerInfo list option" where
  "GetRelevantPeers order queryTokens maxPeers pm = do {
     scored \<leftarrow> score_peers queryTokens pm order;
     Some (take_scored maxPeers (exchange_sort scored) []) }"

section \<open>Lemmas\<close>

lemma exchange_pass_mset:
  "add_mset (fst (exchange_pass x ys)) (mset (snd (exchange_pass x ys))) = add_mset x (mset ys)"
  by (induction ys arbitrary: x) (auto simp: split_beta add_mset_commute)

lemma exchange_pass_max: "z \<in> set (x # ys) \<Longrightarrow> snd z \<le> snd (fst (exchange_pass x ys))"
proof (induction ys arbitrary: x z)
  case (Cons y ys)
  have le: "snd x \<le> snd (fst (exchange_pass x ys))" "snd y \<le> snd (fst (exchange_pass y ys))"
    using Cons.IH[of x x] Cons.IH[of y y] by simp_all
  have rest: "z \<in> set ys \<Longrightarrow> snd z \<le> snd (fst (exchange_pass w ys))" for w
    using Cons.IH[of z w] by simp
  show ?case
    using Cons.prems le rest[of x] rest[of y] by (cases "snd x < snd y") (auto simp: split_beta)
qed simp

lemma exchange_sort_correct:
  "mset (exchange_sort xs) = mset xs \<and> sorted_wrt (\<lambda>p q. snd q \<le> snd p) (exchange_sort xs)"
proof (induction xs rule: exchange_sort.induct)
  case (2 x xs)
  then have m: "mset (exchange_sort (x # xs)) = mset (x # xs)"
    using exchange_pass_mset[of x xs] by simp
  have "set (exchange_sort (snd (exchange_pass x xs))) = set (snd (exchange_pass x xs))"
    using 2 by (metis set_mset_mset)
  moreover have "set (snd (exchange_pass x xs)) \<subseteq> set (x # xs)"
    using arg_cong[OF exchange_pass_mset[of x xs], of set_mset] by auto
  ultimately show ?case
    using 2 m exchange_pass_max[of _ x xs] by auto
qed simp

lemma take_scored_eq:
  "take_scored n xs acc = acc @ take (nat n - length acc) (map fst (filter (\<lambda>p. snd p \<ge> 1) xs))"
proof (induction n xs acc rule: take_scored.induct)
  case (2 n p s rest acc)
  show ?case
  proof (cases "int (length acc) \<ge> n")
    case False
    then have "nat n - length acc = Suc (nat n - Suc (length acc))" by linarith
    then show ?thesis using 2 False by simp
  qed simp
qed simp

section \<open>The set of peers\<close>

definition pm_keyed :: "PeerManager \<Rightarrow> bool" where
  "pm_keyed pm = (keys_distinct fst (pm_peers pm) \<and> keys_distinct fst (pm_blooms pm) \<and>
     (\<forall>(k, p)\<in>set (pm_peers pm). pi_RegistryID p = k \<and> k \<noteq> ''''))"

definition pm_inv :: "int \<Rightarrow> PeerManager \<Rightarrow> bool" where
  "pm_inv limit pm = (pm_keyed pm \<and> pm_maxPeers pm = limit \<and> int (length (pm_peers pm)) \<le> max 1 limit)"

text \<open>The steps of a peer manager: peers that are added have an identifier, and the iteration of an
  addition sees exactly the peers there are.\<close>

inductive peer_step :: "timefmt \<Rightarrow> PeerManager \<Rightarrow> PeerManager \<Rightarrow> bool" for T where
  step_add: "pi_RegistryID peer \<noteq> '''' \<Longrightarrow> set order = fst ` set (pm_peers pm) \<Longrightarrow>
    peer_step T pm (AddPeer T order now peer pm)"
| step_remove: "peer_step T pm (RemovePeer registryID pm)"
| step_seen: "peer_step T pm (UpdatePeerLastSeen T now registryID pm)"
| step_bloom: "peer_step T pm (SetPeerBloomFilter registryID bf pm)"
| step_heartbeat: "peer_step T pm (handleHeartbeat T now peerID hb pm)"

lemma oldest_scan_key:
  "oldest_scan T peers ids oldestID t = oldestID \<or> oldest_scan T peers ids oldestID t \<in> fst ` set peers"
proof (induction ids arbitrary: oldestID t)
  case (Cons pid ids)
  have "map_get pid peers = Some p \<Longrightarrow> pid \<in> fst ` set peers" for p
    by (auto simp: map_get_def dest!: t_get_Some)
  then show ?case
    using Cons.IH[of pid] Cons.IH[of oldestID] by (auto split: option.splits)
qed simp

lemma oldest_scan_nonempty:
  assumes "\<forall>k\<in>fst ` set peers. k \<noteq> ''''"
  shows "oldestID \<noteq> '''' \<or> (\<exists>pid\<in>set ids. map_get pid peers \<noteq> None) \<Longrightarrow> oldest_scan T peers ids oldestID t \<noteq> ''''"
proof (induction ids arbitrary: oldestID t)
  case (Cons pid ids)
  show ?case
  proof (cases "map_get pid peers")
    case None
    then have "oldestID \<noteq> '''' \<or> (\<exists>pid\<in>set ids. map_get pid peers \<noteq> None)" using Cons.prems by auto
    then show ?thesis using Cons.IH[of oldestID t] None by simp
  next
    case (Some p)
    then have "pid \<noteq> ''''" using assms by (auto simp: map_get_def dest!: t_get_Some)
    then show ?thesis using Cons.IH[of pid] Cons.IH[of oldestID] Some by (auto split: option.splits)
  qed
qed simp

lemma pm_keyed_set:
  "pm_keyed pm \<Longrightarrow> pi_RegistryID p = k \<Longrightarrow> k \<noteq> '''' \<Longrightarrow> pm_keyed (pm\<lparr>pm_peers := map_set k p (pm_peers pm)\<rparr>)"
  by (auto simp: pm_keyed_def keys_distinct_map_ops dest!: set_map_set)

lemma pm_keyed_del:
  "pm_keyed pm \<Longrightarrow> pm_keyed (pm\<lparr>pm_peers := map_del k (pm_peers pm), pm_blooms := map_del k (pm_blooms pm)\<rparr>)"
  using set_map_del[of k "pm_peers pm"] by (auto simp: pm_keyed_def keys_distinct_map_ops)

lemma AddPeer_inv:
  assumes "pm_inv limit pm" "pi_RegistryID peer \<noteq> ''''" "set order = fst ` set (pm_peers pm)"
  shows "pm_inv limit (AddPeer T order now peer pm)"
proof -
  let ?peer = "peer\<lparr>pi_ConnectedAt := tf_Format T now, pi_LastSeen := tf_Format T now\<rparr>"
  define pm1 where "pm1 = (if int (length (pm_peers pm)) \<ge> pm_maxPeers pm then evictOldest T order pm else pm)"
  have k: "pm_keyed pm" "pm_maxPeers pm = limit" "int (length (pm_peers pm)) \<le> max 1 limit"
    using assms(1) by (auto simp: pm_inv_def)
  have "pm_keyed pm1" "pm_maxPeers pm1 = limit"
    using k pm_keyed_del by (auto simp: pm1_def evictOldest_def Let_def)
  moreover have "int (length (pm_peers pm1)) < max 1 limit \<or> pm_peers pm1 = []"
  proof (cases "int (length (pm_peers pm)) \<ge> limit \<and> pm_peers pm \<noteq> []")
    case True
    define o' where "o' = oldest_scan T (pm_peers pm) order '''' 0"
    have ne: "\<forall>k\<in>fst ` set (pm_peers pm). k \<noteq> ''''" using k(1) by (auto simp: pm_keyed_def)
    obtain kv where kv: "kv \<in> set (pm_peers pm)" using True by (cases "pm_peers pm") auto
    have "t_get fst (fst kv) (pm_peers pm) \<noteq> None" using kv by (simp add: t_get_None)
    then have "map_get (fst kv) (pm_peers pm) \<noteq> None" "fst kv \<in> set order"
      using kv assms(3) by (auto simp: map_get_def)
    then have o1: "o' \<noteq> ''''" unfolding o'_def using oldest_scan_nonempty[OF ne] by blast
    then have "o' \<in> fst ` set (pm_peers pm)" unfolding o'_def using oldest_scan_key by metis
    then have "Suc (length (map_del o' (pm_peers pm))) = length (pm_peers pm)"
      using k(1) by (intro length_map_del) (auto simp: pm_keyed_def)
    then show ?thesis
      using True k(2,3) o1 by (auto simp: pm1_def evictOldest_def Let_def simp flip: o'_def)
  next
    case False
    then show ?thesis using k(2) by (auto simp: pm1_def evictOldest_def Let_def map_del_def t_delete_def)
  qed
  moreover have "AddPeer T order now peer pm = pm1\<lparr>pm_peers := map_set (pi_RegistryID ?peer) ?peer (pm_peers pm1)\<rparr>"
    by (simp add: AddPeer_def pm1_def Let_def)
  ultimately show ?thesis
    using pm_keyed_set[of pm1 ?peer "pi_RegistryID peer"] assms(2)
    by (auto simp: pm_inv_def length_map_set)
qed

lemma UpdatePeerLastSeen_inv: "pm_inv limit pm \<Longrightarrow> pm_inv limit (UpdatePeerLastSeen T now registryID pm)"
proof (cases "map_get registryID (pm_peers pm)")
  case (Some p)
  assume inv: "pm_inv limit pm"
  have m: "(registryID, p) \<in> set (pm_peers pm)" using Some by (auto simp: map_get_def dest!: t_get_Some)
  then have k: "pi_RegistryID p = registryID" "registryID \<noteq> ''''"
    using inv by (auto simp: pm_inv_def pm_keyed_def)
  have "registryID \<in> fst ` set (pm_peers pm)" using m by force
  then show ?thesis
    using inv Some pm_keyed_set[of pm "p\<lparr>pi_LastSeen := tf_Format T now\<rparr>" registryID] k
    by (simp add: UpdatePeerLastSeen_def pm_inv_def length_map_set)
qed (simp add: UpdatePeerLastSeen_def)

lemma SetPeerBloomFilter_inv: "pm_inv limit pm \<Longrightarrow> pm_inv limit (SetPeerBloomFilter registryID bf pm)"
  by (simp add: SetPeerBloomFilter_def pm_inv_def pm_keyed_def keys_distinct_map_ops)

lemma RemovePeer_inv:
  assumes "pm_inv limit pm"
  shows "pm_inv limit (RemovePeer registryID pm)"
proof -
  have "length (map_del registryID (pm_peers pm)) \<le> length (pm_peers pm)" by (simp add: map_del_def t_delete_def)
  then show ?thesis using assms pm_keyed_del by (simp add: pm_inv_def RemovePeer_def)
qed

lemma peer_step_inv: "peer_step T pm pm' \<Longrightarrow> pm_inv limit pm \<Longrightarrow> pm_inv limit pm'"
  by (induction rule: peer_step.induct)
    (simp_all add: AddPeer_inv RemovePeer_inv UpdatePeerLastSeen_inv SetPeerBloomFilter_inv
      handleHeartbeat_def Let_def)

text \<open>The set of peers. Every peer manager that is reached from a new one by adding, removing,
  heartbeats and Bloom filter updates holds each peer once under its own identifier, and never
  more peers than the configured limit (one, if the limit is not positive).\<close>

theorem peer_set_bounded:
  assumes "(peer_step T)\<^sup>*\<^sup>* (NewPeerManager maxPeers) pm"
  shows "int (PeerCount pm) \<le> max 1 maxPeers \<and> keys_distinct fst (pm_peers pm) \<and>
    (\<forall>registryID p. GetPeer registryID pm = Some p \<longrightarrow> pi_RegistryID p = registryID)"
proof -
  have "pm_inv maxPeers (NewPeerManager maxPeers)"
    by (simp add: pm_inv_def pm_keyed_def NewPeerManager_def keys_distinct_def)
  with assms have "pm_inv maxPeers pm" by (induction rule: rtranclp_induct) (auto intro: peer_step_inv)
  then show ?thesis
    by (auto simp: pm_inv_def pm_keyed_def PeerCount_def GetPeer_def map_get_def dest!: t_get_Some)
qed

definition sample_peer :: "string \<Rightarrow> PeerInfo" where
  "sample_peer i = \<lparr>pi_RegistryID = i, pi_Name = ''n'', pi_Address = ''h:1'', pi_PublicKey = ''k'',
     pi_AgentCount = 0, pi_ConnectedAt = '''', pi_LastSeen = '''', pi_Latency = 0, pi_BloomFilter = [],
     pi_RegistryHost = ''''\<rparr>"

definition two_peers :: PeerManager where
  "two_peers = AddPeer unix_time [''p''] 6 (sample_peer ''q'') (AddPeer unix_time [] 5 (sample_peer ''p'') (NewPeerManager 2))"

lemma one_peer_eq: "AddPeer unix_time [] 5 (sample_peer ''p'') (NewPeerManager 2) =
   \<lparr>pm_peers = [(''p'', (sample_peer ''p'')\<lparr>pi_ConnectedAt := ''00000'', pi_LastSeen := ''00000''\<rparr>)],
    pm_maxPeers = 2, pm_blooms = []\<rparr>"
  by (simp add: AddPeer_def NewPeerManager_def sample_peer_def map_set_def t_upsert_def unix_time_def numeral_eq_Suc)

lemma two_peers_eq: "two_peers = \<lparr>pm_peers =
     [(''p'', (sample_peer ''p'')\<lparr>pi_ConnectedAt := ''00000'', pi_LastSeen := ''00000''\<rparr>),
      (''q'', (sample_peer ''q'')\<lparr>pi_ConnectedAt := ''000000'', pi_LastSeen := ''000000''\<rparr>)],
    pm_maxPeers = 2, pm_blooms = []\<rparr>"
  unfolding two_peers_def one_peer_eq
  by (simp add: AddPeer_def sample_peer_def map_set_def t_upsert_def unix_time_def numeral_eq_Suc)

lemma two_peers_reachable: "(peer_step unix_time)\<^sup>*\<^sup>* (NewPeerManager 2) two_peers"
proof -
  have "peer_step unix_time (NewPeerManager 2) (AddPeer unix_time [] 5 (sample_peer ''p'') (NewPeerManager 2))"
    by (rule step_add) (simp_all add: sample_peer_def NewPeerManager_def)
  moreover have "peer_step unix_time (AddPeer unix_time [] 5 (sample_peer ''p'') (NewPeerManager 2)) two_peers"
    unfolding two_peers_def by (rule step_add) (simp add: sample_peer_def, simp add: one_peer_eq)
  ultimately show ?thesis by simp
qed

theorem peer_set_bounded_witness: "int (PeerCount two_peers) \<le> 2 \<and> keys_distinct fst (pm_peers two_peers)"
  using peer_set_bounded[OF two_peers_reachable] by simp

section \<open>Eviction\<close>

lemma oldest_scan_min_from:
  assumes "\<And>x. x \<in> set ids \<Longrightarrow> \<exists>p. map_get x peers = Some p \<and> tf_Parse T (pi_LastSeen p) = Some (tm x) \<and> x \<noteq> ''''"
    "c \<noteq> ''''"
  shows "oldest_scan T peers ids c (tm c) \<in> insert c (set ids) \<and>
    (\<forall>x\<in>insert c (set ids). tm (oldest_scan T peers ids c (tm c)) \<le> tm x)"
  using assms
proof (induction ids arbitrary: c)
  case (Cons y ids)
  obtain p where p: "map_get y peers = Some p" "tf_Parse T (pi_LastSeen p) = Some (tm y)" "y \<noteq> ''''"
    using Cons.prems(1)[of y] by auto
  have IH: "d \<noteq> '''' \<Longrightarrow> oldest_scan T peers ids d (tm d) \<in> insert d (set ids) \<and>
      (\<forall>x\<in>insert d (set ids). tm (oldest_scan T peers ids d (tm d)) \<le> tm x)" for d
    using Cons.IH Cons.prems(1) by simp
  show ?case
  proof (cases "tm y < tm c")
    case True
    then have e: "oldest_scan T peers (y # ids) c (tm c) = oldest_scan T peers ids y (tm y)" using p by simp
    show ?thesis unfolding e using IH[OF p(3)] True by force
  next
    case False
    then have e: "oldest_scan T peers (y # ids) c (tm c) = oldest_scan T peers ids c (tm c)"
      using p Cons.prems(2) by simp
    show ?thesis unfolding e using IH[OF Cons.prems(2)] False by force
  qed
qed simp

lemma oldest_scan_min:
  assumes "\<And>x. x \<in> set ids \<Longrightarrow> \<exists>p. map_get x peers = Some p \<and> tf_Parse T (pi_LastSeen p) = Some (tm x) \<and> x \<noteq> ''''"
    "ids \<noteq> []"
  shows "oldest_scan T peers ids '''' t0 \<in> set ids \<and>
    (\<forall>x\<in>set ids. tm (oldest_scan T peers ids '''' t0) \<le> tm x)"
proof -
  obtain y ys where i: "ids = y # ys" using assms(2) by (cases ids) auto
  obtain p where p: "map_get y peers = Some p" "tf_Parse T (pi_LastSeen p) = Some (tm y)" "y \<noteq> ''''"
    using assms(1)[of y] i by auto
  have e: "oldest_scan T peers ids '''' t0 = oldest_scan T peers ys y (tm y)" using p i by simp
  show ?thesis unfolding e using oldest_scan_min_from[of ys peers T tm y] assms(1) p(3) i by simp
qed

text \<open>Eviction. When a peer is added to a full manager whose peers all carry a readable last-seen
  time, a peer that was seen least recently is dropped with its filter, every other peer stays, and
  the new one is connected as of now. This also happens when the added peer is already
  connected: then an unrelated peer is lost and the manager is no longer full.\<close>

theorem peer_eviction_policy:
  assumes "pm_inv limit pm" "0 < limit" "int (PeerCount pm) = limit" "pi_RegistryID peer = k" "k \<noteq> ''''"
    "set order = fst ` set (pm_peers pm)"
    "\<And>x p. GetPeer x pm = Some p \<Longrightarrow> tf_Parse T (pi_LastSeen p) = Some (tm x)"
  shows "\<exists>v q. GetPeer v pm = Some q \<and> (\<forall>x p. GetPeer x pm = Some p \<longrightarrow> tm v \<le> tm x) \<and>
    (\<forall>x. GetPeer x (AddPeer T order now peer pm) =
       (if x = k then Some (peer\<lparr>pi_ConnectedAt := tf_Format T now, pi_LastSeen := tf_Format T now\<rparr>)
        else if x = v then None else GetPeer x pm)) \<and>
    map_get v (pm_blooms (AddPeer T order now peer pm)) = None \<and>
    (GetPeer k pm \<noteq> None \<and> k \<noteq> v \<longrightarrow> int (PeerCount (AddPeer T order now peer pm)) = limit - 1)"
proof -
  have k: "pm_keyed pm" "pm_maxPeers pm = limit" using assms(1) by (auto simp: pm_inv_def)
  have kd: "keys_distinct fst (pm_peers pm)" "keys_distinct fst (pm_blooms pm)" using k(1) by (auto simp: pm_keyed_def)
  have keys: "x \<in> fst ` set (pm_peers pm) \<longleftrightarrow> GetPeer x pm \<noteq> None" for x
    using t_get_None[of fst x "pm_peers pm"] by (auto simp: GetPeer_def map_get_def)
  have parsed: "\<exists>p. map_get x (pm_peers pm) = Some p \<and> tf_Parse T (pi_LastSeen p) = Some (tm x) \<and> x \<noteq> ''''"
    if "x \<in> set order" for x
    using that keys[of x] assms(6) assms(7)[of x] k(1) by (auto simp: GetPeer_def pm_keyed_def)
  have "order \<noteq> []" using assms(2,3,6) by (auto simp: PeerCount_def)
  define v where "v = oldest_scan T (pm_peers pm) order '''' 0"
  have v: "v \<in> set order" "\<forall>x\<in>set order. tm v \<le> tm x"
    unfolding v_def using oldest_scan_min[OF parsed \<open>order \<noteq> []\<close>] by auto
  have vne: "v \<noteq> ''''" using parsed[OF v(1)] by auto
  let ?p = "peer\<lparr>pi_ConnectedAt := tf_Format T now, pi_LastSeen := tf_Format T now\<rparr>"
  have a: "AddPeer T order now peer pm = pm\<lparr>pm_peers := map_set k ?p (map_del v (pm_peers pm)),
      pm_blooms := map_del v (pm_blooms pm)\<rparr>"
    using assms(3,4) k(2) vne by (simp add: AddPeer_def evictOldest_def Let_def PeerCount_def flip: v_def)
  have "int (PeerCount (AddPeer T order now peer pm)) = limit - 1" if "GetPeer k pm \<noteq> None" "k \<noteq> v"
  proof -
    have "map_get k (map_del v (pm_peers pm)) \<noteq> None" using that map_get_del[OF kd(1)] by (simp add: GetPeer_def)
    then have "k \<in> fst ` set (map_del v (pm_peers pm))"
      using t_get_None[of fst k "map_del v (pm_peers pm)"] by (auto simp: map_get_def)
    moreover have "Suc (length (map_del v (pm_peers pm))) = length (pm_peers pm)"
      using length_map_del[OF kd(1)] v(1) assms(6) by simp
    ultimately show ?thesis using assms(3) by (simp add: a PeerCount_def length_map_set)
  qed
  moreover obtain q where "GetPeer v pm = Some q" using parsed[OF v(1)] by (auto simp: GetPeer_def)
  moreover have "tm v \<le> tm x" if "GetPeer x pm = Some p" for x p
    using v(2) keys[of x] that assms(6) by auto
  ultimately show ?thesis
    using kd by (intro exI[of _ v] exI[of _ q]) (simp add: a GetPeer_def map_get_del)
qed

theorem peer_eviction_policy_witness:
  "\<exists>v q. GetPeer v two_peers = Some q \<and>
     GetPeer ''s'' (AddPeer unix_time [''q'', ''p''] 9 (sample_peer ''s'') two_peers) \<noteq> None"
proof -
  have inv: "pm_inv 2 two_peers"
    by (simp add: pm_inv_def pm_keyed_def two_peers_eq keys_distinct_def sample_peer_def)
  have tm: "tf_Parse unix_time (pi_LastSeen p) = Some (if x = ''p'' then 5 else 6)" if "GetPeer x two_peers = Some p" for x p
    using that by (auto simp: GetPeer_def map_get_def two_peers_eq unix_time_def split: if_splits)
  have "int (PeerCount two_peers) = 2" "pi_RegistryID (sample_peer ''s'') = ''s''"
    "set [''q'', ''p''] = fst ` set (pm_peers two_peers)"
    by (auto simp: PeerCount_def two_peers_eq sample_peer_def)
  then obtain v q where "GetPeer v two_peers = Some q"
    "\<forall>x. GetPeer x (AddPeer unix_time [''q'', ''p''] 9 (sample_peer ''s'') two_peers) =
       (if x = ''s'' then Some ((sample_peer ''s'')\<lparr>pi_ConnectedAt := tf_Format unix_time 9,
            pi_LastSeen := tf_Format unix_time 9\<rparr>)
        else if x = v then None else GetPeer x two_peers)"
    using peer_eviction_policy[where pm = two_peers and limit = 2 and peer = "sample_peer ''s''" and k = "''s''"
        and order = "[''q'', ''p'']" and T = unix_time and tm = "\<lambda>x. if x = ''p'' then 5 else 6" and now = 9]
      inv tm by auto
  then show ?thesis by auto
qed

section \<open>Routing a query\<close>

definition blooms_ok :: "PeerManager \<Rightarrow> bool" where
  "blooms_ok pm = (\<forall>x bf. map_get x (pm_blooms pm) = Some bf \<longrightarrow> bf_ok bf)"

definition score_of :: "string list \<Rightarrow> PeerManager \<Rightarrow> string \<Rightarrow> nat" where
  "score_of tokens pm x = (case map_get x (pm_blooms pm) of
     None \<Rightarrow> 1 | Some bf \<Rightarrow> length (filter (\<lambda>y. bf_Contains y bf = Some True) tokens))"

lemma peer_score_ok: "blooms_ok pm \<Longrightarrow> peer_score tokens pm x = Some (score_of tokens pm x)"
  by (auto simp: peer_score_def score_of_def blooms_ok_def MatchCount_ok split: option.splits)

lemma score_peers_ok:
  assumes "blooms_ok pm"
  shows "score_peers tokens pm ids = Some (List.map_filter
    (\<lambda>x. map_option (\<lambda>p. (p, score_of tokens pm x)) (map_get x (pm_peers pm))) ids)"
  by (induction ids) (auto simp: peer_score_ok[OF assms] map_filter_simps split: option.splits)

lemma keyed_get: "pm_keyed pm \<Longrightarrow> map_get x (pm_peers pm) = Some p \<Longrightarrow> pi_RegistryID p = x"
  by (auto simp: pm_keyed_def map_get_def dest!: t_get_Some)

lemma set_map_filter: "set (List.map_filter f xs) = {y. \<exists>x\<in>set xs. f x = Some y}"
  by (induction xs) (auto simp: map_filter_simps split: option.splits)

lemma scored_set:
  assumes "pm_keyed pm" "blooms_ok pm" "set order = fst ` set (pm_peers pm)"
  obtains scored where "score_peers tokens pm order = Some scored"
    "set scored = {(p, s). GetPeer (pi_RegistryID p) pm = Some p \<and> s = score_of tokens pm (pi_RegistryID p)}"
    "length scored \<le> length order"
proof -
  have keys: "x \<in> set order \<longleftrightarrow> map_get x (pm_peers pm) \<noteq> None" for x
    using t_get_None[of fst x "pm_peers pm"] assms(3) by (auto simp: map_get_def)
  let ?f = "\<lambda>x. map_option (\<lambda>p. (p, score_of tokens pm x)) (map_get x (pm_peers pm))"
  have "set (List.map_filter ?f order) = {(p, s). GetPeer (pi_RegistryID p) pm = Some p \<and> s = score_of tokens pm (pi_RegistryID p)}"
  proof (intro set_eqI iffI; clarify)
    fix p s
    assume "(p, s) \<in> set (List.map_filter ?f order)"
    then obtain x where x: "map_get x (pm_peers pm) = Some p" "s = score_of tokens pm x"
      by (auto simp: set_map_filter)
    then show "GetPeer (pi_RegistryID p) pm = Some p \<and> s = score_of tokens pm (pi_RegistryID p)"
      using keyed_get[OF assms(1) x(1)] by (simp add: GetPeer_def)
  next
    fix p
    assume p: "GetPeer (pi_RegistryID p) pm = Some p"
    then have "pi_RegistryID p \<in> set order" using keys by (simp add: GetPeer_def)
    moreover have "?f (pi_RegistryID p) = Some (p, score_of tokens pm (pi_RegistryID p))"
      using p by (simp add: GetPeer_def)
    ultimately show "(p, score_of tokens pm (pi_RegistryID p)) \<in> set (List.map_filter ?f order)"
      unfolding set_map_filter by blast
  qed
  moreover have "length (List.map_filter ?f order) \<le> length order" by (simp add: map_filter_def)
  ultimately show ?thesis using that score_peers_ok[OF assms(2), of tokens order] by metis
qed

lemma GetRelevantPeers_eq:
  assumes "score_peers tokens pm order = Some scored"
  shows "GetRelevantPeers order tokens n pm =
    Some (take (nat n) (map fst (filter (\<lambda>q. snd q \<ge> 1) (exchange_sort scored))))"
  using assms by (simp add: GetRelevantPeers_def take_scored_eq)

text \<open>Ranking. For a query with whatever tokens, routing never panics; it returns connected peers,
  at most the number asked for, each with at least one matching token (or without a filter); and a
  connected peer it leaves out either matches nothing, or the answer is full and no
  returned peer matches fewer tokens.\<close>

theorem relevant_peers_ranked:
  assumes "pm_keyed pm" "blooms_ok pm" "set order = fst ` set (pm_peers pm)"
  shows "\<exists>ps. GetRelevantPeers order tokens n pm = Some ps \<and> int (length ps) \<le> max 0 n \<and>
    (\<forall>p\<in>set ps. GetPeer (pi_RegistryID p) pm = Some p \<and> 1 \<le> score_of tokens pm (pi_RegistryID p)) \<and>
    (\<forall>q. GetPeer (pi_RegistryID q) pm = Some q \<longrightarrow> q \<notin> set ps \<longrightarrow>
       score_of tokens pm (pi_RegistryID q) = 0 \<or>
       (int (length ps) = max 0 n \<and>
        (\<forall>p\<in>set ps. score_of tokens pm (pi_RegistryID q) \<le> score_of tokens pm (pi_RegistryID p))))"
proof -
  obtain scored where sc: "score_peers tokens pm order = Some scored"
    "set scored = {(p, s). GetPeer (pi_RegistryID p) pm = Some p \<and> s = score_of tokens pm (pi_RegistryID p)}"
    by (rule scored_set[OF assms, of tokens])
  define xs where "xs = filter (\<lambda>q. snd q \<ge> 1) (exchange_sort scored)"
  have st: "set (exchange_sort scored) = set scored" "sorted_wrt (\<lambda>p q. snd q \<le> snd p) xs"
    using exchange_sort_correct[of scored] by (metis set_mset_mset, simp add: xs_def sorted_wrt_filter)
  define ps where "ps = take (nat n) (map fst xs)"
  have mem: "(p, s) \<in> set xs \<longleftrightarrow> GetPeer (pi_RegistryID p) pm = Some p \<and> s = score_of tokens pm (pi_RegistryID p) \<and> 1 \<le> s" for p s
    using st(1) sc(2) by (auto simp: xs_def)
  have ps: "p \<in> set ps \<Longrightarrow> \<exists>s. (p, s) \<in> set (take (nat n) xs)" for p
    by (auto simp: ps_def take_map)
  have left: "score_of tokens pm (pi_RegistryID q) = 0 \<or> (int (length ps) = max 0 n \<and>
        (\<forall>p\<in>set ps. score_of tokens pm (pi_RegistryID q) \<le> score_of tokens pm (pi_RegistryID p)))"
    if q: "GetPeer (pi_RegistryID q) pm = Some q" "q \<notin> set ps" for q
  proof (cases "score_of tokens pm (pi_RegistryID q) = 0")
    case False
    then have "(q, score_of tokens pm (pi_RegistryID q)) \<in> set xs" using q(1) by (simp add: mem)
    then have d: "(q, score_of tokens pm (pi_RegistryID q)) \<in> set (drop (nat n) xs)"
    proof -
      have "(q, score_of tokens pm (pi_RegistryID q)) \<notin> set (take (nat n) xs)"
        using q(2) by (force simp: ps_def take_map)
      then show ?thesis
        using \<open>(q, _) \<in> set xs\<close> set_append[of "take (nat n) xs" "drop (nat n) xs"] by auto
    qed
    have "score_of tokens pm (pi_RegistryID q) \<le> score_of tokens pm (pi_RegistryID p)" if p: "p \<in> set ps" for p
    proof -
      obtain s where s: "(p, s) \<in> set (take (nat n) xs)" using ps[OF p] ..
      then have "s = score_of tokens pm (pi_RegistryID p)" using mem in_set_takeD by metis
      then show ?thesis
        using s d sorted_wrt_append[of "\<lambda>p q. snd q \<le> snd p" "take (nat n) xs" "drop (nat n) xs"] st(2) by fastforce
    qed
    moreover have "nat n < length xs" using d by (metis drop_all empty_iff empty_set not_less)
    ultimately show ?thesis by (auto simp: ps_def)
  qed simp
  have "\<forall>p\<in>set ps. GetPeer (pi_RegistryID p) pm = Some p \<and> 1 \<le> score_of tokens pm (pi_RegistryID p)"
    using ps mem in_set_takeD by metis
  moreover have "GetRelevantPeers order tokens n pm = Some ps"
    using GetRelevantPeers_eq[OF sc(1)] by (simp add: ps_def xs_def)
  moreover have "int (length ps) \<le> max 0 n" by (simp add: ps_def)
  ultimately show ?thesis using left by blast
qed

theorem relevant_peers_ranked_witness:
  "\<exists>ps. GetRelevantPeers [''p'', ''q''] [''weather''] 1 two_peers = Some ps \<and> int (length ps) \<le> 1"
proof -
  have "pm_keyed two_peers" "blooms_ok two_peers" "set [''p'', ''q''] = fst ` set (pm_peers two_peers)"
    by (simp_all add: pm_keyed_def blooms_ok_def two_peers_eq keys_distinct_def sample_peer_def map_get_def)
  from relevant_peers_ranked[OF this, of "[''weather'']" 1] show ?thesis by auto
qed

lemma rebuildBloom_holds:
  obtains bf where "rebuildBloom n f agents entries = Some bf" "bf_ok bf"
    "\<And>as a y. agents = Inr as \<Longrightarrow> a \<in> set as \<Longrightarrow>
       y \<in> set (record_tokens (rr_Name a) (rr_Category a) (rr_Tags a) (rr_Summary a)) \<Longrightarrow> bf_Contains y bf = Some True"
proof -
  define items where "items = (case agents of Inl _ \<Rightarrow> [] | Inr as \<Rightarrow> concat (map (\<lambda>a.
            record_tokens (rr_Name a) (rr_Category a) (rr_Tags a) (rr_Summary a)) as)) @
        (case entries of Inl _ \<Rightarrow> [] | Inr es \<Rightarrow> concat (map (\<lambda>e.
            record_tokens (ge_Name e) (ge_Category e) (ge_Tags e) (ge_Summary e)) es))"
  obtain bf where bf: "add_all items (NewBloomFilter n f) = Some bf" "bf_ok bf"
    "\<forall>y\<in>set items. bf_Contains y bf = Some True"
    using add_all_ok[OF NewBloomFilter_ok, of items n f] by blast
  show ?thesis
  proof (rule that)
    show "rebuildBloom n f agents entries = Some bf" using bf(1) by (simp add: rebuildBloom_def items_def)
    show "bf_ok bf" by (rule bf(2))
    show "bf_Contains y bf = Some True" if "agents = Inr as" "a \<in> set as"
      "y \<in> set (record_tokens (rr_Name a) (rr_Category a) (rr_Tags a) (rr_Summary a))" for as a y
      using bf(3) that by (auto simp: items_def)
  qed
qed

lemma heartbeat_delivers_filter:
  assumes "bf_ok bf"
  shows "map_get x (pm_blooms (handleHeartbeat T now k (heartbeat_message rid cnt addrs (Some bf)) pm)) =
    (if x = k then Some bf else map_get x (pm_blooms pm))"
proof -
  let ?blank = "\<lparr>bf_bits = replicate (bf_size bf) False, bf_size = bf_size bf, bf_hashNum = bf_hashNum bf\<rparr>"
  have "bf_bits (FromBytes (bf_Bytes bf) ?blank) = bf_bits bf"
    using assms by (intro FromBytes_Bytes) (simp add: bf_ok_def)
  then have "FromBytes (bf_Bytes bf) ?blank = bf" by (simp add: FromBytes_def)
  moreover have "bf_Bytes bf \<noteq> []" using bf_Bytes_bits[of bf] assms by (auto simp: bf_ok_def)
  ultimately show ?thesis
    using assms by (auto simp: handleHeartbeat_def heartbeat_message_def SetPeerBloomFilter_def
        UpdatePeerLastSeen_def bf_ok_def split: option.splits)
qed

lemma heartbeat_keeps_peer_keys:
  "fst ` set (pm_peers (handleHeartbeat T now k hb pm)) = fst ` set (pm_peers pm)"
  "pm_keyed pm \<Longrightarrow> pm_keyed (handleHeartbeat T now k hb pm)"
proof -
  have m: "map_get k (pm_peers pm) = Some p \<Longrightarrow> k \<in> fst ` set (pm_peers pm)" for p
    by (auto simp: map_get_def image_iff dest!: t_get_Some intro: rev_bexI)
  then show "fst ` set (pm_peers (handleHeartbeat T now k hb pm)) = fst ` set (pm_peers pm)"
    by (auto simp: handleHeartbeat_def SetPeerBloomFilter_def UpdatePeerLastSeen_def keys_map_set Let_def
        split: option.splits)
  show "pm_keyed (handleHeartbeat T now k hb pm)" if "pm_keyed pm"
  proof -
    have "pm_keyed (UpdatePeerLastSeen T now k pm)"
    proof (cases "map_get k (pm_peers pm)")
      case (Some p)
      moreover have "pi_RegistryID p = k" by (rule keyed_get[OF that Some])
      moreover have "k \<noteq> ''''" using m[OF Some] that by (auto simp: pm_keyed_def)
      ultimately show ?thesis using that by (simp add: UpdatePeerLastSeen_def pm_keyed_set)
    qed (use that in \<open>simp add: UpdatePeerLastSeen_def\<close>)
    then show ?thesis
      by (simp add: handleHeartbeat_def Let_def SetPeerBloomFilter_def pm_keyed_def keys_distinct_map_ops)
  qed
qed



end
