(* ===== verification/Api.thy ===== *)
theory Api
  imports Gossip Zns Peers
begin

text \<open>
  The HTTP API of a registry node (\<open>src/internal/api/server.go\<close>, \<open>heartbeat.go\<close>,
  \<open>monitor.go\<close>): one definition per handler, from its arguments (path values, decoded body,
  Authorization header) and the server state to the response (status and payload) and the new
  state. The store is the one of the gossip handler: \<open>cmd/agentdns/main.go\<close> hands the same
  store to both. Calls of the search engine's index and events on the bus are appended to
  \<open>s_index\<close> and \<open>s_events\<close> in the order they happen.

  The record \<open>env\<close> holds what the handlers call outside the sources: the signature scheme, the
  time format, the JSON encoders and decoders, \<open>url.Parse\<close> and the DNS resolver. A decoded body is an option
  (\<^term>\<open>None\<close>: the body could not be read or decoded). The time read by a handler is \<open>now\<close>.
  A slice whose \<open>nil\<close> is told apart from the empty slice is an option. Error payloads carry the
  message without its formatted arguments.
\<close>

section \<open>Requests and responses\<close>

datatype json = JStr string | JStrs "string list option" | JObj "(string \<times> json) list"

record DeveloperRegistrationRequest =
  drq_Name :: string
  drq_PublicKey :: string
  drq_ProfileURL :: string
  drq_GitHub :: string
  drq_Signature :: string
  drq_Handle :: string

record DeveloperUpdateRequest =
  duq_Name :: "string option"
  duq_ProfileURL :: "string option"
  duq_GitHub :: "string option"
  duq_Signature :: string

record DeveloperApprovalRequest =
  daq_Name :: string
  daq_State :: string
  daq_CallbackPort :: int
  daq_Metadata :: "string \<rightharpoonup> string"

record RegistrationRequest =
  rq_Name :: string
  rq_EntityURL :: string
  rq_Category :: string
  rq_Tags :: "string list option"
  rq_Summary :: string
  rq_CapabilitySummary :: "CapabilitySummary option"
  rq_PublicKey :: string
  rq_Signature :: string
  rq_DeveloperID :: string
  rq_DeveloperProof :: "DeveloperProof option"
  rq_EntityName :: string
  rq_Version :: string
  rq_EntityType :: string
  rq_ServiceEndpoint :: string
  rq_OpenAPIURL :: string
  rq_EntityPricing :: "EntityPricing option"

record UpdateRequest =
  uq_Name :: "string option"
  uq_EntityURL :: "string option"
  uq_Category :: "string option"
  uq_Tags :: "string list option"
  uq_Summary :: "string option"
  uq_CapabilitySummary :: "CapabilitySummary option"
  uq_TTL :: "int option"
  uq_CodebaseHash :: "string option"
  uq_Signature :: string

record HandleClaimRequest =
  hcq_Handle :: string
  hcq_DeveloperID :: string
  hcq_PublicKey :: string
  hcq_Signature :: string

record HandleVerifyRequest =
  hvq_Method :: string
  hvq_Proof :: string

record NameBindingRequest =
  nbq_EntityName :: string
  nbq_DeveloperHandle :: string
  nbq_EntityID :: string
  nbq_Version :: string
  nbq_CapabilityTags :: "string list option"
  nbq_Signature :: string

text \<open>The anonymous request struct of \<open>handleUpdateName\<close>.\<close>

record NameUpdateRequest =
  nuq_Version :: string
  nuq_CapabilityTags :: "string list option"
  nuq_Signature :: string

record env =
  v_E :: ed25519
  v_T :: timefmt
  v_announce :: "GossipAnnouncement \<Rightarrow> byte list option"
  v_marshal :: "json \<Rightarrow> byte list"
  v_encode :: "json \<Rightarrow> byte list option"
  v_Hostname :: "string \<Rightarrow> string option"
  v_resolver :: resolver
  v_developer_update :: "byte list \<Rightarrow> DeveloperUpdateRequest option"
  v_entity_update :: "byte list \<Rightarrow> UpdateRequest option"

record ZNSResolveResponse =
  zrr_FQAN :: string
  zrr_EntityID :: string
  zrr_DeveloperID :: string
  zrr_DeveloperHandle :: string
  zrr_RegistryHost :: string
  zrr_Version :: string
  zrr_EntityURL :: string
  zrr_PublicKey :: string
  zrr_Protocols :: "string list"
  zrr_TrustScore :: real
  zrr_VerificationTier :: string
  zrr_Status :: string

record dhtRecord =
  dr_EntityID :: string
  dr_Name :: string
  dr_Category :: string
  dr_Tags :: "string list"
  dr_Summary :: string
  dr_EntityURL :: string
  dr_PublicKey :: string
  dr_HomeRegistry :: string
  dr_DeveloperID :: string
  dr_Status :: string

text \<open>The local structs \<open>agentResp\<close>, \<open>agentWithFQAN\<close> and \<open>entityResp\<close>: a record with its name.\<close>

record entityResp =
  er_record :: RegistryRecord
  er_FQAN :: string
  er_DeveloperHandle :: string

datatype payload =
  PError string
| PFields "(string \<times> string) list"
| PDeveloper DeveloperRecord
| PRecord RegistryRecord
| PEntity entityResp
| PEntities string "entityResp list"
| PGossipEntry GossipEntry
| PDht dhtRecord
| PHandle DeveloperRecord
| PHandleAvailable string bool
| PNameAvailable string string bool string
| PName ZNSName
| PNames "ZNSName list"
| PVersions "ZNSVersion list"
| PResolve ZNSResolveResponse
| PProof RegistryIdentityProof
| PPeers "PeerInfo list"
| PStats int int

type_synonym response = "nat \<times> payload"

definition writeError :: "nat \<Rightarrow> string \<Rightarrow> response" where
  "writeError status message = (status, PError message)"

section \<open>Server state\<close>

record EntityEventData =
  eed_EntityID :: string
  eed_Name :: string
  eed_Category :: string
  eed_Tags :: "string list"
  eed_Summary :: string

record ZNSEventData =
  zed_FQAN :: string
  zed_Handle :: string
  zed_DeveloperID :: string
  zed_EntityID :: string
  zed_Action :: string

record HeartbeatEventData =
  hed_EntityID :: string
  hed_Status :: string

datatype server_event =
  EntityEvent string EntityEventData
| ZNSEvent string ZNSEventData
| HeartbeatEvent string HeartbeatEventData

datatype index_call = IndexAgent RegistryRecord | RemoveAgent string

record ServerConfig =
  c_HTTPSEndpoint :: string
  c_OnboardingMode :: string
  c_AuthURL :: string
  c_WebhookSecret :: string
  c_MaxClockSkewS :: int
  c_InactiveThresholdS :: int

record Server =
  s_cfg :: ServerConfig
  s_gossip :: GossipHandler
  s_nodeIdentity :: Keypair
  s_peerManager :: PeerManager
  s_index :: "index_call list"
  s_events :: "server_event list"

abbreviation s_store :: "Server \<Rightarrow> DB" where
  "s_store s \<equiv> gh_store (s_gossip s)"

definition set_store :: "DB \<Rightarrow> Server \<Rightarrow> Server" where
  "set_store db s = s\<lparr>s_gossip := (s_gossip s)\<lparr>gh_store := db\<rparr>\<rparr>"

definition Publish :: "server_event \<Rightarrow> Server \<Rightarrow> Server" where
  "Publish e s = s\<lparr>s_events := s_events s @ [e]\<rparr>"

definition index_agent :: "index_call \<Rightarrow> Server \<Rightarrow> Server" where
  "index_agent c s = s\<lparr>s_index := s_index s @ [c]\<rparr>"

text \<open>\<open>ann := s.gossip.Create...(..., RegistryID(), PublicKeyString(), Sign)\<close> followed by
  \<open>s.gossip.BroadcastAnnouncement(ann)\<close>; \<open>mk\<close> is the constructor applied to its first arguments.\<close>

definition announce ::
  "env \<Rightarrow> int \<Rightarrow> (string \<Rightarrow> string \<Rightarrow> (byte list \<Rightarrow> string) \<Rightarrow> GossipHandler \<Rightarrow> GossipAnnouncement) \<Rightarrow> Server \<Rightarrow> Server" where
  "announce v now mk s = s\<lparr>s_gossip := BroadcastAnnouncement now
     (Some (mk (kp_RegistryID (s_nodeIdentity s)) (PublicKeyString (s_nodeIdentity s))
        (kp_Sign (v_E v) (s_nodeIdentity s)) (s_gossip s))) (s_gossip s)\<rparr>"

definition RegistryHost :: "env \<Rightarrow> ServerConfig \<Rightarrow> string" where
  "RegistryHost v c =
     (if c_HTTPSEndpoint c = '''' then ''''
      else case v_Hostname v (c_HTTPSEndpoint c) of None \<Rightarrow> '''' | Some h \<Rightarrow> h)"

definition NowRFC3339 :: "env \<Rightarrow> int \<Rightarrow> string" where
  "NowRFC3339 v now = tf_Format (v_T v) now"

section \<open>Ownership\<close>

definition strip_key :: "string \<Rightarrow> string" where
  "strip_key key = (if HasPrefix key ''ed25519:'' then drop 8 key else key)"

text \<open>\<^term>\<open>None\<close> is \<open>nil\<close>.\<close>

definition verifyOwnership :: "env \<Rightarrow> string \<Rightarrow> byte list \<Rightarrow> string \<Rightarrow> string option" where
  "verifyOwnership v publicKey data authHeader =
     (if authHeader = '''' then Some ''missing Authorization header''
      else let dev = HasPrefix authHeader ''Bearer-Dev '';
               signature = (if dev then TrimPrefix authHeader ''Bearer-Dev ''
                            else TrimPrefix authHeader ''Bearer '')
           in if \<not> dev \<and> signature = authHeader
              then Some ''Authorization header must use Bearer or Bearer-Dev scheme''
              else case Verify (v_E v) (strip_key publicKey) data signature of
                Inl _ \<Rightarrow> Some ''signature verification failed''
              | Inr valid \<Rightarrow> if valid then None else Some ''invalid ownership signature'')"

definition verifyDualKeyOwnership ::
  "env \<Rightarrow> DB \<Rightarrow> RegistryRecord \<Rightarrow> byte list \<Rightarrow> string \<Rightarrow> string option" where
  "verifyDualKeyOwnership v db agent data authHeader =
     (if authHeader = '''' then Some ''missing Authorization header''
      else if HasPrefix authHeader ''Bearer-Dev '' then
        (if rr_DeveloperID agent = '''' then Some ''agent has no developer; cannot use Bearer-Dev auth''
         else case GetDeveloper (v_T v) (rr_DeveloperID agent) db of
           Inl _ \<Rightarrow> Some ''failed to look up developer''
         | Inr None \<Rightarrow>
             (case GetGossipDeveloper (v_T v) (rr_DeveloperID agent) db of
                Inl _ \<Rightarrow> Some ''developer not found''
              | Inr None \<Rightarrow> Some ''developer not found''
              | Inr (Some gossipDev) \<Rightarrow> verifyOwnership v (gd_PublicKey gossipDev) data authHeader)
         | Inr (Some dev) \<Rightarrow> verifyOwnership v (dev_PublicKey dev) data authHeader)
      else verifyOwnership v (rr_PublicKey agent) data authHeader)"

section \<open>Developers\<close>

definition developer_signable :: "DeveloperRegistrationRequest \<Rightarrow> json" where
  "developer_signable req = JObj [(''name'', JStr (drq_Name req)), (''public_key'', JStr (drq_PublicKey req)),
     (''profile_url'', JStr (drq_ProfileURL req)), (''github'', JStr (drq_GitHub req))]"

definition signature_ok :: "verify_error + bool \<Rightarrow> bool" where
  "signature_ok r = (case r of Inl _ \<Rightarrow> False | Inr valid \<Rightarrow> valid)"

definition developer_record ::
  "env \<Rightarrow> int \<Rightarrow> string \<Rightarrow> DeveloperRegistrationRequest \<Rightarrow> string \<Rightarrow> DeveloperRecord" where
  "developer_record v now developerID req host = \<lparr>dev_DeveloperID = developerID, dev_Name = drq_Name req,
     dev_PublicKey = drq_PublicKey req, dev_ProfileURL = drq_ProfileURL req,
     dev_GitHub = drq_GitHub req, dev_HomeRegistry = host,
     dev_SchemaVersion = CurrentSchemaVersion, dev_RegisteredAt = NowRFC3339 v now,
     dev_UpdatedAt = NowRFC3339 v now, dev_Signature = drq_Signature req,
     dev_DevHandle = drq_Handle req, dev_DevHandleVerified = False, dev_VerificationMethod = '''',
     dev_VerificationProof = ''''\<rparr>"

definition handle_claimed_event :: "string \<Rightarrow> string \<Rightarrow> server_event" where
  "handle_claimed_event handle developerID = ZNSEvent ''handle_claimed''
     \<lparr>zed_FQAN = '''', zed_Handle = handle, zed_DeveloperID = developerID, zed_EntityID = '''',
      zed_Action = ''claim''\<rparr>"

text \<open>The availability check of a requested handle ignores an error of the store.\<close>

definition handle_refused :: "env \<Rightarrow> string \<Rightarrow> Server \<Rightarrow> response option" where
  "handle_refused v handle s =
     (if handle = '''' then None
      else case ValidateHandle handle of
        Some _ \<Rightarrow> Some (writeError 400 ''invalid handle'')
      | None \<Rightarrow>
          (case GetDeveloperByHandle (v_T v) handle (RegistryHost v (s_cfg s)) (s_store s) of
             Inr (Some _) \<Rightarrow> Some (writeError 409 ''handle is already taken on this registry'')
           | _ \<Rightarrow> None))"

definition create_error :: "dberr \<Rightarrow> string \<Rightarrow> string \<Rightarrow> response" where
  "create_error e conflict failed =
     (if e = UniqueViolation then writeError 409 conflict else writeError 500 failed)"

definition handleRegisterDeveloper ::
  "env \<Rightarrow> int \<Rightarrow> DeveloperRegistrationRequest option \<Rightarrow> Server \<Rightarrow> response \<times> Server" where
  "handleRegisterDeveloper v now body s =
     (if c_OnboardingMode (s_cfg s) = ''restricted'' then
        ((403, PFields ([(''error'', ''self-registration is disabled'')] @
            (if c_AuthURL (s_cfg s) \<noteq> '''' then [(''auth_url'', c_AuthURL (s_cfg s))] else []))), s)
      else case body of
        None \<Rightarrow> (writeError 400 ''invalid request body'', s)
      | Some req \<Rightarrow>
        if drq_Name req = '''' \<or> drq_PublicKey req = '''' then
          (writeError 400 ''name and public_key are required'', s)
        else if drq_Signature req = '''' then (writeError 400 ''signature is required'', s)
        else
          let pubKeyStr = strip_key (drq_PublicKey req);
              signable = v_marshal v (developer_signable req)
          in if \<not> signature_ok (Verify (v_E v) pubKeyStr signable (drq_Signature req)) then
               (writeError 401 ''invalid signature'', s)
             else case b64_DecodeString pubKeyStr of
               None \<Rightarrow> (writeError 400 ''invalid public key encoding'', s)
             | Some pubKeyBytes \<Rightarrow>
               let developerID = GenerateDeveloperID pubKeyBytes
               in case handle_refused v (drq_Handle req) s of
                 Some resp \<Rightarrow> (resp, s)
               | None \<Rightarrow>
                 let dev = developer_record v now developerID req (RegistryHost v (s_cfg s))
                 in case dev_Validate dev of
                   Some e \<Rightarrow> (writeError 400 e, s)
                 | None \<Rightarrow>
                   (case CreateDeveloper (v_T v) dev (s_store s) of
                      (Inl e, db) \<Rightarrow>
                        (create_error e ''developer already registered (or handle already taken)''
                           ''failed to register developer'', set_store db s)
                    | (Inr _, db) \<Rightarrow>
                        let s = set_store db s;
                            s = announce v now
                              (CreateDeveloperAnnouncement (v_announce v) (v_T v) now dev ''register'') s;
                            s = (if drq_Handle req \<noteq> '''' then
                                   Publish (handle_claimed_event (drq_Handle req) developerID)
                                     (announce v now (CreateHandleAnnouncement (v_announce v) (v_T v) now dev
                                        (drq_Handle req) False '''' ''claim'') s)
                                 else s)
                        in ((201, PFields ([(''developer_id'', developerID),
                               (''message'', ''developer registered successfully'')] @
                               (if drq_Handle req \<noteq> '''' then [(''handle'', drq_Handle req)] else []))), s)))"

definition gossip_developer_record :: "GossipDeveloperEntry \<Rightarrow> DeveloperRecord" where
  "gossip_developer_record g = \<lparr>dev_DeveloperID = gd_DeveloperID g, dev_Name = gd_Name g,
     dev_PublicKey = gd_PublicKey g, dev_ProfileURL = gd_ProfileURL g, dev_GitHub = gd_GitHub g,
     dev_HomeRegistry = gd_HomeRegistry g, dev_SchemaVersion = '''', dev_RegisteredAt = '''',
     dev_UpdatedAt = '''', dev_Signature = '''', dev_DevHandle = '''', dev_DevHandleVerified = False,
     dev_VerificationMethod = '''', dev_VerificationProof = ''''\<rparr>"

definition handleGetDeveloper :: "env \<Rightarrow> string \<Rightarrow> Server \<Rightarrow> response" where
  "handleGetDeveloper v developerID s =
     (if developerID = '''' then writeError 400 ''developer_id is required''
      else case GetDeveloper (v_T v) developerID (s_store s) of
        Inl _ \<Rightarrow> writeError 500 ''failed to get developer''
      | Inr (Some dev) \<Rightarrow> (200, PDeveloper dev)
      | Inr None \<Rightarrow>
          (case GetGossipDeveloper (v_T v) developerID (s_store s) of
             Inr (Some g) \<Rightarrow> (200, PDeveloper (gossip_developer_record g))
           | _ \<Rightarrow> writeError 404 ''developer not found''))"

definition set_if :: "'a option \<Rightarrow> 'a \<Rightarrow> 'a" where
  "set_if new old = (case new of None \<Rightarrow> old | Some x \<Rightarrow> x)"

definition updated_developer :: "env \<Rightarrow> int \<Rightarrow> DeveloperUpdateRequest \<Rightarrow> DeveloperRecord \<Rightarrow> DeveloperRecord" where
  "updated_developer v now req existing = existing\<lparr>dev_Name := set_if (duq_Name req) (dev_Name existing),
     dev_ProfileURL := set_if (duq_ProfileURL req) (dev_ProfileURL existing),
     dev_GitHub := set_if (duq_GitHub req) (dev_GitHub existing),
     dev_UpdatedAt := NowRFC3339 v now, dev_Signature := duq_Signature req\<rparr>"

text \<open>The body is read as bytes, checked against the signature, and only then decoded.\<close>

definition handleUpdateDeveloper ::
  "env \<Rightarrow> int \<Rightarrow> string \<Rightarrow> byte list option \<Rightarrow> string \<Rightarrow> Server
    \<Rightarrow> response \<times> Server" where
  "handleUpdateDeveloper v now developerID body auth s =
     (if developerID = '''' then (writeError 400 ''developer_id is required'', s)
      else case GetDeveloper (v_T v) developerID (s_store s) of
        Inl _ \<Rightarrow> (writeError 500 ''failed to get developer'', s)
      | Inr None \<Rightarrow> (writeError 404 ''developer not found'', s)
      | Inr (Some existing) \<Rightarrow>
        (case body of
           None \<Rightarrow> (writeError 400 ''failed to read request body'', s)
         | Some bodyBytes \<Rightarrow>
           (case verifyOwnership v (dev_PublicKey existing) bodyBytes auth of
              Some _ \<Rightarrow> (writeError 401 ''ownership verification failed'', s)
            | None \<Rightarrow>
              (case v_developer_update v bodyBytes of
                 None \<Rightarrow> (writeError 400 ''invalid request body'', s)
               | Some req \<Rightarrow>
                 let dev = updated_developer v now req existing
                 in (case UpdateDeveloper (v_T v) dev (s_store s) of
                       (Inl _, db) \<Rightarrow> (writeError 500 ''failed to update developer'', set_store db s)
                     | (Inr _, db) \<Rightarrow>
                         ((200, PDeveloper dev),
                          announce v now (CreateDeveloperAnnouncement (v_announce v) (v_T v) now dev ''update'')
                            (set_store db s)))))))"

definition handleDeleteDeveloper ::
  "env \<Rightarrow> int \<Rightarrow> string \<Rightarrow> string \<Rightarrow> Server \<Rightarrow> response \<times> Server" where
  "handleDeleteDeveloper v now developerID auth s =
     (if developerID = '''' then (writeError 400 ''developer_id is required'', s)
      else case GetDeveloper (v_T v) developerID (s_store s) of
        Inr (Some existing) \<Rightarrow>
          (case verifyOwnership v (dev_PublicKey existing) (string_bytes developerID) auth of
             Some _ \<Rightarrow> (writeError 401 ''ownership verification failed'', s)
           | None \<Rightarrow>
             (case DeleteDeveloper developerID (s_store s) of
                (Inl _, db) \<Rightarrow> (writeError 500 ''failed to delete developer'', set_store db s)
              | (Inr _, db) \<Rightarrow>
                  ((200, PFields [(''message'', ''developer deregistered'')]),
                   announce v now (CreateDeveloperAnnouncement (v_announce v) (v_T v) now existing ''deregister'')
                     (set_store db s))))
      | _ \<Rightarrow> (writeError 404 ''developer not found'', s))"

section \<open>Name bindings\<close>

text \<open>\<open>x, _ := s.store.Get...(...)\<close>: an error leaves \<open>nil\<close>.\<close>

definition found :: "dberr + 'a option \<Rightarrow> 'a option" where
  "found r = (case r of Inl _ \<Rightarrow> None | Inr x \<Rightarrow> x)"

definition store_version :: "env \<Rightarrow> int \<Rightarrow> string \<Rightarrow> string \<Rightarrow> string \<Rightarrow> string \<Rightarrow> Server \<Rightarrow> Server" where
  "store_version v now fqan version entityID signature s =
     (if version \<noteq> '''' then
        set_store (snd (CreateZNSVersion (v_T v) \<lparr>zv_FQAN = fqan, zv_Version = version,
          zv_EntityID = entityID, zv_BuildHash = '''', zv_RegisteredAt = NowRFC3339 v now,
          zv_Signature = signature\<rparr> (s_store s))) s
      else s)"

definition name_registered_event :: "string \<Rightarrow> string \<Rightarrow> string \<Rightarrow> server_event" where
  "name_registered_event fqan developerID entityID = ZNSEvent ''name_registered''
     \<lparr>zed_FQAN = fqan, zed_Handle = '''', zed_DeveloperID = developerID, zed_EntityID = entityID,
      zed_Action = ''register''\<rparr>"

text \<open>Another entity, with another key, holds the name.\<close>

definition name_held_by_other :: "env \<Rightarrow> ZNSName option \<Rightarrow> string \<Rightarrow> DB \<Rightarrow> bool" where
  "name_held_by_other v existing publicKey db =
     (case existing of
        None \<Rightarrow> False
      | Some n \<Rightarrow>
          (case found (GetEntity (v_T v) (zn_EntityID n) db) of
             None \<Rightarrow> False | Some a \<Rightarrow> rr_PublicKey a \<noteq> publicKey))"

text \<open>Creating the binding, its version record, the announcement and the event.\<close>

definition bind_name :: "env \<Rightarrow> int \<Rightarrow> ZNSName \<Rightarrow> Server \<Rightarrow> (dberr + unit) \<times> Server" where
  "bind_name v now name s =
     (case CreateZNSName (v_T v) name (s_store s) of
        (Inl e, db) \<Rightarrow> (Inl e, set_store db s)
      | (Inr _, db) \<Rightarrow>
          let s = store_version v now (zn_FQAN name) (zn_CurrentVersion name) (zn_EntityID name)
                    (zn_Signature name) (set_store db s);
              s = announce v now (CreateNameBindingAnnouncement (v_announce v) (v_T v) now name ''register'') s
          in (Inr (), Publish (name_registered_event (zn_FQAN name) (zn_DeveloperID name) (zn_EntityID name)) s))"

text \<open>The returned name is empty where the code returns an error.\<close>

definition createZNSNameBinding ::
  "env \<Rightarrow> int \<Rightarrow> RegistryRecord \<Rightarrow> string \<Rightarrow> string \<Rightarrow> string \<Rightarrow> Server \<Rightarrow> string \<times> Server" where
  "createZNSNameBinding v now record agentName version registryHost s =
     (if ValidateAgentName agentName \<noteq> None then ('''', s)
      else case found (GetDeveloper (v_T v) (rr_DeveloperID record) (s_store s)) of
        None \<Rightarrow> ('''', s)
      | Some dev \<Rightarrow>
        if dev_DevHandle dev = '''' then ('''', s)
        else
          let existing = found (GetZNSNameByParts (v_T v) (dev_DevHandle dev) agentName registryHost (s_store s));
              fqan = BuildFQAN registryHost (dev_DevHandle dev) agentName;
              name = \<lparr>zn_FQAN = fqan, zn_EntityName = agentName, zn_DeveloperHandle = dev_DevHandle dev,
                zn_RegistryHost = registryHost, zn_EntityID = rr_EntityID record,
                zn_DeveloperID = rr_DeveloperID record, zn_CurrentVersion = version,
                zn_CapabilityTags = [], zn_RegisteredAt = NowRFC3339 v now,
                zn_UpdatedAt = NowRFC3339 v now, zn_Signature = rr_Signature record\<rparr>
          in if name_held_by_other v existing (rr_PublicKey record) (s_store s) then ('''', s)
             else if (case existing of None \<Rightarrow> False | Some n \<Rightarrow> zn_EntityID n = rr_EntityID record)
               then (zn_FQAN (the existing), s)
             else case bind_name v now name s of
               (Inl _, s) \<Rightarrow> ('''', s)
             | (Inr _, s) \<Rightarrow> (fqan, s))"

definition name_signable :: "NameBindingRequest \<Rightarrow> json" where
  "name_signable req = JObj [(''entity_name'', JStr (nbq_EntityName req)),
     (''developer_handle'', JStr (nbq_DeveloperHandle req)), (''entity_id'', JStr (nbq_EntityID req)),
     (''version'', JStr (nbq_Version req)), (''capability_tags'', JStrs (nbq_CapabilityTags req))]"

definition requested_name :: "env \<Rightarrow> int \<Rightarrow> NameBindingRequest \<Rightarrow> string \<Rightarrow> DeveloperRecord \<Rightarrow> ZNSName" where
  "requested_name v now req registryHost dev =
     \<lparr>zn_FQAN = BuildFQAN registryHost (nbq_DeveloperHandle req) (nbq_EntityName req),
      zn_EntityName = nbq_EntityName req, zn_DeveloperHandle = nbq_DeveloperHandle req,
      zn_RegistryHost = registryHost, zn_EntityID = nbq_EntityID req,
      zn_DeveloperID = dev_DeveloperID dev, zn_CurrentVersion = nbq_Version req,
      zn_CapabilityTags = set_if (nbq_CapabilityTags req) [], zn_RegisteredAt = NowRFC3339 v now,
      zn_UpdatedAt = NowRFC3339 v now, zn_Signature = nbq_Signature req\<rparr>"

definition handleRegisterName ::
  "env \<Rightarrow> int \<Rightarrow> NameBindingRequest option \<Rightarrow> Server \<Rightarrow> response \<times> Server" where
  "handleRegisterName v now body s = (case body of
       None \<Rightarrow> (writeError 400 ''invalid request body'', s)
     | Some req \<Rightarrow>
       if nbq_EntityName req = '''' \<or> nbq_DeveloperHandle req = '''' \<or> nbq_EntityID req = '''' \<or>
          nbq_Signature req = ''''
       then (writeError 400 ''entity_name, developer_handle, entity_id, and signature are required'', s)
       else case ValidateAgentName (nbq_EntityName req) of
         Some e \<Rightarrow> (writeError 400 e, s)
       | None \<Rightarrow>
         let registryHost = RegistryHost v (s_cfg s)
         in if registryHost = '''' then
              (writeError 400 ''registry has no HTTPS endpoint configured; ZNS naming is unavailable'', s)
            else case found (GetDeveloperByHandle (v_T v) (nbq_DeveloperHandle req) registryHost (s_store s)) of
              None \<Rightarrow> (writeError 404 ''developer handle not found'', s)
            | Some dev \<Rightarrow>
              (case found (GetEntity (v_T v) (nbq_EntityID req) (s_store s)) of
                 None \<Rightarrow> (writeError 404 ''entity not found'', s)
               | Some agent \<Rightarrow>
                 let existing = found (GetZNSNameByParts (v_T v) (nbq_DeveloperHandle req)
                       (nbq_EntityName req) registryHost (s_store s))
                 in if name_held_by_other v existing (rr_PublicKey agent) (s_store s) then
                      (writeError 409 ''entity name is already registered with a different key'', s)
                    else if \<not> signature_ok (Verify (v_E v) (TrimPrefix (dev_PublicKey dev) ''ed25519:'')
                        (v_marshal v (name_signable req)) (nbq_Signature req)) then
                      (writeError 401 ''invalid signature'', s)
                    else
                      let name = requested_name v now req registryHost dev
                      in (case bind_name v now name s of
                            (Inl e, s) \<Rightarrow>
                              (create_error e ''name already registered'' ''failed to register name'', s)
                          | (Inr _, s) \<Rightarrow>
                              ((201, PFields [(''fqan'', zn_FQAN name), (''entity_id'', nbq_EntityID req),
                                 (''message'', ''name registered successfully'')]), s))))"

definition handleGetName :: "env \<Rightarrow> string \<Rightarrow> string \<Rightarrow> Server \<Rightarrow> response" where
  "handleGetName v devHandle entityName s =
     (if devHandle = '''' \<or> entityName = '''' then writeError 400 ''developer and entity are required''
      else case GetZNSNameByParts (v_T v) devHandle entityName (RegistryHost v (s_cfg s)) (s_store s) of
        Inl _ \<Rightarrow> writeError 500 ''failed to look up name''
      | Inr None \<Rightarrow> writeError 404 ''name not found''
      | Inr (Some name) \<Rightarrow> (200, PName name))"

definition handleCheckNameAvailable :: "env \<Rightarrow> string \<Rightarrow> string \<Rightarrow> Server \<Rightarrow> response" where
  "handleCheckNameAvailable v devHandle entityName s =
     (if devHandle = '''' \<or> entityName = '''' then writeError 400 ''developer and entity are required''
      else if ValidateAgentName entityName \<noteq> None then (200, PNameAvailable devHandle entityName False '''')
      else case GetZNSNameByParts (v_T v) devHandle entityName (RegistryHost v (s_cfg s)) (s_store s) of
        Inl _ \<Rightarrow> writeError 500 ''failed to check name availability''
      | Inr None \<Rightarrow> (200, PNameAvailable devHandle entityName True '''')
      | Inr (Some existing) \<Rightarrow> (200, PNameAvailable devHandle entityName False (zn_EntityID existing)))"

definition updated_name :: "env \<Rightarrow> int \<Rightarrow> NameUpdateRequest \<Rightarrow> ZNSName \<Rightarrow> ZNSName" where
  "updated_name v now req name = name\<lparr>
     zn_CurrentVersion := or_default (nuq_Version req) (zn_CurrentVersion name),
     zn_CapabilityTags := set_if (nuq_CapabilityTags req) (zn_CapabilityTags name),
     zn_UpdatedAt := NowRFC3339 v now, zn_Signature := nuq_Signature req\<rparr>"

definition handleUpdateName ::
  "env \<Rightarrow> int \<Rightarrow> string \<Rightarrow> string \<Rightarrow> NameUpdateRequest option \<Rightarrow> Server \<Rightarrow> response \<times> Server" where
  "handleUpdateName v now devHandle entityName body s =
     (case found (GetZNSNameByParts (v_T v) devHandle entityName (RegistryHost v (s_cfg s)) (s_store s)) of
        None \<Rightarrow> (writeError 404 ''name not found'', s)
      | Some name \<Rightarrow>
        (case body of
           None \<Rightarrow> (writeError 400 ''invalid request body'', s)
         | Some req \<Rightarrow>
           let name = updated_name v now req name
           in (case UpdateZNSName (v_T v) name (s_store s) of
                 (Inl _, db) \<Rightarrow> (writeError 500 ''failed to update name'', set_store db s)
               | (Inr _, db) \<Rightarrow>
                   ((200, PName name),
                    announce v now (CreateNameBindingAnnouncement (v_announce v) (v_T v) now name ''update'')
                      (store_version v now (zn_FQAN name) (nuq_Version req) (zn_EntityID name)
                         (nuq_Signature req) (set_store db s))))))"

definition handleReleaseName ::
  "env \<Rightarrow> int \<Rightarrow> string \<Rightarrow> string \<Rightarrow> string \<Rightarrow> Server \<Rightarrow> response \<times> Server" where
  "handleReleaseName v now devHandle entityName auth s =
     (let registryHost = RegistryHost v (s_cfg s)
      in case found (GetZNSNameByParts (v_T v) devHandle entityName registryHost (s_store s)) of
        None \<Rightarrow> (writeError 404 ''name not found'', s)
      | Some name \<Rightarrow>
        (case found (GetDeveloperByHandle (v_T v) devHandle registryHost (s_store s)) of
           None \<Rightarrow> (writeError 404 ''developer not found'', s)
         | Some dev \<Rightarrow>
           (case verifyOwnership v (dev_PublicKey dev) (string_bytes (''release:'' @ zn_FQAN name)) auth of
              Some _ \<Rightarrow> (writeError 401 ''unauthorized'', s)
            | None \<Rightarrow>
              (case DeleteZNSName (zn_FQAN name) (s_store s) of
                 (Inl _, db) \<Rightarrow> (writeError 500 ''failed to release name'', set_store db s)
               | (Inr _, db) \<Rightarrow>
                   ((200, PFields [(''message'', ''name released'')]),
                    announce v now (CreateNameBindingAnnouncement (v_announce v) (v_T v) now name ''release'')
                      (set_store db s))))))"

definition handleListVersions :: "env \<Rightarrow> string \<Rightarrow> string \<Rightarrow> Server \<Rightarrow> response" where
  "handleListVersions v devHandle entityName s =
     (case found (GetZNSNameByParts (v_T v) devHandle entityName (RegistryHost v (s_cfg s)) (s_store s)) of
        None \<Rightarrow> writeError 404 ''name not found''
      | Some name \<Rightarrow>
          (case GetZNSVersions (v_T v) (zn_FQAN name) (s_store s) of
             Inl _ \<Rightarrow> writeError 500 ''failed to list versions''
           | Inr versions \<Rightarrow> (200, PVersions versions)))"

section \<open>Entities\<close>

definition entity_signable :: "RegistrationRequest \<Rightarrow> json" where
  "entity_signable req = JObj ([(''name'', JStr (rq_Name req)), (''entity_url'', JStr (rq_EntityURL req)),
     (''category'', JStr (rq_Category req)), (''tags'', JStrs (rq_Tags req)),
     (''summary'', JStr (rq_Summary req)), (''public_key'', JStr (rq_PublicKey req))] @
     (if rq_EntityType req \<noteq> '''' then [(''entity_type'', JStr (rq_EntityType req))] else []))"

text \<open>The developer key a registration must name: the local developer's, or that of a gossiped one.\<close>

definition developer_key :: "env \<Rightarrow> string \<Rightarrow> DB \<Rightarrow> response + string" where
  "developer_key v developerID db =
     (case GetDeveloper (v_T v) developerID db of
        Inl _ \<Rightarrow> Inl (writeError 500 ''failed to look up developer'')
      | Inr (Some dev) \<Rightarrow> Inr (dev_PublicKey dev)
      | Inr None \<Rightarrow>
          (case found (GetGossipDeveloper (v_T v) developerID db) of
             None \<Rightarrow> Inl (writeError 400 ''developer_id not found; register developer first'')
           | Some g \<Rightarrow> Inr (gd_PublicKey g)))"

definition check_developer :: "env \<Rightarrow> RegistrationRequest \<Rightarrow> DB \<Rightarrow> response + DeveloperProof" where
  "check_developer v req db =
     (case rq_DeveloperProof req of
        None \<Rightarrow> Inl (writeError 400 ''developer_id and developer_proof are required'')
      | Some proof \<Rightarrow>
        if rq_DeveloperID req = '''' then
          Inl (writeError 400 ''developer_id and developer_proof are required'')
        else case developer_key v (rq_DeveloperID req) db of
          Inl resp \<Rightarrow> Inl resp
        | Inr key \<Rightarrow>
          if key \<noteq> dp_DeveloperPublicKey proof then
            Inl (writeError 400 ''developer_proof.developer_public_key does not match registered developer'')
          else if \<not> signature_ok (VerifyDerivationProof (v_E v) (Some proof) (rq_PublicKey req)) then
            Inl (writeError 401 ''invalid developer derivation proof'')
          else Inr proof)"

definition entity_record ::
  "env \<Rightarrow> int \<Rightarrow> string \<Rightarrow> string \<Rightarrow> RegistrationRequest \<Rightarrow> DeveloperProof \<Rightarrow> string \<Rightarrow> RegistryRecord" where
  "entity_record v now entityID entityType req proof host = \<lparr>rr_EntityID = entityID, rr_Name = rq_Name req,
     rr_Owner = rq_DeveloperID req, rr_EntityURL = rq_EntityURL req, rr_Category = rq_Category req,
     rr_Tags = set_if (rq_Tags req) [], rr_Summary = rq_Summary req, rr_CapabilitySummary = None,
     rr_PublicKey = rq_PublicKey req, rr_HomeRegistry = host, rr_SchemaVersion = CurrentSchemaVersion,
     rr_RegisteredAt = NowRFC3339 v now, rr_UpdatedAt = NowRFC3339 v now, rr_TTL = 86400,
     rr_Signature = rq_Signature req, rr_DeveloperID = rq_DeveloperID req,
     rr_EntityIndex = Some (dp_EntityIndex proof), rr_DeveloperProof = Some proof,
     rr_CodebaseHash = '''', rr_Status = '''', rr_LastHeartbeat = '''', rr_EntityType = entityType,
     rr_ServiceEndpoint = rq_ServiceEndpoint req, rr_OpenAPIURL = rq_OpenAPIURL req,
     rr_EntityPricing = rq_EntityPricing req\<rparr>"

definition entity_event :: "string \<Rightarrow> RegistryRecord \<Rightarrow> string \<Rightarrow> server_event" where
  "entity_event typ record summary = EntityEvent typ \<lparr>eed_EntityID = rr_EntityID record,
     eed_Name = rr_Name record, eed_Category = rr_Category record, eed_Tags = rr_Tags record,
     eed_Summary = summary\<rparr>"

text \<open>What follows a successful insert: index, announcement, event and the optional name.\<close>

definition after_register :: "env \<Rightarrow> int \<Rightarrow> RegistrationRequest \<Rightarrow> RegistryRecord \<Rightarrow> Server \<Rightarrow> string \<times> Server" where
  "after_register v now req record s =
     (let s = index_agent (IndexAgent record) s;
          s = announce v now (CreateAnnouncement (v_announce v) (v_T v) now record ''register'') s;
          s = Publish (entity_event ''entity_registered'' record (rr_Summary record)) s;
          registryHost = RegistryHost v (s_cfg s)
      in if rq_EntityName req \<noteq> '''' \<and> rr_DeveloperID record \<noteq> '''' \<and> registryHost \<noteq> ''''
         then createZNSNameBinding v now record (rq_EntityName req) (rq_Version req) registryHost s
         else ('''', s))"

text \<open>A service without a URL is listed under its endpoint.\<close>

definition default_url :: "RegistrationRequest \<Rightarrow> RegistrationRequest" where
  "default_url req =
     (if or_default (rq_EntityType req) ''agent'' = ''service'' \<and> rq_EntityURL req = ''''
      then req\<lparr>rq_EntityURL := rq_ServiceEndpoint req\<rparr> else req)"

text \<open>The checks of \<open>handleRegisterEntity\<close> up to the insert: the record to store, or the response
  of the first check that fails.\<close>

definition registration_record :: "env \<Rightarrow> int \<Rightarrow> RegistrationRequest \<Rightarrow> Server \<Rightarrow> response + RegistryRecord" where
  "registration_record v now req s =
     (if rq_Name req = '''' \<or> rq_Category req = '''' \<or> rq_PublicKey req = '''' then
        Inl (writeError 400 ''name, category, and public_key are required'')
      else if (rq_EntityType req = '''' \<or> rq_EntityType req = ''agent'') \<and> rq_EntityURL req = '''' then
        Inl (writeError 400 ''entity_url is required for agent type'')
      else if rq_Signature req = '''' then Inl (writeError 400 ''signature is required'')
      else case CanonicalJSON (v_encode v) (entity_signable req) of
        None \<Rightarrow> Inl (writeError 500 ''failed to canonicalize signable payload'')
      | Some signable \<Rightarrow>
        let pubKeyStr = strip_key (rq_PublicKey req)
        in if \<not> signature_ok (Verify (v_E v) pubKeyStr signable (rq_Signature req)) then
             Inl (writeError 401 ''invalid agent signature'')
           else case b64_DecodeString pubKeyStr of
             None \<Rightarrow> Inl (writeError 400 ''invalid public key encoding'')
           | Some pubKeyBytes \<Rightarrow>
             (case check_developer v req (s_store s) of
                Inl resp \<Rightarrow> Inl resp
              | Inr proof \<Rightarrow>
                let record = entity_record v now (GenerateEntityID pubKeyBytes (rq_EntityType req))
                      (or_default (rq_EntityType req) ''agent'') req proof (RegistryHost v (s_cfg s))
                in case rr_Validate record of
                  Some e \<Rightarrow> Inl (writeError 400 e)
                | None \<Rightarrow> Inr record))"

definition handleRegisterEntity ::
  "env \<Rightarrow> int \<Rightarrow> RegistrationRequest option \<Rightarrow> Server \<Rightarrow> response \<times> Server" where
  "handleRegisterEntity v now body s = (case body of
       None \<Rightarrow> (writeError 400 ''invalid request body'', s)
     | Some req \<Rightarrow>
       if or_default (rq_EntityType req) ''agent'' \<notin> set ValidEntityTypes then
         (writeError 400 ''invalid entity_type'', s)
       else
         let req = default_url req
         in case registration_record v now req s of
           Inl resp \<Rightarrow> (resp, s)
         | Inr record \<Rightarrow>
           (case CreateAgent (v_T v) now record (s_store s) of
              (Inl e, db) \<Rightarrow>
                (create_error e ''agent already registered'' ''failed to register agent'', set_store db s)
            | (Inr _, db) \<Rightarrow>
                let (fqan, s) = after_register v now req record (set_store db s)
                in ((201, PFields ([(''entity_id'', rr_EntityID record),
                      (''message'', ''agent registered successfully'')] @
                      (if fqan \<noteq> '''' then [(''fqan'', fqan)] else []))), s)))"

definition stripPrivateURLs :: "RegistryRecord \<Rightarrow> RegistryRecord" where
  "stripPrivateURLs r = r\<lparr>rr_ServiceEndpoint := ''''\<rparr>"

definition with_name :: "RegistryRecord \<Rightarrow> ZNSName option \<Rightarrow> entityResp" where
  "with_name agent name = (case name of
       None \<Rightarrow> \<lparr>er_record = agent, er_FQAN = '''', er_DeveloperHandle = ''''\<rparr>
     | Some n \<Rightarrow> \<lparr>er_record = agent, er_FQAN = zn_FQAN n, er_DeveloperHandle = zn_DeveloperHandle n\<rparr>)"

definition agentResponseWithFQAN :: "env \<Rightarrow> RegistryRecord \<Rightarrow> DB \<Rightarrow> entityResp" where
  "agentResponseWithFQAN v agent db =
     with_name agent (found (GetZNSNameByAgentID (v_T v) (rr_EntityID agent) db))"

text \<open>\<open>findValue\<close> is the DHT lookup that \<open>SetDHT\<close> installs, if any.\<close>

definition handleGetEntity ::
  "env \<Rightarrow> (string \<Rightarrow> dhtRecord option) option \<Rightarrow> string \<Rightarrow> Server \<Rightarrow> response" where
  "handleGetEntity v findValue entityID s =
     (if entityID = '''' then writeError 400 ''entity_id is required''
      else case GetEntity (v_T v) entityID (s_store s) of
        Inl _ \<Rightarrow> writeError 500 ''failed to get agent''
      | Inr (Some agent) \<Rightarrow> (200, PEntity (agentResponseWithFQAN v (stripPrivateURLs agent) (s_store s)))
      | Inr None \<Rightarrow>
          (case found (GetGossipEntry (v_T v) entityID (s_store s)) of
             Some entry \<Rightarrow> (200, PGossipEntry (entry\<lparr>ge_ServiceEndpoint := ''''\<rparr>))
           | None \<Rightarrow>
               (case findValue of
                  None \<Rightarrow> writeError 404 ''entity not found''
                | Some f \<Rightarrow> (case f entityID of
                      None \<Rightarrow> writeError 404 ''entity not found''
                    | Some rec \<Rightarrow> (200, PDht rec)))))"

text \<open>The batch lookup of names; \<open>znsMap\<close> is \<open>nil\<close> on an error.\<close>

definition with_names :: "env \<Rightarrow> RegistryRecord list \<Rightarrow> DB \<Rightarrow> entityResp list" where
  "with_names v agents db =
     (let znsMap = (case GetZNSNamesByAgentIDs (v_T v) (map rr_EntityID agents) db of
            Inl _ \<Rightarrow> Map.empty | Inr m \<Rightarrow> m)
      in map (\<lambda>a. with_name a (znsMap (rr_EntityID a))) agents)"

definition handleListEntities :: "env \<Rightarrow> string \<Rightarrow> string \<Rightarrow> nat \<Rightarrow> nat \<Rightarrow> Server \<Rightarrow> response" where
  "handleListEntities v typeFilter category limit offset s =
     (case ListEntities (v_T v) category limit offset (s_store s) of
        Inl _ \<Rightarrow> writeError 500 ''failed to list entities''
      | Inr agents \<Rightarrow>
          let filtered = map stripPrivateURLs
                (filter (\<lambda>a. typeFilter = '''' \<or> rr_EntityType a = typeFilter) agents)
          in (200, PEntities '''' (with_names v filtered (s_store s))))"

definition handleListDeveloperEntities :: "env \<Rightarrow> string \<Rightarrow> Server \<Rightarrow> response" where
  "handleListDeveloperEntities v developerID s =
     (if developerID = '''' then writeError 400 ''developer_id is required''
      else case ListEntitiesByDeveloper (v_T v) developerID 100 0 (s_store s) of
        Inl _ \<Rightarrow> writeError 500 ''failed to list agents''
      | Inr agents \<Rightarrow> (200, PEntities developerID (with_names v agents (s_store s))))"

definition updated_entity :: "env \<Rightarrow> int \<Rightarrow> UpdateRequest \<Rightarrow> RegistryRecord \<Rightarrow> RegistryRecord" where
  "updated_entity v now req existing = existing\<lparr>rr_Name := set_if (uq_Name req) (rr_Name existing),
     rr_EntityURL := set_if (uq_EntityURL req) (rr_EntityURL existing),
     rr_Category := set_if (uq_Category req) (rr_Category existing),
     rr_Tags := set_if (uq_Tags req) (rr_Tags existing),
     rr_Summary := set_if (uq_Summary req) (rr_Summary existing),
     rr_TTL := set_if (uq_TTL req) (rr_TTL existing),
     rr_CodebaseHash := set_if (uq_CodebaseHash req) (rr_CodebaseHash existing),
     rr_UpdatedAt := NowRFC3339 v now, rr_Signature := uq_Signature req\<rparr>"

definition handleUpdateEntity ::
  "env \<Rightarrow> int \<Rightarrow> string \<Rightarrow> byte list option \<Rightarrow> string \<Rightarrow> Server
    \<Rightarrow> response \<times> Server" where
  "handleUpdateEntity v now entityID body auth s =
     (if entityID = '''' then (writeError 400 ''entity_id is required'', s)
      else case GetEntity (v_T v) entityID (s_store s) of
        Inl _ \<Rightarrow> (writeError 500 ''failed to get agent'', s)
      | Inr None \<Rightarrow> (writeError 404 ''entity not found'', s)
      | Inr (Some existing) \<Rightarrow>
        (case body of
           None \<Rightarrow> (writeError 400 ''failed to read request body'', s)
         | Some bodyBytes \<Rightarrow>
           (case verifyDualKeyOwnership v (s_store s) existing bodyBytes auth of
              Some _ \<Rightarrow> (writeError 401 ''ownership verification failed'', s)
            | None \<Rightarrow>
              (case v_entity_update v bodyBytes of
                 None \<Rightarrow> (writeError 400 ''invalid request body'', s)
               | Some req \<Rightarrow>
                 let agent = updated_entity v now req existing
                 in (case UpdateEntity (v_T v) agent (s_store s) of
                       (Inl _, db) \<Rightarrow> (writeError 500 ''failed to update agent'', set_store db s)
                     | (Inr _, db) \<Rightarrow>
                         ((200, PRecord agent),
                          announce v now (CreateAnnouncement (v_announce v) (v_T v) now agent ''update'')
                            (index_agent (IndexAgent agent) (set_store db s))))))))"

definition tombstone_of :: "env \<Rightarrow> int \<Rightarrow> string \<Rightarrow> Server \<Rightarrow> Tombstone" where
  "tombstone_of v now entityID s = \<lparr>ts_EntityID = entityID, ts_Reason = ''owner-deregistered'',
     ts_CreatedAt = NowRFC3339 v now, ts_ExpiresAt = tf_Format (v_T v) (now + 7 * 24 * 3600),
     ts_Signature = kp_Sign (v_E v) (s_nodeIdentity s) (string_bytes entityID)\<rparr>"

definition handleDeleteEntity :: "env \<Rightarrow> int \<Rightarrow> string \<Rightarrow> string \<Rightarrow> Server \<Rightarrow> response \<times> Server" where
  "handleDeleteEntity v now entityID auth s =
     (if entityID = '''' then (writeError 400 ''entity_id is required'', s)
      else case found (GetEntity (v_T v) entityID (s_store s)) of
        None \<Rightarrow> (writeError 404 ''entity not found'', s)
      | Some agent \<Rightarrow>
        (case verifyDualKeyOwnership v (s_store s) agent (string_bytes entityID) auth of
           Some _ \<Rightarrow> (writeError 401 ''ownership verification failed'', s)
         | None \<Rightarrow>
           (case DeleteEntity entityID (rr_Owner agent) (s_store s) of
              (Inl _, db) \<Rightarrow> (writeError 500 ''failed to delete agent'', set_store db s)
            | (Inr _, db) \<Rightarrow>
                let s = index_agent (RemoveAgent entityID) (set_store db s);
                    s = set_store (snd (CreateTombstone (v_T v) (tombstone_of v now entityID s) (s_store s))) s;
                    s = announce v now (CreateAnnouncement (v_announce v) (v_T v) now agent ''deregister'') s
                in ((200, PFields [(''message'', ''agent deregistered'')]),
                    Publish (entity_event ''entity_deregistered'' agent '''') s))))"

section \<open>Developer handles\<close>

definition claim_signable :: "HandleClaimRequest \<Rightarrow> json" where
  "claim_signable req = JObj [(''handle'', JStr (hcq_Handle req)),
     (''developer_id'', JStr (hcq_DeveloperID req)), (''public_key'', JStr (hcq_PublicKey req))]"

text \<open>Both messages of \<open>ClaimHandle\<close> for a refused claim contain \<open>already\<close>.\<close>

definition claim_error :: "dberr \<Rightarrow> response" where
  "claim_error e = (case e of
       HandleTaken \<Rightarrow> writeError 409 ''handle is already taken on this registry''
     | NoRowsAffected \<Rightarrow> writeError 409 ''developer not found or already has a handle''
     | _ \<Rightarrow> writeError 500 ''failed to claim handle'')"

definition handleClaimHandle ::
  "env \<Rightarrow> int \<Rightarrow> HandleClaimRequest option \<Rightarrow> Server \<Rightarrow> response \<times> Server" where
  "handleClaimHandle v now body s = (case body of
       None \<Rightarrow> (writeError 400 ''invalid request body'', s)
     | Some req \<Rightarrow>
       if hcq_Handle req = '''' \<or> hcq_DeveloperID req = '''' \<or> hcq_PublicKey req = '''' \<or> hcq_Signature req = ''''
       then (writeError 400 ''handle, developer_id, public_key, and signature are required'', s)
       else case ValidateHandle (hcq_Handle req) of
         Some e \<Rightarrow> (writeError 400 e, s)
       | None \<Rightarrow>
         (case GetDeveloper (v_T v) (hcq_DeveloperID req) (s_store s) of
            Inl _ \<Rightarrow> (writeError 500 ''failed to look up developer'', s)
          | Inr None \<Rightarrow> (writeError 404 ''developer not found; register developer first'', s)
          | Inr (Some dev) \<Rightarrow>
            if \<not> signature_ok (Verify (v_E v) (TrimPrefix (hcq_PublicKey req) ''ed25519:'')
                (v_marshal v (claim_signable req)) (hcq_Signature req)) then
              (writeError 401 ''invalid signature'', s)
            else case ClaimHandle now (hcq_DeveloperID req) (hcq_Handle req) (RegistryHost v (s_cfg s)) (s_store s) of
              (Inl e, db) \<Rightarrow> (claim_error e, set_store db s)
            | (Inr _, db) \<Rightarrow>
                ((201, PFields [(''handle'', hcq_Handle req), (''developer_id'', hcq_DeveloperID req),
                    (''message'', ''handle claimed successfully'')]),
                 Publish (handle_claimed_event (hcq_Handle req) (hcq_DeveloperID req))
                   (announce v now (CreateHandleAnnouncement (v_announce v) (v_T v) now dev (hcq_Handle req)
                      False '''' ''claim'') (set_store db s)))))"

definition handleGetHandle :: "env \<Rightarrow> string \<Rightarrow> Server \<Rightarrow> response" where
  "handleGetHandle v handle s =
     (if handle = '''' then writeError 400 ''handle is required''
      else case GetDeveloperByHandle (v_T v) handle (RegistryHost v (s_cfg s)) (s_store s) of
        Inl _ \<Rightarrow> writeError 500 ''failed to look up handle''
      | Inr None \<Rightarrow> writeError 404 ''handle not found''
      | Inr (Some dev) \<Rightarrow> (200, PHandle dev))"

definition handleCheckHandleAvailable :: "env \<Rightarrow> string \<Rightarrow> Server \<Rightarrow> response" where
  "handleCheckHandleAvailable v handle s =
     (if handle = '''' then writeError 400 ''handle is required''
      else if ValidateHandle handle \<noteq> None then (200, PHandleAvailable handle False)
      else case GetDeveloperByHandle (v_T v) handle (RegistryHost v (s_cfg s)) (s_store s) of
        Inl _ \<Rightarrow> writeError 500 ''failed to check handle''
      | Inr dev \<Rightarrow> (200, PHandleAvailable handle (dev = None)))"

definition handleReleaseHandle :: "env \<Rightarrow> int \<Rightarrow> string \<Rightarrow> string \<Rightarrow> Server \<Rightarrow> response \<times> Server" where
  "handleReleaseHandle v now handle auth s =
     (if handle = '''' then (writeError 400 ''handle is required'', s)
      else case found (GetDeveloperByHandle (v_T v) handle (RegistryHost v (s_cfg s)) (s_store s)) of
        None \<Rightarrow> (writeError 404 ''handle not found'', s)
      | Some dev \<Rightarrow>
        (case verifyOwnership v (dev_PublicKey dev) (string_bytes (''release:'' @ handle)) auth of
           Some _ \<Rightarrow> (writeError 401 ''unauthorized'', s)
         | None \<Rightarrow>
           (case ReleaseHandle now (dev_DeveloperID dev) handle (s_store s) of
              (Inl _, db) \<Rightarrow> (writeError 500 ''failed to release handle'', set_store db s)
            | (Inr _, db) \<Rightarrow>
                ((200, PFields [(''message'', ''handle released'')]),
                 announce v now (CreateHandleAnnouncement (v_announce v) (v_T v) now dev handle False ''''
                   ''release'') (set_store db s)))))"

text \<open>The check of the claimed method; a GitHub claim is only recorded.\<close>

definition verification_refused :: "env \<Rightarrow> HandleVerifyRequest \<Rightarrow> DeveloperRecord \<Rightarrow> response option" where
  "verification_refused v req dev =
     (if hvq_Method req = ''dns'' then
        (case VerifyDeveloperDNSWithResolver (hvq_Proof req) (dev_PublicKey dev) (v_resolver v) of
           Inl _ \<Rightarrow> Some (writeError 400 ''DNS verification failed'')
         | Inr matched \<Rightarrow> if matched then None
             else Some (writeError 400 ''DNS TXT record does not contain the developer's public key''))
      else if hvq_Method req = ''github'' then
        (if hvq_Proof req = '''' then Some (writeError 400 ''github username is required as proof'') else None)
      else Some (writeError 400 ''method must be dns or github''))"

definition handleVerifyHandle ::
  "env \<Rightarrow> int \<Rightarrow> string \<Rightarrow> HandleVerifyRequest option \<Rightarrow> Server \<Rightarrow> response \<times> Server" where
  "handleVerifyHandle v now handle body s =
     (if handle = '''' then (writeError 400 ''handle is required'', s)
      else case body of
        None \<Rightarrow> (writeError 400 ''invalid request body'', s)
      | Some req \<Rightarrow>
        (case found (GetDeveloperByHandle (v_T v) handle (RegistryHost v (s_cfg s)) (s_store s)) of
           None \<Rightarrow> (writeError 404 ''handle not found'', s)
         | Some dev \<Rightarrow>
           (case verification_refused v req dev of
              Some resp \<Rightarrow> (resp, s)
            | None \<Rightarrow>
              (case UpdateHandleVerification now (dev_DeveloperID dev) True (hvq_Method req) (hvq_Proof req)
                  (s_store s) of
                 (Inl _, db) \<Rightarrow> (writeError 500 ''failed to update verification'', set_store db s)
               | (Inr _, db) \<Rightarrow>
                   ((200, PFields [(''message'', ''handle verified via '' @ hvq_Method req), (''handle'', handle)]),
                    Publish (ZNSEvent ''handle_verified'' \<lparr>zed_FQAN = '''', zed_Handle = handle,
                        zed_DeveloperID = dev_DeveloperID dev, zed_EntityID = '''', zed_Action = ''verify''\<rparr>)
                      (announce v now (CreateHandleAnnouncement (v_announce v) (v_T v) now dev handle True
                         (hvq_Method req) ''verify'') (set_store db s)))))))"

section \<open>Resolution\<close>

definition buildResolveResponse ::
  "ZNSName \<Rightarrow> RegistryRecord option \<Rightarrow> DeveloperRecord option \<Rightarrow> ZNSResolveResponse" where
  "buildResolveResponse name agent dev =
     \<lparr>zrr_FQAN = zn_FQAN name, zrr_EntityID = zn_EntityID name, zrr_DeveloperID = zn_DeveloperID name,
      zrr_DeveloperHandle = zn_DeveloperHandle name, zrr_RegistryHost = zn_RegistryHost name,
      zrr_Version = zn_CurrentVersion name,
      zrr_EntityURL = (case agent of None \<Rightarrow> '''' | Some a \<Rightarrow> rr_EntityURL a),
      zrr_PublicKey = (case agent of None \<Rightarrow> '''' | Some a \<Rightarrow> rr_PublicKey a),
      zrr_Protocols = (case agent of None \<Rightarrow> [] | Some a \<Rightarrow>
         (case rr_CapabilitySummary a of None \<Rightarrow> [] | Some c \<Rightarrow> cs_Protocols c)),
      zrr_TrustScore = 1 / 2,
      zrr_VerificationTier = (case dev of None \<Rightarrow> '''' | Some d \<Rightarrow>
         if dev_DevHandleVerified d then dev_VerificationMethod d @ ''-verified'' else ''self-claimed''),
      zrr_Status = (case agent of None \<Rightarrow> '''' | Some a \<Rightarrow> rr_Status a)\<rparr>"

definition gossip_resolve_response :: "GossipZNSName \<Rightarrow> ZNSResolveResponse" where
  "gossip_resolve_response g = \<lparr>zrr_FQAN = gz_FQAN g, zrr_EntityID = gz_EntityID g, zrr_DeveloperID = '''',
     zrr_DeveloperHandle = gz_DeveloperHandle g, zrr_RegistryHost = gz_RegistryHost g,
     zrr_Version = gz_CurrentVersion g, zrr_EntityURL = '''', zrr_PublicKey = '''', zrr_Protocols = [],
     zrr_TrustScore = 0, zrr_VerificationTier = '''', zrr_Status = ''unknown''\<rparr>"

definition handleResolveName :: "env \<Rightarrow> string \<Rightarrow> string \<Rightarrow> Server \<Rightarrow> response \<times> Server" where
  "handleResolveName v devHandle entityName s =
     (if devHandle = '''' \<or> entityName = '''' then
        (writeError 400 ''developer and entity path parameters are required'', s)
      else
        let registryHost = RegistryHost v (s_cfg s)
        in case GetZNSNameByParts (v_T v) devHandle entityName registryHost (s_store s) of
          Inl _ \<Rightarrow> (writeError 500 ''resolution failed'', s)
        | Inr (Some name) \<Rightarrow>
            let agent = found (GetEntity (v_T v) (zn_EntityID name) (s_store s));
                dev = found (GetDeveloperByHandle (v_T v) devHandle registryHost (s_store s))
            in ((200, PResolve (buildResolveResponse name agent dev)),
                Publish (ZNSEvent ''name_resolved'' \<lparr>zed_FQAN = zn_FQAN name, zed_Handle = '''',
                  zed_DeveloperID = '''', zed_EntityID = zn_EntityID name, zed_Action = ''resolve''\<rparr>) s)
        | Inr None \<Rightarrow>
            (case found (GetGossipZNSNameByParts (v_T v) devHandle entityName (s_store s)) of
               Some g \<Rightarrow> ((200, PResolve (gossip_resolve_response g)), s)
             | None \<Rightarrow> (writeError 404 ''name not found'', s)))"

definition handleRegistryIdentityProof :: "env \<Rightarrow> Server \<Rightarrow> response" where
  "handleRegistryIdentityProof v s =
     (case found (GetRegistryProof (v_T v) (kp_RegistryID (s_nodeIdentity s)) (s_store s)) of
        None \<Rightarrow> writeError 404 ''no registry identity proof configured''
      | Some p \<Rightarrow> (200, PProof p))"

section \<open>Onboarding\<close>

definition approved_developer ::
  "env \<Rightarrow> int \<Rightarrow> string \<Rightarrow> DeveloperApprovalRequest \<Rightarrow> Keypair \<Rightarrow> string \<Rightarrow> DeveloperRecord" where
  "approved_developer v now developerID req kp host = \<lparr>dev_DeveloperID = developerID,
     dev_Name = daq_Name req, dev_PublicKey = PublicKeyString kp, dev_ProfileURL = '''',
     dev_GitHub = '''', dev_HomeRegistry = host, dev_SchemaVersion = CurrentSchemaVersion,
     dev_RegisteredAt = NowRFC3339 v now, dev_UpdatedAt = NowRFC3339 v now, dev_Signature = '''',
     dev_DevHandle = '''', dev_DevHandleVerified = False, dev_VerificationMethod = '''',
     dev_VerificationProof = ''''\<rparr>"

text \<open>\<open>seed\<close> is what the key generator draws (\<^term>\<open>None\<close>: the random source fails), \<open>nonce\<close>
  likewise for the encryption.\<close>

definition handleApproveDeveloper ::
  "env \<Rightarrow> int \<Rightarrow> byte list option \<Rightarrow> (byte list \<Rightarrow> byte list \<Rightarrow> byte list \<Rightarrow> byte list) \<Rightarrow> byte list option
    \<Rightarrow> DeveloperApprovalRequest option \<Rightarrow> Server \<Rightarrow> response \<times> Server" where
  "handleApproveDeveloper v now seed gcmSeal nonce body s = (case body of
       None \<Rightarrow> (writeError 400 ''invalid request body'', s)
     | Some req \<Rightarrow>
       if daq_Name req = '''' \<or> daq_State req = '''' then (writeError 400 ''name and state are required'', s)
       else case GenerateKeypair (v_E v) seed of
         None \<Rightarrow> (writeError 500 ''failed to generate keypair'', s)
       | Some kp \<Rightarrow>
         let developerID = GenerateDeveloperID (kp_PublicKey kp);
             dev = approved_developer v now developerID req kp (RegistryHost v (s_cfg s))
         in (case CreateDeveloper (v_T v) dev (s_store s) of
               (Inl e, db) \<Rightarrow>
                 (create_error e ''developer already registered'' ''failed to register developer'', set_store db s)
             | (Inr _, db) \<Rightarrow>
                 (case nonce of
                    None \<Rightarrow> (writeError 500 ''failed to encrypt private key'', set_store db s)
                  | Some n \<Rightarrow>
                      ((201, PFields [(''developer_id'', developerID),
                          (''private_key_enc'', EncryptPrivateKey gcmSeal n (kp_PrivateKeyB64 kp) (daq_State req)),
                          (''public_key'', PublicKeyString kp)]),
                       announce v now (CreateDeveloperAnnouncement (v_announce v) (v_T v) now dev ''register'')
                         (set_store db s)))))"

definition WebhookAuth :: "string \<Rightarrow> string \<Rightarrow> response option" where
  "WebhookAuth secret authHeader =
     (if authHeader = '''' then Some (writeError 401 ''missing Authorization header'')
      else let token = TrimPrefix authHeader ''Bearer ''
           in if token = authHeader then Some (writeError 401 ''Authorization header must use Bearer scheme'')
              else if token \<noteq> secret then Some (writeError 401 ''invalid webhook secret'') else None)"

text \<open>The route \<open>POST /v1/admin/developers/approve\<close>.\<close>

definition approve_route ::
  "env \<Rightarrow> int \<Rightarrow> byte list option \<Rightarrow> (byte list \<Rightarrow> byte list \<Rightarrow> byte list \<Rightarrow> byte list) \<Rightarrow> byte list option
    \<Rightarrow> string \<Rightarrow> DeveloperApprovalRequest option \<Rightarrow> Server \<Rightarrow> response \<times> Server" where
  "approve_route v now seed gcmSeal nonce auth body s =
     (if c_OnboardingMode (s_cfg s) \<noteq> ''restricted'' then
        (writeError 503 ''onboarding mode is not restricted'', s)
      else if c_WebhookSecret (s_cfg s) = '''' then (writeError 503 ''webhook_secret not configured'', s)
      else case WebhookAuth (c_WebhookSecret (s_cfg s)) auth of
        Some resp \<Rightarrow> (resp, s)
      | None \<Rightarrow> handleApproveDeveloper v now seed gcmSeal nonce body s)"

section \<open>Network\<close>

definition handleGetPeers :: "string list \<Rightarrow> Server \<Rightarrow> response" where
  "handleGetPeers order s = (200, PPeers (GetPeers order (s_peerManager s)))"

definition handleAddPeer :: "env \<Rightarrow> string list \<Rightarrow> int \<Rightarrow> PeerInfo option \<Rightarrow> Server \<Rightarrow> response \<times> Server" where
  "handleAddPeer v order now body s = (case body of
       None \<Rightarrow> (writeError 400 ''invalid request body'', s)
     | Some peer \<Rightarrow>
       if pi_Address peer = '''' then (writeError 400 ''address is required'', s)
       else ((201, PFields [(''message'', ''peer added'')]),
             s\<lparr>s_peerManager := AddPeer (v_T v) order now peer (s_peerManager s)\<rparr>))"

definition count_of :: "dberr + nat \<Rightarrow> int" where
  "count_of r = (case r of Inl _ \<Rightarrow> 0 | Inr n \<Rightarrow> int n)"

definition handleNetworkStats :: "Server \<Rightarrow> response" where
  "handleNetworkStats s = (200, PStats (int (PeerCount (s_peerManager s)) + 1)
     (count_of (CountEntities (s_store s)) + count_of (CountGossipEntries (s_store s))))"

definition handleHealth :: "Server \<Rightarrow> response" where
  "handleHealth s = (200, PFields [(''status'', ''ok'')])"

section \<open>Heartbeats and liveness\<close>

record AgentHeartbeat =
  ahb_Timestamp :: string
  ahb_Signature :: string

definition heartbeat_event :: "string \<Rightarrow> string \<Rightarrow> string \<Rightarrow> server_event" where
  "heartbeat_event typ entityID status =
     HeartbeatEvent typ \<lparr>hed_EntityID = entityID, hed_Status = status\<rparr>"

text \<open>One message on the heartbeat socket of \<open>agentID\<close>, whose key was read when the socket was
  opened; the flag is \<open>authenticated\<close>. Every \<open>continue\<close> leaves the loop state as it is.\<close>

definition heartbeat_accepted :: "env \<Rightarrow> int \<Rightarrow> string \<Rightarrow> AgentHeartbeat \<Rightarrow> ServerConfig \<Rightarrow> bool" where
  "heartbeat_accepted v now pubKeyStr msg cfg =
     (case tf_Parse (v_T v) (ahb_Timestamp msg) of
        None \<Rightarrow> False
      | Some ts \<Rightarrow>
          if \<bar>now - ts\<bar> > c_MaxClockSkewS cfg then False
          else signature_ok (Verify (v_E v) pubKeyStr (string_bytes (ahb_Timestamp msg)) (ahb_Signature msg)))"

definition heartbeat_message_step ::
  "env \<Rightarrow> int \<Rightarrow> string \<Rightarrow> string \<Rightarrow> AgentHeartbeat \<Rightarrow> bool \<times> Server \<Rightarrow> bool \<times> Server" where
  "heartbeat_message_step v now agentID pubKeyStr msg st = (case st of (authenticated, s) \<Rightarrow>
     if \<not> heartbeat_accepted v now pubKeyStr msg (s_cfg s) then (authenticated, s)
     else
       let s = (if \<not> authenticated then
                  announce v now (CreateStatusAnnouncement (v_announce v) (v_T v) now agentID ''active'')
                    (Publish (heartbeat_event ''entity_became_active'' agentID ''active'') s)
                else s)
       in (case UpdateEntityHeartbeat now agentID (s_store s) of
             (Inl _, db) \<Rightarrow> (True, set_store db s)
           | (Inr _, db) \<Rightarrow>
               (True, Publish (heartbeat_event ''entity_heartbeat'' agentID ''active'') (set_store db s))))"

text \<open>The socket: the lookup of the entity, then the messages that arrive until the connection
  ends, each with the time it is read. The result is the response of the failed lookup, if any.\<close>

definition handleEntityHeartbeat ::
  "env \<Rightarrow> string \<Rightarrow> (int \<times> AgentHeartbeat) list \<Rightarrow> Server \<Rightarrow> response option \<times> Server" where
  "handleEntityHeartbeat v agentID msgs s =
     (if agentID = '''' then (Some (writeError 400 ''entity_id is required''), s)
      else case GetEntity (v_T v) agentID (s_store s) of
        Inl _ \<Rightarrow> (Some (writeError 500 ''failed to look up agent''), s)
      | Inr None \<Rightarrow> (Some (writeError 404 ''entity not found''), s)
      | Inr (Some agent) \<Rightarrow>
          (None, snd (fold (\<lambda>(now, msg). heartbeat_message_step v now agentID
             (strip_key (rr_PublicKey agent)) msg) msgs (False, s))))"

definition announce_inactive :: "env \<Rightarrow> int \<Rightarrow> string \<Rightarrow> Server \<Rightarrow> Server" where
  "announce_inactive v now entityID s =
     announce v now (CreateStatusAnnouncement (v_announce v) (v_T v) now entityID ''inactive'')
       (Publish (heartbeat_event ''entity_became_inactive'' entityID ''inactive'') s)"

definition sweep :: "env \<Rightarrow> int \<Rightarrow> Server \<Rightarrow> Server" where
  "sweep v now s =
     (case MarkInactiveEntities now (c_InactiveThresholdS (s_cfg s)) (s_store s) of
        (Inl _, db) \<Rightarrow> set_store db s
      | (Inr ids, db) \<Rightarrow> fold (announce_inactive v now) ids (set_store db s))"

end
