(* ===== verification/GossipProps.thy ===== *)
theory GossipProps
  imports Gossip
begin

text \<open>
  Properties of the gossip handler: what is dropped has no effect, what is forwarded was
  authentic and new, duplicates stay suppressed within the dedup window, the pinned origin key
  never changes, attestation quorums count distinct attesters, and announcements made by a
  registry are accepted by its neighbours but not beyond them.
\<close>

section \<open>Accepting and dropping\<close>

lemma emit_simps [simp]:
  "gh_store (emit b e gh) = gh_store gh" "gh_seen (emit b e gh) = gh_seen gh"
  "gh_DedupWindowSeconds (emit b e gh) = gh_DedupWindowSeconds gh"
  "gh_MaxHops (emit b e gh) = gh_MaxHops gh" "gh_onAnnounce (emit b e gh) = gh_onAnnounce gh"
  "gh_eventBus (emit b e gh) = gh_eventBus gh"
  by (simp_all add: emit_def)

lemma dispatch_keeps:
  "dispatch T now ann gh = Some gh' \<Longrightarrow>
    gh_seen gh' = gh_seen gh \<and> gh_DedupWindowSeconds gh' = gh_DedupWindowSeconds gh \<and>
    gh_eventBus gh' = gh_eventBus gh"
  by (auto simp: dispatch_def handle_agent_announce_def split: if_splits)

lemma Handle_cases:
  assumes "HandleAnnouncement E marshal T now ann gh = (fwd, ann', gh')"
  obtains (dropped) "\<not> fwd" "ann' = ann" "gh' = gh"
      "\<not> announcement_valid E marshal ann \<or> gh_seen gh (dedupKey ann) \<noteq> None"
  | (refused) "\<not> fwd" "ann' = ann" "gh' = gh\<lparr>gh_seen := (gh_seen gh)(dedupKey ann \<mapsto> now)\<rparr>"
      "announcement_valid E marshal ann" "gh_seen gh (dedupKey ann) = None"
      "dispatch T now ann (gh\<lparr>gh_seen := (gh_seen gh)(dedupKey ann \<mapsto> now)\<rparr>) = None"
  | (forwarded) gh1 where "fwd" "ann' = ann\<lparr>ga_HopCount := ga_HopCount ann + 1\<rparr>"
      "announcement_valid E marshal ann" "gh_seen gh (dedupKey ann) = None"
      "dispatch T now ann (gh\<lparr>gh_seen := (gh_seen gh)(dedupKey ann \<mapsto> now)\<rparr>) = Some gh1"
      "gh' = emit (gh_eventBus gh1) (Published ''gossip_incoming'' (gossip_event ''incoming'' ann)) gh1"
  using assms by (auto simp: HandleAnnouncement_def Let_def split: if_splits option.splits)

lemma valid_hops: "announcement_valid E marshal ann \<Longrightarrow> ga_HopCount ann < ga_MaxHops ann"
  by (auto simp: announcement_valid_def split: if_splits)

text \<open>C3: the handler's decision. An announcement is reported for forwarding only if its hop count
  is below its limit, it carries a valid signature of the key it names and its dedup key was
  not in the window; its hop count is then one higher and still within the limit, nothing else
  in it changes, and the key is recorded. An announcement that is not forwarded is returned
  unchanged and neither writes the store nor calls a callback nor publishes an event.\<close>

theorem handle_announcement_decision:
  assumes "HandleAnnouncement E marshal T now ann gh = (fwd, ann', gh')"
  shows "if fwd then announcement_valid E marshal ann \<and> gh_seen gh (dedupKey ann) = None \<and>
       ann' = ann\<lparr>ga_HopCount := ga_HopCount ann + 1\<rparr> \<and> ga_HopCount ann' \<le> ga_MaxHops ann' \<and>
       gh_seen gh' = (gh_seen gh)(dedupKey ann \<mapsto> now)
     else ann' = ann \<and> gh_store gh' = gh_store gh \<and> gh_out gh' = gh_out gh \<and>
       (\<not> announcement_valid E marshal ann \<longrightarrow> gh' = gh)"
  using assms
proof (cases rule: Handle_cases)
  case (forwarded gh1)
  then show ?thesis using valid_hops[of E marshal ann] dispatch_keeps[OF forwarded(5)] by simp
qed simp_all

section \<open>Runs of the handler\<close>

datatype gossip_op = Receive int GossipAnnouncement | Send int "GossipAnnouncement option" | Clean int

fun op_time :: "gossip_op \<Rightarrow> int" where
  "op_time (Receive now _) = now"
| "op_time (Send now _) = now"
| "op_time (Clean now) = now"

fun gossip_step ::
  "ed25519 \<Rightarrow> (GossipAnnouncement \<Rightarrow> byte list option) \<Rightarrow> timefmt \<Rightarrow> gossip_op \<Rightarrow> GossipHandler \<Rightarrow> GossipHandler" where
  "gossip_step E marshal T (Receive now ann) gh = snd (snd (HandleAnnouncement E marshal T now ann gh))"
| "gossip_step E marshal T (Send now ann) gh = BroadcastAnnouncement now ann gh"
| "gossip_step E marshal T (Clean now) gh = cleanDedupWindow now gh"

lemma Broadcast_keeps [simp]:
  "gh_store (BroadcastAnnouncement now ann gh) = gh_store gh"
  "gh_DedupWindowSeconds (BroadcastAnnouncement now ann gh) = gh_DedupWindowSeconds gh"
  by (simp_all add: BroadcastAnnouncement_def Let_def split: option.splits)

lemma clean_keeps [simp]:
  "gh_store (cleanDedupWindow now gh) = gh_store gh"
  "gh_DedupWindowSeconds (cleanDedupWindow now gh) = gh_DedupWindowSeconds gh"
  by (simp_all add: cleanDedupWindow_def Let_def)

text \<open>A key that was recorded at \<open>t0\<close> or later is in the map.\<close>

definition recent :: "string \<Rightarrow> int \<Rightarrow> int \<Rightarrow> GossipHandler \<Rightarrow> bool" where
  "recent k t0 window gh = (gh_DedupWindowSeconds gh = window \<and> (\<exists>t\<ge>t0. gh_seen gh k = Some t))"

definition within_window :: "int \<Rightarrow> int \<Rightarrow> gossip_op \<Rightarrow> bool" where
  "within_window t0 window op = (t0 \<le> op_time op \<and> op_time op \<le> t0 + window)"

lemma recent_step:
  assumes ok: "within_window t0 window op" and inv: "recent k t0 window gh"
  shows "recent k t0 window (gossip_step E marshal T op gh)"
proof (cases op)
  case (Receive now ann)
  obtain fwd ann' gh' where h: "HandleAnnouncement E marshal T now ann gh = (fwd, ann', gh')"
    by (metis prod_cases3)
  have t: "t0 \<le> now" using ok Receive by (simp add: within_window_def)
  from h have "recent k t0 window gh'"
  proof (cases rule: Handle_cases)
    case (forwarded gh1)
    then show ?thesis using dispatch_keeps[OF forwarded(5)] inv t by (auto simp: recent_def)
  qed (use inv t in \<open>auto simp: recent_def\<close>)
  then show ?thesis using Receive h by simp
next
  case (Send now ann)
  then show ?thesis using ok inv
    by (auto simp: within_window_def recent_def BroadcastAnnouncement_def Let_def split: option.splits)
next
  case (Clean now)
  then show ?thesis using ok inv
    by (auto simp: within_window_def recent_def cleanDedupWindow_def Let_def)
qed

interpretation dedup: guarded_machine "gossip_step E marshal T" "recent k t0 window" "within_window t0 window"
  by unfold_locales (rule recent_step)

text \<open>C14: duplicate suppression. Once an announcement was forwarded at time \<open>t0\<close>, whatever the
  handler then receives, sends and cleans within the dedup window, a later announcement with the
  same dedup key is not forwarded and leaves the handler as it is.\<close>

theorem duplicates_suppressed_within_window:
  assumes "HandleAnnouncement E marshal T t0 ann gh = (True, ann', gh1)"
    "list_all (within_window t0 (gh_DedupWindowSeconds gh)) ops" "dedupKey dup = dedupKey ann"
  shows "HandleAnnouncement E marshal T t dup (fold (gossip_step E marshal T) ops gh1) =
    (False, dup, fold (gossip_step E marshal T) ops gh1)"
proof -
  have "recent (dedupKey ann) t0 (gh_DedupWindowSeconds gh) gh1"
    using assms(1)
  proof (cases rule: Handle_cases)
    case (forwarded gh0)
    then show ?thesis using dispatch_keeps[OF forwarded(5)] by (simp add: recent_def)
  qed simp_all
  then have "recent (dedupKey ann) t0 (gh_DedupWindowSeconds gh) (fold (gossip_step E marshal T) ops gh1)"
    using assms(2) by (intro dedup.guarded_run_inv)
  then show ?thesis using assms(3) by (auto simp: recent_def HandleAnnouncement_def)
qed

section \<open>Announcements the registry makes\<close>

lemma PublicKeyString_strip:
  "HasPrefix (PublicKeyString kp) ''ed25519:'' \<and> drop 8 (PublicKeyString kp) = kp_PublicKeyB64 kp"
  by (simp add: HasPrefix_def PublicKeyString_def)

lemma signed_valid:
  assumes "ed25519_ok E" "generated E kp" "marshal ann = Some data" "ga_Signature ann = ''''"
    "ga_OriginPublicKey ann = PublicKeyString kp" "ga_HopCount ann < ga_MaxHops ann"
  shows "announcement_valid E marshal (sign_announcement marshal (kp_Sign E kp) ann)"
proof -
  have eq: "ann\<lparr>ga_Signature := ''''\<rparr> = ann" using assms(4) by simp
  have "kp_Sign E kp data \<noteq> ''''" "PublicKeyString kp \<noteq> ''''"
    by (simp_all add: kp_Sign_def PublicKeyString_def)
  then show ?thesis
    using assms Verify_Sign[OF assms(1,2), of data] PublicKeyString_strip[of kp]
    by (simp add: announcement_valid_def sign_announcement_def eq)
qed

lemma agent_announcement_simps [simp]:
  "ga_Type (agent_announcement T now agent action registryID pubKey gh) = ''agent_announce''"
  "ga_Action (agent_announcement T now agent action registryID pubKey gh) = action"
  "ga_EntityID (agent_announcement T now agent action registryID pubKey gh) = rr_EntityID agent"
  "ga_Name (agent_announcement T now agent action registryID pubKey gh) = rr_Name agent"
  "ga_EntityURL (agent_announcement T now agent action registryID pubKey gh) = rr_EntityURL agent"
  "ga_Signature (agent_announcement T now agent action registryID pubKey gh) = ''''"
  "ga_OriginPublicKey (agent_announcement T now agent action registryID pubKey gh) = pubKey"
  "ga_HopCount (agent_announcement T now agent action registryID pubKey gh) = 0"
  "ga_MaxHops (agent_announcement T now agent action registryID pubKey gh) = gh_MaxHops gh"
  "ga_HomeRegistry (agent_announcement T now agent action registryID pubKey gh) = registryID"
  by (simp_all add: agent_announcement_def announcement_envelope_def zero_announcement_def Let_def
      split: option.splits)

lemma sign_announcement_simps [simp]:
  "ga_Type (sign_announcement marshal f ann) = ga_Type ann"
  "ga_Action (sign_announcement marshal f ann) = ga_Action ann"
  "ga_EntityID (sign_announcement marshal f ann) = ga_EntityID ann"
  "ga_Name (sign_announcement marshal f ann) = ga_Name ann"
  "ga_EntityURL (sign_announcement marshal f ann) = ga_EntityURL ann"
  "ga_OriginPublicKey (sign_announcement marshal f ann) = ga_OriginPublicKey ann"
  "ga_HopCount (sign_announcement marshal f ann) = ga_HopCount ann"
  "ga_MaxHops (sign_announcement marshal f ann) = ga_MaxHops ann"
  "ga_HomeRegistry (sign_announcement marshal f ann) = ga_HomeRegistry ann"
  "dedupKey (sign_announcement marshal f ann) = dedupKey ann"
  by (simp_all add: sign_announcement_def dedupKey_def)

lemma Upsert_stores:
  assumes "\<not> db_fault db" "tf_Parse T (ge_ReceivedAt e) = Some ra"
  shows "\<exists>r. t_get gkey (ge_EntityID e) (db_gossip (snd (UpsertGossipEntry T e db))) = Some r \<and>
     ge_Name (gr_rec r) = ge_Name e \<and> ge_EntityURL (gr_rec r) = ge_EntityURL e \<and>
     ge_OriginPublicKey (gr_rec r) = (case t_get gkey (ge_EntityID e) (db_gossip db) of
        None \<Rightarrow> ge_OriginPublicKey e
      | Some old \<Rightarrow> or_default (ge_OriginPublicKey (gr_rec old)) (ge_OriginPublicKey e)) \<and>
     ge_Status (gr_rec r) = or_default (ge_Status e) ''inactive''"
  using assms
  by (auto simp: UpsertGossipEntry_def pool_Exec_def Let_def gossip_tbl.get_upsert gossip_merge_def
      split: option.splits)

lemma register_dispatch:
  assumes "ga_Type ann = ''agent_announce''" "ga_Action ann = ''register''"
    "\<not> db_fault (gh_store gh)" "tf_Parse T (tf_Format T now) = Some ra"
  shows "\<exists>gh' g. dispatch T now ann gh = Some gh' \<and>
    GetGossipEntry T (ga_EntityID ann) (gh_store gh') = Inr (Some g) \<and>
    ge_Name g = ga_Name ann \<and> ge_EntityURL g = ga_EntityURL ann \<and> ge_Status g = ''active'' \<and>
    ge_OriginPublicKey g = (case GetGossipEntry T (ga_EntityID ann) (gh_store gh) of
        Inr (Some old) \<Rightarrow> or_default (ge_OriginPublicKey old) (ga_OriginPublicKey ann)
      | _ \<Rightarrow> ga_OriginPublicKey ann)"
proof -
  let ?e = "gossip_entry_of T now ann"
  have e: "ge_EntityID ?e = ga_EntityID ann" "ge_ReceivedAt ?e = tf_Format T now" "ge_Name ?e = ga_Name ann"
    "ge_EntityURL ?e = ga_EntityURL ann" "ge_Status ?e = ''active''"
    "ge_OriginPublicKey ?e = ga_OriginPublicKey ann"
    by (simp_all add: gossip_entry_of_def)
  have "dispatch T now ann gh = Some (emit (gh_onAnnounce gh) (Indexed ann)
          (gh\<lparr>gh_store := snd (UpsertGossipEntry T ?e (gh_store gh))\<rparr>))"
    using assms(1,2) by (simp add: dispatch_def handle_agent_announce_def)
  moreover have "\<not> db_fault (snd (UpsertGossipEntry T ?e (gh_store gh)))"
    using assms(3) by (auto simp: UpsertGossipEntry_def pool_Exec_def Let_def split: option.splits)
  moreover obtain r where r:
    "t_get gkey (ge_EntityID ?e) (db_gossip (snd (UpsertGossipEntry T ?e (gh_store gh)))) = Some r"
    "ge_Name (gr_rec r) = ge_Name ?e" "ge_EntityURL (gr_rec r) = ge_EntityURL ?e"
    "ge_OriginPublicKey (gr_rec r) = (case t_get gkey (ge_EntityID ?e) (db_gossip (gh_store gh)) of
        None \<Rightarrow> ge_OriginPublicKey ?e
      | Some old \<Rightarrow> or_default (ge_OriginPublicKey (gr_rec old)) (ge_OriginPublicKey ?e))"
    "ge_Status (gr_rec r) = or_default (ge_Status ?e) ''inactive''"
    using Upsert_stores[OF assms(3), of T ?e ra] assms(4) e(2) by auto
  ultimately show ?thesis
    using assms(3) unfolding e(1,3-6)
    by (auto simp: GetGossipEntry_def pool_Query_def or_default_def split: option.splits)
qed

lemma register_accepted:
  assumes "announcement_valid E marshal ann" "gh_seen gh (dedupKey ann) = None"
    "ga_Type ann = ''agent_announce''" "ga_Action ann = ''register''"
    "\<not> db_fault (gh_store gh)" "tf_Parse T (tf_Format T now) = Some ra"
  shows "\<exists>gh' g. HandleAnnouncement E marshal T now ann gh =
      (True, ann\<lparr>ga_HopCount := ga_HopCount ann + 1\<rparr>, gh') \<and>
    GetGossipEntry T (ga_EntityID ann) (gh_store gh') = Inr (Some g) \<and>
    ge_Name g = ga_Name ann \<and> ge_EntityURL g = ga_EntityURL ann \<and> ge_Status g = ''active'' \<and>
    ge_OriginPublicKey g = (case GetGossipEntry T (ga_EntityID ann) (gh_store gh) of
        Inr (Some old) \<Rightarrow> or_default (ge_OriginPublicKey old) (ga_OriginPublicKey ann)
      | _ \<Rightarrow> ga_OriginPublicKey ann)"
  using register_dispatch[of ann "gh\<lparr>gh_seen := (gh_seen gh)(dedupKey ann \<mapsto> now)\<rparr>" T now ra] assms
  by (auto simp: HandleAnnouncement_def)

text \<open>A registration reaches the neighbours. The announcement a registry creates for a
  registered agent, signed with its generated key and with a positive hop limit, passes every
  check of a neighbour that has not seen it: the neighbour reports it for forwarding and its
  gossip index then holds the agent as active under the announced name and address, with the
  registry's key pinned if no key was pinned before.\<close>

theorem registration_reaches_neighbour:
  assumes "ed25519_ok E" "generated E kp" "0 < gh_MaxHops home"
    "marshal (agent_announcement T t0 agent ''register'' (kp_RegistryID kp) (PublicKeyString kp) home) = Some data"
    "ann = CreateAnnouncement marshal T t0 agent ''register'' (kp_RegistryID kp) (PublicKeyString kp)
       (kp_Sign E kp) home"
    "gh_seen peer (dedupKey ann) = None" "\<not> db_fault (gh_store peer)"
    "tf_Parse T (tf_Format T now) = Some ra"
  shows "\<exists>peer' g. HandleAnnouncement E marshal T now ann peer =
       (True, ann\<lparr>ga_HopCount := 1\<rparr>, peer') \<and>
    GetGossipEntry T (rr_EntityID agent) (gh_store peer') = Inr (Some g) \<and>
    ge_Name g = rr_Name agent \<and> ge_EntityURL g = rr_EntityURL agent \<and> ge_Status g = ''active'' \<and>
    ge_OriginPublicKey g = (case GetGossipEntry T (rr_EntityID agent) (gh_store peer) of
        Inr (Some old) \<Rightarrow> or_default (ge_OriginPublicKey old) (PublicKeyString kp)
      | _ \<Rightarrow> PublicKeyString kp)"
proof -
  have v: "announcement_valid E marshal ann"
    unfolding assms(5) CreateAnnouncement_def using assms(1-4) by (intro signed_valid) auto
  have a: "ga_Type ann = ''agent_announce''" "ga_Action ann = ''register''" "ga_HopCount ann = 0"
    "ga_EntityID ann = rr_EntityID agent" "ga_Name ann = rr_Name agent"
    "ga_EntityURL ann = rr_EntityURL agent" "ga_OriginPublicKey ann = PublicKeyString kp"
    by (simp_all add: assms(5) CreateAnnouncement_def)
  show ?thesis using register_accepted[OF v assms(6) a(1,2) assms(7,8)] unfolding a by simp
qed

section \<open>Pinned origin keys\<close>

text \<open>The rows of the gossip index that carry an origin key keep it.\<close>

definition pins_kept :: "DB \<Rightarrow> DB \<Rightarrow> bool" where
  "pins_kept db db' = (db_fault db' = db_fault db \<and>
     (\<forall>i r. t_get gkey i (db_gossip db) = Some r \<longrightarrow> ge_OriginPublicKey (gr_rec r) \<noteq> '''' \<longrightarrow>
        (\<exists>r'. t_get gkey i (db_gossip db') = Some r' \<and>
           ge_OriginPublicKey (gr_rec r') = ge_OriginPublicKey (gr_rec r))))"

lemma pins_kept_refl: "pins_kept db db"
  by (simp add: pins_kept_def)

lemma pins_kept_trans: "pins_kept a b \<Longrightarrow> pins_kept b c \<Longrightarrow> pins_kept a c"
  unfolding pins_kept_def by metis

lemma pins_kept_same: "db_gossip db' = db_gossip db \<Longrightarrow> db_fault db' = db_fault db \<Longrightarrow> pins_kept db db'"
  by (simp add: pins_kept_def)

lemma pins_kept_update:
  assumes "\<And>r. gkey (f r) = gkey r" "\<And>r. ge_OriginPublicKey (gr_rec (f r)) = ge_OriginPublicKey (gr_rec r)"
  shows "pins_kept db (db\<lparr>db_gossip := t_update P f (db_gossip db)\<rparr>)"
  unfolding pins_kept_def by (simp add: t_get_update assms)

lemma pins_kept_upsert: "pins_kept db (db\<lparr>db_gossip := t_upsert gkey gossip_merge row (db_gossip db)\<rparr>)"
  unfolding pins_kept_def by (simp add: gossip_tbl.get_upsert gossip_merge_def or_default_def)

lemma pins_kept_other_tables:
  "pins_kept db (snd (UpsertGossipDeveloper T e db))"
  "pins_kept db (snd (TombstoneGossipDeveloper now d db))"
  "pins_kept db (snd (UpsertGossipZNSName T n db))"
  "pins_kept db (snd (TombstoneGossipZNSName f db))"
  "pins_kept db (snd (UpsertRegistryProof T p db))"
  "pins_kept db (snd (CreatePeerAttestation T a db))"
  "pins_kept db (snd (UpdateRegistryVerificationTier i tier db))"
  unfolding UpsertGossipDeveloper_def TombstoneGossipDeveloper_def UpsertGossipZNSName_def
    TombstoneGossipZNSName_def UpsertRegistryProof_def CreatePeerAttestation_def
    UpdateRegistryVerificationTier_def pool_Exec_def Let_def
  by (auto intro!: pins_kept_same split: option.splits)

lemma pins_kept_gossip:
  "pins_kept db (snd (UpsertGossipEntry T e db))"
  "pins_kept db (snd (TombstoneGossipEntry now i db))"
  "pins_kept db (snd (UpdateGossipEntryStatus i st db))"
  unfolding UpsertGossipEntry_def TombstoneGossipEntry_def UpdateGossipEntryStatus_def pool_Exec_def Let_def
  by (auto intro!: pins_kept_upsert pins_kept_update intro: pins_kept_refl split: option.splits)

lemma pins_kept_attestation: "pins_kept db (handle_peer_attestation T now ann db)"
  unfolding handle_peer_attestation_def Let_def
  using pins_kept_trans[OF pins_kept_other_tables(6) pins_kept_other_tables(7)]
  by (simp add: pins_kept_other_tables pins_kept_refl)

lemma pins_kept_dispatch: "dispatch T now ann gh = Some gh' \<Longrightarrow> pins_kept (gh_store gh) (gh_store gh')"
  unfolding dispatch_def handle_agent_announce_def handle_developer_announce_def handle_dev_handle_def
    handle_name_binding_def handle_registry_proof_def
  by (auto simp: pins_kept_other_tables pins_kept_gossip pins_kept_refl pins_kept_attestation
      split: if_splits)

interpretation pins: monotone_machine "gossip_step E marshal T" "\<lambda>_. True"
  "\<lambda>gh gh'. pins_kept (gh_store gh) (gh_store gh')"
proof
  show "pins_kept (gh_store s) (gh_store (gossip_step E marshal T op s))" for s op
  proof (cases op)
    case (Receive now ann)
    obtain fwd ann' gh' where h: "HandleAnnouncement E marshal T now ann s = (fwd, ann', gh')"
      by (metis prod_cases3)
    then have "pins_kept (gh_store s) (gh_store gh')"
      by (cases rule: Handle_cases) (auto simp: pins_kept_refl dest!: pins_kept_dispatch)
    then show ?thesis using Receive h by simp
  qed (simp_all add: pins_kept_refl)
qed (auto intro: pins_kept_refl pins_kept_trans)

lemma pins_kept_get:
  assumes "pins_kept db db'" "GetGossipEntry T i db = Inr (Some e)" "ge_OriginPublicKey e \<noteq> ''''"
  shows "\<exists>e'. GetGossipEntry T i db' = Inr (Some e') \<and> ge_OriginPublicKey e' = ge_OriginPublicKey e"
proof -
  obtain r where "t_get gkey i (db_gossip db) = Some r" "ge_OriginPublicKey e = ge_OriginPublicKey (gr_rec r)"
    "\<not> db_fault db"
    using assms(2) by (auto simp: GetGossipEntry_def pool_Query_def split: if_splits)
  then show ?thesis
    using assms(1,3) by (fastforce simp: pins_kept_def GetGossipEntry_def pool_Query_def)
qed

lemma foreign_origin_refused:
  assumes "GetGossipEntry T (ga_EntityID ann) (gh_store gh) = Inr (Some e)" "ge_OriginPublicKey e \<noteq> ''''"
    "ge_OriginPublicKey e \<noteq> ga_OriginPublicKey ann" "ga_Type ann = ''agent_announce''"
    "ga_Action ann \<in> {''update'', ''deregister'', ''agent_status''}"
  shows "\<exists>gh'. HandleAnnouncement E marshal T now ann gh = (False, ann, gh') \<and> gh_store gh' = gh_store gh"
proof -
  have "\<not> verifyOriginAuthorization T (ga_EntityID ann) (ga_OriginPublicKey ann) b (gh_store gh)" for b
    using assms(1-3) by (simp add: verifyOriginAuthorization_def)
  then have "dispatch T now ann (gh\<lparr>gh_seen := s\<rparr>) = None" for s
    using assms(4,5) by (auto simp: dispatch_def handle_agent_announce_def)
  then show ?thesis by (simp add: HandleAnnouncement_def)
qed

text \<open>C4: the origin pin. Once the gossip index holds an entry with an origin key, every run of the
  handler keeps that entry and that key, and ever after an update, deregistration or status
  change of the entity under another origin key is refused and leaves the store as it is.\<close>

theorem origin_key_pinned:
  assumes "GetGossipEntry T (ga_EntityID ann) (gh_store gh) = Inr (Some e)" "ge_OriginPublicKey e \<noteq> ''''"
  shows "let gh' = fold (gossip_step E marshal T) ops gh in
    (\<exists>e'. GetGossipEntry T (ga_EntityID ann) (gh_store gh') = Inr (Some e') \<and>
       ge_OriginPublicKey e' = ge_OriginPublicKey e) \<and>
    (ga_OriginPublicKey ann \<noteq> ge_OriginPublicKey e \<and> ga_Type ann = ''agent_announce'' \<and>
       ga_Action ann \<in> {''update'', ''deregister'', ''agent_status''} \<longrightarrow>
     (\<exists>gh''. HandleAnnouncement E marshal T now ann gh' = (False, ann, gh'') \<and>
        gh_store gh'' = gh_store gh'))"
proof -
  define gh' where "gh' = fold (gossip_step E marshal T) ops gh"
  have "pins_kept (gh_store gh) (gh_store gh')" unfolding gh'_def by (rule pins.run_le) simp
  then obtain e' where e': "GetGossipEntry T (ga_EntityID ann) (gh_store gh') = Inr (Some e')"
    "ge_OriginPublicKey e' = ge_OriginPublicKey e"
    using pins_kept_get assms by blast
  then show ?thesis
    using foreign_origin_refused[OF e'(1), of E marshal now] assms(2) unfolding gh'_def Let_def by metis
qed

text \<open>Registrations bypass the origin pin. A validly signed \<open>register\<close> announcement for an entity
  that is pinned to another origin key is accepted and forwarded, and replaces the name and
  address of the entry while the pinned key stays the old one.\<close>

theorem register_bypasses_origin_pin:
  assumes "GetGossipEntry T (ga_EntityID ann) (gh_store gh) = Inr (Some e)" "ge_OriginPublicKey e \<noteq> ''''"
    "ga_Type ann = ''agent_announce''" "ga_Action ann = ''register''"
    "announcement_valid E marshal ann" "gh_seen gh (dedupKey ann) = None"
    "tf_Parse T (tf_Format T now) = Some ra"
  shows "\<exists>gh' g. HandleAnnouncement E marshal T now ann gh =
      (True, ann\<lparr>ga_HopCount := ga_HopCount ann + 1\<rparr>, gh') \<and>
    GetGossipEntry T (ga_EntityID ann) (gh_store gh') = Inr (Some g) \<and>
    ge_Name g = ga_Name ann \<and> ge_EntityURL g = ga_EntityURL ann \<and>
    ge_OriginPublicKey g = ge_OriginPublicKey e"
proof -
  have f: "\<not> db_fault (gh_store gh)"
    using assms(1) by (auto simp: GetGossipEntry_def pool_Query_def split: if_splits)
  show ?thesis
    using register_accepted[OF assms(5,6,3,4) f assms(7)] assms(1,2) by (auto simp: or_default_def)
qed

section \<open>Beyond the first hop\<close>

lemma validD:
  assumes "announcement_valid E marshal ann"
  obtains data pub sig where "marshal (ann\<lparr>ga_Signature := ''''\<rparr>) = Some data"
    "b64_DecodeString (TrimPrefix (ga_OriginPublicKey ann) ''ed25519:'') = Some pub"
    "b64_DecodeString (drop 8 (ga_Signature ann)) = Some sig" "ed_Verify E pub data sig"
proof -
  have strip: "(if HasPrefix s ''ed25519:'' then drop 8 s else s) = TrimPrefix s ''ed25519:''" for s
    by (simp add: TrimPrefix_def numeral_eq_Suc)
  show ?thesis
    using assms that unfolding announcement_valid_def strip
    by (auto simp: Let_def Verify_def split: if_splits option.splits sum.splits)
qed

text \<open>A forwarded announcement does not verify again. The signature covers the JSON of the
  announcement with its hop count, which the handler increments before forwarding. If the JSON
  tells hop counts apart, a second node accepts the forwarded copy only when the one signature
  verifies under the origin's key for two different messages, that is, for a forgery.\<close>

theorem forwarded_copy_needs_forgery:
  assumes "HandleAnnouncement E marshal T now ann gh = (True, ann', gh')"
    "\<And>a b. marshal a \<noteq> None \<Longrightarrow> marshal a = marshal b \<Longrightarrow> ga_HopCount a = ga_HopCount b"
    "HandleAnnouncement E marshal T now' ann' next = (True, ann'', next')"
  shows "\<exists>pub sig m m'. b64_DecodeString (TrimPrefix (ga_OriginPublicKey ann) ''ed25519:'') = Some pub \<and>
    b64_DecodeString (drop 8 (ga_Signature ann)) = Some sig \<and>
    m \<noteq> m' \<and> ed_Verify E pub m sig \<and> ed_Verify E pub m' sig"
proof -
  have v: "announcement_valid E marshal ann" "ann' = ann\<lparr>ga_HopCount := ga_HopCount ann + 1\<rparr>"
    using assms(1) by (cases rule: Handle_cases; simp)+
  have v': "announcement_valid E marshal ann'" using assms(3) by (cases rule: Handle_cases) simp_all
  obtain m pub sig where 1: "marshal (ann\<lparr>ga_Signature := ''''\<rparr>) = Some m"
    "b64_DecodeString (TrimPrefix (ga_OriginPublicKey ann) ''ed25519:'') = Some pub"
    "b64_DecodeString (drop 8 (ga_Signature ann)) = Some sig" "ed_Verify E pub m sig"
    using validD[OF v(1)] by metis
  obtain m' pub' sig' where 2: "marshal (ann'\<lparr>ga_Signature := ''''\<rparr>) = Some m'"
    "b64_DecodeString (TrimPrefix (ga_OriginPublicKey ann') ''ed25519:'') = Some pub'"
    "b64_DecodeString (drop 8 (ga_Signature ann')) = Some sig'" "ed_Verify E pub' m' sig'"
    using validD[OF v'] by metis
  have "m \<noteq> m'"
    using assms(2)[of "ann\<lparr>ga_Signature := ''''\<rparr>" "ann'\<lparr>ga_Signature := ''''\<rparr>"] 1(1) 2(1) v(2) by auto
  then show ?thesis using 1 2 v(2) by auto
qed

section \<open>Attestation quorum\<close>

definition voters :: "string \<Rightarrow> DB \<Rightarrow> string set" where
  "voters subject db = (\<lambda>r. pa_AttesterID (ar_rec r)) `
     {r \<in> set (db_attestations db). pa_SubjectID (ar_rec r) = subject}"

lemma count_voters:
  assumes "db_inv db" "\<not> db_fault db"
  shows "CountPeerAttestations subject db = Inr (card (voters subject db))"
proof -
  let ?P = "\<lambda>r. pa_SubjectID (ar_rec r) = subject"
  let ?f = "\<lambda>r. pa_AttesterID (ar_rec r)"
  let ?rows = "filter ?P (db_attestations db)"
  have kd: "distinct (map akey (db_attestations db))" using assms(1) by (simp add: db_inv_def keys_distinct_def)
  then have "distinct (map akey ?rows)" by (simp add: distinct_map_filter)
  then have "distinct ?rows" "inj_on akey (set ?rows)" by (auto simp: distinct_map)
  then have "inj_on ?f (set ?rows)" by (auto simp: inj_on_def)
  then have "card (?f ` set ?rows) = length ?rows"
    using \<open>distinct ?rows\<close> by (metis card_image distinct_card)
  moreover have "voters subject db = ?f ` set ?rows" by (simp add: voters_def)
  ultimately show ?thesis using assms(2) by (simp add: CountPeerAttestations_def pool_Query_def t_count_def)
qed

lemma handle_peer_attestation_eq:
  assumes "db_inv db" "\<not> db_fault db" "ga_Action ann = ''attest''" "tf_Parse T (ga_Timestamp ann) = Some t"
  obtains db1 where "db_inv db1" "\<not> db_fault db1" "db_proofs db1 = db_proofs db"
    "voters (ga_SubjectID ann) db1 = insert (ga_AttesterID ann) (voters (ga_SubjectID ann) db)"
    "handle_peer_attestation T now ann db = (if card (voters (ga_SubjectID ann) db1) \<ge> 3
       then snd (UpdateRegistryVerificationTier (ga_SubjectID ann) ''mesh-verified'' db1) else db1)"
proof -
  let ?a = "\<lparr>pa_AttesterID = ga_AttesterID ann, pa_AttesterDomain = '''',
                pa_SubjectID = ga_SubjectID ann, pa_SubjectDomain = '''',
                pa_VerifiedLayers = ga_VerifiedLayers ann, pa_AttestedAt = ga_Timestamp ann,
                pa_Signature = ga_Signature ann\<rparr>"
  let ?row = "\<lparr>ar_rec = ?a, ar_attested = t\<rparr>"
  define db1 where "db1 = snd (CreatePeerAttestation T ?a db)"
  have inv: "db_inv db1" unfolding db1_def using assms(1) by (rule gossip_ops_inv(11))
  have e: "db1 = db\<lparr>db_attestations := t_upsert akey attestation_merge ?row (db_attestations db)\<rparr>"
    using assms(2,4) by (simp add: db1_def CreatePeerAttestation_def pool_Exec_def)
  have f: "\<not> db_fault db1" using assms(2) by (simp add: e)
  have "akey ` set (t_upsert akey attestation_merge ?row rows) = insert (akey ?row) (akey ` set rows)" for rows
    by (induction rows) (auto simp: t_upsert_def t_update_def attestation_merge_def split: option.splits)
  then have ak: "akey ` set (db_attestations db1) = insert (ga_AttesterID ann, ga_SubjectID ann)
      (akey ` set (db_attestations db))" by (simp add: e)
  have vo: "voters s d = {a. (a, s) \<in> akey ` set (db_attestations d)}" for s d by (auto simp: voters_def)
  show ?thesis
    using that[OF inv f] assms(3) ak f count_voters[OF inv f, of "ga_SubjectID ann"]
    by (auto simp: e vo handle_peer_attestation_def Let_def simp flip: db1_def)
qed

text \<open>Attestation quorum. When the handler accepts an attestation of a registry on an intact
  database, the attester counts among the registry's voters, each attester counts once however
  often it attests, and the registry's stored proof becomes mesh-verified exactly when there are
  now at least three distinct voters; below three no proof changes.\<close>

theorem attestation_quorum:
  assumes "db_inv (gh_store gh)" "\<not> db_fault (gh_store gh)"
    "HandleAnnouncement E marshal T now ann gh = (True, ann', gh')" "ga_Type ann = ''peer_attestation''"
    "ga_Action ann = ''attest''" "tf_Parse T (ga_Timestamp ann) = Some t"
  shows "voters (ga_SubjectID ann) (gh_store gh') =
      insert (ga_AttesterID ann) (voters (ga_SubjectID ann) (gh_store gh)) \<and>
    (if card (voters (ga_SubjectID ann) (gh_store gh')) \<ge> 3
     then \<forall>p. GetRegistryProof T (ga_SubjectID ann) (gh_store gh') = Inr (Some p) \<longrightarrow>
            ri_VerificationTier p = ''mesh-verified''
     else db_proofs (gh_store gh') = db_proofs (gh_store gh))"
proof -
  let ?s = "ga_SubjectID ann"
  from assms(3) have g: "gh_store gh' = handle_peer_attestation T now ann (gh_store gh)"
    by (cases rule: Handle_cases) (use assms(4) in \<open>auto simp: dispatch_def\<close>)
  obtain db1 where db1: "db_inv db1" "\<not> db_fault db1" "db_proofs db1 = db_proofs (gh_store gh)"
    "voters ?s db1 = insert (ga_AttesterID ann) (voters ?s (gh_store gh))"
    "gh_store gh' = (if card (voters ?s db1) \<ge> 3
       then snd (UpdateRegistryVerificationTier ?s ''mesh-verified'' db1) else db1)"
    using handle_peer_attestation_eq[OF assms(1,2,5,6), of now] g by metis
  have v: "voters ?s (gh_store gh') = voters ?s db1"
    by (simp add: db1(5) voters_def UpdateRegistryVerificationTier_def pool_Exec_def)
  have "ri_VerificationTier p = ''mesh-verified''"
    if "card (voters ?s db1) \<ge> 3" "GetRegistryProof T ?s (gh_store gh') = Inr (Some p)" for p
    using that db1(2)
    by (auto simp: db1(5) GetRegistryProof_def pool_Query_def UpdateRegistryVerificationTier_def
        pool_Exec_def t_get_update scanProof_def dest: t_get_Some)
  then show ?thesis using v db1 by simp
qed

section \<open>A concrete exchange\<close>

text \<open>Two registries and an announcement each, with a JSON stand-in that only tells hop counts apart
  and the signature scheme \<^const>\<open>toy_ed25519\<close>.\<close>

definition hop_marshal :: "GossipAnnouncement \<Rightarrow> byte list option" where
  "hop_marshal a = Some (if ga_HopCount a \<ge> 0 then replicate (nat (ga_HopCount a)) 1
     else 0 # replicate (nat (- ga_HopCount a)) 1)"

definition registry_kp :: "byte \<Rightarrow> Keypair" where
  "registry_kp b = keypair_of toy_ed25519 (ed_NewKeyFromSeed toy_ed25519 (replicate 32 b))"

definition fresh_handler :: GossipHandler where
  "fresh_handler = NewGossipHandler empty_db 5 300"

definition sample_announcement :: "byte \<Rightarrow> int \<Rightarrow> string \<Rightarrow> GossipAnnouncement" where
  "sample_announcement b t action = CreateAnnouncement hop_marshal unix_time t (sample_agent ''a'' ''w'') action
     (kp_RegistryID (registry_kp b)) (PublicKeyString (registry_kp b)) (kp_Sign toy_ed25519 (registry_kp b)) fresh_handler"

lemma hop_marshal_inj: "hop_marshal a \<noteq> None \<Longrightarrow> hop_marshal a = hop_marshal b \<Longrightarrow> ga_HopCount a = ga_HopCount b"
  by (cases "ga_HopCount a \<ge> 0"; cases "ga_HopCount b \<ge> 0"; cases "nat (ga_HopCount a)"; cases "nat (ga_HopCount b)")
    (auto simp: hop_marshal_def replicate_eq_replicate)

lemma registry_kp_generated: "generated toy_ed25519 (registry_kp b)"
  unfolding generated_def registry_kp_def by (intro exI[of _ "replicate 32 b"]) (simp add: SeedSize_def)

lemma unix_time_parse: "0 < t \<Longrightarrow> tf_Parse unix_time (tf_Format unix_time t) = Some t"
  by (simp add: unix_time_def)

lemma fresh_handler_simps [simp]:
  "gh_seen fresh_handler = Map.empty" "gh_store fresh_handler = empty_db" "gh_MaxHops fresh_handler = 5"
  "gh_DedupWindowSeconds fresh_handler = 300"
  by (simp_all add: fresh_handler_def NewGossipHandler_def)

lemma empty_db_simps [simp]: "db_fault empty_db = False" "db_gossip empty_db = []"
  by (simp_all add: empty_db_def)

lemma sample_valid: "announcement_valid toy_ed25519 hop_marshal (sample_announcement b t action)"
  unfolding sample_announcement_def CreateAnnouncement_def
  by (rule signed_valid[OF toy_ed25519_ok registry_kp_generated]) (auto simp: hop_marshal_def)

lemma sample_announcement_simps [simp]:
  "ga_Type (sample_announcement b t action) = ''agent_announce''"
  "ga_Action (sample_announcement b t action) = action"
  "ga_EntityID (sample_announcement b t action) = ''a''"
  "ga_Name (sample_announcement b t action) = ''n''"
  "ga_HopCount (sample_announcement b t action) = 0"
  "ga_OriginPublicKey (sample_announcement b t action) = PublicKeyString (registry_kp b)"
  by (simp_all add: sample_announcement_def CreateAnnouncement_def sample_agent_def)

lemma sample_dedupKey: "dedupKey (sample_announcement b t action) = ''a:'' @ replicate (nat t) (CHR ''0'')"
  by (simp add: sample_announcement_def CreateAnnouncement_def)
    (simp add: dedupKey_def agent_announcement_def announcement_envelope_def zero_announcement_def
      sample_agent_def unix_time_def)

lemma sample_registered:
  obtains gh g where "HandleAnnouncement toy_ed25519 hop_marshal unix_time 4 (sample_announcement 5 3 ''register'')
      fresh_handler = (True, (sample_announcement 5 3 ''register'')\<lparr>ga_HopCount := 1\<rparr>, gh)"
    "GetGossipEntry unix_time ''a'' (gh_store gh) = Inr (Some g)"
    "ge_OriginPublicKey g = PublicKeyString (registry_kp 5)"
proof -
  let ?ann = "sample_announcement 5 3 ''register''"
  have "GetGossipEntry unix_time ''a'' empty_db = Inr None" by (simp add: GetGossipEntry_def pool_Query_def)
  then show ?thesis
    using register_accepted[OF sample_valid[of 5 3 "''register''"], of fresh_handler unix_time 4 4]
      unix_time_parse[of 4] that by auto
qed

lemma PublicKeyString_nonempty: "PublicKeyString kp \<noteq> ''''"
  by (simp add: PublicKeyString_def)

lemma registry_kp_inj: "PublicKeyString (registry_kp b) = PublicKeyString (registry_kp c) \<Longrightarrow> b = c"
proof -
  assume "PublicKeyString (registry_kp b) = PublicKeyString (registry_kp c)"
  then have "b64_EncodeToString (replicate 32 b) = b64_EncodeToString (replicate 32 c)"
    by (simp add: PublicKeyString_def registry_kp_def keypair_of_def toy_ed25519_def)
  then have "replicate 32 b = replicate 32 c" by (metis b64_decode_encode option.inject)
  then show ?thesis by (simp add: replicate_eq_replicate)
qed

theorem handle_announcement_decision_witness:
  "\<exists>ann' gh'. HandleAnnouncement toy_ed25519 hop_marshal unix_time 4 (sample_announcement 5 3 ''register'')
      fresh_handler = (True, ann', gh') \<and> ga_HopCount ann' = 1 \<and>
    gh_seen gh' (dedupKey (sample_announcement 5 3 ''register'')) = Some 4"
  by (rule sample_registered) (auto dest!: handle_announcement_decision)

theorem duplicates_suppressed_within_window_witness:
  "\<exists>ann' gh. HandleAnnouncement toy_ed25519 hop_marshal unix_time 4 (sample_announcement 5 3 ''register'')
      fresh_handler = (True, ann', gh) \<and>
    HandleAnnouncement toy_ed25519 hop_marshal unix_time 9 (sample_announcement 6 3 ''update'')
      (cleanDedupWindow 300 gh) = (False, sample_announcement 6 3 ''update'', cleanDedupWindow 300 gh)"
proof (rule sample_registered)
  fix gh g
  assume 1: "HandleAnnouncement toy_ed25519 hop_marshal unix_time 4 (sample_announcement 5 3 ''register'')
      fresh_handler = (True, (sample_announcement 5 3 ''register'')\<lparr>ga_HopCount := 1\<rparr>, gh)"
  show ?thesis
    using duplicates_suppressed_within_window[OF 1, of "[Clean 300]" "sample_announcement 6 3 ''update''" 9] 1
    by (simp add: within_window_def sample_dedupKey)
qed

theorem registration_reaches_neighbour_witness:
  "\<exists>peer' g. HandleAnnouncement toy_ed25519 hop_marshal unix_time 4 (sample_announcement 5 3 ''register'')
      fresh_handler = (True, (sample_announcement 5 3 ''register'')\<lparr>ga_HopCount := 1\<rparr>, peer') \<and>
    GetGossipEntry unix_time ''a'' (gh_store peer') = Inr (Some g) \<and> ge_Name g = ''n''"
proof -
  have i: "rr_EntityID (sample_agent ''a'' ''w'') = ''a''" "rr_Name (sample_agent ''a'' ''w'') = ''n''"
    by (simp_all add: sample_agent_def)
  show ?thesis
    using registration_reaches_neighbour[OF toy_ed25519_ok registry_kp_generated[of 5],
        of fresh_handler hop_marshal unix_time 3 "sample_agent ''a'' ''w''" _
          "sample_announcement 5 3 ''register''" fresh_handler 4 4] i unix_time_parse[of 4]
    by (auto simp: hop_marshal_def sample_announcement_def)
qed

theorem origin_key_pinned_witness:
  "\<exists>gh ann' gh'. HandleAnnouncement toy_ed25519 hop_marshal unix_time 4 (sample_announcement 5 3 ''register'')
      fresh_handler = (True, ann', gh) \<and>
    HandleAnnouncement toy_ed25519 hop_marshal unix_time 9 (sample_announcement 6 8 ''deregister'') gh =
      (False, sample_announcement 6 8 ''deregister'', gh') \<and> gh_store gh' = gh_store gh"
proof (rule sample_registered)
  fix gh g
  assume 1: "HandleAnnouncement toy_ed25519 hop_marshal unix_time 4 (sample_announcement 5 3 ''register'')
      fresh_handler = (True, (sample_announcement 5 3 ''register'')\<lparr>ga_HopCount := 1\<rparr>, gh)"
    and g: "GetGossipEntry unix_time ''a'' (gh_store gh) = Inr (Some g)"
    "ge_OriginPublicKey g = PublicKeyString (registry_kp 5)"
  have "PublicKeyString (registry_kp 6) \<noteq> PublicKeyString (registry_kp 5)" using registry_kp_inj by fastforce
  then show ?thesis
    using origin_key_pinned[of unix_time "sample_announcement 6 8 ''deregister''" gh g toy_ed25519 hop_marshal "[]" 9]
      1 g PublicKeyString_nonempty by (auto simp: Let_def)
qed

theorem register_bypasses_origin_pin_witness:
  "\<exists>gh ann' gh' ann'' g. HandleAnnouncement toy_ed25519 hop_marshal unix_time 4 (sample_announcement 5 3 ''register'')
      fresh_handler = (True, ann', gh) \<and>
    HandleAnnouncement toy_ed25519 hop_marshal unix_time 9 (sample_announcement 6 8 ''register'') gh = (True, ann'', gh') \<and>
    GetGossipEntry unix_time ''a'' (gh_store gh') = Inr (Some g) \<and>
    ge_OriginPublicKey g = PublicKeyString (registry_kp 5)"
proof (rule sample_registered)
  fix gh g
  assume 1: "HandleAnnouncement toy_ed25519 hop_marshal unix_time 4 (sample_announcement 5 3 ''register'')
      fresh_handler = (True, (sample_announcement 5 3 ''register'')\<lparr>ga_HopCount := 1\<rparr>, gh)"
    and g: "GetGossipEntry unix_time ''a'' (gh_store gh) = Inr (Some g)"
    "ge_OriginPublicKey g = PublicKeyString (registry_kp 5)"
  have "gh_seen gh = [''a:000'' \<mapsto> 4]"
    using 1 by (cases rule: Handle_cases) (auto simp: sample_dedupKey numeral_eq_Suc dest!: dispatch_keeps)
  then have "gh_seen gh (dedupKey (sample_announcement 6 8 ''register'')) = None"
    by (simp add: sample_dedupKey numeral_eq_Suc)
  then show ?thesis
    using register_bypasses_origin_pin[of unix_time "sample_announcement 6 8 ''register''" gh g toy_ed25519 hop_marshal 9 9]
      1 g PublicKeyString_nonempty sample_valid unix_time_parse[of 9] by auto
qed

lemma toy_resigned:
  "(sample_announcement b t action)\<lparr>ga_HopCount := 1\<rparr> =
   sign_announcement hop_marshal (kp_Sign toy_ed25519 (registry_kp b))
     ((agent_announcement unix_time t (sample_agent ''a'' ''w'') action
        (kp_RegistryID (registry_kp b)) (PublicKeyString (registry_kp b)) fresh_handler)\<lparr>ga_HopCount := 1\<rparr>)"
proof -
  have "kp_Sign toy_ed25519 kp m = kp_Sign toy_ed25519 kp m'" for kp m m'
    by (simp add: kp_Sign_def toy_ed25519_def)
  then show ?thesis
    unfolding sample_announcement_def CreateAnnouncement_def sign_announcement_def by simp
qed

theorem forwarded_copy_needs_forgery_witness:
  "\<exists>ann' gh ann'' next'. HandleAnnouncement toy_ed25519 hop_marshal unix_time 4 (sample_announcement 5 3 ''register'')
      fresh_handler = (True, ann', gh) \<and>
    HandleAnnouncement toy_ed25519 hop_marshal unix_time 5 ann' fresh_handler = (True, ann'', next') \<and>
    (\<exists>pub sig m m'. m \<noteq> m' \<and> ed_Verify toy_ed25519 pub m sig \<and> ed_Verify toy_ed25519 pub m' sig)"
proof (rule sample_registered)
  let ?ann = "sample_announcement 5 3 ''register''"
  fix gh g
  assume 1: "HandleAnnouncement toy_ed25519 hop_marshal unix_time 4 ?ann fresh_handler =
      (True, ?ann\<lparr>ga_HopCount := 1\<rparr>, gh)"
  have "announcement_valid toy_ed25519 hop_marshal (?ann\<lparr>ga_HopCount := 1\<rparr>)"
    unfolding toy_resigned
    by (rule signed_valid[OF toy_ed25519_ok registry_kp_generated]) (auto simp: hop_marshal_def)
  then obtain ann'' next' where 2: "HandleAnnouncement toy_ed25519 hop_marshal unix_time 5
      (?ann\<lparr>ga_HopCount := 1\<rparr>) fresh_handler = (True, ann'', next')"
    using register_accepted[of toy_ed25519 hop_marshal "?ann\<lparr>ga_HopCount := 1\<rparr>" fresh_handler unix_time 5 5]
      unix_time_parse[of 5] by fastforce
  show ?thesis using forwarded_copy_needs_forgery[OF 1 hop_marshal_inj 2] 1 2 by blast
qed

definition sample_attestation :: "string \<Rightarrow> PeerAttestation" where
  "sample_attestation voter = \<lparr>pa_AttesterID = voter, pa_AttesterDomain = '''', pa_SubjectID = ''s'',
     pa_SubjectDomain = '''', pa_VerifiedLayers = [], pa_AttestedAt = ''0'', pa_Signature = ''''\<rparr>"

definition two_votes :: DB where
  "two_votes = fold (store_step unix_time)
     [SCreateAttestation (sample_attestation ''x''), SCreateAttestation (sample_attestation ''y'')] empty_db"

definition third_vote :: GossipAnnouncement where
  "third_vote = CreatePeerAttestationAnnouncement hop_marshal unix_time 3 (sample_attestation ''z'') ''attest''
     ''r'' (PublicKeyString (registry_kp 5)) (kp_Sign toy_ed25519 (registry_kp 5)) fresh_handler"

theorem attestation_quorum_witness:
  "\<exists>ann' gh'. HandleAnnouncement toy_ed25519 hop_marshal unix_time 4 third_vote
      (fresh_handler\<lparr>gh_store := two_votes\<rparr>) = (True, ann', gh') \<and>
    voters ''s'' (gh_store gh') = {''x'', ''y'', ''z''}"
proof -
  let ?gh = "fresh_handler\<lparr>gh_store := two_votes\<rparr>"
  have v: "announcement_valid toy_ed25519 hop_marshal third_vote"
    unfolding third_vote_def CreatePeerAttestationAnnouncement_def
    by (rule signed_valid[OF toy_ed25519_ok registry_kp_generated])
      (auto simp: hop_marshal_def announcement_envelope_def zero_announcement_def)
  have a: "ga_Type third_vote = ''peer_attestation''" "ga_Action third_vote = ''attest''"
    "ga_SubjectID third_vote = ''s''" "ga_AttesterID third_vote = ''z''" "ga_Timestamp third_vote = ''000''"
    by (simp_all add: third_vote_def CreatePeerAttestationAnnouncement_def sign_announcement_def
        announcement_envelope_def zero_announcement_def sample_attestation_def unix_time_def numeral_eq_Suc)
  obtain ann' gh' where h: "HandleAnnouncement toy_ed25519 hop_marshal unix_time 4 third_vote ?gh = (True, ann', gh')"
    using v a by (simp add: HandleAnnouncement_def dispatch_def)
  have "db_inv two_votes" unfolding two_votes_def by (rule store.run_inv[OF empty_db_inv])
  then have inv: "db_inv (gh_store ?gh)" by simp
  have t: "two_votes = empty_db\<lparr>db_attestations := [\<lparr>ar_rec = sample_attestation ''x'', ar_attested = 1\<rparr>,
      \<lparr>ar_rec = sample_attestation ''y'', ar_attested = 1\<rparr>]\<rparr>"
    by (simp add: two_votes_def CreatePeerAttestation_def pool_Exec_def empty_db_def unix_time_def
        sample_attestation_def t_upsert_def)
  have f: "\<not> db_fault two_votes" by (simp add: t)
  have "voters ''s'' two_votes = {''x'', ''y''}" by (force simp: voters_def t sample_attestation_def image_iff)
  moreover have "voters ''s'' (gh_store gh') = insert ''z'' (voters ''s'' two_votes)"
    using attestation_quorum[OF inv _ h a(1,2), of 3] a f by (simp add: unix_time_def)
  ultimately show ?thesis using h by auto
qed

section \<open>Gossiped handles\<close>

definition handles_empty :: "DB \<Rightarrow> bool" where
  "handles_empty db = (\<forall>r\<in>set (db_gossip_developers db).
     gd_DevHandle (gdr_rec r) = '''' \<and> \<not> gd_DevHandleVerified (gdr_rec r))"

definition no_handles :: "GossipHandler \<Rightarrow> bool" where
  "no_handles gh = handles_empty (gh_store gh)"

lemma handles_empty_developers:
  "handles_empty db \<Longrightarrow> handles_empty (snd (UpsertGossipDeveloper T e db))"
  "handles_empty db \<Longrightarrow> handles_empty (snd (TombstoneGossipDeveloper now d db))"
  by (auto simp: handles_empty_def UpsertGossipDeveloper_def TombstoneGossipDeveloper_def pool_Exec_def Let_def
      t_upsert_def set_t_update gossip_dev_merge_def split: option.splits if_splits)

lemma other_ops_keep_developers:
  "db_gossip_developers (snd (UpsertGossipZNSName T n db)) = db_gossip_developers db"
  "db_gossip_developers (snd (TombstoneGossipZNSName f db)) = db_gossip_developers db"
  "db_gossip_developers (snd (UpsertRegistryProof T p db)) = db_gossip_developers db"
  "db_gossip_developers (snd (CreatePeerAttestation T a db)) = db_gossip_developers db"
  "db_gossip_developers (snd (UpdateRegistryVerificationTier i tier db)) = db_gossip_developers db"
  "db_gossip_developers (snd (UpsertGossipEntry T ge db)) = db_gossip_developers db"
  "db_gossip_developers (snd (TombstoneGossipEntry now i db)) = db_gossip_developers db"
  "db_gossip_developers (snd (UpdateGossipEntryStatus i st db)) = db_gossip_developers db"
  unfolding UpsertGossipZNSName_def TombstoneGossipZNSName_def UpsertRegistryProof_def
    CreatePeerAttestation_def UpdateRegistryVerificationTier_def UpsertGossipEntry_def
    TombstoneGossipEntry_def UpdateGossipEntryStatus_def pool_Exec_def Let_def
  by (auto split: option.splits)

lemma handles_empty_same:
  "handles_empty db \<Longrightarrow> db_gossip_developers db' = db_gossip_developers db \<Longrightarrow> handles_empty db'"
  by (simp add: handles_empty_def)

lemma handles_empty_others:
  "handles_empty db \<Longrightarrow> handles_empty (handle_name_binding T now ann db)"
  "handles_empty db \<Longrightarrow> handles_empty (handle_registry_proof T now ann db)"
  "handles_empty db \<Longrightarrow> handles_empty (handle_peer_attestation T now ann db)"
  unfolding handle_name_binding_def handle_registry_proof_def handle_peer_attestation_def Let_def
  by (auto elim!: handles_empty_same simp: other_ops_keep_developers)

lemma handles_empty_agent:
  "handle_agent_announce T now ann gh = Some gh' \<Longrightarrow> handles_empty (gh_store gh) \<Longrightarrow> handles_empty (gh_store gh')"
  unfolding handle_agent_announce_def
  by (auto elim!: handles_empty_same simp: other_ops_keep_developers split: if_splits)

lemma no_handles_dispatch: "dispatch T now ann gh = Some gh' \<Longrightarrow> no_handles gh \<Longrightarrow> no_handles gh'"
  unfolding dispatch_def handle_developer_announce_def handle_dev_handle_def no_handles_def
  by (auto intro: handles_empty_others handles_empty_developers handles_empty_agent split: if_splits)

interpretation handles: invariant_machine "gossip_step E marshal T" no_handles
proof
  show "no_handles (gossip_step E marshal T op s)" if "no_handles s" for s op
  proof (cases op)
    case (Receive now ann)
    obtain fwd ann' gh' where h: "HandleAnnouncement E marshal T now ann s = (fwd, ann', gh')"
      by (metis prod_cases3)
    then have "no_handles gh'"
    proof (cases rule: Handle_cases)
      case (forwarded gh1)
      have "no_handles gh1" using no_handles_dispatch[OF forwarded(5)] that by (simp add: no_handles_def)
      then show ?thesis using forwarded(6) by (simp add: no_handles_def)
    qed (use that in \<open>simp_all add: no_handles_def\<close>)
    then show ?thesis using Receive h by simp
  qed (use that in \<open>simp_all add: no_handles_def\<close>)
qed

text \<open>Gossiped handles are dropped. The handler passes the handle of a \<open>dev_handle\<close>
  announcement to the store, whose upsert names no handle column: after any run from a new
  handler on an empty store, no developer learned by gossip has a handle or counts as verified,
  in the table and in what the store returns.\<close>

theorem gossiped_handles_dropped:
  "let gh = fold (gossip_step E marshal T) ops (NewGossipHandler empty_db maxHops window) in
     no_handles gh \<and>
     (\<forall>d. case GetGossipDeveloper T d (gh_store gh) of Inr (Some e) \<Rightarrow> gd_DevHandle e = '''' | _ \<Rightarrow> True)"
proof -
  have "no_handles (NewGossipHandler empty_db maxHops window)"
    by (simp add: no_handles_def handles_empty_def NewGossipHandler_def empty_db_def)
  then have "no_handles (fold (gossip_step E marshal T) ops (NewGossipHandler empty_db maxHops window))"
    by (rule handles.run_inv)
  then show ?thesis
    by (auto simp: Let_def GetGossipDeveloper_def pool_Query_def split: sum.splits option.splits if_splits)
qed

end
