(* ===== verification/ApiProps.thy ===== *)
theory ApiProps
  imports Api GossipProps
begin

text \<open>
  Properties of the HTTP API. The handlers, the liveness monitor and incoming announcements form
  one machine over the server state (\<open>api_step\<close>): refused requests change nothing, the integrity
  of the store survives every run, and the record of an entity changes only by its owner.
\<close>

section \<open>The parts of the server state\<close>

lemma set_store_simps [simp]:
  "s_store (set_store db s) = db" "s_cfg (set_store db s) = s_cfg s"
  "s_nodeIdentity (set_store db s) = s_nodeIdentity s" "s_peerManager (set_store db s) = s_peerManager s"
  "set_store db (set_store db' s) = set_store db s" "set_store (s_store s) s = s"
  by (simp_all add: set_store_def)

lemma Publish_simps [simp]:
  "s_store (Publish e s) = s_store s" "s_cfg (Publish e s) = s_cfg s"
  "s_nodeIdentity (Publish e s) = s_nodeIdentity s" "s_peerManager (Publish e s) = s_peerManager s"
  by (simp_all add: Publish_def)

lemma index_agent_simps [simp]:
  "s_store (index_agent c s) = s_store s" "s_cfg (index_agent c s) = s_cfg s"
  "s_nodeIdentity (index_agent c s) = s_nodeIdentity s" "s_peerManager (index_agent c s) = s_peerManager s"
  by (simp_all add: index_agent_def)

lemma announce_simps [simp]:
  "s_store (announce v now mk s) = s_store s" "s_cfg (announce v now mk s) = s_cfg s"
  "s_nodeIdentity (announce v now mk s) = s_nodeIdentity s"
  "s_peerManager (announce v now mk s) = s_peerManager s"
  by (simp_all add: announce_def)

lemma writeError_simps [simp]: "writeError st m = (st', p) \<longleftrightarrow> st' = st \<and> p = PError m" "fst (writeError st m) = st"
  by (auto simp: writeError_def)

section \<open>Store methods that fail\<close>

lemma no_rows_update: "require_rows P rows = Inl e \<Longrightarrow> t_update P f rows = rows"
  unfolding require_rows_def t_count_def t_update_def
  by (auto simp: filter_empty_conv map_idI split: if_splits)

lemma no_rows_delete: "require_rows P rows = Inl e \<Longrightarrow> t_delete P rows = rows"
  unfolding require_rows_def t_count_def t_delete_def
  by (auto simp: filter_empty_conv split: if_splits)

lemma delete_names_none:
  assumes "\<And>z. z \<in> set (db_zns db) \<Longrightarrow> \<not> P z"
  shows "delete_names P db = db"
proof -
  have "t_delete P (db_zns db) = db_zns db"
    "t_delete (\<lambda>v. \<exists>z\<in>set (db_zns db). P z \<and> zkey z = zv_FQAN (vr_rec v)) (db_zns_versions db) = db_zns_versions db"
    using assms by (auto simp: t_delete_def filter_id_conv)
  then show ?thesis by (simp add: delete_names_def)
qed

lemma DeleteZNSName_err: "DeleteZNSName f db = (Inl e, db') \<Longrightarrow> db' = db"
  by (auto simp: DeleteZNSName_def pool_Exec_def require_rows_def t_count_def filter_empty_conv
      intro!: delete_names_none split: if_splits)

lemma exec_err:
  "CreateDeveloper T d db = (Inl e, db') \<Longrightarrow> db' = db"
  "UpdateDeveloper T d db = (Inl e, db') \<Longrightarrow> db' = db"
  "DeleteDeveloper i db = (Inl e, db') \<Longrightarrow> db' = db"
  "ClaimHandle now i h r db = (Inl e, db') \<Longrightarrow> db' = db"
  "ReleaseHandle now i h db = (Inl e, db') \<Longrightarrow> db' = db"
  "UpdateHandleVerification now i b m p db = (Inl e, db') \<Longrightarrow> db' = db"
  "CreateAgent T now a db = (Inl e, db') \<Longrightarrow> db' = db"
  "UpdateEntity T a db = (Inl e, db') \<Longrightarrow> db' = db"
  "UpdateEntityHeartbeat now i db = (Inl e, db') \<Longrightarrow> db' = db"
  "CreateZNSName T n db = (Inl e, db') \<Longrightarrow> db' = db"
  "UpdateZNSName T n db = (Inl e, db') \<Longrightarrow> db' = db"
  unfolding CreateDeveloper_def UpdateDeveloper_def DeleteDeveloper_def ClaimHandle_def ReleaseHandle_def
    UpdateHandleVerification_def CreateAgent_def UpdateEntity_def UpdateEntityHeartbeat_def
    CreateZNSName_def UpdateZNSName_def pool_Exec_def Let_def
  by (auto simp: no_rows_update no_rows_delete split: if_splits option.splits prod.splits)

section \<open>The request machine\<close>

datatype api_op =
  ARegisterDeveloper int "DeveloperRegistrationRequest option"
| AUpdateDeveloper int string "byte list option" string
| ADeleteDeveloper int string string
| AApprove int "byte list option" "byte list \<Rightarrow> byte list \<Rightarrow> byte list \<Rightarrow> byte list" "byte list option" string
    "DeveloperApprovalRequest option"
| ARegisterEntity int "RegistrationRequest option"
| AUpdateEntity int string "byte list option" string
| ADeleteEntity int string string
| AClaimHandle int "HandleClaimRequest option"
| AReleaseHandle int string string
| AVerifyHandle int string "HandleVerifyRequest option"
| ARegisterName int "NameBindingRequest option"
| AUpdateName int string string "NameUpdateRequest option"
| AReleaseName int string string string
| AResolveName string string
| AAddPeer "string list" int "PeerInfo option"

fun api_step :: "env \<Rightarrow> api_op \<Rightarrow> Server \<Rightarrow> response \<times> Server" where
  "api_step v (ARegisterDeveloper now body) s = handleRegisterDeveloper v now body s"
| "api_step v (AUpdateDeveloper now i body auth) s = handleUpdateDeveloper v now i body auth s"
| "api_step v (ADeleteDeveloper now i auth) s = handleDeleteDeveloper v now i auth s"
| "api_step v (AApprove now seed seal nonce auth body) s = approve_route v now seed seal nonce auth body s"
| "api_step v (ARegisterEntity now body) s = handleRegisterEntity v now body s"
| "api_step v (AUpdateEntity now i body auth) s = handleUpdateEntity v now i body auth s"
| "api_step v (ADeleteEntity now i auth) s = handleDeleteEntity v now i auth s"
| "api_step v (AClaimHandle now body) s = handleClaimHandle v now body s"
| "api_step v (AReleaseHandle now h auth) s = handleReleaseHandle v now h auth s"
| "api_step v (AVerifyHandle now h body) s = handleVerifyHandle v now h body s"
| "api_step v (ARegisterName now body) s = handleRegisterName v now body s"
| "api_step v (AUpdateName now d n body) s = handleUpdateName v now d n body s"
| "api_step v (AReleaseName now d n auth) s = handleReleaseName v now d n auth s"
| "api_step v (AResolveName d n) s = handleResolveName v d n s"
| "api_step v (AAddPeer order now body) s = handleAddPeer v order now body s"

section \<open>Refused requests\<close>

lemma bind_name_err: "bind_name v now name s = (Inl e, s') \<Longrightarrow> s' = s"
  by (auto simp: bind_name_def Let_def dest!: exec_err split: prod.splits sum.splits)

lemma create_error_status: "fst (create_error e c f) = 409 \<or> fst (create_error e c f) = 500"
  by (simp add: create_error_def)

lemma claim_error_status: "fst (claim_error e) = 409 \<or> fst (claim_error e) = 500"
  by (simp add: claim_error_def split: dberr.splits)

lemma DeleteEntity_own:
  assumes "found (GetEntity T i db) = Some a" "DeleteEntity i (rr_Owner a) db = (Inl e, db')"
  shows False
proof -
  obtain r where "r \<in> set (db_entities db)" "ekey r = i" "rr_Owner (er_rec r) = rr_Owner a" "\<not> db_fault db"
    using assms(1) t_get_Some[of ekey i "db_entities db"]
    by (auto simp: found_def GetEntity_def pool_Query_def scanAgentRow_def split: sum.splits if_splits)
  then have "require_rows (\<lambda>r. ekey r = i \<and> rr_Owner (er_rec r) = rr_Owner a) (db_entities db) = Inr ()"
    by (auto simp: require_rows_ok)
  then show False
    using assms(2) \<open>\<not> db_fault db\<close> by (simp add: DeleteEntity_def pool_Exec_def delete_names_def Let_def)
qed

lemma refused_developer_requests:
  "handleRegisterDeveloper v now rbody s = (resp, s') \<Longrightarrow> fst resp \<ge> 400 \<Longrightarrow> s' = s"
  "handleUpdateDeveloper v now i ubody auth s = (resp, s') \<Longrightarrow> fst resp \<ge> 400 \<Longrightarrow> s' = s"
  "handleDeleteDeveloper v now i auth s = (resp, s') \<Longrightarrow> fst resp \<ge> 400 \<Longrightarrow> s' = s"
  unfolding handleRegisterDeveloper_def handleUpdateDeveloper_def handleDeleteDeveloper_def Let_def
  by (auto dest!: exec_err split: if_splits option.splits prod.splits sum.splits)

lemma registration_refused: "registration_record v now req s = Inl resp \<Longrightarrow> fst resp \<ge> 400"
  unfolding registration_record_def check_developer_def developer_key_def Let_def
  by (auto split: if_splits option.splits sum.splits)

lemma refused_entity_requests:
  "handleRegisterEntity v now rbody s = (resp, s') \<Longrightarrow> fst resp \<ge> 400 \<Longrightarrow> s' = s"
  "handleUpdateEntity v now i ubody auth s = (resp, s') \<Longrightarrow> fst resp \<ge> 400 \<Longrightarrow> s' = s"
  "handleDeleteEntity v now i auth s = (resp, s') \<Longrightarrow> fst resp \<ge> 400 \<Longrightarrow> s' = s"
  unfolding handleRegisterEntity_def handleUpdateEntity_def handleDeleteEntity_def Let_def
  by (auto dest!: exec_err DeleteEntity_own split: if_splits option.splits prod.splits sum.splits)

lemma refused_handle_requests:
  "handleClaimHandle v now cbody s = (resp, s') \<Longrightarrow> fst resp \<ge> 400 \<Longrightarrow> s' = s"
  "handleReleaseHandle v now h auth s = (resp, s') \<Longrightarrow> fst resp \<ge> 400 \<Longrightarrow> s' = s"
  "handleVerifyHandle v now h vbody s = (resp, s') \<Longrightarrow> fst resp \<ge> 400 \<Longrightarrow> s' = s"
  unfolding handleClaimHandle_def handleReleaseHandle_def handleVerifyHandle_def Let_def
  by (auto dest!: exec_err split: if_splits option.splits prod.splits sum.splits)

lemma refused_name_requests:
  "handleRegisterName v now nbody s = (resp, s') \<Longrightarrow> fst resp \<ge> 400 \<Longrightarrow> s' = s"
  "handleUpdateName v now d n ubody s = (resp, s') \<Longrightarrow> fst resp \<ge> 400 \<Longrightarrow> s' = s"
  "handleReleaseName v now d n auth s = (resp, s') \<Longrightarrow> fst resp \<ge> 400 \<Longrightarrow> s' = s"
  "handleResolveName v d n s = (resp, s') \<Longrightarrow> fst resp \<ge> 400 \<Longrightarrow> s' = s"
  "handleAddPeer v order now pbody s = (resp, s') \<Longrightarrow> fst resp \<ge> 400 \<Longrightarrow> s' = s"
  unfolding handleRegisterName_def handleUpdateName_def handleReleaseName_def handleResolveName_def
    handleAddPeer_def Let_def
  by (auto dest!: exec_err DeleteZNSName_err bind_name_err
      split: if_splits option.splits prod.splits sum.splits)

lemmas refused_requests = refused_developer_requests refused_entity_requests refused_handle_requests
  refused_name_requests

lemma CreateDeveloper_found:
  assumes "CreateDeveloper T d db = (Inr (), db')"
  obtains r where "r \<in> set (db_developers db')" "dkey r = dev_DeveloperID d"
    "dev_PublicKey (dv_rec r) = dev_PublicKey d" "\<not> db_fault db'"
    "\<exists>ra ua. db' = db\<lparr>db_developers := db_developers db @ [r]\<rparr> \<and>
       scanDeveloper T r = d\<lparr>dev_SchemaVersion := or_default (dev_SchemaVersion d) CurrentSchemaVersion,
         dev_DevHandleVerified := False, dev_VerificationMethod := '''', dev_VerificationProof := '''',
         dev_RegisteredAt := tf_Format T ra, dev_UpdatedAt := tf_Format T ua\<rparr> \<and>
       tf_Parse T (dev_RegisteredAt d) = Some ra \<and> tf_Parse T (dev_UpdatedAt d) = Some ua"
    "GetDeveloper T (dev_DeveloperID d) db' = Inr (Some (scanDeveloper T r))"
    "dv_handle r = (if dev_DevHandle d = '''' then None else Some (dev_DevHandle d))"
proof -
  obtain ra ua where p: "tf_Parse T (dev_RegisteredAt d) = Some ra" "tf_Parse T (dev_UpdatedAt d) = Some ua"
    and f: "\<not> db_fault db"
    using assms by (auto simp: CreateDeveloper_def pool_Exec_ok split: option.splits)
  define row where "row = \<lparr>dv_rec = d\<lparr>dev_SchemaVersion := or_default (dev_SchemaVersion d) CurrentSchemaVersion,
                        dev_DevHandleVerified := False, dev_VerificationMethod := '''',
                        dev_VerificationProof := ''''\<rparr>,
                     dv_handle = (if dev_DevHandle d \<noteq> '''' then Some (dev_DevHandle d) else None),
                     dv_registered = ra, dv_updated = ua\<rparr>"
  have new: "\<not> list_ex (\<lambda>r. dkey r = dkey row \<or> dev_PublicKey (dv_rec r) = dev_PublicKey d \<or>
      handle_clash row r) (db_developers db)" and db': "db' = db\<lparr>db_developers := db_developers db @ [row]\<rparr>"
    using assms p f by (auto simp: CreateDeveloper_def pool_Exec_ok Let_def row_def split: if_splits)
  have "t_get dkey (dev_DeveloperID d) (db_developers db) = None"
    using new by (auto simp: t_get_None list_ex_iff row_def)
  then have "GetDeveloper T (dev_DeveloperID d) db' = Inr (Some (scanDeveloper T row))"
    using f by (simp add: GetDeveloper_def pool_Query_def db' t_get_append row_def)
  moreover have "scanDeveloper T row = d\<lparr>dev_SchemaVersion := or_default (dev_SchemaVersion d) CurrentSchemaVersion,
      dev_DevHandleVerified := False, dev_VerificationMethod := '''', dev_VerificationProof := '''',
      dev_RegisteredAt := tf_Format T ra, dev_UpdatedAt := tf_Format T ua\<rparr>"
    by (simp add: scanDeveloper_def row_def)
  moreover have "row \<in> set (db_developers db')" "\<not> db_fault db'" using f by (simp_all add: db')
  moreover have "dkey row = dev_DeveloperID d" "dev_PublicKey (dv_rec row) = dev_PublicKey d"
    "dv_handle row = (if dev_DevHandle d = '''' then None else Some (dev_DevHandle d))"
    by (simp_all add: row_def)
  ultimately show ?thesis using that[of row] db' p by blast
qed

lemma refused_approval:
  assumes "approve_route v now seed seal nonce auth body s = (resp, s')" "fst resp \<ge> 400"
  shows "s' = s \<or> (nonce = None \<and> resp = writeError 500 ''failed to encrypt private key'' \<and>
    (\<exists>kp dev. GenerateKeypair (v_E v) seed = Some kp \<and> dev_PublicKey dev = PublicKeyString kp \<and>
       GetDeveloper (v_T v) (GenerateDeveloperID (kp_PublicKey kp)) (s_store s') = Inr (Some dev)))"
proof (cases "s' = s")
  case False
  let ?dev = "\<lambda>req kp. approved_developer v now (GenerateDeveloperID (kp_PublicKey kp)) req kp (RegistryHost v (s_cfg s))"
  obtain req kp db where d: "GenerateKeypair (v_E v) seed = Some kp" "nonce = None"
    "resp = writeError 500 ''failed to encrypt private key''"
    "CreateDeveloper (v_T v) (?dev req kp) (s_store s) = (Inr (), db)" "s_store s' = db"
    using assms False unfolding approve_route_def handleApproveDeveloper_def Let_def
    by (auto dest!: exec_err split: if_splits option.splits prod.splits sum.splits simp: writeError_def)
  have dev: "dev_DeveloperID (?dev req kp) = GenerateDeveloperID (kp_PublicKey kp)"
    "dev_PublicKey (?dev req kp) = PublicKeyString kp" by (simp_all add: approved_developer_def)
  obtain r where "dev_PublicKey (dv_rec r) = dev_PublicKey (?dev req kp)"
    "GetDeveloper (v_T v) (dev_DeveloperID (?dev req kp)) db = Inr (Some (scanDeveloper (v_T v) r))"
    using CreateDeveloper_found[OF d(4)] by metis
  then show ?thesis using d dev by (auto simp: scanDeveloper_def)
qed simp


section \<open>Integrity\<close>

text \<open>A name whose FQAN is built from its parts.\<close>

definition canonical_name :: "ZNSName \<Rightarrow> bool" where
  "canonical_name n = (zn_FQAN n = BuildFQAN (zn_RegistryHost n) (zn_DeveloperHandle n) (zn_EntityName n))"

definition names_canonical :: "DB \<Rightarrow> bool" where
  "names_canonical db = (\<forall>z\<in>set (db_zns db). canonical_name (zr_rec z))"

text \<open>The writes of a node: every method of the store, but names are created under their canonical
  FQAN only.\<close>

definition node_write :: "store_op \<Rightarrow> bool" where
  "node_write op = (case op of SCreateName n \<Rightarrow> canonical_name n | _ \<Rightarrow> True)"

text \<open>Everything that happens to a node: requests, heartbeat sockets, the sweep of the liveness
  monitor, and announcements that arrive from the mesh.\<close>

datatype node_op =
  Request api_op
| Heartbeats string "(int \<times> AgentHeartbeat) list"
| LivenessSweep int
| Incoming int GossipAnnouncement
| CleanDedup int

fun node_step :: "env \<Rightarrow> node_op \<Rightarrow> Server \<Rightarrow> Server" where
  "node_step v (Request op) s = snd (api_step v op s)"
| "node_step v (Heartbeats i msgs) s = snd (handleEntityHeartbeat v i msgs s)"
| "node_step v (LivenessSweep now) s = sweep v now s"
| "node_step v (Incoming now ann) s =
     s\<lparr>s_gossip := snd (snd (HandleAnnouncement (v_E v) (v_announce v) (v_T v) now ann (s_gossip s)))\<rparr>"
| "node_step v (CleanDedup now) s = s\<lparr>s_gossip := cleanDedupWindow now (s_gossip s)\<rparr>"

lemma announce_inactive_store [simp]: "s_store (announce_inactive v now i s) = s_store s"
  by (simp add: announce_inactive_def)

lemma fold_announce_inactive_store [simp]: "s_store (fold (announce_inactive v now) ids s) = s_store s"
  by (induction ids arbitrary: s) simp_all

lemma sweep_store: "s_store (sweep v now s) =
  snd (MarkInactiveEntities now (c_InactiveThresholdS (s_cfg s)) (s_store s))"
  by (simp add: sweep_def split: prod.splits sum.splits)

text \<open>A property of the store that the node's writes keep is kept by the node.\<close>

locale node_store =
  fixes v :: env and I :: "DB \<Rightarrow> bool"
  assumes write_keeps: "node_write op \<Longrightarrow> I db \<Longrightarrow> I (store_step (v_T v) op db)"
begin

lemma developer_writes_keep:
  "CreateDeveloper (v_T v) d db = (r, db') \<Longrightarrow> I db \<Longrightarrow> I db'"
  "UpdateDeveloper (v_T v) d db = (r, db') \<Longrightarrow> I db \<Longrightarrow> I db'"
  "DeleteDeveloper i db = (r, db') \<Longrightarrow> I db \<Longrightarrow> I db'"
  "ClaimHandle now i h reg db = (r, db') \<Longrightarrow> I db \<Longrightarrow> I db'"
  "ReleaseHandle now i h db = (r, db') \<Longrightarrow> I db \<Longrightarrow> I db'"
  "UpdateHandleVerification now i b m p db = (r, db') \<Longrightarrow> I db \<Longrightarrow> I db'"
  using write_keeps[of "SCreateDeveloper d" db] write_keeps[of "SUpdateDeveloper d" db]
    write_keeps[of "SDeleteDeveloper i" db] write_keeps[of "SClaimHandle now i h reg" db]
    write_keeps[of "SReleaseHandle now i h" db] write_keeps[of "SVerifyHandle now i b m p" db]
  by (simp_all add: node_write_def)

lemma entity_writes_keep:
  "CreateAgent (v_T v) now a db = (r, db') \<Longrightarrow> I db \<Longrightarrow> I db'"
  "UpdateEntity (v_T v) a db = (r, db') \<Longrightarrow> I db \<Longrightarrow> I db'"
  "DeleteEntity i w db = (r, db') \<Longrightarrow> I db \<Longrightarrow> I db'"
  "UpdateEntityHeartbeat now i db = (r, db') \<Longrightarrow> I db \<Longrightarrow> I db'"
  "I db \<Longrightarrow> I (snd (MarkInactiveEntities now th db))"
  "I db \<Longrightarrow> I (snd (CreateTombstone (v_T v) t db))"
  using write_keeps[of "SCreateAgent now a" db] write_keeps[of "SUpdateEntity a" db]
    write_keeps[of "SDeleteEntity i w" db] write_keeps[of "SHeartbeat now i" db]
    write_keeps[of "SMarkInactive now th" db] write_keeps[of "SCreateTombstone t" db]
  by (simp_all add: node_write_def)

lemma name_writes_keep:
  "CreateZNSName (v_T v) n db = (r, db') \<Longrightarrow> canonical_name n \<Longrightarrow> I db \<Longrightarrow> I db'"
  "UpdateZNSName (v_T v) n db = (r, db') \<Longrightarrow> I db \<Longrightarrow> I db'"
  "DeleteZNSName f db = (r, db') \<Longrightarrow> I db \<Longrightarrow> I db'"
  "I db \<Longrightarrow> I (snd (CreateZNSVersion (v_T v) ver db))"
  using write_keeps[of "SCreateName n" db] write_keeps[of "SUpdateName n" db]
    write_keeps[of "SDeleteName f" db] write_keeps[of "SCreateVersion ver" db]
  by (simp_all add: node_write_def)

lemma gossip_writes_keep:
  "I db \<Longrightarrow> I (snd (UpsertGossipEntry (v_T v) e db))"
  "I db \<Longrightarrow> I (snd (TombstoneGossipEntry now i db))"
  "I db \<Longrightarrow> I (snd (UpdateGossipEntryStatus i st db))"
  "I db \<Longrightarrow> I (snd (UpsertGossipDeveloper (v_T v) gd db))"
  "I db \<Longrightarrow> I (snd (TombstoneGossipDeveloper now i db))"
  "I db \<Longrightarrow> I (snd (UpsertGossipZNSName (v_T v) gz db))"
  "I db \<Longrightarrow> I (snd (TombstoneGossipZNSName f db))"
  "I db \<Longrightarrow> I (snd (UpsertRegistryProof (v_T v) pr db))"
  "I db \<Longrightarrow> I (snd (CreatePeerAttestation (v_T v) att db))"
  "I db \<Longrightarrow> I (snd (UpdateRegistryVerificationTier i tier db))"
  using write_keeps[of "SUpsertGossip e" db] write_keeps[of "STombstoneGossip now i" db]
    write_keeps[of "SGossipStatus i st" db] write_keeps[of "SUpsertGossipDev gd" db]
    write_keeps[of "STombstoneGossipDev now i" db] write_keeps[of "SUpsertGossipName gz" db]
    write_keeps[of "STombstoneGossipName f" db] write_keeps[of "SUpsertProof pr" db]
    write_keeps[of "SCreateAttestation att" db] write_keeps[of "SUpdateTier i tier" db]
  by (simp_all add: node_write_def)

lemmas writes_keep = developer_writes_keep entity_writes_keep(1-4) name_writes_keep(1-3)

lemma store_version_keeps: "I (s_store s) \<Longrightarrow> I (s_store (store_version v now f ver e sg s))"
  by (simp add: store_version_def name_writes_keep)

lemma bind_name_keeps:
  "bind_name v now name s = (r, s') \<Longrightarrow> canonical_name name \<Longrightarrow> I (s_store s) \<Longrightarrow> I (s_store s')"
  using name_writes_keep(1)[of name "s_store s"]
  by (auto simp: bind_name_def Let_def intro!: store_version_keeps split: prod.splits sum.splits)

lemma createZNSNameBinding_keeps:
  assumes "I (s_store s)"
  shows "I (s_store (snd (createZNSNameBinding v now rec n ver h s)))"
  using assms
  by (auto simp: createZNSNameBinding_def Let_def dest!: bind_name_keeps
      split: prod.splits sum.splits option.splits) (simp_all add: canonical_name_def)

lemma after_register_keeps:
  "after_register v now req rec (set_store db s) = (f, s') \<Longrightarrow> I db \<Longrightarrow> I (s_store s')"
  using createZNSNameBinding_keeps
  by (auto simp: after_register_def Let_def split: if_splits) (metis announce_simps(1) index_agent_simps(1) Publish_simps(1) set_store_simps(1) snd_conv)

lemma developer_requests_keep:
  assumes "I (s_store s)"
  shows "I (s_store (snd (handleRegisterDeveloper v now rbody s)))"
    "I (s_store (snd (handleUpdateDeveloper v now i ubody auth s)))"
    "I (s_store (snd (handleDeleteDeveloper v now i auth s)))"
    "I (s_store (snd (approve_route v now seed seal nonce auth abody s)))"
  using assms unfolding handleRegisterDeveloper_def handleUpdateDeveloper_def handleDeleteDeveloper_def
    approve_route_def handleApproveDeveloper_def Let_def
  by (auto split: if_splits option.splits prod.splits sum.splits dest: writes_keep)

lemma entity_requests_keep:
  assumes "I (s_store s)"
  shows "I (s_store (snd (handleRegisterEntity v now rbody s)))"
    "I (s_store (snd (handleUpdateEntity v now i ubody auth s)))"
    "I (s_store (snd (handleDeleteEntity v now i auth s)))"
  using assms unfolding handleRegisterEntity_def handleUpdateEntity_def handleDeleteEntity_def Let_def
  by (auto split: option.splits prod.splits sum.splits dest: writes_keep after_register_keeps
      intro!: entity_writes_keep(6))

lemma handle_requests_keep:
  assumes "I (s_store s)"
  shows "I (s_store (snd (handleClaimHandle v now cbody s)))"
    "I (s_store (snd (handleReleaseHandle v now h auth s)))"
    "I (s_store (snd (handleVerifyHandle v now h vbody s)))"
    "I (s_store (snd (handleResolveName v d n s)))"
    "I (s_store (snd (handleAddPeer v order now pbody s)))"
  using assms unfolding handleClaimHandle_def handleReleaseHandle_def handleVerifyHandle_def
    handleResolveName_def handleAddPeer_def Let_def
  by (auto split: option.splits prod.splits sum.splits dest: writes_keep)

lemma name_requests_keep:
  assumes "I (s_store s)"
  shows "I (s_store (snd (handleRegisterName v now nbody s)))"
    "I (s_store (snd (handleUpdateName v now d n ubody s)))"
    "I (s_store (snd (handleReleaseName v now d n auth s)))"
proof -
  have "canonical_name (requested_name v now req h dev)" for req h dev
    by (simp add: canonical_name_def requested_name_def)
  then show "I (s_store (snd (handleRegisterName v now nbody s)))"
    using assms unfolding handleRegisterName_def Let_def
    by (auto split: option.splits prod.splits sum.splits dest: bind_name_keeps)
  show "I (s_store (snd (handleUpdateName v now d n ubody s)))"
    "I (s_store (snd (handleReleaseName v now d n auth s)))"
    using assms unfolding handleUpdateName_def handleReleaseName_def Let_def
    by (auto split: option.splits prod.splits sum.splits dest: writes_keep intro!: store_version_keeps)
qed

lemma api_step_keeps: "I (s_store s) \<Longrightarrow> I (s_store (snd (api_step v op s)))"
  by (cases op) (simp_all add: developer_requests_keep entity_requests_keep handle_requests_keep
      name_requests_keep)

lemma heartbeat_step_keeps:
  "I (s_store (snd st)) \<Longrightarrow> I (s_store (snd (heartbeat_message_step v now i key msg st)))"
  unfolding heartbeat_message_step_def Let_def
  by (auto split: prod.splits sum.splits if_splits dest: writes_keep)

lemma heartbeats_keep:
  assumes "I (s_store s)"
  shows "I (s_store (snd (handleEntityHeartbeat v i msgs s)))"
proof -
  have "I (s_store (snd (fold (\<lambda>(now, msg). heartbeat_message_step v now i key msg) msgs st)))"
    if "I (s_store (snd st))" for key st
    using that
  proof (induction msgs arbitrary: st)
    case (Cons m msgs)
    show ?case
      using Cons.IH[OF heartbeat_step_keeps[OF Cons.prems]] by (cases m) simp
  qed simp
  then show ?thesis
    using assms unfolding handleEntityHeartbeat_def by (auto split: sum.splits option.splits)
qed

lemma dispatch_keeps_store:
  assumes "I (gh_store gh)" "dispatch (v_T v) now ann gh = Some gh'"
  shows "I (gh_store gh')"
  using assms unfolding dispatch_def handle_agent_announce_def handle_developer_announce_def
    handle_dev_handle_def handle_name_binding_def handle_registry_proof_def handle_peer_attestation_def Let_def
  by (auto split: if_splits sum.splits intro!: gossip_writes_keep)

lemma announcement_keeps:
  assumes "I (gh_store gh)"
  shows "I (gh_store (snd (snd (HandleAnnouncement E marshal (v_T v) now ann gh))))"
  using assms dispatch_keeps_store[of "gh\<lparr>gh_seen := (gh_seen gh)(dedupKey ann \<mapsto> now)\<rparr>" now ann]
  by (auto simp: HandleAnnouncement_def Let_def split: option.splits)

end

sublocale node_store \<subseteq> invariant_machine "node_step v" "\<lambda>s. I (s_store s)"
proof
  show "I (s_store s) \<Longrightarrow> I (s_store (node_step v op s))" for s op
    by (cases op) (simp_all add: api_step_keeps heartbeats_keep sweep_store entity_writes_keep announcement_keeps)
qed

lemma canonical_delete: "names_canonical db \<Longrightarrow> names_canonical (delete_names P db)"
  by (simp add: names_canonical_def delete_names_def)

lemma canonical_write:
  assumes "node_write op" "names_canonical db"
  shows "names_canonical (store_step T op db)"
proof (cases op)
  case (SCreateName n)
  then show ?thesis
    using assms by (auto simp: CreateZNSName_def pool_Exec_def names_canonical_def node_write_def
        dest!: t_insert_Some split: option.splits)
next
  case (SUpdateName n)
  then show ?thesis
    using assms(2) by (auto simp: UpdateZNSName_def pool_Exec_def names_canonical_def Let_def set_t_update
        canonical_name_def split: option.splits)
next
  case (SDeleteName f)
  then show ?thesis using assms(2) canonical_delete by (simp add: DeleteZNSName_def pool_Exec_def)
next
  case (SDeleteEntity i w)
  have "names_canonical (db'\<lparr>db_entities := es\<rparr>) = names_canonical db'" for db' es
    by (simp add: names_canonical_def)
  then show ?thesis
    using SDeleteEntity assms(2) canonical_delete by (simp add: DeleteEntity_def pool_Exec_def Let_def)
qed (use assms(2) in \<open>auto simp: names_canonical_def CreateAgent_def UpdateEntity_def UpdateEntityHeartbeat_def
      MarkInactiveEntities_def UpsertGossipEntry_def TombstoneGossipEntry_def UpdateGossipEntryStatus_def
      CreateTombstone_def CleanExpiredTombstones_def SetMeta_def CreateDeveloper_def UpdateDeveloper_def
      DeleteDeveloper_def ClaimHandle_def ReleaseHandle_def UpdateHandleVerification_def
      UpsertGossipDeveloper_def TombstoneGossipDeveloper_def CreateZNSVersion_def UpsertGossipZNSName_def
      TombstoneGossipZNSName_def UpsertRegistryProof_def CreatePeerAttestation_def
      UpdateRegistryVerificationTier_def pool_Exec_def Let_def split: option.splits prod.splits\<close>)

text \<open>The two invariants of the store together.\<close>

definition node_inv :: "DB \<Rightarrow> bool" where
  "node_inv db = (db_inv db \<and> names_canonical db)"

interpretation node: node_store v node_inv for v
  by unfold_locales (simp add: node_inv_def canonical_write store.step_inv)

text \<open>C5: Whatever requests, heartbeats, sweeps and announcements a node processes, in any order
  and with any content, its store keeps every integrity constraint of the schema (unique keys,
  unique handles per registry, names and versions that refer to existing rows), and every name is
  stored under the FQAN that its registry host, handle and entity name spell.\<close>

theorem node_keeps_store_integrity:
  "db_inv (s_store (fold (node_step v) ops (set_store empty_db s))) \<and>
   names_canonical (s_store (fold (node_step v) ops (set_store empty_db s)))"
proof -
  have "names_canonical empty_db" by (simp add: names_canonical_def empty_db_def)
  then have "node_inv empty_db" using empty_db_inv by (simp add: node_inv_def)
  then show ?thesis using node.run_inv[of "set_store empty_db s" v ops] by (simp add: node_inv_def)
qed

section \<open>Authorisation\<close>

text \<open>The Authorization header carries a signature of the data under the key.\<close>

definition signed_by :: "env \<Rightarrow> string \<Rightarrow> byte list \<Rightarrow> string \<Rightarrow> bool" where
  "signed_by v key data auth = (\<exists>sg. (auth = ''Bearer '' @ sg \<or> auth = ''Bearer-Dev '' @ sg) \<and>
     Verify (v_E v) (strip_key key) data sg = Inr True)"

text \<open>The keys that may act for an entity: its own and its developer's.\<close>

definition owner_key :: "env \<Rightarrow> DB \<Rightarrow> RegistryRecord \<Rightarrow> string \<Rightarrow> bool" where
  "owner_key v db a key = (key = rr_PublicKey a \<or>
     (\<exists>d. GetDeveloper (v_T v) (rr_DeveloperID a) db = Inr (Some d) \<and> key = dev_PublicKey d) \<or>
     (\<exists>g. GetDeveloper (v_T v) (rr_DeveloperID a) db = Inr None \<and>
        GetGossipDeveloper (v_T v) (rr_DeveloperID a) db = Inr (Some g) \<and> key = gd_PublicKey g))"

lemma verifyOwnership_None:
  assumes "verifyOwnership v key data auth = None"
  shows "signed_by v key data auth"
proof -
  consider "HasPrefix auth ''Bearer-Dev ''"
      "Verify (v_E v) (strip_key key) data (TrimPrefix auth ''Bearer-Dev '') = Inr True"
    | "TrimPrefix auth ''Bearer '' \<noteq> auth"
      "Verify (v_E v) (strip_key key) data (TrimPrefix auth ''Bearer '') = Inr True"
    using assms by (auto simp: verifyOwnership_def Let_def split: if_splits sum.splits)
  then show ?thesis
  proof cases
    case 1
    then obtain r where "auth = ''Bearer-Dev '' @ r" using HasPrefix_iff by blast
    then show ?thesis using 1(2) TrimPrefix_append unfolding signed_by_def by metis
  next
    case 2
    then have "HasPrefix auth ''Bearer ''" by (auto simp: TrimPrefix_def split: if_splits)
    then obtain r where "auth = ''Bearer '' @ r" using HasPrefix_iff by blast
    then show ?thesis using 2(2) TrimPrefix_append unfolding signed_by_def by metis
  qed
qed

lemma verifyDual_None:
  assumes "verifyDualKeyOwnership v db a data auth = None"
  obtains key where "owner_key v db a key" "signed_by v key data auth"
  using assms verifyOwnership_None[of v _ data auth]
  unfolding verifyDualKeyOwnership_def owner_key_def
  by (auto split: if_splits sum.splits option.splits)

section \<open>Who can change an entity\<close>

abbreviation erow :: "string \<Rightarrow> DB \<Rightarrow> EntityRow option" where
  "erow i db \<equiv> t_get ekey i (db_entities db)"

text \<open>The methods that do not write the table of entities.\<close>

lemma entities_frame [simp]:
  "db_entities (snd (CreateDeveloper T d db)) = db_entities db"
  "db_entities (snd (UpdateDeveloper T d db)) = db_entities db"
  "db_entities (snd (DeleteDeveloper i db)) = db_entities db"
  "db_entities (snd (ClaimHandle now i h reg db)) = db_entities db"
  "db_entities (snd (ReleaseHandle now i h db)) = db_entities db"
  "db_entities (snd (UpdateHandleVerification now i b m p db)) = db_entities db"
  "db_entities (snd (CreateZNSName T n db)) = db_entities db"
  "db_entities (snd (UpdateZNSName T n db)) = db_entities db"
  "db_entities (snd (DeleteZNSName f db)) = db_entities db"
  "db_entities (snd (CreateZNSVersion T z db)) = db_entities db"
  "db_entities (snd (CreateTombstone T t db)) = db_entities db"
  "db_entities (snd (UpsertGossipEntry T e db)) = db_entities db"
  "db_entities (snd (TombstoneGossipEntry now i db)) = db_entities db"
  "db_entities (snd (UpdateGossipEntryStatus i st db)) = db_entities db"
  "db_entities (snd (UpsertGossipDeveloper T gd db)) = db_entities db"
  "db_entities (snd (TombstoneGossipDeveloper now i db)) = db_entities db"
  "db_entities (snd (UpsertGossipZNSName T gz db)) = db_entities db"
  "db_entities (snd (TombstoneGossipZNSName f db)) = db_entities db"
  "db_entities (snd (UpsertRegistryProof T pr db)) = db_entities db"
  "db_entities (snd (CreatePeerAttestation T att db)) = db_entities db"
  "db_entities (snd (UpdateRegistryVerificationTier i tier db)) = db_entities db"
  unfolding CreateDeveloper_def UpdateDeveloper_def DeleteDeveloper_def ClaimHandle_def ReleaseHandle_def
    UpdateHandleVerification_def CreateZNSName_def UpdateZNSName_def DeleteZNSName_def CreateZNSVersion_def
    CreateTombstone_def UpsertGossipEntry_def TombstoneGossipEntry_def UpdateGossipEntryStatus_def
    UpsertGossipDeveloper_def TombstoneGossipDeveloper_def UpsertGossipZNSName_def
    TombstoneGossipZNSName_def UpsertRegistryProof_def CreatePeerAttestation_def
    UpdateRegistryVerificationTier_def delete_names_def pool_Exec_def Let_def
  by (simp_all split: option.splits prod.splits)

lemma exec_entities:
  "CreateDeveloper T d db = (r, db') \<Longrightarrow> db_entities db' = db_entities db"
  "UpdateDeveloper T d db = (r, db') \<Longrightarrow> db_entities db' = db_entities db"
  "DeleteDeveloper i db = (r, db') \<Longrightarrow> db_entities db' = db_entities db"
  "ClaimHandle now i h reg db = (r, db') \<Longrightarrow> db_entities db' = db_entities db"
  "ReleaseHandle now i h db = (r, db') \<Longrightarrow> db_entities db' = db_entities db"
  "UpdateHandleVerification now i b m p db = (r, db') \<Longrightarrow> db_entities db' = db_entities db"
  "CreateZNSName T n db = (r, db') \<Longrightarrow> db_entities db' = db_entities db"
  "UpdateZNSName T n db = (r, db') \<Longrightarrow> db_entities db' = db_entities db"
  "DeleteZNSName f db = (r, db') \<Longrightarrow> db_entities db' = db_entities db"
  using entities_frame by (metis snd_conv)+

lemma store_version_entities [simp]:
  "db_entities (s_store (store_version v now f ver e sg s)) = db_entities (s_store s)"
  by (simp add: store_version_def)

lemma bind_name_entities: "bind_name v now name s = (r, s') \<Longrightarrow> db_entities (s_store s') = db_entities (s_store s)"
  by (auto simp: bind_name_def Let_def dest: exec_entities split: prod.splits sum.splits)

lemma createZNSNameBinding_entities [simp]:
  "db_entities (s_store (snd (createZNSNameBinding v now rec n ver h s))) = db_entities (s_store s)"
  by (auto simp: createZNSNameBinding_def Let_def dest: bind_name_entities
      split: prod.splits sum.splits option.splits)

lemma after_register_entities [simp]:
  "db_entities (s_store (snd (after_register v now req rec s))) = db_entities (s_store s)"
  by (simp add: after_register_def Let_def)

lemma gossip_entities:
  "db_entities (gh_store (snd (snd (HandleAnnouncement E marshal T now ann gh)))) = db_entities (gh_store gh)"
  unfolding HandleAnnouncement_def dispatch_def handle_agent_announce_def handle_developer_announce_def
    handle_dev_handle_def handle_name_binding_def handle_registry_proof_def handle_peer_attestation_def Let_def
  by (auto split: option.splits if_splits sum.splits)

lemma other_requests_entities:
  assumes "\<And>now body. op \<noteq> ARegisterEntity now body" "\<And>now i body auth. op \<noteq> AUpdateEntity now i body auth"
    "\<And>now i auth. op \<noteq> ADeleteEntity now i auth"
  shows "db_entities (s_store (snd (api_step v op s))) = db_entities (s_store s)"
proof (cases op)
  case (ARegisterDeveloper now body)
  then show ?thesis
    by (auto simp: handleRegisterDeveloper_def Let_def dest: exec_entities
        split: option.splits prod.splits sum.splits)
next
  case (AApprove now seed seal nonce auth body)
  then show ?thesis
    by (auto simp: approve_route_def handleApproveDeveloper_def Let_def dest: exec_entities
        split: option.splits prod.splits sum.splits)
next
  case (ARegisterName now body)
  then show ?thesis
    by (auto simp: handleRegisterName_def Let_def dest: bind_name_entities
        split: option.splits prod.splits sum.splits)
qed (use assms in \<open>auto simp: handleUpdateDeveloper_def handleDeleteDeveloper_def handleClaimHandle_def
      handleReleaseHandle_def handleVerifyHandle_def handleUpdateName_def handleReleaseName_def
      handleResolveName_def handleAddPeer_def Let_def dest: exec_entities
      split: option.splits prod.splits sum.splits\<close>)

lemma t_get_delete_other: "(\<And>r. P r \<Longrightarrow> key r \<noteq> k) \<Longrightarrow> t_get key k (t_delete P rows) = t_get key k rows"
  by (induction rows) (auto simp: t_delete_def)

lemma t_get_update_other:
  "(\<And>r. P r \<Longrightarrow> key r \<noteq> k \<and> key (f r) \<noteq> k) \<Longrightarrow> t_get key k (t_update P f rows) = t_get key k rows"
  by (induction rows) (auto simp: t_update_def)

lemma GetEntity_row: "GetEntity T i db = Inr (Some a) \<longleftrightarrow>
  \<not> db_fault db \<and> (\<exists>r. erow i db = Some r \<and> a = scanAgentRow T r)"
  by (auto simp: GetEntity_def pool_Query_def)

lemma scanAgentRow_simps [simp]:
  "rr_EntityID (scanAgentRow T r) = ekey r" "rr_PublicKey (scanAgentRow T r) = rr_PublicKey (er_rec r)"
  "rr_Owner (scanAgentRow T r) = rr_Owner (er_rec r)" "rr_DeveloperID (scanAgentRow T r) = rr_DeveloperID (er_rec r)"
  by (simp_all add: scanAgentRow_def)

lemma updated_entity_simps [simp]:
  "rr_EntityID (updated_entity v now req a) = rr_EntityID a" "rr_Owner (updated_entity v now req a) = rr_Owner a"
  by (simp_all add: updated_entity_def)

lemma CreateAgent_erow:
  "CreateAgent T now a db = (Inr (), db') \<Longrightarrow> erow i db = Some r \<Longrightarrow> erow i db' = Some r"
proof -
  assume a: "CreateAgent T now a db = (Inr (), db')" "erow i db = Some r"
  have "\<exists>row. db_entities db' = db_entities db @ [row]"
    using a(1) unfolding CreateAgent_def Let_def pool_Exec_def
    by (fastforce dest: t_insert_Some split: if_splits option.splits)
  then show ?thesis using a(2) by (auto simp: t_get_append)
qed

lemma UpdateEntity_other: "i \<noteq> rr_EntityID a \<Longrightarrow> erow i (snd (UpdateEntity T a db)) = erow i db"
  unfolding UpdateEntity_def pool_Exec_def Let_def
  by (simp split: option.splits) (intro allI impI t_get_update_other, simp)

lemma DeleteEntity_other: "i \<noteq> j \<Longrightarrow> erow i (snd (DeleteEntity j w db)) = erow i db"
  by (auto simp: DeleteEntity_def pool_Exec_def delete_names_def Let_def intro!: t_get_delete_other)

lemma Heartbeat_other: "i \<noteq> j \<Longrightarrow> erow i (snd (UpdateEntityHeartbeat now j db)) = erow i db"
  by (auto simp: UpdateEntityHeartbeat_def pool_Exec_def Let_def intro!: t_get_update_other)

lemma register_keeps_entity:
  assumes "erow i (s_store s) = Some r"
  shows "erow i (s_store (snd (handleRegisterEntity v now body s))) = Some r"
proof -
  have "erow i (s_store s') = Some r"
    if "CreateAgent T now a (s_store s) = (Inr (), db)" "after_register v now req a (set_store db s) = (f, s')"
    for T a db req f s'
    using CreateAgent_erow[OF that(1) assms] after_register_entities[of v now req a "set_store db s"] that(2) by simp
  then show ?thesis
    using assms unfolding handleRegisterEntity_def Let_def
    by (auto dest: exec_err split: option.splits prod.splits sum.splits)
qed

lemma handleUpdateEntity_cases:
  assumes "handleUpdateEntity v now j body auth s = (resp, s')" "s_store s' \<noteq> s_store s"
  shows "\<exists>b a req. GetEntity (v_T v) j (s_store s) = Inr (Some a) \<and> body = Some b \<and>
    verifyDualKeyOwnership v (s_store s) a b auth = None \<and>
    UpdateEntity (v_T v) (updated_entity v now req a) (s_store s) = (Inr (), s_store s')"
  using assms unfolding handleUpdateEntity_def Let_def
  by (auto dest: exec_err split: if_splits option.splits prod.splits sum.splits)

lemma update_entity_effect:
  assumes "erow i (s_store s) = Some r" "erow i (s_store (snd (handleUpdateEntity v now j body auth s))) \<noteq> Some r"
  shows "i = j \<and> (\<exists>b key. body = Some b \<and> owner_key v (s_store s) (scanAgentRow (v_T v) r) key \<and> signed_by v key b auth)"
proof -
  obtain resp s' where e: "handleUpdateEntity v now j body auth s = (resp, s')" by fastforce
  with assms have ne: "erow i (s_store s') \<noteq> Some r" by simp
  obtain b a req where d: "GetEntity (v_T v) j (s_store s) = Inr (Some a)" "body = Some b"
    "verifyDualKeyOwnership v (s_store s) a b auth = None"
    "UpdateEntity (v_T v) (updated_entity v now req a) (s_store s) = (Inr (), s_store s')"
    using handleUpdateEntity_cases[OF e] ne assms(1) by metis
  have a: "rr_EntityID a = j" using d(1) t_get_Some[of ekey j] by (auto simp: GetEntity_row)
  have "i = j" using UpdateEntity_other[of i "updated_entity v now req a" "v_T v" "s_store s"] ne assms(1) d(4) a by auto
  moreover have "a = scanAgentRow (v_T v) r" using d(1) assms(1) \<open>i = j\<close> by (auto simp: GetEntity_row)
  ultimately show ?thesis using d(2) verifyDual_None[OF d(3)] by metis
qed

lemma delete_entity_effect:
  assumes "erow i (s_store s) = Some r" "erow i (s_store (snd (handleDeleteEntity v now j auth s))) \<noteq> Some r"
  shows "i = j \<and> (\<exists>key. owner_key v (s_store s) (scanAgentRow (v_T v) r) key \<and> signed_by v key (string_bytes i) auth)"
proof -
  obtain resp s' where e: "handleDeleteEntity v now j auth s = (resp, s')" by fastforce
  with assms have ne: "erow i (s_store s') \<noteq> Some r" by simp
  obtain a where d: "found (GetEntity (v_T v) j (s_store s)) = Some a"
    "verifyDualKeyOwnership v (s_store s) a (string_bytes j) auth = None"
    "db_entities (s_store s') = db_entities (snd (DeleteEntity j (rr_Owner a) (s_store s)))"
    using e ne assms(1) unfolding handleDeleteEntity_def Let_def
    by (auto split: if_splits option.splits prod.splits sum.splits)
  have "i = j" using DeleteEntity_other[of i j "rr_Owner a" "s_store s"] ne assms(1) d(3) by auto
  moreover have "a = scanAgentRow (v_T v) r"
    using d(1) assms(1) \<open>i = j\<close> by (auto simp: found_def GetEntity_def pool_Query_def split: if_splits sum.splits)
  ultimately show ?thesis using verifyDual_None[OF d(2)] by metis
qed

lemma heartbeat_step_entities:
  assumes "\<not> heartbeat_accepted v now key msg (s_cfg (snd st)) \<or> i \<noteq> j"
  shows "erow i (s_store (snd (heartbeat_message_step v now j key msg st))) = erow i (s_store (snd st))"
  using assms Heartbeat_other[of i j now "s_store (snd st)"]
  by (auto simp: heartbeat_message_step_def Let_def split: prod.splits sum.splits)

lemma heartbeat_step_cfg [simp]: "s_cfg (snd (heartbeat_message_step v now j key msg st)) = s_cfg (snd st)"
  by (auto simp: heartbeat_message_step_def Let_def split: prod.splits sum.splits)

lemma heartbeats_entities:
  assumes "i \<noteq> j \<or> (\<forall>(now, msg)\<in>set msgs. \<not> heartbeat_accepted v now key msg (s_cfg (snd st)))"
  shows "erow i (s_store (snd (fold (\<lambda>(now, msg). heartbeat_message_step v now j key msg) msgs st))) =
    erow i (s_store (snd st))"
  using assms
proof (induction msgs arbitrary: st)
  case (Cons m msgs)
  obtain now msg where m: "m = (now, msg)" by (cases m)
  have "erow i (s_store (snd (heartbeat_message_step v now j key msg st))) = erow i (s_store (snd st))"
    using Cons.prems m by (intro heartbeat_step_entities) auto
  then show ?case using Cons.IH[of "heartbeat_message_step v now j key msg st"] Cons.prems m by auto
qed simp

lemma sweep_entities:
  assumes "erow i (s_store s) = Some r" "erow i (s_store (sweep v now s)) \<noteq> Some r"
  shows "stale (now - c_InactiveThresholdS (s_cfg s)) r"
proof -
  let ?cut = "now - c_InactiveThresholdS (s_cfg s)"
  have "erow i (s_store (sweep v now s)) = (if db_fault (s_store s) then erow i (s_store s)
      else map_option (\<lambda>r. if stale ?cut r then r\<lparr>er_rec := (er_rec r)\<lparr>rr_Status := ''inactive''\<rparr>\<rparr> else r)
        (erow i (s_store s)))"
    by (simp add: sweep_store MarkInactiveEntities_def Let_def t_get_update)
  then show ?thesis using assms by (auto split: if_splits)
qed

text \<open>C1: The record of a registered entity changes only by its owner. If any step of a node, be it
  a request, a heartbeat socket, a sweep or an announcement from the mesh, changes or removes the
  row of an entity, then the step is an update or a deletion of this very entity whose body
  (respectively identifier) is signed with the key of the entity or of its developer, or a
  heartbeat signed with the key of the entity over a timestamp within the permitted clock skew,
  or a sweep that finds its heartbeat older than the threshold.\<close>

theorem entity_changes_authorised:
  assumes "erow i (s_store s) = Some r" "erow i (s_store (node_step v op s)) \<noteq> Some r"
  shows "(\<exists>now body auth key. op = Request (AUpdateEntity now i (Some body) auth) \<and>
      owner_key v (s_store s) (scanAgentRow (v_T v) r) key \<and> signed_by v key body auth) \<or>
    (\<exists>now auth key. op = Request (ADeleteEntity now i auth) \<and>
      owner_key v (s_store s) (scanAgentRow (v_T v) r) key \<and> signed_by v key (string_bytes i) auth) \<or>
    (\<exists>msgs now msg. op = Heartbeats i msgs \<and> (now, msg) \<in> set msgs \<and>
      heartbeat_accepted v now (strip_key (rr_PublicKey (er_rec r))) msg (s_cfg s)) \<or>
    (\<exists>now. op = LivenessSweep now \<and> stale (now - c_InactiveThresholdS (s_cfg s)) r)"
proof (cases op)
  case (Request req)
  show ?thesis
  proof (cases req)
    case (AUpdateEntity now j body auth)
    then show ?thesis using update_entity_effect[OF assms(1)] assms(2) Request by fastforce
  next
    case (ADeleteEntity now j auth)
    then show ?thesis using delete_entity_effect[OF assms(1)] assms(2) Request by fastforce
  next
    case (ARegisterEntity now body)
    then show ?thesis using register_keeps_entity[OF assms(1)] assms(2) Request by simp
  qed (use Request assms other_requests_entities[of req v s] in auto)
next
  case (Heartbeats j msgs)
  let ?loop = "\<lambda>a. fold (\<lambda>(now, msg). heartbeat_message_step v now j (strip_key (rr_PublicKey a)) msg) msgs (False, s)"
  obtain a where a: "GetEntity (v_T v) j (s_store s) = Inr (Some a)"
    "erow i (s_store (snd (?loop a))) \<noteq> erow i (s_store s)"
    using assms Heartbeats by (auto simp: handleEntityHeartbeat_def split: if_splits sum.splits option.splits)
  have "\<not> (i \<noteq> j \<or> (\<forall>(now, msg)\<in>set msgs. \<not> heartbeat_accepted v now (strip_key (rr_PublicKey a)) msg (s_cfg s)))"
    using a(2) heartbeats_entities[of i j msgs v "strip_key (rr_PublicKey a)" "(False, s)"] by auto
  moreover from this have "rr_PublicKey a = rr_PublicKey (er_rec r)" using a(1) assms(1) by (auto simp: GetEntity_row)
  ultimately show ?thesis using Heartbeats by auto
next
  case (LivenessSweep now)
  then show ?thesis using sweep_entities[OF assms(1)] assms(2) by auto
qed (use assms in \<open>simp_all add: gossip_entities\<close>)

section \<open>From registration to resolution\<close>

lemma default_url_simps [simp]:
  "rq_EntityName (default_url req) = rq_EntityName req" "rq_Version (default_url req) = rq_Version req"
  "rq_PublicKey (default_url req) = rq_PublicKey req" "rq_DeveloperID (default_url req) = rq_DeveloperID req"
  by (simp_all add: default_url_def)

lemma registration_recordD:
  assumes "registration_record v now req s = Inr rec"
  shows "rr_EntityURL rec = rq_EntityURL req" "rr_PublicKey rec = rq_PublicKey req"
    "rr_DeveloperID rec = rq_DeveloperID req" "rr_CapabilitySummary rec = None"
  using assms unfolding registration_record_def Let_def
  by (auto simp: entity_record_def split: if_splits option.splits sum.splits)

lemma handleRegisterEntity_accepted:
  assumes "handleRegisterEntity v now (Some req) s = ((201, PFields flds), s')"
  obtains rec db fq where "registration_record v now (default_url req) s = Inr rec"
    "CreateAgent (v_T v) now rec (s_store s) = (Inr (), db)"
    "after_register v now (default_url req) rec (set_store db s) = (fq, s')"
    "flds = [(''entity_id'', rr_EntityID rec), (''message'', ''agent registered successfully'')] @
       (if fq \<noteq> '''' then [(''fqan'', fq)] else [])"
  using assms registration_refused[of v now "default_url req" s]
  unfolding handleRegisterEntity_def Let_def
  by (auto simp: create_error_def split: if_splits option.splits prod.splits sum.splits)

lemma CreateAgent_frame:
  assumes "CreateAgent T now a db = (Inr (), db')"
  shows "db_zns db' = db_zns db" "db_developers db' = db_developers db" "\<not> db_fault db"
    "\<not> db_fault db'" "rr_EntityID a \<notin> ekey ` set (db_entities db)"
  using assms unfolding CreateAgent_def Let_def pool_Exec_def
  by (auto dest!: t_insert_Some simp: t_get_None split: if_splits option.splits)

lemma version_frame [simp]:
  "db_zns (snd (CreateZNSVersion T ver db)) = db_zns db"
  "db_fault (snd (CreateZNSVersion T ver db)) = db_fault db"
  by (simp_all add: CreateZNSVersion_def pool_Exec_def split: option.splits)

lemma bind_name_ok:
  assumes "bind_name v now name s = (Inr (), s')"
  shows "\<exists>ra ua. db_zns (s_store s') = db_zns (s_store s) @ [\<lparr>zr_rec = name, zr_registered = ra, zr_updated = ua\<rparr>]"
    "zn_FQAN name \<notin> zkey ` set (db_zns (s_store s))"
    "db_fault (s_store s') = db_fault (s_store s)" "s_cfg s' = s_cfg s"
proof -
  obtain db where c: "CreateZNSName (v_T v) name (s_store s) = (Inr (), db)"
    "s_store s' = s_store (store_version v now (zn_FQAN name) (zn_CurrentVersion name) (zn_EntityID name)
       (zn_Signature name) (set_store db s))" "s_cfg s' = s_cfg (store_version v now (zn_FQAN name)
       (zn_CurrentVersion name) (zn_EntityID name) (zn_Signature name) (set_store db s))"
    using assms by (auto simp: bind_name_def Let_def split: prod.splits sum.splits)

  have "\<exists>ra ua. db_zns db = db_zns (s_store s) @ [\<lparr>zr_rec = name, zr_registered = ra, zr_updated = ua\<rparr>] \<and>
      zn_FQAN name \<notin> zkey ` set (db_zns (s_store s)) \<and> db_fault db = db_fault (s_store s)"
    using c(1) unfolding CreateZNSName_def pool_Exec_def
    by (auto dest!: t_insert_Some simp: t_get_None split: if_splits option.splits)
  then show "\<exists>ra ua. db_zns (s_store s') = db_zns (s_store s) @ [\<lparr>zr_rec = name, zr_registered = ra, zr_updated = ua\<rparr>]"
    "zn_FQAN name \<notin> zkey ` set (db_zns (s_store s))" "db_fault (s_store s') = db_fault (s_store s)" "s_cfg s' = s_cfg s"
    using c(2,3) by (auto simp: store_version_def)
qed

text \<open>A canonical name that is appended is the one found by its parts.\<close>

lemma found_by_parts:
  assumes "names_canonical db" "db_zns db' = db_zns db @ [row]" "canonical_name (zr_rec row)"
    "zkey row \<notin> zkey ` set (db_zns db)" "\<not> db_fault db'"
  shows "GetZNSNameByParts T (zn_DeveloperHandle (zr_rec row)) (zn_EntityName (zr_rec row))
    (zn_RegistryHost (zr_rec row)) db' = Inr (Some (scanZNSName T row))"
proof -
  let ?P = "\<lambda>r. zn_DeveloperHandle (zr_rec r) = zn_DeveloperHandle (zr_rec row) \<and>
       zn_EntityName (zr_rec r) = zn_EntityName (zr_rec row) \<and> zn_RegistryHost (zr_rec r) = zn_RegistryHost (zr_rec row)"
  have "find ?P (db_zns db) = None"
  proof (rule ccontr)
    assume "find ?P (db_zns db) \<noteq> None"
    then obtain z where "z \<in> set (db_zns db)" "?P z" by (auto simp: find_None_iff)
    moreover from this have "zkey z = zkey row"
      using assms(1,3) by (simp add: names_canonical_def canonical_name_def)
    ultimately show False using assms(4) by (metis image_eqI)
  qed
  moreover have "find Q (xs @ [x]) = (case find Q xs of None \<Rightarrow> if Q x then Some x else None | Some y \<Rightarrow> Some y)"
    for Q :: "ZnsRow \<Rightarrow> bool" and xs x
    by (induction xs) simp_all
  ultimately show ?thesis using assms(2,5) by (simp add: GetZNSNameByParts_def pool_Query_def)
qed

lemma createZNSNameBinding_ok:
  assumes "createZNSNameBinding v now rec n ver h s = (fq, s')" "fq \<noteq> ''''"
    "\<And>z. z \<in> set (db_zns (s_store s)) \<Longrightarrow> zn_EntityID (zr_rec z) \<noteq> rr_EntityID rec"
  obtains dev name where "GetDeveloper (v_T v) (rr_DeveloperID rec) (s_store s) = Inr (Some dev)"
    "dev_DevHandle dev \<noteq> ''''" "fq = BuildFQAN h (dev_DevHandle dev) n" "bind_name v now name s = (Inr (), s')"
    "canonical_name name" "zn_FQAN name = fq" "zn_DeveloperHandle name = dev_DevHandle dev" "zn_EntityName name = n"
    "zn_RegistryHost name = h" "zn_EntityID name = rr_EntityID rec" "zn_CurrentVersion name = ver"
proof -
  have ex: "zn_EntityID x \<noteq> rr_EntityID rec" if "found (GetZNSNameByParts (v_T v) d n h (s_store s)) = Some x" for d x
    using that assms(3)
    by (auto simp: found_def GetZNSNameByParts_def pool_Query_def scanZNSName_def find_Some_iff
        split: sum.splits if_splits)
  show ?thesis
    using assms(1,2) ex unfolding createZNSNameBinding_def Let_def
    by (auto simp: found_def canonical_name_def intro: that split: if_splits option.splits sum.splits prod.splits)
qed

text \<open>C15: From registration to resolution. If the registration of an entity is answered with an FQAN,
  this FQAN is the registry host, the handle of its developer and the requested entity name, and
  resolving the handle and the name on the same node answers with the registered entity: its
  identifier, key, URL and version, and status active.\<close>

theorem registered_name_resolves:
  assumes inv: "node_inv (s_store s)"
    and reg: "handleRegisterEntity v now (Some req) s = ((201, PFields flds), s')"
    and fq: "map_of flds ''fqan'' = Some fqan"
  shows "\<exists>entityID dev resp s''. map_of flds ''entity_id'' = Some entityID \<and>
    GetDeveloper (v_T v) (rq_DeveloperID req) (s_store s) = Inr (Some dev) \<and>
    fqan = BuildFQAN (RegistryHost v (s_cfg s)) (dev_DevHandle dev) (rq_EntityName req) \<and>
    handleResolveName v (dev_DevHandle dev) (rq_EntityName req) s' = ((200, PResolve resp), s'') \<and>
    zrr_FQAN resp = fqan \<and> zrr_EntityID resp = entityID \<and> zrr_PublicKey resp = rq_PublicKey req \<and>
    zrr_EntityURL resp = rq_EntityURL (default_url req) \<and> zrr_Version resp = rq_Version req \<and>
    zrr_Status resp = ''active''"
proof -
  obtain rec db f where r: "registration_record v now (default_url req) s = Inr rec"
    "CreateAgent (v_T v) now rec (s_store s) = (Inr (), db)"
    "after_register v now (default_url req) rec (set_store db s) = (f, s')"
    "flds = [(''entity_id'', rr_EntityID rec), (''message'', ''agent registered successfully'')] @
       (if f \<noteq> '''' then [(''fqan'', f)] else [])"
    by (rule handleRegisterEntity_accepted[OF reg])
  have f: "f = fqan" "fqan \<noteq> ''''" using fq r(4) by (auto split: if_splits)
  note fr = CreateAgent_frame[OF r(2)] and rec = registration_recordD[OF r(1)]
  define s1 where "s1 = Publish (entity_event ''entity_registered'' rec (rr_Summary rec)) (announce v now
     (CreateAnnouncement (v_announce v) (v_T v) now rec ''register'') (index_agent (IndexAgent rec) (set_store db s)))"
  have s1: "s_store s1 = db" "s_cfg s1 = s_cfg s"
    "createZNSNameBinding v now rec (rq_EntityName req) (rq_Version req) (RegistryHost v (s_cfg s)) s1 = (fqan, s')"
    "rq_EntityName req \<noteq> ''''"
    using r(3) f by (auto simp: after_register_def Let_def s1_def split: if_splits)
  have "zn_EntityID (zr_rec z) \<noteq> rr_EntityID rec" if "z \<in> set (db_zns (s_store s1))" for z
  proof -
    have "zn_EntityID (zr_rec z) \<in> ekey ` set (db_entities (s_store s))"
      using that inv fr(1) by (simp add: s1 node_inv_def db_inv_def names_ok_def)
    then show ?thesis using fr(5) by metis
  qed
  then obtain dev name where n: "GetDeveloper (v_T v) (rr_DeveloperID rec) (s_store s1) = Inr (Some dev)"
    "dev_DevHandle dev \<noteq> ''''" "fqan = BuildFQAN (RegistryHost v (s_cfg s)) (dev_DevHandle dev) (rq_EntityName req)"
    "bind_name v now name s1 = (Inr (), s')" "canonical_name name" "zn_FQAN name = fqan"
    "zn_DeveloperHandle name = dev_DevHandle dev" "zn_EntityName name = rq_EntityName req"
    "zn_RegistryHost name = RegistryHost v (s_cfg s)" "zn_EntityID name = rr_EntityID rec"
    "zn_CurrentVersion name = rq_Version req"
    using createZNSNameBinding_ok[OF s1(3) f(2)] by metis
  note b = bind_name_ok[OF n(4)]
  obtain ra ua where z: "db_zns (s_store s') = db_zns db @ [\<lparr>zr_rec = name, zr_registered = ra, zr_updated = ua\<rparr>]"
    using b(1) s1(1) by auto
  have "GetZNSNameByParts (v_T v) (dev_DevHandle dev) (rq_EntityName req) (RegistryHost v (s_cfg s)) (s_store s') =
      Inr (Some (scanZNSName (v_T v) \<lparr>zr_rec = name, zr_registered = ra, zr_updated = ua\<rparr>))"
    using found_by_parts[of db "s_store s'" "\<lparr>zr_rec = name, zr_registered = ra, zr_updated = ua\<rparr>" "v_T v"]
      inv z n b s1 fr by (simp add: node_inv_def names_canonical_def)
  moreover have "db_entities (s_store s') = db_entities db" using bind_name_entities[OF n(4)] s1(1) by simp
  then have "GetEntity (v_T v) (rr_EntityID rec) (s_store s') = GetEntity (v_T v) (rr_EntityID rec) db"
    using b(3) s1(1) by (simp add: GetEntity_def pool_Query_def)
  moreover obtain a where "GetEntity (v_T v) (rr_EntityID rec) db = Inr (Some a)" "rr_EntityURL a = rr_EntityURL rec"
      "rr_PublicKey a = rr_PublicKey rec" "rr_Status a = ''active''"
    by (rule CreateAgent_ok[OF r(2)]) (simp add: stored_agent_def that)
  moreover have "GetDeveloper (v_T v) (rq_DeveloperID req) (s_store s) = Inr (Some dev)"
    using n(1) rec(3) fr s1(1) by (simp add: GetDeveloper_def pool_Query_def)
  ultimately show ?thesis
    using n s1(4) b(4) s1(2) rec r(4) f
    by (simp add: handleResolveName_def Let_def found_def buildResolveResponse_def scanZNSName_def)
qed

end
