(* ===== verification/ApiHandles.thy ===== *)
theory ApiHandles
  imports ApiProps
begin

text \<open>
  Handles, deregistration and onboarding through the API: availability and claims agree, a
  deregistered entity disappears with its names, the key of an approved developer reaches the
  website that asked for it, and what the endpoints accept without the developer's signature.
\<close>

section \<open>Handles\<close>

lemma GetDeveloper_row: "GetDeveloper T i db = Inr (Some d) \<longleftrightarrow>
  \<not> db_fault db \<and> (\<exists>r. t_get dkey i (db_developers db) = Some r \<and> d = scanDeveloper T r)"
  by (auto simp: GetDeveloper_def pool_Query_def)

lemma GetDeveloperByHandle_row: "GetDeveloperByHandle T h reg db = Inr None \<longleftrightarrow>
  \<not> db_fault db \<and> \<not> list_ex (\<lambda>r. dv_handle r = Some h \<and> dev_HomeRegistry (dv_rec r) = reg) (db_developers db)"
  by (auto simp: GetDeveloperByHandle_def pool_Query_def find_None_iff list_ex_iff)

lemma unclaimed_of_empty_handle:
  assumes "GetDeveloper T i db = Inr (Some d)" "dev_DevHandle d = ''''"
  shows "t_count (unclaimed i) (db_developers db) \<noteq> 0"
proof -
  obtain r where "r \<in> set (db_developers db)" "dkey r = i" "d = scanDeveloper T r"
    using assms(1) t_get_Some[of dkey i "db_developers db"] by (auto simp: GetDeveloper_row)
  then have "unclaimed i r"
    using assms(2) by (auto simp: scanDeveloper_def unclaimed_def split: option.splits)
  then show ?thesis using \<open>r \<in> set _\<close> by (auto simp: t_count_def filter_empty_conv)
qed

lemma ClaimHandle_iff:
  assumes "GetDeveloper T i db = Inr (Some d)" "dev_DevHandle d = ''''" "h \<noteq> ''''"
  shows "(\<exists>db'. ClaimHandle now i h reg db = (Inr (), db')) \<longleftrightarrow> GetDeveloperByHandle T h reg db = Inr None"
proof -
  have "list_ex (\<lambda>r. \<not> unclaimed i r \<and> dv_handle r = Some h \<and> dev_HomeRegistry (dv_rec r) = reg) (db_developers db) =
      list_ex (\<lambda>r. dv_handle r = Some h \<and> dev_HomeRegistry (dv_rec r) = reg) (db_developers db)"
    using assms(3) by (auto simp: list_ex_iff unclaimed_def)
  then show ?thesis
    using assms unclaimed_of_empty_handle[OF assms(1,2)]
    by (auto simp: ClaimHandle_def pool_Exec_def Let_def GetDeveloperByHandle_row GetDeveloper_row)
qed

lemma ClaimHandle_row:
  assumes "ClaimHandle now i h reg db = (Inr (), db')"
  obtains r where "r \<in> set (db_developers db')" "dkey r = i" "dv_handle r = Some h"
    "dev_HomeRegistry (dv_rec r) = reg" "\<not> db_fault db'"
proof -
  obtain r where "r \<in> set (db_developers db)" "unclaimed i r" "\<not> db_fault db"
    using assms by (auto simp: ClaimHandle_def pool_Exec_def Let_def t_count_def filter_empty_conv split: if_splits)
  let ?f = "\<lambda>r. r\<lparr>dv_handle := Some h, dv_updated := now, dv_rec := (dv_rec r)\<lparr>dev_HomeRegistry := reg\<rparr>\<rparr>"
  have db': "db' = db\<lparr>db_developers := t_update (unclaimed i) ?f (db_developers db)\<rparr>"
    using assms by (auto simp: ClaimHandle_def pool_Exec_def Let_def split: if_splits)
  have "?f r \<in> set (db_developers db')"
    unfolding db' using \<open>r \<in> set _\<close> \<open>unclaimed i r\<close> by (auto simp: set_t_update)
  then show ?thesis
    using that[of "?f r"] \<open>unclaimed i r\<close> \<open>\<not> db_fault db\<close> db' by (simp add: unclaimed_def)
qed

text \<open>The request names a registered developer without a handle and carries a valid signature of the
  key it names.\<close>

definition claim_request_ok :: "env \<Rightarrow> HandleClaimRequest \<Rightarrow> Server \<Rightarrow> bool" where
  "claim_request_ok v req s = (hcq_Handle req \<noteq> '''' \<and> hcq_DeveloperID req \<noteq> '''' \<and> hcq_PublicKey req \<noteq> '''' \<and>
     hcq_Signature req \<noteq> '''' \<and>
     (case found (GetDeveloper (v_T v) (hcq_DeveloperID req) (s_store s)) of
        None \<Rightarrow> False | Some d \<Rightarrow> dev_DevHandle d = '''') \<and>
     signature_ok (Verify (v_E v) (TrimPrefix (hcq_PublicKey req) ''ed25519:'')
       (v_marshal v (claim_signable req)) (hcq_Signature req)))"

lemma handleClaimHandle_eq:
  assumes "claim_request_ok v req s" "ValidateHandle (hcq_Handle req) = None"
  obtains dev where "GetDeveloper (v_T v) (hcq_DeveloperID req) (s_store s) = Inr (Some dev)" "dev_DevHandle dev = ''''"
    "handleClaimHandle v now (Some req) s =
      (case ClaimHandle now (hcq_DeveloperID req) (hcq_Handle req) (RegistryHost v (s_cfg s)) (s_store s) of
              (Inl e, db) \<Rightarrow> (claim_error e, set_store db s)
            | (Inr _, db) \<Rightarrow>
                ((201, PFields [(''handle'', hcq_Handle req), (''developer_id'', hcq_DeveloperID req),
                    (''message'', ''handle claimed successfully'')]),
                 Publish (handle_claimed_event (hcq_Handle req) (hcq_DeveloperID req))
                   (announce v now (CreateHandleAnnouncement (v_announce v) (v_T v) now dev (hcq_Handle req)
                      False '''' ''claim'') (set_store db s))))"
  using assms unfolding claim_request_ok_def
  by (auto simp: found_def handleClaimHandle_def split: sum.splits option.splits)

lemma ClaimHandle_refused:
  "ClaimHandle now i h reg db = (Inl e, db') \<Longrightarrow> \<not> db_fault db \<Longrightarrow> fst (claim_error e) = 409"
  by (auto simp: ClaimHandle_def pool_Exec_def Let_def claim_error_def split: if_splits)

lemma claim_status:
  assumes "claim_request_ok v req s" "ValidateHandle (hcq_Handle req) = None"
  shows "fst (fst (handleClaimHandle v now (Some req) s)) = 201 \<longleftrightarrow>
      GetDeveloperByHandle (v_T v) (hcq_Handle req) (RegistryHost v (s_cfg s)) (s_store s) = Inr None"
    "fst (fst (handleClaimHandle v now (Some req) s)) = 201 \<or> fst (fst (handleClaimHandle v now (Some req) s)) = 409"
    "fst (fst (handleClaimHandle v now (Some req) s)) = 201 \<Longrightarrow>
      ClaimHandle now (hcq_DeveloperID req) (hcq_Handle req) (RegistryHost v (s_cfg s)) (s_store s) =
        (Inr (), s_store (snd (handleClaimHandle v now (Some req) s))) \<and>
      s_cfg (snd (handleClaimHandle v now (Some req) s)) = s_cfg s"
proof -
  have h: "hcq_Handle req \<noteq> ''''" using assms(1) by (simp add: claim_request_ok_def)
  obtain dev where dev: "GetDeveloper (v_T v) (hcq_DeveloperID req) (s_store s) = Inr (Some dev)" "dev_DevHandle dev = ''''"
    and eq: "handleClaimHandle v now (Some req) s =
      (case ClaimHandle now (hcq_DeveloperID req) (hcq_Handle req) (RegistryHost v (s_cfg s)) (s_store s) of
              (Inl e, db) \<Rightarrow> (claim_error e, set_store db s)
            | (Inr _, db) \<Rightarrow>
                ((201, PFields [(''handle'', hcq_Handle req), (''developer_id'', hcq_DeveloperID req),
                    (''message'', ''handle claimed successfully'')]),
                 Publish (handle_claimed_event (hcq_Handle req) (hcq_DeveloperID req))
                   (announce v now (CreateHandleAnnouncement (v_announce v) (v_T v) now dev (hcq_Handle req)
                      False '''' ''claim'') (set_store db s))))"
    by (rule handleClaimHandle_eq[OF assms])
  have nf: "\<not> db_fault (s_store s)" using dev(1) by (simp add: GetDeveloper_row)
  note iff = ClaimHandle_iff[OF dev h, of now "RegistryHost v (s_cfg s)"]
  obtain r db where c: "ClaimHandle now (hcq_DeveloperID req) (hcq_Handle req) (RegistryHost v (s_cfg s)) (s_store s) = (r, db)"
    by fastforce
  have refused: "fst (claim_error e) = 409" if "r = Inl e" for e
    using ClaimHandle_refused[OF _ nf] c that by blast
  show "fst (fst (handleClaimHandle v now (Some req) s)) = 201 \<longleftrightarrow>
      GetDeveloperByHandle (v_T v) (hcq_Handle req) (RegistryHost v (s_cfg s)) (s_store s) = Inr None"
    "fst (fst (handleClaimHandle v now (Some req) s)) = 201 \<or> fst (fst (handleClaimHandle v now (Some req) s)) = 409"
    "fst (fst (handleClaimHandle v now (Some req) s)) = 201 \<Longrightarrow>
      ClaimHandle now (hcq_DeveloperID req) (hcq_Handle req) (RegistryHost v (s_cfg s)) (s_store s) =
        (Inr (), s_store (snd (handleClaimHandle v now (Some req) s))) \<and>
      s_cfg (snd (handleClaimHandle v now (Some req) s)) = s_cfg s"
    using iff eq c refused by (cases r; fastforce)+
qed

text \<open>Availability and claims agree: for a properly signed claim of a registered developer without
  a handle, the availability endpoint answers \<open>available\<close> exactly when the claim is accepted
  with 201. After an accepted claim the handle resolves to this developer, is no longer
  available, and every further claim of it is refused with 409.\<close>

theorem availability_predicts_claim:
  assumes "db_inv (s_store s)" "claim_request_ok v req s" and res: "handleClaimHandle v now (Some req) s = (resp, s')"
  shows "(handleCheckHandleAvailable v (hcq_Handle req) s = (200, PHandleAvailable (hcq_Handle req) True) \<longleftrightarrow>
      fst resp = 201) \<and>
    (fst resp = 201 \<longrightarrow>
       (\<exists>dev. handleGetHandle v (hcq_Handle req) s' = (200, PHandle dev) \<and> dev_DeveloperID dev = hcq_DeveloperID req) \<and>
       handleCheckHandleAvailable v (hcq_Handle req) s' = (200, PHandleAvailable (hcq_Handle req) False) \<and>
       (\<forall>req2 t. hcq_Handle req2 = hcq_Handle req \<longrightarrow> claim_request_ok v req2 s' \<longrightarrow>
          fst (fst (handleClaimHandle v t (Some req2) s')) = 409))"
proof (cases "ValidateHandle (hcq_Handle req)")
  case (Some e)
  have h: "hcq_Handle req \<noteq> ''''" using assms(2) by (simp add: claim_request_ok_def)
  then have "fst resp = 400"
    using assms(2) res Some by (auto simp: handleClaimHandle_def claim_request_ok_def)
  then show ?thesis using Some h by (simp add: handleCheckHandleAvailable_def)
next
  case None
  let ?h = "hcq_Handle req" and ?reg = "RegistryHost v (s_cfg s)"
  have h: "?h \<noteq> ''''" using assms(2) by (simp add: claim_request_ok_def)
  note st = claim_status[OF assms(2) None, of now, unfolded res prod.sel]
  have "handleCheckHandleAvailable v ?h s = (200, PHandleAvailable ?h True) \<longleftrightarrow>
      GetDeveloperByHandle (v_T v) ?h ?reg (s_store s) = Inr None"
    using None h by (auto simp: handleCheckHandleAvailable_def split: sum.splits)
  moreover have ?thesis if ok: "fst resp = 201"
  proof -
    have c: "ClaimHandle now (hcq_DeveloperID req) ?h ?reg (s_store s) = (Inr (), s_store s')" "s_cfg s' = s_cfg s"
      using st(3)[OF ok] by simp_all
    obtain r where r: "r \<in> set (db_developers (s_store s'))" "dkey r = hcq_DeveloperID req" "dv_handle r = Some ?h"
      "dev_HomeRegistry (dv_rec r) = ?reg" "\<not> db_fault (s_store s')"
      by (rule ClaimHandle_row[OF c(1)])
    have "db_inv (s_store s')" using developer_ops_inv(4)[OF assms(1)] c(1) by (metis snd_conv)
    from handle_found[OF this r(5,1,3,4), of "v_T v"]
    have g: "GetDeveloperByHandle (v_T v) ?h ?reg (s_store s') = Inr (Some (scanDeveloper (v_T v) r))" .
    have "fst (fst (handleClaimHandle v t (Some req2) s')) = 409"
      if "hcq_Handle req2 = ?h" "claim_request_ok v req2 s'" for req2 t
      using claim_status(1,2)[OF that(2), of t] that(1) None g c(2) by auto
    then show ?thesis
      using st(1) ok calculation g h None c(2) r(2)
      by (auto simp: handleGetHandle_def handleCheckHandleAvailable_def scanDeveloper_def)
  qed
  ultimately show ?thesis using st(1) by blast
qed

section \<open>What needs no signature of the developer\<close>

lemma TrimPrefix_PublicKeyString [simp]: "TrimPrefix (PublicKeyString kp) ''ed25519:'' = kp_PublicKeyB64 kp"
  unfolding PublicKeyString_def by (rule TrimPrefix_append)

lemma strip_key_PublicKeyString [simp]: "strip_key (PublicKeyString kp) = kp_PublicKeyB64 kp"
  by (simp add: strip_key_def PublicKeyString_def HasPrefix_def)

lemma kp_Sign_nonempty [simp]: "kp_Sign E kp msg \<noteq> ''''"
  by (simp add: kp_Sign_def)

definition foreign_claim :: "env \<Rightarrow> Keypair \<Rightarrow> string \<Rightarrow> string \<Rightarrow> HandleClaimRequest" where
  "foreign_claim v kp developerID handle =
     (let req = \<lparr>hcq_Handle = handle, hcq_DeveloperID = developerID, hcq_PublicKey = PublicKeyString kp, hcq_Signature = ''''\<rparr>
      in req\<lparr>hcq_Signature := kp_Sign (v_E v) kp (v_marshal v (claim_signable req))\<rparr>)"

text \<open>A handle can be claimed for a developer by anybody. The signature of a claim is checked against
  the public key in the request, which is never compared with the key of the developer: with any
  key pair of their own, a stranger binds an available handle of their choice to any registered
  developer who has none yet.\<close>

theorem handle_claim_needs_no_developer_key:
  assumes "ed25519_ok (v_E v)" "generated (v_E v) kp"
    "GetDeveloper (v_T v) developerID (s_store s) = Inr (Some dev)" "dev_DevHandle dev = ''''" "developerID \<noteq> ''''"
    "ValidateHandle handle = None"
    "GetDeveloperByHandle (v_T v) handle (RegistryHost v (s_cfg s)) (s_store s) = Inr None"
  shows "fst (fst (handleClaimHandle v now (Some (foreign_claim v kp developerID handle)) s)) = 201"
proof -
  have h: "handle \<noteq> ''''" using assms(6) by (auto simp: ValidateHandle_def)
  have "claim_request_ok v (foreign_claim v kp developerID handle) s"
    using assms h Verify_Sign[OF assms(1,2)]
    by (simp add: claim_request_ok_def foreign_claim_def found_def signature_ok_def claim_signable_def
        PublicKeyString_nonempty)
  then show ?thesis
    using claim_status(1)[of v "foreign_claim v kp developerID handle" s now] assms(6,7)
    by (simp add: foreign_claim_def)
qed

lemma find_Some_set: "find P xs = Some x \<Longrightarrow> x \<in> set xs \<and> P x"
  by (auto simp: find_Some_iff)

lemma UpdateZNSName_row:
  assumes "tf_Parse T (zn_UpdatedAt n) = Some t" "\<not> db_fault db" "z \<in> set (db_zns db)" "zkey z = zn_FQAN n"
  obtains db' z' where "UpdateZNSName T n db = (Inr (), db')" "GetZNSName T (zn_FQAN n) db' = Inr (Some z')"
    "zn_CurrentVersion z' = zn_CurrentVersion n" "zn_CapabilityTags z' = zn_CapabilityTags n"
    "zn_Signature z' = zn_Signature n"
proof -
  let ?P = "\<lambda>r. zkey r = zn_FQAN n"
  let ?f = "\<lambda>r. r\<lparr>zr_updated := t, zr_rec := (zr_rec r)\<lparr>zn_CurrentVersion := zn_CurrentVersion n,
     zn_CapabilityTags := zn_CapabilityTags n, zn_Signature := zn_Signature n\<rparr>\<rparr>"
  let ?db = "db\<lparr>db_zns := t_update ?P ?f (db_zns db)\<rparr>"
  have "require_rows ?P (db_zns db) = Inr ()" using assms(3,4) by (auto simp: require_rows_ok)
  then have u: "UpdateZNSName T n db = (Inr (), ?db)"
    using assms(1,2) by (simp add: UpdateZNSName_def pool_Exec_def Let_def)
  obtain r where r: "t_get zkey (zn_FQAN n) (db_zns db) = Some r"
    using assms(3,4) t_get_None[of zkey "zn_FQAN n" "db_zns db"] by (metis image_eqI option.exhaust)
  then have "?P r" using t_get_Some by fast
  then have "t_get zkey (zn_FQAN n) (db_zns ?db) = Some (?f r)" using r by (simp add: t_get_update)
  then have "GetZNSName T (zn_FQAN n) ?db = Inr (Some (scanZNSName T (?f r)))"
    using assms(2) by (simp add: GetZNSName_def pool_Query_def)
  then show ?thesis using that[OF u] by (simp add: scanZNSName_def)
qed

text \<open>A name can be changed by anybody. The update of a name checks neither the Authorization header
  nor the signature in the request: every well-formed request, whoever sends it, replaces the
  version, the capability tags and the signature of any existing name.\<close>

theorem name_update_needs_no_signature:
  assumes "GetZNSNameByParts (v_T v) devHandle entityName (RegistryHost v (s_cfg s)) (s_store s) = Inr (Some name)"
    "tf_Parse (v_T v) (NowRFC3339 v now) = Some t"
  shows "\<exists>s' z. handleUpdateName v now devHandle entityName (Some req) s = ((200, PName (updated_name v now req name)), s') \<and>
    GetZNSName (v_T v) (zn_FQAN name) (s_store s') = Inr (Some z) \<and>
    zn_CurrentVersion z = or_default (nuq_Version req) (zn_CurrentVersion name) \<and>
    zn_CapabilityTags z = set_if (nuq_CapabilityTags req) (zn_CapabilityTags name) \<and> zn_Signature z = nuq_Signature req"
proof -
  let ?n = "updated_name v now req name"
  obtain r where r: "r \<in> set (db_zns (s_store s))" "zkey r = zn_FQAN name" "\<not> db_fault (s_store s)"
    using assms(1) by (auto simp: GetZNSNameByParts_def pool_Query_def scanZNSName_def dest!: find_Some_set
        split: if_splits)
  have n: "zn_FQAN ?n = zn_FQAN name" "zn_UpdatedAt ?n = NowRFC3339 v now" by (simp_all add: updated_name_def)
  obtain db z where u: "UpdateZNSName (v_T v) ?n (s_store s) = (Inr (), db)" "GetZNSName (v_T v) (zn_FQAN ?n) db = Inr (Some z)"
    "zn_CurrentVersion z = zn_CurrentVersion ?n" "zn_CapabilityTags z = zn_CapabilityTags ?n" "zn_Signature z = zn_Signature ?n"
    using UpdateZNSName_row[of "v_T v" ?n t "s_store s" r] assms(2) r n by metis
  have "GetZNSName (v_T v) f (s_store (store_version v now f' ver e sg (set_store db s))) = GetZNSName (v_T v) f db"
    for f f' ver e sg by (simp add: store_version_def GetZNSName_def pool_Query_def)
  then show ?thesis using assms(1) u n by (simp add: handleUpdateName_def found_def Let_def updated_name_def)
qed

section \<open>Deregistration\<close>

lemma GetZNSName_gone:
  "\<not> db_fault db \<Longrightarrow> GetZNSName T f db = Inr (Some n) \<Longrightarrow> zn_EntityID n = i \<Longrightarrow>
    \<exists>z\<in>set (db_zns db). zn_EntityID (zr_rec z) = i"
  by (auto simp: GetZNSName_def pool_Query_def scanZNSName_def dest: t_get_Some)

lemma announce_broadcast:
  "gh_onBroadcast (s_gossip s) \<Longrightarrow> BroadcastTo (mk (kp_RegistryID (s_nodeIdentity s)) (PublicKeyString (s_nodeIdentity s))
     (kp_Sign (v_E v) (s_nodeIdentity s)) (s_gossip s)) \<in> set (gh_out (s_gossip (announce v now mk s)))"
  by (simp add: announce_def BroadcastAnnouncement_def emit_def Let_def)

lemma index_frame [simp]:
  "s_index (announce v now mk s) = s_index s" "s_index (Publish e s) = s_index s"
  "s_index (set_store db s) = s_index s" "s_index (index_agent c s) = s_index s @ [c]"
  "s_gossip (Publish e s) = s_gossip s" "gh_onBroadcast (s_gossip (set_store db s)) = gh_onBroadcast (s_gossip s)"
  "s_gossip (index_agent c s) = s_gossip s"
  by (simp_all add: announce_def Publish_def set_store_def index_agent_def)

text \<open>C39: A deregistered entity disappears completely. When the deletion is answered with 200, the entity
  is no longer found, no name refers to it and none that did resolves, a tombstone that expires
  seven days later is stored, the search index is told to remove it, and the deregistration is
  handed to the mesh. The names of other entities are untouched.\<close>

theorem deregistration_complete:
  assumes "db_inv (s_store s)" "handleDeleteEntity v now i auth s = ((200, p), s')"
    "tf_Parse (v_T v) (tf_Format (v_T v) now) = Some now"
    "tf_Parse (v_T v) (tf_Format (v_T v) (now + 7 * 24 * 3600)) = Some (now + 7 * 24 * 3600)"
  shows "GetEntity (v_T v) i (s_store s') = Inr None \<and>
    (\<forall>z\<in>set (db_zns (s_store s')). zn_EntityID (zr_rec z) \<noteq> i) \<and>
    (\<forall>z. zn_EntityID (zr_rec z) \<noteq> i \<longrightarrow> (z \<in> set (db_zns (s_store s')) \<longleftrightarrow> z \<in> set (db_zns (s_store s)))) \<and>
    (\<exists>t. t_get tkey i (db_tombstones (s_store s')) = Some t \<and> tr_expires t = now + 7 * 24 * 3600) \<and>
    s_index s' = s_index s @ [RemoveAgent i] \<and>
    (gh_onBroadcast (s_gossip s) \<longrightarrow> (\<exists>ann. BroadcastTo ann \<in> set (gh_out (s_gossip s')) \<and>
       ga_Action ann = ''deregister'' \<and> ga_EntityID ann = i))"
proof -
  obtain a db where d: "found (GetEntity (v_T v) i (s_store s)) = Some a" "DeleteEntity i (rr_Owner a) (s_store s) = (Inr (), db)"
    and s': "s' = Publish (entity_event ''entity_deregistered'' a '''') (announce v now
       (CreateAnnouncement (v_announce v) (v_T v) now a ''deregister'')
       (set_store (snd (CreateTombstone (v_T v) (tombstone_of v now i (index_agent (RemoveAgent i) (set_store db s))) db))
          (index_agent (RemoveAgent i) (set_store db s))))"
    using assms(2) unfolding handleDeleteEntity_def Let_def
    by (auto simp: writeError_def split: if_splits option.splits prod.splits sum.splits)
  have nf: "\<not> db_fault (s_store s)" and g: "GetEntity (v_T v) i (s_store s) = Inr (Some a)"
    using d(1) by (auto simp: found_def GetEntity_def pool_Query_def split: if_splits sum.splits)
  have nf': "\<not> db_fault db" and zns: "db_zns db = t_delete (\<lambda>z. zn_EntityID (zr_rec z) = i) (db_zns (s_store s))"
    using d(2) nf by (auto simp: DeleteEntity_eq delete_names_def)
  let ?ts = "tombstone_of v now i (index_agent (RemoveAgent i) (set_store db s))"
  obtain row where row: "row = \<lparr>tr_rec = ?ts, tr_created = now, tr_expires = now + 7 * 24 * 3600\<rparr>" by blast
  have ct: "snd (CreateTombstone (v_T v) ?ts db) = db\<lparr>db_tombstones := t_upsert tkey (\<lambda>old new. new) row (db_tombstones db)\<rparr>"
    using nf' assms(3,4) by (simp add: CreateTombstone_def pool_Exec_def tombstone_of_def NowRFC3339_def row)
  have key: "tkey row = i" by (simp add: row tombstone_of_def)
  have "GetEntity (v_T v) i db = Inr None" using DeleteEntity_effect(3)[OF assms(1) nf d(2), of "v_T v"] by simp
  moreover have "t_get tkey i (t_upsert tkey (\<lambda>old new. new) row rows) = Some row" for rows
    using overwrite.get_upsert[of tkey i row rows] key by (simp split: option.splits)
  moreover have eid: "rr_EntityID a = i" using g t_get_Some[of ekey i] by (auto simp: GetEntity_row)
  moreover have "\<exists>ann. BroadcastTo ann \<in> set (gh_out (s_gossip s')) \<and> ga_Action ann = ''deregister'' \<and> ga_EntityID ann = i"
    if "gh_onBroadcast (s_gossip s)"
    unfolding s' index_frame
    by (intro exI conjI, rule announce_broadcast) (simp_all add: that eid CreateAnnouncement_def)
  moreover have "s_index s' = s_index s @ [RemoveAgent i]" "s_store s' = snd (CreateTombstone (v_T v) ?ts db)"
    by (simp_all add: s')
  ultimately show ?thesis using zns ct nf' by (simp add: GetEntity_def pool_Query_def row)
qed

section \<open>Onboarding\<close>

lemma verifyOwnership_Sign:
  assumes "ed25519_ok (v_E v)" "generated (v_E v) kp"
  shows "verifyOwnership v (PublicKeyString kp) data (''Bearer '' @ kp_Sign (v_E v) kp data) = None"
proof -
  have "\<not> HasPrefix (''Bearer '' @ kp_Sign (v_E v) kp data) ''Bearer-Dev ''" by (simp add: HasPrefix_def)
  then show ?thesis
    using Verify_Sign[OF assms, of data]
    by (simp add: verifyOwnership_def TrimPrefix_def HasPrefix_def strip_key_PublicKeyString)
qed

text \<open>Onboarding end to end, in restricted mode. Only a request that carries the webhook secret is
  approved; the answer holds the encrypted private key of a fresh developer, the website decrypts
  it with the state it chose, and what is signed with this key is accepted as the developer's: a
  profile update under it succeeds. The hypotheses on \<open>gcmSeal\<close> and \<open>gcmOpen\<close> are the documented
  behaviour of AES-GCM: what was sealed opens.\<close>

theorem approved_developer_can_act:
  assumes E: "ed25519_ok (v_E v)" "length seed = SeedSize"
    and T: "tf_Parse (v_T v) (tf_Format (v_T v) t) = Some t"
    and aes: "\<And>key nonce plain. gcmOpen key nonce (gcmSeal key nonce plain) = Some plain" "length nonce = gcmNonceSize"
    and resp: "approve_route v now (Some seed) gcmSeal (Some nonce) auth (Some req) s = ((201, PFields flds), s')"
    and upd: "v_developer_update v body = Some u"
  shows "auth = ''Bearer '' @ c_WebhookSecret (s_cfg s) \<and>
    (\<exists>developerID enc kp d. map_of flds ''developer_id'' = Some developerID \<and>
      map_of flds ''private_key_enc'' = Some enc \<and> GenerateKeypair (v_E v) (Some seed) = Some kp \<and>
      DecryptPrivateKey gcmOpen enc (daq_State req) = Some (kp_PrivateKeyB64 kp) \<and>
      fst (handleUpdateDeveloper v t developerID (Some body) (''Bearer '' @ kp_Sign (v_E v) kp body) s') =
        (200, PDeveloper d))"
proof -
  obtain kp where kp: "GenerateKeypair (v_E v) (Some seed) = Some kp" by (simp add: GenerateKeypair_def)
  let ?id = "GenerateDeveloperID (kp_PublicKey kp)"
  let ?dev = "approved_developer v now ?id req kp (RegistryHost v (s_cfg s))"
  have wh: "WebhookAuth (c_WebhookSecret (s_cfg s)) auth = None"
    using resp by (auto simp: approve_route_def writeError_def WebhookAuth_def Let_def split: if_splits option.splits)
  then have "HasPrefix auth ''Bearer ''" "TrimPrefix auth ''Bearer '' = c_WebhookSecret (s_cfg s)"
    by (auto simp: WebhookAuth_def Let_def TrimPrefix_def split: if_splits)
  then have auth: "auth = ''Bearer '' @ c_WebhookSecret (s_cfg s)"
    using HasPrefix_iff[of auth "''Bearer ''"] TrimPrefix_append[of "''Bearer ''"] by metis
  obtain db where c: "CreateDeveloper (v_T v) ?dev (s_store s) = (Inr (), db)" "s_store s' = db"
    "flds = [(''developer_id'', ?id), (''private_key_enc'', EncryptPrivateKey gcmSeal nonce (kp_PrivateKeyB64 kp) (daq_State req)),
       (''public_key'', PublicKeyString kp)]"
    using resp kp wh unfolding approve_route_def handleApproveDeveloper_def Let_def
    by (auto simp: writeError_def create_error_def split: if_splits prod.splits sum.splits)
  have dev: "dev_DeveloperID ?dev = ?id" "dev_PublicKey ?dev = PublicKeyString kp" by (simp_all add: approved_developer_def)
  obtain r where r: "r \<in> set (db_developers db)" "dkey r = ?id" "dev_PublicKey (dv_rec r) = PublicKeyString kp" "\<not> db_fault db"
    "GetDeveloper (v_T v) ?id db = Inr (Some (scanDeveloper (v_T v) r))"
    using CreateDeveloper_found[OF c(1)] dev by metis
  have gen: "generated (v_E v) kp" using generated_GenerateKeypair[OF kp E(2)] .
  have "?id \<noteq> ''''" by (simp add: GenerateDeveloperID_def)
  moreover have "verifyOwnership v (dev_PublicKey (scanDeveloper (v_T v) r)) body (''Bearer '' @ kp_Sign (v_E v) kp body) = None"
    using verifyOwnership_Sign[OF E(1) gen] r(3) by (simp add: scanDeveloper_def)
  moreover have "fst (UpdateDeveloper (v_T v) (updated_developer v t u (scanDeveloper (v_T v) r)) db) = Inr ()"
    using r(1,2,4) T by (auto simp: UpdateDeveloper_def pool_Exec_def Let_def updated_developer_def scanDeveloper_def
        NowRFC3339_def require_rows_ok)
  ultimately have "fst (handleUpdateDeveloper v t ?id (Some body) (''Bearer '' @ kp_Sign (v_E v) kp body) s') =
      (200, PDeveloper (updated_developer v t u (scanDeveloper (v_T v) r)))"
    using r(5) c(2) upd by (auto simp: handleUpdateDeveloper_def Let_def split: prod.splits sum.splits)
  moreover have "DecryptPrivateKey gcmOpen (EncryptPrivateKey gcmSeal nonce (kp_PrivateKeyB64 kp) (daq_State req)) (daq_State req) =
      Some (kp_PrivateKeyB64 kp)"
    by (rule private_key_custody_roundtrip) (simp_all add: aes)
  ultimately show ?thesis using auth kp c(3) by auto
qed

section \<open>Concrete requests\<close>

definition sample_env :: env where
  "sample_env = \<lparr>v_E = toy_ed25519, v_T = unix_time, v_announce = hop_marshal, v_marshal = (\<lambda>_. [1]),
     v_encode = (\<lambda>_. Some [1]), v_Hostname = Some, v_resolver = (\<lambda>_. None),
     v_developer_update = (\<lambda>_. Some \<lparr>duq_Name = Some ''m'', duq_ProfileURL = None, duq_GitHub = None, duq_Signature = ''s''\<rparr>),
     v_entity_update = (\<lambda>_. None)\<rparr>"

definition sample_server :: "string \<Rightarrow> DB \<Rightarrow> Server" where
  "sample_server mode db = \<lparr>s_cfg = \<lparr>c_HTTPSEndpoint = ''reg.example'', c_OnboardingMode = mode, c_AuthURL = '''',
       c_WebhookSecret = ''hush'', c_MaxClockSkewS = 60, c_InactiveThresholdS = 300\<rparr>,
     s_gossip = SetBroadcastFunc (NewGossipHandler db 5 300), s_nodeIdentity = registry_kp 1,
     s_peerManager = NewPeerManager 2, s_index = [], s_events = []\<rparr>"

lemma sample_simps [simp]:
  "v_E sample_env = toy_ed25519" "v_T sample_env = unix_time" "v_marshal sample_env x = [1]" "v_encode sample_env x = Some [1]"
  "s_store (sample_server mode db) = db" "RegistryHost sample_env (s_cfg (sample_server mode db)) = ''reg.example''"
  "c_OnboardingMode (s_cfg (sample_server mode db)) = mode" "c_WebhookSecret (s_cfg (sample_server mode db)) = ''hush''"
  "c_InactiveThresholdS (s_cfg (sample_server mode db)) = 300" "c_AuthURL (s_cfg (sample_server mode db)) = ''''"
  "gh_onBroadcast (s_gossip (sample_server mode db))" "s_index (sample_server mode db) = []"
  by (simp_all add: sample_env_def sample_server_def NewGossipHandler_def SetBroadcastFunc_def RegistryHost_def)

lemma toy_verifies: "Verify toy_ed25519 (kp_PublicKeyB64 (registry_kp b)) msg (kp_Sign toy_ed25519 (registry_kp b) msg) = Inr True"
  by (rule Verify_Sign[OF toy_ed25519_ok registry_kp_generated])

lemma acme_ok: "ValidateHandle ''acme'' = None"
  by code_simp

theorem handle_claim_needs_no_developer_key_witness:
  "fst (fst (handleClaimHandle sample_env 5 (Some (foreign_claim sample_env (registry_kp 9) ''d'' ''acme''))
     (sample_server ''open'' two_developers))) = 201"
proof (rule handle_claim_needs_no_developer_key)
  show "ed25519_ok (v_E sample_env)" "generated (v_E sample_env) (registry_kp 9)"
    by (simp_all add: toy_ed25519_ok registry_kp_generated)
  show "ValidateHandle ''acme'' = None" by (rule acme_ok)
  show "GetDeveloper (v_T sample_env) ''d'' (s_store (sample_server ''open'' two_developers)) =
      Inr (Some ((sample_developer ''d'' ''k'')\<lparr>dev_SchemaVersion := ''1.0''\<rparr>))"
    by (simp add: two_developers_def CreateDeveloper_def pool_Exec_def empty_db_def unix_time_def
        sample_developer_def handle_clash_def GetDeveloper_def pool_Query_def scanDeveloper_def or_default_def
        CurrentSchemaVersion_def)
  show "dev_DevHandle ((sample_developer ''d'' ''k'')\<lparr>dev_SchemaVersion := ''1.0''\<rparr>) = ''''" by (simp add: sample_developer_def)
  show "GetDeveloperByHandle (v_T sample_env) ''acme'' (RegistryHost sample_env (s_cfg (sample_server ''open'' two_developers)))
      (s_store (sample_server ''open'' two_developers)) = Inr None"
    by (simp add: two_developers_def CreateDeveloper_def pool_Exec_def empty_db_def unix_time_def
        sample_developer_def handle_clash_def GetDeveloperByHandle_def pool_Query_def)
qed simp

lemma two_developers_inv: "db_inv two_developers"
  unfolding two_developers_def by (rule store.run_inv[OF empty_db_inv])

theorem availability_predicts_claim_witness:
  "handleCheckHandleAvailable sample_env ''acme'' (sample_server ''open'' two_developers) =
      (200, PHandleAvailable ''acme'' True) \<longleftrightarrow>
    fst (fst (handleClaimHandle sample_env 5 (Some (foreign_claim sample_env (registry_kp 9) ''d'' ''acme''))
      (sample_server ''open'' two_developers))) = 201"
proof -
  let ?req = "foreign_claim sample_env (registry_kp 9) ''d'' ''acme''"
  have "claim_request_ok sample_env ?req (sample_server ''open'' two_developers)"
    by (simp add: claim_request_ok_def foreign_claim_def PublicKeyString_nonempty signature_ok_def toy_verifies)
      (simp add: two_developers_def CreateDeveloper_def pool_Exec_def empty_db_def unix_time_def
        sample_developer_def handle_clash_def GetDeveloper_def pool_Query_def scanDeveloper_def found_def)
  moreover have "hcq_Handle ?req = ''acme''" by (simp add: foreign_claim_def)
  ultimately show ?thesis
    using availability_predicts_claim[of "sample_server ''open'' two_developers" sample_env ?req 5] two_developers_inv
    by (metis prod.collapse sample_simps(5))
qed

definition acme_name :: ZNSName where
  "acme_name = (sample_name ''f'' ''a'')\<lparr>zn_DeveloperHandle := ''acme'', zn_EntityName := ''bot'',
     zn_RegistryHost := ''reg.example''\<rparr>"

definition acme_db :: DB where
  "acme_db = empty_db\<lparr>db_zns := [\<lparr>zr_rec = acme_name, zr_registered = 1, zr_updated = 1\<rparr>]\<rparr>"

theorem name_update_needs_no_signature_witness:
  "\<exists>s' n z. handleUpdateName sample_env 7 ''acme'' ''bot''
      (Some \<lparr>nuq_Version = ''9.9'', nuq_CapabilityTags = None, nuq_Signature = ''forged''\<rparr>)
      (sample_server ''open'' acme_db) = ((200, PName n), s') \<and>
    GetZNSName unix_time ''f'' (s_store s') = Inr (Some z) \<and> zn_CurrentVersion z = ''9.9'' \<and> zn_Signature z = ''forged''"
proof -
  let ?s = "sample_server ''open'' acme_db"
  let ?req = "\<lparr>nuq_Version = ''9.9'', nuq_CapabilityTags = None, nuq_Signature = ''forged''\<rparr>"
  obtain name where name: "GetZNSNameByParts (v_T sample_env) ''acme'' ''bot'' (RegistryHost sample_env (s_cfg ?s)) (s_store ?s) =
      Inr (Some name)" "zn_FQAN name = ''f''"
    by (simp add: GetZNSNameByParts_def pool_Query_def acme_db_def acme_name_def sample_name_def scanZNSName_def)
  have "tf_Parse (v_T sample_env) (NowRFC3339 sample_env 7) = Some 7"
    using unix_time_parse[of 7] by (simp add: NowRFC3339_def)
  from name_update_needs_no_signature[OF name(1) this, of ?req] show ?thesis
    unfolding name(2) by (simp add: or_default_def) blast
qed

text \<open>An entity with a key of its own and a name, and a request of its owner to remove it.\<close>

definition owned_db :: DB where
  "owned_db = fold (store_step unix_time)
     [SCreateAgent 3 ((sample_agent ''a'' ''w'')\<lparr>rr_PublicKey := PublicKeyString (registry_kp 7)\<rparr>),
      SCreateName (sample_name ''f'' ''a'')] empty_db"

definition owner_delete :: "response \<times> Server" where
  "owner_delete = handleDeleteEntity sample_env 9 ''a'' (''Bearer '' @ kp_Sign toy_ed25519 (registry_kp 7) (string_bytes ''a''))
     (sample_server ''open'' owned_db)"

lemma owned_db_inv: "db_inv owned_db"
  unfolding owned_db_def by (rule store.run_inv[OF empty_db_inv])

lemma owned_row:
  obtains r where "erow ''a'' owned_db = Some r" "rr_PublicKey (er_rec r) = PublicKeyString (registry_kp 7)" "\<not> db_fault owned_db"
  by (simp add: owned_db_def CreateAgent_def CreateZNSName_def pool_Exec_def empty_db_def unix_time_def sample_agent_def
      sample_name_def t_insert_def)

lemma owner_delete_ok:
  obtains p s' where "owner_delete = ((200, p), s')" "erow ''a'' (s_store s') = None"
proof -
  obtain r where r: "erow ''a'' owned_db = Some r" "rr_PublicKey (er_rec r) = PublicKeyString (registry_kp 7)" "\<not> db_fault owned_db"
    by (rule owned_row)
  let ?a = "scanAgentRow unix_time r" and ?auth = "''Bearer '' @ kp_Sign toy_ed25519 (registry_kp 7) (string_bytes ''a'')"
  have g: "GetEntity unix_time ''a'' owned_db = Inr (Some ?a)" using r by (simp add: GetEntity_row)
  have "verifyOwnership sample_env (PublicKeyString (registry_kp 7)) (string_bytes ''a'') ?auth = None"
    using verifyOwnership_Sign[of sample_env "registry_kp 7"] toy_ed25519_ok registry_kp_generated by simp
  moreover have "\<not> HasPrefix ?auth ''Bearer-Dev ''" by (simp add: HasPrefix_def)
  ultimately have o: "verifyDualKeyOwnership sample_env owned_db ?a (string_bytes ''a'') ?auth = None"
    using r(2) by (simp add: verifyDualKeyOwnership_def)
  obtain db where d: "DeleteEntity ''a'' (rr_Owner ?a) owned_db = (Inr (), db)"
    using DeleteEntity_own[of unix_time "''a''" owned_db ?a] g
    by (cases "DeleteEntity ''a'' (rr_Owner ?a) owned_db"; cases "fst (DeleteEntity ''a'' (rr_Owner ?a) owned_db)")
      (auto simp: found_def)
  have "GetEntity unix_time ''a'' db = Inr None" using DeleteEntity_effect(3)[OF owned_db_inv r(3) d] by simp
  then have "erow ''a'' db = None" by (auto simp: GetEntity_def pool_Query_def split: if_splits)
  then show ?thesis
    using that g o d by (simp add: owner_delete_def handleDeleteEntity_def found_def Let_def)
qed

theorem deregistration_complete_witness:
  "\<exists>p s'. owner_delete = ((200, p), s') \<and> GetEntity unix_time ''a'' (s_store s') = Inr None \<and>
     s_index s' = [RemoveAgent ''a'']"
proof -
  obtain p s' where d: "owner_delete = ((200, p), s')" "erow ''a'' (s_store s') = None" by (rule owner_delete_ok)
  have "tf_Parse (v_T sample_env) (tf_Format (v_T sample_env) 9) = Some 9"
    "tf_Parse (v_T sample_env) (tf_Format (v_T sample_env) (9 + 7 * 24 * 3600)) = Some (9 + 7 * 24 * 3600)"
    using unix_time_parse[of 9] unix_time_parse[of "9 + 7 * 24 * 3600"] by simp_all
  from deregistration_complete[OF _ d(1)[unfolded owner_delete_def] this] show ?thesis
    using d(1) owned_db_inv by auto
qed

theorem entity_changes_authorised_witness:
  "\<exists>r key. erow ''a'' owned_db = Some r \<and> owner_key sample_env owned_db (scanAgentRow unix_time r) key \<and>
     signed_by sample_env key (string_bytes ''a'') (''Bearer '' @ kp_Sign toy_ed25519 (registry_kp 7) (string_bytes ''a''))"
proof -
  let ?auth = "''Bearer '' @ kp_Sign toy_ed25519 (registry_kp 7) (string_bytes ''a'')"
  obtain r where r: "erow ''a'' owned_db = Some r" by (rule owned_row)
  obtain p s' where d: "owner_delete = ((200, p), s')" "erow ''a'' (s_store s') = None" by (rule owner_delete_ok)
  have "erow ''a'' (s_store (node_step sample_env (Request (ADeleteEntity 9 ''a'' ?auth)) (sample_server ''open'' owned_db))) \<noteq> Some r"
    using d by (simp add: owner_delete_def)
  from entity_changes_authorised[OF _ this] r show ?thesis by auto
qed


text \<open>A developer with a handle registers an entity under a name.\<close>

definition acme_developer :: DeveloperRecord where
  "acme_developer = (sample_developer ''d'' (PublicKeyString (registry_kp 3)))\<lparr>dev_HomeRegistry := ''reg.example'',
     dev_DevHandle := ''acme''\<rparr>"

definition acme_developers :: DB where
  "acme_developers = store_step unix_time (SCreateDeveloper acme_developer) empty_db"

definition bot_request :: RegistrationRequest where
  "bot_request = \<lparr>rq_Name = ''Bot'', rq_EntityURL = ''https://bot'', rq_Category = ''tools'', rq_Tags = None,
     rq_Summary = '''', rq_CapabilitySummary = None, rq_PublicKey = PublicKeyString (registry_kp 4),
     rq_Signature = kp_Sign toy_ed25519 (registry_kp 4) [1], rq_DeveloperID = ''d'',
     rq_DeveloperProof = Some (CreateDerivationProof toy_ed25519 (registry_kp 3) (kp_PublicKey (registry_kp 4)) 0),
     rq_EntityName = ''bot'', rq_Version = '''', rq_EntityType = '''', rq_ServiceEndpoint = '''', rq_OpenAPIURL = '''',
     rq_EntityPricing = None\<rparr>"

lemma acme_developers_row:
  obtains r where "db_developers acme_developers = [r]" "dkey r = ''d''" "dev_PublicKey (dv_rec r) = PublicKeyString (registry_kp 3)"
    "dv_handle r = Some ''acme''" "dev_HomeRegistry (dv_rec r) = ''reg.example''"
    "acme_developers = empty_db\<lparr>db_developers := [r]\<rparr>"
  by (simp add: acme_developers_def CreateDeveloper_def pool_Exec_def empty_db_def unix_time_def acme_developer_def
      sample_developer_def)

lemma bot_record:
  obtains rec where "registration_record sample_env 5 bot_request (sample_server ''open'' acme_developers) = Inr rec"
    "rr_RegisteredAt rec = tf_Format unix_time 5" "rr_UpdatedAt rec = tf_Format unix_time 5"
    "rr_DeveloperID rec = ''d''" "rr_EntityID rec \<noteq> ''''"
proof -
  obtain r where r: "dkey r = ''d''" "dev_PublicKey (dv_rec r) = PublicKeyString (registry_kp 3)"
    "acme_developers = empty_db\<lparr>db_developers := [r]\<rparr>" by (rule acme_developers_row)
  have kp: "kp_PublicKeyB64 (registry_kp 4) = b64_EncodeToString (kp_PublicKey (registry_kp 4))"
    by (simp add: registry_kp_def keypair_of_def)
  have key: "developer_key sample_env ''d'' acme_developers = Inr (PublicKeyString (registry_kp 3))"
    unfolding r(3) using r(1,2) by (simp add: developer_key_def GetDeveloper_def pool_Query_def scanDeveloper_def)
  have "VerifyDerivationProof toy_ed25519 (rq_DeveloperProof bot_request) (PublicKeyString (registry_kp 4)) = Inr True"
    using VerifyDerivationProof_Create[OF toy_ed25519_ok registry_kp_generated[of 3], of "kp_PublicKey (registry_kp 4)" 0] kp
    by (simp add: bot_request_def PublicKeyString_def)
  then have "\<exists>p. check_developer sample_env bot_request acme_developers = Inr p"
    using key by (simp add: check_developer_def bot_request_def CreateDerivationProof_def signature_ok_def)
  then obtain p where p: "check_developer sample_env bot_request acme_developers = Inr p" ..
  define rec where "rec = entity_record sample_env 5 (GenerateEntityID (kp_PublicKey (registry_kp 4)) '''') ''agent'' bot_request p ''reg.example''"
  have id: "rr_EntityID rec \<noteq> ''''" by (simp add: rec_def entity_record_def GenerateEntityID_def)
  have "rr_Validate rec = None"
    using id by (simp add: rr_Validate_def rec_def entity_record_def bot_request_def ValidEntityTypes_def set_if_def
        PublicKeyString_nonempty)
  moreover have "b64_DecodeString (kp_PublicKeyB64 (registry_kp 4)) = Some (kp_PublicKey (registry_kp 4))" using kp by simp
  moreover have "CanonicalJSON (v_encode sample_env) (entity_signable bot_request) = Some [1]" by (simp add: CanonicalJSON_def)
  moreover have "rq_PublicKey bot_request = PublicKeyString (registry_kp 4)" "rq_Signature bot_request = kp_Sign toy_ed25519 (registry_kp 4) [1]"
    "rq_EntityType bot_request = ''''" "rq_Name bot_request \<noteq> ''''" "rq_Category bot_request \<noteq> ''''" "rq_EntityURL bot_request \<noteq> ''''"
    by (simp_all add: bot_request_def)
  ultimately have "registration_record sample_env 5 bot_request (sample_server ''open'' acme_developers) = Inr rec"
    using p toy_verifies[of 4 "[1]"] unfolding registration_record_def Let_def
    by (simp add: PublicKeyString_nonempty signature_ok_def rec_def or_default_def)
  then show ?thesis
    using that id by (simp add: rec_def entity_record_def NowRFC3339_def bot_request_def)
qed

lemma bot_registered:
  obtains flds fqan s' where "handleRegisterEntity sample_env 5 (Some bot_request) (sample_server ''open'' acme_developers) =
      ((201, PFields flds), s')" "map_of flds ''fqan'' = Some fqan"
proof -
  let ?s = "sample_server ''open'' acme_developers"
  obtain r where r: "dkey r = ''d''" "dv_handle r = Some ''acme''" "acme_developers = empty_db\<lparr>db_developers := [r]\<rparr>"
    by (rule acme_developers_row)
  obtain rec where rec: "registration_record sample_env 5 bot_request ?s = Inr rec"
    "rr_RegisteredAt rec = tf_Format unix_time 5" "rr_UpdatedAt rec = tf_Format unix_time 5" "rr_DeveloperID rec = ''d''"
    "rr_EntityID rec \<noteq> ''''" by (rule bot_record)
  have p: "tf_Parse unix_time (tf_Format unix_time 5) = Some 5" by (rule unix_time_parse) simp
  obtain row where c: "CreateAgent unix_time 5 rec acme_developers = (Inr (), empty_db\<lparr>db_developers := [r], db_entities := [row]\<rparr>)"
    "ekey row = rr_EntityID rec"
    unfolding r(3) using rec(2,3) p
    by (simp add: CreateAgent_def pool_Exec_def t_insert_def Let_def) (simp add: empty_db_def)
  let ?db = "empty_db\<lparr>db_developers := [r], db_entities := [row]\<rparr>"
  define s1 where "s1 = Publish (entity_event ''entity_registered'' rec (rr_Summary rec)) (announce sample_env 5
     (CreateAnnouncement (v_announce sample_env) unix_time 5 rec ''register'') (index_agent (IndexAgent rec) (set_store ?db ?s)))"
  have s1: "s_store s1 = ?db" "RegistryHost sample_env (s_cfg s1) = ''reg.example''" by (simp_all add: s1_def)
  have dev: "GetDeveloper unix_time ''d'' ?db = Inr (Some (scanDeveloper unix_time r))" "dev_DevHandle (scanDeveloper unix_time r) = ''acme''"
    using r(1,2) by (simp_all add: GetDeveloper_def pool_Query_def scanDeveloper_def)
  have parts: "GetZNSNameByParts unix_time ''acme'' ''bot'' ''reg.example'' ?db = Inr None"
    by (simp add: GetZNSNameByParts_def pool_Query_def) (simp add: empty_db_def)
  have bot: "ValidateAgentName ''bot'' = None" by code_simp
  have bind: "bind_name sample_env 5 name s1 \<noteq> (Inl e, s2)"
    if "zn_RegisteredAt name = tf_Format unix_time 5" "zn_UpdatedAt name = tf_Format unix_time 5" "zn_EntityID name = rr_EntityID rec"
    for name e s2
    using that s1(1) p c(2) by (simp add: bind_name_def CreateZNSName_def pool_Exec_def t_insert_def Let_def)
      (simp add: empty_db_def)
  have "fst (createZNSNameBinding sample_env 5 rec ''bot'' '''' ''reg.example'' s1) = BuildFQAN ''reg.example'' ''acme'' ''bot''"
    using bind s1 dev parts rec(4) bot
    by (auto simp: createZNSNameBinding_def found_def name_held_by_other_def Let_def NowRFC3339_def split: prod.splits sum.splits)
  then have "fst (after_register sample_env 5 bot_request rec (set_store ?db ?s)) = BuildFQAN ''reg.example'' ''acme'' ''bot''"
    using rec(4) by (simp add: after_register_def Let_def s1_def bot_request_def)
  moreover have "default_url bot_request = bot_request" "or_default (rq_EntityType bot_request) ''agent'' \<in> set ValidEntityTypes"
    by (simp_all add: default_url_def bot_request_def or_default_def ValidEntityTypes_def)
  ultimately show ?thesis
    using that rec(1) c(1)
    by (cases "after_register sample_env 5 bot_request rec (set_store ?db ?s)")
      (simp add: handleRegisterEntity_def BuildFQAN_def)
qed

theorem registered_name_resolves_witness:
  "\<exists>s' resp s''. snd (handleRegisterEntity sample_env 5 (Some bot_request) (sample_server ''open'' acme_developers)) = s' \<and>
     handleResolveName sample_env ''acme'' ''bot'' s' = ((200, PResolve resp), s'') \<and>
     zrr_PublicKey resp = PublicKeyString (registry_kp 4) \<and> zrr_EntityURL resp = ''https://bot'' \<and> zrr_Status resp = ''active''"
proof -
  let ?s = "sample_server ''open'' acme_developers"
  obtain r where r: "dkey r = ''d''" "dv_handle r = Some ''acme''" "acme_developers = empty_db\<lparr>db_developers := [r]\<rparr>"
    by (rule acme_developers_row)
  have "db_inv acme_developers" unfolding acme_developers_def by (rule store.step_inv[OF empty_db_inv])
  then have inv: "node_inv (s_store ?s)" by (simp add: node_inv_def names_canonical_def r(3)) (simp add: empty_db_def)
  obtain flds fqan s' where b: "handleRegisterEntity sample_env 5 (Some bot_request) ?s = ((201, PFields flds), s')"
    "map_of flds ''fqan'' = Some fqan" by (rule bot_registered)
  have q: "rq_DeveloperID bot_request = ''d''" "rq_EntityName bot_request = ''bot''"
    "rq_PublicKey bot_request = PublicKeyString (registry_kp 4)" "rq_EntityURL (default_url bot_request) = ''https://bot''"
    by (simp_all add: bot_request_def default_url_def)
  have "GetDeveloper unix_time ''d'' acme_developers = Inr (Some (scanDeveloper unix_time r))"
    unfolding r(3) using r(1) by (simp add: GetDeveloper_def pool_Query_def)
  moreover have "dev_DevHandle (scanDeveloper unix_time r) = ''acme''" using r(2) by (simp add: scanDeveloper_def)
  ultimately show ?thesis using registered_name_resolves[OF inv b] b(1) unfolding q by auto
qed

theorem approved_developer_can_act_witness:
  "\<exists>kp s' d. GenerateKeypair toy_ed25519 (Some (replicate 32 5)) = Some kp \<and>
     snd (approve_route sample_env 5 (Some (replicate 32 5)) (\<lambda>key nonce p. rev p) (Some (replicate 12 7)) ''Bearer hush''
       (Some \<lparr>daq_Name = ''n'', daq_State = ''st'', daq_CallbackPort = 0, daq_Metadata = Map.empty\<rparr>)
       (sample_server ''restricted'' empty_db)) = s' \<and>
     fst (handleUpdateDeveloper sample_env 8 (GenerateDeveloperID (kp_PublicKey kp)) (Some [3])
       (''Bearer '' @ kp_Sign toy_ed25519 kp [3]) s') = (200, PDeveloper d)"
proof -
  let ?s = "sample_server ''restricted'' empty_db" and ?seed = "replicate 32 (5::byte)"
  let ?req = "\<lparr>daq_Name = ''n'', daq_State = ''st'', daq_CallbackPort = 0, daq_Metadata = Map.empty\<rparr>"
  let ?run = "approve_route sample_env 5 (Some ?seed) (\<lambda>key nonce p. rev p) (Some (replicate 12 7)) ''Bearer hush'' (Some ?req) ?s"
  obtain kp where kp: "GenerateKeypair toy_ed25519 (Some ?seed) = Some kp" by (simp add: GenerateKeypair_def)
  let ?id = "GenerateDeveloperID (kp_PublicKey kp)"
  let ?dev = "approved_developer sample_env 5 ?id ?req kp ''reg.example''"
  have "\<exists>db. CreateDeveloper unix_time ?dev empty_db = (Inr (), db)"
    using unix_time_parse[of 5]
    by (simp add: CreateDeveloper_def pool_Exec_def approved_developer_def NowRFC3339_def) (simp add: empty_db_def)
  then obtain db where c: "CreateDeveloper unix_time ?dev empty_db = (Inr (), db)" ..
  then obtain flds s' where run: "?run = ((201, PFields flds), s')" and f: "map_of flds ''developer_id'' = Some ?id"
    using kp by (simp add: approve_route_def WebhookAuth_def TrimPrefix_def HasPrefix_def handleApproveDeveloper_def Let_def)
  have "fst (handleUpdateDeveloper sample_env 8 ?id (Some [3]) (''Bearer '' @ kp_Sign toy_ed25519 kp [3]) s') = (200, PDeveloper d)
      \<Longrightarrow> ?thesis" for d
    using kp run by auto
  moreover have "\<exists>d. fst (handleUpdateDeveloper sample_env 8 ?id (Some [3]) (''Bearer '' @ kp_Sign toy_ed25519 kp [3]) s') = (200, PDeveloper d)"
    using approved_developer_can_act[of sample_env ?seed 8 "\<lambda>key nonce c. Some (rev c)" "\<lambda>key nonce p. rev p" "replicate 12 7" 5
        "''Bearer hush''" ?req ?s flds s' "[3]" "\<lparr>duq_Name = Some ''m'', duq_ProfileURL = None, duq_GitHub = None, duq_Signature = ''s''\<rparr>"]
      toy_ed25519_ok unix_time_parse[of 8] run kp f
    by (auto simp: SeedSize_def gcmNonceSize_def sample_env_def)
  ultimately show ?thesis by blast
qed

end
