(* ===== verification/Cli.thy ===== *)
theory Cli
  imports ApiHandles
begin

text \<open>
  The command line client (\<open>src/cmd/agentdns/main.go\<close>): how it reads its arguments and key files, which requests it
  builds and signs, and what it makes of the answers. The registry at \<open>localhost:8080\<close> is the server of
  \<open>Api\<close>: a command that reaches it runs the handler of the route. JSON carries the fields of a request unchanged, so a request
  is passed as a record; what is signed is \<open>json.Marshal\<close> of the same object as in the source.

  The home directory is a map from paths to file contents of an unknown type \<open>'w\<close>, with the (un)marshalling of key
  files as parameters, and random bytes are arguments.
\<close>

section \<open>Arguments\<close>

text \<open>The argument loops: a flag takes the next argument as its value and is ignored without one; a switch takes none;
  everything else is skipped.\<close>

fun parse_args :: "(string \<Rightarrow> (string \<Rightarrow> 'o \<Rightarrow> 'o) option) \<Rightarrow> (string \<Rightarrow> ('o \<Rightarrow> 'o) option) \<Rightarrow> string list \<Rightarrow> 'o \<Rightarrow> 'o" where
  "parse_args flag switch [] opts = opts"
| "parse_args flag switch (a # rest) opts =
     (case flag a of
        Some put \<Rightarrow> (case rest of [] \<Rightarrow> opts | b # rest' \<Rightarrow> parse_args flag switch rest' (put b opts))
      | None \<Rightarrow> (case switch a of Some put \<Rightarrow> parse_args flag switch rest (put opts) | None \<Rightarrow> parse_args flag switch rest opts))"

text \<open>\<open>fmt.Sscanf(s, "%d", &x)\<close> on a 64-bit \<open>int\<close>: \<^term>\<open>None\<close> leaves the variable alone.\<close>

definition digit_val :: "char \<Rightarrow> int" where
  "digit_val c = of_char c - 48"

definition scan_digits :: "string \<Rightarrow> int option" where
  "scan_digits s = (let ds = takeWhile (\<lambda>c. c \<in> set digits) s
     in if ds = '''' then None else Some (foldl (\<lambda>n c. 10 * n + digit_val c) 0 ds))"

definition Sscanf_d :: "string \<Rightarrow> int option" where
  "Sscanf_d s =
     (let s = dropWhile is_space s;
          (sign, s) = (case s of CHR ''-'' # r \<Rightarrow> (- 1, r) | CHR ''+'' # r \<Rightarrow> (1, r) | _ \<Rightarrow> (1, s))
      in case scan_digits s of
           None \<Rightarrow> None
         | Some n \<Rightarrow> let x = sign * n in if - (2 ^ 63) \<le> x \<and> x < 2 ^ 63 then Some x else None)"

fun split_comma :: "string \<Rightarrow> string \<Rightarrow> string list" where
  "split_comma [] acc = [rev acc]"
| "split_comma (c # cs) acc = (if c = CHR '','' then rev acc # split_comma cs [] else split_comma cs (c # acc))"

section \<open>Outcomes and files\<close>

datatype cli_outcome =
    C_usage
  | C_fatal string
  | C_info string
  | C_failed response
  | C_ok response

record 'w key_files =
  kf_unmarshal :: "'w \<Rightarrow> (string \<times> string) option"
  kf_marshal :: "string \<times> string \<Rightarrow> 'w option"
  kf_mkdir :: bool
  kf_write :: bool
  kf_home :: string

type_synonym 'w files = "string \<Rightarrow> 'w option"

definition developer_json :: "'w key_files \<Rightarrow> string" where "developer_json K = kf_home K @ ''/.zynd/developer.json''"
definition identity_json :: "'w key_files \<Rightarrow> string" where "identity_json K = kf_home K @ ''/.zynd/identity.json''"

definition load_key :: "'w key_files \<Rightarrow> 'w files \<Rightarrow> string \<Rightarrow> Keypair option" where
  "load_key K fs path = LoadKeypair (kf_unmarshal K) (fs path)"

definition save_key :: "'w key_files \<Rightarrow> Keypair \<Rightarrow> string \<Rightarrow> 'w files \<Rightarrow> bool \<times> 'w files" where
  "save_key K kp path fs =
     (case SaveKeypair (kf_marshal K) (kf_mkdir K) (kf_write K) kp of
        None \<Rightarrow> (False, fs)
      | Some data \<Rightarrow> (True, fs(path \<mapsto> data)))"

text \<open>The answer of a registry that is reached, judged by its status.\<close>

definition report :: "nat \<Rightarrow> response \<Rightarrow> cli_outcome" where
  "report ok resp = (if fst resp = ok then C_ok resp else C_failed resp)"

section \<open>Key pairs\<close>

definition cmdDevInit :: "ed25519 \<Rightarrow> 'w key_files \<Rightarrow> byte list option \<Rightarrow> 'w files \<Rightarrow> cli_outcome \<times> 'w files" where
  "cmdDevInit E K rand fs =
     (if fs (developer_json K) \<noteq> None then (C_info ''Developer keypair already exists'', fs)
      else if \<not> kf_mkdir K then (C_fatal ''failed to create directory'', fs)
      else case GenerateKeypair E rand of
             None \<Rightarrow> (C_fatal ''failed to generate developer keypair'', fs)
           | Some kp \<Rightarrow>
               (case save_key K kp (developer_json K) fs of
                  (False, fs) \<Rightarrow> (C_fatal ''failed to save developer keypair'', fs)
                | (True, fs) \<Rightarrow> (C_info (kp_DeveloperID kp), fs)))"

record derive_opts =
  dv_index :: int
  dv_save :: bool

definition derive_flag :: "string \<Rightarrow> (string \<Rightarrow> derive_opts \<Rightarrow> derive_opts) option" where
  "derive_flag a = (if a = ''--index'' then Some (\<lambda>b opts. case Sscanf_d b of None \<Rightarrow> opts | Some n \<Rightarrow> opts\<lparr>dv_index := n\<rparr>) else None)"

definition derive_switch :: "string \<Rightarrow> (derive_opts \<Rightarrow> derive_opts) option" where
  "derive_switch a = (if a = ''--save'' then Some (\<lambda>opts. opts\<lparr>dv_save := True\<rparr>) else None)"

text \<open>The proof is printed; \<open>agent_json\<close> is the name of the file for an index.\<close>

definition cmdDeriveAgent :: "ed25519 \<Rightarrow> (byte list \<Rightarrow> byte list) \<Rightarrow> 'w key_files \<Rightarrow> (int \<Rightarrow> string) \<Rightarrow> string list \<Rightarrow> 'w files \<Rightarrow>
    (cli_outcome + Keypair \<times> DeveloperProof) \<times> 'w files" where
  "cmdDeriveAgent E sha K agent_json args fs =
     (let opts = parse_args derive_flag derive_switch args \<lparr>dv_index = - 1, dv_save = False\<rparr>
      in if dv_index opts < 0 then (Inl C_usage, fs)
         else case load_key K fs (developer_json K) of
                None \<Rightarrow> (Inl (C_fatal ''failed to load developer keypair''), fs)
              | Some devKP \<Rightarrow>
                  (case DeriveAgentKeypair E sha (kp_PrivateKey devKP) (word_of_int (dv_index opts)) of
                     None \<Rightarrow> (Inl (C_fatal ''failed to derive agent keypair''), fs)
                   | Some agentKP \<Rightarrow>
                       (let (saved, fs) = (if dv_save opts then save_key K agentKP (agent_json (dv_index opts)) fs else (True, fs))
                        in if \<not> saved then (Inl (C_fatal ''failed to save agent keypair''), fs)
                           else (Inr (agentKP, CreateDerivationProof E devKP (kp_PublicKey agentKP) (word_of_int (dv_index opts))), fs))))"

section \<open>Registration of a developer\<close>

record devreg_opts =
  do_name :: string
  do_profileURL :: string
  do_github :: string
  do_handle :: string

definition devreg_flag :: "string \<Rightarrow> (string \<Rightarrow> devreg_opts \<Rightarrow> devreg_opts) option" where
  "devreg_flag a =
     (if a = ''--name'' then Some (\<lambda>b opts. opts\<lparr>do_name := b\<rparr>)
      else if a = ''--profile-url'' then Some (\<lambda>b opts. opts\<lparr>do_profileURL := b\<rparr>)
      else if a = ''--github'' then Some (\<lambda>b opts. opts\<lparr>do_github := b\<rparr>)
      else if a = ''--handle'' then Some (\<lambda>b opts. opts\<lparr>do_handle := b\<rparr>)
      else None)"

definition devreg_request :: "env \<Rightarrow> devreg_opts \<Rightarrow> Keypair \<Rightarrow> DeveloperRegistrationRequest" where
  "devreg_request v opts kp =
     (let signable = v_marshal v (JObj [(''name'', JStr (do_name opts)), (''public_key'', JStr (PublicKeyString kp)),
            (''profile_url'', JStr (do_profileURL opts)), (''github'', JStr (do_github opts))])
      in \<lparr>drq_Name = do_name opts, drq_PublicKey = PublicKeyString kp, drq_ProfileURL = do_profileURL opts,
          drq_GitHub = do_github opts, drq_Signature = kp_Sign (v_E v) kp signable, drq_Handle = do_handle opts\<rparr>)"

definition cmdDevRegister :: "env \<Rightarrow> 'w key_files \<Rightarrow> bool \<Rightarrow> int \<Rightarrow> string list \<Rightarrow> 'w files \<Rightarrow> Server \<Rightarrow> cli_outcome \<times> Server" where
  "cmdDevRegister v K reachable now args fs s =
     (let opts = parse_args devreg_flag (\<lambda>_. None) args \<lparr>do_name = '''', do_profileURL = '''', do_github = '''', do_handle = ''''\<rparr>
      in if do_name opts = '''' then (C_usage, s)
         else case load_key K fs (developer_json K) of
                None \<Rightarrow> (C_fatal ''failed to load developer keypair'', s)
              | Some kp \<Rightarrow>
                  if \<not> reachable then (C_fatal ''failed to connect to registry'', s)
                  else (let (resp, s) = handleRegisterDeveloper v now (Some (devreg_request v opts kp)) s in (report 201 resp, s)))"

section \<open>Claiming a handle\<close>

record claim_opts =
  co_handle :: string
  co_verifyDNS :: string
  co_verifyGitHub :: string

definition claim_flag :: "string \<Rightarrow> (string \<Rightarrow> claim_opts \<Rightarrow> claim_opts) option" where
  "claim_flag a =
     (if a = ''--handle'' then Some (\<lambda>b opts. opts\<lparr>co_handle := b\<rparr>)
      else if a = ''--verify-dns'' then Some (\<lambda>b opts. opts\<lparr>co_verifyDNS := b\<rparr>)
      else None)"

definition claim_switch :: "string \<Rightarrow> (claim_opts \<Rightarrow> claim_opts) option" where
  "claim_switch a = (if a = ''--verify-github'' then Some (\<lambda>opts. opts\<lparr>co_verifyGitHub := ''true''\<rparr>) else None)"

definition claim_request :: "env \<Rightarrow> string \<Rightarrow> Keypair \<Rightarrow> HandleClaimRequest" where
  "claim_request v handle devKP =
     (let signable = v_marshal v (JObj [(''handle'', JStr handle), (''developer_id'', JStr (kp_DeveloperID devKP)),
            (''public_key'', JStr (PublicKeyString devKP))])
      in \<lparr>hcq_Handle = handle, hcq_DeveloperID = kp_DeveloperID devKP, hcq_PublicKey = PublicKeyString devKP,
          hcq_Signature = kp_Sign (v_E v) devKP signable\<rparr>)"

text \<open>A handle that is claimed stays claimed when the verification that follows fails; the second outcome is that of the
  verification. \<open>reachable2\<close> tells whether the second request gets through.\<close>

definition cmdDevClaimHandle :: "env \<Rightarrow> 'w key_files \<Rightarrow> bool \<Rightarrow> bool \<Rightarrow> int \<Rightarrow> string list \<Rightarrow> 'w files \<Rightarrow> Server \<Rightarrow>
    cli_outcome \<times> cli_outcome option \<times> Server" where
  "cmdDevClaimHandle v K reachable reachable2 now args fs s =
     (let opts = parse_args claim_flag claim_switch args \<lparr>co_handle = '''', co_verifyDNS = '''', co_verifyGitHub = ''''\<rparr>
      in if co_handle opts = '''' then (C_usage, None, s)
         else case load_key K fs (developer_json K) of
                None \<Rightarrow> (C_fatal ''failed to load developer key'', None, s)
              | Some devKP \<Rightarrow>
                  if \<not> reachable then (C_fatal ''failed to connect to registry'', None, s)
                  else
                    (let (resp, s) = handleClaimHandle v now (Some (claim_request v (co_handle opts) devKP)) s
                     in if fst resp \<noteq> 201 then (C_failed resp, None, s)
                        else if co_verifyDNS opts \<noteq> '''' then
                          (if \<not> reachable2 then (C_ok resp, Some (C_info ''DNS verification request failed''), s)
                           else (let (vResp, s) = handleVerifyHandle v now (co_handle opts)
                                       (Some \<lparr>hvq_Method = ''dns'', hvq_Proof = co_verifyDNS opts\<rparr>) s
                                 in (C_ok resp, Some (report 200 vResp), s)))
                        else (C_ok resp, None, s)))"

section \<open>Registration of an entity\<close>

record register_opts =
  ro_name :: string
  ro_agentURL :: string
  ro_category :: string
  ro_tagsStr :: string
  ro_summary :: string
  ro_developerKeyPath :: string
  ro_agentIndex :: int
  ro_agentNameZNS :: string
  ro_versionZNS :: string

definition register_flag :: "string \<Rightarrow> (string \<Rightarrow> register_opts \<Rightarrow> register_opts) option" where
  "register_flag a =
     (if a = ''--name'' then Some (\<lambda>b opts. opts\<lparr>ro_name := b\<rparr>)
      else if a = ''--agent-url'' then Some (\<lambda>b opts. opts\<lparr>ro_agentURL := b\<rparr>)
      else if a = ''--category'' then Some (\<lambda>b opts. opts\<lparr>ro_category := b\<rparr>)
      else if a = ''--tags'' then Some (\<lambda>b opts. opts\<lparr>ro_tagsStr := b\<rparr>)
      else if a = ''--summary'' then Some (\<lambda>b opts. opts\<lparr>ro_summary := b\<rparr>)
      else if a = ''--developer-key'' then Some (\<lambda>b opts. opts\<lparr>ro_developerKeyPath := b\<rparr>)
      else if a = ''--agent-index'' then Some (\<lambda>b opts. case Sscanf_d b of None \<Rightarrow> opts | Some n \<Rightarrow> opts\<lparr>ro_agentIndex := n\<rparr>)
      else if a = ''--agent-name'' then Some (\<lambda>b opts. opts\<lparr>ro_agentNameZNS := b\<rparr>)
      else if a = ''--version'' then Some (\<lambda>b opts. opts\<lparr>ro_versionZNS := b\<rparr>)
      else None)"

definition no_opts :: register_opts where
  "no_opts = \<lparr>ro_name = '''', ro_agentURL = '''', ro_category = '''', ro_tagsStr = '''', ro_summary = '''',
     ro_developerKeyPath = '''', ro_agentIndex = - 1, ro_agentNameZNS = '''', ro_versionZNS = ''''\<rparr>"

definition tags_of :: "register_opts \<Rightarrow> string list" where
  "tags_of opts = (if ro_tagsStr opts \<noteq> '''' then map TrimSpace (split_comma (ro_tagsStr opts) []) else [])"

definition register_signable :: "register_opts \<Rightarrow> Keypair \<Rightarrow> json" where
  "register_signable opts agentKP = JObj [(''name'', JStr (ro_name opts)), (''entity_url'', JStr (ro_agentURL opts)),
     (''category'', JStr (ro_category opts)), (''tags'', JStrs (Some (tags_of opts))), (''summary'', JStr (ro_summary opts)),
     (''public_key'', JStr (PublicKeyString agentKP))]"

definition base_request :: "env \<Rightarrow> register_opts \<Rightarrow> Keypair \<Rightarrow> RegistrationRequest" where
  "base_request v opts agentKP = \<lparr>rq_Name = ro_name opts, rq_EntityURL = ro_agentURL opts, rq_Category = ro_category opts,
     rq_Tags = Some (tags_of opts), rq_Summary = ro_summary opts, rq_CapabilitySummary = None, rq_PublicKey = PublicKeyString agentKP,
     rq_Signature = kp_Sign (v_E v) agentKP (v_marshal v (register_signable opts agentKP)), rq_DeveloperID = '''',
     rq_DeveloperProof = None, rq_EntityName = '''', rq_Version = '''', rq_EntityType = '''', rq_ServiceEndpoint = '''',
     rq_OpenAPIURL = '''', rq_EntityPricing = None\<rparr>"

definition developer_request :: "env \<Rightarrow> register_opts \<Rightarrow> Keypair \<Rightarrow> Keypair \<Rightarrow> RegistrationRequest" where
  "developer_request v opts devKP agentKP = (base_request v opts agentKP)\<lparr>rq_DeveloperID := kp_DeveloperID devKP,
     rq_DeveloperProof := Some (CreateDerivationProof (v_E v) devKP (kp_PublicKey agentKP) (word_of_int (ro_agentIndex opts))),
     rq_EntityName := ro_agentNameZNS opts, rq_Version := ro_versionZNS opts\<rparr>"

definition register_request :: "env \<Rightarrow> (byte list \<Rightarrow> byte list) \<Rightarrow> 'w key_files \<Rightarrow> register_opts \<Rightarrow> 'w files \<Rightarrow> cli_outcome + RegistrationRequest" where
  "register_request v sha K opts fs =
     (if ro_name opts = '''' \<or> ro_agentURL opts = '''' \<or> ro_category opts = '''' then Inl C_usage
      else if ro_developerKeyPath opts \<noteq> '''' then
        (if ro_agentIndex opts < 0 then Inl (C_fatal ''--agent-index is required when using --developer-key'')
         else case load_key K fs (ro_developerKeyPath opts) of
                None \<Rightarrow> Inl (C_fatal ''failed to load developer key'')
              | Some devKP \<Rightarrow>
                  (case DeriveAgentKeypair (v_E v) sha (kp_PrivateKey devKP) (word_of_int (ro_agentIndex opts)) of
                     None \<Rightarrow> Inl (C_fatal ''failed to derive agent keypair'')
                   | Some agentKP \<Rightarrow> Inr (developer_request v opts devKP agentKP)))
      else case load_key K fs (identity_json K) of
             None \<Rightarrow> Inl (C_fatal ''failed to load identity'')
           | Some kp \<Rightarrow> Inr (base_request v opts kp))"

definition cmdRegister :: "env \<Rightarrow> (byte list \<Rightarrow> byte list) \<Rightarrow> 'w key_files \<Rightarrow> bool \<Rightarrow> int \<Rightarrow> string list \<Rightarrow> 'w files \<Rightarrow> Server \<Rightarrow> cli_outcome \<times> Server" where
  "cmdRegister v sha K reachable now args fs s =
     (case register_request v sha K (parse_args register_flag (\<lambda>_. None) args no_opts) fs of
        Inl c \<Rightarrow> (c, s)
      | Inr req \<Rightarrow>
          if \<not> reachable then (C_fatal ''failed to connect to registry'', s)
          else (let (resp, s) = handleRegisterEntity v now (Some req) s in (report 201 resp, s)))"

section \<open>Removal of an entity\<close>

text \<open>The argument becomes a part of the URL as it is; an id without characters of its own meaning arrives unchanged.\<close>

definition cmdDeregister :: "env \<Rightarrow> 'w key_files \<Rightarrow> bool \<Rightarrow> int \<Rightarrow> string list \<Rightarrow> 'w files \<Rightarrow> Server \<Rightarrow> cli_outcome \<times> Server" where
  "cmdDeregister v K reachable now args fs s =
     (case args of
        [] \<Rightarrow> (C_usage, s)
      | agentID # _ \<Rightarrow>
          (case load_key K fs (identity_json K) of
             None \<Rightarrow> (C_fatal ''failed to load identity'', s)
           | Some kp \<Rightarrow>
               if \<not> reachable then (C_fatal ''failed to connect to registry'', s)
               else (let (resp, s) = handleDeleteEntity v now agentID (''Bearer '' @ kp_Sign (v_E v) kp (string_bytes agentID)) s
                     in (report 200 resp, s))))"

section \<open>Login on a restricted registry\<close>

record callback =
  cb_state :: string
  cb_developer_id :: string
  cb_private_key_enc :: string

datatype callback_result = Cb_error string | Cb_panic | Cb_saved string

text \<open>The handler of the local callback server. \<open>privKey.Public()\<close> slices the key at byte 32 and panics on a shorter
  one; \<open>net/http\<close> recovers from the panic and the deferred \<open>close(doneCh)\<close> has run, without an error recorded.\<close>

definition auth_callback :: "ed25519 \<Rightarrow> (byte list \<Rightarrow> byte list \<Rightarrow> byte list \<Rightarrow> byte list option) \<Rightarrow> 'w key_files \<Rightarrow> string \<Rightarrow> callback \<Rightarrow> 'w files \<Rightarrow>
    callback_result \<times> 'w files" where
  "auth_callback E gcmOpen K state q fs =
     (if cb_state q \<noteq> state then (Cb_error ''state mismatch'', fs)
      else if cb_developer_id q = '''' \<or> cb_private_key_enc q = '''' then (Cb_error ''missing developer_id or private_key_enc in callback'', fs)
      else case DecryptPrivateKey gcmOpen (cb_private_key_enc q) state of
             None \<Rightarrow> (Cb_error ''failed to decrypt private key'', fs)
           | Some privateKeyB64 \<Rightarrow>
               (case b64_DecodeString privateKeyB64 of
                  None \<Rightarrow> (Cb_error ''failed to decode private key'', fs)
                | Some privKey \<Rightarrow>
                    if length privKey < 32 then (Cb_panic, fs)
                    else (let kp = \<lparr>kp_PublicKey = ed_Public E privKey, kp_PrivateKey = privKey,
                                kp_PublicKeyB64 = b64_EncodeToString (ed_Public E privKey), kp_PrivateKeyB64 = privateKeyB64\<rparr>
                          in case save_key K kp (developer_json K) fs of
                               (False, fs) \<Rightarrow> (Cb_error ''failed to save keypair'', fs)
                             | (True, fs) \<Rightarrow> (Cb_saved (cb_developer_id q), fs))))"

record login_opts =
  lo_registry :: string
  lo_name :: string

definition login_flag :: "string \<Rightarrow> (string \<Rightarrow> login_opts \<Rightarrow> login_opts) option" where
  "login_flag a =
     (if a = ''--registry'' then Some (\<lambda>b opts. opts\<lparr>lo_registry := b\<rparr>)
      else if a = ''--name'' then Some (\<lambda>b opts. opts\<lparr>lo_name := b\<rparr>)
      else None)"

text \<open>\<open>info\<close> is the answer of \<open>/v1/info\<close> (\<^term>\<open>None\<close>: no answer or not JSON) with the onboarding mode and
  the URL of the onboarding page, \<open>rand\<close> the random state, and \<open>q\<close> the first callback (\<^term>\<open>None\<close>: interrupted).\<close>

definition cmdAuthLogin :: "ed25519 \<Rightarrow> (byte list \<Rightarrow> byte list \<Rightarrow> byte list \<Rightarrow> byte list option) \<Rightarrow> 'w key_files \<Rightarrow> (string \<times> string) option option \<Rightarrow>
    byte list option \<Rightarrow> bool \<Rightarrow> callback option \<Rightarrow> string list \<Rightarrow> 'w files \<Rightarrow> cli_outcome \<times> 'w files" where
  "cmdAuthLogin E gcmOpen K info rand listens q args fs =
     (let opts = parse_args login_flag (\<lambda>_. None) args \<lparr>lo_registry = '''', lo_name = ''''\<rparr>
      in if lo_registry opts = '''' then (C_usage, fs)
         else case info of
                None \<Rightarrow> (C_fatal ''failed to connect to registry'', fs)
              | Some None \<Rightarrow> (C_info ''Registry is in open mode'', fs)
              | Some (Some (mode, authURL)) \<Rightarrow>
                  if mode = ''open'' then (C_info ''Registry is in open mode'', fs)
                  else if authURL = '''' then (C_fatal ''registry is in restricted mode but has no auth_url configured'', fs)
                  else case rand of
                         None \<Rightarrow> (C_fatal ''failed to generate state'', fs)
                       | Some stateBytes \<Rightarrow>
                           if \<not> listens then (C_fatal ''failed to start local server'', fs)
                           else case q of
                                  None \<Rightarrow> (C_info ''Cancelled.'', fs)
                                | Some q \<Rightarrow>
                                    (case auth_callback E gcmOpen K (hex_EncodeToString stateBytes) q fs of
                                       (Cb_error e, fs) \<Rightarrow> (C_fatal e, fs)
                                     | (Cb_panic, fs) \<Rightarrow> (C_info '''', fs)
                                     | (Cb_saved developerID, fs) \<Rightarrow> (C_info developerID, fs)))"

definition cmdOnboardingSetup :: "byte list option \<Rightarrow> cli_outcome" where
  "cmdOnboardingSetup rand =
     (case rand of None \<Rightarrow> C_fatal ''failed to generate secret'' | Some secretBytes \<Rightarrow> C_info (''whsec_'' @ hex_EncodeToString secretBytes))"

section \<open>A client and its registry\<close>

definition valid_opts :: "register_opts \<Rightarrow> bool" where
  "valid_opts opts = (ro_name opts \<noteq> '''' \<and> length (ro_name opts) \<le> 100 \<and> ro_agentURL opts \<noteq> '''' \<and> ro_category opts \<noteq> '''' \<and>
     length (ro_summary opts) \<le> 200 \<and> length (tags_of opts) \<le> 20)"

lemma entity_signable_cli [simp]: "entity_signable (developer_request v opts devKP agentKP) = register_signable opts agentKP"
  by (simp add: entity_signable_def developer_request_def base_request_def register_signable_def)

lemma derived_generated:
  assumes "DeriveAgentKeypair E sha priv i = Some kp" "\<And>x. length (sha x) = 64"
  shows "generated E kp"
  using assms unfolding DeriveAgentKeypair_def generated_def
  by (auto simp: Let_def SeedSize_def split: if_splits intro!: exI[of _ "take 32 (sha (derivation_input priv i))"])

lemma generated_keys:
  assumes "ed25519_ok E" "generated E kp"
  shows "kp_PublicKeyB64 kp = b64_EncodeToString (kp_PublicKey kp)" "PublicKeyString kp \<noteq> ''''" "kp_DeveloperID kp \<noteq> ''''"
  using assms(2) by (auto simp: generated_def keypair_of_def PublicKeyString_def kp_DeveloperID_def GenerateDeveloperID_def)

lemma cli_check_developer:
  assumes E: "ed25519_ok (v_E v)" and dev: "generated (v_E v) devKP" and agent: "generated (v_E v) agentKP"
    and key: "developer_key v (kp_DeveloperID devKP) db = Inr (PublicKeyString devKP)"
  shows "\<exists>proof. check_developer v (developer_request v opts devKP agentKP) db = Inr proof"
proof -
  let ?p = "CreateDerivationProof (v_E v) devKP (kp_PublicKey agentKP) (word_of_int (ro_agentIndex opts))"
  have "VerifyDerivationProof (v_E v) (Some ?p) (PublicKeyString agentKP) = Inr True"
    using VerifyDerivationProof_Create[OF E dev] generated_keys(1)[OF E agent] by (simp add: PublicKeyString_def)
  moreover have "dp_DeveloperPublicKey ?p = PublicKeyString devKP" by (simp add: CreateDerivationProof_def)
  ultimately show ?thesis
    using key generated_keys(3)[OF E dev]
    by (simp add: check_developer_def developer_request_def base_request_def signature_ok_def)
qed

lemma cli_registration_record:
  assumes E: "ed25519_ok (v_E v)" and dev: "generated (v_E v) devKP" and agent: "generated (v_E v) agentKP"
    and key: "developer_key v (kp_DeveloperID devKP) (s_store s) = Inr (PublicKeyString devKP)"
    and opts: "valid_opts opts"
    and enc: "CanonicalJSON (v_encode v) (register_signable opts agentKP) = Some (v_marshal v (register_signable opts agentKP))"
  obtains rec where "registration_record v now (developer_request v opts devKP agentKP) s = Inr rec" "rr_EntityID rec = kp_EntityID agentKP"
    "rr_RegisteredAt rec = tf_Format (v_T v) now" "rr_UpdatedAt rec = tf_Format (v_T v) now" "rr_Name rec = ro_name opts"
    "rr_EntityURL rec = ro_agentURL opts" "rr_PublicKey rec = PublicKeyString agentKP" "rr_DeveloperID rec = kp_DeveloperID devKP"
proof -
  let ?req = "developer_request v opts devKP agentKP"
  obtain p where p: "check_developer v ?req (s_store s) = Inr p" using cli_check_developer[OF E dev agent key] by blast
  define rec where "rec = entity_record v now (GenerateEntityID (kp_PublicKey agentKP) '''') ''agent'' ?req p (RegistryHost v (s_cfg s))"
  have flds: "rq_Name ?req = ro_name opts" "rq_EntityURL ?req = ro_agentURL opts" "rq_Category ?req = ro_category opts" "rq_EntityType ?req = ''''"
    "rq_Tags ?req = Some (tags_of opts)" "rq_Summary ?req = ro_summary opts" "rq_PublicKey ?req = PublicKeyString agentKP"
    "rq_Signature ?req = kp_Sign (v_E v) agentKP (v_marshal v (register_signable opts agentKP))" "rq_DeveloperID ?req = kp_DeveloperID devKP"
    by (simp_all add: developer_request_def base_request_def)
  have id: "rr_EntityID rec = kp_EntityID agentKP" "rr_EntityID rec \<noteq> ''''"
    by (simp_all add: rec_def entity_record_def GenerateEntityID_def kp_EntityID_def Let_def)
  have "rr_Validate rec = None"
    using opts id(2) generated_keys(2)[OF E agent] generated_keys(3)[OF E dev]
    by (simp add: rr_Validate_def rec_def entity_record_def flds valid_opts_def ValidEntityTypes_def set_if_def)
  moreover have "b64_DecodeString (kp_PublicKeyB64 agentKP) = Some (kp_PublicKey agentKP)" using generated_keys(1)[OF E agent] by simp
  moreover have "kp_Sign (v_E v) agentKP (v_marshal v (register_signable opts agentKP)) \<noteq> ''''" by (simp add: kp_Sign_def)
  ultimately have "registration_record v now ?req s = Inr rec"
    using p enc opts Verify_Sign[OF E agent] generated_keys(2)[OF E agent]
    unfolding registration_record_def Let_def entity_signable_cli flds
    by (simp add: signature_ok_def valid_opts_def rec_def or_default_def)
  then show ?thesis
    by (rule that) (simp_all add: id, simp_all add: rec_def entity_record_def flds NowRFC3339_def)
qed

lemma names_fault [simp]:
  "db_fault (snd (CreateZNSName T name db)) = db_fault db" "db_fault (snd (CreateZNSVersion T ver db)) = db_fault db"
  "db_fault (snd (UpdateZNSName T name db)) = db_fault db"
  by (auto simp: CreateZNSName_def CreateZNSVersion_def UpdateZNSName_def pool_Exec_def Let_def split: option.splits sum.splits if_splits)

lemma store_version_fault [simp]: "db_fault (s_store (store_version v now f ver e sg s)) = db_fault (s_store s)"
  by (simp add: store_version_def)

lemma create_name_fault: "CreateZNSName T name db = (r, db') \<Longrightarrow> db_fault db' = db_fault db"
  by (metis names_fault(1) snd_conv)

lemma bind_name_fault: "bind_name v now name s = (r, s') \<Longrightarrow> db_fault (s_store s') = db_fault (s_store s)"
  by (auto simp: bind_name_def Let_def dest: create_name_fault split: prod.splits sum.splits)

lemma after_register_fault:
  "db_fault (s_store (snd (after_register v now req rec s))) = db_fault (s_store s)"
  by (auto simp: after_register_def createZNSNameBinding_def Let_def dest!: bind_name_fault split: prod.splits sum.splits option.splits)

text \<open>An entity of a known developer is accepted if it is new, and stored under the id of its key.\<close>

lemma cli_entity_accepted:
  assumes E: "ed25519_ok (v_E v)" and dev: "generated (v_E v) devKP" and agent: "generated (v_E v) agentKP"
    and key: "developer_key v (kp_DeveloperID devKP) (s_store s) = Inr (PublicKeyString devKP)"
    and opts: "valid_opts opts"
    and enc: "CanonicalJSON (v_encode v) (register_signable opts agentKP) = Some (v_marshal v (register_signable opts agentKP))"
    and T: "tf_Parse (v_T v) (tf_Format (v_T v) now) = Some now"
    and new: "GetEntity (v_T v) (kp_EntityID agentKP) (s_store s) = Inr None"
  shows "\<exists>flds s' a. handleRegisterEntity v now (Some (developer_request v opts devKP agentKP)) s = ((201, PFields flds), s') \<and>
    map_of flds ''entity_id'' = Some (kp_EntityID agentKP) \<and>
    GetEntity (v_T v) (kp_EntityID agentKP) (s_store s') = Inr (Some a) \<and> rr_Name a = ro_name opts \<and>
    rr_EntityURL a = ro_agentURL opts \<and> rr_PublicKey a = PublicKeyString agentKP \<and> rr_DeveloperID a = kp_DeveloperID devKP"
proof -
  let ?req = "developer_request v opts devKP agentKP"
  obtain rec where rec: "registration_record v now ?req s = Inr rec" "rr_EntityID rec = kp_EntityID agentKP"
    "rr_RegisteredAt rec = tf_Format (v_T v) now" "rr_UpdatedAt rec = tf_Format (v_T v) now" "rr_Name rec = ro_name opts"
    "rr_EntityURL rec = ro_agentURL opts" "rr_PublicKey rec = PublicKeyString agentKP" "rr_DeveloperID rec = kp_DeveloperID devKP"
    by (rule cli_registration_record[OF E dev agent key opts enc])
  have free: "\<not> db_fault (s_store s)" "t_get ekey (kp_EntityID agentKP) (db_entities (s_store s)) = None"
    using new by (auto simp: GetEntity_def pool_Query_def split: if_splits)
  obtain db where c: "CreateAgent (v_T v) now rec (s_store s) = (Inr (), db)"
    using free rec(2-4) T by (simp add: CreateAgent_def pool_Exec_def t_insert_def Let_def)
  obtain a where a: "GetEntity (v_T v) (kp_EntityID agentKP) db = Inr (Some a)" "rr_Name a = ro_name opts"
    "rr_EntityURL a = ro_agentURL opts" "rr_PublicKey a = PublicKeyString agentKP" "rr_DeveloperID a = kp_DeveloperID devKP"
    by (rule CreateAgent_ok[OF c]) (simp add: stored_agent_def that rec)
  obtain fq s' where r: "after_register v now ?req rec (set_store db s) = (fq, s')" by (cases "after_register v now ?req rec (set_store db s)")
  have "db_entities (s_store s') = db_entities db" "db_fault (s_store s') = db_fault db"
    using after_register_entities[of v now ?req rec "set_store db s"] after_register_fault[of v now ?req rec "set_store db s"] r by simp_all
  then have "GetEntity (v_T v) (kp_EntityID agentKP) (s_store s') = Inr (Some a)" using a(1) by (auto simp: GetEntity_def pool_Query_def split: if_splits)
  moreover have "default_url ?req = ?req" "or_default (rq_EntityType ?req) ''agent'' \<in> set ValidEntityTypes"
    by (simp_all add: default_url_def developer_request_def base_request_def or_default_def ValidEntityTypes_def)
  moreover from this have "\<exists>flds. handleRegisterEntity v now (Some ?req) s = ((201, PFields flds), s') \<and> map_of flds ''entity_id'' = Some (kp_EntityID agentKP)"
    using rec(1,2) c r by (simp add: handleRegisterEntity_def)
  ultimately show ?thesis using a(2-5) by blast
qed

text \<open>A developer whose key is new is accepted on an open registry.\<close>

lemma cli_developer_accepted:
  assumes E: "ed25519_ok (v_E v)" and dev: "generated (v_E v) kp"
    and open_reg: "c_OnboardingMode (s_cfg s) \<noteq> ''restricted''"
    and opts: "do_name opts \<noteq> ''''" "length (do_name opts) \<le> 100" "do_handle opts = ''''"
    and T: "tf_Parse (v_T v) (tf_Format (v_T v) now) = Some now"
    and new: "\<not> db_fault (s_store s)" "\<forall>r\<in>set (db_developers (s_store s)). dkey r \<noteq> kp_DeveloperID kp \<and> dev_PublicKey (dv_rec r) \<noteq> PublicKeyString kp"
  shows "\<exists>flds s'. handleRegisterDeveloper v now (Some (devreg_request v opts kp)) s = ((201, PFields flds), s') \<and>
    map_of flds ''developer_id'' = Some (kp_DeveloperID kp) \<and>
    developer_key v (kp_DeveloperID kp) (s_store s') = Inr (PublicKeyString kp) \<and> db_entities (s_store s') = db_entities (s_store s) \<and>
    \<not> db_fault (s_store s')"
proof -
  let ?req = "devreg_request v opts kp"
  define d where "d = developer_record v now (kp_DeveloperID kp) ?req (RegistryHost v (s_cfg s))"
  have flds: "drq_Name ?req = do_name opts" "drq_PublicKey ?req = PublicKeyString kp" "drq_Handle ?req = ''''"
    "drq_Signature ?req = kp_Sign (v_E v) kp (v_marshal v (developer_signable ?req))"
    using opts(3) by (simp_all add: devreg_request_def developer_signable_def Let_def)
  have d: "dev_DeveloperID d = kp_DeveloperID kp" "dev_PublicKey d = PublicKeyString kp" "dev_RegisteredAt d = tf_Format (v_T v) now"
    "dev_UpdatedAt d = tf_Format (v_T v) now" "dev_DevHandle d = ''''"
    by (simp_all add: d_def developer_record_def flds NowRFC3339_def)
  have valid: "dev_Validate d = None"
    using opts generated_keys(2,3)[OF E dev] by (simp add: dev_Validate_def d_def developer_record_def flds)
  obtain db where c: "CreateDeveloper (v_T v) d (s_store s) = (Inr (), db)"
    using new T d by (auto simp: CreateDeveloper_def pool_Exec_def Let_def list_ex_iff handle_clash_def)
  obtain r where r: "GetDeveloper (v_T v) (kp_DeveloperID kp) db = Inr (Some (scanDeveloper (v_T v) r))"
    "dev_PublicKey (dv_rec r) = PublicKeyString kp" "db_entities db = db_entities (s_store s)" "\<not> db_fault db"
    by (rule CreateDeveloper_found[OF c]) (auto simp: d that)
  have "b64_DecodeString (kp_PublicKeyB64 kp) = Some (kp_PublicKey kp)" using generated_keys(1)[OF E dev] by simp
  then have "\<exists>flds s'. handleRegisterDeveloper v now (Some ?req) s = ((201, PFields flds), s') \<and>
      map_of flds ''developer_id'' = Some (kp_DeveloperID kp) \<and> s_store s' = db"
    using open_reg opts c valid generated_keys(2)[OF E dev] Verify_Sign[OF E dev]
    unfolding handleRegisterDeveloper_def Let_def
    by (simp add: flds signature_ok_def handle_refused_def d_def[unfolded kp_DeveloperID_def, symmetric] kp_DeveloperID_def)
  then show ?thesis using r by (auto simp: developer_key_def scanDeveloper_def)
qed

definition files_ok :: "'w key_files \<Rightarrow> bool" where
  "files_ok K = (kf_mkdir K \<and> kf_write K \<and> (\<forall>p. \<exists>w. kf_marshal K p = Some w \<and> kf_unmarshal K w = Some p))"

lemma save_load:
  assumes "files_ok K" "kp_PublicKeyB64 kp = b64_EncodeToString (kp_PublicKey kp)" "kp_PrivateKeyB64 kp = b64_EncodeToString (kp_PrivateKey kp)"
  shows "\<exists>fs'. save_key K kp path fs = (True, fs') \<and> load_key K fs' path = Some kp"
proof -
  obtain w where "kf_marshal K (kp_PublicKeyB64 kp, kp_PrivateKeyB64 kp) = Some w" "kf_unmarshal K w = Some (kp_PublicKeyB64 kp, kp_PrivateKeyB64 kp)"
    using assms(1) unfolding files_ok_def by blast
  then show ?thesis using assms by (simp add: save_key_def SaveKeypair_def load_key_def LoadKeypair_def files_ok_def)
qed

lemma dev_init_key:
  assumes K: "files_ok K" and seed: "length seed = SeedSize" and fs: "fs (developer_json K) = None"
  obtains kp fs' where "cmdDevInit E K (Some seed) fs = (C_info (kp_DeveloperID kp), fs')" "load_key K fs' (developer_json K) = Some kp"
    "generated E kp" "kp = keypair_of E (ed_NewKeyFromSeed E seed)"
proof -
  obtain kp where kp: "GenerateKeypair E (Some seed) = Some kp" by (simp add: GenerateKeypair_def)
  then have eq: "kp = keypair_of E (ed_NewKeyFromSeed E seed)" by (simp add: GenerateKeypair_def)
  then obtain fs' where f: "save_key K kp (developer_json K) fs = (True, fs')" "load_key K fs' (developer_json K) = Some kp"
    using save_load[OF K, of kp "developer_json K" fs] by (auto simp: keypair_of_def)
  show ?thesis
    by (rule that[OF _ f(2) generated_GenerateKeypair[OF kp seed] eq]) (use K fs kp f(1) in \<open>simp add: cmdDevInit_def files_ok_def\<close>)
qed

text \<open>What a developer signs is the same on both sides only if \<open>json.Marshal\<close> and the encoder without HTML escaping agree
  on it; they do on text without \<open><\<close>, \<open>>\<close> and \<open>&\<close>.\<close>

definition plain_payload :: "env \<Rightarrow> json \<Rightarrow> bool" where
  "plain_payload v x = (CanonicalJSON (v_encode v) x = Some (v_marshal v x))"


text \<open>Without \<open>--developer-key\<close> the command \<open>register\<close> never succeeds: whatever the arguments, the files and the state
  of the registry, the registry refuses the request, since it has no developer, and nothing changes.\<close>

theorem cli_register_needs_developer_key:
  assumes "ro_developerKeyPath (parse_args register_flag (\<lambda>_. None) args no_opts) = ''''"
  shows "(\<forall>resp. fst (cmdRegister v sha K reachable now args fs s) \<noteq> C_ok resp) \<and> snd (cmdRegister v sha K reachable now args fs s) = s"
proof -
  let ?opts = "parse_args register_flag (\<lambda>_. None) args no_opts"
  have "\<exists>resp. registration_record v now (default_url (base_request v ?opts kp)) s = Inl resp" for kp
  proof -
    have "rq_DeveloperProof (default_url (base_request v ?opts kp)) = None" by (simp add: default_url_def base_request_def)
    then show ?thesis unfolding registration_record_def Let_def by (auto simp: check_developer_def split: option.splits)
  qed
  then obtain no where no: "registration_record v now (default_url (base_request v ?opts kp)) s = Inl (no kp)" for kp by metis
  have "or_default (rq_EntityType (base_request v ?opts kp)) ''agent'' \<in> set ValidEntityTypes" for kp
    by (simp add: base_request_def or_default_def ValidEntityTypes_def)
  then have h: "handleRegisterEntity v now (Some (base_request v ?opts kp)) s = (no kp, s)" for kp
    using no by (simp add: handleRegisterEntity_def)
  have "fst (no kp) \<noteq> 201" for kp using registration_refused[OF no, of kp] by simp
  then show ?thesis
    using assms h by (auto simp: cmdRegister_def register_request_def report_def split: option.splits)
qed

section \<open>Restricted registries\<close>

lemma approve_stored:
  assumes E: "ed25519_ok (v_E v)" "length seed = SeedSize"
    and resp: "approve_route v now (Some seed) gcmSeal (Some nonce) auth (Some req) s = ((201, PFields flds), s')"
  obtains kp where "GenerateKeypair (v_E v) (Some seed) = Some kp" "map_of flds ''developer_id'' = Some (kp_DeveloperID kp)"
    "map_of flds ''private_key_enc'' = Some (EncryptPrivateKey gcmSeal nonce (kp_PrivateKeyB64 kp) (daq_State req))"
    "developer_key v (kp_DeveloperID kp) (s_store s') = Inr (PublicKeyString kp)" "db_entities (s_store s') = db_entities (s_store s)"
    "\<not> db_fault (s_store s')"
proof -
  obtain kp where kp: "GenerateKeypair (v_E v) (Some seed) = Some kp" by (simp add: GenerateKeypair_def)
  let ?id = "GenerateDeveloperID (kp_PublicKey kp)"
  let ?dev = "approved_developer v now ?id req kp (RegistryHost v (s_cfg s))"
  obtain db where c: "CreateDeveloper (v_T v) ?dev (s_store s) = (Inr (), db)" "s_store s' = db"
    "flds = [(''developer_id'', ?id), (''private_key_enc'', EncryptPrivateKey gcmSeal nonce (kp_PrivateKeyB64 kp) (daq_State req)),
       (''public_key'', PublicKeyString kp)]"
    using resp kp unfolding approve_route_def handleApproveDeveloper_def Let_def
    by (auto simp: writeError_def create_error_def WebhookAuth_def Let_def split: if_splits option.splits prod.splits sum.splits)
  have dev: "dev_DeveloperID ?dev = ?id" "dev_PublicKey ?dev = PublicKeyString kp" by (simp_all add: approved_developer_def)
  obtain r where r: "dev_PublicKey (dv_rec r) = PublicKeyString kp" "\<not> db_fault db" "db_entities db = db_entities (s_store s)"
    "GetDeveloper (v_T v) ?id db = Inr (Some (scanDeveloper (v_T v) r))"
    by (rule CreateDeveloper_found[OF c(1)]) (auto simp: dev that)
  show ?thesis
    by (rule that[OF kp]) (use c r in \<open>simp_all add: kp_DeveloperID_def developer_key_def scanDeveloper_def\<close>)
qed

text \<open>The callback stores the key that the registry made.\<close>

lemma login_stores_key:
  assumes E: "ed25519_ok E" "generated E kp" and K: "files_ok K"
    and aes: "\<And>key nonce plain. gcmOpen key nonce (gcmSeal key nonce plain) = Some plain" "length nonce = gcmNonceSize"
    and q: "cb_state q = state" "cb_developer_id q \<noteq> ''''" "cb_private_key_enc q = EncryptPrivateKey gcmSeal nonce (kp_PrivateKeyB64 kp) state"
  shows "\<exists>fs'. auth_callback E gcmOpen K state q fs = (Cb_saved (cb_developer_id q), fs') \<and> load_key K fs' (developer_json K) = Some kp"
proof -
  obtain seed where seed: "length seed = SeedSize" "kp = keypair_of E (ed_NewKeyFromSeed E seed)" using E(2) by (auto simp: generated_def)
  have len: "length (kp_PrivateKey kp) = 64" using ed25519_okD(1)[OF E(1) seed(1)] seed(2) by (simp add: keypair_of_def PrivateKeySize_def)
  have kp: "kp_PublicKey kp = ed_Public E (kp_PrivateKey kp)" "kp_PublicKeyB64 kp = b64_EncodeToString (ed_Public E (kp_PrivateKey kp))"
    "kp_PrivateKeyB64 kp = b64_EncodeToString (kp_PrivateKey kp)" using seed(2) by (simp_all add: keypair_of_def)
  have dec: "DecryptPrivateKey gcmOpen (cb_private_key_enc q) state = Some (kp_PrivateKeyB64 kp)"
    unfolding q(3) by (rule private_key_custody_roundtrip) (simp_all add: aes)
  have enc: "cb_private_key_enc q \<noteq> ''''"
    unfolding q(3) EncryptPrivateKey_def Let_def using aes(2) by (intro length_b64_nonempty) (auto simp: gcmNonceSize_def)
  have eq: "\<lparr>kp_PublicKey = ed_Public E (kp_PrivateKey kp), kp_PrivateKey = kp_PrivateKey kp,
      kp_PublicKeyB64 = b64_EncodeToString (ed_Public E (kp_PrivateKey kp)), kp_PrivateKeyB64 = kp_PrivateKeyB64 kp\<rparr> = kp"
    using kp by simp
  obtain fs' where f: "save_key K kp (developer_json K) fs = (True, fs')" "load_key K fs' (developer_json K) = Some kp"
    using save_load[OF K, of kp "developer_json K" fs] kp by auto
  have "b64_DecodeString (kp_PrivateKeyB64 kp) = Some (kp_PrivateKey kp)" using kp(3) by simp
  then have "auth_callback E gcmOpen K state q fs = (Cb_saved (cb_developer_id q), fs')"
    using q(1,2) enc dec len f(1) unfolding auth_callback_def Let_def by (simp add: eq)
  then show ?thesis using f(2) by blast
qed


section \<open>Concrete sessions\<close>

definition sample_files :: "(string \<times> string) key_files" where
  "sample_files = \<lparr>kf_unmarshal = Some, kf_marshal = Some, kf_mkdir = True, kf_write = True, kf_home = ''/h''\<rparr>"

definition sample_args :: "string list" where
  "sample_args = [''--name'', ''Bot'', ''--agent-url'', ''https://bot'', ''--category'', ''tools'', ''--tags'', ''a, b'',
     ''--developer-key'', ''/h/.zynd/developer.json'', ''--agent-index'', ''0'']"

definition sample_opts :: register_opts where
  "sample_opts = parse_args register_flag (\<lambda>_. None) sample_args no_opts"

lemma sample_opts_fields:
  "ro_name sample_opts = ''Bot''" "valid_opts sample_opts" "ro_developerKeyPath sample_opts = ''/h/.zynd/developer.json''" "ro_agentIndex sample_opts = 0"
  by code_simp+

lemma sample_files_ok: "files_ok sample_files" "developer_json sample_files = ''/h/.zynd/developer.json''"
  by (simp_all add: files_ok_def sample_files_def developer_json_def)

lemma sample_plain: "plain_payload sample_env x"
  by (simp add: plain_payload_def CanonicalJSON_def)


theorem cli_register_needs_developer_key_witness:
  "snd (cmdRegister sample_env (\<lambda>_. replicate 64 3) sample_files True 6 [''--name'', ''Bot'', ''--agent-url'', ''https://bot'', ''--category'', ''tools''] (\<lambda>_. None)
     (sample_server ''open'' empty_db)) = sample_server ''open'' empty_db"
proof -
  have "ro_developerKeyPath (parse_args register_flag (\<lambda>_. None) [''--name'', ''Bot'', ''--agent-url'', ''https://bot'', ''--category'', ''tools''] no_opts) = ''''"
    by code_simp
  from cli_register_needs_developer_key[OF this] show ?thesis by blast
qed


end
