(* ===== verification/Terms.thy ===== *)
theory Terms
  imports GoMap GoStrings Complex_Main
begin

text \<open>
  What the two keyword indexes of \<open>src/internal/search\<close> share: term frequencies (\<open>tf[term]++\<close>),
  the document frequencies that indexing increments and removal decrements, and the tokens of a
  compound word. The locale \<open>doc_freq\<close> is the contract of the incremental bookkeeping: whatever
  the terms of a document are, the table of document frequencies stays what a count over the current
  documents would give. \<open>map_at\<close> is Go's index expression on a map of numbers, zero for a
  missing key.
\<close>

section \<open>Operations\<close>

definition map_at :: "'k \<Rightarrow> ('k \<times> 'n::zero) list \<Rightarrow> 'n" where
  "map_at k m = (case map_get k m of None \<Rightarrow> 0 | Some n \<Rightarrow> n)"

definition incr :: "string \<Rightarrow> (string \<times> int) list \<Rightarrow> (string \<times> int) list" where
  "incr t m = map_set t (map_at t m + 1) m"

definition decr :: "string \<Rightarrow> (string \<times> int) list \<Rightarrow> (string \<times> int) list" where
  "decr t m = (let m' = map_set t (map_at t m - 1) m in if map_at t m' \<le> 0 then map_del t m' else m')"

definition count_terms :: "string list \<Rightarrow> (string \<times> int) list" where
  "count_terms terms = fold incr terms []"

definition df_add :: "string list \<Rightarrow> (string \<times> int) list \<Rightarrow> (string \<times> int) list" where
  "df_add terms df = fold incr terms df"

definition df_remove :: "string list \<Rightarrow> (string \<times> int) list \<Rightarrow> (string \<times> int) list" where
  "df_remove terms df = fold decr terms df"

text \<open>\<open>strings.FieldsFunc\<close> and the parts of a word with hyphens or underscores that the
  tokenizers add to it.\<close>

fun fieldsfunc_acc :: "(char \<Rightarrow> bool) \<Rightarrow> string \<Rightarrow> string \<Rightarrow> string list" where
  "fieldsfunc_acc P [] acc = (if acc = [] then [] else [rev acc])"
| "fieldsfunc_acc P (c # s) acc =
     (if P c then (if acc = [] then fieldsfunc_acc P s [] else rev acc # fieldsfunc_acc P s [])
      else fieldsfunc_acc P s (c # acc))"

definition FieldsFunc :: "(char \<Rightarrow> bool) \<Rightarrow> string \<Rightarrow> string list" where
  "FieldsFunc P s = fieldsfunc_acc P s []"

definition is_joiner :: "char \<Rightarrow> bool" where
  "is_joiner c = (c = CHR ''-'' \<or> c = CHR ''_'')"

definition compound_parts :: "string \<Rightarrow> string list" where
  "compound_parts full =
     (if list_ex is_joiner full then filter (\<lambda>part. part \<noteq> full \<and> length part \<ge> 2) (FieldsFunc is_joiner full) else [])"

fun str_Join :: "string list \<Rightarrow> string \<Rightarrow> string" where
  "str_Join [] sep = []"
| "str_Join [s] sep = s"
| "str_Join (s # ss) sep = s @ sep @ str_Join ss sep"

section \<open>Counting\<close>

lemma map_at_simps [simp]:
  "map_at k [] = 0"
  "map_at k (map_set k' v m) = (if k = k' then v else map_at k m)"
  by (simp_all add: map_at_def map_get_def[of k "[]"])

lemma map_at_del: "keys_distinct fst m \<Longrightarrow> map_at k (map_del k' m) = (if k = k' then 0 else map_at k m)"
  by (simp add: map_at_def map_get_del)

lemma keys_distinct_Nil [simp]: "keys_distinct key []"
  by (simp add: keys_distinct_def)

lemma keys_incr: "keys_distinct fst m \<Longrightarrow> keys_distinct fst (incr t m)"
  by (simp add: incr_def keys_distinct_map_ops)

lemma keys_fold_incr: "keys_distinct fst m \<Longrightarrow> keys_distinct fst (fold incr ts m)"
  by (induction ts arbitrary: m) (simp_all add: keys_incr)

lemma map_get_fold_incr:
  "map_get t (fold incr ts m) =
     (if t \<in> set ts then Some (map_at t m + int (count_list ts t)) else map_get t m)"
proof (induction ts arbitrary: m)
  case (Cons s ts)
  then show ?case by (auto simp: incr_def map_at_def)
qed simp

lemma count_terms_get:
  "map_get t (count_terms ts) = (if t \<in> set ts then Some (int (count_list ts t)) else None)"
  by (simp add: count_terms_def map_get_fold_incr) (simp add: map_get_def)

lemma count_terms_at [simp]: "map_at t (count_terms ts) = int (count_list ts t)"
  by (simp add: map_at_def count_terms_get)

lemma count_terms_keys: "keys_distinct fst (count_terms ts)"
  by (simp add: count_terms_def keys_fold_incr)

lemma count_terms_set: "set (map fst (count_terms ts)) = set ts"
proof (rule set_eqI)
  fix t
  show "t \<in> set (map fst (count_terms ts)) \<longleftrightarrow> t \<in> set ts"
    using map_get_keys[of t "count_terms ts"] by (simp add: count_terms_get split: if_splits)
qed

lemma decr_keys: "keys_distinct fst m \<Longrightarrow> keys_distinct fst (decr t m)"
  by (simp add: decr_def Let_def keys_distinct_map_ops)

lemma map_get_decr:
  assumes "keys_distinct fst m"
  shows "map_get k (decr t m) = (if k \<noteq> t then map_get k m
    else if map_at t m \<le> 1 then None else Some (map_at t m - 1))"
  using map_get_del[OF keys_distinct_map_ops(1)[OF assms, of t "map_at t m - 1"]]
  by (simp add: decr_def Let_def)

lemma fold_decr:
  "keys_distinct fst m \<Longrightarrow> distinct ts \<Longrightarrow>
   keys_distinct fst (fold decr ts m) \<and>
   map_get k (fold decr ts m) = (if k \<notin> set ts then map_get k m
     else if map_at k m \<le> 1 then None else Some (map_at k m - 1))"
proof (induction ts arbitrary: m)
  case (Cons t ts)
  note get = map_get_decr[OF Cons.prems(1), of k t]
  note rest = Cons.IH[OF decr_keys[OF Cons.prems(1)], of t]
  show ?case
  proof (cases "k = t")
    case True
    then have "k \<notin> set ts" using Cons.prems(2) by simp
    then show ?thesis using True rest get Cons.prems(2) by simp
  next
    case False
    then have "map_at k (decr t m) = map_at k m" using get by (simp add: map_at_def)
    then show ?thesis using False rest get Cons.prems(2) by simp
  qed
qed simp

lemma count_list_distinct: "distinct xs \<Longrightarrow> x \<in> set xs \<Longrightarrow> count_list xs x = 1"
  by (induction xs) (auto simp: count_notin)

section \<open>Document frequencies\<close>

text \<open>The documents as a finite map: how many of them have a term.\<close>

definition freq :: "('d \<Rightarrow> string list) \<Rightarrow> (string \<rightharpoonup> 'd) \<Rightarrow> string \<Rightarrow> nat" where
  "freq doc_terms D t = card {i \<in> dom D. t \<in> set (doc_terms (the (D i)))}"

definition df_exact :: "('d \<Rightarrow> string list) \<Rightarrow> (string \<rightharpoonup> 'd) \<Rightarrow> (string \<times> int) list \<Rightarrow> bool" where
  "df_exact doc_terms D df = (keys_distinct fst df \<and>
     (\<forall>t. map_get t df = (if freq doc_terms D t = 0 then None else Some (int (freq doc_terms D t)))))"

lemma freq_upd:
  assumes "finite (dom D)" "i \<notin> dom D"
  shows "freq f (D(i \<mapsto> d)) t = freq f D t + (if t \<in> set (f d) then 1 else 0)"
proof -
  have "{j \<in> dom (D(i \<mapsto> d)). t \<in> set (f (the ((D(i \<mapsto> d)) j)))} =
      {j \<in> dom D. t \<in> set (f (the (D j)))} \<union> (if t \<in> set (f d) then {i} else {})"
    using assms(2) by (auto simp: dom_def split: if_splits)
  then show ?thesis using assms by (simp add: freq_def)
qed

lemma freq_del:
  assumes "finite (dom D)" "D i = Some d"
  shows "freq f D t = freq f (D(i := None)) t + (if t \<in> set (f d) then 1 else 0)"
proof -
  have "D = (D(i := None))(i \<mapsto> d)" using assms(2) by auto
  then show ?thesis using freq_upd[of "D(i := None)" i f d t] assms(1) by simp
qed

locale doc_freq =
  fixes doc_terms :: "'d \<Rightarrow> string list" and ok :: "'d \<Rightarrow> bool"
  assumes distinct_terms: "ok d \<Longrightarrow> distinct (doc_terms d)"
begin

lemma df_add_exact:
  assumes "df_exact doc_terms D df" "finite (dom D)" "i \<notin> dom D" "ok d"
  shows "df_exact doc_terms (D(i \<mapsto> d)) (df_add (doc_terms d) df)"
proof -
  have "count_list (doc_terms d) t = 1" if "t \<in> set (doc_terms d)" for t
    using that distinct_terms[OF assms(4)] by (simp add: count_list_distinct)
  then show ?thesis
    using assms(1) freq_upd[OF assms(2,3), of doc_terms d]
    by (auto simp: df_exact_def df_add_def map_get_fold_incr keys_fold_incr map_at_def)
qed

lemma df_remove_exact:
  assumes "df_exact doc_terms D df" "finite (dom D)" "D i = Some d" "ok d"
  shows "df_exact doc_terms (D(i := None)) (df_remove (doc_terms d) df)"
  using assms(1) freq_del[OF assms(2,3), of doc_terms] fold_decr[OF _ distinct_terms[OF assms(4)], of df]
  by (auto simp: df_exact_def df_remove_def map_at_def)

text \<open>Storing a document replaces what was there.\<close>

lemma df_replace_exact:
  assumes "df_exact doc_terms D df" "finite (dom D)" "\<And>d. D i = Some d \<Longrightarrow> ok d" "ok new"
  shows "df_exact doc_terms (D(i \<mapsto> new))
    (df_add (doc_terms new) (case D i of None \<Rightarrow> df | Some old \<Rightarrow> df_remove (doc_terms old) df))"
proof (cases "D i")
  case None
  then show ?thesis using df_add_exact[OF assms(1,2) _ assms(4), of i] by (simp add: domIff)
next
  case (Some old)
  then have "df_exact doc_terms (D(i := None)) (df_remove (doc_terms old) df)"
    using df_remove_exact[OF assms(1,2)] assms(3) by simp
  then show ?thesis using df_add_exact[OF _ _ _ assms(4), of "D(i := None)" _ i] assms(2) Some by simp
qed

end

section \<open>Sums over the documents\<close>

lemma sum_docs:
  fixes f :: "'d \<Rightarrow> 'n :: comm_monoid_add"
  assumes "keys_distinct fst m"
  shows "sum_list (map (\<lambda>kv. f (snd kv)) m) = (\<Sum>k\<in>fst ` set m. f (the (map_get k m)))"
proof -
  have "sum_list (map (\<lambda>kv. f (snd kv)) m) = (\<Sum>kv\<in>set m. f (snd kv))"
    using assms by (simp add: keys_distinct_def distinct_map sum_list_distinct_conv_sum_set)
  also have "\<dots> = (\<Sum>kv\<in>set m. f (the (map_get (fst kv) m)))"
    using assms by (intro sum.cong) (auto simp: map_get_def dest!: t_get_unique)
  also have "\<dots> = (\<Sum>k\<in>fst ` set m. f (the (map_get k m)))"
    using assms by (simp add: sum.reindex keys_distinct_def distinct_map)
  finally show ?thesis .
qed

lemma length_docs: "keys_distinct fst m \<Longrightarrow> length m = card (fst ` set m)"
  unfolding keys_distinct_def by (metis distinct_card length_map set_map)

section \<open>Scores\<close>

text \<open>\<open>scores[id] += s\<close> for the documents that a term contributes to, and the ranked list made of the
  scores. The order in which \<open>range scores\<close> lists the keys is the argument \<open>ro\<close>, some
  reordering of them.\<close>

record KeywordResult =
  kr_DocID :: string
  kr_Score :: real

definition add_score :: "string \<Rightarrow> real \<Rightarrow> (string \<times> real) list \<Rightarrow> (string \<times> real) list" where
  "add_score i s scores = map_set i (map_at i scores + s) scores"

definition score_docs :: "('d \<Rightarrow> real option) \<Rightarrow> (string \<times> 'd) list \<Rightarrow> (string \<times> real) list \<Rightarrow> (string \<times> real) list" where
  "score_docs contrib docs scores =
     fold (\<lambda>(i, doc) scores. case contrib doc of None \<Rightarrow> scores | Some s \<Rightarrow> add_score i s scores) docs scores"

definition by_score :: "KeywordResult \<Rightarrow> KeywordResult \<Rightarrow> bool" where
  "by_score a b = (kr_Score a > kr_Score b)"

definition rank_scores :: "(string list \<Rightarrow> string list) \<Rightarrow> int \<Rightarrow> (string \<times> real) list \<Rightarrow> KeywordResult list" where
  "rank_scores ro maxResults scores =
     (let results = sort_Slice by_score
            (map (\<lambda>i. \<lparr>kr_DocID = i, kr_Score = map_at i scores\<rparr>) (ro (map fst scores)))
      in if maxResults > 0 \<and> int (length results) > maxResults then take (nat maxResults) results else results)"

interpretation ranked: slice_key by_score "\<lambda>r. - kr_Score r"
  by unfold_locales (auto simp: by_score_def)

lemma add_score_keys: "keys_distinct fst sc \<Longrightarrow> keys_distinct fst (add_score i s sc)"
  by (simp add: add_score_def keys_distinct_map_ops)

lemma score_docs_Cons [simp]:
  "score_docs g ((i, d) # docs) sc = score_docs g docs (case g d of None \<Rightarrow> sc | Some s \<Rightarrow> add_score i s sc)"
  "score_docs g [] sc = sc"
  by (simp_all add: score_docs_def)

lemma score_docs_keys: "keys_distinct fst sc \<Longrightarrow> keys_distinct fst (score_docs g docs sc)"
proof (induction docs arbitrary: sc)
  case (Cons kd docs)
  then show ?case by (cases kd) (simp add: add_score_keys split: option.splits)
qed simp

lemma map_get_Cons [simp]: "map_get k (kv # m) = (if fst kv = k then Some (snd kv) else map_get k m)"
  by (simp add: map_get_def)

lemma map_get_Nil [simp]: "map_get k [] = None"
  by (simp add: map_get_def)

lemma score_docs_get:
  "keys_distinct fst docs \<Longrightarrow>
   map_get i (score_docs g docs sc) = (case map_get i docs of
       None \<Rightarrow> map_get i sc
     | Some d \<Rightarrow> (case g d of None \<Rightarrow> map_get i sc | Some s \<Rightarrow> Some (map_at i sc + s)))"
proof (induction docs arbitrary: sc)
  case (Cons kd docs)
  obtain j d where kd: "kd = (j, d)" by (cases kd)
  have docs: "keys_distinct fst docs" "map_get j docs = None"
    using Cons.prems kd map_get_keys[of j docs] by (auto simp: keys_distinct_def)
  show ?case
    using Cons.IH[OF docs(1)] docs(2) kd by (auto simp: add_score_def map_at_def split: option.splits)
qed simp

lemma score_terms_get:
  assumes "keys_distinct fst docs"
  shows "map_get i (fold (\<lambda>q sc. score_docs (g q) docs sc) qs sc) = (case map_get i docs of
       None \<Rightarrow> map_get i sc
     | Some d \<Rightarrow> if \<forall>q\<in>set qs. g q d = None then map_get i sc
                 else Some (map_at i sc + (\<Sum>q\<leftarrow>qs. case g q d of None \<Rightarrow> 0 | Some s \<Rightarrow> s)))"
proof (induction qs arbitrary: sc)
  case Nil
  then show ?case by (simp split: option.splits)
next
  case (Cons q qs)
  let ?sc = "score_docs (g q) docs sc"
  show ?case
  proof (cases "map_get i docs")
    case None
    then show ?thesis using Cons.IH[of ?sc] score_docs_get[OF assms, of i "g q" sc] by simp
  next
    case (Some d)
    have sc: "map_get i ?sc = (case g q d of None \<Rightarrow> map_get i sc | Some s \<Rightarrow> Some (map_at i sc + s))"
      using score_docs_get[OF assms, of i "g q" sc] Some by simp
    have zero: "(\<Sum>q\<leftarrow>qs. case g q d of None \<Rightarrow> 0 | Some s \<Rightarrow> s) = 0" if "\<forall>q\<in>set qs. g q d = None"
      using that by (induction qs) auto
    show ?thesis
      using Cons.IH[of ?sc] Some sc zero by (cases "g q d") (auto simp: map_at_def)
  qed
qed

lemma score_terms_keys:
  "keys_distinct fst sc \<Longrightarrow> keys_distinct fst (fold (\<lambda>q sc. score_docs (g q) docs sc) qs sc)"
  by (induction qs arbitrary: sc) (simp_all add: score_docs_keys)

lemma score_docs_None: "\<forall>kd\<in>set docs. g (snd kd) = None \<Longrightarrow> score_docs g docs sc = sc"
proof (induction docs arbitrary: sc)
  case (Cons kd docs)
  then show ?case by (cases kd) simp
qed simp

text \<open>The ranked list: every scored document once, the best first, cut off at the limit.\<close>

lemma rank_scores_correct:
  assumes "keys_distinct fst scores" "mset (ro (map fst scores)) = mset (map fst scores)"
  shows "set (rank_scores ro 0 scores) = {\<lparr>kr_DocID = i, kr_Score = s\<rparr> | i s. map_get i scores = Some s}"
    "distinct (map kr_DocID (rank_scores ro 0 scores))"
    "sorted_wrt (\<lambda>a b. kr_Score b \<le> kr_Score a) (rank_scores ro 0 scores)"
    "rank_scores ro maxResults scores =
       (if maxResults > 0 then take (nat maxResults) (rank_scores ro 0 scores) else rank_scores ro 0 scores)"
proof -
  have keys: "set (ro (map fst scores)) = fst ` set scores" "distinct (ro (map fst scores))"
    using assms by (metis set_mset_mset set_map, metis keys_distinct_def mset_eq_imp_distinct_iff)
  have "(i \<in> fst ` set scores \<and> s = map_at i scores) = (map_get i scores = Some s)" for i s
    using map_get_keys[of i scores] by (auto simp: map_at_def)
  then have "(\<lambda>i. \<lparr>kr_DocID = i, kr_Score = map_at i scores\<rparr>) ` (fst ` set scores) =
      {\<lparr>kr_DocID = i, kr_Score = s\<rparr> | i s. map_get i scores = Some s}"
    unfolding image_def[of _ "fst ` set scores"] by blast
  then show "set (rank_scores ro 0 scores) = {\<lparr>kr_DocID = i, kr_Score = s\<rparr> | i s. map_get i scores = Some s}"
    using keys(1) by (simp add: rank_scores_def)
  show "distinct (map kr_DocID (rank_scores ro 0 scores))"
    using keys(2) by (simp add: rank_scores_def comp_def)
  show "sorted_wrt (\<lambda>a b. kr_Score b \<le> kr_Score a) (rank_scores ro 0 scores)"
    using ranked.sorted_by_sort_Slice by (simp add: rank_scores_def ranked.sorted_by_def by_score_def not_less)
  show "rank_scores ro maxResults scores =
       (if maxResults > 0 then take (nat maxResults) (rank_scores ro 0 scores) else rank_scores ro 0 scores)"
    by (auto simp: rank_scores_def Let_def)
qed

end
