(* ===== verification/Keyword.thy ===== *)
theory Keyword
  imports Terms
begin

text \<open>
  The BM25 keyword index (\<open>src/internal/search/keyword.go\<close>). The index is maintained
  incrementally: document frequencies are counted up and down as documents come and go. The theory shows
  that it always answers as BM25 computed from scratch over the documents that are indexed, the
  specification being a finite map from identifiers to token lists. A \<open>float64\<close> is a real number.
\<close>

section \<open>Tokens\<close>

definition kw_char :: "char \<Rightarrow> bool" where
  "kw_char c = (let b = (of_char c :: nat) in
     97 \<le> b \<and> b \<le> 122 \<or> 48 \<le> b \<and> b \<le> 57 \<or> c = CHR ''-'' \<or> c = CHR ''_'')"

definition kw_flush :: "string \<Rightarrow> string list \<Rightarrow> string list" where
  "kw_flush current terms = (if length current < 2 then terms else terms @ current # compound_parts current)"

fun kw_loop :: "string \<Rightarrow> string \<Rightarrow> string list \<Rightarrow> string list" where
  "kw_loop [] current terms = kw_flush current terms"
| "kw_loop (c # text) current terms =
     (if kw_char c then kw_loop text (current @ [c]) terms else kw_loop text [] (kw_flush current terms))"

definition kw_tokenize :: "string \<Rightarrow> string list" where
  "kw_tokenize text = kw_loop text [] []"

section \<open>The index\<close>

record Document =
  doc_ID :: string
  doc_Name :: string
  doc_Summary :: string
  doc_Tags :: "string list"
  doc_Category :: string
  doc_text :: string
  doc_terms :: "(string \<times> int) list"
  doc_length :: nat

record KeywordIndex =
  ki_docs :: "(string \<times> Document) list"
  ki_df :: "(string \<times> int) list"
  ki_avgDocLen :: real
  ki_docCount :: int

definition NewKeywordIndex :: KeywordIndex where
  "NewKeywordIndex = \<lparr>ki_docs = [], ki_df = [], ki_avgDocLen = 0, ki_docCount = 0\<rparr>"

definition combined_text :: "string \<Rightarrow> string \<Rightarrow> string \<Rightarrow> string list \<Rightarrow> string" where
  "combined_text name summary category tags =
     str_Join ([ToLower name, ToLower summary, ToLower category] @ map ToLower tags) '' ''"

definition new_document :: "string \<Rightarrow> string \<Rightarrow> string \<Rightarrow> string \<Rightarrow> string list \<Rightarrow> Document" where
  "new_document did name summary category tags =
     (let text = combined_text name summary category tags; terms = kw_tokenize text
      in \<lparr>doc_ID = did, doc_Name = name, doc_Summary = summary, doc_Tags = tags, doc_Category = category,
          doc_text = text, doc_terms = count_terms terms, doc_length = length terms\<rparr>)"

definition term_keys :: "Document \<Rightarrow> string list" where
  "term_keys doc = map fst (doc_terms doc)"

definition total_len :: "(string \<times> Document) list \<Rightarrow> nat" where
  "total_len docs = sum_list (map (\<lambda>kd. doc_length (snd kd)) docs)"

definition kw_IndexDocument :: "string \<Rightarrow> string \<Rightarrow> string \<Rightarrow> string \<Rightarrow> string list \<Rightarrow> KeywordIndex \<Rightarrow> KeywordIndex" where
  "kw_IndexDocument did name summary category tags idx =
     (let idx = (case map_get did (ki_docs idx) of
            None \<Rightarrow> idx
          | Some oldDoc \<Rightarrow> idx\<lparr>ki_df := df_remove (term_keys oldDoc) (ki_df idx), ki_docCount := ki_docCount idx - 1\<rparr>);
          doc = new_document did name summary category tags;
          docs = map_set did doc (ki_docs idx);
          docCount = ki_docCount idx + 1
      in idx\<lparr>ki_docs := docs, ki_docCount := docCount, ki_df := df_add (term_keys doc) (ki_df idx),
             ki_avgDocLen := (if docCount > 0 then real (total_len docs) / real_of_int docCount else ki_avgDocLen idx)\<rparr>)"

definition kw_RemoveDocument :: "string \<Rightarrow> KeywordIndex \<Rightarrow> KeywordIndex" where
  "kw_RemoveDocument did idx =
     (case map_get did (ki_docs idx) of
        None \<Rightarrow> idx
      | Some doc \<Rightarrow>
          (let docs = map_del did (ki_docs idx); docCount = ki_docCount idx - 1
           in idx\<lparr>ki_df := df_remove (term_keys doc) (ki_df idx), ki_docs := docs, ki_docCount := docCount,
                  ki_avgDocLen := (if docCount > 0 then real (total_len docs) / real_of_int docCount else 0)\<rparr>))"

definition kw_Count :: "KeywordIndex \<Rightarrow> int" where
  "kw_Count idx = ki_docCount idx"

definition bm25K1 :: real where "bm25K1 = 6 / 5"
definition bm25B :: real where "bm25B = 3 / 4"

definition bm25_idf :: "real \<Rightarrow> real \<Rightarrow> real" where
  "bm25_idf docCount docFreq = ln ((docCount - docFreq + 1 / 2) / (docFreq + 1 / 2) + 1)"

definition bm25_term :: "real \<Rightarrow> real \<Rightarrow> real \<Rightarrow> real \<Rightarrow> real" where
  "bm25_term idf tf docLen avgDocLen =
     idf * (tf * (bm25K1 + 1)) / (tf + bm25K1 * (1 - bm25B + bm25B * docLen / avgDocLen))"

definition kw_contrib :: "KeywordIndex \<Rightarrow> int \<Rightarrow> string \<Rightarrow> Document \<Rightarrow> real option" where
  "kw_contrib idx docFreq qTerm doc =
     (let termFreq = map_at qTerm (doc_terms doc)
      in if termFreq = 0 then None
         else Some (bm25_term (bm25_idf (real_of_int (ki_docCount idx)) (real_of_int docFreq))
                (real_of_int termFreq) (real (doc_length doc)) (ki_avgDocLen idx)))"

definition kw_score_term :: "KeywordIndex \<Rightarrow> string \<Rightarrow> (string \<times> real) list \<Rightarrow> (string \<times> real) list" where
  "kw_score_term idx qTerm scores =
     (case map_get qTerm (ki_df idx) of
        None \<Rightarrow> scores
      | Some docFreq \<Rightarrow> score_docs (kw_contrib idx docFreq qTerm) (ki_docs idx) scores)"

definition kw_Search :: "(string list \<Rightarrow> string list) \<Rightarrow> string \<Rightarrow> int \<Rightarrow> KeywordIndex \<Rightarrow> KeywordResult list" where
  "kw_Search ro query maxResults idx =
     (let queryTerms = kw_tokenize (ToLower query)
      in if ki_docCount idx = 0 then []
         else if queryTerms = [] then []
         else rank_scores ro maxResults (fold (kw_score_term idx) queryTerms []))"

section \<open>Specification: BM25 over the current documents\<close>

datatype kw_op =
    Index_doc string string string string "string list"
  | Remove_doc string

fun kw_step :: "kw_op \<Rightarrow> KeywordIndex \<Rightarrow> KeywordIndex" where
  "kw_step (Index_doc did name summary category tags) idx = kw_IndexDocument did name summary category tags idx"
| "kw_step (Remove_doc did) idx = kw_RemoveDocument did idx"

text \<open>The documents after a sequence of operations, each as the list of its tokens.\<close>

fun kw_spec :: "kw_op \<Rightarrow> (string \<rightharpoonup> string list) \<Rightarrow> (string \<rightharpoonup> string list)" where
  "kw_spec (Index_doc did name summary category tags) D = D(did \<mapsto> kw_tokenize (combined_text name summary category tags))"
| "kw_spec (Remove_doc did) D = D(did := None)"

definition avg_len :: "(string \<rightharpoonup> string list) \<Rightarrow> real" where
  "avg_len D = real (\<Sum>i\<in>dom D. length (the (D i))) / real (card (dom D))"

definition bm25_score :: "(string \<rightharpoonup> string list) \<Rightarrow> string \<Rightarrow> string list \<Rightarrow> real" where
  "bm25_score D q tokens =
     (if q \<in> set tokens then
        bm25_term (bm25_idf (real (card (dom D))) (real (freq (\<lambda>ts. ts) D q)))
          (real (count_list tokens q)) (real (length tokens)) (avg_len D)
      else 0)"

definition bm25 :: "(string \<rightharpoonup> string list) \<Rightarrow> string list \<Rightarrow> string list \<Rightarrow> real" where
  "bm25 D qs tokens = (\<Sum>q\<leftarrow>qs. bm25_score D q tokens)"

section \<open>The index is exact\<close>

definition doc_tokens :: "Document \<Rightarrow> string list" where
  "doc_tokens doc = kw_tokenize (doc_text doc)"

definition doc_ok :: "Document \<Rightarrow> bool" where
  "doc_ok doc = (doc_terms doc = count_terms (doc_tokens doc) \<and> doc_length doc = length (doc_tokens doc))"

definition kw_inv :: "KeywordIndex \<Rightarrow> bool" where
  "kw_inv idx = (keys_distinct fst (ki_docs idx) \<and> (\<forall>i d. map_get i (ki_docs idx) = Some d \<longrightarrow> doc_ok d) \<and>
     df_exact term_keys (\<lambda>i. map_get i (ki_docs idx)) (ki_df idx) \<and>
     ki_docCount idx = int (length (ki_docs idx)) \<and>
     (ki_docs idx \<noteq> [] \<longrightarrow> ki_avgDocLen idx = real (total_len (ki_docs idx)) / real (length (ki_docs idx))))"

definition kw_abs :: "KeywordIndex \<Rightarrow> (string \<rightharpoonup> string list)" where
  "kw_abs idx i = map_option doc_tokens (map_get i (ki_docs idx))"

interpretation kw_df: doc_freq term_keys doc_ok
  by unfold_locales (use count_terms_keys in \<open>simp add: doc_ok_def term_keys_def keys_distinct_def\<close>)

lemma new_document_ok [simp]:
  "doc_ok (new_document did name summary category tags)"
  "doc_tokens (new_document did name summary category tags) = kw_tokenize (combined_text name summary category tags)"
  by (simp_all add: doc_ok_def doc_tokens_def new_document_def Let_def)

lemma map_get_set_fun: "(\<lambda>i. map_get i (map_set k v m)) = (\<lambda>i. map_get i m)(k \<mapsto> v)"
  by auto

lemma map_get_del_fun: "keys_distinct fst m \<Longrightarrow> (\<lambda>i. map_get i (map_del k m)) = (\<lambda>i. map_get i m)(k := None)"
  by (auto simp: map_get_del)

lemma map_set_not_Nil [simp]: "map_set k v m \<noteq> []"
  using keys_map_set[of k v m] by auto

lemma length_map_set_get: "length (map_set k v m) = (case map_get k m of None \<Rightarrow> Suc (length m) | Some _ \<Rightarrow> length m)"
  using length_map_set[of k v m] map_get_keys[of k m] by (auto split: option.splits)

lemma kw_IndexDocument_inv:
  assumes "kw_inv idx"
  shows "kw_inv (kw_IndexDocument did name summary category tags idx)"
proof -
  let ?doc = "new_document did name summary category tags"
  let ?M = "\<lambda>i. map_get i (ki_docs idx)"
  have inv: "keys_distinct fst (ki_docs idx)" "df_exact term_keys ?M (ki_df idx)"
    "\<And>i d. ?M i = Some d \<Longrightarrow> doc_ok d" "ki_docCount idx = int (length (ki_docs idx))"
    using assms by (auto simp: kw_inv_def)
  have "finite (dom ?M)" by (simp add: map_get_dom)
  then have df: "df_exact term_keys (?M(did \<mapsto> ?doc))
      (df_add (term_keys ?doc) (case ?M did of None \<Rightarrow> ki_df idx | Some old \<Rightarrow> df_remove (term_keys old) (ki_df idx)))"
    using kw_df.df_replace_exact[OF inv(2), of did ?doc] inv(3) by simp
  have keys: "keys_distinct fst (map_set did ?doc (ki_docs idx))"
    using inv(1) by (rule keys_distinct_map_ops)
  show ?thesis
    using df keys inv(3,4)
    by (cases "?M did") (auto simp: kw_inv_def kw_IndexDocument_def Let_def fun_upd_def length_map_set_get
        cong: if_cong split: if_splits)
qed

lemma kw_RemoveDocument_inv:
  assumes "kw_inv idx"
  shows "kw_inv (kw_RemoveDocument did idx)"
proof (cases "map_get did (ki_docs idx)")
  case None
  then show ?thesis using assms by (simp add: kw_RemoveDocument_def)
next
  case (Some doc)
  let ?M = "\<lambda>i. map_get i (ki_docs idx)"
  have inv: "keys_distinct fst (ki_docs idx)" "df_exact term_keys ?M (ki_df idx)"
    "\<And>i d. ?M i = Some d \<Longrightarrow> doc_ok d" "ki_docCount idx = int (length (ki_docs idx))"
    using assms by (auto simp: kw_inv_def)
  have "df_exact term_keys (?M(did := None)) (df_remove (term_keys doc) (ki_df idx))"
    using kw_df.df_remove_exact[OF inv(2), of did doc] inv(3) Some by (simp add: map_get_dom)
  moreover have "Suc (length (map_del did (ki_docs idx))) = length (ki_docs idx)"
    using length_map_del[OF inv(1), of did] map_get_keys[of did "ki_docs idx"] Some by simp
  ultimately show ?thesis
    using inv Some keys_distinct_map_ops(2)[OF inv(1), of did]
    by (auto simp: kw_inv_def kw_RemoveDocument_def Let_def map_get_del fun_upd_def simp flip: length_greater_0_conv
        split: if_splits)
qed

lemma kw_step_inv: "kw_inv idx \<Longrightarrow> kw_inv (kw_step op idx)"
  using kw_IndexDocument_inv kw_RemoveDocument_inv by (cases op) simp_all

lemma kw_step_abs: "kw_inv idx \<Longrightarrow> kw_abs (kw_step op idx) = kw_spec op (kw_abs idx)"
  by (cases op) (auto simp: kw_abs_def kw_inv_def kw_IndexDocument_def kw_RemoveDocument_def Let_def map_get_del
      split: option.splits)

interpretation kw: invariant_machine kw_step kw_inv
  by unfold_locales (rule kw_step_inv)

lemma kw_run_abs: "kw_inv idx \<Longrightarrow> kw_abs (fold kw_step ops idx) = fold kw_spec ops (kw_abs idx)"
  by (induction ops arbitrary: idx) (simp_all add: kw_step_inv kw_step_abs)

lemma kw_New: "kw_inv NewKeywordIndex" "kw_abs NewKeywordIndex = Map.empty"
  by (auto simp: kw_inv_def kw_abs_def NewKeywordIndex_def df_exact_def freq_def)

section \<open>Search is BM25\<close>

lemma kw_inv_docs:
  assumes "kw_inv idx" "kd \<in> set (ki_docs idx)"
  shows "map_get (fst kd) (ki_docs idx) = Some (snd kd)" "doc_ok (snd kd)"
proof -
  show "map_get (fst kd) (ki_docs idx) = Some (snd kd)"
    using assms t_get_unique[of fst "ki_docs idx" kd] by (simp add: kw_inv_def map_get_def)
  then show "doc_ok (snd kd)" using assms(1) by (simp add: kw_inv_def)
qed

lemma kw_abs_dom: "dom (kw_abs idx) = fst ` set (ki_docs idx)"
  using map_get_dom[of "ki_docs idx"] by (simp add: kw_abs_def dom_def)

lemma kw_abs_count: "kw_inv idx \<Longrightarrow> ki_docCount idx = int (card (dom (kw_abs idx)))"
  by (simp add: kw_inv_def kw_abs_dom length_docs)

lemma kw_abs_avg:
  assumes "kw_inv idx" "ki_docs idx \<noteq> []"
  shows "ki_avgDocLen idx = avg_len (kw_abs idx)"
proof -
  have d: "keys_distinct fst (ki_docs idx)" using assms(1) by (simp add: kw_inv_def)
  have "total_len (ki_docs idx) = (\<Sum>k\<in>fst ` set (ki_docs idx). doc_length (the (map_get k (ki_docs idx))))"
    unfolding total_len_def by (rule sum_docs[OF d])
  also have "\<dots> = (\<Sum>k\<in>fst ` set (ki_docs idx). length (the (kw_abs idx k)))"
    using kw_inv_docs[OF assms(1)] by (intro sum.cong) (auto simp: kw_abs_def doc_ok_def)
  finally show ?thesis
    using assms length_docs[OF d] by (simp add: kw_inv_def avg_len_def kw_abs_dom)
qed

lemma kw_abs_freq:
  assumes "kw_inv idx"
  shows "freq term_keys (\<lambda>i. map_get i (ki_docs idx)) q = freq (\<lambda>ts. ts) (kw_abs idx) q"
proof -
  have "{i \<in> fst ` set (ki_docs idx). q \<in> set (term_keys (the (map_get i (ki_docs idx))))} =
      {i \<in> fst ` set (ki_docs idx). q \<in> set (the (kw_abs idx i))}"
    using kw_inv_docs[OF assms] by (auto simp: kw_abs_def term_keys_def doc_ok_def count_terms_set simp del: set_map)
  then show ?thesis by (simp add: freq_def map_get_dom kw_abs_dom)
qed

lemma kw_score_term_spec:
  assumes "kw_inv idx"
  shows "kw_score_term idx q sc = score_docs
    (\<lambda>d. if q \<in> set (doc_tokens d) then Some (bm25_score (kw_abs idx) q (doc_tokens d)) else None) (ki_docs idx) sc"
proof -
  let ?f = "freq (\<lambda>ts. ts) (kw_abs idx) q"
  have df: "map_get q (ki_df idx) = (if ?f = 0 then None else Some (int ?f))"
    using assms kw_abs_freq[OF assms, of q] by (simp add: kw_inv_def df_exact_def)
  show ?thesis
  proof (cases "?f = 0")
    case True
    then have "{i \<in> dom (kw_abs idx). q \<in> set (the (kw_abs idx i))} = {}"
      by (simp add: freq_def kw_abs_dom)
    then have "q \<notin> set (doc_tokens (snd kd))" if "kd \<in> set (ki_docs idx)" for kd
      using kw_inv_docs(1)[OF assms that] that by (auto simp: kw_abs_def kw_abs_dom)
    then show ?thesis using df True by (simp add: kw_score_term_def score_docs_None)
  next
    case False
    have "kw_contrib idx (int ?f) q (snd kd) = (if q \<in> set (doc_tokens (snd kd))
        then Some (bm25_score (kw_abs idx) q (doc_tokens (snd kd))) else None)" if kd: "kd \<in> set (ki_docs idx)" for kd
    proof -
      have "ki_docs idx \<noteq> []" using kd by auto
      then show ?thesis
        using kw_inv_docs(2)[OF assms kd] kw_abs_count[OF assms] kw_abs_avg[OF assms]
        by (auto simp: kw_contrib_def bm25_score_def doc_ok_def count_list_0_iff)
    qed
    then show ?thesis
      using df False by (auto simp: kw_score_term_def score_docs_def intro!: fold_cong split: option.splits)
  qed
qed

lemma bm25_idf_pos: "0 \<le> f \<Longrightarrow> f \<le> n \<Longrightarrow> 0 < bm25_idf n f"
  unfolding bm25_idf_def by (intro ln_gt_zero) (simp add: add_nonneg_pos)

lemma bm25_term_pos:
  assumes "0 < idf" "0 < tf" "0 \<le> docLen" "0 \<le> avgDocLen"
  shows "0 < bm25_term idf tf docLen avgDocLen"
proof -
  have "0 \<le> bm25B * docLen / avgDocLen" using assms by (simp add: bm25B_def)
  moreover have "0 \<le> bm25K1 * (1 - bm25B + x)" if "0 \<le> x" for x using that by (simp add: bm25K1_def bm25B_def)
  ultimately have "0 < tf + bm25K1 * (1 - bm25B + bm25B * docLen / avgDocLen)"
    using assms(2) by (meson add_pos_nonneg)
  moreover have "0 < idf * (tf * (bm25K1 + 1))" using assms by (simp add: bm25K1_def)
  ultimately show ?thesis unfolding bm25_term_def by (rule divide_pos_pos[rotated])
qed

lemma bm25_score_pos:
  assumes "finite (dom D)" "q \<in> set tokens"
  shows "0 < bm25_score D q tokens"
proof -
  have "freq (\<lambda>ts. ts) D q \<le> card (dom D)" unfolding freq_def using assms(1) by (intro card_mono) auto
  then have "0 < bm25_idf (real (card (dom D))) (real (freq (\<lambda>ts. ts) D q))" by (intro bm25_idf_pos) auto
  moreover have "0 < count_list tokens q" using assms(2) count_list_0_iff[of tokens q] by (metis gr0I)
  moreover have "0 \<le> avg_len D" unfolding avg_len_def by (rule divide_nonneg_nonneg) (simp_all del: of_nat_sum)
  ultimately show ?thesis
    unfolding bm25_score_def if_P[OF assms(2)] by (intro bm25_term_pos) simp_all
qed

lemma kw_Search_scores:
  assumes inv: "kw_inv idx" and qs_def: "qs = kw_tokenize (ToLower query)" and D_def: "D = kw_abs idx"
  shows "kw_Search ro query maxResults idx =
      rank_scores ro maxResults (fold (kw_score_term idx) qs []) \<or>
    kw_Search ro query maxResults idx = [] \<and> (\<forall>i. map_get i (fold (kw_score_term idx) qs []) = None)"
    and "map_get i (fold (kw_score_term idx) qs []) =
      (case D i of None \<Rightarrow> None | Some ts \<Rightarrow> if set ts \<inter> set qs = {} then None else Some (bm25 D qs ts))"
    and "keys_distinct fst (fold (kw_score_term idx) qs [])"
proof -
  let ?g = "\<lambda>q d. if q \<in> set (doc_tokens d) then Some (bm25_score D q (doc_tokens d)) else None"
  have f: "kw_score_term idx = (\<lambda>q sc. score_docs (?g q) (ki_docs idx) sc)"
    unfolding D_def by (intro ext) (rule kw_score_term_spec[OF inv])
  have d: "keys_distinct fst (ki_docs idx)" using inv by (simp add: kw_inv_def)
  have sum: "(\<Sum>q\<leftarrow>qs. case ?g q d of None \<Rightarrow> 0 | Some s \<Rightarrow> s) = bm25 D qs (doc_tokens d)" for d
    unfolding bm25_def by (intro arg_cong[of _ _ sum_list] map_cong) (auto simp: bm25_score_def)
  have none: "(\<forall>q\<in>set qs. ?g q d = None) \<longleftrightarrow> set (doc_tokens d) \<inter> set qs = {}" for d by auto
  show get: "map_get i (fold (kw_score_term idx) qs []) =
      (case D i of None \<Rightarrow> None | Some ts \<Rightarrow> if set ts \<inter> set qs = {} then None else Some (bm25 D qs ts))" for i
    unfolding f score_terms_get[OF d] none sum by (simp add: D_def kw_abs_def split: option.splits)
  show "keys_distinct fst (fold (kw_score_term idx) qs [])" unfolding f by (simp add: score_terms_keys)
  have "D i = None" if "ki_docCount idx = 0" for i
    using kw_abs_count[OF inv] that kw_abs_dom[of idx] by (auto simp: D_def)
  then show "kw_Search ro query maxResults idx = rank_scores ro maxResults (fold (kw_score_term idx) qs []) \<or>
    kw_Search ro query maxResults idx = [] \<and> (\<forall>i. map_get i (fold (kw_score_term idx) qs []) = None)"
    using get by (auto simp: kw_Search_def qs_def[symmetric] Let_def split: option.splits)
qed

text \<open>C13: the incrementally maintained keyword index is BM25 over the documents it holds. After any
  sequence of additions, updates and removals, with \<open>D\<close> the token lists of the documents that are
  then indexed: \<open>Count\<close> is their number; an unlimited search returns each document that shares a
  token with the query exactly once, with the BM25 score computed from scratch over \<open>D\<close>, which
  is positive, best first; and a limited search returns the first \<open>maxResults\<close> of these. The order in
  which Go ranges over the score map is any reordering \<open>ro\<close> of its keys.\<close>

theorem keyword_search_is_bm25:
  assumes "\<And>xs. mset (ro xs) = mset xs"
    and "idx = fold kw_step ops NewKeywordIndex" and "D = fold kw_spec ops Map.empty"
    and "qs = kw_tokenize (ToLower query)"
  shows "kw_Count idx = int (card (dom D)) \<and>
    set (kw_Search ro query 0 idx) =
      {\<lparr>kr_DocID = i, kr_Score = bm25 D qs ts\<rparr> | i ts. D i = Some ts \<and> set ts \<inter> set qs \<noteq> {}} \<and>
    distinct (map kr_DocID (kw_Search ro query 0 idx)) \<and>
    sorted_wrt (\<lambda>a b. kr_Score b \<le> kr_Score a) (kw_Search ro query 0 idx) \<and>
    (\<forall>r\<in>set (kw_Search ro query 0 idx). 0 < kr_Score r) \<and>
    kw_Search ro query maxResults idx =
      (if maxResults > 0 then take (nat maxResults) (kw_Search ro query 0 idx) else kw_Search ro query 0 idx)"
proof -
  have inv: "kw_inv idx" and D: "kw_abs idx = D"
    using kw.run_inv[OF kw_New(1)] kw_run_abs[OF kw_New(1)] kw_New(2) assms(2,3) by simp_all
  let ?sc = "fold (kw_score_term idx) qs []"
  note sc = kw_Search_scores[OF inv assms(4) D[symmetric]]
  note ranked = rank_scores_correct[where ro = ro, OF sc(3) assms(1)]
  have all: "(map_get i ?sc = Some s) = (\<exists>ts. D i = Some ts \<and> set ts \<inter> set qs \<noteq> {} \<and> s = bm25 D qs ts)" for i s
    using sc(2)[of i] by (auto split: option.splits if_splits)
  have search: "kw_Search ro query m idx = rank_scores ro m ?sc" for m
  proof (cases "\<forall>i. map_get i ?sc = None")
    case True
    then have "set (rank_scores ro 0 ?sc) = {}" using ranked(1) by simp
    then have "rank_scores ro m ?sc = []" using ranked(4)[of m] by simp
    then show ?thesis using sc(1)[of ro m] by presburger
  qed (use sc(1) in blast)
  have pos: "0 < bm25 D qs ts" if share: "set ts \<inter> set qs \<noteq> {}" for ts
  proof -
    have fin: "finite (dom D)" using D kw_abs_dom[of idx] by simp
    have nonneg: "0 \<le> bm25_score D q ts" for q
      using bm25_score_pos[OF fin, of q ts] by (cases "q \<in> set ts") (auto simp: bm25_score_def)
    obtain q where q: "q \<in> set qs" "q \<in> set ts" using share by auto
    have "bm25_score D q ts \<le> (\<Sum>q\<leftarrow>qs. bm25_score D q ts)"
      using q(1) nonneg by (intro member_le_sum_list) auto
    then show ?thesis using bm25_score_pos[OF fin q(2)] by (simp add: bm25_def)
  qed
  have results: "set (rank_scores ro 0 ?sc) =
      {\<lparr>kr_DocID = i, kr_Score = bm25 D qs ts\<rparr> | i ts. D i = Some ts \<and> set ts \<inter> set qs \<noteq> {}}"
    unfolding ranked(1) all by blast
  have positive: "0 < kr_Score r" if "r \<in> set (rank_scores ro 0 ?sc)" for r
    using that unfolding results by (auto intro!: pos)
  have count: "kw_Count idx = int (card (dom D))"
    using kw_abs_count[OF inv] by (simp add: kw_Count_def D)
  show ?thesis
    unfolding search by (intro conjI ballI count results ranked(2-4) positive)
qed

lemma singleton_list: "distinct xs \<Longrightarrow> set xs = {a} \<Longrightarrow> xs = [a]"
  by (cases xs; cases "tl xs") auto

theorem keyword_search_is_bm25_witness:
  "kw_Count (fold kw_step [Index_doc ''a'' ''bot'' '''' '''' [], Index_doc ''b'' ''cat'' '''' '''' [], Remove_doc ''b'']
     NewKeywordIndex) = 1 \<and>
   map kr_DocID (kw_Search rev ''BOT'' 0 (fold kw_step
     [Index_doc ''a'' ''bot'' '''' '''' [], Index_doc ''b'' ''cat'' '''' '''' [], Remove_doc ''b''] NewKeywordIndex)) = [''a'']"
proof -
  let ?ops = "[Index_doc ''a'' ''bot'' '''' '''' [], Index_doc ''b'' ''cat'' '''' '''' [], Remove_doc ''b'']"
  have tok: "kw_tokenize (combined_text ''bot'' '''' '''' []) = [''bot'']" "kw_tokenize (ToLower ''BOT'') = [''bot'']"
    by code_simp+
  have D: "fold kw_spec ?ops Map.empty = [''a'' \<mapsto> [''bot'']]" by (auto simp: tok fun_upd_twist)
  note r = keyword_search_is_bm25[of rev "fold kw_step ?ops NewKeywordIndex" ?ops "[''a'' \<mapsto> [''bot'']]"
      "[''bot'']" "''BOT''" 0, OF mset_rev refl D[symmetric] tok(2)[symmetric]]
  have "kr_DocID ` set (kw_Search rev ''BOT'' 0 (fold kw_step ?ops NewKeywordIndex)) = {''a''}"
    using r by (auto split: if_splits)
  then have "set (map kr_DocID (kw_Search rev ''BOT'' 0 (fold kw_step ?ops NewKeywordIndex))) = {''a''}" by simp
  moreover have "distinct (map kr_DocID (kw_Search rev ''BOT'' 0 (fold kw_step ?ops NewKeywordIndex)))" using r by blast
  ultimately have "map kr_DocID (kw_Search rev ''BOT'' 0 (fold kw_step ?ops NewKeywordIndex)) = [''a'']"
    by (rule singleton_list[rotated])
  then show ?thesis using r by simp
qed

end
