(* ===== verification/Keyword2.thy ===== *)
theory Keyword2
  imports Keyword
begin

text \<open>
  The field-boosted keyword index (\<open>src/internal/search/keyword_v2.go\<close>) and its tokenizer
  (\<open>src/internal/search/tokenizer.go\<close>): stop words, suffix stripping, synonyms and n-grams; one term
  table per field, one table of document frequencies over all fields; a bonus for quoted phrases. Letters
  and digits are those of the ASCII range. The theory shows that the index answers as the scoring
  formula evaluated from scratch over the documents it holds.
\<close>

section \<open>Tokenizer\<close>

record TokenizerConfig =
  tc_MinTermLength :: int
  tc_Stemming :: bool
  tc_Stopwords :: "(string \<times> bool) list option"
  tc_Synonyms :: "(string \<times> string list) list option"
  tc_NGramMin :: int
  tc_NGramMax :: int

definition DefaultStopwords :: "(string \<times> bool) list" where
  "DefaultStopwords = map (\<lambda>w. (w, True))
     [''a'', ''an'', ''and'', ''are'', ''as'', ''at'', ''be'', ''by'', ''for'',
      ''from'', ''has'', ''he'', ''in'', ''is'', ''it'', ''its'', ''of'', ''on'',
      ''that'', ''the'', ''to'', ''was'', ''will'', ''with'']"

definition DefaultSynonyms :: "(string \<times> string list) list" where
  "DefaultSynonyms =
     [(''ai'', [''artificial-intelligence'', ''machine-learning'', ''ml'']),
      (''ml'', [''machine-learning'', ''ai'']),
      (''llm'', [''large-language-model'', ''language-model'']),
      (''gpt'', [''openai'', ''chatgpt'']),
      (''code'', [''programming'', ''software'', ''development'']),
      (''review'', [''analysis'', ''audit'', ''check'']),
      (''translate'', [''translation'', ''translator'']),
      (''python'', [''py'']),
      (''javascript'', [''js'', ''node'']),
      (''typescript'', [''ts''])]"

definition DefaultTokenizerConfig :: TokenizerConfig where
  "DefaultTokenizerConfig = \<lparr>tc_MinTermLength = 2, tc_Stemming = True, tc_Stopwords = Some DefaultStopwords,
     tc_Synonyms = Some DefaultSynonyms, tc_NGramMin = 0, tc_NGramMax = 0\<rparr>"

definition word_char :: "char \<Rightarrow> bool" where
  "word_char c = (let b = (of_char c :: nat) in
     97 \<le> b \<and> b \<le> 122 \<or> 65 \<le> b \<and> b \<le> 90 \<or> 48 \<le> b \<and> b \<le> 57 \<or> c = CHR ''-'' \<or> c = CHR ''_'')"

definition basic_flush :: "string \<Rightarrow> string list \<Rightarrow> string list" where
  "basic_flush current terms = (if current = [] then terms else terms @ current # compound_parts current)"

fun basic_loop :: "string \<Rightarrow> string \<Rightarrow> string list \<Rightarrow> string list" where
  "basic_loop [] current terms = basic_flush current terms"
| "basic_loop (c # text) current terms =
     (if word_char c then basic_loop text (current @ [c]) terms else basic_loop text [] (basic_flush current terms))"

definition basicTokenize :: "string \<Rightarrow> string list" where
  "basicTokenize text = basic_loop text [] []"

definition stem_suffixes :: "string list" where
  "stem_suffixes = [''ing'', ''ed'', ''ly'', ''ness'', ''ment'', ''able'', ''ible'',
     ''tion'', ''sion'', ''ation'', ''ies'', ''es'', ''s'']"

fun strip_first :: "string list \<Rightarrow> string \<Rightarrow> string" where
  "strip_first [] word = word"
| "strip_first (suffix # suffixes) word =
     (if HasSuffix word suffix \<and> length word \<ge> length suffix + 3 then take (length word - length suffix) word
      else strip_first suffixes word)"

definition porterStem :: "string \<Rightarrow> string" where
  "porterStem word = (if length word < 4 then word else strip_first stem_suffixes word)"

text \<open>The n-grams of every length between the bounds, in the order of the loops.\<close>

definition ngrams_of :: "string list \<Rightarrow> nat \<Rightarrow> string list" where
  "ngrams_of tokens n = map (\<lambda>i. str_Join (take n (drop i tokens)) ''_'') [0 ..< Suc (length tokens) - n]"

definition generateNGrams :: "string list \<Rightarrow> int \<Rightarrow> int \<Rightarrow> string list" where
  "generateNGrams tokens minN maxN =
     concat (map (ngrams_of tokens) [nat minN ..< Suc (min (nat maxN) (length tokens))])"

definition keep_term :: "TokenizerConfig \<Rightarrow> string \<Rightarrow> bool" where
  "keep_term cfg t = (\<not> int (length t) < tc_MinTermLength cfg \<and>
     \<not> (case tc_Stopwords cfg of None \<Rightarrow> False | Some sw \<Rightarrow> map_get t sw = Some True))"

definition synonyms_of :: "TokenizerConfig \<Rightarrow> string \<Rightarrow> string list" where
  "synonyms_of cfg t = (case tc_Synonyms cfg of None \<Rightarrow> []
     | Some sy \<Rightarrow> (case map_get t sy of None \<Rightarrow> [] | Some syns \<Rightarrow> syns))"

definition Tokenize :: "TokenizerConfig \<Rightarrow> string \<Rightarrow> string list" where
  "Tokenize cfg text =
     (let raw = basicTokenize (ToLower text);
          filtered = filter (keep_term cfg) raw;
          stemmed = (if tc_Stemming cfg then map porterStem filtered else filtered);
          result = stemmed @ concat (map (synonyms_of cfg) filtered)
      in if tc_NGramMin cfg > 0 \<and> tc_NGramMax cfg > 0
         then result @ generateNGrams filtered (tc_NGramMin cfg) (tc_NGramMax cfg) else result)"

section \<open>The index\<close>

record FieldBoosts =
  fb_Name :: real
  fb_Tags :: real
  fb_Summary :: real
  fb_Category :: real

definition DefaultFieldBoosts :: FieldBoosts where
  "DefaultFieldBoosts = \<lparr>fb_Name = 3, fb_Tags = 2, fb_Summary = 1, fb_Category = 3 / 2\<rparr>"

record FieldedDocument =
  fd_ID :: string
  fd_Name :: string
  fd_Summary :: string
  fd_Tags :: "string list"
  fd_Category :: string
  fd_nameTerms :: "(string \<times> int) list"
  fd_tagsTerms :: "(string \<times> int) list"
  fd_summaryTerms :: "(string \<times> int) list"
  fd_categoryTerms :: "(string \<times> int) list"
  fd_nameLen :: nat
  fd_tagsLen :: nat
  fd_summaryLen :: nat
  fd_categoryLen :: nat

record ImprovedKeywordIndex =
  ik_docs :: "(string \<times> FieldedDocument) list"
  ik_df :: "(string \<times> int) list"
  ik_avgDocLen :: "(string \<times> real) list"
  ik_docCount :: int
  ik_tokenizer :: TokenizerConfig
  ik_boosts :: FieldBoosts
  ik_bm25K1 :: real
  ik_bm25B :: real

definition zero_lens :: "(string \<times> real) list" where
  "zero_lens = [(''name'', 0), (''tags'', 0), (''summary'', 0), (''category'', 0)]"

definition NewImprovedKeywordIndex :: ImprovedKeywordIndex where
  "NewImprovedKeywordIndex = \<lparr>ik_docs = [], ik_df = [], ik_avgDocLen = zero_lens, ik_docCount = 0,
     ik_tokenizer = DefaultTokenizerConfig, ik_boosts = DefaultFieldBoosts, ik_bm25K1 = 6 / 5, ik_bm25B = 3 / 4\<rparr>"

definition fielded_document ::
  "TokenizerConfig \<Rightarrow> string \<Rightarrow> string \<Rightarrow> string \<Rightarrow> string \<Rightarrow> string list \<Rightarrow> FieldedDocument" where
  "fielded_document cfg did name summary category tags =
     (let nameTerms = Tokenize cfg name; summaryTerms = Tokenize cfg summary; categoryTerms = Tokenize cfg category;
          tagsTerms = concat (map (Tokenize cfg) tags)
      in \<lparr>fd_ID = did, fd_Name = name, fd_Summary = summary, fd_Tags = tags, fd_Category = category,
          fd_nameTerms = count_terms nameTerms, fd_tagsTerms = count_terms tagsTerms,
          fd_summaryTerms = count_terms summaryTerms, fd_categoryTerms = count_terms categoryTerms,
          fd_nameLen = length nameTerms, fd_tagsLen = length tagsTerms,
          fd_summaryLen = length summaryTerms, fd_categoryLen = length categoryTerms\<rparr>)"

definition allTerms :: "FieldedDocument \<Rightarrow> string list" where
  "allTerms doc = remdups (map fst (fd_nameTerms doc) @ map fst (fd_tagsTerms doc) @
     map fst (fd_summaryTerms doc) @ map fst (fd_categoryTerms doc))"

definition mean :: "(FieldedDocument \<Rightarrow> nat) \<Rightarrow> (string \<times> FieldedDocument) list \<Rightarrow> int \<Rightarrow> real" where
  "mean len docs docCount = real (sum_list (map (\<lambda>kd. len (snd kd)) docs)) / real_of_int docCount"

definition recalculateAvgLengths :: "ImprovedKeywordIndex \<Rightarrow> ImprovedKeywordIndex" where
  "recalculateAvgLengths idx =
     (if ik_docCount idx = 0 then idx\<lparr>ik_avgDocLen := zero_lens\<rparr>
      else let d = ik_docs idx; n = ik_docCount idx in
        idx\<lparr>ik_avgDocLen := map_set ''category'' (mean fd_categoryLen d n) (map_set ''summary'' (mean fd_summaryLen d n)
          (map_set ''tags'' (mean fd_tagsLen d n) (map_set ''name'' (mean fd_nameLen d n) (ik_avgDocLen idx))))\<rparr>)"

definition removeTerms :: "FieldedDocument \<Rightarrow> ImprovedKeywordIndex \<Rightarrow> ImprovedKeywordIndex" where
  "removeTerms doc idx = idx\<lparr>ik_df := df_remove (allTerms doc) (ik_df idx)\<rparr>"

definition ik_IndexDocument ::
  "string \<Rightarrow> string \<Rightarrow> string \<Rightarrow> string \<Rightarrow> string list \<Rightarrow> ImprovedKeywordIndex \<Rightarrow> ImprovedKeywordIndex" where
  "ik_IndexDocument did name summary category tags idx =
     (let idx = (case map_get did (ik_docs idx) of
            None \<Rightarrow> idx
          | Some oldDoc \<Rightarrow> (removeTerms oldDoc idx)\<lparr>ik_docCount := ik_docCount idx - 1\<rparr>);
          doc = fielded_document (ik_tokenizer idx) did name summary category tags
      in recalculateAvgLengths (idx\<lparr>ik_docs := map_set did doc (ik_docs idx), ik_docCount := ik_docCount idx + 1,
           ik_df := df_add (allTerms doc) (ik_df idx)\<rparr>))"

definition ik_RemoveDocument :: "string \<Rightarrow> ImprovedKeywordIndex \<Rightarrow> ImprovedKeywordIndex" where
  "ik_RemoveDocument did idx =
     (case map_get did (ik_docs idx) of
        None \<Rightarrow> idx
      | Some doc \<Rightarrow> recalculateAvgLengths ((removeTerms doc idx)\<lparr>ik_docs := map_del did (ik_docs idx),
          ik_docCount := ik_docCount idx - 1\<rparr>))"

definition ik_Count :: "ImprovedKeywordIndex \<Rightarrow> int" where
  "ik_Count idx = ik_docCount idx"

section \<open>Search\<close>

fun phrases_loop :: "string \<Rightarrow> bool \<Rightarrow> string \<Rightarrow> string list" where
  "phrases_loop [] inQuote current = []"
| "phrases_loop (c # s) inQuote current =
     (if c = CHR 0x22 then (if inQuote then current # phrases_loop s False [] else phrases_loop s True current)
      else if inQuote then phrases_loop s inQuote (current @ [c]) else phrases_loop s inQuote current)"

definition extractPhrases :: "string \<Rightarrow> string list" where
  "extractPhrases query = phrases_loop query False []"

definition containsInSlice :: "string list \<Rightarrow> string \<Rightarrow> bool" where
  "containsInSlice strs substr = list_ex (\<lambda>s. str_Contains (ToLower s) (ToLower substr)) strs"

definition containsPhrase :: "string \<Rightarrow> string \<Rightarrow> string \<Rightarrow> string list \<Rightarrow> string \<Rightarrow> bool" where
  "containsPhrase name summary category tags phrase =
     (let phrase = ToLower phrase
      in str_Contains (ToLower name) phrase \<or> str_Contains (ToLower summary) phrase \<or>
         str_Contains (ToLower category) phrase \<or> containsInSlice tags phrase)"

definition bm25FieldScore :: "ImprovedKeywordIndex \<Rightarrow> string \<Rightarrow> (string \<times> int) list \<Rightarrow> nat \<Rightarrow> real \<Rightarrow> real \<Rightarrow> real" where
  "bm25FieldScore idx t termFreqs docLen avgDocLen idf =
     (let tf = real_of_int (map_at t termFreqs)
      in if tf = 0 then 0
         else let numerator = tf * (ik_bm25K1 idx + 1);
                  denominator = tf + ik_bm25K1 idx * (1 - ik_bm25B idx + ik_bm25B idx * real docLen / avgDocLen)
              in idf * numerator / denominator)"

definition ik_fieldScore :: "ImprovedKeywordIndex \<Rightarrow> int \<Rightarrow> string \<Rightarrow> FieldedDocument \<Rightarrow> real" where
  "ik_fieldScore idx docFreq qTerm doc =
     (let idf = bm25_idf (real_of_int (ik_docCount idx)) (real_of_int docFreq);
          avg = ik_avgDocLen idx; boosts = ik_boosts idx;
          nameScore = bm25FieldScore idx qTerm (fd_nameTerms doc) (fd_nameLen doc) (map_at ''name'' avg) idf;
          tagsScore = bm25FieldScore idx qTerm (fd_tagsTerms doc) (fd_tagsLen doc) (map_at ''tags'' avg) idf;
          summaryScore = bm25FieldScore idx qTerm (fd_summaryTerms doc) (fd_summaryLen doc) (map_at ''summary'' avg) idf;
          categoryScore = bm25FieldScore idx qTerm (fd_categoryTerms doc) (fd_categoryLen doc) (map_at ''category'' avg) idf
      in nameScore * fb_Name boosts + tagsScore * fb_Tags boosts + summaryScore * fb_Summary boosts +
         categoryScore * fb_Category boosts)"

definition ik_score_term :: "ImprovedKeywordIndex \<Rightarrow> string \<Rightarrow> (string \<times> real) list \<Rightarrow> (string \<times> real) list" where
  "ik_score_term idx qTerm scores =
     (case map_get qTerm (ik_df idx) of
        None \<Rightarrow> scores
      | Some docFreq \<Rightarrow> score_docs (\<lambda>doc. let s = ik_fieldScore idx docFreq qTerm doc in if s > 0 then Some s else None)
          (ik_docs idx) scores)"

definition phrase_bonus :: "string list \<Rightarrow> (string \<times> FieldedDocument) list \<Rightarrow> (string \<times> real) list \<Rightarrow> (string \<times> real) list" where
  "phrase_bonus phrases docs scores =
     fold (\<lambda>(did, doc) scores. fold (\<lambda>phrase scores.
         if containsPhrase (fd_Name doc) (fd_Summary doc) (fd_Category doc) (fd_Tags doc) phrase
         then add_score did 5 scores else scores) phrases scores) docs scores"

definition ik_Search :: "(string list \<Rightarrow> string list) \<Rightarrow> string \<Rightarrow> int \<Rightarrow> ImprovedKeywordIndex \<Rightarrow> KeywordResult list" where
  "ik_Search ro query maxResults idx =
     (let queryTerms = Tokenize (ik_tokenizer idx) (ToLower query)
      in if ik_docCount idx = 0 then []
         else if queryTerms = [] then []
         else rank_scores ro maxResults
           (phrase_bonus (extractPhrases query) (ik_docs idx) (fold (ik_score_term idx) queryTerms [])))"

section \<open>Specification: boosted BM25 over the current documents\<close>

record FieldTexts =
  ft_name :: string
  ft_summary :: string
  ft_category :: string
  ft_tags :: "string list"

fun ik_step :: "kw_op \<Rightarrow> ImprovedKeywordIndex \<Rightarrow> ImprovedKeywordIndex" where
  "ik_step (Index_doc did name summary category tags) idx = ik_IndexDocument did name summary category tags idx"
| "ik_step (Remove_doc did) idx = ik_RemoveDocument did idx"

fun ik_spec :: "kw_op \<Rightarrow> (string \<rightharpoonup> FieldTexts) \<Rightarrow> (string \<rightharpoonup> FieldTexts)" where
  "ik_spec (Index_doc did name summary category tags) D =
     D(did \<mapsto> \<lparr>ft_name = name, ft_summary = summary, ft_category = category, ft_tags = tags\<rparr>)"
| "ik_spec (Remove_doc did) D = D(did := None)"

definition tk :: "string \<Rightarrow> string list" where
  "tk = Tokenize DefaultTokenizerConfig"

definition tags_tokens :: "FieldTexts \<Rightarrow> string list" where
  "tags_tokens d = concat (map tk (ft_tags d))"

definition all_tokens :: "FieldTexts \<Rightarrow> string list" where
  "all_tokens d = tk (ft_name d) @ tags_tokens d @ tk (ft_summary d) @ tk (ft_category d)"

definition field_avg :: "(FieldTexts \<Rightarrow> string list) \<Rightarrow> (string \<rightharpoonup> FieldTexts) \<Rightarrow> real" where
  "field_avg f D = real (\<Sum>i\<in>dom D. length (f (the (D i)))) / real (card (dom D))"

definition field_score :: "(FieldTexts \<Rightarrow> string list) \<Rightarrow> (string \<rightharpoonup> FieldTexts) \<Rightarrow> string \<Rightarrow> FieldTexts \<Rightarrow> real" where
  "field_score f D q d =
     (if q \<in> set (f d) then
        bm25_term (bm25_idf (real (card (dom D))) (real (freq all_tokens D q)))
          (real (count_list (f d) q)) (real (length (f d))) (field_avg f D)
      else 0)"

definition bm25f_term :: "(string \<rightharpoonup> FieldTexts) \<Rightarrow> string \<Rightarrow> FieldTexts \<Rightarrow> real" where
  "bm25f_term D q d = 3 * field_score (\<lambda>d. tk (ft_name d)) D q d + 2 * field_score tags_tokens D q d +
     field_score (\<lambda>d. tk (ft_summary d)) D q d + 3 / 2 * field_score (\<lambda>d. tk (ft_category d)) D q d"

definition phrase_in :: "FieldTexts \<Rightarrow> string \<Rightarrow> bool" where
  "phrase_in d phrase = containsPhrase (ft_name d) (ft_summary d) (ft_category d) (ft_tags d) phrase"

definition bm25f :: "(string \<rightharpoonup> FieldTexts) \<Rightarrow> string list \<Rightarrow> string list \<Rightarrow> FieldTexts \<Rightarrow> real" where
  "bm25f D qs phrases d = (\<Sum>q\<leftarrow>qs. bm25f_term D q d) + 5 * real (length (filter (phrase_in d) phrases))"

section \<open>The index is exact\<close>

definition texts :: "FieldedDocument \<Rightarrow> FieldTexts" where
  "texts d = \<lparr>ft_name = fd_Name d, ft_summary = fd_Summary d, ft_category = fd_Category d, ft_tags = fd_Tags d\<rparr>"

definition fd_ok :: "FieldedDocument \<Rightarrow> bool" where
  "fd_ok d = (fd_nameTerms d = count_terms (tk (ft_name (texts d))) \<and> fd_nameLen d = length (tk (ft_name (texts d))) \<and>
     fd_tagsTerms d = count_terms (tags_tokens (texts d)) \<and> fd_tagsLen d = length (tags_tokens (texts d)) \<and>
     fd_summaryTerms d = count_terms (tk (ft_summary (texts d))) \<and> fd_summaryLen d = length (tk (ft_summary (texts d))) \<and>
     fd_categoryTerms d = count_terms (tk (ft_category (texts d))) \<and> fd_categoryLen d = length (tk (ft_category (texts d))))"

definition ik_lens :: "(string \<times> FieldedDocument) list \<Rightarrow> (string \<times> real) list \<Rightarrow> bool" where
  "ik_lens docs avg = (\<forall>(key, len) \<in> {(''name'', fd_nameLen), (''tags'', fd_tagsLen), (''summary'', fd_summaryLen),
     (''category'', fd_categoryLen)}. docs \<noteq> [] \<longrightarrow> map_at key avg = mean len docs (int (length docs)))"

definition ik_inv :: "ImprovedKeywordIndex \<Rightarrow> bool" where
  "ik_inv idx = (keys_distinct fst (ik_docs idx) \<and> (\<forall>i d. map_get i (ik_docs idx) = Some d \<longrightarrow> fd_ok d) \<and>
     df_exact allTerms (\<lambda>i. map_get i (ik_docs idx)) (ik_df idx) \<and>
     ik_docCount idx = int (length (ik_docs idx)) \<and> ik_lens (ik_docs idx) (ik_avgDocLen idx) \<and>
     ik_tokenizer idx = DefaultTokenizerConfig \<and> ik_boosts idx = DefaultFieldBoosts \<and>
     ik_bm25K1 idx = bm25K1 \<and> ik_bm25B idx = bm25B)"

definition ik_abs :: "ImprovedKeywordIndex \<Rightarrow> (string \<rightharpoonup> FieldTexts)" where
  "ik_abs idx i = map_option texts (map_get i (ik_docs idx))"

interpretation ik_df: doc_freq allTerms fd_ok
  by unfold_locales (simp add: allTerms_def)

lemma set_allTerms: "fd_ok d \<Longrightarrow> set (allTerms d) = set (all_tokens (texts d))"
  by (simp add: fd_ok_def allTerms_def all_tokens_def count_terms_set[unfolded set_map])

lemma fielded_document_ok [simp]:
  "fd_ok (fielded_document DefaultTokenizerConfig did name summary category tags)"
  "texts (fielded_document DefaultTokenizerConfig did name summary category tags) =
     \<lparr>ft_name = name, ft_summary = summary, ft_category = category, ft_tags = tags\<rparr>"
  by (simp_all add: fielded_document_def fd_ok_def texts_def tags_tokens_def tk_def Let_def)

lemma recalculate_simps [simp]:
  "ik_docs (recalculateAvgLengths idx) = ik_docs idx" "ik_df (recalculateAvgLengths idx) = ik_df idx"
  "ik_docCount (recalculateAvgLengths idx) = ik_docCount idx" "ik_tokenizer (recalculateAvgLengths idx) = ik_tokenizer idx"
  "ik_boosts (recalculateAvgLengths idx) = ik_boosts idx" "ik_bm25K1 (recalculateAvgLengths idx) = ik_bm25K1 idx"
  "ik_bm25B (recalculateAvgLengths idx) = ik_bm25B idx"
  by (simp_all add: recalculateAvgLengths_def Let_def)

lemma recalculate_lens:
  "ik_docCount idx = int (length (ik_docs idx)) \<Longrightarrow> ik_lens (ik_docs idx) (ik_avgDocLen (recalculateAvgLengths idx))"
  by (auto simp: ik_lens_def recalculateAvgLengths_def Let_def)

lemma ik_IndexDocument_inv:
  assumes "ik_inv idx"
  shows "ik_inv (ik_IndexDocument did name summary category tags idx)"
proof -
  let ?doc = "fielded_document DefaultTokenizerConfig did name summary category tags"
  let ?M = "\<lambda>i. map_get i (ik_docs idx)"
  have inv: "keys_distinct fst (ik_docs idx)" "df_exact allTerms ?M (ik_df idx)"
    "\<And>i d. ?M i = Some d \<Longrightarrow> fd_ok d" "ik_docCount idx = int (length (ik_docs idx))"
    using assms by (auto simp: ik_inv_def)
  have "finite (dom ?M)" by (simp add: map_get_dom)
  then have df: "df_exact allTerms (?M(did \<mapsto> ?doc))
      (df_add (allTerms ?doc) (case ?M did of None \<Rightarrow> ik_df idx | Some old \<Rightarrow> df_remove (allTerms old) (ik_df idx)))"
    using ik_df.df_replace_exact[OF inv(2), of did ?doc] inv(3) by simp
  have keys: "keys_distinct fst (map_set did ?doc (ik_docs idx))"
    using inv(1) by (rule keys_distinct_map_ops)
  show ?thesis
    using df keys inv(3,4) assms
    by (cases "?M did") (auto simp: ik_inv_def ik_IndexDocument_def removeTerms_def Let_def fun_upd_def length_map_set_get
        recalculate_lens[of "_\<lparr>ik_docs := _, ik_docCount := _, ik_df := _\<rparr>", simplified] cong: if_cong split: if_splits)
qed

lemma ik_RemoveDocument_inv:
  assumes "ik_inv idx"
  shows "ik_inv (ik_RemoveDocument did idx)"
proof (cases "map_get did (ik_docs idx)")
  case None
  then show ?thesis using assms by (simp add: ik_RemoveDocument_def)
next
  case (Some doc)
  let ?M = "\<lambda>i. map_get i (ik_docs idx)"
  have inv: "keys_distinct fst (ik_docs idx)" "df_exact allTerms ?M (ik_df idx)"
    "\<And>i d. ?M i = Some d \<Longrightarrow> fd_ok d" "ik_docCount idx = int (length (ik_docs idx))"
    using assms by (auto simp: ik_inv_def)
  have df: "df_exact allTerms (?M(did := None)) (df_remove (allTerms doc) (ik_df idx))"
    using ik_df.df_remove_exact[OF inv(2), of did doc] inv(3) Some by (simp add: map_get_dom)
  have len: "Suc (length (map_del did (ik_docs idx))) = length (ik_docs idx)"
    using length_map_del[OF inv(1), of did] map_get_keys[of did "ik_docs idx"] Some by simp
  let ?idx = "(removeTerms doc idx)\<lparr>ik_docs := map_del did (ik_docs idx), ik_docCount := ik_docCount idx - 1\<rparr>"
  have "ik_lens (ik_docs ?idx) (ik_avgDocLen (recalculateAvgLengths ?idx))"
    by (rule recalculate_lens) (use len inv(4) in simp)
  then show ?thesis
    using df len inv Some keys_distinct_map_ops(2)[OF inv(1), of did] assms
    by (auto simp: ik_inv_def ik_RemoveDocument_def removeTerms_def map_get_del fun_upd_def split: if_splits)
qed

lemma ik_step_inv: "ik_inv idx \<Longrightarrow> ik_inv (ik_step op idx)"
  using ik_IndexDocument_inv ik_RemoveDocument_inv by (cases op) simp_all

lemma ik_step_abs:
  assumes "ik_inv idx"
  shows "ik_abs (ik_step op idx) = ik_spec op (ik_abs idx)"
proof (cases op)
  case (Index_doc did name summary category tags)
  have "ik_tokenizer idx = DefaultTokenizerConfig" using assms by (simp add: ik_inv_def)
  then show ?thesis
    using Index_doc
    by (cases "map_get did (ik_docs idx)") (auto simp: ik_abs_def ik_IndexDocument_def removeTerms_def Let_def)
next
  case (Remove_doc did)
  then show ?thesis
    using assms by (cases "map_get did (ik_docs idx)")
      (auto simp: ik_inv_def ik_abs_def ik_RemoveDocument_def removeTerms_def map_get_del)
qed

interpretation ik: invariant_machine ik_step ik_inv
  by unfold_locales (rule ik_step_inv)

lemma ik_run_abs: "ik_inv idx \<Longrightarrow> ik_abs (fold ik_step ops idx) = fold ik_spec ops (ik_abs idx)"
  by (induction ops arbitrary: idx) (simp_all add: ik_step_inv ik_step_abs)

lemma ik_New: "ik_inv NewImprovedKeywordIndex" "ik_abs NewImprovedKeywordIndex = Map.empty"
  by (auto simp: ik_inv_def ik_abs_def NewImprovedKeywordIndex_def df_exact_def freq_def ik_lens_def bm25K1_def bm25B_def)

section \<open>Search is boosted BM25 with phrases\<close>

lemma ik_inv_docs:
  assumes "ik_inv idx" "kd \<in> set (ik_docs idx)"
  shows "map_get (fst kd) (ik_docs idx) = Some (snd kd)" "fd_ok (snd kd)"
proof -
  show "map_get (fst kd) (ik_docs idx) = Some (snd kd)"
    using assms t_get_unique[of fst "ik_docs idx" kd] by (simp add: ik_inv_def map_get_def)
  then show "fd_ok (snd kd)" using assms(1) by (simp add: ik_inv_def)
qed

lemma ik_abs_dom: "dom (ik_abs idx) = fst ` set (ik_docs idx)"
  using map_get_dom[of "ik_docs idx"] by (simp add: ik_abs_def dom_def)

lemma ik_abs_count: "ik_inv idx \<Longrightarrow> ik_docCount idx = int (card (dom (ik_abs idx)))"
  by (simp add: ik_inv_def ik_abs_dom length_docs)

lemma ik_abs_avg:
  assumes "ik_inv idx" "\<And>d. fd_ok d \<Longrightarrow> len d = length (f (texts d))"
  shows "mean len (ik_docs idx) (int (length (ik_docs idx))) = field_avg f (ik_abs idx)"
proof -
  have d: "keys_distinct fst (ik_docs idx)" using assms(1) by (simp add: ik_inv_def)
  have "sum_list (map (\<lambda>kd. len (snd kd)) (ik_docs idx)) = (\<Sum>k\<in>fst ` set (ik_docs idx). len (the (map_get k (ik_docs idx))))"
    by (rule sum_docs[OF d])
  also have "\<dots> = (\<Sum>k\<in>fst ` set (ik_docs idx). length (f (the (ik_abs idx k))))"
    using ik_inv_docs[OF assms(1)] assms(2) by (intro sum.cong) (auto simp: ik_abs_def)
  finally show ?thesis using length_docs[OF d] by (simp add: mean_def field_avg_def ik_abs_dom)
qed

lemma ik_abs_freq:
  assumes "ik_inv idx"
  shows "freq allTerms (\<lambda>i. map_get i (ik_docs idx)) q = freq all_tokens (ik_abs idx) q"
proof -
  have "{i \<in> fst ` set (ik_docs idx). q \<in> set (allTerms (the (map_get i (ik_docs idx))))} =
      {i \<in> fst ` set (ik_docs idx). q \<in> set (all_tokens (the (ik_abs idx i)))}"
    using ik_inv_docs[OF assms] by (auto simp: ik_abs_def set_allTerms)
  then show ?thesis by (simp add: freq_def map_get_dom ik_abs_dom)
qed

lemma bm25FieldScore_spec:
  assumes "ik_inv idx" "idf = bm25_idf (real (card (dom D))) (real (freq all_tokens D q))" "avg = field_avg f D"
  shows "bm25FieldScore idx q (count_terms (f d)) (length (f d)) avg idf = field_score f D q d"
  using assms by (auto simp: bm25FieldScore_def field_score_def bm25_term_def ik_inv_def Let_def count_list_0_iff)

lemma ik_fieldScore_spec:
  assumes inv: "ik_inv idx" and kd: "kd \<in> set (ik_docs idx)"
  shows "ik_fieldScore idx (int (freq all_tokens (ik_abs idx) q)) q (snd kd) = bm25f_term (ik_abs idx) q (texts (snd kd))"
proof -
  have ne: "ik_docs idx \<noteq> []" using kd by auto
  have lens: "map_at ''name'' (ik_avgDocLen idx) = field_avg (\<lambda>d. tk (ft_name d)) (ik_abs idx)"
    "map_at ''tags'' (ik_avgDocLen idx) = field_avg tags_tokens (ik_abs idx)"
    "map_at ''summary'' (ik_avgDocLen idx) = field_avg (\<lambda>d. tk (ft_summary d)) (ik_abs idx)"
    "map_at ''category'' (ik_avgDocLen idx) = field_avg (\<lambda>d. tk (ft_category d)) (ik_abs idx)"
    using inv ne ik_abs_avg[OF inv, of fd_nameLen "\<lambda>d. tk (ft_name d)"] ik_abs_avg[OF inv, of fd_tagsLen tags_tokens]
      ik_abs_avg[OF inv, of fd_summaryLen "\<lambda>d. tk (ft_summary d)"] ik_abs_avg[OF inv, of fd_categoryLen "\<lambda>d. tk (ft_category d)"]
    by (simp_all add: ik_inv_def ik_lens_def fd_ok_def)
  have b: "ik_boosts idx = DefaultFieldBoosts" using inv by (simp add: ik_inv_def)
  note spec = bm25FieldScore_spec[OF inv refl refl]
  show ?thesis
    using ik_inv_docs(2)[OF inv kd] ik_abs_count[OF inv]
      spec[where D = "ik_abs idx" and q = q and f = "\<lambda>d. tk (ft_name d)" and d = "texts (snd kd)"] spec[where D = "ik_abs idx" and q = q and f = tags_tokens and d = "texts (snd kd)"]
      spec[where D = "ik_abs idx" and q = q and f = "\<lambda>d. tk (ft_summary d)" and d = "texts (snd kd)"]
      spec[where D = "ik_abs idx" and q = q and f = "\<lambda>d. tk (ft_category d)" and d = "texts (snd kd)"]
    by (simp add: ik_fieldScore_def bm25f_term_def Let_def lens b DefaultFieldBoosts_def fd_ok_def)
qed

lemma field_score_pos:
  assumes "finite (dom D)" "q \<in> set (f d)"
  shows "0 < field_score f D q d"
proof -
  have "freq all_tokens D q \<le> card (dom D)" unfolding freq_def using assms(1) by (intro card_mono) auto
  then have "0 < bm25_idf (real (card (dom D))) (real (freq all_tokens D q))" by (intro bm25_idf_pos) auto
  moreover have "0 < count_list (f d) q" using assms(2) count_list_0_iff[of "f d" q] by (metis gr0I)
  moreover have "0 \<le> field_avg f D" unfolding field_avg_def by (rule divide_nonneg_nonneg) (simp_all del: of_nat_sum)
  ultimately show ?thesis
    unfolding field_score_def if_P[OF assms(2)] by (intro bm25_term_pos) simp_all
qed

lemma field_score_nonneg: "finite (dom D) \<Longrightarrow> 0 \<le> field_score f D q d"
  using field_score_pos[of D q f d] by (cases "q \<in> set (f d)") (auto simp: field_score_def)

lemma bm25f_term_pos:
  assumes "finite (dom D)"
  shows "0 < bm25f_term D q d \<longleftrightarrow> q \<in> set (all_tokens d)" "0 \<le> bm25f_term D q d"
proof -
  let ?fs = "{\<lambda>d. tk (ft_name d), tags_tokens, \<lambda>d. tk (ft_summary d), \<lambda>d. tk (ft_category d)}"
  note nn = field_score_nonneg[OF assms, of _ q d]
  show "0 \<le> bm25f_term D q d"
    unfolding bm25f_term_def using nn by (intro add_nonneg_nonneg mult_nonneg_nonneg) simp_all
  show "0 < bm25f_term D q d \<longleftrightarrow> q \<in> set (all_tokens d)"
  proof
    assume "0 < bm25f_term D q d"
    then show "q \<in> set (all_tokens d)"
      by (rule contrapos_pp) (simp add: bm25f_term_def field_score_def all_tokens_def)
  next
    assume "q \<in> set (all_tokens d)"
    then have "\<exists>f\<in>?fs. 0 < field_score f D q d" using field_score_pos[OF assms] by (auto simp: all_tokens_def)
    then show "0 < bm25f_term D q d"
      unfolding bm25f_term_def using nn[of "\<lambda>d. tk (ft_name d)"] nn[of tags_tokens]
        nn[of "\<lambda>d. tk (ft_summary d)"] nn[of "\<lambda>d. tk (ft_category d)"] by (elim bexE insertE emptyE) auto
  qed
qed

lemma ik_score_term_spec:
  assumes inv: "ik_inv idx"
  shows "ik_score_term idx q sc = score_docs
    (\<lambda>d. if q \<in> set (all_tokens (texts d)) then Some (bm25f_term (ik_abs idx) q (texts d)) else None) (ik_docs idx) sc"
proof -
  let ?D = "ik_abs idx" and ?f = "freq all_tokens (ik_abs idx) q"
  have fin: "finite (dom ?D)" by (simp add: ik_abs_dom)
  have df: "map_get q (ik_df idx) = (if ?f = 0 then None else Some (int ?f))"
    using inv ik_abs_freq[OF inv, of q] by (simp add: ik_inv_def df_exact_def)
  show ?thesis
  proof (cases "?f = 0")
    case True
    then have "{i \<in> dom ?D. q \<in> set (all_tokens (the (?D i)))} = {}"
      using fin by (simp add: freq_def)
    then have "q \<notin> set (all_tokens (texts (snd kd)))" if "kd \<in> set (ik_docs idx)" for kd
      using ik_inv_docs(1)[OF inv that] that by (auto simp: ik_abs_def ik_abs_dom)
    then show ?thesis using df True by (simp add: ik_score_term_def score_docs_None)
  next
    case False
    have "(let s = ik_fieldScore idx (int ?f) q (snd kd) in if s > 0 then Some s else None) =
        (if q \<in> set (all_tokens (texts (snd kd))) then Some (bm25f_term ?D q (texts (snd kd))) else None)"
      if kd: "kd \<in> set (ik_docs idx)" for kd
      unfolding ik_fieldScore_spec[OF inv kd] Let_def bm25f_term_pos(1)[OF fin] ..
    then show ?thesis
      using df False by (auto simp: ik_score_term_def score_docs_def intro!: fold_cong split: option.splits)
  qed
qed

lemma add_bonus:
  "map_get i (fold (\<lambda>p sc. if P p then add_score k 5 sc else sc) ps sc) =
     (if i = k \<and> filter P ps \<noteq> [] then Some (map_at i sc + 5 * real (length (filter P ps))) else map_get i sc)"
  by (induction ps arbitrary: sc) (auto simp: add_score_def map_at_def algebra_simps split: option.splits if_splits)

lemma phrase_bonus_get:
  "keys_distinct fst docs \<Longrightarrow>
   map_get i (phrase_bonus phrases docs sc) = (case map_get i docs of
       None \<Rightarrow> map_get i sc
     | Some d \<Rightarrow> if filter (phrase_in (texts d)) phrases = [] then map_get i sc
                 else Some (map_at i sc + 5 * real (length (filter (phrase_in (texts d)) phrases))))"
proof (induction docs arbitrary: sc)
  case (Cons kd docs)
  obtain j d where kd: "kd = (j, d)" by (cases kd)
  have docs: "keys_distinct fst docs" "map_get j docs = None"
    using Cons.prems kd map_get_keys[of j docs] by (auto simp: keys_distinct_def)
  have P: "containsPhrase (fd_Name d) (fd_Summary d) (fd_Category d) (fd_Tags d) = phrase_in (texts d)" for d
    by (rule ext) (simp add: phrase_in_def texts_def)
  show ?case
    using Cons.IH[OF docs(1)] docs(2)
    by (auto simp: phrase_bonus_def kd P add_bonus map_at_def split: option.splits)
qed (simp add: phrase_bonus_def)

lemma bonus_keys:
  "keys_distinct fst sc \<Longrightarrow> keys_distinct fst (fold (\<lambda>p sc. if P p then add_score k 5 sc else sc) ps sc)"
  by (induction ps arbitrary: sc) (auto simp: add_score_keys)

lemma phrase_bonus_keys: "keys_distinct fst sc \<Longrightarrow> keys_distinct fst (phrase_bonus phrases docs sc)"
proof (induction docs arbitrary: sc)
  case (Cons kd docs)
  obtain j d where "kd = (j, d)" by (cases kd)
  then show ?case
    using Cons.IH[OF bonus_keys[OF Cons.prems, where P = "containsPhrase (fd_Name d) (fd_Summary d) (fd_Category d) (fd_Tags d)"
      and k = j and ps = phrases]] by (simp add: phrase_bonus_def)
qed (simp add: phrase_bonus_def)

lemma ik_scores_get:
  assumes inv: "ik_inv idx" and D_def: "D = ik_abs idx"
  shows "map_get i (phrase_bonus phrases (ik_docs idx) (fold (ik_score_term idx) qs [])) =
      (case D i of None \<Rightarrow> None
       | Some d \<Rightarrow> if set (all_tokens d) \<inter> set qs = {} \<and> filter (phrase_in d) phrases = [] then None
                   else Some (bm25f D qs phrases d))"
    and "keys_distinct fst (phrase_bonus phrases (ik_docs idx) (fold (ik_score_term idx) qs []))"
proof -
  let ?g = "\<lambda>q d. if q \<in> set (all_tokens (texts d)) then Some (bm25f_term D q (texts d)) else None"
  have f: "ik_score_term idx = (\<lambda>q sc. score_docs (?g q) (ik_docs idx) sc)"
    unfolding D_def by (intro ext) (rule ik_score_term_spec[OF inv])
  have d: "keys_distinct fst (ik_docs idx)" using inv by (simp add: ik_inv_def)
  have fin: "finite (dom D)" by (simp add: D_def ik_abs_dom)
  have "(case ?g q d of None \<Rightarrow> 0 | Some s \<Rightarrow> s) = bm25f_term D q (texts d)" for q d
    using bm25f_term_pos[OF fin, of q "texts d"] by auto
  then have sum: "(\<Sum>q\<leftarrow>qs. case ?g q d of None \<Rightarrow> 0 | Some s \<Rightarrow> s) = (\<Sum>q\<leftarrow>qs. bm25f_term D q (texts d))" for d
    by presburger
  have zero: "(\<Sum>q\<leftarrow>qs. bm25f_term D q d) = 0" if "set (all_tokens d) \<inter> set qs = {}" for d
  proof -
    have "bm25f_term D q d = 0" if "q \<in> set qs" for q
      using bm25f_term_pos[OF fin, of q d] that \<open>set (all_tokens d) \<inter> set qs = {}\<close> by force
    then show ?thesis by (simp cong: map_cong)
  qed
  have none: "(\<forall>q\<in>set qs. ?g q d = None) \<longleftrightarrow> set (all_tokens (texts d)) \<inter> set qs = {}" for d by auto
  have terms: "map_get i (fold (ik_score_term idx) qs []) = (case map_get i (ik_docs idx) of None \<Rightarrow> None
      | Some d \<Rightarrow> if set (all_tokens (texts d)) \<inter> set qs = {} then None
                  else Some (\<Sum>q\<leftarrow>qs. bm25f_term D q (texts d)))"
    unfolding f score_terms_get[OF d] none sum by (simp split: option.splits)
  show "map_get i (phrase_bonus phrases (ik_docs idx) (fold (ik_score_term idx) qs [])) =
      (case D i of None \<Rightarrow> None
       | Some d \<Rightarrow> if set (all_tokens d) \<inter> set qs = {} \<and> filter (phrase_in d) phrases = [] then None
                   else Some (bm25f D qs phrases d))"
  proof (cases "map_get i (ik_docs idx)")
    case None
    then show ?thesis using terms by (simp add: phrase_bonus_get[OF d] D_def ik_abs_def)
  next
    case (Some fd)
    have at: "map_at i (fold (ik_score_term idx) qs []) = (\<Sum>q\<leftarrow>qs. bm25f_term D q (texts fd))"
      using terms Some zero[of "texts fd"] by (simp add: map_at_def)
    have "D i = Some (texts fd)" using Some by (simp add: D_def ik_abs_def)
    then show ?thesis using Some terms at by (simp add: phrase_bonus_get[OF d] bm25f_def)
  qed
  have "keys_distinct fst (fold (ik_score_term idx) qs [])" unfolding f by (simp add: score_terms_keys)
  then show "keys_distinct fst (phrase_bonus phrases (ik_docs idx) (fold (ik_score_term idx) qs []))"
    by (rule phrase_bonus_keys)
qed

text \<open>The field-boosted index is its scoring formula over the documents it holds. After any sequence of
  additions, updates and removals, with \<open>D\<close> the texts of the documents then indexed, a query that has
  terms returns exactly the documents that share a term with it or contain one of its quoted phrases, each
  once, best first, with the score \<open>bm25f\<close>: three times the BM25 score of the name, twice that of the
  tags, that of the summary, one and a half times that of the category, summed over the query terms, and
  five for every quoted phrase it contains; a limit cuts this list.\<close>

theorem improved_search_is_bm25f:
  assumes "\<And>xs. mset (ro xs) = mset xs"
    and "idx = fold ik_step ops NewImprovedKeywordIndex" and "D = fold ik_spec ops Map.empty"
    and "qs = tk (ToLower query)" and "phrases = extractPhrases query" and "qs \<noteq> []"
  shows "ik_Count idx = int (card (dom D)) \<and>
    set (ik_Search ro query 0 idx) =
      {\<lparr>kr_DocID = i, kr_Score = bm25f D qs phrases d\<rparr> | i d. D i = Some d \<and>
         (set (all_tokens d) \<inter> set qs \<noteq> {} \<or> (\<exists>p\<in>set phrases. phrase_in d p))} \<and>
    distinct (map kr_DocID (ik_Search ro query 0 idx)) \<and>
    sorted_wrt (\<lambda>a b. kr_Score b \<le> kr_Score a) (ik_Search ro query 0 idx) \<and>
    ik_Search ro query maxResults idx =
      (if maxResults > 0 then take (nat maxResults) (ik_Search ro query 0 idx) else ik_Search ro query 0 idx)"
proof -
  have inv: "ik_inv idx" and D: "ik_abs idx = D"
    using ik.run_inv[OF ik_New(1)] ik_run_abs[OF ik_New(1)] ik_New(2) assms(2,3) by simp_all
  have cfg: "ik_tokenizer idx = DefaultTokenizerConfig" using inv by (simp add: ik_inv_def)
  let ?sc = "phrase_bonus phrases (ik_docs idx) (fold (ik_score_term idx) qs [])"
  note sc = ik_scores_get[OF inv D[symmetric], where phrases = phrases and qs = qs]
  note ranked = rank_scores_correct[where ro = ro, OF sc(2) assms(1)]
  have all: "(map_get i ?sc = Some s) = (\<exists>d. D i = Some d \<and>
      (set (all_tokens d) \<inter> set qs \<noteq> {} \<or> (\<exists>p\<in>set phrases. phrase_in d p)) \<and> s = bm25f D qs phrases d)" for i s
    using sc(1)[of i] by (auto simp: filter_empty_conv split: option.splits if_splits)
  have search: "ik_Search ro query m idx = rank_scores ro m ?sc" for m
  proof (cases "ik_docCount idx = 0")
    case True
    then have "D i = None" for i using ik_abs_count[OF inv] ik_abs_dom[of idx] D by auto
    then have "set (rank_scores ro 0 ?sc) = {}" unfolding ranked(1) all by simp
    then have "rank_scores ro m ?sc = []" using ranked(4)[of m] by simp
    then show ?thesis using True by (simp add: ik_Search_def)
  qed (use assms(4-6) cfg in \<open>simp add: ik_Search_def tk_def Let_def\<close>)
  have results: "set (rank_scores ro 0 ?sc) =
      {\<lparr>kr_DocID = i, kr_Score = bm25f D qs phrases d\<rparr> | i d. D i = Some d \<and>
         (set (all_tokens d) \<inter> set qs \<noteq> {} \<or> (\<exists>p\<in>set phrases. phrase_in d p))}"
    unfolding ranked(1) all by blast
  have count: "ik_Count idx = int (card (dom D))"
    using ik_abs_count[OF inv] by (simp add: ik_Count_def D)
  show ?thesis
    unfolding search by (intro conjI count results ranked(2-4))
qed

text \<open>The instance: an empty pair of quotes is a phrase that every document contains, so the query finds a
  document that has nothing in common with it.\<close>

theorem improved_search_is_bm25f_witness:
  "map kr_DocID (ik_Search rev (''cat'' @ [CHR 0x22, CHR 0x22]) 0
     (fold ik_step [Index_doc ''a'' ''bot'' '''' '''' [], Index_doc ''b'' ''fox'' '''' '''' [], Remove_doc ''b'']
       NewImprovedKeywordIndex)) = [''a'']"
proof -
  let ?ops = "[Index_doc ''a'' ''bot'' '''' '''' [], Index_doc ''b'' ''fox'' '''' '''' [], Remove_doc ''b'']"
  let ?q = "''cat'' @ [CHR 0x22, CHR 0x22]" and ?d = "\<lparr>ft_name = ''bot'', ft_summary = '''', ft_category = '''', ft_tags = []\<rparr>"
  have tok: "tk (ToLower ?q) = [''cat'']" "extractPhrases ?q = ['''']" "phrase_in ?d ''''" by code_simp+
  have D: "fold ik_spec ?ops Map.empty = [''a'' \<mapsto> ?d]" by (auto simp: fun_upd_twist)
  note r = improved_search_is_bm25f[of rev "fold ik_step ?ops NewImprovedKeywordIndex" ?ops "[''a'' \<mapsto> ?d]"
      "[''cat'']" ?q "['''']" 0, OF mset_rev refl D[symmetric] tok(1)[symmetric] tok(2)[symmetric]]
  have "kr_DocID ` set (ik_Search rev ?q 0 (fold ik_step ?ops NewImprovedKeywordIndex)) = {''a''}"
    using r tok(3) by (auto split: if_splits)
  then have "set (map kr_DocID (ik_Search rev ?q 0 (fold ik_step ?ops NewImprovedKeywordIndex))) = {''a''}" by simp
  moreover have "distinct (map kr_DocID (ik_Search rev ?q 0 (fold ik_step ?ops NewImprovedKeywordIndex)))" using r by blast
  ultimately show ?thesis by (rule singleton_list[rotated])
qed

end
