(* ===== verification/Semantic.thy ===== *)
theory Semantic
  imports Terms
begin

text \<open>
  The vector index (\<open>src/internal/search/semantic.go\<close>): vectors are normalised when they are stored,
  the query when it is searched, and the score is their dot product. \<open>float32\<close> and \<open>float64\<close> are
  real numbers. The order of \<open>range idx.vectors\<close> is the argument \<open>ro\<close>.
\<close>

record SemanticIndex =
  si_vectors :: "(string \<times> real list) list"
  si_dimensions :: nat

definition NewSemanticIndex :: "nat \<Rightarrow> SemanticIndex" where
  "NewSemanticIndex dimensions = \<lparr>si_vectors = [], si_dimensions = dimensions\<rparr>"

definition sq_mag :: "real list \<Rightarrow> real" where
  "sq_mag v = (\<Sum>x\<leftarrow>v. x * x)"

definition normalize :: "real list \<Rightarrow> real list" where
  "normalize v = (let mag = sqrt (sq_mag v) in if mag = 0 then v else map (\<lambda>x. x / mag) v)"

definition cosineSimilarity :: "real list \<Rightarrow> real list \<Rightarrow> real" where
  "cosineSimilarity a b = (if length a \<noteq> length b then 0 else (\<Sum>(x, y)\<leftarrow>zip a b. x * y))"

definition sem_Index :: "string \<Rightarrow> real list \<Rightarrow> SemanticIndex \<Rightarrow> SemanticIndex" where
  "sem_Index did vec idx =
     (if length vec \<noteq> si_dimensions idx then idx
      else idx\<lparr>si_vectors := map_set did (normalize vec) (si_vectors idx)\<rparr>)"

definition sem_Remove :: "string \<Rightarrow> SemanticIndex \<Rightarrow> SemanticIndex" where
  "sem_Remove did idx = idx\<lparr>si_vectors := map_del did (si_vectors idx)\<rparr>"

text \<open>A result is a document and its score, as in the keyword index.\<close>

definition sem_Search :: "(string list \<Rightarrow> string list) \<Rightarrow> real list \<Rightarrow> int \<Rightarrow> SemanticIndex \<Rightarrow> KeywordResult list" where
  "sem_Search ro queryVec maxResults idx =
     (if length queryVec \<noteq> si_dimensions idx then []
      else let normalizedQuery = normalize queryVec;
               sims = List.map_filter (\<lambda>did. case map_get did (si_vectors idx) of None \<Rightarrow> None
                 | Some vec \<Rightarrow> (let sim = cosineSimilarity normalizedQuery vec
                               in if sim > 0 then Some \<lparr>kr_DocID = did, kr_Score = sim\<rparr> else None))
                 (ro (map fst (si_vectors idx)));
               results = sort_Slice by_score sims
           in if maxResults > 0 \<and> int (length results) > maxResults then take (nat maxResults) results else results)"

definition sem_Count :: "SemanticIndex \<Rightarrow> nat" where
  "sem_Count idx = length (si_vectors idx)"

section \<open>Scores are cosines\<close>

definition dot :: "real list \<Rightarrow> real list \<Rightarrow> real" where
  "dot a b = (\<Sum>(x, y)\<leftarrow>zip a b. x * y)"

lemma dot_self: "dot a a = sq_mag a"
  by (induction a) (simp_all add: dot_def sq_mag_def)

lemma sq_mag_nonneg: "0 \<le> sq_mag v"
  by (induction v) (simp_all add: sq_mag_def)

lemma dot_le: "length a = length b \<Longrightarrow> 2 * dot a b \<le> sq_mag a + sq_mag b"
proof (induction a b rule: list_induct2)
  case (Cons x xs y ys)
  have "2 * (x * y) \<le> x * x + y * y" using zero_le_square[of "x - y"] by (simp add: algebra_simps)
  then show ?case using Cons by (simp add: dot_def sq_mag_def algebra_simps)
qed (simp add: dot_def sq_mag_def)

lemma dot_scale: "dot (map (\<lambda>x. x / s) a) (map (\<lambda>x. x / t) b) = dot a b / (s * t)"
  by (induction a b rule: list_induct2') (simp_all add: dot_def add_divide_distrib)

lemma length_normalize [simp]: "length (normalize v) = length v"
  by (simp add: normalize_def Let_def)

lemma normalize_unit: "sq_mag v \<noteq> 0 \<Longrightarrow> sq_mag (normalize v) = 1"
  using sq_mag_nonneg[of v] dot_scale[of "sqrt (sq_mag v)" v "sqrt (sq_mag v)" v]
  by (simp add: normalize_def Let_def dot_self)

lemma sq_mag_zero: "sq_mag v = 0 \<longleftrightarrow> set v \<subseteq> {0}"
proof (induction v)
  case (Cons x v)
  then show ?case
    using sq_mag_nonneg[of v] zero_le_square[of x] by (auto simp: sq_mag_def add_nonneg_eq_0_iff)
qed (simp add: sq_mag_def)

lemma dot_zero: "set a \<subseteq> {0} \<Longrightarrow> dot a b = 0" "set b \<subseteq> {0} \<Longrightarrow> dot a b = 0"
  by (induction a b rule: list_induct2') (simp_all add: dot_def)

text \<open>The cosine of two vectors, zero when one of them is the zero vector.\<close>

definition cos_of :: "real list \<Rightarrow> real list \<Rightarrow> real" where
  "cos_of a b = (if sq_mag a = 0 \<or> sq_mag b = 0 then 0 else dot a b / (sqrt (sq_mag a) * sqrt (sq_mag b)))"

lemma normalized_cos:
  assumes "length a = length b"
  shows "cosineSimilarity (normalize a) (normalize b) = cos_of a b"
proof -
  have norm: "normalize v = map (\<lambda>x. x / sqrt (sq_mag v)) v" if "sq_mag v \<noteq> 0" for v
    using that sq_mag_nonneg[of v] by (simp add: normalize_def Let_def)
  have zero: "normalize v = v" if "sq_mag v = 0" for v using that by (simp add: normalize_def)
  have "cosineSimilarity (normalize a) (normalize b) = dot (normalize a) (normalize b)"
    using assms by (simp add: cosineSimilarity_def dot_def)
  also have "\<dots> = cos_of a b"
  proof (cases "sq_mag a = 0 \<or> sq_mag b = 0")
    case True
    then show ?thesis using zero[of a] zero[of b] dot_zero sq_mag_zero by (auto simp: cos_of_def)
  next
    case False
    then show ?thesis using norm[of a] norm[of b] dot_scale by (simp add: cos_of_def)
  qed
  finally show ?thesis .
qed

lemma cos_of_le: "length a = length b \<Longrightarrow> cos_of a b \<le> 1"
proof -
  assume len: "length a = length b"
  show "cos_of a b \<le> 1"
  proof (cases "sq_mag a = 0 \<or> sq_mag b = 0")
    case False
    then have "2 * dot (normalize a) (normalize b) \<le> 2"
      using dot_le[of "normalize a" "normalize b"] normalize_unit[of a] normalize_unit[of b] len by simp
    then show ?thesis
      using normalized_cos[OF len] len by (simp add: cosineSimilarity_def dot_def[symmetric])
  qed (simp add: cos_of_def)
qed

section \<open>The index holds the last vectors\<close>

datatype sem_op = Sem_Index string "real list" | Sem_Remove string

fun sem_step :: "sem_op \<Rightarrow> SemanticIndex \<Rightarrow> SemanticIndex" where
  "sem_step (Sem_Index did vec) idx = sem_Index did vec idx"
| "sem_step (Sem_Remove did) idx = sem_Remove did idx"

text \<open>The specification keeps the vectors as they were given; one of the wrong dimension is ignored.\<close>

fun sem_spec :: "nat \<Rightarrow> sem_op \<Rightarrow> (string \<rightharpoonup> real list) \<Rightarrow> (string \<rightharpoonup> real list)" where
  "sem_spec n (Sem_Index did vec) V = (if length vec = n then V(did \<mapsto> vec) else V)"
| "sem_spec n (Sem_Remove did) V = V(did := None)"

definition sem_rel :: "nat \<Rightarrow> SemanticIndex \<Rightarrow> (string \<rightharpoonup> real list) \<Rightarrow> bool" where
  "sem_rel n idx V = (si_dimensions idx = n \<and> keys_distinct fst (si_vectors idx) \<and>
     (\<forall>i. map_get i (si_vectors idx) = map_option normalize (V i)) \<and> (\<forall>i v. V i = Some v \<longrightarrow> length v = n))"

lemma sem_step_rel: "sem_rel n idx V \<Longrightarrow> sem_rel n (sem_step op idx) (sem_spec n op V)"
  by (cases op) (auto simp: sem_rel_def sem_Index_def sem_Remove_def keys_distinct_map_ops map_get_del)

lemma sem_run_rel: "sem_rel n idx V \<Longrightarrow> sem_rel n (fold sem_step ops idx) (fold (sem_spec n) ops V)"
  by (induction ops arbitrary: idx V) (simp_all add: sem_step_rel)

lemma sem_New: "sem_rel n (NewSemanticIndex n) Map.empty"
  by (simp add: sem_rel_def NewSemanticIndex_def)

lemma sem_sims:
  assumes rel: "sem_rel n idx V" and ro: "mset (ro (map fst (si_vectors idx))) = mset (map fst (si_vectors idx))"
    and q: "length q = n"
  shows "set (sem_Search ro q 0 idx) = {\<lparr>kr_DocID = i, kr_Score = cos_of q v\<rparr> | i v. V i = Some v \<and> 0 < cos_of q v}"
    and "distinct (map kr_DocID (sem_Search ro q 0 idx))"
    and "sorted_wrt (\<lambda>a b. kr_Score b \<le> kr_Score a) (sem_Search ro q 0 idx)"
    and "sem_Search ro q m idx = (if m > 0 then take (nat m) (sem_Search ro q 0 idx) else sem_Search ro q 0 idx)"
proof -
  define f where "f = (\<lambda>did. case map_get did (si_vectors idx) of None \<Rightarrow> None
    | Some vec \<Rightarrow> (let sim = cosineSimilarity (normalize q) vec in if sim > 0 then Some \<lparr>kr_DocID = did, kr_Score = sim\<rparr> else None))"
  let ?keys = "ro (map fst (si_vectors idx))"
  have keys: "set ?keys = fst ` set (si_vectors idx)" "distinct ?keys"
    using ro rel by (metis set_mset_mset set_map, metis sem_rel_def keys_distinct_def mset_eq_imp_distinct_iff)
  have get: "map_get i (si_vectors idx) = map_option normalize (V i)" "V i = Some v \<Longrightarrow> length v = n" for i v
    using rel by (auto simp: sem_rel_def)
  have f: "f i = (case V i of None \<Rightarrow> None
      | Some v \<Rightarrow> if 0 < cos_of q v then Some \<lparr>kr_DocID = i, kr_Score = cos_of q v\<rparr> else None)" for i
    using get(1)[of i] get(2)[of i] q normalized_cos[of q] by (auto simp: f_def Let_def split: option.splits)
  have search: "sem_Search ro q m idx = (let results = sort_Slice by_score (List.map_filter f ?keys)
      in if m > 0 \<and> int (length results) > m then take (nat m) results else results)" for m
    using rel q by (simp add: sem_Search_def f_def sem_rel_def Let_def)
  have fi: "f i = Some r \<Longrightarrow> kr_DocID r = i" for i r by (auto simp: f split: option.splits if_splits)
  have mem: "i \<in> set ?keys" if "f i = Some r" for i r
    using that keys(1) map_get_keys[of i "si_vectors idx"] by (auto simp: f_def split: option.splits)
  have "set (List.map_filter f ?keys) = {r. \<exists>i. f i = Some r}"
    using mem by (auto simp: List.map_filter_def image_iff) (metis option.sel)
  also have "\<dots> = {\<lparr>kr_DocID = i, kr_Score = cos_of q v\<rparr> | i v. V i = Some v \<and> 0 < cos_of q v}"
    by (auto simp: f split: option.splits if_splits)
  finally show "set (sem_Search ro q 0 idx) = {\<lparr>kr_DocID = i, kr_Score = cos_of q v\<rparr> | i v. V i = Some v \<and> 0 < cos_of q v}"
    by (simp add: search)
  have "map kr_DocID (List.map_filter f xs) = filter (\<lambda>i. f i \<noteq> None) xs" for xs
    by (induction xs) (auto simp: List.map_filter_simps fi split: option.splits)
  then show "distinct (map kr_DocID (sem_Search ro q 0 idx))" using keys(2) by (simp add: search)
  show "sorted_wrt (\<lambda>a b. kr_Score b \<le> kr_Score a) (sem_Search ro q 0 idx)"
    using ranked.sorted_by_sort_Slice by (simp add: search ranked.sorted_by_def by_score_def not_less)
  show "sem_Search ro q m idx = (if m > 0 then take (nat m) (sem_Search ro q 0 idx) else sem_Search ro q 0 idx)"
    by (auto simp: search Let_def)
qed

text \<open>C20: semantic search is cosine similarity over the vectors last indexed. After any sequence of
  operations, with \<open>V\<close> the vectors of the right dimension that were indexed last and not removed, a
  search returns exactly the documents whose vector has a positive cosine with the query, once each, with that
  cosine, which is at most one, as their score, best first; a limit cuts the list.\<close>

theorem semantic_search_is_cosine:
  assumes "\<And>xs. mset (ro xs) = mset xs" and "length q = n"
    and "idx = fold sem_step ops (NewSemanticIndex n)" and "V = fold (sem_spec n) ops Map.empty"
  shows "set (sem_Search ro q 0 idx) = {\<lparr>kr_DocID = i, kr_Score = cos_of q v\<rparr> | i v. V i = Some v \<and> 0 < cos_of q v} \<and>
    distinct (map kr_DocID (sem_Search ro q 0 idx)) \<and>
    list_all (\<lambda>r. kr_Score r \<le> 1) (sem_Search ro q 0 idx) \<and>
    sorted_wrt (\<lambda>a b. kr_Score b \<le> kr_Score a) (sem_Search ro q 0 idx) \<and>
    sem_Search ro q m idx = (if m > 0 then take (nat m) (sem_Search ro q 0 idx) else sem_Search ro q 0 idx)"
proof -
  have rel: "sem_rel n idx V" unfolding assms(3,4) by (rule sem_run_rel[OF sem_New])
  note s = sem_sims[where ro = ro, OF rel assms(1) assms(2)]
  have "\<forall>i v. V i = Some v \<longrightarrow> length v = n" using rel by (simp add: sem_rel_def)
  then have "list_all (\<lambda>r. kr_Score r \<le> 1) (sem_Search ro q 0 idx)"
    unfolding list_all_iff s(1) using cos_of_le assms(2) by auto
  then show ?thesis by (intro conjI s)
qed

theorem semantic_search_is_cosine_witness:
  "set (sem_Search rev [3, 4] 0 (fold sem_step [Sem_Index ''a'' [6, 8], Sem_Index ''b'' [1], Sem_Index ''c'' [- 1, 0]] (NewSemanticIndex 2))) =
    {\<lparr>kr_DocID = ''a'', kr_Score = 1\<rparr>}"
proof -
  have V: "fold (sem_spec 2) [Sem_Index ''a'' [6, 8], Sem_Index ''b'' [1], Sem_Index ''c'' [- 1, 0]] Map.empty =
      [''a'' \<mapsto> [6, 8], ''c'' \<mapsto> [- 1, 0]]" by simp
  have m: "sq_mag [3, 4] = 25" "sq_mag [6, 8] = 100" "sq_mag [- 1, 0] = 1" "dot [3, 4] [6, 8] = 50" "dot [3, 4] [- 1, 0] = - 3"
    by (simp_all add: sq_mag_def dot_def)
  have r: "sqrt 25 = 5" "sqrt 100 = 10" by (rule real_sqrt_unique; simp add: power2_eq_square)+
  have c: "cos_of [3, 4] [6, 8] = 1" "cos_of [3, 4] [- 1, 0] \<le> 0"
    unfolding cos_of_def m r by simp_all
  have "{\<lparr>kr_DocID = i, kr_Score = cos_of [3, 4] v\<rparr> | i v. [''a'' \<mapsto> [6, 8], ''c'' \<mapsto> [- 1, 0]] i = Some v \<and> 0 < cos_of [3, 4] v} =
      {\<lparr>kr_DocID = ''a'', kr_Score = 1\<rparr>}" (is "?S = ?R")
  proof
    show "?S \<subseteq> ?R" using c by (auto split: if_splits)
    show "?R \<subseteq> ?S" using c(1) by (auto intro!: exI[of _ "''a''"] exI[of _ "[6, 8]"])
  qed
  then show ?thesis
    using semantic_search_is_cosine[where ro = rev and q = "[3, 4]" and n = 2 and m = 0, OF mset_rev _ refl V[symmetric]] by simp
qed

end
