(* ===== verification/Ranking.thy ===== *)
theory Ranking
  imports Store Terms
begin

text \<open>
  Ranking of search candidates (\<open>src/internal/ranking/ranking.go\<close>): the weighted sum with its clamp,
  reciprocal rank fusion, removal of duplicates and the conversion to results. A \<open>float64\<close> is a real
  number, \<open>sort.SliceStable\<close> the stable insertion sort of the prelude; an Agent Card is a value of
  the type parameter. The clock and the time format are arguments.
\<close>

section \<open>Candidates and results\<close>

record 'card CandidateResult =
  cr_EntityID :: string
  cr_Name :: string
  cr_Summary :: string
  cr_Category :: string
  cr_Tags :: "string list"
  cr_EntityURL :: string
  cr_HomeRegistry :: string
  cr_Status :: string
  cr_UpdatedAt :: string
  cr_TextRelevance :: real
  cr_SemanticSimilarity :: real
  cr_TrustScore :: real
  cr_Freshness :: real
  cr_Availability :: real
  cr_FinalScore :: real
  cr_Card :: "'card option"
  cr_FQAN :: string
  cr_DeveloperHandle :: string
  cr_DeveloperID :: string
  cr_EntityType :: string
  cr_OpenAPIURL :: string
  cr_EntityPricing :: "EntityPricing option"

record ScoreBreakdown =
  sb_TextRelevance :: real
  sb_SemanticSimilarity :: real
  sb_TrustScore :: real
  sb_Freshness :: real
  sb_Availability :: real

record 'card SearchResult =
  res_EntityID :: string
  res_Name :: string
  res_Summary :: string
  res_Category :: string
  res_Tags :: "string list"
  res_CapabilitySummary :: "CapabilitySummary option"
  res_HomeRegistry :: string
  res_Status :: string
  res_DeveloperID :: string
  res_Score :: real
  res_ScoreBreakdown :: "ScoreBreakdown option"
  res_Card :: "'card option"
  res_FQAN :: string
  res_DeveloperHandle :: string
  res_EntityType :: string
  res_URL :: string
  res_OpenAPIURL :: string
  res_EntityPricing :: "EntityPricing option"

record RankingConfig =
  rc_Method :: string
  rc_TextRelevanceWeight :: real
  rc_SemanticSimilarityWeight :: real
  rc_TrustWeight :: real
  rc_FreshnessWeight :: real
  rc_AvailabilityWeight :: real

section \<open>The ranker\<close>

text \<open>\<open>time.Since(t).Hours() / 24\<close> with times in seconds.\<close>

definition computeFreshness :: "timefmt \<Rightarrow> int \<Rightarrow> string \<Rightarrow> real" where
  "computeFreshness T now updatedAt =
     (if updatedAt = '''' then 1 / 2
      else case tf_Parse T updatedAt of
             None \<Rightarrow> 1 / 2
           | Some t \<Rightarrow>
               (let daysSince = real_of_int (now - t) / 3600 / 24;
                    daysSince = (if daysSince < 0 then 0 else daysSince)
                in exp (- (23 / 1000) * daysSince)))"

definition raw_score :: "RankingConfig \<Rightarrow> 'card CandidateResult \<Rightarrow> real" where
  "raw_score cfg c = rc_TextRelevanceWeight cfg * cr_TextRelevance c +
     rc_SemanticSimilarityWeight cfg * cr_SemanticSimilarity c + rc_TrustWeight cfg * cr_TrustScore c +
     rc_FreshnessWeight cfg * cr_Freshness c + rc_AvailabilityWeight cfg * cr_Availability c"

definition clamp :: "real \<Rightarrow> real" where
  "clamp x = (let x = (if x > 1 then 1 else x) in if x < 0 then 0 else x)"

definition RankWeighted :: "timefmt \<Rightarrow> int \<Rightarrow> RankingConfig \<Rightarrow> 'card CandidateResult list \<Rightarrow> 'card CandidateResult list" where
  "RankWeighted T now cfg candidates =
     (let tmp = map (\<lambda>c. let c = c\<lparr>cr_Freshness := computeFreshness T now (cr_UpdatedAt c)\<rparr> in (c, raw_score cfg c)) candidates;
          tmp = sort_Slice (\<lambda>a b. snd a > snd b) tmp
      in map (\<lambda>(c, raw). c\<lparr>cr_FinalScore := clamp raw\<rparr>) tmp)"

text \<open>The position of every entity in a list sorted by one of the scores, from 1; a later entry of the same
  entity overwrites an earlier one, and a missing entity has rank 0.\<close>

definition rank_map :: "('card CandidateResult \<Rightarrow> real) \<Rightarrow> 'card CandidateResult list \<Rightarrow> (string \<times> nat) list" where
  "rank_map score candidates =
     fold (\<lambda>(i, c) m. map_set (cr_EntityID c) (i + 1) m)
       (List.enumerate 0 (sort_Slice (\<lambda>a b. score a > score b) candidates)) []"

definition rrf_k :: real where "rrf_k = 60"

definition rrf_score :: "'card CandidateResult list \<Rightarrow> 'card CandidateResult \<Rightarrow> real" where
  "rrf_score candidates c =
     1 / (rrf_k + real (map_at (cr_EntityID c) (rank_map cr_TextRelevance candidates))) +
     1 / (rrf_k + real (map_at (cr_EntityID c) (rank_map cr_SemanticSimilarity candidates))) +
     1 / (rrf_k + real (map_at (cr_EntityID c) (rank_map cr_TrustScore candidates)))"

definition RankRRF :: "'card CandidateResult list \<Rightarrow> 'card CandidateResult list" where
  "RankRRF candidates = sort_Slice (\<lambda>a b. cr_FinalScore a > cr_FinalScore b)
     (map (\<lambda>c. c\<lparr>cr_FinalScore := rrf_score candidates c\<rparr>) candidates)"

definition Rank :: "timefmt \<Rightarrow> int \<Rightarrow> RankingConfig \<Rightarrow> 'card CandidateResult list \<Rightarrow> 'card CandidateResult list" where
  "Rank T now cfg candidates = (if rc_Method cfg = ''rrf'' then RankRRF candidates else RankWeighted T now cfg candidates)"

fun dedup_loop :: "'card CandidateResult list \<Rightarrow> string set \<Rightarrow> 'card CandidateResult list \<Rightarrow> 'card CandidateResult list" where
  "dedup_loop [] seen result = result"
| "dedup_loop (c # cs) seen result =
     (if cr_EntityID c \<notin> seen then dedup_loop cs (insert (cr_EntityID c) seen) (result @ [c])
      else dedup_loop cs seen result)"

definition Deduplicate :: "'card CandidateResult list \<Rightarrow> 'card CandidateResult list" where
  "Deduplicate candidates = dedup_loop candidates {} []"

definition to_result :: "'card CandidateResult \<Rightarrow> 'card SearchResult" where
  "to_result c = \<lparr>res_EntityID = cr_EntityID c, res_Name = cr_Name c, res_Summary = cr_Summary c, res_Category = cr_Category c,
     res_Tags = cr_Tags c, res_CapabilitySummary = None, res_HomeRegistry = cr_HomeRegistry c, res_Status = cr_Status c,
     res_DeveloperID = cr_DeveloperID c, res_Score = cr_FinalScore c,
     res_ScoreBreakdown = Some \<lparr>sb_TextRelevance = cr_TextRelevance c, sb_SemanticSimilarity = cr_SemanticSimilarity c,
       sb_TrustScore = cr_TrustScore c, sb_Freshness = cr_Freshness c, sb_Availability = cr_Availability c\<rparr>,
     res_Card = cr_Card c, res_FQAN = cr_FQAN c, res_DeveloperHandle = cr_DeveloperHandle c,
     res_EntityType = cr_EntityType c, res_URL = cr_EntityURL c, res_OpenAPIURL = cr_OpenAPIURL c,
     res_EntityPricing = cr_EntityPricing c\<rparr>"

definition ToSearchResults :: "'card CandidateResult list \<Rightarrow> 'card SearchResult list" where
  "ToSearchResults candidates = map to_result candidates"

section \<open>Deduplication\<close>

lemma dedup_loop_eq:
  "dedup_loop cs seen result = result @ dedup_loop cs seen []"
proof (induction cs arbitrary: seen result)
  case (Cons c cs)
  show ?case
    using Cons.IH[of "insert (cr_EntityID c) seen" "result @ [c]"] Cons.IH[of "insert (cr_EntityID c) seen" "[c]"]
      Cons.IH[of seen result] by simp
qed simp

lemma dedup_loop_ids:
  "distinct (map cr_EntityID (dedup_loop cs seen [])) \<and>
   cr_EntityID ` set (dedup_loop cs seen []) = cr_EntityID ` set cs - seen \<and> set (dedup_loop cs seen []) \<subseteq> set cs"
proof (induction cs arbitrary: seen)
  case (Cons c cs)
  show ?case
    using Cons.IH[of seen] Cons.IH[of "insert (cr_EntityID c) seen"] dedup_loop_eq[of cs "insert (cr_EntityID c) seen" "[c]"]
    by auto
qed simp

lemma Deduplicate_ids:
  "distinct (map cr_EntityID (Deduplicate cs))" "cr_EntityID ` set (Deduplicate cs) = cr_EntityID ` set cs"
  "set (Deduplicate cs) \<subseteq> set cs"
  using dedup_loop_ids[of cs "{}"] by (simp_all add: Deduplicate_def)

lemma Deduplicate_append: "c \<in> set (Deduplicate cs) \<Longrightarrow> c \<in> set (Deduplicate (cs @ ds))"
proof -
  have "set (dedup_loop cs seen []) \<subseteq> set (dedup_loop (cs @ ds) seen [])" for seen
  proof (induction cs arbitrary: seen)
    case (Cons c cs)
    show ?case
      using Cons.IH[of seen] Cons.IH[of "insert (cr_EntityID c) seen"] dedup_loop_eq[of cs "insert (cr_EntityID c) seen" "[c]"]
        dedup_loop_eq[of "cs @ ds" "insert (cr_EntityID c) seen" "[c]"] by auto
  qed simp
  then show "c \<in> set (Deduplicate cs) \<Longrightarrow> c \<in> set (Deduplicate (cs @ ds))" by (auto simp: Deduplicate_def)
qed

section \<open>Weighted ranking\<close>

lemma clamp_bounds: "0 \<le> clamp x" "clamp x \<le> 1" "x \<le> y \<Longrightarrow> clamp x \<le> clamp y"
  by (auto simp: clamp_def Let_def)

interpretation desc: slice_key "\<lambda>a b. score a > score b" "\<lambda>a. - score a" for score :: "'a \<Rightarrow> real"
  by unfold_locales simp

lemma computeFreshness_bounds: "0 \<le> computeFreshness T now u" "computeFreshness T now u \<le> 1"
  by (auto simp: computeFreshness_def Let_def split: option.splits)

lemma raw_score_simp [simp]: "raw_score cfg (c\<lparr>cr_FinalScore := x\<rparr>) = raw_score cfg c"
  by (simp add: raw_score_def)

text \<open>The weighted ranking only reorders and scores. Its result has the same candidates (up to the two
  fields it computes), each with its freshness in \<open>[0, 1]\<close> and the clamped weighted sum as its final
  score, and it is sorted by the sum before the clamp, hence also by the final score.\<close>

theorem weighted_ranking:
  "mset (map (\<lambda>c. c\<lparr>cr_Freshness := 0, cr_FinalScore := 0\<rparr>) (RankWeighted T now cfg cs)) =
     mset (map (\<lambda>c. c\<lparr>cr_Freshness := 0, cr_FinalScore := 0\<rparr>) cs) \<and>
   list_all (\<lambda>c. cr_Freshness c = computeFreshness T now (cr_UpdatedAt c) \<and> 0 \<le> cr_Freshness c \<and> cr_Freshness c \<le> 1 \<and>
     cr_FinalScore c = clamp (raw_score cfg c) \<and> 0 \<le> cr_FinalScore c \<and> cr_FinalScore c \<le> 1) (RankWeighted T now cfg cs) \<and>
   sorted_wrt (\<lambda>a b. raw_score cfg b \<le> raw_score cfg a) (RankWeighted T now cfg cs) \<and>
   sorted_wrt (\<lambda>a b. cr_FinalScore b \<le> cr_FinalScore a) (RankWeighted T now cfg cs)"
proof -
  define f where "f = (\<lambda>c :: 'a CandidateResult.
    let c = c\<lparr>cr_Freshness := computeFreshness T now (cr_UpdatedAt c)\<rparr> in (c, raw_score cfg c))"
  define g where "g = (\<lambda>(c :: 'a CandidateResult, raw). c\<lparr>cr_FinalScore := clamp raw\<rparr>)"
  define tmp where "tmp = sort_Slice (\<lambda>a b. snd a > snd b) (map f cs)"
  have r: "RankWeighted T now cfg cs = map g tmp"
    by (simp add: RankWeighted_def tmp_def f_def g_def Let_def)
  have tmp: "\<exists>c. p = f c" if "p \<in> set tmp" for p using that by (auto simp: tmp_def)
  have snd: "snd p = raw_score cfg (g p)" if "p \<in> set tmp" for p
    using tmp[OF that] by (auto simp: f_def g_def Let_def)
  have "mset (map (\<lambda>c. c\<lparr>cr_Freshness := 0, cr_FinalScore := 0\<rparr>) (map g tmp)) =
      mset (map (\<lambda>c. c\<lparr>cr_Freshness := 0, cr_FinalScore := 0\<rparr>) (map (\<lambda>c. g (f c)) cs))"
    by (simp add: tmp_def image_mset.compositionality comp_def)
  also have "map (\<lambda>c. c\<lparr>cr_Freshness := 0, cr_FinalScore := 0\<rparr>) (map (\<lambda>c. g (f c)) cs) =
      map (\<lambda>c. c\<lparr>cr_Freshness := 0, cr_FinalScore := 0\<rparr>) cs"
    by (simp add: f_def g_def Let_def)
  finally have perm: "mset (map (\<lambda>c. c\<lparr>cr_Freshness := 0, cr_FinalScore := 0\<rparr>) (map g tmp)) =
      mset (map (\<lambda>c. c\<lparr>cr_Freshness := 0, cr_FinalScore := 0\<rparr>) cs)" .
  have each: "cr_Freshness (g p) = computeFreshness T now (cr_UpdatedAt (g p)) \<and> cr_FinalScore (g p) = clamp (raw_score cfg (g p))"
    if "p \<in> set tmp" for p
    using tmp[OF that] by (auto simp: f_def g_def Let_def)
  have "sorted_wrt (\<lambda>a b. snd b \<le> snd a) tmp"
    using desc.sorted_by_sort_Slice[of snd "map f cs"] by (simp add: tmp_def desc.sorted_by_def not_less)
  then have raw: "sorted_wrt (\<lambda>a b. raw_score cfg b \<le> raw_score cfg a) (map g tmp)"
    unfolding sorted_wrt_map by (rule sorted_wrt_mono_rel[rotated]) (simp add: snd)
  have "sorted_wrt (\<lambda>a b. cr_FinalScore b \<le> cr_FinalScore a) (map g tmp)"
    using raw unfolding sorted_wrt_map by (rule sorted_wrt_mono_rel[rotated]) (simp add: each clamp_bounds(3))
  then show ?thesis
    unfolding r using perm raw each computeFreshness_bounds clamp_bounds by (auto simp: list_all_iff)
qed

section \<open>Reciprocal rank fusion\<close>

lemma rank_map_get:
  assumes "distinct (map cr_EntityID xs)" "i < length xs"
  shows "map_get (cr_EntityID (xs ! i)) (fold (\<lambda>(i, c) m. map_set (cr_EntityID c) (i + 1) m) (List.enumerate n xs) m) = Some (n + i + 1)"
  using assms
proof (induction xs arbitrary: n i m)
  case (Cons x xs)
  have other: "map_get k (fold (\<lambda>(i, c) m. map_set (cr_EntityID c) (i + 1) m) (List.enumerate n xs) m) = map_get k m"
    if "k \<notin> cr_EntityID ` set xs" for k n and m :: "(string \<times> nat) list"
    using that by (induction xs arbitrary: n m) auto
  show ?case
  proof (cases i)
    case 0
    then show ?thesis using Cons.prems other[of "cr_EntityID x"] by simp
  next
    case (Suc j)
    then show ?thesis using Cons.IH[of j "Suc n"] Cons.prems by simp
  qed
qed simp

lemma rank_map_mono:
  assumes d: "distinct (map cr_EntityID cs)" and ab: "a \<in> set cs" "b \<in> set cs" "score b < score a"
  shows "0 < map_at (cr_EntityID a) (rank_map score cs)"
    "map_at (cr_EntityID a) (rank_map score cs) < map_at (cr_EntityID b) (rank_map score cs)"
proof -
  let ?xs = "sort_Slice (\<lambda>a b. score a > score b) cs"

  obtain i j where ij: "i < length ?xs" "?xs ! i = a" "j < length ?xs" "?xs ! j = b"
    using ab(1,2) by (metis in_set_conv_nth set_sort_Slice)
  have rank: "map_at (cr_EntityID (?xs ! k)) (rank_map score cs) = k + 1" if "k < length ?xs" for k
    using rank_map_get[of ?xs k 0 "[]"] that d by (simp add: rank_map_def map_at_def)
  have "sorted_wrt (\<lambda>a b. score b \<le> score a) ?xs"
    using desc.sorted_by_sort_Slice[of score cs] by (simp add: desc.sorted_by_def not_less)
  then have "score a \<le> score b" if "j < i"
    using sorted_wrt_nth_less[of "\<lambda>a b. score b \<le> score a" ?xs j i] ij that by simp
  moreover have "i \<noteq> j" using ij ab(3) by auto
  ultimately have "i < j" using ab(3) by fastforce
  then show "map_at (cr_EntityID a) (rank_map score cs) < map_at (cr_EntityID b) (rank_map score cs)"
    using rank[OF ij(1)] rank[OF ij(3)] ij by simp
  show "0 < map_at (cr_EntityID a) (rank_map score cs)" using rank[OF ij(1)] ij(2) by simp
qed

lemma sorted_desc_before:
  fixes f :: "'a \<Rightarrow> real"
  assumes "sorted_wrt (\<lambda>x y. f y \<le> f x) xs" "x \<in> set xs" "y \<in> set xs" "f y < f x"
  shows "\<exists>us vs ws. xs = us @ x # vs @ y # ws"
proof -
  obtain us rest where xs: "xs = us @ x # rest" using assms(2) by (meson split_list)
  have "y \<notin> set us" "y \<noteq> x" using assms(1,4) unfolding xs by (force simp: sorted_wrt_append)+
  then have "y \<in> set rest" using assms(3) xs by auto
  then obtain vs ws where "rest = vs @ y # ws" by (meson split_list)
  then show ?thesis using xs by blast
qed

text \<open>Reciprocal rank fusion respects agreement. Of two candidates with different identifiers, one that
  has the higher text relevance, the higher semantic similarity and the higher trust is ranked before the
  other, and the list is sorted by the final score.\<close>

theorem rrf_respects_agreement:
  assumes "distinct (map cr_EntityID cs)" and "a \<in> set cs" and "b \<in> set cs"
    and "cr_TextRelevance b < cr_TextRelevance a" and "cr_SemanticSimilarity b < cr_SemanticSimilarity a"
    and "cr_TrustScore b < cr_TrustScore a"
  shows "(\<exists>us vs ws. map cr_EntityID (RankRRF cs) = us @ cr_EntityID a # vs @ cr_EntityID b # ws) \<and>
    sorted_wrt (\<lambda>c d. cr_FinalScore d \<le> cr_FinalScore c) (RankRRF cs)"
proof -
  let ?s = "\<lambda>c. c\<lparr>cr_FinalScore := rrf_score cs c\<rparr>"
  have less: "1 / (rrf_k + real n) < 1 / (rrf_k + real m)" if "m < n" for m n
    using that by (intro divide_strict_left_mono) (simp_all add: rrf_k_def)
  have "rrf_score cs b < rrf_score cs a"
    unfolding rrf_score_def
    by (intro add_strict_mono less rank_map_mono(2)[OF assms(1-3)] assms(4-6))
  then have fin: "cr_FinalScore (?s b) < cr_FinalScore (?s a)" by simp
  have sorted: "sorted_wrt (\<lambda>c d. cr_FinalScore d \<le> cr_FinalScore c) (RankRRF cs)"
    using desc.sorted_by_sort_Slice[of cr_FinalScore "map ?s cs"] by (simp add: RankRRF_def desc.sorted_by_def not_less)
  have "?s a \<in> set (RankRRF cs)" "?s b \<in> set (RankRRF cs)" using assms(2,3) by (simp_all add: RankRRF_def)
  then obtain us vs ws where "RankRRF cs = us @ ?s a # vs @ ?s b # ws"
    using sorted_desc_before[OF sorted _ _ fin] by blast
  then have "map cr_EntityID (RankRRF cs) = map cr_EntityID us @ cr_EntityID a # map cr_EntityID vs @ cr_EntityID b # map cr_EntityID ws"
    by simp
  then show ?thesis using sorted by blast
qed

definition sample_candidate :: "string \<Rightarrow> real \<Rightarrow> unit CandidateResult" where
  "sample_candidate i x = \<lparr>cr_EntityID = i, cr_Name = i, cr_Summary = '''', cr_Category = '''', cr_Tags = [], cr_EntityURL = '''',
     cr_HomeRegistry = '''', cr_Status = ''active'', cr_UpdatedAt = '''', cr_TextRelevance = x, cr_SemanticSimilarity = x,
     cr_TrustScore = x, cr_Freshness = 0, cr_Availability = 0, cr_FinalScore = 0, cr_Card = None, cr_FQAN = '''',
     cr_DeveloperHandle = '''', cr_DeveloperID = '''', cr_EntityType = '''', cr_OpenAPIURL = '''', cr_EntityPricing = None\<rparr>"

theorem rrf_respects_agreement_witness:
  "\<exists>us vs ws. map cr_EntityID (RankRRF [sample_candidate ''b'' 0, sample_candidate ''a'' 1]) = us @ ''a'' # vs @ ''b'' # ws"
  using rrf_respects_agreement[of "[sample_candidate ''b'' 0, sample_candidate ''a'' 1]" "sample_candidate ''a'' 1" "sample_candidate ''b'' 0"]
  by (simp add: sample_candidate_def)

end
