(* ===== verification/StoreSearch.thy ===== *)
theory StoreSearch
  imports Store GoStrings
begin

text \<open>
  The text queries of the store (\<open>src/internal/store/postgres.go\<close>): search by keyword over the
  entities and over the gossip index, and the listings that are sorted by a text column. \<open>LIKE\<close> and
  \<open>ILIKE\<close> are PostgreSQL's pattern match with \<open>%\<close>, \<open>_\<close> and the backslash; the text of a
  \<open>jsonb\<close> column (\<open>tags::text\<close>) and the collation order are arguments.
\<close>

section \<open>Pattern match\<close>

function (sequential) sql_like :: "string \<Rightarrow> string \<Rightarrow> bool" where
  "sql_like [] s = (s = [])"
| "sql_like (c # p) s =
     (if c = CHR ''%'' then sql_like p s \<or> (case s of [] \<Rightarrow> False | x # s' \<Rightarrow> sql_like (c # p) s')
      else if c = CHR ''_'' then (case s of [] \<Rightarrow> False | x # s' \<Rightarrow> sql_like p s')
      else if c = CHR 0x5C then
        (case p of [] \<Rightarrow> False | e # p' \<Rightarrow> (case s of [] \<Rightarrow> False | x # s' \<Rightarrow> x = e \<and> sql_like p' s'))
      else (case s of [] \<Rightarrow> False | x # s' \<Rightarrow> x = c \<and> sql_like p s'))"
  by pat_completeness auto

termination sql_like by (relation "measure (\<lambda>(p, s). length p + length s)") auto

definition sql_ilike :: "string \<Rightarrow> string \<Rightarrow> bool" where
  "sql_ilike p s = sql_like (ToLower p) (ToLower s)"

definition likeQuery :: "string \<Rightarrow> string" where
  "likeQuery query = ''%'' @ ToLower query @ ''%''"

section \<open>Queries\<close>

text \<open>The \<open>WHERE\<close> clause both searches build.\<close>

definition keyword_where ::
  "(string list \<Rightarrow> string) \<Rightarrow> string \<Rightarrow> string \<Rightarrow> string list \<Rightarrow> string \<Rightarrow> string \<Rightarrow> string list \<Rightarrow> string \<Rightarrow> bool" where
  "keyword_where tags_text query category tags rname rsummary rtags rcategory =
     ((sql_like (likeQuery query) (ToLower rname) \<or> sql_like (likeQuery query) (ToLower rsummary) \<or>
       sql_ilike (likeQuery query) (tags_text rtags)) \<and>
      (category \<noteq> '''' \<longrightarrow> rcategory = category) \<and>
      list_all (\<lambda>tag. sql_ilike (likeQuery tag) (tags_text rtags)) tags)"

definition SearchAgentsByKeyword ::
  "timefmt \<Rightarrow> (string list \<Rightarrow> string) \<Rightarrow> string \<Rightarrow> string \<Rightarrow> string list \<Rightarrow> nat \<Rightarrow> DB \<Rightarrow> dberr + RegistryRecord list" where
  "SearchAgentsByKeyword T tags_text query category tags limit db = pool_Query db (\<lambda>db.
     map (scanAgentRow T) (page limit 0 (sort_Slice newer_entity (filter (\<lambda>r.
       keyword_where tags_text query category tags (rr_Name (er_rec r)) (rr_Summary (er_rec r)) (rr_Tags (er_rec r))
         (rr_Category (er_rec r))) (db_entities db)))))"

definition newer_gossip :: "GossipRow \<Rightarrow> GossipRow \<Rightarrow> bool" where
  "newer_gossip r s = (gr_received r > gr_received s)"

text \<open>The columns this \<open>SELECT\<close> reads: the developer of an entry and its origin key are not among
  them.\<close>

definition scanGossipSearchRow :: "timefmt \<Rightarrow> GossipRow \<Rightarrow> GossipEntry" where
  "scanGossipSearchRow T r = (gr_rec r)\<lparr>ge_ReceivedAt := tf_Format T (gr_received r), ge_CapabilitySummary := None,
     ge_TombstoneAt := '''', ge_DeveloperID := '''', ge_DeveloperPublicKey := '''', ge_DeveloperProof := None,
     ge_OriginPublicKey := ''''\<rparr>"

definition SearchGossipByKeyword ::
  "timefmt \<Rightarrow> (string list \<Rightarrow> string) \<Rightarrow> string \<Rightarrow> string \<Rightarrow> string list \<Rightarrow> nat \<Rightarrow> DB \<Rightarrow> dberr + GossipEntry list" where
  "SearchGossipByKeyword T tags_text query category tags limit db = pool_Query db (\<lambda>db.
     map (scanGossipSearchRow T) (page limit 0 (sort_Slice newer_gossip (filter (\<lambda>r. \<not> ge_Tombstoned (gr_rec r) \<and>
       keyword_where tags_text query category tags (ge_Name (gr_rec r)) (ge_Summary (gr_rec r)) (ge_Tags (gr_rec r))
         (ge_Category (gr_rec r))) (db_gossip db)))))"

definition GetAllTags :: "(string \<Rightarrow> string \<Rightarrow> bool) \<Rightarrow> DB \<Rightarrow> dberr + string list" where
  "GetAllTags collate db = pool_Query db (\<lambda>db.
     sort_Slice collate (remdups (concat (map (\<lambda>r. rr_Tags (er_rec r)) (db_entities db)))))"

definition GetAllCategories :: "(string \<Rightarrow> string \<Rightarrow> bool) \<Rightarrow> DB \<Rightarrow> dberr + string list" where
  "GetAllCategories collate db = pool_Query db (\<lambda>db.
     sort_Slice collate (remdups (map (\<lambda>r. rr_Category (er_rec r)) (db_entities db))))"

definition ListZNSNamesByDeveloper ::
  "timefmt \<Rightarrow> (string \<Rightarrow> string \<Rightarrow> bool) \<Rightarrow> string \<Rightarrow> string \<Rightarrow> DB \<Rightarrow> dberr + ZNSName list" where
  "ListZNSNamesByDeveloper T collate devHandle registryHost db = pool_Query db (\<lambda>db.
     map (scanZNSName T) (sort_Slice (\<lambda>r s. collate (zn_EntityName (zr_rec r)) (zn_EntityName (zr_rec s)))
       (filter (\<lambda>r. zn_DeveloperHandle (zr_rec r) = devHandle \<and> zn_RegistryHost (zr_rec r) = registryHost) (db_zns db))))"

section \<open>What the pattern of a keyword matches\<close>

definition plain_char :: "char \<Rightarrow> bool" where
  "plain_char c = (c \<noteq> CHR ''%'' \<and> c \<noteq> CHR ''_'' \<and> c \<noteq> CHR 0x5C)"

lemma like_plain: "list_all plain_char q \<Longrightarrow> sql_like (q @ p) s \<longleftrightarrow> (\<exists>r. s = q @ r \<and> sql_like p r)"
proof (induction q arbitrary: s)
  case (Cons c q)
  then show ?case by (cases s) (auto simp: plain_char_def)
qed simp

lemma like_any: "sql_like ''%'' s"
  by (induction s) simp_all

lemma like_percent: "sql_like (CHR ''%'' # p) s \<longleftrightarrow> (\<exists>u v. s = u @ v \<and> sql_like p v)"
proof (induction s)
  case (Cons x s)
  show ?case
  proof
    assume "sql_like (CHR ''%'' # p) (x # s)"
    then consider "sql_like p (x # s)" | "sql_like (CHR ''%'' # p) s" by auto
    then show "\<exists>u v. x # s = u @ v \<and> sql_like p v"
    proof cases
      case 2
      then obtain u v where "s = u @ v" "sql_like p v" using Cons.IH by blast
      then show ?thesis by (intro exI[of _ "x # u"] exI[of _ v]) simp
    qed (metis append_Nil)
  next
    assume "\<exists>u v. x # s = u @ v \<and> sql_like p v"
    then obtain u v where uv: "x # s = u @ v" "sql_like p v" by blast
    then show "sql_like (CHR ''%'' # p) (x # s)"
      using Cons.IH by (cases u) auto
  qed
qed simp

lemma str_Contains_iff: "str_Contains s p \<longleftrightarrow> (\<exists>u v. s = u @ p @ v)"
proof (induction s)
  case (Cons c s)
  show ?case
  proof
    assume "str_Contains (c # s) p"
    then consider "HasPrefix (c # s) p" | "str_Contains s p" by auto
    then show "\<exists>u v. c # s = u @ p @ v"
    proof cases
      case 1
      then show ?thesis using HasPrefix_iff by (metis append_Nil)
    next
      case 2
      then show ?thesis using Cons.IH by (metis append_Cons)
    qed
  next
    assume "\<exists>u v. c # s = u @ p @ v"
    then obtain u v where uv: "c # s = u @ p @ v" by blast
    show "str_Contains (c # s) p"
    proof (cases u)
      case Nil
      then have "HasPrefix (c # s) p" using uv by (simp add: HasPrefix_iff)
      then show ?thesis by simp
    next
      case (Cons x u')
      then have "str_Contains s p" using Cons.IH uv by auto
      then show ?thesis by simp
    qed
  qed
qed simp

text \<open>A query without pattern characters is searched for as a substring.\<close>

lemma like_substring: "list_all plain_char q \<Longrightarrow> sql_like (''%'' @ q @ ''%'') s \<longleftrightarrow> str_Contains s q"
  unfolding append_Cons append_Nil like_percent str_Contains_iff by (metis append_assoc like_any like_plain)

lemma pool_Query_Inr: "pool_Query db f = Inr x \<Longrightarrow> x = f db"
  by (simp add: pool_Query_def split: if_splits)

text \<open>What the searches return passes the filters they were given, and nothing that is tombstoned.\<close>

lemma SearchGossipByKeyword_sound:
  assumes "SearchGossipByKeyword T tags_text query category tags limit db = Inr es" "e \<in> set es"
  shows "\<not> ge_Tombstoned e" "category \<noteq> '''' \<Longrightarrow> ge_Category e = category" "ge_DeveloperID e = ''''" "length es \<le> limit"
  using pool_Query_Inr[OF assms(1)[unfolded SearchGossipByKeyword_def]] assms(2)
  by (auto simp: scanGossipSearchRow_def page_def keyword_where_def dest!: in_set_takeD)

end
