(* ===== verification/Engine.thy ===== *)
theory Engine
  imports Keyword2 Semantic Ranking StoreSearch
begin

text \<open>
  The search engine (\<open>src/internal/search/engine.go\<close>): it keeps one of the two keyword indexes and
  the vector index, and answers a request from them, from the store, from the gossip index and from the
  peers, with filters, ranking and paging. What is not code of the repository, or not decided by it, is the record
  \<open>search_env\<close>: the embedding of a text, the fetching of an Agent Card and its status, the text of a
  \<open>jsonb\<close> column, the federated search, the order in which Go ranges over a map, and which of the two
  goroutines appends its candidates first. A panic is \<open>None\<close>.
\<close>

section \<open>Requests, responses, state\<close>

record SearchRequest =
  sq_Query :: string
  sq_Category :: string
  sq_Tags :: "string list"
  sq_Skills :: "string list"
  sq_Protocols :: "string list"
  sq_Languages :: "string list"
  sq_Models :: "string list"
  sq_MinTrustScore :: real
  sq_Status :: string
  sq_DeveloperID :: string
  sq_DeveloperHandle :: string
  sq_FQAN :: string
  sq_EntityType :: string
  sq_MaxResults :: int
  sq_Offset :: int
  sq_Federated :: bool
  sq_Enrich :: bool
  sq_TimeoutMs :: int

record SearchStats =
  st_LocalResults :: int
  st_GossipResults :: int
  st_FederatedResults :: int
  st_FilteredOut :: int
  st_PeersQueried :: int

record 'card SearchResponse =
  sr_Results :: "'card SearchResult list"
  sr_TotalFound :: int
  sr_Offset :: int
  sr_HasMore :: bool
  sr_SearchStats :: SearchStats

record 'card search_env =
  ev_T :: timefmt
  ev_embed :: "string \<Rightarrow> real list"
  ev_fetch :: "string \<Rightarrow> string \<Rightarrow> string \<Rightarrow> 'card option"
  ev_card_status :: "'card \<Rightarrow> string"
  ev_tags_text :: "string list \<Rightarrow> string"
  ev_federated :: "(SearchRequest \<Rightarrow> 'card SearchResult list \<times> int \<times> int) option"
  ev_ro :: "string list \<Rightarrow> string list"
  ev_local_first :: bool

record SearchConfig =
  sc_DefaultMaxResults :: int
  sc_MinScore :: real
  sc_UseImprovedKeyword :: bool
  sc_Ranking :: RankingConfig

record Engine =
  en_keyword :: KeywordIndex
  en_improvedKeyword :: ImprovedKeywordIndex
  en_semantic :: SemanticIndex
  en_cfg :: SearchConfig

definition NewEngine :: "SearchConfig \<Rightarrow> nat \<Rightarrow> Engine" where
  "NewEngine cfg dimensions = \<lparr>en_keyword = NewKeywordIndex, en_improvedKeyword = NewImprovedKeywordIndex,
     en_semantic = NewSemanticIndex dimensions, en_cfg = cfg\<rparr>"

section \<open>Indexing\<close>

definition index_text :: "string \<Rightarrow> string \<Rightarrow> string list \<Rightarrow> string" where
  "index_text name summary tags = name @ '' '' @ summary @ '' '' @ str_Join tags '' ''"

definition index_doc :: "'card search_env \<Rightarrow> string \<Rightarrow> string \<Rightarrow> string \<Rightarrow> string \<Rightarrow> string list \<Rightarrow> Engine \<Rightarrow> Engine" where
  "index_doc v did name summary category tags e =
     (let e = (if sc_UseImprovedKeyword (en_cfg e) then
                 e\<lparr>en_improvedKeyword := ik_IndexDocument did name summary category tags (en_improvedKeyword e)\<rparr>
               else e\<lparr>en_keyword := kw_IndexDocument did name summary category tags (en_keyword e)\<rparr>)
      in e\<lparr>en_semantic := sem_Index did (ev_embed v (index_text name summary tags)) (en_semantic e)\<rparr>)"

definition IndexAgent :: "'card search_env \<Rightarrow> RegistryRecord \<Rightarrow> Engine \<Rightarrow> Engine" where
  "IndexAgent v agent e = index_doc v (rr_EntityID agent) (rr_Name agent) (rr_Summary agent) (rr_Category agent) (rr_Tags agent) e"

definition IndexGossipEntry :: "'card search_env \<Rightarrow> GossipEntry \<Rightarrow> Engine \<Rightarrow> Engine" where
  "IndexGossipEntry v entry e = index_doc v (ge_EntityID entry) (ge_Name entry) (ge_Summary entry) (ge_Category entry) (ge_Tags entry) e"

definition RemoveAgent :: "string \<Rightarrow> Engine \<Rightarrow> Engine" where
  "RemoveAgent agentID e =
     (let e = (if sc_UseImprovedKeyword (en_cfg e) then
                 e\<lparr>en_improvedKeyword := ik_RemoveDocument agentID (en_improvedKeyword e)\<rparr>
               else e\<lparr>en_keyword := kw_RemoveDocument agentID (en_keyword e)\<rparr>)
      in e\<lparr>en_semantic := sem_Remove agentID (en_semantic e)\<rparr>)"

definition RebuildIndexes :: "'card search_env \<Rightarrow> DB \<Rightarrow> Engine \<Rightarrow> (dberr + unit) \<times> Engine" where
  "RebuildIndexes v db e =
     (case ListEntities (ev_T v) '''' 100000 0 db of
        Inl err \<Rightarrow> (Inl err, e)
      | Inr agents \<Rightarrow> (Inr (), fold (IndexAgent v) agents e))"

section \<open>Filters\<close>

definition hasAnyTag :: "string list \<Rightarrow> string list \<Rightarrow> bool" where
  "hasAnyTag agentTags filterTags = list_ex (\<lambda>t. ToLower t \<in> ToLower ` set agentTags) filterTags"

definition isExactMatch :: "string \<Rightarrow> string \<Rightarrow> string \<Rightarrow> string list \<Rightarrow> bool" where
  "isExactMatch query name category tags =
     (let q = ToLower (TrimSpace query)
      in if q = '''' then False
         else ToLower (TrimSpace name) = q \<or> ToLower (TrimSpace category) = q \<or>
           list_ex (\<lambda>t. ToLower (TrimSpace t) = q) tags)"

definition passes_filters :: "SearchRequest \<Rightarrow> RegistryRecord \<Rightarrow> bool" where
  "passes_filters req agent =
     (if rr_Status agent = ''inactive'' then False
      else if sq_Category req \<noteq> '''' \<and> rr_Category agent \<noteq> sq_Category req then False
      else if length (sq_Tags req) > 0 \<and> \<not> hasAnyTag (rr_Tags agent) (sq_Tags req) then False
      else if sq_DeveloperID req \<noteq> '''' \<and> rr_DeveloperID agent \<noteq> sq_DeveloperID req then False
      else if sq_EntityType req \<noteq> '''' \<and> rr_EntityType agent \<noteq> sq_EntityType req then False
      else True)"

section \<open>Local search\<close>

definition local_candidate :: "RegistryRecord \<Rightarrow> real \<Rightarrow> real \<Rightarrow> 'card CandidateResult" where
  "local_candidate agent textRelevance semantic = \<lparr>cr_EntityID = rr_EntityID agent, cr_Name = rr_Name agent,
     cr_Summary = rr_Summary agent, cr_Category = rr_Category agent, cr_Tags = rr_Tags agent,
     cr_EntityURL = rr_EntityURL agent, cr_HomeRegistry = rr_HomeRegistry agent, cr_Status = rr_Status agent,
     cr_UpdatedAt = rr_UpdatedAt agent, cr_TextRelevance = textRelevance, cr_SemanticSimilarity = semantic,
     cr_TrustScore = 1 / 2, cr_Freshness = 0, cr_Availability = 1, cr_FinalScore = 0, cr_Card = None, cr_FQAN = '''',
     cr_DeveloperHandle = '''', cr_DeveloperID = rr_DeveloperID agent, cr_EntityType = rr_EntityType agent,
     cr_OpenAPIURL = rr_OpenAPIURL agent, cr_EntityPricing = rr_EntityPricing agent\<rparr>"

definition keyword_search :: "'card search_env \<Rightarrow> string \<Rightarrow> int \<Rightarrow> Engine \<Rightarrow> KeywordResult list" where
  "keyword_search v query limit e =
     (if sc_UseImprovedKeyword (en_cfg e) then ik_Search (ev_ro v) query limit (en_improvedKeyword e)
      else kw_Search (ev_ro v) query limit (en_keyword e))"

definition max_keyword :: "KeywordResult list \<Rightarrow> real" where
  "max_keyword krs = fold (\<lambda>r m. if kr_Score r > m then kr_Score r else m) krs 0"

text \<open>One keyword result, one semantic result, and one entity of the exact-match pass.\<close>

type_synonym 'card candidates = "(string \<times> 'card CandidateResult) list"

definition add_keyword :: "'card search_env \<Rightarrow> DB \<Rightarrow> SearchRequest \<Rightarrow> real \<Rightarrow> KeywordResult \<Rightarrow> 'card candidates \<Rightarrow> 'card candidates" where
  "add_keyword v db req maxKeyword kr cands =
     (let normalizedScore = (if maxKeyword > 0 then kr_Score kr / maxKeyword else 0)
      in case GetEntity (ev_T v) (kr_DocID kr) db of
           Inl _ \<Rightarrow> cands
         | Inr None \<Rightarrow> cands
         | Inr (Some agent) \<Rightarrow>
             if \<not> passes_filters req agent then cands
             else let exactBoosted = (if isExactMatch (sq_Query req) (rr_Name agent) (rr_Category agent) (rr_Tags agent)
                        then 5 / 2 else normalizedScore)
                  in map_set (kr_DocID kr) (local_candidate agent exactBoosted 0) cands)"

definition add_semantic :: "'card search_env \<Rightarrow> DB \<Rightarrow> SearchRequest \<Rightarrow> KeywordResult \<Rightarrow> 'card candidates \<Rightarrow> 'card candidates" where
  "add_semantic v db req r cands =
     (case map_get (kr_DocID r) cands of
        Some c \<Rightarrow> map_set (kr_DocID r) (c\<lparr>cr_SemanticSimilarity := kr_Score r\<rparr>) cands
      | None \<Rightarrow>
          (case GetEntity (ev_T v) (kr_DocID r) db of
             Inl _ \<Rightarrow> cands
           | Inr None \<Rightarrow> cands
           | Inr (Some agent) \<Rightarrow>
               if \<not> passes_filters req agent then cands
               else map_set (kr_DocID r) (local_candidate agent 0 (kr_Score r)) cands))"

definition qualifies :: "SearchRequest \<Rightarrow> RegistryRecord \<Rightarrow> bool" where
  "qualifies req agent =
     (let exactQuery = ToLower (TrimSpace (sq_Query req));
          hasCategoryFilter = TrimSpace (sq_Category req) \<noteq> '''';
          hasTagFilter = length (sq_Tags req) > 0;
          browseAll = exactQuery = '''' \<and> \<not> hasCategoryFilter \<and> \<not> hasTagFilter
      in browseAll \<or> hasCategoryFilter \<and> exactQuery = '''' \<or> hasTagFilter \<and> exactQuery = '''' \<or>
         exactQuery \<noteq> '''' \<and> isExactMatch (sq_Query req) (rr_Name agent) (rr_Category agent) (rr_Tags agent))"

definition add_exact :: "SearchRequest \<Rightarrow> RegistryRecord \<Rightarrow> 'card candidates \<Rightarrow> 'card candidates" where
  "add_exact req agent cands =
     (if \<not> passes_filters req agent then cands
      else if \<not> qualifies req agent then cands
      else case map_get (rr_EntityID agent) cands of
             Some existing \<Rightarrow>
               (if cr_TextRelevance existing < 5 / 2
                then map_set (rr_EntityID agent) (existing\<lparr>cr_TextRelevance := 5 / 2\<rparr>) cands else cands)
           | None \<Rightarrow> map_set (rr_EntityID agent) (local_candidate agent (5 / 2) 0) cands)"

definition local_map :: "'card search_env \<Rightarrow> DB \<Rightarrow> SearchRequest \<Rightarrow> nat \<Rightarrow> Engine \<Rightarrow> 'card candidates" where
  "local_map v db req limit e =
     (let keywordResults = keyword_search v (sq_Query req) (int limit) e;
          semanticResults = sem_Search (ev_ro v) (ev_embed v (sq_Query req)) (int limit) (en_semantic e);
          cands = fold (add_keyword v db req (max_keyword keywordResults)) keywordResults [];
          cands = fold (add_semantic v db req) semanticResults cands
      in case ListEntities (ev_T v) '''' (limit * 2) 0 db of
           Inl _ \<Rightarrow> cands
         | Inr allLocal \<Rightarrow> fold (add_exact req) allLocal cands)"

definition searchLocal :: "'card search_env \<Rightarrow> DB \<Rightarrow> SearchRequest \<Rightarrow> nat \<Rightarrow> Engine \<Rightarrow> 'card CandidateResult list" where
  "searchLocal v db req limit e =
     (let cands = local_map v db req limit e
      in List.map_filter (\<lambda>k. map_get k cands) (ev_ro v (map fst cands)))"

section \<open>Gossip search\<close>

definition gossip_candidate :: "'card search_env \<Rightarrow> SearchRequest \<Rightarrow> Engine \<Rightarrow> GossipEntry \<Rightarrow> 'card CandidateResult" where
  "gossip_candidate v req e entry =
     (let textScore = (case find (\<lambda>kr. kr_DocID kr = ge_EntityID entry) (keyword_search v (sq_Query req) 1 e) of
            None \<Rightarrow> 0 | Some kr \<Rightarrow> kr_Score kr);
          semanticScore = cosineSimilarity (ev_embed v (sq_Query req))
            (ev_embed v (index_text (ge_Name entry) (ge_Summary entry) (ge_Tags entry)))
      in \<lparr>cr_EntityID = ge_EntityID entry, cr_Name = ge_Name entry, cr_Summary = ge_Summary entry, cr_Category = ge_Category entry,
          cr_Tags = ge_Tags entry, cr_EntityURL = ge_EntityURL entry, cr_HomeRegistry = ge_HomeRegistry entry,
          cr_Status = ge_Status entry, cr_UpdatedAt = ge_ReceivedAt entry, cr_TextRelevance = textScore,
          cr_SemanticSimilarity = semanticScore, cr_TrustScore = 3 / 10, cr_Freshness = 0, cr_Availability = 9 / 10,
          cr_FinalScore = 0, cr_Card = None, cr_FQAN = '''', cr_DeveloperHandle = '''', cr_DeveloperID = ge_DeveloperID entry,
          cr_EntityType = ge_EntityType entry, cr_OpenAPIURL = ge_OpenAPIURL entry, cr_EntityPricing = ge_EntityPricing entry\<rparr>)"

definition gossip_passes :: "SearchRequest \<Rightarrow> GossipEntry \<Rightarrow> bool" where
  "gossip_passes req entry =
     (if ge_Status entry = ''inactive'' then False
      else if sq_DeveloperID req \<noteq> '''' \<and> ge_DeveloperID entry \<noteq> sq_DeveloperID req then False
      else if sq_EntityType req \<noteq> '''' \<and> ge_EntityType entry \<noteq> sq_EntityType req then False
      else True)"

definition searchGossip :: "'card search_env \<Rightarrow> DB \<Rightarrow> SearchRequest \<Rightarrow> nat \<Rightarrow> Engine \<Rightarrow> 'card CandidateResult list" where
  "searchGossip v db req limit e =
     (case SearchGossipByKeyword (ev_T v) (ev_tags_text v) (sq_Query req) (sq_Category req) (sq_Tags req) limit db of
        Inl _ \<Rightarrow> []
      | Inr entries \<Rightarrow> map (gossip_candidate v req e) (filter (gossip_passes req) entries))"

section \<open>The search\<close>

definition federated_candidate :: "'card SearchResult \<Rightarrow> 'card CandidateResult" where
  "federated_candidate r = \<lparr>cr_EntityID = res_EntityID r, cr_Name = res_Name r, cr_Summary = res_Summary r,
     cr_Category = res_Category r, cr_Tags = res_Tags r, cr_EntityURL = '''', cr_HomeRegistry = res_HomeRegistry r,
     cr_Status = '''', cr_UpdatedAt = '''', cr_TextRelevance = 0, cr_SemanticSimilarity = 0, cr_TrustScore = 3 / 10,
     cr_Freshness = 0, cr_Availability = 7 / 10, cr_FinalScore = res_Score r, cr_Card = None, cr_FQAN = '''',
     cr_DeveloperHandle = '''', cr_DeveloperID = '''', cr_EntityType = '''', cr_OpenAPIURL = '''', cr_EntityPricing = None\<rparr>"

definition enrich_card :: "'card search_env \<Rightarrow> DB \<Rightarrow> 'card CandidateResult \<Rightarrow> 'card CandidateResult" where
  "enrich_card v db c =
     (let pubKey = (case GetEntity (ev_T v) (cr_EntityID c) db of Inr (Some agent) \<Rightarrow> rr_PublicKey agent | _ \<Rightarrow> '''')
      in case ev_fetch v (cr_EntityID c) (cr_EntityURL c) pubKey of
           None \<Rightarrow> c
         | Some crd \<Rightarrow> c\<lparr>cr_Card := Some crd, cr_Availability :=
             (if ev_card_status v crd = ''online'' then 1 else if ev_card_status v crd = ''degraded'' then 1 / 2 else 0)\<rparr>)"

definition enrichCandidates :: "'card search_env \<Rightarrow> DB \<Rightarrow> 'card CandidateResult list \<Rightarrow> 'card CandidateResult list" where
  "enrichCandidates v db cs = map (enrich_card v db) cs"

definition enrichWithZNS :: "'card search_env \<Rightarrow> DB \<Rightarrow> 'card CandidateResult list \<Rightarrow> 'card CandidateResult list" where
  "enrichWithZNS v db cs =
     (if cs = [] then cs
      else case GetZNSNamesByAgentIDs (ev_T v) (map cr_EntityID cs) db of
             Inl _ \<Rightarrow> cs
           | Inr znsMap \<Rightarrow> map (\<lambda>c. case znsMap (cr_EntityID c) of None \<Rightarrow> c
               | Some name \<Rightarrow> c\<lparr>cr_FQAN := zn_FQAN name, cr_DeveloperHandle := zn_DeveloperHandle name\<rparr>) cs)"

definition request_max :: "Engine \<Rightarrow> SearchRequest \<Rightarrow> int" where
  "request_max e req = (if sq_MaxResults req \<le> 0 then sc_DefaultMaxResults (en_cfg e) else sq_MaxResults req)"

definition internal_limit :: "int \<Rightarrow> nat" where
  "internal_limit maxResults = (if maxResults * 3 < 50 then 50 else nat (maxResults * 3))"

text \<open>The candidates of the three sources with their counts, and what ranking and the filters make of them.\<close>

definition gather :: "'card search_env \<Rightarrow> DB \<Rightarrow> SearchRequest \<Rightarrow> Engine \<Rightarrow> 'card CandidateResult list \<times> SearchStats" where
  "gather v db req e =
     (let limit = internal_limit (request_max e req);
          locals = searchLocal v db req limit e;
          gossip = searchGossip v db req limit e;
          both = (if ev_local_first v then locals @ gossip else gossip @ locals);
          (fed, peers, fedCount) = (case ev_federated v of
              Some search \<Rightarrow> (if sq_Federated req then search req else ([], 0, 0))
            | None \<Rightarrow> ([], 0, 0))
      in (both @ map federated_candidate fed,
          \<lparr>st_LocalResults = int (length locals), st_GossipResults = int (length gossip), st_FederatedResults = fedCount,
           st_FilteredOut = 0, st_PeersQueried = peers\<rparr>))"

definition ranked_candidates :: "'card search_env \<Rightarrow> int \<Rightarrow> SearchRequest \<Rightarrow> Engine \<Rightarrow> 'card CandidateResult list \<Rightarrow> 'card CandidateResult list" where
  "ranked_candidates v now req e cs =
     (let cs = (if sq_EntityType req \<noteq> '''' then filter (\<lambda>c. cr_EntityType c = sq_EntityType req) cs else cs);
          cs = Rank (ev_T v) now (sc_Ranking (en_cfg e)) (Deduplicate cs)
      in if sc_MinScore (en_cfg e) > 0 then filter (\<lambda>c. cr_FinalScore c \<ge> sc_MinScore (en_cfg e)) cs else cs)"

definition Search :: "'card search_env \<Rightarrow> int \<Rightarrow> DB \<Rightarrow> SearchRequest \<Rightarrow> Engine \<Rightarrow> 'card SearchResponse option" where
  "Search v now db req e =
     (let maxResults = request_max e req;
          (cands, stats) = gather v db req e;
          rawCount = st_LocalResults stats + st_GossipResults stats + st_FederatedResults stats;
          ranked = ranked_candidates v now req e cands;
          totalFound = int (length ranked);
          filteredOut = (if rawCount - totalFound < 0 then 0 else rawCount - totalFound);
          rest = (if sq_Offset req > 0 then
                    (if sq_Offset req \<ge> int (length ranked) then [] else drop (nat (sq_Offset req)) ranked)
                  else ranked);
          hasMore = int (length rest) > maxResults
      in if hasMore \<and> maxResults < 0 then None
         else let top = (if hasMore then take (nat maxResults) rest else rest);
                  top = (if sq_Enrich req then enrichCandidates v db (take 10 top) @ drop 10 top else top);
                  top = enrichWithZNS v db top
              in Some \<lparr>sr_Results = ToSearchResults top, sr_TotalFound = totalFound, sr_Offset = sq_Offset req,
                       sr_HasMore = hasMore, sr_SearchStats = stats\<lparr>st_FilteredOut := filteredOut\<rparr>\<rparr>)"

end
