(* ===== verification/EngineProps.thy ===== *)
theory EngineProps
  imports Engine StoreProps
begin

text \<open>
  What a search promises: paging over the ranked candidates, the filters of the request, exact matches,
  and what the filters do to candidates of other registries.
\<close>

section \<open>A small registry\<close>

text \<open>One entity named \<open>n\<close>, a search environment whose embedder knows nothing and whose maps are ranged over
  backwards, and an engine over it.\<close>

definition sample_env :: "string search_env" where
  "sample_env = \<lparr>ev_T = unix_time, ev_embed = (\<lambda>_. []), ev_fetch = (\<lambda>_ _ _. None), ev_card_status = (\<lambda>_. ''''),
     ev_tags_text = concat, ev_federated = None, ev_ro = rev, ev_local_first = True\<rparr>"

definition sample_engine :: Engine where
  "sample_engine = NewEngine \<lparr>sc_DefaultMaxResults = 20, sc_MinScore = 0, sc_UseImprovedKeyword = False,
     sc_Ranking = \<lparr>rc_Method = ''rrf'', rc_TextRelevanceWeight = 3 / 10, rc_SemanticSimilarityWeight = 3 / 10,
       rc_TrustWeight = 2 / 10, rc_FreshnessWeight = 1 / 10, rc_AvailabilityWeight = 1 / 10\<rparr>\<rparr> 0"

definition sample_registry :: DB where
  "sample_registry = snd (CreateAgent unix_time 9 (sample_agent ''a'' ''w'') empty_db)"

definition sample_query :: SearchRequest where
  "sample_query = \<lparr>sq_Query = ''N '', sq_Category = ''tools'', sq_Tags = [], sq_Skills = [], sq_Protocols = [], sq_Languages = [],
     sq_Models = [], sq_MinTrustScore = 0, sq_Status = '''', sq_DeveloperID = '''', sq_DeveloperHandle = '''', sq_FQAN = '''',
     sq_EntityType = '''', sq_MaxResults = 5, sq_Offset = 0, sq_Federated = False, sq_Enrich = False, sq_TimeoutMs = 0\<rparr>"

lemma sample_entities:
  "\<exists>a. ListEntities unix_time '''' (Suc n) 0 sample_registry = Inr [a] \<and> rr_EntityID a = ''a'' \<and> rr_Name a = ''n'' \<and>
     rr_Category a = ''tools'' \<and> rr_Tags a = [] \<and> rr_Status a \<noteq> ''inactive''"
  by (simp add: sample_registry_def ListEntities_def CreateAgent_def pool_Exec_def pool_Query_def empty_db_def unix_time_def
      sample_agent_def t_insert_def page_def scanAgentRow_def sort_Slice_def)

section \<open>Paging\<close>

lemma enrich_ids [simp]: "cr_EntityID (enrich_card v db c) = cr_EntityID c"
  by (simp add: enrich_card_def Let_def split: option.splits)

lemma zns_ids: "map cr_EntityID (enrichWithZNS v db cs) = map cr_EntityID cs"
  by (auto simp: enrichWithZNS_def split: sum.splits option.splits)

lemma result_ids: "map res_EntityID (ToSearchResults cs) = map cr_EntityID cs"
  by (simp add: ToSearchResults_def to_result_def)

lemma gather_offset:
  assumes "\<not> sq_Federated req"
  shows "gather v db (req\<lparr>sq_Offset := n\<rparr>) e = gather v db req e"
proof -
  let ?req = "req\<lparr>sq_Offset := n\<rparr>"
  have sel: "sq_Query ?req = sq_Query req" "sq_Category ?req = sq_Category req" "sq_Tags ?req = sq_Tags req" by simp_all
  have preds: "passes_filters ?req = passes_filters req" "qualifies ?req = qualifies req"
    "gossip_passes ?req = gossip_passes req" "gossip_candidate v ?req e = gossip_candidate v req e"
    by (rule ext, simp add: passes_filters_def qualifies_def gossip_passes_def gossip_candidate_def)+
  have adds: "add_keyword v db ?req m = add_keyword v db req m" "add_semantic v db ?req = add_semantic v db req"
    "add_exact ?req = add_exact req" for m
    by (intro ext, simp only: add_keyword_def add_semantic_def add_exact_def preds sel)+
  have "searchLocal v db ?req limit e = searchLocal v db req limit e"
    "searchGossip v db ?req limit e = searchGossip v db req limit e" for limit
    by (simp_all only: searchLocal_def searchGossip_def local_map_def preds adds sel)
  moreover have "request_max e ?req = request_max e req" by (simp add: request_max_def)
  ultimately show ?thesis
    using assms by (cases "ev_federated v") (simp_all add: gather_def)
qed

lemma ranked_offset: "ranked_candidates v now (req\<lparr>sq_Offset := n\<rparr>) e cs = ranked_candidates v now req e cs"
  by (simp add: ranked_candidates_def)

definition all_ids :: "'card search_env \<Rightarrow> int \<Rightarrow> DB \<Rightarrow> SearchRequest \<Rightarrow> Engine \<Rightarrow> string list" where
  "all_ids v now db req e = map cr_EntityID (ranked_candidates v now req e (fst (gather v db req e)))"

definition page_ids :: "'card search_env \<Rightarrow> int \<Rightarrow> DB \<Rightarrow> SearchRequest \<Rightarrow> Engine \<Rightarrow> string list" where
  "page_ids v now db req e = (case Search v now db req e of None \<Rightarrow> [] | Some r \<Rightarrow> map res_EntityID (sr_Results r))"

lemma Search_page:
  assumes "0 \<le> sq_Offset req" "0 \<le> request_max e req"
  shows "\<exists>r. Search v now db req e = Some r \<and>
    map res_EntityID (sr_Results r) = take (nat (request_max e req)) (drop (nat (sq_Offset req)) (all_ids v now db req e)) \<and>
    sr_TotalFound r = int (length (all_ids v now db req e)) \<and>
    (sr_HasMore r \<longleftrightarrow> sq_Offset req + request_max e req < int (length (all_ids v now db req e)))"
proof -
  obtain cands stats where g: "gather v db req e = (cands, stats)" by (cases "gather v db req e")
  define ranked where "ranked = ranked_candidates v now req e cands"
  let ?n = "request_max e req" and ?o = "nat (sq_Offset req)"
  have rest: "(if sq_Offset req > 0 then
      (if sq_Offset req \<ge> int (length ranked) then [] else drop ?o ranked) else ranked) = drop ?o ranked"
    using assms(1) by auto
  have more: "int (length (drop ?o ranked)) > ?n \<longleftrightarrow> sq_Offset req + ?n < int (length ranked)"
    using assms by auto
  have top: "(if int (length (drop ?o ranked)) > ?n then take (nat ?n) (drop ?o ranked) else drop ?o ranked) =
      take (nat ?n) (drop ?o ranked)" by auto
  have ids: "map cr_EntityID (if b then enrichCandidates v db (take 10 xs) @ drop 10 xs else xs) = map cr_EntityID xs" for b xs
    by (simp add: enrichCandidates_def comp_def) (metis append_take_drop_id map_append)
  have neg: "\<not> ?n < 0" using assms(2) by simp
  have all: "all_ids v now db req e = map cr_EntityID ranked" by (simp add: all_ids_def g ranked_def)
  show ?thesis
    unfolding Search_def g Let_def prod.case ranked_def[symmetric] rest top all using neg
    by (simp add: result_ids zns_ids ids more take_map drop_map del: length_drop)
qed

lemma mset_RankWeighted_ids: "mset (map cr_EntityID (RankWeighted T now cfg cs)) = mset (map cr_EntityID cs)"
proof -
  let ?g = "\<lambda>(c, raw). c\<lparr>cr_FinalScore := clamp raw\<rparr>" and ?f = "\<lambda>c. (c\<lparr>cr_Freshness := computeFreshness T now (cr_UpdatedAt c)\<rparr>,
    raw_score cfg (c\<lparr>cr_Freshness := computeFreshness T now (cr_UpdatedAt c)\<rparr>))"
  have "mset (map (\<lambda>p. cr_EntityID (?g p)) (sort_Slice (\<lambda>a b. snd a > snd b) (map ?f cs))) = mset (map (\<lambda>p. cr_EntityID (?g p)) (map ?f cs))"
    by (simp only: mset_map mset_sort_Slice)
  then show ?thesis by (simp add: RankWeighted_def Let_def comp_def)
qed

lemma mset_Rank_ids: "mset (map cr_EntityID (Rank T now cfg cs)) = mset (map cr_EntityID cs)"
  using mset_RankWeighted_ids[of T now cfg cs] by (simp add: Rank_def RankRRF_def image_mset.compositionality comp_def)

lemma distinct_all_ids: "distinct (all_ids v now db req e)"
proof -
  have "distinct (map cr_EntityID (Rank T now cfg (Deduplicate cs)))" for T cfg and cs :: "'a CandidateResult list"
    using Deduplicate_ids(1)[of cs] mset_Rank_ids by (metis mset_eq_imp_distinct_iff)
  then show ?thesis by (simp add: all_ids_def ranked_candidates_def Let_def distinct_map_filter)
qed

lemma concat_pages:
  "concat (map (\<lambda>k. take n (drop (k * n) xs)) [0..<m]) = take (m * n) xs"
proof (induction m)
  case (Suc m)
  have "take (Suc m * n) xs = take (m * n) xs @ take n (drop (m * n) xs)"
    by (metis add.commute mult_Suc take_add)
  then show ?case using Suc by simp
qed simp

text \<open>Paging is complete and never repeats. For a search that is not federated and asks for \<open>n > 0\<close>
  results per page (the store, the clock and the map order being the same for all pages), the page at any
  offset is the slice of one fixed list of entities, each occurring once; \<open>total_found\<close> is its length and
  \<open>has_more\<close> says whether it goes on after this page; the first \<open>m\<close> pages put together are its first
  \<open>m\<close> times \<open>n\<close> entities.\<close>

theorem search_pages:
  assumes "\<not> sq_Federated req" and "sq_MaxResults req = int n" and "0 < n"
  shows "distinct (all_ids v now db req e) \<and>
    (\<exists>r. Search v now db (req\<lparr>sq_Offset := int k\<rparr>) e = Some r \<and>
       map res_EntityID (sr_Results r) = take n (drop k (all_ids v now db req e)) \<and>
       sr_TotalFound r = int (length (all_ids v now db req e)) \<and>
       (sr_HasMore r \<longleftrightarrow> k + n < length (all_ids v now db req e))) \<and>
    concat (map (\<lambda>j. page_ids v now db (req\<lparr>sq_Offset := int (j * n)\<rparr>) e) [0..<m]) = take (m * n) (all_ids v now db req e)"
proof -
  have all: "all_ids v now db (req\<lparr>sq_Offset := i\<rparr>) e = all_ids v now db req e" for i
    by (simp add: all_ids_def gather_offset[OF assms(1)] ranked_offset)
  have max: "request_max e (req\<lparr>sq_Offset := i\<rparr>) = int n" for i using assms(2,3) by (simp add: request_max_def)
  have page: "\<exists>r. Search v now db (req\<lparr>sq_Offset := int k\<rparr>) e = Some r \<and>
       map res_EntityID (sr_Results r) = take n (drop k (all_ids v now db req e)) \<and>
       sr_TotalFound r = int (length (all_ids v now db req e)) \<and>
       (sr_HasMore r \<longleftrightarrow> k + n < length (all_ids v now db req e))" for k
    using Search_page[of "req\<lparr>sq_Offset := int k\<rparr>" e v now db] by (auto simp: all max)
  then have ids: "page_ids v now db (req\<lparr>sq_Offset := int k\<rparr>) e = take n (drop k (all_ids v now db req e))" for k
    by (metis (no_types, lifting) option.simps(5) page_ids_def)
  show ?thesis unfolding ids by (intro conjI distinct_all_ids page concat_pages)
qed

theorem search_pages_witness:
  "concat (map (\<lambda>j. page_ids sample_env 100 sample_registry (sample_query\<lparr>sq_Offset := int (j * 5)\<rparr>) sample_engine) [0..<2]) =
     take (2 * 5) (all_ids sample_env 100 sample_registry sample_query sample_engine)"
  using search_pages[of sample_query 5 sample_env 100 sample_registry sample_engine 0 2] by (simp add: sample_query_def)

section \<open>The filters of a request\<close>

text \<open>What a candidate that passed the filters satisfies; the tags of a gossip entry are matched by the
  store as text, so they are not part of it.\<close>

definition meets :: "SearchRequest \<Rightarrow> 'card CandidateResult \<Rightarrow> bool" where
  "meets req c = (cr_Status c \<noteq> ''inactive'' \<and> (sq_Category req = '''' \<or> cr_Category c = sq_Category req) \<and>
     (sq_DeveloperID req = '''' \<or> cr_DeveloperID c = sq_DeveloperID req) \<and>
     (sq_EntityType req = '''' \<or> cr_EntityType c = sq_EntityType req))"

definition local_ok :: "SearchRequest \<Rightarrow> string \<times> 'card CandidateResult \<Rightarrow> bool" where
  "local_ok req kc = (cr_EntityID (snd kc) = fst kc \<and> meets req (snd kc) \<and>
     (sq_Tags req = [] \<or> hasAnyTag (cr_Tags (snd kc)) (sq_Tags req)))"

lemma local_candidate_ok:
  "passes_filters req agent \<Longrightarrow> local_ok req (rr_EntityID agent, local_candidate agent x y)"
  by (auto simp: passes_filters_def local_ok_def meets_def local_candidate_def split: if_splits)

lemma GetEntity_id: "GetEntity T i db = Inr (Some agent) \<Longrightarrow> rr_EntityID agent = i"
proof -
  assume "GetEntity T i db = Inr (Some agent)"
  then obtain row where "t_get ekey i (db_entities db) = Some row" "agent = scanAgentRow T row"
    by (auto simp: GetEntity_def pool_Query_def split: if_splits)
  then show "rr_EntityID agent = i" using t_get_Some[of ekey i] by (auto simp: scanAgentRow_def)
qed

definition cands_ok :: "SearchRequest \<Rightarrow> 'card candidates \<Rightarrow> bool" where
  "cands_ok req cands = (keys_distinct fst cands \<and> (\<forall>kc\<in>set cands. local_ok req kc))"

lemma cands_ok_set: "cands_ok req cands \<Longrightarrow> local_ok req (k, c) \<Longrightarrow> cands_ok req (map_set k c cands)"
  by (auto simp: cands_ok_def keys_distinct_map_ops dest!: set_map_set)

lemma cands_ok_get: "cands_ok req cands \<Longrightarrow> map_get k cands = Some c \<Longrightarrow> local_ok req (k, c)"
  by (auto simp: cands_ok_def map_get_def dest!: t_get_Some)

lemma add_keyword_ok: "cands_ok req cands \<Longrightarrow> cands_ok req (add_keyword v db req m kr cands)"
  using GetEntity_id[of "ev_T v" "kr_DocID kr" db]
  by (auto simp: add_keyword_def Let_def intro!: cands_ok_set split: sum.splits option.splits dest: local_candidate_ok)

lemma local_ok_update:
  "local_ok req (k, c) \<Longrightarrow> local_ok req (k, c\<lparr>cr_SemanticSimilarity := x\<rparr>)"
  "local_ok req (k, c) \<Longrightarrow> local_ok req (k, c\<lparr>cr_TextRelevance := x\<rparr>)"
  by (simp_all add: local_ok_def meets_def)

lemma add_semantic_ok:
  assumes "cands_ok req cands"
  shows "cands_ok req (add_semantic v db req r cands)"
proof (cases "map_get (kr_DocID r) cands")
  case (Some c)
  then show ?thesis
    using assms cands_ok_get[OF assms Some] by (simp add: add_semantic_def cands_ok_set local_ok_update)
next
  case None
  then show ?thesis
    using assms GetEntity_id[of "ev_T v" "kr_DocID r" db]
    by (auto simp: add_semantic_def intro!: cands_ok_set split: sum.splits option.splits dest: local_candidate_ok)
qed

lemma add_exact_ok:
  assumes "cands_ok req cands"
  shows "cands_ok req (add_exact req agent cands)"
proof (cases "map_get (rr_EntityID agent) cands")
  case (Some c)
  then show ?thesis
    using assms cands_ok_get[OF assms Some] by (simp add: add_exact_def cands_ok_set local_ok_update)
next
  case None
  then show ?thesis using assms by (simp add: add_exact_def cands_ok_set local_candidate_ok)
qed

lemma fold_cands_ok:
  "(\<And>x cands. cands_ok req cands \<Longrightarrow> cands_ok req (f x cands)) \<Longrightarrow> cands_ok req cands \<Longrightarrow> cands_ok req (fold f xs cands)"
  by (induction xs arbitrary: cands) simp_all

lemma local_map_ok: "cands_ok req (local_map v db req limit e)"
proof -
  have "cands_ok req []" by (simp add: cands_ok_def)
  then show ?thesis
    by (auto simp: local_map_def Let_def split: sum.splits
        intro!: fold_cands_ok[where f = "add_exact req"] fold_cands_ok[where f = "add_semantic v db req"]
          fold_cands_ok[where f = "add_keyword v db req m" for m] add_keyword_ok add_semantic_ok add_exact_ok)
qed

lemma searchLocal_meets: "c \<in> set (searchLocal v db req limit e) \<Longrightarrow> meets req c"
proof -
  assume "c \<in> set (searchLocal v db req limit e)"
  then obtain k where "map_get k (local_map v db req limit e) = Some c"
    by (auto simp: searchLocal_def List.map_filter_def Let_def)
  then have "local_ok req (k, c)" using cands_ok_get[OF local_map_ok] by blast
  then show "meets req c" by (simp add: local_ok_def)
qed

lemma searchGossip_entry:
  assumes "c \<in> set (searchGossip v db req limit e)"
  shows "\<exists>entry. c = gossip_candidate v req e entry \<and> gossip_passes req entry \<and> ge_DeveloperID entry = '''' \<and>
    (sq_Category req \<noteq> '''' \<longrightarrow> ge_Category entry = sq_Category req)"
proof -
  obtain es where es: "SearchGossipByKeyword (ev_T v) (ev_tags_text v) (sq_Query req) (sq_Category req) (sq_Tags req) limit db = Inr es"
    using assms by (cases "SearchGossipByKeyword (ev_T v) (ev_tags_text v) (sq_Query req) (sq_Category req) (sq_Tags req) limit db")
      (simp_all add: searchGossip_def)
  then obtain entry where s: "entry \<in> set es" "c = gossip_candidate v req e entry" "gossip_passes req entry"
    using assms by (auto simp: searchGossip_def)
  then show ?thesis using SearchGossipByKeyword_sound(2,3)[OF es s(1)] by blast
qed

lemma searchGossip_meets: "c \<in> set (searchGossip v db req limit e) \<Longrightarrow> meets req c"
  by (drule searchGossip_entry)
    (auto simp: meets_def gossip_candidate_def gossip_passes_def Let_def split: if_splits)

lemma Rank_from:
  assumes "c' \<in> set (Rank T now cfg cs)"
  shows "\<exists>c\<in>set cs. \<exists>x y. c' = c\<lparr>cr_Freshness := x, cr_FinalScore := y\<rparr>"
proof (cases "rc_Method cfg = ''rrf''")
  case True
  then obtain c where "c \<in> set cs" "c' = c\<lparr>cr_FinalScore := rrf_score cs c\<rparr>"
    using assms by (auto simp: Rank_def RankRRF_def)
  moreover have "c = c\<lparr>cr_Freshness := cr_Freshness c\<rparr>" by simp
  ultimately show ?thesis by metis
next
  case False
  then show ?thesis using assms by (auto simp: Rank_def RankWeighted_def Let_def)
qed

lemma ranked_meets:
  assumes "list_all (meets req) cs"
  shows "list_all (meets req) (ranked_candidates v now req e cs)"
proof -
  have "list_all (meets req) (Rank T now cfg (Deduplicate xs))" if "set xs \<subseteq> set cs" for T cfg xs
    unfolding list_all_iff
  proof
    fix c' assume "c' \<in> set (Rank T now cfg (Deduplicate xs))"
    then obtain c x y where "c \<in> set (Deduplicate xs)" "c' = c\<lparr>cr_Freshness := x, cr_FinalScore := y\<rparr>"
      using Rank_from by blast
    moreover from this have "meets req c" using assms that Deduplicate_ids(3) by (auto simp: list_all_iff)
    ultimately show "meets req c'" by (simp add: meets_def)
  qed
  from this[of cs] this[of "filter (\<lambda>c. cr_EntityType c = sq_EntityType req) cs"]
  show ?thesis by (auto simp: ranked_candidates_def Let_def list_all_iff)
qed

lemma enrich_meets: "meets req (enrich_card v db c) = meets req c"
  by (simp add: enrich_card_def Let_def meets_def split: option.splits)

lemma zns_meets: "list_all (meets req) (enrichWithZNS v db cs) = list_all (meets req) cs"
  by (auto simp: enrichWithZNS_def list_all_iff meets_def split: sum.splits option.splits)

text \<open>A search is the ranked list, cut and decorated: every result comes from a ranked candidate.\<close>

lemma Search_results:
  assumes "Search v now db req e = Some r"
  shows "\<exists>top. set top \<subseteq> set (ranked_candidates v now req e (fst (gather v db req e))) \<and>
    sr_Results r = ToSearchResults (enrichWithZNS v db
      (if sq_Enrich req then enrichCandidates v db (take 10 top) @ drop 10 top else top))"
proof -
  obtain cands stats where g: "gather v db req e = (cands, stats)" by (cases "gather v db req e")
  define ranked where "ranked = ranked_candidates v now req e cands"
  define rest where "rest = (if sq_Offset req > 0 then
    (if sq_Offset req \<ge> int (length ranked) then [] else drop (nat (sq_Offset req)) ranked) else ranked)"
  define top where "top = (if int (length rest) > request_max e req then take (nat (request_max e req)) rest else rest)"
  have "set rest \<subseteq> set ranked" by (auto simp: rest_def dest: in_set_dropD)
  moreover have "set top \<subseteq> set rest" by (auto simp: top_def dest: in_set_takeD)
  moreover have "sr_Results r = ToSearchResults (enrichWithZNS v db
      (if sq_Enrich req then enrichCandidates v db (take 10 top) @ drop 10 top else top))"
    using assms unfolding Search_def g Let_def prod.case ranked_def[symmetric] rest_def[symmetric] top_def[symmetric]
    by (auto split: if_splits)
  ultimately show ?thesis by (intro exI[of _ top]) (simp add: g ranked_def)
qed

definition result_meets :: "SearchRequest \<Rightarrow> 'card SearchResult \<Rightarrow> bool" where
  "result_meets req r = (res_Status r \<noteq> ''inactive'' \<and> (sq_Category req = '''' \<or> res_Category r = sq_Category req) \<and>
     (sq_DeveloperID req = '''' \<or> res_DeveloperID r = sq_DeveloperID req) \<and>
     (sq_EntityType req = '''' \<or> res_EntityType r = sq_EntityType req))"

lemma search_meets:
  assumes "\<not> sq_Federated req" and "Search v now db req e = Some r"
  shows "list_all (result_meets req) (sr_Results r)"
proof -
  obtain top where top: "set top \<subseteq> set (ranked_candidates v now req e (fst (gather v db req e)))"
    "sr_Results r = ToSearchResults (enrichWithZNS v db
      (if sq_Enrich req then enrichCandidates v db (take 10 top) @ drop 10 top else top))"
    using Search_results[OF assms(2)] by blast
  have "list_all (meets req) (fst (gather v db req e))"
    using assms(1) searchLocal_meets searchGossip_meets
    by (cases "ev_federated v") (auto simp: gather_def Let_def list_all_iff)
  then have "list_all (meets req) top" using ranked_meets top(1) by (fastforce simp: list_all_iff)
  then have "list_all (meets req) (if sq_Enrich req then enrichCandidates v db (take 10 top) @ drop 10 top else top)"
    by (auto simp: list_all_iff enrichCandidates_def enrich_meets dest: in_set_takeD in_set_dropD)
  then show ?thesis
    using zns_meets[of req v db] unfolding top(2)
    by (auto simp: list_all_iff ToSearchResults_def to_result_def result_meets_def meets_def)
qed



section \<open>Exact matches\<close>

text \<open>An entity that the exact-match pass sees and that qualifies keeps its boost to the end of the pass.\<close>

definition boosted :: "string \<Rightarrow> 'card candidates \<Rightarrow> bool" where
  "boosted k cands = (case map_get k cands of None \<Rightarrow> False | Some c \<Rightarrow> 5 / 2 \<le> cr_TextRelevance c)"

lemma add_exact_boosts: "passes_filters req agent \<Longrightarrow> qualifies req agent \<Longrightarrow> boosted (rr_EntityID agent) (add_exact req agent cands)"
  by (auto simp: add_exact_def boosted_def local_candidate_def split: option.splits)

lemma add_exact_keeps: "boosted k cands \<Longrightarrow> boosted k (add_exact req agent cands)"
  by (auto simp: add_exact_def boosted_def local_candidate_def split: option.splits if_splits)

lemma fold_exact_boosts:
  "boosted k cands \<or> (\<exists>agent\<in>set agents. rr_EntityID agent = k \<and> passes_filters req agent \<and> qualifies req agent) \<Longrightarrow>
   boosted k (fold (add_exact req) agents cands)"
proof (induction agents arbitrary: cands)
  case (Cons a agents)
  then show ?case using add_exact_boosts[of req a cands] add_exact_keeps[of k cands req a] by auto
qed simp

lemma searchLocal_exact:
  assumes "\<And>xs. mset (ev_ro v xs) = mset xs"
    and "ListEntities (ev_T v) '''' (limit * 2) 0 db = Inr agents" "agent \<in> set agents"
    and "passes_filters req agent" "qualifies req agent"
  shows "\<exists>c\<in>set (searchLocal v db req limit e). cr_EntityID c = rr_EntityID agent \<and> 5 / 2 \<le> cr_TextRelevance c"
proof -
  let ?m = "local_map v db req limit e" and ?k = "rr_EntityID agent"
  have "boosted ?k ?m"
    unfolding local_map_def Let_def assms(2) sum.case by (rule fold_exact_boosts) (use assms(3-5) in blast)
  then obtain c where c: "map_get ?k ?m = Some c" "5 / 2 \<le> cr_TextRelevance c"
    by (auto simp: boosted_def split: option.splits)
  have "?k \<in> set (map fst ?m)" using c(1) map_get_keys[of ?k ?m] by simp
  then have "?k \<in> set (ev_ro v (map fst ?m))" using assms(1)[of "map fst ?m"] by (metis set_mset_mset)
  then have "c \<in> set (searchLocal v db req limit e)"
    using c(1) by (force simp: searchLocal_def Let_def List.map_filter_def)
  moreover have "cr_EntityID c = ?k" using cands_ok_get[OF local_map_ok c(1)] by (simp add: local_ok_def)
  ultimately show ?thesis using c(2) by blast
qed

lemma exact_match_ids:
  assumes "\<And>xs. mset (ev_ro v xs) = mset xs" and "sc_MinScore (en_cfg e) \<le> 0"
    and "ListEntities (ev_T v) '''' (internal_limit (request_max e req) * 2) 0 db = Inr agents" and "agent \<in> set agents"
    and "passes_filters req agent" and "qualifies req agent"
  shows "rr_EntityID agent \<in> set (all_ids v now db req e)"
proof -
  obtain c where c: "c \<in> set (searchLocal v db req (internal_limit (request_max e req)) e)" "cr_EntityID c = rr_EntityID agent"
    using searchLocal_exact[OF assms(1,3-6)] by blast
  let ?cs = "fst (gather v db req e)"
  have mem: "c \<in> set ?cs" using c(1) by (auto simp: gather_def Let_def split_beta)
  have type: "sq_EntityType req = '''' \<or> cr_EntityType c = sq_EntityType req"
    using searchLocal_meets[OF c(1)] by (simp add: meets_def)
  let ?fs = "if sq_EntityType req \<noteq> '''' then filter (\<lambda>c. cr_EntityType c = sq_EntityType req) ?cs else ?cs"
  have "c \<in> set ?fs" using mem type by auto
  then have "cr_EntityID c \<in> cr_EntityID ` set (Deduplicate ?fs)" using Deduplicate_ids(2) by blast
  also have "\<dots> = set (map cr_EntityID (Rank (ev_T v) now (sc_Ranking (en_cfg e)) (Deduplicate ?fs)))"
    using arg_cong[OF mset_Rank_ids[of "ev_T v" now "sc_Ranking (en_cfg e)" "Deduplicate ?fs"], of set_mset] by simp
  finally show ?thesis using assms(2) c(2) by (simp add: all_ids_def ranked_candidates_def Let_def not_less)
qed

lemma exact_qualifies: "isExactMatch (sq_Query req) (rr_Name agent) (rr_Category agent) (rr_Tags agent) \<Longrightarrow> qualifies req agent"
  by (auto simp: qualifies_def isExactMatch_def Let_def split: if_splits)

text \<open>An exact match is found. An entity among the newest the exact-match pass reads, that passes the
  filters of the request and whose name, category or one of whose tags equals the query up to case and
  surrounding blanks, is among the results (over all pages) whatever the indexes and the embedding say, as long
  as no minimum score is configured.\<close>

theorem exact_match_found:
  assumes "\<And>xs. mset (ev_ro v xs) = mset xs" and "sc_MinScore (en_cfg e) \<le> 0"
    and "ListEntities (ev_T v) '''' (internal_limit (request_max e req) * 2) 0 db = Inr agents" and "agent \<in> set agents"
    and "passes_filters req agent"
    and "isExactMatch (sq_Query req) (rr_Name agent) (rr_Category agent) (rr_Tags agent)"
  shows "rr_EntityID agent \<in> set (all_ids v now db req e)"
  using exact_match_ids[OF assms(1-5) exact_qualifies[OF assms(6)]] .

theorem exact_match_found_witness: "''a'' \<in> set (all_ids sample_env 100 sample_registry sample_query sample_engine)"
proof -
  have n: "internal_limit (request_max sample_engine sample_query) * 2 = Suc 99"
    by (simp add: internal_limit_def request_max_def sample_query_def)
  obtain a where a: "ListEntities unix_time '''' (Suc 99) 0 sample_registry = Inr [a]" "rr_EntityID a = ''a''" "rr_Name a = ''n''"
     "rr_Category a = ''tools''" "rr_Tags a = []" "rr_Status a \<noteq> ''inactive''"
    using sample_entities[of 99] by blast
  have "rr_EntityID a \<in> set (all_ids sample_env 100 sample_registry sample_query sample_engine)"
  proof (rule exact_match_found)
    show "ListEntities (ev_T sample_env) '''' (internal_limit (request_max sample_engine sample_query) * 2) 0 sample_registry = Inr [a]"
      using a(1) n by (simp add: sample_env_def)
    show "isExactMatch (sq_Query sample_query) (rr_Name a) (rr_Category a) (rr_Tags a)"
    proof -
      have "ToLower (TrimSpace ''N '') = ''n''" "ToLower (TrimSpace ''n'') = ''n''" by code_simp+
      then show ?thesis using a(3) by (simp add: sample_query_def isExactMatch_def)
    qed
  qed (use a(4-6) in \<open>auto simp: sample_env_def sample_engine_def NewEngine_def passes_filters_def sample_query_def\<close>)
  then show ?thesis using a(2) by simp
qed

section \<open>Filters and other registries\<close>

lemma Rank_empty: "Rank T now cfg (Deduplicate []) = []"
  by (simp add: Rank_def RankRRF_def RankWeighted_def Deduplicate_def)

text \<open>Some filters silently cut other registries off. A search restricted to a developer has no candidates
  from the gossip index, whoever the entries there belong to, and a search restricted to an entity type returns
  nothing that only the peers found, whatever type it has there.\<close>

theorem filters_drop_remote_results:
  "(sq_DeveloperID req \<noteq> '''' \<longrightarrow> searchGossip v db req limit e = []) \<and>
   (sq_EntityType req \<noteq> '''' \<longrightarrow>
      ranked_candidates v now req e (map federated_candidate fed) = [])"
proof (intro conjI impI)
  assume dev: "sq_DeveloperID req \<noteq> ''''"
  show "searchGossip v db req limit e = []"
  proof (rule ccontr)
    assume "searchGossip v db req limit e \<noteq> []"
    then obtain c where "c \<in> set (searchGossip v db req limit e)" by (meson list.set_sel(1))
    then show False using searchGossip_entry[of c v db req limit e] dev by (auto simp: gossip_passes_def split: if_splits)
  qed
next
  assume "sq_EntityType req \<noteq> ''''"
  then have none: "filter (\<lambda>c. cr_EntityType c = sq_EntityType req) (map federated_candidate fed) = []"
    by (auto simp: filter_empty_conv federated_candidate_def)
  then show "ranked_candidates v now req e (map federated_candidate fed) = []"
    using \<open>sq_EntityType req \<noteq> ''''\<close> by (simp add: ranked_candidates_def Let_def Rank_empty)
qed

theorem filters_drop_remote_results_witness:
  "\<forall>fed. searchGossip sample_env sample_registry (sample_query\<lparr>sq_DeveloperID := ''d''\<rparr>) 50 sample_engine = [] \<and>
   ranked_candidates sample_env 100 (sample_query\<lparr>sq_EntityType := ''service''\<rparr>) sample_engine (map federated_candidate fed) = []"
  using filters_drop_remote_results[of "sample_query\<lparr>sq_DeveloperID := ''d''\<rparr>" sample_env sample_registry 50 sample_engine 100]
    filters_drop_remote_results[of "sample_query\<lparr>sq_EntityType := ''service''\<rparr>" sample_env sample_registry 50 sample_engine 100]
  by simp

end
