(* ===== verification/Lru.thy ===== *)
theory Lru
  imports GoMap
begin

text \<open>
  The cache of Agent Cards (\<open>src/internal/card/cache.go\<close>). The elements of the
  \<open>container/list\<close> are objects that the map \<open>items\<close> points to, so the model has an explicit
  store: an element is its index into \<open>lru_elems\<close>, \<open>lru_eviction\<close> lists the elements that are
  in the list (front first), and \<open>lru_items\<close> maps keys to elements. \<open>Get\<close> takes the lock twice;
  its two critical sections are \<open>Get_lookup\<close> and \<open>Get_finish\<close>. Times are nanoseconds.
  The theory relates the cache to its specification, a list of entries ordered by their last use.
\<close>

section \<open>The cache\<close>

record 'c cacheEntry =
  en_card :: 'c
  en_expiresAt :: int
  en_key :: string

record 'c LRUCache =
  lru_maxSize :: int
  lru_ttl :: int
  lru_items :: "(string \<times> nat) list"
  lru_eviction :: "nat list"
  lru_elems :: "'c cacheEntry list"

definition NewLRUCache :: "int \<Rightarrow> int \<Rightarrow> 'c LRUCache" where
  "NewLRUCache maxSize ttlSeconds =
     \<lparr>lru_maxSize = maxSize, lru_ttl = ttlSeconds * 1000000000, lru_items = [], lru_eviction = [], lru_elems = []\<rparr>"

text \<open>\<open>MoveToFront\<close> and \<open>Remove\<close> of \<open>container/list\<close> do nothing on an element that is no longer
  in the list.\<close>

definition MoveToFront :: "nat \<Rightarrow> nat list \<Rightarrow> nat list" where
  "MoveToFront e l = (if e \<in> set l then e # removeAll e l else l)"

definition removeElement :: "nat \<Rightarrow> 'c LRUCache \<Rightarrow> 'c LRUCache" where
  "removeElement elem c =
     c\<lparr>lru_eviction := removeAll elem (lru_eviction c),
       lru_items := map_del (en_key (lru_elems c ! elem)) (lru_items c)\<rparr>"

definition lru_evictOldest :: "'c LRUCache \<Rightarrow> 'c LRUCache" where
  "lru_evictOldest c = (if lru_eviction c = [] then c else removeElement (last (lru_eviction c)) c)"

definition Get_lookup :: "string \<Rightarrow> 'c LRUCache \<Rightarrow> nat option" where
  "Get_lookup agentID c = map_get agentID (lru_items c)"

definition Get_finish :: "int \<Rightarrow> nat \<Rightarrow> 'c LRUCache \<Rightarrow> 'c option \<times> 'c LRUCache" where
  "Get_finish now elem c =
     (let entry = lru_elems c ! elem
      in if now > en_expiresAt entry then (None, removeElement elem c)
         else (Some (en_card entry), c\<lparr>lru_eviction := MoveToFront elem (lru_eviction c)\<rparr>))"

definition lru_Get :: "int \<Rightarrow> string \<Rightarrow> 'c LRUCache \<Rightarrow> 'c option \<times> 'c LRUCache" where
  "lru_Get now agentID c =
     (case Get_lookup agentID c of None \<Rightarrow> (None, c) | Some elem \<Rightarrow> Get_finish now elem c)"

definition lru_Put :: "int \<Rightarrow> string \<Rightarrow> 'c \<Rightarrow> 'c LRUCache \<Rightarrow> 'c LRUCache" where
  "lru_Put now agentID acard c =
     (case map_get agentID (lru_items c) of
        Some elem \<Rightarrow>
          c\<lparr>lru_eviction := MoveToFront elem (lru_eviction c),
            lru_elems := (lru_elems c)[elem :=
              (lru_elems c ! elem)\<lparr>en_card := acard, en_expiresAt := now + lru_ttl c\<rparr>]\<rparr>
      | None \<Rightarrow>
          (let c = (if int (length (lru_eviction c)) \<ge> lru_maxSize c then lru_evictOldest c else c);
               entry = \<lparr>en_card = acard, en_expiresAt = now + lru_ttl c, en_key = agentID\<rparr>;
               elem = length (lru_elems c)
           in c\<lparr>lru_elems := lru_elems c @ [entry], lru_eviction := elem # lru_eviction c,
                lru_items := map_set agentID elem (lru_items c)\<rparr>))"

definition lru_Remove :: "string \<Rightarrow> 'c LRUCache \<Rightarrow> 'c LRUCache" where
  "lru_Remove agentID c =
     (case map_get agentID (lru_items c) of None \<Rightarrow> c | Some elem \<Rightarrow> removeElement elem c)"

definition lru_Len :: "'c LRUCache \<Rightarrow> nat" where
  "lru_Len c = length (lru_items c)"

definition lru_Clear :: "'c LRUCache \<Rightarrow> 'c LRUCache" where
  "lru_Clear c = c\<lparr>lru_items := [], lru_eviction := []\<rparr>"

section \<open>Specification: entries by last use\<close>

text \<open>What the cache promises: a list of \<open>(key, card, expiry)\<close>, most recently used first, with at
  most one entry per key.\<close>

type_synonym 'c recency = "(string \<times> 'c \<times> int) list"

definition spec_Get :: "int \<Rightarrow> string \<Rightarrow> 'c recency \<Rightarrow> 'c option \<times> 'c recency" where
  "spec_Get now k xs =
     (case map_get k xs of
        None \<Rightarrow> (None, xs)
      | Some (acard, expiry) \<Rightarrow>
          if now > expiry then (None, map_del k xs) else (Some acard, (k, acard, expiry) # map_del k xs))"

definition spec_Put :: "int \<Rightarrow> int \<Rightarrow> int \<Rightarrow> string \<Rightarrow> 'c \<Rightarrow> 'c recency \<Rightarrow> 'c recency" where
  "spec_Put maxSize ttl now k acard xs =
     (let kept = (if k \<in> fst ` set xs then map_del k xs
                  else if int (length xs) \<ge> maxSize then butlast xs else xs)
      in (k, acard, now + ttl) # kept)"

datatype 'c cache_op =
    Op_Get int string
  | Op_Put int string 'c
  | Op_Remove string
  | Op_Clear

fun lru_step :: "'c cache_op \<Rightarrow> 'c LRUCache \<Rightarrow> 'c option \<times> 'c LRUCache" where
  "lru_step (Op_Get now k) c = lru_Get now k c"
| "lru_step (Op_Put now k acard) c = (None, lru_Put now k acard c)"
| "lru_step (Op_Remove k) c = (None, lru_Remove k c)"
| "lru_step Op_Clear c = (None, lru_Clear c)"

fun spec_step :: "int \<Rightarrow> int \<Rightarrow> 'c cache_op \<Rightarrow> 'c recency \<Rightarrow> 'c option \<times> 'c recency" where
  "spec_step maxSize ttl (Op_Get now k) xs = spec_Get now k xs"
| "spec_step maxSize ttl (Op_Put now k acard) xs = (None, spec_Put maxSize ttl now k acard xs)"
| "spec_step maxSize ttl (Op_Remove k) xs = (None, map_del k xs)"
| "spec_step maxSize ttl Op_Clear xs = (None, [])"

section \<open>The cache refines the specification\<close>

definition entry_of :: "'c cacheEntry list \<Rightarrow> nat \<Rightarrow> string \<times> 'c \<times> int" where
  "entry_of els e = (en_key (els ! e), en_card (els ! e), en_expiresAt (els ! e))"

definition lru_abs :: "'c LRUCache \<Rightarrow> 'c recency" where
  "lru_abs c = map (entry_of (lru_elems c)) (lru_eviction c)"

definition lru_wf :: "'c LRUCache \<Rightarrow> bool" where
  "lru_wf c = (distinct (lru_eviction c) \<and> (\<forall>e\<in>set (lru_eviction c). e < length (lru_elems c)) \<and>
     keys_distinct fst (lru_items c) \<and>
     (\<forall>k e. map_get k (lru_items c) = Some e \<longleftrightarrow> e \<in> set (lru_eviction c) \<and> en_key (lru_elems c ! e) = k))"

definition lru_inv :: "int \<Rightarrow> int \<Rightarrow> 'c LRUCache \<Rightarrow> bool" where
  "lru_inv maxSize ttl c = (lru_wf c \<and> lru_maxSize c = maxSize \<and> lru_ttl c = ttl \<and>
     int (length (lru_eviction c)) \<le> max 1 maxSize)"

lemma lru_wf_items:
  "lru_wf c \<Longrightarrow> map_get k (lru_items c) = Some e \<longleftrightarrow> e \<in> set (lru_eviction c) \<and> en_key (lru_elems c ! e) = k"
  by (simp add: lru_wf_def)

lemma lru_wf_key_inj:
  "lru_wf c \<Longrightarrow> e \<in> set (lru_eviction c) \<Longrightarrow> e' \<in> set (lru_eviction c) \<Longrightarrow>
   en_key (lru_elems c ! e) = en_key (lru_elems c ! e') \<longleftrightarrow> e = e'"
  by (metis lru_wf_items option.inject)

lemma fst_entry_of [simp]: "fst (entry_of els e) = en_key (els ! e)"
  by (simp add: entry_of_def)

lemma lru_abs_keys: "lru_wf c \<Longrightarrow> keys_distinct fst (lru_abs c)"
  unfolding keys_distinct_def lru_abs_def
  by (auto simp: distinct_map lru_wf_def comp_inj_on_iff intro!: inj_onI) (metis option.inject)

lemma lru_abs_get:
  assumes "lru_wf c"
  shows "map_get k (lru_abs c) = map_option (\<lambda>e. snd (entry_of (lru_elems c) e)) (map_get k (lru_items c))"
proof (cases "map_get k (lru_items c)")
  case None
  then have "k \<notin> fst ` set (lru_abs c)"
    using lru_wf_items[OF assms, of k] by (auto simp: lru_abs_def image_image image_iff)
  then show ?thesis using None map_get_None by fastforce
next
  case (Some e)
  then have e: "e \<in> set (lru_eviction c)" "en_key (lru_elems c ! e) = k"
    using lru_wf_items[OF assms] by blast+
  then have "(k, snd (entry_of (lru_elems c) e)) \<in> set (lru_abs c)"
    by (force simp: lru_abs_def entry_of_def)
  then show ?thesis using Some map_get_unique[OF lru_abs_keys[OF assms]] by simp
qed

lemma map_del_abs:
  assumes "lru_wf c" "e \<in> set (lru_eviction c)"
  shows "map_del (en_key (lru_elems c ! e)) (lru_abs c) =
    map (entry_of (lru_elems c)) (removeAll e (lru_eviction c))"
proof -
  have "filter (\<lambda>e'. en_key (lru_elems c ! e') \<noteq> en_key (lru_elems c ! e)) (lru_eviction c) =
      filter (\<lambda>e'. e \<noteq> e') (lru_eviction c)"
    using lru_wf_key_inj[OF assms(1)] assms(2) by (intro filter_cong) auto
  then show ?thesis
    by (simp add: lru_abs_def map_del_def t_delete_def filter_map comp_def removeAll_filter_not_eq)
qed

lemma removeElement_wf:
  assumes "lru_wf c" "e \<in> set (lru_eviction c)"
  shows "lru_wf (removeElement e c)"
proof -
  have d: "keys_distinct fst (lru_items c)" using assms(1) by (simp add: lru_wf_def)
  show ?thesis
    using assms lru_wf_key_inj[OF assms(1)]
    by (auto simp: lru_wf_def removeElement_def map_get_del[OF d] keys_distinct_map_ops distinct_removeAll)
qed

lemma removeElement_abs:
  "lru_wf c \<Longrightarrow> e \<in> set (lru_eviction c) \<Longrightarrow>
   lru_abs (removeElement e c) = map_del (en_key (lru_elems c ! e)) (lru_abs c)"
  by (simp add: map_del_abs) (simp add: lru_abs_def removeElement_def)

lemma removeElement_inv:
  assumes "lru_inv maxSize ttl c" "e \<in> set (lru_eviction c)"
  shows "lru_inv maxSize ttl (removeElement e c)"
proof -
  have wf: "lru_wf (removeElement e c)" using assms removeElement_wf[of c e] by (simp add: lru_inv_def)
  have "int (length (removeAll e (lru_eviction c))) \<le> int (length (lru_eviction c))" by simp
  then have "int (length (removeAll e (lru_eviction c))) \<le> max 1 maxSize"
    using assms(1) unfolding lru_inv_def by linarith
  then show ?thesis using assms(1) wf by (simp add: lru_inv_def) (simp add: removeElement_def)
qed

lemma MoveToFront_wf:
  "lru_wf c \<Longrightarrow> e \<in> set (lru_eviction c) \<Longrightarrow> lru_wf (c\<lparr>lru_eviction := MoveToFront e (lru_eviction c)\<rparr>)"
  by (auto simp: lru_wf_def MoveToFront_def distinct_removeAll)

lemma MoveToFront_abs:
  assumes "lru_wf c" "e \<in> set (lru_eviction c)"
  shows "map (entry_of (lru_elems c)) (MoveToFront e (lru_eviction c)) =
    entry_of (lru_elems c) e # map_del (en_key (lru_elems c ! e)) (lru_abs c)"
  by (simp add: map_del_abs[OF assms]) (simp add: MoveToFront_def assms(2))

lemma length_MoveToFront: "distinct l \<Longrightarrow> length (MoveToFront e l) = length l"
  by (auto simp: MoveToFront_def distinct_remove1_removeAll[symmetric] length_remove1
      dest: length_pos_if_in_set)

lemma removeElement_last_abs:
  assumes "lru_wf c" "lru_eviction c \<noteq> []"
  shows "lru_abs (removeElement (last (lru_eviction c)) c) = butlast (lru_abs c)"
proof -
  obtain l e where l: "lru_eviction c = l @ [e]" using assms(2) by (meson rev_exhaust)
  then have "e \<notin> set l" using assms(1) by (simp add: lru_wf_def)
  then show ?thesis using l by (simp add: lru_abs_def removeElement_def)
qed

text \<open>The operations, one by one.\<close>

lemma lru_Get_refines:
  assumes "lru_inv maxSize ttl c"
  shows "lru_inv maxSize ttl (snd (lru_Get now k c)) \<and>
    spec_Get now k (lru_abs c) = (fst (lru_Get now k c), lru_abs (snd (lru_Get now k c)))"
proof (cases "map_get k (lru_items c)")
  case None
  have wf: "lru_wf c" using assms by (simp add: lru_inv_def)
  have "map_get k (lru_abs c) = None" using lru_abs_get[OF wf, of k] None by simp
  then show ?thesis using None assms by (simp add: lru_Get_def Get_lookup_def spec_Get_def)
next
  case (Some e)
  have wf: "lru_wf c" and d: "distinct (lru_eviction c)" using assms by (simp_all add: lru_inv_def lru_wf_def)
  have e: "e \<in> set (lru_eviction c)" "en_key (lru_elems c ! e) = k"
    using Some lru_wf_items[OF wf] by blast+
  have get: "map_get k (lru_abs c) = Some (en_card (lru_elems c ! e), en_expiresAt (lru_elems c ! e))"
    using lru_abs_get[OF wf, of k] Some by (simp add: entry_of_def)
  show ?thesis
  proof (cases "now > en_expiresAt (lru_elems c ! e)")
    case True
    show ?thesis
      using True Some get e(2) removeElement_abs[OF wf e(1)] removeElement_inv[OF assms e(1)]
      by (simp add: lru_Get_def Get_lookup_def Get_finish_def spec_Get_def)
  next
    case False
    have "lru_inv maxSize ttl (c\<lparr>lru_eviction := MoveToFront e (lru_eviction c)\<rparr>)"
      using assms MoveToFront_wf[OF wf e(1)] length_MoveToFront[OF d] by (simp add: lru_inv_def)
    moreover have "lru_abs (c\<lparr>lru_eviction := MoveToFront e (lru_eviction c)\<rparr>) =
        (k, en_card (lru_elems c ! e), en_expiresAt (lru_elems c ! e)) # map_del k (lru_abs c)"
      using MoveToFront_abs[OF wf e(1)] e(2) by (simp add: lru_abs_def entry_of_def)
    ultimately show ?thesis
      using False Some get by (simp add: lru_Get_def Get_lookup_def Get_finish_def spec_Get_def)
  qed
qed

lemma lru_Remove_refines:
  assumes "lru_inv maxSize ttl c"
  shows "lru_inv maxSize ttl (lru_Remove k c) \<and> map_del k (lru_abs c) = lru_abs (lru_Remove k c)"
proof (cases "map_get k (lru_items c)")
  case None
  have wf: "lru_wf c" using assms by (simp add: lru_inv_def)
  have "k \<notin> fst ` set (lru_abs c)" using lru_abs_get[OF wf, of k] None map_get_None by fastforce
  then have "map_del k (lru_abs c) = lru_abs c"
    by (auto simp: map_del_def t_delete_def filter_id_conv image_iff)
  then show ?thesis using None assms by (simp add: lru_Remove_def)
next
  case (Some e)
  have wf: "lru_wf c" using assms by (simp add: lru_inv_def)
  have e: "e \<in> set (lru_eviction c)" "en_key (lru_elems c ! e) = k"
    using Some lru_wf_items[OF wf] by blast+
  then show ?thesis
    using Some removeElement_inv[OF assms e(1)] removeElement_abs[OF wf e(1)] by (simp add: lru_Remove_def)
qed

lemma lru_update_wf:
  assumes "lru_wf c" "e < length (lru_elems c)"
  shows "lru_wf (c\<lparr>lru_elems := (lru_elems c)[e := (lru_elems c ! e)\<lparr>en_card := a, en_expiresAt := x\<rparr>]\<rparr>)"
proof -
  have key: "en_key ((lru_elems c)[e := (lru_elems c ! e)\<lparr>en_card := a, en_expiresAt := x\<rparr>] ! i) = en_key (lru_elems c ! i)"
    for i using assms(2) by (cases "i = e") auto
  show ?thesis using assms(1) by (simp add: lru_wf_def key)
qed

lemma lru_push_wf:
  assumes "lru_wf c" "map_get k (lru_items c) = None"
  shows "lru_wf (c\<lparr>lru_elems := lru_elems c @ [\<lparr>en_card = a, en_expiresAt = x, en_key = k\<rparr>],
      lru_eviction := length (lru_elems c) # lru_eviction c,
      lru_items := map_set k (length (lru_elems c)) (lru_items c)\<rparr>)"
proof -
  have old: "e < length (lru_elems c) \<and> en_key (lru_elems c ! e) \<noteq> k" if "e \<in> set (lru_eviction c)" for e
    using assms lru_wf_items[OF assms(1), of k e] that by (auto simp: lru_wf_def)
  then have "length (lru_elems c) \<notin> set (lru_eviction c)" by blast
  then show ?thesis
    using assms(1) old lru_wf_items[OF assms(1)]
    by (auto simp: lru_wf_def keys_distinct_map_ops nth_append less_SucI)
qed

lemma lru_push_abs:
  assumes "lru_wf c"
  shows "lru_abs (c\<lparr>lru_elems := lru_elems c @ [en], lru_eviction := length (lru_elems c) # lru_eviction c,
      lru_items := items\<rparr>) = (en_key en, en_card en, en_expiresAt en) # lru_abs c"
  using assms by (auto simp: lru_abs_def entry_of_def lru_wf_def nth_append)

lemma lru_evict_inv:
  assumes "lru_inv maxSize ttl c"
  shows "lru_inv maxSize ttl (lru_evictOldest c)" "lru_abs (lru_evictOldest c) = butlast (lru_abs c)"
proof -
  have wf: "lru_wf c" using assms by (simp add: lru_inv_def)
  show "lru_inv maxSize ttl (lru_evictOldest c)"
    using assms removeElement_inv[OF assms, of "last (lru_eviction c)"] by (simp add: lru_evictOldest_def)
  show "lru_abs (lru_evictOldest c) = butlast (lru_abs c)"
    using removeElement_last_abs[OF wf] by (simp add: lru_evictOldest_def lru_abs_def)
qed

lemma lru_evict_items:
  assumes "lru_wf c" "map_get k (lru_items c) = None"
  shows "map_get k (lru_items (lru_evictOldest c)) = None"
  using assms map_get_del[of "lru_items c" k]
  by (simp add: lru_evictOldest_def removeElement_def lru_wf_def)

lemma length_lru_evict:
  "lru_wf c \<Longrightarrow> length (lru_eviction (lru_evictOldest c)) = length (lru_eviction c) - 1"
  by (auto simp: lru_evictOldest_def removeElement_def lru_wf_def distinct_remove1_removeAll[symmetric] length_remove1)

lemma lru_Put_refines:
  assumes "lru_inv maxSize ttl c"
  shows "lru_inv maxSize ttl (lru_Put now k a c) \<and>
    spec_Put maxSize ttl now k a (lru_abs c) = lru_abs (lru_Put now k a c)"
proof (cases "map_get k (lru_items c)")
  case (Some e)
  have wf: "lru_wf c" and d: "distinct (lru_eviction c)" and t: "lru_ttl c = ttl"
    using assms by (simp_all add: lru_inv_def lru_wf_def)
  have e: "e \<in> set (lru_eviction c)" "en_key (lru_elems c ! e) = k"
    using Some lru_wf_items[OF wf] by blast+
  then have len: "e < length (lru_elems c)" using wf by (simp add: lru_wf_def)
  let ?els = "(lru_elems c)[e := (lru_elems c ! e)\<lparr>en_card := a, en_expiresAt := now + ttl\<rparr>]"
  let ?c = "c\<lparr>lru_eviction := MoveToFront e (lru_eviction c)\<rparr>"
  have mem: "k \<in> fst ` set (lru_abs c)" using e by (force simp: lru_abs_def)
  have "lru_wf (?c\<lparr>lru_elems := ?els\<rparr>)"
    using lru_update_wf[OF MoveToFront_wf[OF wf e(1)]] len by simp
  then have "lru_inv maxSize ttl (?c\<lparr>lru_elems := ?els\<rparr>)"
    using assms length_MoveToFront[OF d] by (simp add: lru_inv_def)
  moreover have "map (entry_of ?els) (MoveToFront e (lru_eviction c)) = (k, a, now + ttl) # map_del k (lru_abs c)"
    using e len map_del_abs[OF wf e(1)] by (simp add: MoveToFront_def entry_of_def)
  ultimately show ?thesis using Some mem t by (simp add: lru_Put_def spec_Put_def lru_abs_def[of "_\<lparr>lru_elems := _\<rparr>"])
next
  case None
  have wf: "lru_wf c" and t: "lru_ttl c = ttl" "lru_maxSize c = maxSize"
    using assms by (simp_all add: lru_inv_def)
  define c' where "c' = (if int (length (lru_eviction c)) \<ge> maxSize then lru_evictOldest c else c)"
  have inv: "lru_inv maxSize ttl c'" using assms lru_evict_inv(1)[OF assms] by (simp add: c'_def)
  then have wf': "lru_wf c'" and t': "lru_ttl c' = ttl" by (simp_all add: lru_inv_def)
  have none: "map_get k (lru_items c') = None" using None lru_evict_items[OF wf None] by (simp add: c'_def)
  have put: "lru_Put now k a c =
      c'\<lparr>lru_elems := lru_elems c' @ [\<lparr>en_card = a, en_expiresAt = now + ttl, en_key = k\<rparr>],
        lru_eviction := length (lru_elems c') # lru_eviction c',
        lru_items := map_set k (length (lru_elems c')) (lru_items c')\<rparr>"
    unfolding lru_Put_def None option.case t c'_def[symmetric] Let_def t' ..
  have "int (length (lru_eviction c')) + 1 \<le> max 1 maxSize"
    using assms length_lru_evict[OF wf] by (auto simp: lru_inv_def c'_def)
  then have "lru_inv maxSize ttl (lru_Put now k a c)"
    using inv lru_push_wf[OF wf' none, of a "now + ttl"] by (simp add: put lru_inv_def)
  moreover have "lru_abs (lru_Put now k a c) = (k, a, now + ttl) # lru_abs c'"
    unfolding put by (simp add: lru_push_abs[OF wf'])
  moreover have "k \<notin> fst ` set (lru_abs c)" using lru_abs_get[OF wf, of k] None map_get_None by fastforce
  moreover have "length (lru_abs c) = length (lru_eviction c)" by (simp add: lru_abs_def)
  ultimately show ?thesis using lru_evict_inv(2)[OF assms] by (simp add: spec_Put_def c'_def)
qed

interpretation lru: refines lru_step "spec_step maxSize ttl" lru_abs "lru_inv maxSize ttl" for maxSize ttl
proof unfold_locales
  fix c :: "'a LRUCache" and op :: "'a cache_op"
  assume inv: "lru_inv maxSize ttl c"
  have clear: "lru_inv maxSize ttl (lru_Clear c) \<and> lru_abs (lru_Clear c) = []"
    using inv by (simp add: lru_inv_def lru_wf_def lru_Clear_def lru_abs_def keys_distinct_def map_get_def)
  note ops = lru_Get_refines[OF inv] lru_Put_refines[OF inv] lru_Remove_refines[OF inv]
  show "lru_inv maxSize ttl (snd (lru_step op c))"
    using clear ops by (cases op) simp_all
  show "spec_step maxSize ttl op (lru_abs c) = (fst (lru_step op c), lru_abs (snd (lru_step op c)))"
    using clear ops by (cases op) simp_all
qed

lemma NewLRUCache_inv: "lru_inv maxSize (ttlSeconds * 1000000000) (NewLRUCache maxSize ttlSeconds)"
  by (simp add: NewLRUCache_def lru_inv_def lru_wf_def keys_distinct_def map_get_def)

lemma NewLRUCache_abs [simp]: "lru_abs (NewLRUCache maxSize ttlSeconds) = []"
  by (simp add: NewLRUCache_def lru_abs_def)

lemma lru_Len_abs:
  assumes "lru_wf c"
  shows "lru_Len c = length (lru_abs c)"
proof -
  have d: "keys_distinct fst (lru_items c)" using assms by (simp add: lru_wf_def)
  have "fst ` set (lru_items c) = fst ` set (lru_abs c)"
  proof (rule set_eqI)
    fix k
    show "k \<in> fst ` set (lru_items c) \<longleftrightarrow> k \<in> fst ` set (lru_abs c)"
      using lru_abs_get[OF assms, of k] map_get_None[of k "lru_items c"] map_get_None[of k "lru_abs c"] by auto
  qed
  then have "card (set (map fst (lru_items c))) = card (set (map fst (lru_abs c)))" by simp
  then show ?thesis
    using d lru_abs_keys[OF assms] unfolding lru_Len_def keys_distinct_def by (metis distinct_card length_map)
qed

text \<open>C12: the cache of Agent Cards is a bounded recency list. Whatever sequence of \<open>Get\<close>, \<open>Put\<close>,
  \<open>Remove\<close> and \<open>Clear\<close> is run on a new cache, every call returns what the specification returns,
  the list with its elements, read from the front, is the specification's list of entries by last use,
  and \<open>Len\<close> is its length and never exceeds \<open>maxSize\<close> (or one, if \<open>maxSize\<close> is not positive).\<close>

theorem lru_refines_recency:
  "case run_ops lru_step ops (NewLRUCache maxSize ttlSeconds) of (results, final) \<Rightarrow>
     run_ops (spec_step maxSize (ttlSeconds * 1000000000)) ops [] = (results, lru_abs final) \<and>
     lru_Len final = length (lru_abs final) \<and> int (lru_Len final) \<le> max 1 maxSize"
proof -
  define final where "final = snd (run_ops lru_step ops (NewLRUCache maxSize ttlSeconds))"
  have r: "lru_inv maxSize (ttlSeconds * 1000000000) final"
    "run_ops (spec_step maxSize (ttlSeconds * 1000000000)) ops [] =
      (fst (run_ops lru_step ops (NewLRUCache maxSize ttlSeconds)), lru_abs final)"
    using lru.run_refines[OF NewLRUCache_inv[of maxSize ttlSeconds], of ops] by (simp_all add: final_def)
  then have "lru_Len final = length (lru_abs final)" using lru_Len_abs by (auto simp: lru_inv_def)
  moreover have "length (lru_abs final) = length (lru_eviction final)" by (simp add: lru_abs_def)
  ultimately show ?thesis using r by (simp add: lru_inv_def split_beta final_def[symmetric])
qed

section \<open>What the cache retains\<close>

text \<open>Operations that leave an entry of key \<open>k\<close> alone: none of them stores, removes or clears it,
  and it is not read after its expiry. The other keys they use compete with it.\<close>

fun spares :: "string \<Rightarrow> int \<Rightarrow> 'c cache_op \<Rightarrow> bool" where
  "spares k expiry (Op_Get now k') = (k' \<noteq> k \<or> now \<le> expiry)"
| "spares k expiry (Op_Put now k' a) = (k' \<noteq> k)"
| "spares k expiry (Op_Remove k') = (k' \<noteq> k)"
| "spares k expiry Op_Clear = False"

fun op_keys :: "'c cache_op \<Rightarrow> string set" where
  "op_keys (Op_Get now k') = {k'}"
| "op_keys (Op_Put now k' a) = {k'}"
| "op_keys _ = {}"

text \<open>The entry is in the list, behind entries whose keys are in \<open>K\<close> only.\<close>

definition behind :: "string \<Rightarrow> 'c \<times> int \<Rightarrow> string set \<Rightarrow> 'c recency \<Rightarrow> bool" where
  "behind k v K xs = (keys_distinct fst xs \<and> (\<exists>us vs. xs = us @ (k, v) # vs \<and> fst ` set us \<subseteq> K))"

lemma map_del_append [simp]: "map_del k (xs @ ys) = map_del k xs @ map_del k ys"
  by (simp add: map_del_def t_delete_def)

lemma map_del_Cons [simp]: "map_del k (kv # ys) = (if fst kv = k then map_del k ys else kv # map_del k ys)"
  by (simp add: map_del_def t_delete_def)

lemma map_del_Nil [simp]: "map_del k [] = []"
  by (simp add: map_del_def t_delete_def)

lemma behind_del:
  assumes "behind k v K xs" "k' \<noteq> k"
  shows "behind k v K (map_del k' xs)"
proof -
  obtain us vs where xs: "xs = us @ (k, v) # vs" "fst ` set us \<subseteq> K" and d: "keys_distinct fst xs"
    using assms(1) by (auto simp: behind_def)
  have "map_del k' xs = map_del k' us @ (k, v) # map_del k' vs" using xs(1) assms(2) by simp
  moreover have "fst ` set (map_del k' us) \<subseteq> K" using xs(2) set_map_del[of k' us] by blast
  ultimately show ?thesis unfolding behind_def using keys_distinct_map_ops(2)[OF d] by blast
qed

lemma map_del_notin: "k' \<notin> fst ` set (map_del k' xs)"
  by (auto simp: map_del_def)

lemma behind_push:
  assumes "behind k v K xs" "k' \<notin> fst ` set xs" "k' \<in> K"
  shows "behind k v K ((k', w) # xs)"
proof -
  obtain us vs where "xs = us @ (k, v) # vs" "fst ` set us \<subseteq> K" using assms(1) by (auto simp: behind_def)
  then have "(k', w) # xs = ((k', w) # us) @ (k, v) # vs" "fst ` set ((k', w) # us) \<subseteq> K"
    using assms(3) by auto
  moreover have "keys_distinct fst ((k', w) # xs)"
    using assms by (simp add: behind_def keys_distinct_def)
  ultimately show ?thesis unfolding behind_def by blast
qed

lemma behind_front: "keys_distinct fst ((k, v) # xs) \<Longrightarrow> behind k v K ((k, v) # xs)"
  unfolding behind_def by (intro conjI exI[of _ "[]"] exI[of _ xs]) auto

lemma behind_get: "behind k v K xs \<Longrightarrow> map_get k xs = Some v"
  unfolding behind_def by (auto intro: map_get_unique)

lemma behind_butlast:
  assumes b: "behind k v K xs" and "k' \<notin> fst ` set xs" "k' \<in> K" "k' \<noteq> k" "finite K" "int (card K) < maxSize"
    "maxSize \<le> int (length xs)"
  shows "behind k v K (butlast xs)"
proof -
  obtain us vs where xs: "xs = us @ (k, v) # vs" "fst ` set us \<subseteq> K" and d: "keys_distinct fst xs"
    using b by (auto simp: behind_def)
  have "card (insert k' (fst ` set us)) = Suc (length us)"
    using d assms(2) distinct_card[of "map fst us"] unfolding xs(1) keys_distinct_def
    by (simp add: image_Un)
  moreover have "card (insert k' (fst ` set us)) \<le> card K"
    using xs(2) assms(3,5) by (intro card_mono) auto
  ultimately have "vs \<noteq> []" using assms(6,7) xs(1) by auto
  then have "butlast xs = us @ (k, v) # butlast vs" using xs(1) by (simp add: butlast_append)
  moreover have "keys_distinct fst (butlast xs)"
    using d unfolding keys_distinct_def by (metis distinct_butlast map_butlast)
  ultimately show ?thesis using xs(2) unfolding behind_def by blast
qed

lemma behind_step:
  assumes b: "behind k (a, expiry) K xs" and s: "spares k expiry op" and K: "op_keys op - {k} \<subseteq> K"
    and fin: "finite K" "int (card K) < maxSize"
  shows "behind k (a, expiry) K (snd (spec_step maxSize ttl op xs))"
proof (cases op)
  case (Op_Get now k')
  have front: "behind k (a, expiry) K ((k', w) # map_del k' xs)" if "k' \<noteq> k" for w
    using behind_push[OF behind_del[OF b that] map_del_notin] K Op_Get that by simp
  have self: "behind k (a, expiry) K ((k, a, expiry) # map_del k xs)"
    using b keys_distinct_map_ops(2)[of xs k] map_del_notin[of k xs]
    by (intro behind_front) (auto simp: behind_def keys_distinct_def)
  show ?thesis
    using front self b behind_del[OF b, of k'] s Op_Get behind_get[OF b]
    by (cases "k' = k") (auto simp: spec_Get_def split: option.splits)
next
  case (Op_Put now k' a')
  then have k': "k' \<noteq> k" "k' \<in> K" using s K by auto
  show ?thesis
  proof (cases "k' \<in> fst ` set xs")
    case True
    then show ?thesis
      using behind_push[OF behind_del[OF b k'(1)] map_del_notin k'(2)] Op_Put by (simp add: spec_Put_def)
  next
    case False
    have "behind k (a, expiry) K (if int (length xs) \<ge> maxSize then butlast xs else xs)"
      using b behind_butlast[OF b False k'(2,1) fin] by simp
    moreover have "k' \<notin> fst ` set (if int (length xs) \<ge> maxSize then butlast xs else xs)"
      using False by (auto dest: in_set_butlastD)
    ultimately have "behind k (a, expiry) K ((k', a', now + ttl) # (if int (length xs) \<ge> maxSize then butlast xs else xs))"
      using behind_push k'(2) by fast
    then show ?thesis using False Op_Put by (simp add: spec_Put_def)
  qed
next
  case (Op_Remove k')
  then show ?thesis using b s behind_del by simp
next
  case Op_Clear
  then show ?thesis using s by simp
qed

definition competitors :: "string \<Rightarrow> 'c cache_op list \<Rightarrow> string set" where
  "competitors k ops = \<Union>(op_keys ` set ops) - {k}"

lemma behind_run:
  assumes "finite K" "int (card K) < maxSize"
  shows "behind k (a, expiry) K xs \<Longrightarrow> list_all (spares k expiry) ops \<Longrightarrow> competitors k ops \<subseteq> K \<Longrightarrow>
    behind k (a, expiry) K (snd (run_ops (spec_step maxSize ttl) ops xs))"
proof (induction ops arbitrary: xs)
  case (Cons op ops)
  have "behind k (a, expiry) K (snd (spec_step maxSize ttl op xs))"
    using behind_step[OF Cons.prems(1) _ _ assms, of op] Cons.prems(2,3) by (auto simp: competitors_def)
  then show ?case using Cons.IH Cons.prems(2,3) by (auto simp: split_beta competitors_def)
qed simp

text \<open>The cache keeps what is in use. After a card has been stored under \<open>k\<close> (in any state the
  cache can reach), it is what \<open>Get\<close> returns until its time to live is over, however many operations
  run in between, as long as they do not replace, remove or clear it and use fewer than
  \<open>maxSize\<close> other keys.\<close>

theorem lru_retains:
  assumes "c = snd (run_ops lru_step before (NewLRUCache maxSize ttlSeconds))"
    and "list_all (spares k (t + ttlSeconds * 1000000000)) ops"
    and "int (card (competitors k ops)) < maxSize"
    and "now \<le> t + ttlSeconds * 1000000000"
  shows "fst (lru_Get now k (snd (run_ops lru_step ops (lru_Put t k acard c)))) = Some acard"
proof -
  let ?ttl = "ttlSeconds * 1000000000"
  have c: "lru_inv maxSize ?ttl c"
    using lru.run_refines[OF NewLRUCache_inv] assms(1) by blast
  have put: "lru_inv maxSize ?ttl (lru_Put t k acard c)"
    "lru_abs (lru_Put t k acard c) = spec_Put maxSize ?ttl t k acard (lru_abs c)"
    using lru_Put_refines[OF c] by simp_all
  let ?c = "snd (run_ops lru_step ops (lru_Put t k acard c))"
  have run: "lru_inv maxSize ?ttl ?c"
    "lru_abs ?c = snd (run_ops (spec_step maxSize ?ttl) ops (lru_abs (lru_Put t k acard c)))"
    using lru.run_refines[OF put(1), of ops] by simp_all
  have "keys_distinct fst (lru_abs (lru_Put t k acard c))" using put(1) lru_abs_keys by (auto simp: lru_inv_def)
  then have b: "behind k (acard, t + ?ttl) (competitors k ops) (lru_abs (lru_Put t k acard c))"
    unfolding put(2) spec_Put_def Let_def by (rule behind_front)
  have "finite (op_keys op)" for op :: "'a cache_op" by (cases op) simp_all
  then have "finite (competitors k ops)" by (simp add: competitors_def)
  then have "behind k (acard, t + ?ttl) (competitors k ops) (lru_abs ?c)"
    unfolding run(2) using behind_run[OF _ assms(3) b assms(2)] by simp
  then have "map_get k (lru_abs ?c) = Some (acard, t + ?ttl)" by (rule behind_get)
  then show ?thesis using lru_Get_refines[OF run(1), of now k] assms(4) by (simp add: spec_Get_def)
qed

theorem lru_retains_witness:
  "fst (lru_Get 9 ''a'' (snd (run_ops lru_step [Op_Put 2 ''b'' (2 :: int), Op_Get 3 ''a'', Op_Put 4 ''c'' 3, Op_Remove ''b'']
     (lru_Put 1 ''a'' 1 (NewLRUCache 3 60))))) = Some 1"
proof -
  have "competitors ''a'' [Op_Put 2 ''b'' (2 :: int), Op_Get 3 ''a'', Op_Put 4 ''c'' 3, Op_Remove ''b''] = {''b'', ''c''}"
    by (auto simp: competitors_def)
  then show ?thesis
    using lru_retains[of "NewLRUCache 3 60" "[]" 3 60 "''a''" 1
        "[Op_Put 2 ''b'' (2 :: int), Op_Get 3 ''a'', Op_Put 4 ''c'' 3, Op_Remove ''b'']" 9 1]
    by simp
qed

section \<open>Interleavings\<close>

text \<open>A \<open>Get\<close> is not atomic: it looks the element up under the read lock, tests its expiry without
  a lock and then takes the lock to remove it or to move it. A state of the concurrent cache is the
  cache and the elements that the \<open>Get\<close>s in progress hold; \<open>Put\<close> and \<open>Remove\<close> are atomic. The
  decision of a \<open>Get\<close> on the expiry is a step of its own.\<close>

datatype get_state = Found nat | Expired nat | Fresh nat

inductive cache_race :: "'c LRUCache \<times> get_state list \<Rightarrow> 'c LRUCache \<times> get_state list \<Rightarrow> bool" where
  race_lookup: "Get_lookup k c = Some e \<Longrightarrow> cache_race (c, gs) (c, gs @ [Found e])"
| race_expired: "now > en_expiresAt (lru_elems c ! e) \<Longrightarrow> cache_race (c, us @ Found e # vs) (c, us @ Expired e # vs)"
| race_fresh: "\<not> now > en_expiresAt (lru_elems c ! e) \<Longrightarrow> cache_race (c, us @ Found e # vs) (c, us @ Fresh e # vs)"
| race_remove: "cache_race (c, us @ Expired e # vs) (removeElement e c, us @ vs)"
| race_move: "cache_race (c, us @ Fresh e # vs) (c\<lparr>lru_eviction := MoveToFront e (lru_eviction c)\<rparr>, us @ vs)"
| race_put: "cache_race (c, gs) (lru_Put now k acard c, gs)"
| race_delete: "cache_race (c, gs) (lru_Remove k c, gs)"

text \<open>Two overlapping \<open>Get\<close>s of an expired card can lose a fresh one. Both hold the old
  element when the first removes it; a \<open>Put\<close> then stores a new card, and the second \<open>Get\<close>, which
  removes its element by key, deletes the new entry from the map. The new element stays in the list:
  the card cannot be found, and the list counts an entry that \<open>Len\<close> does not.\<close>

theorem lru_get_race_loses_card:
  "\<exists>c. cache_race\<^sup>*\<^sup>* (NewLRUCache 2 60 :: int LRUCache, []) (c, []) \<and>
     (\<exists>d. cache_race\<^sup>*\<^sup>* (NewLRUCache 2 60, []) (d, [Expired 0]) \<and>
        fst (lru_Get 100000000001 ''a'' d) = Some 2 \<and> c = removeElement 0 d) \<and>
     fst (lru_Get 100000000001 ''a'' c) = None \<and> lru_Len c = 0 \<and> lru_eviction c = [1]"
proof -
  define c1 where "c1 = lru_Put 0 ''a'' (1 :: int) (NewLRUCache 2 60)"
  define c2 where "c2 = removeElement 0 c1"
  define c3 where "c3 = lru_Put 100000000000 ''a'' 2 c2"
  note defs = c1_def c2_def c3_def NewLRUCache_def lru_Put_def removeElement_def map_get_def map_set_def
    t_upsert_def map_del_def t_delete_def
  have look: "Get_lookup ''a'' c1 = Some 0" by (simp add: Get_lookup_def defs)
  have exp: "(90000000000 :: int) > en_expiresAt (lru_elems c1 ! 0)" by (simp add: defs)
  have "cache_race (NewLRUCache 2 60, []) (c1, [])" unfolding c1_def by (rule race_put)
  moreover have "cache_race (c1, []) (c1, [Found 0])" "cache_race (c1, [Found 0]) (c1, [Found 0, Found 0])"
    using race_lookup[OF look, of "[]"] race_lookup[OF look, of "[Found 0]"] by simp_all
  moreover have "cache_race (c1, [Found 0, Found 0]) (c1, [Expired 0, Found 0])"
    "cache_race (c1, [Expired 0, Found 0]) (c1, [Expired 0, Expired 0])"
    using race_expired[of c1 0 _ "[]" "[Found 0]", OF exp] race_expired[of c1 0 _ "[Expired 0]" "[]", OF exp] by simp_all
  moreover have "cache_race (c1, [Expired 0, Expired 0]) (c2, [Expired 0])"
    unfolding c2_def using race_remove[of c1 "[]" 0 "[Expired 0]"] by simp
  moreover have "cache_race (c2, [Expired 0]) (c3, [Expired 0])" unfolding c3_def by (rule race_put)
  ultimately have d: "cache_race\<^sup>*\<^sup>* (NewLRUCache 2 60, []) (c3, [Expired 0])"
    by (meson converse_rtranclp_into_rtranclp rtranclp.rtrancl_refl)
  moreover have "cache_race (c3, [Expired 0]) (removeElement 0 c3, [])"
    using race_remove[of c3 "[]" 0 "[]"] by simp
  ultimately have "cache_race\<^sup>*\<^sup>* (NewLRUCache 2 60, []) (removeElement 0 c3, [])" by (rule rtranclp.rtrancl_into_rtrancl)
  moreover have "fst (lru_Get 100000000001 ''a'' c3) = Some 2"
    by (simp add: lru_Get_def Get_lookup_def Get_finish_def defs)
  moreover have "fst (lru_Get 100000000001 ''a'' (removeElement 0 c3)) = None \<and> lru_Len (removeElement 0 c3) = 0 \<and>
      lru_eviction (removeElement 0 c3) = [1]"
    by (simp add: lru_Get_def Get_lookup_def Get_finish_def lru_Len_def defs)
  ultimately show ?thesis using d by blast
qed

end
