(* ===== verification/Redis.thy ===== *)
theory Redis
  imports Store
begin

text \<open>
  The optional Redis layer (\<open>src/internal/cache/redis.go\<close>): namespaced keys for Agent Cards, search
  responses, Bloom filters, peer heartbeats and rate-limit counters.

  The server and \<open>go-redis\<close> are not code of the repository. They are the parameter \<open>S\<close>, a command per
  field over an unknown state, where \<open>Inl\<close> is an error of the client. \<open>redis_ok\<close> states the documented
  behaviour of the commands over a view of the state: what \<open>GET\<close> would find under a key at a time, if no command
  came in between. A command that reports an error may or may not have been executed. Times and lifetimes are
  nanoseconds, and \<open>J\<close> is \<open>encoding/json\<close> on the cached type.
\<close>

section \<open>The server\<close>

record 's redis_server =
  rs_get :: "int \<Rightarrow> string \<Rightarrow> 's \<Rightarrow> (unit + byte list option) \<times> 's"
  rs_set :: "int \<Rightarrow> string \<Rightarrow> byte list \<Rightarrow> int \<Rightarrow> 's \<Rightarrow> (unit + unit) \<times> 's"
  rs_del :: "int \<Rightarrow> string \<Rightarrow> 's \<Rightarrow> (unit + unit) \<times> 's"
  rs_incr :: "int \<Rightarrow> string \<Rightarrow> 's \<Rightarrow> (unit + int) \<times> 's"
  rs_expire :: "int \<Rightarrow> string \<Rightarrow> int \<Rightarrow> 's \<Rightarrow> (unit + unit) \<times> 's"
  rs_ping :: "'s \<Rightarrow> unit + unit"
  rs_info :: "'s \<Rightarrow> unit + string"

type_synonym redis_view = "int \<Rightarrow> string \<Rightarrow> byte list option"

definition view_set :: "string \<Rightarrow> byte list \<Rightarrow> int \<Rightarrow> int \<Rightarrow> redis_view \<Rightarrow> redis_view" where
  "view_set k v now ttl m = (\<lambda>t. (m t)(k := if 0 < ttl \<and> now + ttl \<le> t then None else Some v))"

definition view_del :: "string \<Rightarrow> redis_view \<Rightarrow> redis_view" where
  "view_del k m = (\<lambda>t. (m t)(k := None))"

definition view_put :: "string \<Rightarrow> byte list \<Rightarrow> int \<Rightarrow> redis_view \<Rightarrow> redis_view" where
  "view_put k v now m = (\<lambda>t. (m t)(k := if m now k \<noteq> None \<and> m t k = None then None else Some v))"

definition view_expire :: "string \<Rightarrow> int \<Rightarrow> int \<Rightarrow> redis_view \<Rightarrow> redis_view" where
  "view_expire k now ttl m = (\<lambda>t. (m t)(k := if now + ttl \<le> t then None else m now k))"

text \<open>\<open>agree\<close>: the views are the same from a time on; \<open>effect\<close>: a command had its effect, or it reported an
  error and had none.\<close>

definition agree :: "int \<Rightarrow> redis_view \<Rightarrow> redis_view \<Rightarrow> bool" where
  "agree now m m' = (\<forall>t\<ge>now. m t = m' t)"

definition effect :: "(unit + 'r) \<Rightarrow> int \<Rightarrow> redis_view \<Rightarrow> redis_view \<Rightarrow> redis_view \<Rightarrow> bool" where
  "effect r now m changed m' = (agree now m' changed \<or> r = Inl () \<and> agree now m' m)"

text \<open>\<open>num\<close> is the text of a counter. \<open>INCR\<close> keeps the lifetime of a counter that exists and starts one
  without a lifetime otherwise.\<close>

definition redis_ok :: "'s redis_server \<Rightarrow> ('s \<Rightarrow> redis_view) \<Rightarrow> (nat \<Rightarrow> byte list) \<Rightarrow> bool" where
  "redis_ok S view num =
    ((\<forall>now k s. fst (rs_get S now k s) \<in> {Inl (), Inr (view s now k)} \<and> agree now (view (snd (rs_get S now k s))) (view s)) \<and>
     (\<forall>now k v ttl s. effect (fst (rs_set S now k v ttl s)) now (view s) (view_set k v now ttl (view s)) (view (snd (rs_set S now k v ttl s)))) \<and>
     (\<forall>now k s. effect (fst (rs_del S now k s)) now (view s) (view_del k (view s)) (view (snd (rs_del S now k s)))) \<and>
     (\<forall>now k s n. (view s now k = None \<and> n = 0 \<or> view s now k = Some (num n)) \<longrightarrow>
        fst (rs_incr S now k s) \<in> {Inl (), Inr (int n + 1)} \<and>
        effect (fst (rs_incr S now k s)) now (view s) (view_put k (num (Suc n)) now (view s)) (view (snd (rs_incr S now k s)))) \<and>
     (\<forall>now k s k' t. k' \<noteq> k \<longrightarrow> now \<le> t \<longrightarrow> view (snd (rs_incr S now k s)) t k' = view s t k') \<and>
     (\<forall>now k ttl s. effect (fst (rs_expire S now k ttl s)) now (view s) (view_expire k now ttl (view s)) (view (snd (rs_expire S now k ttl s)))))"

text \<open>\<open>redis_up\<close>: the server is reachable, so no command on a key of the right type reports an error.\<close>

definition redis_up :: "'s redis_server \<Rightarrow> ('s \<Rightarrow> redis_view) \<Rightarrow> (nat \<Rightarrow> byte list) \<Rightarrow> bool" where
  "redis_up S view num =
    ((\<forall>now k s. fst (rs_get S now k s) \<noteq> Inl ()) \<and> (\<forall>now k v ttl s. fst (rs_set S now k v ttl s) \<noteq> Inl ()) \<and>
     (\<forall>now k s. fst (rs_del S now k s) \<noteq> Inl ()) \<and> (\<forall>now k ttl s. fst (rs_expire S now k ttl s) \<noteq> Inl ()) \<and>
     (\<forall>now k s n. (view s now k = None \<or> view s now k = Some (num n)) \<longrightarrow> fst (rs_incr S now k s) \<noteq> Inl ()))"

section \<open>The cache\<close>

record 'a json_codec =
  jc_marshal :: "'a \<Rightarrow> byte list option"
  jc_unmarshal :: "byte list \<Rightarrow> 'a option"

record RedisConfig =
  rd_URL :: string
  rd_Password :: string
  rd_DB :: int
  rd_Prefix :: string

record redis_options =
  ro_Addr :: string
  ro_Password :: string
  ro_DB :: int
  ro_PoolSize :: int
  ro_MinIdleConns :: int
  ro_ConnMaxIdleTime :: int
  ro_DialTimeout :: int
  ro_ReadTimeout :: int
  ro_WriteTimeout :: int

record RedisCache =
  rc_prefix :: string

datatype redis_error = E_redis_url | E_redis_connect | E_redis_get | E_redis_set | E_redis_marshal | E_redis_rate

abbreviation seconds :: "int \<Rightarrow> int" where "seconds n \<equiv> n * 1000000000"

text \<open>\<open>ParseURL\<close> is \<open>redis.ParseURL\<close> and \<open>dial_ping\<close> tells whether a client with these options reaches a
  server. No cache and no error means that Redis is not configured.\<close>

definition NewRedisCache ::
  "(string \<Rightarrow> redis_options option) \<Rightarrow> (redis_options \<Rightarrow> bool) \<Rightarrow> RedisConfig \<Rightarrow> redis_error + (redis_options \<times> RedisCache) option" where
  "NewRedisCache ParseURL dial_ping cfg =
     (if rd_URL cfg = '''' then Inr None
      else case ParseURL (rd_URL cfg) of
             None \<Rightarrow> Inl E_redis_url
           | Some opts \<Rightarrow>
               let opts = (if rd_Password cfg \<noteq> '''' then opts\<lparr>ro_Password := rd_Password cfg\<rparr> else opts);
                   opts = (if rd_DB cfg \<noteq> 0 then opts\<lparr>ro_DB := rd_DB cfg\<rparr> else opts);
                   opts = opts\<lparr>ro_PoolSize := 20, ro_MinIdleConns := 3, ro_ConnMaxIdleTime := seconds 300,
                     ro_DialTimeout := seconds 5, ro_ReadTimeout := seconds 3, ro_WriteTimeout := seconds 3\<rparr>
               in if \<not> dial_ping opts then Inl E_redis_connect
                  else Inr (Some (opts, \<lparr>rc_prefix = (if rd_Prefix cfg = '''' then ''zns:'' else rd_Prefix cfg)\<rparr>)))"

definition card_key :: "RedisCache \<Rightarrow> string \<Rightarrow> string" where "card_key rc agentID = rc_prefix rc @ ''card:'' @ agentID"
definition search_key :: "RedisCache \<Rightarrow> string \<Rightarrow> string" where "search_key rc queryHash = rc_prefix rc @ ''search:'' @ queryHash"
definition bloom_key :: "RedisCache \<Rightarrow> string \<Rightarrow> string" where "bloom_key rc registryID = rc_prefix rc @ ''bloom:'' @ registryID"
definition rate_key :: "RedisCache \<Rightarrow> string \<Rightarrow> string \<Rightarrow> string" where "rate_key rc bucket ip = rc_prefix rc @ ''rate:'' @ bucket @ '':'' @ ip"
definition peer_key :: "RedisCache \<Rightarrow> string \<Rightarrow> string" where "peer_key rc registryID = rc_prefix rc @ ''peer:'' @ registryID"

text \<open>Cards and search responses are read and written alike: \<open>get_json\<close> deletes an entry that does not parse.\<close>

definition get_json :: "'a json_codec \<Rightarrow> 's redis_server \<Rightarrow> int \<Rightarrow> string \<Rightarrow> 's \<Rightarrow> (redis_error + 'a option) \<times> 's" where
  "get_json J S now key s =
     (case rs_get S now key s of
        (Inl _, s) \<Rightarrow> (Inl E_redis_get, s)
      | (Inr None, s) \<Rightarrow> (Inr None, s)
      | (Inr (Some data), s) \<Rightarrow>
          (case jc_unmarshal J data of
             None \<Rightarrow> (Inr None, snd (rs_del S now key s))
           | Some v \<Rightarrow> (Inr (Some v), s)))"

definition set_bytes :: "'s redis_server \<Rightarrow> int \<Rightarrow> string \<Rightarrow> byte list \<Rightarrow> int \<Rightarrow> 's \<Rightarrow> (redis_error + unit) \<times> 's" where
  "set_bytes S now key data ttl s =
     (case rs_set S now key data ttl s of (Inl _, s) \<Rightarrow> (Inl E_redis_set, s) | (Inr _, s) \<Rightarrow> (Inr (), s))"

definition set_json :: "'a json_codec \<Rightarrow> 's redis_server \<Rightarrow> int \<Rightarrow> string \<Rightarrow> 'a \<Rightarrow> int \<Rightarrow> 's \<Rightarrow> (redis_error + unit) \<times> 's" where
  "set_json J S now key v ttl s =
     (case jc_marshal J v of None \<Rightarrow> (Inl E_redis_marshal, s) | Some data \<Rightarrow> set_bytes S now key data ttl s)"

definition GetAgentCard :: "'a json_codec \<Rightarrow> 's redis_server \<Rightarrow> int \<Rightarrow> RedisCache \<Rightarrow> string \<Rightarrow> 's \<Rightarrow> (redis_error + 'a option) \<times> 's" where
  "GetAgentCard J S now rc agentID s = get_json J S now (card_key rc agentID) s"

definition SetAgentCard :: "'a json_codec \<Rightarrow> 's redis_server \<Rightarrow> int \<Rightarrow> RedisCache \<Rightarrow> string \<Rightarrow> 'a \<Rightarrow> int \<Rightarrow> 's \<Rightarrow> (redis_error + unit) \<times> 's" where
  "SetAgentCard J S now rc agentID v ttl s = set_json J S now (card_key rc agentID) v ttl s"

definition DeleteAgentCard :: "'s redis_server \<Rightarrow> int \<Rightarrow> RedisCache \<Rightarrow> string \<Rightarrow> 's \<Rightarrow> (redis_error + unit) \<times> 's" where
  "DeleteAgentCard S now rc agentID s =
     (case rs_del S now (card_key rc agentID) s of (Inl _, s) \<Rightarrow> (Inl E_redis_set, s) | (Inr _, s) \<Rightarrow> (Inr (), s))"

definition GetSearchResult :: "'a json_codec \<Rightarrow> 's redis_server \<Rightarrow> int \<Rightarrow> RedisCache \<Rightarrow> string \<Rightarrow> 's \<Rightarrow> (redis_error + 'a option) \<times> 's" where
  "GetSearchResult J S now rc queryHash s = get_json J S now (search_key rc queryHash) s"

definition SetSearchResult :: "'a json_codec \<Rightarrow> 's redis_server \<Rightarrow> int \<Rightarrow> RedisCache \<Rightarrow> string \<Rightarrow> 'a \<Rightarrow> int \<Rightarrow> 's \<Rightarrow> (redis_error + unit) \<times> 's" where
  "SetSearchResult J S now rc queryHash v ttl s = set_json J S now (search_key rc queryHash) v ttl s"

definition GetBloomFilter :: "'s redis_server \<Rightarrow> int \<Rightarrow> RedisCache \<Rightarrow> string \<Rightarrow> 's \<Rightarrow> (redis_error + byte list option) \<times> 's" where
  "GetBloomFilter S now rc registryID s =
     (case rs_get S now (bloom_key rc registryID) s of
        (Inl _, s) \<Rightarrow> (Inl E_redis_get, s) | (Inr data, s) \<Rightarrow> (Inr data, s))"

definition SetBloomFilter :: "'s redis_server \<Rightarrow> int \<Rightarrow> RedisCache \<Rightarrow> string \<Rightarrow> byte list \<Rightarrow> int \<Rightarrow> 's \<Rightarrow> (redis_error + unit) \<times> 's" where
  "SetBloomFilter S now rc registryID data ttl s = set_bytes S now (bloom_key rc registryID) data ttl s"

text \<open>The pipeline sends \<open>INCR\<close> and \<open>EXPIRE\<close>; its error is the first error of the two. The boolean is
  returned beside the error.\<close>

definition redis_RateLimit :: "'s redis_server \<Rightarrow> int \<Rightarrow> RedisCache \<Rightarrow> string \<Rightarrow> string \<Rightarrow> int \<Rightarrow> 's \<Rightarrow> (bool \<times> redis_error option) \<times> 's" where
  "redis_RateLimit S now rc bucket ip maxPerMinute s =
     (let key = rate_key rc bucket ip;
          (n, s) = rs_incr S now key s;
          (e, s) = rs_expire S now key (seconds 60) s
      in case (n, e) of
           (Inr n, Inr _) \<Rightarrow> ((n \<le> maxPerMinute, None), s)
         | _ \<Rightarrow> ((True, Some E_redis_rate), s))"

definition SetPeerHeartbeat :: "timefmt \<Rightarrow> 's redis_server \<Rightarrow> int \<Rightarrow> RedisCache \<Rightarrow> string \<Rightarrow> int \<Rightarrow> 's \<Rightarrow> (redis_error + unit) \<times> 's" where
  "SetPeerHeartbeat T S now rc registryID ttl s = set_bytes S now (peer_key rc registryID) (string_bytes (tf_Format T now)) ttl s"

definition GetPeerHeartbeat :: "'s redis_server \<Rightarrow> int \<Rightarrow> RedisCache \<Rightarrow> string \<Rightarrow> 's \<Rightarrow> (redis_error + string) \<times> 's" where
  "GetPeerHeartbeat S now rc registryID s =
     (case rs_get S now (peer_key rc registryID) s of
        (Inl _, s) \<Rightarrow> (Inl E_redis_get, s)
      | (Inr None, s) \<Rightarrow> (Inr '''', s)
      | (Inr (Some v), s) \<Rightarrow> (Inr (bytes_string v), s))"

definition redis_Ping :: "'s redis_server \<Rightarrow> 's \<Rightarrow> unit + unit" where
  "redis_Ping S s = rs_ping S s"

definition redis_Info :: "'s redis_server \<Rightarrow> 's \<Rightarrow> unit + string" where
  "redis_Info S s = rs_info S s"

section \<open>What the commands do to the other keys\<close>

lemma redis_laws:
  assumes "redis_ok S view num"
  shows "fst (rs_get S now k s) \<in> {Inl (), Inr (view s now k)}"
    "agree now (view (snd (rs_get S now k s))) (view s)"
    "effect (fst (rs_set S now k v ttl s)) now (view s) (view_set k v now ttl (view s)) (view (snd (rs_set S now k v ttl s)))"
    "effect (fst (rs_del S now k s)) now (view s) (view_del k (view s)) (view (snd (rs_del S now k s)))"
    "effect (fst (rs_expire S now k ttl s)) now (view s) (view_expire k now ttl (view s)) (view (snd (rs_expire S now k ttl s)))"
    "k' \<noteq> k \<Longrightarrow> now \<le> t \<Longrightarrow> view (snd (rs_incr S now k s)) t k' = view s t k'"
proof -
  note laws = assms[unfolded redis_ok_def]
  show "fst (rs_get S now k s) \<in> {Inl (), Inr (view s now k)}" "agree now (view (snd (rs_get S now k s))) (view s)"
    using laws[THEN conjunct1] by simp_all
  note laws = laws[THEN conjunct2]
  show "effect (fst (rs_set S now k v ttl s)) now (view s) (view_set k v now ttl (view s)) (view (snd (rs_set S now k v ttl s)))"
    using laws[THEN conjunct1] by simp
  note laws = laws[THEN conjunct2]
  show "effect (fst (rs_del S now k s)) now (view s) (view_del k (view s)) (view (snd (rs_del S now k s)))"
    using laws[THEN conjunct1] by simp
  note laws = laws[THEN conjunct2, THEN conjunct2]
  show "k' \<noteq> k \<Longrightarrow> now \<le> t \<Longrightarrow> view (snd (rs_incr S now k s)) t k' = view s t k'"
    using laws[THEN conjunct1] by simp
  show "effect (fst (rs_expire S now k ttl s)) now (view s) (view_expire k now ttl (view s)) (view (snd (rs_expire S now k ttl s)))"
    using laws[THEN conjunct2] by simp
qed

lemma redis_incr_law:
  assumes "redis_ok S view num" "view s now k = None \<and> n = 0 \<or> view s now k = Some (num n)"
  shows "fst (rs_incr S now k s) \<in> {Inl (), Inr (int n + 1)}"
    "effect (fst (rs_incr S now k s)) now (view s) (view_put k (num (Suc n)) now (view s)) (view (snd (rs_incr S now k s)))"
  using assms(1)[unfolded redis_ok_def, THEN conjunct2, THEN conjunct2, THEN conjunct2, THEN conjunct1, rule_format, OF assms(2)]
  by simp_all

lemma effect_other:
  assumes "effect r now m changed m'" "now \<le> t" "changed t k' = m t k'"
  shows "m' t k' = m t k'"
  using assms by (auto simp: effect_def agree_def)

lemma view_other [simp]:
  "k' \<noteq> k \<Longrightarrow> view_set k v now ttl m t k' = m t k'" "k' \<noteq> k \<Longrightarrow> view_del k m t k' = m t k'"
  "k' \<noteq> k \<Longrightarrow> view_expire k now ttl m t k' = m t k'" "k' \<noteq> k \<Longrightarrow> view_put k v now m t k' = m t k'"
  by (simp_all add: view_set_def view_del_def view_expire_def view_put_def)

text \<open>All operations of the cache as one step, and the key each of them is about.\<close>

datatype ('card, 'resp) redis_op =
    R_GetCard string | R_SetCard string 'card int | R_DeleteCard string
  | R_GetSearch string | R_SetSearch string 'resp int
  | R_GetBloom string | R_SetBloom string "byte list" int
  | R_Rate string string int
  | R_SetPeer string int | R_GetPeer string

fun op_key :: "RedisCache \<Rightarrow> ('card, 'resp) redis_op \<Rightarrow> string" where
  "op_key rc (R_GetCard i) = card_key rc i"
| "op_key rc (R_SetCard i _ _) = card_key rc i"
| "op_key rc (R_DeleteCard i) = card_key rc i"
| "op_key rc (R_GetSearch q) = search_key rc q"
| "op_key rc (R_SetSearch q _ _) = search_key rc q"
| "op_key rc (R_GetBloom r) = bloom_key rc r"
| "op_key rc (R_SetBloom r _ _) = bloom_key rc r"
| "op_key rc (R_Rate b ip _) = rate_key rc b ip"
| "op_key rc (R_SetPeer r _) = peer_key rc r"
| "op_key rc (R_GetPeer r) = peer_key rc r"

fun redis_step :: "'card json_codec \<Rightarrow> 'resp json_codec \<Rightarrow> timefmt \<Rightarrow> 's redis_server \<Rightarrow> RedisCache \<Rightarrow>
    int \<times> ('card, 'resp) redis_op \<Rightarrow> 's \<Rightarrow> 's" where
  "redis_step J R T S rc (now, R_GetCard i) s = snd (GetAgentCard J S now rc i s)"
| "redis_step J R T S rc (now, R_SetCard i v ttl) s = snd (SetAgentCard J S now rc i v ttl s)"
| "redis_step J R T S rc (now, R_DeleteCard i) s = snd (DeleteAgentCard S now rc i s)"
| "redis_step J R T S rc (now, R_GetSearch q) s = snd (GetSearchResult R S now rc q s)"
| "redis_step J R T S rc (now, R_SetSearch q v ttl) s = snd (SetSearchResult R S now rc q v ttl s)"
| "redis_step J R T S rc (now, R_GetBloom r) s = snd (GetBloomFilter S now rc r s)"
| "redis_step J R T S rc (now, R_SetBloom r v ttl) s = snd (SetBloomFilter S now rc r v ttl s)"
| "redis_step J R T S rc (now, R_Rate b ip n) s = snd (redis_RateLimit S now rc b ip n s)"
| "redis_step J R T S rc (now, R_SetPeer r ttl) s = snd (SetPeerHeartbeat T S now rc r ttl s)"
| "redis_step J R T S rc (now, R_GetPeer r) s = snd (GetPeerHeartbeat S now rc r s)"

lemma get_json_frame:
  assumes "redis_ok S view num" "k' \<noteq> k" "now \<le> t"
  shows "view (snd (get_json J S now k s)) t k' = view s t k'"
  using redis_laws(2)[OF assms(1), of now k s] assms(2,3) effect_other[OF redis_laws(4)[OF assms(1)] assms(3)]
  by (auto simp: get_json_def agree_def split: prod.splits sum.splits option.splits)

lemma set_bytes_frame:
  assumes "redis_ok S view num" "k' \<noteq> k" "now \<le> t"
  shows "view (snd (set_bytes S now k v ttl s)) t k' = view s t k'"
  using effect_other[OF redis_laws(3)[OF assms(1), of now k v ttl s] assms(3), of k'] assms(2)
  by (auto simp: set_bytes_def split: prod.splits sum.splits)

lemma redis_step_frame:
  assumes ok: "redis_ok S view num" and k: "k \<noteq> op_key rc op" and t: "now \<le> t"
  shows "view (redis_step J R T S rc (now, op) s) t k = view s t k"
proof -
  have get: "rs_get S now k' s = (r, s') \<Longrightarrow> view s' t = view s t" for k' r s'
    using redis_laws(2)[OF ok, of now k' s] t by (simp add: agree_def)
  have del: "k \<noteq> k' \<Longrightarrow> rs_del S now k' s = (r, s') \<Longrightarrow> view s' t k = view s t k" for k' r s'
    using effect_other[OF redis_laws(4)[OF ok, of now k' s] t, of k] by simp
  have expire: "k \<noteq> k' \<Longrightarrow> rs_expire S now k' d s0 = (r, s') \<Longrightarrow> view s' t k = view s0 t k" for k' d r s0 s'
    using effect_other[OF redis_laws(5)[OF ok, of now k' d s0] t, of k] by simp
  have incr: "k \<noteq> k' \<Longrightarrow> rs_incr S now k' s = (r, s') \<Longrightarrow> view s' t k = view s t k" for k' r s'
    using redis_laws(6)[OF ok _ t, of k k' s] by simp
  show ?thesis
  proof (cases op)
    case (R_Rate b ip n)
    then show ?thesis using k incr expire
      by (auto simp: redis_RateLimit_def Let_def split: prod.splits sum.splits)
  next
    case (R_DeleteCard i)
    then show ?thesis using k del by (auto simp: DeleteAgentCard_def split: prod.splits sum.splits)
  next
    case (R_GetBloom r)
    then show ?thesis using get by (auto simp: GetBloomFilter_def split: prod.splits sum.splits)
  next
    case (R_GetPeer r)
    then show ?thesis using get by (auto simp: GetPeerHeartbeat_def split: prod.splits sum.splits option.splits)
  qed (use k get_json_frame[OF ok _ t] set_bytes_frame[OF ok _ t] in \<open>auto simp: GetAgentCard_def SetAgentCard_def
    GetSearchResult_def SetSearchResult_def SetBloomFilter_def SetPeerHeartbeat_def set_json_def split: option.splits\<close>)
qed

lemma namespaces [simp]:
  "card_key rc i \<noteq> search_key rc j" "card_key rc i \<noteq> bloom_key rc j" "card_key rc i \<noteq> rate_key rc b ip" "card_key rc i \<noteq> peer_key rc j"
  "search_key rc j \<noteq> card_key rc i" "bloom_key rc j \<noteq> card_key rc i" "rate_key rc b ip \<noteq> card_key rc i" "peer_key rc j \<noteq> card_key rc i"
  "card_key rc i = card_key rc j \<longleftrightarrow> i = j"
  by (simp_all add: card_key_def search_key_def bloom_key_def rate_key_def peer_key_def)

section \<open>Cards are found until they expire\<close>

lemma redis_steps_frame:
  assumes ok: "redis_ok S view num" and "\<forall>(now, op)\<in>set ops. now \<le> t \<and> op_key rc op \<noteq> k"
  shows "view (fold (redis_step J R T S rc) ops s) t k = view s t k"
  using assms(2)
proof (induction ops arbitrary: s)
  case (Cons a ops)
  obtain now op where a: "a = (now, op)" by (cases a)
  then show ?case using Cons.IH[of "redis_step J R T S rc a s"] Cons.prems redis_step_frame[OF ok, of k rc op now t J R T s] by auto
qed simp

lemma redis_up_laws:
  assumes ok: "redis_ok S view num" and up: "redis_up S view num"
  shows "fst (rs_get S now k s) = Inr (view s now k)"
    "now \<le> t \<Longrightarrow> view (snd (rs_set S now k v ttl s)) t = view_set k v now ttl (view s) t"
    "now \<le> t \<Longrightarrow> view (snd (rs_del S now k s)) t = view_del k (view s) t"
    "now \<le> t \<Longrightarrow> view (snd (rs_expire S now k ttl s)) t = view_expire k now ttl (view s) t"
    "\<exists>u. fst (rs_set S now k v ttl s) = Inr u" "\<exists>u. fst (rs_expire S now k ttl s) = Inr u"
proof -
  note up = up[unfolded redis_up_def]
  have get: "fst (rs_get S now k s) \<noteq> Inl ()" and set: "fst (rs_set S now k v ttl s) \<noteq> Inl ()" using up by simp_all
  have del: "fst (rs_del S now k s) \<noteq> Inl ()" and expire: "fst (rs_expire S now k ttl s) \<noteq> Inl ()" using up by simp_all
  show "fst (rs_get S now k s) = Inr (view s now k)" using redis_laws(1)[OF ok, of now k s] get by simp
  show "now \<le> t \<Longrightarrow> view (snd (rs_set S now k v ttl s)) t = view_set k v now ttl (view s) t"
    using redis_laws(3)[OF ok, of now k v ttl s] set by (simp add: effect_def agree_def)
  show "now \<le> t \<Longrightarrow> view (snd (rs_del S now k s)) t = view_del k (view s) t"
    using redis_laws(4)[OF ok, of now k s] del by (simp add: effect_def agree_def)
  show "now \<le> t \<Longrightarrow> view (snd (rs_expire S now k ttl s)) t = view_expire k now ttl (view s) t"
    using redis_laws(5)[OF ok, of now k ttl s] expire by (simp add: effect_def agree_def)
  show "\<exists>u. fst (rs_set S now k v ttl s) = Inr u" using set by (cases "fst (rs_set S now k v ttl s)") auto
  show "\<exists>u. fst (rs_expire S now k ttl s) = Inr u" using expire by (cases "fst (rs_expire S now k ttl s)") auto
qed

lemma get_json_up:
  assumes ok: "redis_ok S view num" and up: "redis_up S view num"
  shows "fst (get_json J S now k s) = Inr (case view s now k of None \<Rightarrow> None | Some data \<Rightarrow> jc_unmarshal J data)"
  using redis_up_laws(1)[OF ok up, of now k s]
  by (cases "rs_get S now k s") (auto simp: get_json_def split: option.splits)

text \<open>A card that was cached is found again until it expires. While Redis answers, a card stored with a positive
  lifetime is returned by every lookup before the end of that lifetime, whatever the registry does in between with
  other cards, search responses, Bloom filters, heartbeats and rate limits, since no two kinds of data share a key; from
  the end of the lifetime on, the lookup finds nothing.\<close>

theorem redis_card_roundtrip:
  assumes ok: "redis_ok S view num" and up: "redis_up S view num"
    and json: "jc_marshal J acard = Some data" "jc_unmarshal J data = Some acard"
    and ttl: "0 < ttl" "t0 \<le> t"
    and others: "\<forall>(now, op)\<in>set ops. now \<le> t \<and> op_key rc op \<noteq> card_key rc i"
  shows "fst (GetAgentCard J S t rc i (fold (redis_step J R T S rc) ops (snd (SetAgentCard J S t0 rc i acard ttl s)))) =
    Inr (if t < t0 + ttl then Some acard else None)"
proof -
  let ?s = "snd (SetAgentCard J S t0 rc i acard ttl s)"
  have "snd (set_bytes S t0 (card_key rc i) data ttl s) = snd (rs_set S t0 (card_key rc i) data ttl s)"
    by (auto simp: set_bytes_def split: prod.splits sum.splits)
  then have "view ?s t (card_key rc i) = (if t < t0 + ttl then Some data else None)"
    using redis_up_laws(2)[OF ok up ttl(2), of "card_key rc i" data ttl s] ttl(1) json(1)
    by (simp add: SetAgentCard_def set_json_def view_set_def)
  then show ?thesis
    unfolding GetAgentCard_def get_json_up[OF ok up] redis_steps_frame[OF ok others] using json(2) by simp
qed

section \<open>The counters of the rate limit\<close>

text \<open>The length of the burst a request belongs to: requests that follow one another within a minute.\<close>

fun burst_lengths :: "(nat \<times> int) option \<Rightarrow> int list \<Rightarrow> nat list" where
  "burst_lengths _ [] = []"
| "burst_lengths prev (t # ts) =
     (let n = (case prev of Some (m, seen) \<Rightarrow> if t < seen + seconds 60 then Suc m else 1 | None \<Rightarrow> 1)
      in n # burst_lengths (Some (n, t)) ts)"

fun rate_requests :: "'s redis_server \<Rightarrow> RedisCache \<Rightarrow> string \<Rightarrow> string \<Rightarrow> int \<Rightarrow> int list \<Rightarrow> 's \<Rightarrow> (bool \<times> redis_error option) list" where
  "rate_requests S rc bucket ip n [] s = []"
| "rate_requests S rc bucket ip n (t # ts) s =
     (let (r, s) = redis_RateLimit S t rc bucket ip n s in r # rate_requests S rc bucket ip n ts s)"

definition counter_is :: "(nat \<Rightarrow> byte list) \<Rightarrow> string \<Rightarrow> (nat \<times> int) option \<Rightarrow> int \<Rightarrow> redis_view \<Rightarrow> bool" where
  "counter_is num k prev now m = (\<forall>t\<ge>now. m t k =
     (case prev of None \<Rightarrow> None | Some (n, seen) \<Rightarrow> if t < seen + seconds 60 then Some (num n) else None))"

lemma rate_step:
  assumes ok: "redis_ok S view num" and up: "redis_up S view num"
    and c: "counter_is num (rate_key rc bucket ip) prev now (view s)"
    and r: "redis_RateLimit S now rc bucket ip limit s = (r, s')"
    and n: "n = (case prev of Some (m, seen) \<Rightarrow> if now < seen + seconds 60 then m else 0 | None \<Rightarrow> 0)"
  shows "r = (int (Suc n) \<le> limit, None)" "counter_is num (rate_key rc bucket ip) (Some (Suc n, now)) now (view s')"
proof -
  let ?k = "rate_key rc bucket ip"
  obtain r1 s1 where i: "rs_incr S now ?k s = (r1, s1)" by (cases "rs_incr S now ?k s")
  obtain r2 s2 where e: "rs_expire S now ?k (seconds 60) s1 = (r2, s2)" by (cases "rs_expire S now ?k (seconds 60) s1")
  have st: "view s now ?k = None \<and> n = 0 \<or> view s now ?k = Some (num n)"
    using c n by (auto simp: counter_is_def split: option.splits if_splits)
  have "view s now ?k = None \<or> view s now ?k = Some (num n)" using st by blast
  then have "r1 \<noteq> Inl ()" using up i unfolding redis_up_def by (metis fst_conv)
  then have r1: "r1 = Inr (int n + 1)" and v1: "view s1 now ?k = Some (num (Suc n))"
    using redis_incr_law[OF ok st] i by (auto simp: effect_def agree_def view_put_def)
  have r2: "\<exists>u. r2 = Inr u" using redis_up_laws(6)[OF ok up, of now ?k "seconds 60" s1] e by simp
  show "r = (int (Suc n) \<le> limit, None)" using r i e r1 r2 by (auto simp: redis_RateLimit_def Let_def)
  have "s' = s2" using r i e r1 r2 by (auto simp: redis_RateLimit_def Let_def)
  then show "counter_is num ?k (Some (Suc n, now)) now (view s')"
    using redis_up_laws(4)[OF ok up, of now _ ?k "seconds 60" s1] e v1 by (simp add: counter_is_def view_expire_def)
qed

lemma rate_requests_bursts:
  assumes ok: "redis_ok S view num" and up: "redis_up S view num"
  shows "counter_is num (rate_key rc bucket ip) prev now (view s) \<Longrightarrow> sorted (now # ts) \<Longrightarrow>
    rate_requests S rc bucket ip limit ts s = map (\<lambda>n. (int n \<le> limit, None)) (burst_lengths prev ts)"
proof (induction ts arbitrary: prev now s)
  case (Cons t ts)
  obtain r s' where r: "redis_RateLimit S t rc bucket ip limit s = (r, s')" by (cases "redis_RateLimit S t rc bucket ip limit s")
  define n where "n = (case prev of Some (m, seen) \<Rightarrow> if t < seen + seconds 60 then m else 0 | None \<Rightarrow> 0)"
  have "counter_is num (rate_key rc bucket ip) prev t (view s)"
    using Cons.prems by (simp add: counter_is_def)
  note step = rate_step[OF ok up this r n_def]
  have n: "(case prev of Some (m, seen) \<Rightarrow> if t < seen + seconds 60 then Suc m else 1 | None \<Rightarrow> 1) = Suc n"
    by (simp add: n_def split: option.splits prod.splits)
  show ?case using r step(1) Cons.IH[OF step(2)] Cons.prems(2) by (simp add: n)
qed simp

text \<open>The limit of a client counts the requests of its current burst, where a burst lasts as long as no two
  requests are a minute apart. Since every request, a refused one too, renews the lifetime of the counter, a client
  that keeps asking is refused after its first requests, at any rate and for as long as it asks; after a minute of silence
  it may start again.\<close>

theorem redis_rate_limit_counts_bursts:
  assumes "redis_ok S view num" "redis_up S view num" "sorted ts"
    and "\<And>t. view s t (rate_key rc bucket ip) = None"
  shows "rate_requests S rc bucket ip limit ts s = map (\<lambda>n. (int n \<le> limit, None)) (burst_lengths None ts)"
proof (cases ts)
  case (Cons t ts')
  have "counter_is num (rate_key rc bucket ip) None t (view s)" using assms(4) by (simp add: counter_is_def)
  then show ?thesis by (rule rate_requests_bursts[OF assms(1,2)]) (use assms(3) Cons in simp)
qed simp

section \<open>A server with the documented behaviour\<close>

definition toy_live :: "int \<Rightarrow> (byte list \<times> int option) option \<Rightarrow> byte list option" where
  "toy_live now e = (case e of None \<Rightarrow> None | Some (v, None) \<Rightarrow> Some v | Some (v, Some d) \<Rightarrow> if now < d then Some v else None)"

definition toy_view :: "(string \<Rightarrow> (byte list \<times> int option) option) \<Rightarrow> redis_view" where
  "toy_view s t k = toy_live t (s k)"

definition toy_num :: "nat \<Rightarrow> byte list" where
  "toy_num n = replicate n 1"

definition toy_redis :: "(string \<Rightarrow> (byte list \<times> int option) option) redis_server" where
  "toy_redis = \<lparr>rs_get = (\<lambda>now k s. (Inr (toy_view s now k), s)),
     rs_set = (\<lambda>now k v ttl s. (Inr (), s(k \<mapsto> (v, if 0 < ttl then Some (now + ttl) else None)))),
     rs_del = (\<lambda>now k s. (Inr (), s(k := None))),
     rs_incr = (\<lambda>now k s. case toy_view s now k of
         None \<Rightarrow> (Inr 1, s(k \<mapsto> (toy_num 1, None)))
       | Some v \<Rightarrow> if v = toy_num (length v) then (Inr (int (length v) + 1), s(k \<mapsto> (toy_num (Suc (length v)), snd (the (s k))))) else (Inl (), s)),
     rs_expire = (\<lambda>now k ttl s. (Inr (), s(k := map_option (\<lambda>v. (v, Some (now + ttl))) (toy_view s now k)))),
     rs_ping = (\<lambda>s. Inr ()), rs_info = (\<lambda>s. Inr '''')\<rparr>"

lemma length_toy_num [simp]: "length (toy_num n) = n"
  by (simp add: toy_num_def)

lemma toy_redis_ok: "redis_ok toy_redis toy_view toy_num"
  unfolding redis_ok_def
proof (intro conjI allI impI)
  fix now k s n
  assume "toy_view s now k = None \<and> n = 0 \<or> toy_view s now k = Some (toy_num n)"
  then show "fst (rs_incr toy_redis now k s) \<in> {Inl (), Inr (int n + 1)}"
    and "effect (fst (rs_incr toy_redis now k s)) now (toy_view s) (view_put k (toy_num (Suc n)) now (toy_view s))
      (toy_view (snd (rs_incr toy_redis now k s)))"
    by (auto simp: toy_redis_def effect_def agree_def view_put_def toy_view_def toy_live_def fun_eq_iff split: option.splits if_splits)
qed (auto simp: toy_redis_def effect_def agree_def view_set_def view_del_def view_expire_def toy_view_def toy_live_def fun_eq_iff
  split: option.splits if_splits)

lemma toy_redis_up: "redis_up toy_redis toy_view toy_num"
  by (auto simp: redis_up_def toy_redis_def split: option.splits)

definition text_codec :: "string json_codec" where
  "text_codec = \<lparr>jc_marshal = (\<lambda>s. Some (string_bytes s)), jc_unmarshal = (\<lambda>d. Some (bytes_string d))\<rparr>"

text \<open>Two requests within a minute with a limit of one, a third after more than a minute, but not after the second.\<close>

theorem redis_rate_limit_counts_bursts_witness:
  "rate_requests toy_redis \<lparr>rc_prefix = ''zns:''\<rparr> ''search'' ''10.0.0.1'' 1 [0, seconds 50, seconds 100] (\<lambda>_. None) =
    [(True, None), (False, None), (False, None)]"
  using redis_rate_limit_counts_bursts[OF toy_redis_ok toy_redis_up, of "[0, seconds 50, seconds 100]" "\<lambda>_. None"
    "\<lparr>rc_prefix = ''zns:''\<rparr>" "''search''" "''10.0.0.1''" 1]
  by (simp add: toy_view_def toy_live_def Let_def)

theorem redis_card_roundtrip_witness:
  "fst (GetAgentCard text_codec toy_redis 5 \<lparr>rc_prefix = ''zns:''\<rparr> ''a''
     (snd (redis_RateLimit toy_redis 3 \<lparr>rc_prefix = ''zns:''\<rparr> ''a'' ''b'' 1
       (snd (SetAgentCard text_codec toy_redis 2 \<lparr>rc_prefix = ''zns:''\<rparr> ''a'' ''card'' 10 (\<lambda>_. None)))))) = Inr (Some ''card'')"
  using redis_card_roundtrip[OF toy_redis_ok toy_redis_up, of text_codec "''card''" "string_bytes ''card''" 10 2 5
      "[(3, R_Rate ''a'' ''b'' 1)]" "\<lparr>rc_prefix = ''zns:''\<rparr>" "''a''" text_codec undefined "\<lambda>_. None"]
  by (simp add: text_codec_def)

end
