(* ===== verification/CardFetch.thy ===== *)
theory CardFetch
  imports Lru Redis Identity
begin

text \<open>
  The Agent Card (\<open>src/internal/models/agent_card.go\<close>) and its fetcher (\<open>src/internal/card/fetch.go\<close>):
  the in-process cache, the shared Redis cache, and the fetch over HTTP from the well-known paths of the entity.

  The HTTP client is the parameter \<open>http\<close>: what a \<open>GET\<close> of a URL yields at a time. \<open>J\<close> is
  \<open>encoding/json\<close> on cards and \<open>S\<close> the Redis server. Schemas of unknown shape have the type parameter
  \<open>'j\<close>. The theory shows how old a card can be that is served, for registries that share a Redis server.
\<close>

section \<open>Cards\<close>

record Example =
  ex_Input :: string
  ex_Output :: string

record 'j Capability =
  cp_Name :: string
  cp_Description :: string
  cp_InputSchema :: "(string \<times> 'j) list"
  cp_OutputSchema :: "(string \<times> 'j) list"
  cp_Protocols :: "string list"
  cp_Languages :: "string list"
  cp_LatencyP95Ms :: int
  cp_Examples :: "Example list"

record Pricing =
  pr_Model :: string
  pr_Currency :: string
  pr_Rates :: "(string \<times> real) list"
  pr_PaymentMethods :: "string list"

record Verification =
  vf_Issuer :: string
  vf_Type :: string
  vf_Issued :: string

record TrustInfo =
  ti_TotalInvocations :: int
  ti_SuccessRate :: real
  ti_AvgRating :: real
  ti_Uptime30d :: real
  ti_Verifications :: "Verification list"

record Endpoints =
  ep_Invoke :: string
  ep_Health :: string
  ep_WebSocket :: string

record CardMeta =
  cm_Framework :: string
  cm_Model :: string
  cm_OwnerContact :: string
  cm_Documentation :: string
  cm_SourceCode :: string

record 'j EntityCard =
  ec_EntityID :: string
  ec_SchemaVersion :: string
  ec_Version :: string
  ec_Status :: string
  ec_LastHeartbeat :: string
  ec_Capabilities :: "'j Capability list"
  ec_Pricing :: "Pricing option"
  ec_Trust :: "TrustInfo option"
  ec_Endpoints :: "Endpoints option"
  ec_Metadata :: "CardMeta option"
  ec_Signature :: string
  ec_SignedAt :: string

section \<open>The fetch over HTTP\<close>

text \<open>What a request yields: the URL is refused, the request fails, or a response with a status and a body, which may
  break off.\<close>

datatype http_answer = H_bad_url | H_failed | H_response int "byte list" bool

datatype fetch_error = E_build_request | E_fetch | E_status int | E_read_body | E_no_path | E_parse_card | E_id_mismatch

definition wellKnownCardPaths :: "string list" where
  "wellKnownCardPaths = [''/.well-known/agent-card.json'', ''/.well-known/zynd-agent.json'', ''/.well-known/agent.json'']"

definition max_card :: int where "max_card = 50 * 1024"

text \<open>\<open>io.ReadAll\<close> of an \<open>io.LimitReader\<close>: what comes after the limit is not read, and a break of the body there is not
  seen.\<close>

definition read_limited :: "int \<Rightarrow> byte list \<Rightarrow> bool \<Rightarrow> byte list option" where
  "read_limited limit body breaks =
     (if int (length body) \<ge> limit then Some (take (nat limit) body) else if breaks then None else Some body)"

definition TrimRight_slash :: "string \<Rightarrow> string" where
  "TrimRight_slash s = rev (dropWhile (\<lambda>c. c = CHR ''/'') (rev s))"

definition card_candidates :: "string \<Rightarrow> string list" where
  "card_candidates agentURL =
     (if \<not> HasSuffix agentURL ''.json'' \<and> \<not> str_Contains agentURL ''.well-known''
      then map (\<lambda>p. TrimRight_slash agentURL @ p) wellKnownCardPaths else [agentURL])"

fun try_candidates :: "(string \<Rightarrow> http_answer) \<Rightarrow> string list \<Rightarrow> fetch_error option \<Rightarrow> fetch_error + (string \<times> byte list)" where
  "try_candidates http [] lastErr = Inl (case lastErr of None \<Rightarrow> E_no_path | Some e \<Rightarrow> e)"
| "try_candidates http (cardURL # rest) lastErr =
     (case http cardURL of
        H_bad_url \<Rightarrow> try_candidates http rest (Some E_build_request)
      | H_failed \<Rightarrow> try_candidates http rest (Some E_fetch)
      | H_response status body breaks \<Rightarrow>
          if status \<noteq> 200 then try_candidates http rest (Some (E_status status))
          else case read_limited max_card body breaks of
                 None \<Rightarrow> try_candidates http rest (Some E_read_body)
               | Some b \<Rightarrow> Inr (cardURL, b))"

definition tryWellKnownPaths :: "(string \<Rightarrow> http_answer) \<Rightarrow> string \<Rightarrow> fetch_error + (string \<times> byte list)" where
  "tryWellKnownPaths http agentURL = try_candidates http (card_candidates agentURL) None"

section \<open>The fetcher\<close>

record 'j Fetcher =
  fe_lruCache :: "'j EntityCard LRUCache"
  fe_redis :: "RedisCache option"
  fe_cardTTL :: int

definition NewFetcher :: "'j EntityCard LRUCache \<Rightarrow> RedisCache option \<Rightarrow> int \<Rightarrow> 'j Fetcher" where
  "NewFetcher lruCache redis cardTTLSeconds =
     (let ttl = seconds cardTTLSeconds;
          ttl = (if ttl = 0 then seconds 3600 else ttl)
      in \<lparr>fe_lruCache = lruCache, fe_redis = redis, fe_cardTTL = ttl\<rparr>)"

text \<open>Tier 3: the card as its entity serves it.\<close>

definition fetch_origin :: "'j EntityCard json_codec \<Rightarrow> (string \<Rightarrow> http_answer) \<Rightarrow> string \<Rightarrow> string \<Rightarrow> fetch_error + 'j EntityCard" where
  "fetch_origin J http agentID agentURL =
     (case tryWellKnownPaths http agentURL of
        Inl e \<Rightarrow> Inl e
      | Inr (cardURL, body) \<Rightarrow>
          (case jc_unmarshal J body of
             None \<Rightarrow> Inl E_parse_card
           | Some crd \<Rightarrow>
               if ec_EntityID crd \<noteq> '''' \<and> ec_EntityID crd \<noteq> agentID then Inl E_id_mismatch else Inr crd))"

definition redis_tier :: "'j EntityCard json_codec \<Rightarrow> 's redis_server \<Rightarrow> int \<Rightarrow> string \<Rightarrow> 'j Fetcher \<Rightarrow> 's \<Rightarrow> 'j EntityCard option \<times> 's" where
  "redis_tier J S now agentID f s =
     (case fe_redis f of
        None \<Rightarrow> (None, s)
      | Some rc \<Rightarrow> (case GetAgentCard J S now rc agentID s of
            (Inr (Some crd), s) \<Rightarrow> (Some crd, s)
          | (_, s) \<Rightarrow> (None, s)))"

definition redis_fill :: "'j EntityCard json_codec \<Rightarrow> 's redis_server \<Rightarrow> int \<Rightarrow> string \<Rightarrow> 'j EntityCard \<Rightarrow> 'j Fetcher \<Rightarrow> 's \<Rightarrow> 's" where
  "redis_fill J S now agentID crd f s =
     (case fe_redis f of None \<Rightarrow> s | Some rc \<Rightarrow> snd (SetAgentCard J S now rc agentID crd (fe_cardTTL f) s))"

definition FetchCard :: "'j EntityCard json_codec \<Rightarrow> 's redis_server \<Rightarrow> (string \<Rightarrow> http_answer) \<Rightarrow> int \<Rightarrow> string \<Rightarrow> string \<Rightarrow> string \<Rightarrow>
    'j Fetcher \<Rightarrow> 's \<Rightarrow> (fetch_error + 'j EntityCard) \<times> 'j Fetcher \<times> 's" where
  "FetchCard J S http now agentID agentURL publicKey f s =
     (let (hit, lru) = lru_Get now agentID (fe_lruCache f);
          f = f\<lparr>fe_lruCache := lru\<rparr>
      in case hit of
           Some crd \<Rightarrow> (Inr crd, f, s)
         | None \<Rightarrow>
             (let (shared, s) = redis_tier J S now agentID f s
              in case shared of
                   Some crd \<Rightarrow> (Inr crd, f\<lparr>fe_lruCache := lru_Put now agentID crd (fe_lruCache f)\<rparr>, s)
                 | None \<Rightarrow>
                     (case fetch_origin J http agentID agentURL of
                        Inl e \<Rightarrow> (Inl e, f, s)
                      | Inr crd \<Rightarrow> (Inr crd, f\<lparr>fe_lruCache := lru_Put now agentID crd (fe_lruCache f)\<rparr>, redis_fill J S now agentID crd f s))))"

definition FetchCardRaw :: "(string \<Rightarrow> http_answer) \<Rightarrow> string \<Rightarrow> string \<Rightarrow> fetch_error + byte list" where
  "FetchCardRaw http agentID agentURL = (case tryWellKnownPaths http agentURL of Inl e \<Rightarrow> Inl e | Inr (_, body) \<Rightarrow> Inr body)"

definition InvalidateCache :: "'s redis_server \<Rightarrow> int \<Rightarrow> string \<Rightarrow> 'j Fetcher \<Rightarrow> 's \<Rightarrow> 'j Fetcher \<times> 's" where
  "InvalidateCache S now agentID f s =
     (f\<lparr>fe_lruCache := lru_Remove agentID (fe_lruCache f)\<rparr>,
      case fe_redis f of None \<Rightarrow> s | Some rc \<Rightarrow> snd (DeleteAgentCard S now rc agentID s))"

definition CacheSize :: "'j Fetcher \<Rightarrow> nat" where
  "CacheSize f = lru_Len (fe_lruCache f)"

text \<open>The signature check over the generic JSON object; \<open>M\<close> is \<open>encoding/json\<close> on objects. Nothing calls it.\<close>

datatype card_sig_error = E_card_json | E_signable | E_verify verify_error | E_bad_signature

definition verifyCardSignatureRaw ::
  "ed25519 \<Rightarrow> (string \<times> 'v) list json_codec \<Rightarrow> byte list \<Rightarrow> string \<Rightarrow> string \<Rightarrow> card_sig_error + unit" where
  "verifyCardSignatureRaw E M rawBody signature publicKeyStr =
     (let pubKey = (if length publicKeyStr > 8 \<and> take 8 publicKeyStr = ''ed25519:'' then drop 8 publicKeyStr else publicKeyStr)
      in case jc_unmarshal M rawBody of
           None \<Rightarrow> Inl E_card_json
         | Some cardMap \<Rightarrow>
             (case jc_marshal M (map_del ''signature'' cardMap) of
                None \<Rightarrow> Inl E_signable
              | Some signableBytes \<Rightarrow>
                  (case Verify E pubKey signableBytes signature of
                     Inl e \<Rightarrow> Inl (E_verify e)
                   | Inr valid \<Rightarrow> if \<not> valid then Inl E_bad_signature else Inr ())))"

section \<open>Registries that share a Redis server\<close>

datatype fetch_op =
    F_Fetch nat string string string
  | F_Invalidate nat string

text \<open>One call at a time on one of several fetchers; \<open>http\<close> says what the web serves at each time.\<close>

fun fetch_step :: "'j EntityCard json_codec \<Rightarrow> 's redis_server \<Rightarrow> (int \<Rightarrow> string \<Rightarrow> http_answer) \<Rightarrow> int \<times> fetch_op \<Rightarrow>
    'j Fetcher list \<times> 's \<Rightarrow> (fetch_error + 'j EntityCard) option \<times> 'j Fetcher list \<times> 's" where
  "fetch_step J S http (now, F_Fetch i agentID agentURL publicKey) (fs, s) =
     (if i < length fs
      then let (r, f, s) = FetchCard J S (http now) now agentID agentURL publicKey (fs ! i) s in (Some r, fs[i := f], s)
      else (None, fs, s))"
| "fetch_step J S http (now, F_Invalidate i agentID) (fs, s) =
     (if i < length fs then let (f, s) = InvalidateCache S now agentID (fs ! i) s in (None, fs[i := f], s) else (None, fs, s))"

text \<open>A card stems from a call at time \<open>t\<close>: its entity served it then, or served the card that Redis gave back
  as this one.\<close>

definition stems :: "'j EntityCard json_codec \<Rightarrow> (int \<Rightarrow> string \<Rightarrow> http_answer) \<Rightarrow> (int \<times> fetch_op) set \<Rightarrow> string \<Rightarrow> 'j EntityCard \<Rightarrow> int \<Rightarrow> bool" where
  "stems J http calls k crd t = (\<exists>i url key c0. (t, F_Fetch i k url key) \<in> calls \<and> fetch_origin J (http t) k url = Inr c0 \<and>
     (crd = c0 \<or> Option.bind (jc_marshal J c0) (jc_unmarshal J) = Some crd))"

definition recent :: "'j EntityCard json_codec \<Rightarrow> (int \<Rightarrow> string \<Rightarrow> http_answer) \<Rightarrow> int \<Rightarrow> (int \<times> fetch_op) set \<Rightarrow> int \<Rightarrow> string \<Rightarrow> 'j EntityCard \<Rightarrow> int \<Rightarrow> bool" where
  "recent J http age calls now k crd e = (\<exists>t. stems J http calls k crd t \<and> t \<le> now \<and> e \<le> t + age)"

definition fetcher_inv :: "int \<Rightarrow> int \<Rightarrow> RedisCache \<Rightarrow> (string \<Rightarrow> 'j EntityCard \<Rightarrow> int \<Rightarrow> bool) \<Rightarrow> 'j Fetcher \<Rightarrow> bool" where
  "fetcher_inv L D rc Q f = ((\<exists>n. lru_inv n (lru_ttl (fe_lruCache f)) (fe_lruCache f)) \<and> lru_ttl (fe_lruCache f) \<le> L \<and>
     0 < fe_cardTTL f \<and> fe_cardTTL f \<le> D \<and> fe_redis f \<in> {None, Some rc} \<and>
     (\<forall>(k, c, e)\<in>set (lru_abs (fe_lruCache f)). Q k c e))"

definition shared_inv :: "'j EntityCard json_codec \<Rightarrow> (int \<Rightarrow> string \<Rightarrow> http_answer) \<Rightarrow> int \<Rightarrow> RedisCache \<Rightarrow> (int \<times> fetch_op) set \<Rightarrow> int \<Rightarrow> redis_view \<Rightarrow> bool" where
  "shared_inv J http D rc calls now m = (\<forall>t' k data. now \<le> t' \<longrightarrow> m t' (card_key rc k) = Some data \<longrightarrow>
     (\<exists>t i url key c0. (t, F_Fetch i k url key) \<in> calls \<and> t \<le> now \<and> t' < t + D \<and>
        fetch_origin J (http t) k url = Inr c0 \<and> jc_marshal J c0 = Some data))"

text \<open>The in-process cache holds nothing but what was put in, and serves nothing past its expiry.\<close>

lemma spec_Get_entries:
  "fst (spec_Get now k xs) = Some c \<Longrightarrow> \<exists>e. (k, c, e) \<in> set xs \<and> now \<le> e"
  "set (snd (spec_Get now k xs)) \<subseteq> set xs"
proof -
  have sub: "set (map_del k xs) \<subseteq> set xs" for xs :: "'a recency" by (auto simp: map_del_def t_delete_def)
  have get: "map_get k xs = Some v \<Longrightarrow> (k, v) \<in> set xs" for v
    using t_get_Some by (fastforce simp: map_get_def)
  show "fst (spec_Get now k xs) = Some c \<Longrightarrow> \<exists>e. (k, c, e) \<in> set xs \<and> now \<le> e"
    using get by (auto simp: spec_Get_def split: option.splits if_splits)
  show "set (snd (spec_Get now k xs)) \<subseteq> set xs"
    using get sub[of xs] by (auto simp: spec_Get_def split: option.splits if_splits)
qed

lemma spec_Put_entries: "set (spec_Put n ttl now k c xs) \<subseteq> insert (k, c, now + ttl) (set xs)"
  by (auto simp: spec_Put_def map_del_def t_delete_def Let_def dest: in_set_butlastD split: if_splits)

lemma fetcher_Get:
  assumes inv: "fetcher_inv L D rc Q f" and g: "lru_Get now k (fe_lruCache f) = (hit, lru)"
  shows "fetcher_inv L D rc Q (f\<lparr>fe_lruCache := lru\<rparr>)" "hit = Some c \<Longrightarrow> \<exists>e. Q k c e \<and> now \<le> e"
proof -
  let ?c = "fe_lruCache f"
  obtain n where n: "lru_inv n (lru_ttl ?c) ?c" using inv by (auto simp: fetcher_inv_def)
  have l: "lru_inv n (lru_ttl ?c) lru" "spec_Get now k (lru_abs ?c) = (hit, lru_abs lru)"
    using lru_Get_refines[OF n, of now k] g by simp_all
  have t: "lru_ttl lru = lru_ttl ?c" using l(1) by (simp add: lru_inv_def)
  show "fetcher_inv L D rc Q (f\<lparr>fe_lruCache := lru\<rparr>)"
    using inv l spec_Get_entries(2)[of now k "lru_abs ?c"] by (auto simp: fetcher_inv_def t)
  show "hit = Some c \<Longrightarrow> \<exists>e. Q k c e \<and> now \<le> e"
    using inv l(2) spec_Get_entries(1)[of now k "lru_abs ?c" c] by (force simp: fetcher_inv_def)
qed

lemma fetcher_Put:
  assumes inv: "fetcher_inv L D rc Q f" and q: "\<And>e. e \<le> now + L \<Longrightarrow> Q k c e"
  shows "fetcher_inv L D rc Q (f\<lparr>fe_lruCache := lru_Put now k c (fe_lruCache f)\<rparr>)"
proof -
  let ?c = "fe_lruCache f"
  obtain n where n: "lru_inv n (lru_ttl ?c) ?c" using inv by (auto simp: fetcher_inv_def)
  have l: "lru_inv n (lru_ttl ?c) (lru_Put now k c ?c)" "spec_Put n (lru_ttl ?c) now k c (lru_abs ?c) = lru_abs (lru_Put now k c ?c)"
    using lru_Put_refines[OF n, of now k c] by simp_all
  have t: "lru_ttl (lru_Put now k c ?c) = lru_ttl ?c" using l(1) by (simp add: lru_inv_def)
  have "Q k c (now + lru_ttl ?c)" using inv by (intro q) (simp add: fetcher_inv_def)
  then show ?thesis
    using inv l spec_Put_entries[of n "lru_ttl ?c" now k c "lru_abs ?c"] by (auto simp: fetcher_inv_def t)
qed

lemma fetcher_Remove:
  assumes inv: "fetcher_inv L D rc Q f"
  shows "fetcher_inv L D rc Q (f\<lparr>fe_lruCache := lru_Remove k (fe_lruCache f)\<rparr>)"
proof -
  let ?c = "fe_lruCache f"
  obtain n where n: "lru_inv n (lru_ttl ?c) ?c" using inv by (auto simp: fetcher_inv_def)
  have l: "lru_inv n (lru_ttl ?c) (lru_Remove k ?c)" "map_del k (lru_abs ?c) = lru_abs (lru_Remove k ?c)"
    using lru_Remove_refines[OF n, of k] by simp_all
  have t: "lru_ttl (lru_Remove k ?c) = lru_ttl ?c" using l(1) by (simp add: lru_inv_def)
  have "set (map_del k (lru_abs ?c)) \<subseteq> set (lru_abs ?c)" by (auto simp: map_del_def t_delete_def)
  then show ?thesis using inv l by (auto simp: fetcher_inv_def t)
qed

text \<open>The shared cache holds only cards that were served within the lifetime of its entries, under failures of Redis
  too.\<close>

lemma shared_weaken:
  assumes "shared_inv J http D rc calls now m" "now \<le> now'" "calls \<subseteq> calls'"
    and "\<And>t k. now' \<le> t \<Longrightarrow> m' t (card_key rc k) = m t (card_key rc k) \<or> m' t (card_key rc k) = None"
  shows "shared_inv J http D rc calls' now' m'"
  unfolding shared_inv_def
proof (intro allI impI)
  fix t' k data assume t': "now' \<le> t'" and d: "m' t' (card_key rc k) = Some data"
  then have "m t' (card_key rc k) = Some data" using assms(4)[OF t', of k] by auto
  moreover have "now \<le> t'" using t' assms(2) by simp
  ultimately obtain t i url key c0 where "(t, F_Fetch i k url key) \<in> calls" "t \<le> now" "t' < t + D"
    "fetch_origin J (http t) k url = Inr c0" "jc_marshal J c0 = Some data"
    using assms(1) unfolding shared_inv_def by blast
  then show "\<exists>t i url key c0. (t, F_Fetch i k url key) \<in> calls' \<and> t \<le> now' \<and> t' < t + D \<and>
      fetch_origin J (http t) k url = Inr c0 \<and> jc_marshal J c0 = Some data"
    using assms(2,3) by (meson order_trans subsetD)
qed

lemma get_json_view:
  assumes "redis_ok S view num" "now \<le> t"
  shows "view (snd (get_json J S now k s)) t k' = view s t k' \<or> view (snd (get_json J S now k s)) t k' = None"
    "fst (get_json J S now k s) = Inr (Some v) \<Longrightarrow> \<exists>data. view s now k = Some data \<and> jc_unmarshal J data = Some v"
proof -
  obtain r s1 where g: "rs_get S now k s = (r, s1)" by (cases "rs_get S now k s")
  have r: "r \<in> {Inl (), Inr (view s now k)}" and v1: "view s1 t = view s t"
    using redis_laws(1,2)[OF assms(1), of now k s] g assms(2) by (simp_all add: agree_def)
  have d: "view (snd (rs_del S now k s1)) t k' = view s1 t k' \<or> view (snd (rs_del S now k s1)) t k' = None"
    using redis_laws(4)[OF assms(1), of now k s1] assms(2) by (auto simp: effect_def agree_def view_del_def split: if_splits)
  show "view (snd (get_json J S now k s)) t k' = view s t k' \<or> view (snd (get_json J S now k s)) t k' = None"
    using g v1 d by (auto simp: get_json_def split: sum.splits option.splits)
  show "fst (get_json J S now k s) = Inr (Some v) \<Longrightarrow> \<exists>data. view s now k = Some data \<and> jc_unmarshal J data = Some v"
    using g r by (auto simp: get_json_def split: option.splits)
qed

lemma redis_tier_hit:
  assumes ok: "redis_ok S view num" and inv: "fetcher_inv L D rc Q f" and sh: "shared_inv J http D rc calls now (view s)"
    and r: "redis_tier J S now k f s = (hit, s')"
  shows "shared_inv J http D rc calls now (view s')"
    "hit = Some c \<Longrightarrow> \<exists>t. stems J http calls k c t \<and> t \<le> now \<and> now < t + D"
proof -
  have rc: "fe_redis f = None \<or> fe_redis f = Some rc" using inv by (simp add: fetcher_inv_def)
  let ?g = "get_json J S now (card_key rc k) s"
  have cases: "s' = s \<and> hit = None \<or> s' = snd ?g \<and> (\<forall>c. hit = Some c \<longrightarrow> fst ?g = Inr (Some c))"
    using r rc by (auto simp: redis_tier_def GetAgentCard_def split: option.splits prod.splits sum.splits)
  show "shared_inv J http D rc calls now (view s')"
  proof (rule shared_weaken[OF sh order_refl subset_refl])
    show "view s' t (card_key rc k') = view s t (card_key rc k') \<or> view s' t (card_key rc k') = None" if "now \<le> t" for t k'
      using cases get_json_view(1)[OF ok that, of J "card_key rc k" s "card_key rc k'"] by auto
  qed
  assume h: "hit = Some c"
  then have "fst ?g = Inr (Some c)" using cases by blast
  then obtain data where data: "view s now (card_key rc k) = Some data" "jc_unmarshal J data = Some c"
    using get_json_view(2)[OF ok, of now now J "card_key rc k" s c] by blast
  obtain t i url key c0 where t: "(t, F_Fetch i k url key) \<in> calls" "t \<le> now" "now < t + D"
    "fetch_origin J (http t) k url = Inr c0" "jc_marshal J c0 = Some data"
    using sh[unfolded shared_inv_def, rule_format, OF order_refl data(1)] by blast
  then have "stems J http calls k c t" unfolding stems_def using data(2) by (intro exI[of _ i] exI[of _ url] exI[of _ key] exI[of _ c0]) simp
  then show "\<exists>t. stems J http calls k c t \<and> t \<le> now \<and> now < t + D" using t(2,3) by blast
qed

lemma redis_fill_inv:
  assumes ok: "redis_ok S view num" and inv: "fetcher_inv L D rc Q f" and sh: "shared_inv J http D rc calls now (view s)"
    and o: "fetch_origin J (http now) k url = Inr c" and call: "(now, F_Fetch i k url key) \<in> calls"
  shows "shared_inv J http D rc calls now (view (redis_fill J S now k c f s))"
proof (cases "fe_redis f = None \<or> jc_marshal J c = None")
  case True
  then show ?thesis using sh by (auto simp: redis_fill_def SetAgentCard_def set_json_def split: option.splits)
next
  case False
  then obtain data where rc: "fe_redis f = Some rc" and data: "jc_marshal J c = Some data"
    using inv by (auto simp: fetcher_inv_def)
  have ttl: "0 < fe_cardTTL f" "fe_cardTTL f \<le> D" using inv by (simp_all add: fetcher_inv_def)
  let ?r = "rs_set S now (card_key rc k) data (fe_cardTTL f) s"
  have s': "redis_fill J S now k c f s = snd ?r"
    by (auto simp: redis_fill_def rc SetAgentCard_def set_json_def data set_bytes_def split: prod.splits sum.splits)
  have v: "view (snd ?r) t k' = view s t k' \<or> k' = card_key rc k \<and> (now + fe_cardTTL f \<le> t \<and> view (snd ?r) t k' = None \<or> t < now + fe_cardTTL f \<and> view (snd ?r) t k' = Some data)"
    if "now \<le> t" for t k'
    using redis_laws(3)[OF ok, of now "card_key rc k" data "fe_cardTTL f" s] that ttl(1)
    by (cases "now + fe_cardTTL f \<le> t"; cases "k' = card_key rc k") (auto simp: effect_def agree_def view_set_def)
  show ?thesis unfolding s' shared_inv_def
  proof (intro allI impI)
    fix t' k' d assume t': "now \<le> t'" and d: "view (snd ?r) t' (card_key rc k') = Some d"
    show "\<exists>t i url key c0. (t, F_Fetch i k' url key) \<in> calls \<and> t \<le> now \<and> t' < t + D \<and>
      fetch_origin J (http t) k' url = Inr c0 \<and> jc_marshal J c0 = Some d"
    proof (cases "view s t' (card_key rc k') = Some d")
      case True
      then show ?thesis using sh t' unfolding shared_inv_def by blast
    next
      case False
      then have "k' = k" "d = data" "t' < now + fe_cardTTL f" using v[OF t', of "card_key rc k'"] d by auto
      then show ?thesis using call o data ttl(2)
        by (intro exI[of _ now] exI[of _ i] exI[of _ url] exI[of _ key] exI[of _ c]) simp
    qed
  qed
qed

text \<open>One call keeps the invariant, and what it serves is recent.\<close>

lemma FetchCard_recent:
  assumes ok: "redis_ok S view num" and L: "0 \<le> L" "0 < D"
    and inv: "fetcher_inv L D rc (recent J http (L + D) calls now) f"
    and sh: "shared_inv J http D rc calls now (view s)"
    and call: "(now, F_Fetch i k url key) \<in> calls"
    and r: "FetchCard J S (http now) now k url key f s = (r, f', s')"
  shows "fetcher_inv L D rc (recent J http (L + D) calls now) f'" (is "fetcher_inv L D rc ?Q f'")
    and "shared_inv J http D rc calls now (view s')"
    and "case r of Inl e \<Rightarrow> fetch_origin J (http now) k url = Inl e | Inr c \<Rightarrow> recent J http (L + D) calls now k c now"
proof -
  let ?P = "fetcher_inv L D rc ?Q f' \<and> shared_inv J http D rc calls now (view s') \<and>
    (case r of Inl e \<Rightarrow> fetch_origin J (http now) k url = Inl e | Inr c \<Rightarrow> ?Q k c now)"
  obtain hit lru where g: "lru_Get now k (fe_lruCache f) = (hit, lru)" by (cases "lru_Get now k (fe_lruCache f)")
  note f1 = fetcher_Get[OF inv g]
  let ?f = "f\<lparr>fe_lruCache := lru\<rparr>"
  obtain shared s1 where t: "redis_tier J S now k ?f s = (shared, s1)" by (cases "redis_tier J S now k ?f s")
  note tier = redis_tier_hit[OF ok f1(1) sh t]
  have fresh: "?Q k c e" if "fetch_origin J (http now) k url = Inr c" "e \<le> now + L" for c e
    unfolding recent_def stems_def using that call L by (intro exI[of _ now]) auto
  have "?P"
  proof (cases hit)
    case (Some c)
    then obtain e where e: "?Q k c e" "now \<le> e" using f1(2) by blast
    then have "?Q k c now" by (auto simp: recent_def)
    then show ?thesis using r g Some f1(1) sh by (auto simp: FetchCard_def)
  next
    case None
    show ?thesis
    proof (cases shared)
      case (Some c)
      then obtain t where st: "stems J http calls k c t" "t \<le> now" "now < t + D" using tier(2) by blast
      then have q: "?Q k c e" if "e \<le> now + L" for e using that unfolding recent_def by (intro exI[of _ t]) simp
      have "?Q k c now" by (rule q) (use L in simp)
      then show ?thesis using r g t None Some fetcher_Put[OF f1(1) q] tier(1) by (auto simp: FetchCard_def)
    next
      case miss: None
      show ?thesis
      proof (cases "fetch_origin J (http now) k url")
        case (Inl e)
        have "r = Inl e" "f' = ?f" "s' = s1" using r g t None miss Inl by (simp_all add: FetchCard_def)
        then show ?thesis using Inl f1(1) tier(1) by simp
      next
        case (Inr c)
        then have "?Q k c now" using fresh L by simp
        moreover have "r = Inr c" "f' = ?f\<lparr>fe_lruCache := lru_Put now k c (fe_lruCache ?f)\<rparr>" "s' = redis_fill J S now k c ?f s1"
          using r g t None miss Inr by (simp_all add: FetchCard_def)
        ultimately show ?thesis
          using fetcher_Put[OF f1(1) fresh[OF Inr]] redis_fill_inv[OF ok f1(1) tier(1) Inr call] by simp
      qed
    qed
  qed
  then show "fetcher_inv L D rc ?Q f'" "shared_inv J http D rc calls now (view s')"
    "case r of Inl e \<Rightarrow> fetch_origin J (http now) k url = Inl e | Inr c \<Rightarrow> recent J http (L + D) calls now k c now" by blast+
qed

lemma recent_mono: "recent J http age calls now k c e \<Longrightarrow> now \<le> now' \<Longrightarrow> calls \<subseteq> calls' \<Longrightarrow> recent J http age calls' now' k c e"
  unfolding recent_def
proof (elim exE conjE)
  fix t assume now: "now \<le> now'" and calls: "calls \<subseteq> calls'" and t: "stems J http calls k c t" "t \<le> now" "e \<le> t + age"
  have "stems J http calls' k c t" using t(1) calls unfolding stems_def by blast
  then show "\<exists>t. stems J http calls' k c t \<and> t \<le> now' \<and> e \<le> t + age" using t(2,3) now by (intro exI[of _ t]) simp
qed

lemma fetcher_inv_mono: "fetcher_inv L D rc Q f \<Longrightarrow> (\<And>k c e. Q k c e \<Longrightarrow> Q' k c e) \<Longrightarrow> fetcher_inv L D rc Q' f"
  by (fastforce simp: fetcher_inv_def)

definition fetchers_inv where
  "fetchers_inv J http L D rc calls now fs m = ((\<forall>f\<in>set fs. fetcher_inv L D rc (recent J http (L + D) calls now) f) \<and>
     shared_inv J http D rc calls now m)"

lemma fetchers_inv_later:
  assumes "fetchers_inv J http L D rc calls now fs m" "now \<le> now'" "calls \<subseteq> calls'"
  shows "fetchers_inv J http L D rc calls' now' fs m"
proof -
  have "fetcher_inv L D rc (recent J http (L + D) calls' now') f" if "f \<in> set fs" for f
  proof (rule fetcher_inv_mono)
    show "fetcher_inv L D rc (recent J http (L + D) calls now) f" using that assms(1) by (simp add: fetchers_inv_def)
  qed (rule recent_mono[OF _ assms(2,3)])
  moreover have "shared_inv J http D rc calls now m" using assms(1) by (simp add: fetchers_inv_def)
  then have "shared_inv J http D rc calls' now' m" by (rule shared_weaken[OF _ assms(2,3)]) simp
  ultimately show ?thesis by (simp add: fetchers_inv_def)
qed

lemma fetch_step_inv:
  assumes ok: "redis_ok S view num" and L: "0 \<le> L" "0 < D"
    and inv: "fetchers_inv J http L D rc calls now fs (view s)" and later: "now \<le> now'"
    and r: "fetch_step J S http (now', op) (fs, s) = (r, fs', s')"
  shows "fetchers_inv J http L D rc (insert (now', op) calls) now' fs' (view s') \<and> length fs' = length fs"
proof -
  note inv = fetchers_inv_later[OF inv later subset_insertI, of "(now', op)"]
  let ?calls = "insert (now', op) calls"
  have upd: "\<forall>f\<in>set (fs[i := f']). P f" if "\<forall>f\<in>set fs. P f" "P f'" for P i f'
    using that set_update_subset_insert[of fs i f'] by blast
  show ?thesis
  proof (cases op)
    case (F_Fetch i k url key)
    show ?thesis
    proof (cases "i < length fs")
      case True
      obtain r0 f0 s0 where c: "FetchCard J S (http now') now' k url key (fs ! i) s = (r0, f0, s0)"
        by (cases "FetchCard J S (http now') now' k url key (fs ! i) s") auto
      have i: "fetcher_inv L D rc (recent J http (L + D) ?calls now') (fs ! i)" and sh: "shared_inv J http D rc ?calls now' (view s)"
        and fs: "\<forall>f\<in>set fs. fetcher_inv L D rc (recent J http (L + D) ?calls now') f"
        using inv True by (simp_all add: fetchers_inv_def)
      have call: "(now', F_Fetch i k url key) \<in> ?calls" using F_Fetch by simp
      note one = FetchCard_recent[OF ok L i sh call c]
      have "fs' = fs[i := f0]" "s' = s0" using r c True F_Fetch by auto
      then show ?thesis using one(2) upd[of "fetcher_inv L D rc (recent J http (L + D) ?calls now')", OF fs one(1)]
        by (simp add: fetchers_inv_def)
    qed (use r F_Fetch inv in auto)
  next
    case (F_Invalidate i k)
    show ?thesis
    proof (cases "i < length fs")
      case True
      have i: "fetcher_inv L D rc (recent J http (L + D) ?calls now') (fs ! i)" and sh: "shared_inv J http D rc ?calls now' (view s)"
        and fs: "\<forall>f\<in>set fs. fetcher_inv L D rc (recent J http (L + D) ?calls now') f"
        using inv True by (simp_all add: fetchers_inv_def)
      have rc: "fe_redis (fs ! i) = None \<or> fe_redis (fs ! i) = Some rc" using i by (simp add: fetcher_inv_def)
      have s': "s' = s \<or> s' = snd (rs_del S now' (card_key rc k) s)"
        using r True F_Invalidate rc by (auto simp: InvalidateCache_def DeleteAgentCard_def split: option.splits prod.splits sum.splits)
      have "shared_inv J http D rc ?calls now' (view s')"
      proof (rule shared_weaken[OF sh order_refl subset_refl])
        show "view s' t (card_key rc k') = view s t (card_key rc k') \<or> view s' t (card_key rc k') = None" if "now' \<le> t" for t k'
          using s' redis_laws(4)[OF ok, of now' "card_key rc k" s] that by (auto simp: effect_def agree_def view_del_def split: if_splits)
      qed
      moreover have "fs' = fs[i := (fs ! i)\<lparr>fe_lruCache := lru_Remove k (fe_lruCache (fs ! i))\<rparr>]"
        using r True F_Invalidate by (auto simp: InvalidateCache_def)
      ultimately show ?thesis
        using upd[of "fetcher_inv L D rc (recent J http (L + D) ?calls now')", OF fs fetcher_Remove[OF i]] by (simp add: fetchers_inv_def)
    qed (use r F_Invalidate inv in auto)
  qed
qed

lemma fetch_run_inv:
  assumes ok: "redis_ok S view num" and L: "0 \<le> L" "0 < D"
  shows "fetchers_inv J http L D rc calls now fs (view s) \<Longrightarrow> sorted (now # map fst ops) \<Longrightarrow>
    run_ops (fetch_step J S http) ops (fs, s) = (rs, fs', s') \<Longrightarrow>
    \<exists>last\<ge>now. (\<forall>t. sorted (map fst ops @ [t]) \<longrightarrow> now \<le> t \<longrightarrow> last \<le> t) \<and>
      fetchers_inv J http L D rc (calls \<union> set ops) last fs' (view s') \<and> length fs' = length fs"
proof (induction ops arbitrary: calls now fs s rs)
  case (Cons a ops)
  obtain now1 op where a: "a = (now1, op)" by (cases a)
  obtain r fs1 s1 where st: "fetch_step J S http (now1, op) (fs, s) = (r, fs1, s1)" by (cases "fetch_step J S http (now1, op) (fs, s)") auto
  obtain rs1 where run: "run_ops (fetch_step J S http) ops (fs1, s1) = (rs1, fs', s')"
    using Cons.prems(3) st a by (auto simp: Let_def split: prod.splits)
  have le: "now \<le> now1" and so: "sorted (now1 # map fst ops)" using Cons.prems(2) a by simp_all
  have i: "fetchers_inv J http L D rc (insert (now1, op) calls) now1 fs1 (view s1) \<and> length fs1 = length fs"
    by (rule fetch_step_inv[OF ok L Cons.prems(1) le st])
  have u: "insert (now1, op) calls \<union> set ops = calls \<union> set (a # ops)" using a by auto
  obtain last where "last \<ge> now1" "\<forall>t. sorted (map fst ops @ [t]) \<longrightarrow> now1 \<le> t \<longrightarrow> last \<le> t"
    "fetchers_inv J http L D rc (calls \<union> set (a # ops)) last fs' (view s')" "length fs' = length fs1"
    using Cons.IH[OF conjunct1[OF i] so run] unfolding u by blast
  then show ?case using le i a by (intro exI[of _ last]) (auto simp: sorted_append)
qed auto

section \<open>How old a served card can be\<close>

definition fresh_fetcher :: "int \<Rightarrow> int \<Rightarrow> RedisCache \<Rightarrow> 'j Fetcher \<Rightarrow> bool" where
  "fresh_fetcher L D rc f = (lru_abs (fe_lruCache f) = [] \<and> (\<exists>n. lru_inv n (lru_ttl (fe_lruCache f)) (fe_lruCache f)) \<and>
     lru_ttl (fe_lruCache f) \<le> L \<and> 0 < fe_cardTTL f \<and> fe_cardTTL f \<le> D \<and> fe_redis f \<in> {None, Some rc})"

lemma NewFetcher_fresh:
  assumes "seconds ttl \<le> L" "0 \<le> cardTTL" "seconds (if cardTTL = 0 then 3600 else cardTTL) \<le> D" "redis \<in> {None, Some rc}"
  shows "fresh_fetcher L D rc (NewFetcher (NewLRUCache n ttl) redis cardTTL)"
proof -
  have t: "lru_ttl (NewLRUCache n ttl) = seconds ttl" by (simp add: NewLRUCache_def)
  show ?thesis using assms NewLRUCache_inv[of n ttl] by (auto simp: fresh_fetcher_def NewFetcher_def Let_def t)
qed

text \<open>C21: no card is served that is older than the two caches allow. Registries that share a Redis server start with
  empty caches and look up and invalidate cards in any order, with a Redis that may fail at any command. A card
  that a lookup then returns was served by the URL of some lookup of the same entity, under that entity's id or with none,
  no longer ago than the lifetimes of the two caches together (as it was, or as JSON gives it back); and a lookup
  fails only if the entity's own URL fails to serve a card at that moment, never because of Redis.\<close>

theorem served_cards_are_recent:
  assumes ok: "redis_ok S view num" and L: "0 \<le> L" "0 < D"
    and fresh: "\<forall>f\<in>set fs. fresh_fetcher L D rc f" and empty: "\<And>t k. view s t (card_key rc k) = None"
    and times: "sorted (map fst ops @ [now])" and i: "i < length fs"
    and run: "run_ops (fetch_step J S http) ops (fs, s) = (rs, fs', s')"
    and call: "FetchCard J S (http now) now k url key (fs' ! i) s' = (r, f, s'')"
  shows "case r of
      Inl e \<Rightarrow> fetch_origin J (http now) k url = Inl e
    | Inr c \<Rightarrow> \<exists>t j url' key' c0. (t, F_Fetch j k url' key') \<in> set (ops @ [(now, F_Fetch i k url key)]) \<and>
        t \<le> now \<and> now \<le> t + (L + D) \<and> fetch_origin J (http t) k url' = Inr c0 \<and>
        (ec_EntityID c0 = '''' \<or> ec_EntityID c0 = k) \<and>
        (c = c0 \<or> Option.bind (jc_marshal J c0) (jc_unmarshal J) = Some c)"
proof -
  define start where "start = (case ops of [] \<Rightarrow> now | a # _ \<Rightarrow> fst a)"
  have so: "sorted (start # map fst ops)" "start \<le> now" using times by (cases ops; auto simp: start_def sorted_append)+
  have "fetchers_inv J http L D rc {} start fs (view s)"
    using fresh empty by (auto simp: fetchers_inv_def shared_inv_def fetcher_inv_def fresh_fetcher_def)
  from fetch_run_inv[OF ok L this so(1) run] obtain end_t where e: "end_t \<le> now" "length fs' = length fs"
    "fetchers_inv J http L D rc (set ops) end_t fs' (view s')" using times so(2) by auto
  let ?calls = "set (ops @ [(now, F_Fetch i k url key)])"
  have "fetchers_inv J http L D rc ?calls now fs' (view s')" by (rule fetchers_inv_later[OF e(3,1)]) auto
  then have "fetcher_inv L D rc (recent J http (L + D) ?calls now) (fs' ! i)" "shared_inv J http D rc ?calls now (view s')"
    using i e(2) by (simp_all add: fetchers_inv_def)
  from FetchCard_recent(3)[OF ok L this _ call, of i] have *: "case r of Inl e \<Rightarrow> fetch_origin J (http now) k url = Inl e
      | Inr c \<Rightarrow> recent J http (L + D) ?calls now k c now" by simp
  have named: "ec_EntityID c0 = '''' \<or> ec_EntityID c0 = k" if "fetch_origin J h k u = Inr c0" for h u c0
    using that by (auto simp: fetch_origin_def split: sum.splits prod.splits option.splits if_splits)
  show ?thesis
  proof (cases r)
    case (Inr c)
    then have "recent J http (L + D) ?calls now k c now" using * by simp
    then obtain t j url' key' c0 where "(t, F_Fetch j k url' key') \<in> ?calls" "t \<le> now" "now \<le> t + (L + D)"
      "fetch_origin J (http t) k url' = Inr c0" "c = c0 \<or> Option.bind (jc_marshal J c0) (jc_unmarshal J) = Some c"
      unfolding recent_def stems_def by blast
    then show ?thesis unfolding Inr sum.case using named by blast
  qed (use * in simp)
qed

text \<open>After an invalidation that Redis carried out, the next lookup asks the entity.\<close>

lemma invalidated_card_is_refetched:
  assumes ok: "redis_ok S view num" and up: "redis_up S view num" and inv: "lru_inv n ttl (fe_lruCache f)" and "now \<le> now'"
    and i: "InvalidateCache S now k f s = (f', s')"
  shows "fst (FetchCard J S http now' k url key f' s') = fetch_origin J http k url"
proof -
  have f': "f' = f\<lparr>fe_lruCache := lru_Remove k (fe_lruCache f)\<rparr>" using i by (simp add: InvalidateCache_def)
  have l: "lru_inv n ttl (fe_lruCache f')" "lru_abs (fe_lruCache f') = map_del k (lru_abs (fe_lruCache f))"
    using lru_Remove_refines[OF inv, of k] by (simp_all add: f')
  have "map_get k (map_del k (lru_abs (fe_lruCache f))) = None"
    using inv lru_abs_keys[of "fe_lruCache f"] by (simp add: map_get_del lru_inv_def)
  then have "fst (lru_Get now' k (fe_lruCache f')) = None"
    using lru_Get_refines[OF l(1), of now' k] l(2) by (simp add: spec_Get_def)
  moreover have "fst (redis_tier J S now' k (f'\<lparr>fe_lruCache := lru\<rparr>) s') = None" for lru
  proof (cases "fe_redis f")
    case (Some rc)
    have "s' = snd (rs_del S now (card_key rc k) s)"
      using i Some by (auto simp: InvalidateCache_def DeleteAgentCard_def split: prod.splits sum.splits)
    then have "view s' now' (card_key rc k) = None"
      using redis_up_laws(3)[OF ok up assms(4)] by (simp add: view_del_def)
    then have "fst (GetAgentCard J S now' rc k s') = Inr None" by (simp add: GetAgentCard_def get_json_up[OF ok up])
    then show ?thesis using Some by (auto simp: redis_tier_def f' split: prod.splits)
  qed (simp add: redis_tier_def f')
  ultimately show ?thesis
    by (cases "lru_Get now' k (fe_lruCache f')"; cases "redis_tier J S now' k (f'\<lparr>fe_lruCache := snd (lru_Get now' k (fe_lruCache f'))\<rparr>) s'")
      (auto simp: FetchCard_def Let_def split: sum.splits option.splits dest: arg_cong[of _ _ fst])
qed

text \<open>A card survives its entity for almost twice the lifetime: the entity is gone after the first second, a second
  registry finds the card in Redis at the end of the first hour and serves it for another hour.\<close>

definition sample_card :: "unit EntityCard" where
  "sample_card = \<lparr>ec_EntityID = ''zns:1'', ec_SchemaVersion = '''', ec_Version = '''', ec_Status = ''online'', ec_LastHeartbeat = '''',
     ec_Capabilities = [], ec_Pricing = None, ec_Trust = None, ec_Endpoints = None, ec_Metadata = None, ec_Signature = '''', ec_SignedAt = ''''\<rparr>"

definition sample_codec :: "unit EntityCard json_codec" where
  "sample_codec = \<lparr>jc_marshal = (\<lambda>_. Some [7]), jc_unmarshal = (\<lambda>d. if d = [7] then Some sample_card else None)\<rparr>"

definition sample_web :: "int \<Rightarrow> string \<Rightarrow> http_answer" where
  "sample_web now url = (if now < seconds 1 \<and> url = ''http://a/.well-known/agent.json'' then H_response 200 [7] False else H_failed)"

definition sample_rc :: RedisCache where "sample_rc = \<lparr>rc_prefix = ''zns:''\<rparr>"

definition sample_fetchers :: "unit Fetcher list" where
  "sample_fetchers = replicate 2 (NewFetcher (NewLRUCache 10 3600) (Some sample_rc) 3600)"

definition sample_run :: "(fetch_error + unit EntityCard) option list \<times> unit Fetcher list \<times> (string \<Rightarrow> (byte list \<times> int option) option)" where
  "sample_run = run_ops (fetch_step sample_codec toy_redis sample_web)
     [(0, F_Fetch 0 ''zns:1'' ''http://a/'' ''''), (seconds 3599, F_Fetch 1 ''zns:1'' ''http://a/'' '''')] (sample_fetchers, \<lambda>_. None)"

lemma sample_run_stale:
  "fst (FetchCard sample_codec toy_redis (sample_web (seconds 7198)) (seconds 7198) ''zns:1'' ''http://a/'' ''''
     (fst (snd sample_run) ! 1) (snd (snd sample_run))) = Inr sample_card"
  by code_simp

theorem served_cards_are_recent_witness:
  "\<exists>r f s rs fs' s'.
     run_ops (fetch_step sample_codec toy_redis sample_web)
       [(0, F_Fetch 0 ''zns:1'' ''http://a/'' ''''), (seconds 3599, F_Fetch 1 ''zns:1'' ''http://a/'' '''')]
       (sample_fetchers, \<lambda>_. None) = (rs, fs', s') \<and>
     FetchCard sample_codec toy_redis (sample_web (seconds 7198)) (seconds 7198) ''zns:1'' ''http://a/'' '''' (fs' ! 1) s' = (r, f, s) \<and>
     r = Inr sample_card \<and> (\<exists>t url' c0. seconds 7198 \<le> t + seconds 7200 \<and> fetch_origin sample_codec (sample_web t) ''zns:1'' url' = Inr c0)"
proof -
  let ?ops = "[(0, F_Fetch 0 ''zns:1'' ''http://a/'' ''''), (seconds 3599, F_Fetch 1 ''zns:1'' ''http://a/'' '''')]"
  obtain rs fs' s' where run: "run_ops (fetch_step sample_codec toy_redis sample_web) ?ops (sample_fetchers, \<lambda>_. None) = (rs, fs', s')"
    by (cases "run_ops (fetch_step sample_codec toy_redis sample_web) ?ops (sample_fetchers, \<lambda>_. None)") auto
  obtain r f s where call: "FetchCard sample_codec toy_redis (sample_web (seconds 7198)) (seconds 7198) ''zns:1'' ''http://a/'' '''' (fs' ! 1) s' = (r, f, s)"
    by (cases "FetchCard sample_codec toy_redis (sample_web (seconds 7198)) (seconds 7198) ''zns:1'' ''http://a/'' '''' (fs' ! 1) s'") auto
  have fresh: "\<forall>f\<in>set sample_fetchers. fresh_fetcher (seconds 3600) (seconds 3600) sample_rc f"
    by (auto simp: sample_fetchers_def intro!: NewFetcher_fresh)
  have r: "case r of
      Inl e \<Rightarrow> fetch_origin sample_codec (sample_web (seconds 7198)) ''zns:1'' ''http://a/'' = Inl e
    | Inr c \<Rightarrow> \<exists>t j url' key' c0. (t, F_Fetch j ''zns:1'' url' key') \<in> set (?ops @ [(seconds 7198, F_Fetch 1 ''zns:1'' ''http://a/'' '''')]) \<and>
        t \<le> seconds 7198 \<and> seconds 7198 \<le> t + (seconds 3600 + seconds 3600) \<and> fetch_origin sample_codec (sample_web t) ''zns:1'' url' = Inr c0 \<and>
        (ec_EntityID c0 = '''' \<or> ec_EntityID c0 = ''zns:1'') \<and>
        (c = c0 \<or> Option.bind (jc_marshal sample_codec c0) (jc_unmarshal sample_codec) = Some c)"
    using served_cards_are_recent[OF toy_redis_ok _ _ fresh _ _ _ run call] by (simp add: toy_view_def toy_live_def sample_fetchers_def)
  have "sample_run = (rs, fs', s')" using run by (simp only: sample_run_def)
  from sample_run_stale[unfolded this fst_conv snd_conv] have sr: "r = Inr sample_card" unfolding call fst_conv .
  have "\<exists>t url' c0. seconds 7198 \<le> t + seconds 7200 \<and> fetch_origin sample_codec (sample_web t) ''zns:1'' url' = Inr c0"
    using r unfolding sr sum.case by (elim exE conjE) force
  then show ?thesis using run call sr by blast
qed

end
