(* ===== verification/ApiSearch.thy ===== *)
theory ApiSearch
  imports Cli EngineProps CardFetch
begin

text \<open>
  The read endpoints of the API that rest on the search engine, the card fetcher and the configuration
  (\<open>src/internal/api/server.go\<close>): search with its shortcuts for names and handles, forwarding to the registry of a
  name, cards, categories, tags, status and information, and the names of a handle. It also connects the index calls of
  the write handlers with the engine, so that a registration can be followed to the search that finds it.

  \<open>post\<close> is what a POST to a URL yields, \<open>J\<close> is \<open>encoding/json\<close> on the response of another registry, of unknown
  type \<open>'r\<close>, and \<open>M\<close> is \<open>encoding/json\<close> on JSON objects with values of type \<open>'v\<close>, where \<^term>\<open>None\<close> of the decoded
  object is the nil map of a JSON null.
\<close>

section \<open>Responses\<close>

record NetworkStatus =
  ns_RegistryID :: string
  ns_Name :: string
  ns_Version :: string
  ns_Uptime :: string
  ns_PeerCount :: int
  ns_LocalAgents :: int
  ns_GossipEntries :: int
  ns_CachedCards :: int
  ns_NodeType :: string

record DeveloperOnboardingInfo =
  oi_Mode :: string
  oi_AuthURL :: string

record RegistryInfoResponse =
  ir_RegistryID :: string
  ir_Name :: string
  ir_DeveloperOnboarding :: DeveloperOnboardingInfo

text \<open>A search answer is the engine's response, a list of results without statistics, or the response of the registry
  that the request was forwarded to.\<close>

datatype ('card, 'r) read_payload =
    RP_Error string
  | RP_Search "'card SearchResponse"
  | RP_Results "'card SearchResult list" int
  | RP_Forwarded 'r
  | RP_Strings string "string list"
  | RP_Status NetworkStatus
  | RP_Info RegistryInfoResponse
  | RP_Names "ZNSName list"
  | RP_Raw "byte list"

section \<open>Search\<close>

definition gossip_zns_name :: "GossipZNSName \<Rightarrow> ZNSName" where
  "gossip_zns_name g = \<lparr>zn_FQAN = gz_FQAN g, zn_EntityName = gz_EntityName g, zn_DeveloperHandle = gz_DeveloperHandle g,
     zn_RegistryHost = gz_RegistryHost g, zn_EntityID = gz_EntityID g, zn_DeveloperID = '''', zn_CurrentVersion = '''',
     zn_CapabilityTags = [], zn_RegisteredAt = '''', zn_UpdatedAt = '''', zn_Signature = ''''\<rparr>"

definition max_forwarded :: int where "max_forwarded = 256 * 1024"

definition resolveFQANRemote ::
  "env \<Rightarrow> (string \<Rightarrow> byte list \<Rightarrow> http_answer) \<Rightarrow> (byte list \<Rightarrow> 'r option) \<Rightarrow> string \<Rightarrow> ServerConfig \<Rightarrow> 'r option" where
  "resolveFQANRemote v post unmarshal fqan c =
     (case ParseFQAN fqan of
        Inl _ \<Rightarrow> None
      | Inr (registryHost, _, _) \<Rightarrow>
          let myHost = RegistryHost v c
          in if registryHost = myHost \<or> registryHost = '''' then None
             else let body = v_marshal v (JObj [(''fqan'', JStr fqan)]);
                      url = ''https://'' @ registryHost @ ''/v1/search''
                  in case post url body of
                       H_bad_url \<Rightarrow> None
                     | H_failed \<Rightarrow> None
                     | H_response status data breaks \<Rightarrow>
                         if status \<noteq> 200 then None
                         else case read_limited max_forwarded data breaks of None \<Rightarrow> None | Some d \<Rightarrow> unmarshal d)"

definition name_result :: "env \<Rightarrow> ZNSName \<Rightarrow> DB \<Rightarrow> 'card SearchResult" where
  "name_result v name db =
     (let result = \<lparr>res_EntityID = zn_EntityID name, res_Name = '''', res_Summary = '''', res_Category = '''', res_Tags = [],
            res_CapabilitySummary = None, res_HomeRegistry = '''', res_Status = '''', res_DeveloperID = zn_DeveloperID name,
            res_Score = 1, res_ScoreBreakdown = None, res_Card = None, res_FQAN = zn_FQAN name,
            res_DeveloperHandle = zn_DeveloperHandle name, res_EntityType = '''', res_URL = '''', res_OpenAPIURL = '''', res_EntityPricing = None\<rparr>
      in case GetEntity (v_T v) (zn_EntityID name) db of
           Inr (Some agent) \<Rightarrow> result\<lparr>res_Name := rr_Name agent, res_Summary := rr_Summary agent, res_Category := rr_Category agent,
             res_Tags := rr_Tags agent, res_HomeRegistry := rr_HomeRegistry agent, res_Status := rr_Status agent, res_URL := rr_EntityURL agent\<rparr>
         | _ \<Rightarrow> result)"

definition hasFilter :: "SearchRequest \<Rightarrow> bool" where
  "hasFilter req = (sq_Query req \<noteq> '''' \<or> sq_DeveloperID req \<noteq> '''' \<or> sq_DeveloperHandle req \<noteq> '''' \<or> sq_Category req \<noteq> '''' \<or>
     length (sq_Tags req) > 0 \<or> length (sq_Skills req) > 0 \<or> length (sq_Protocols req) > 0 \<or> length (sq_Languages req) > 0 \<or>
     length (sq_Models req) > 0 \<or> sq_EntityType req \<noteq> '''' \<or> sq_Status req \<noteq> '''')"

text \<open>The name of an FQAN in the local store, else in the gossip index; errors of the store count as not found.\<close>

definition lookup_fqan :: "env \<Rightarrow> string \<Rightarrow> DB \<Rightarrow> ZNSName option" where
  "lookup_fqan v fqan db =
     (case found (GetZNSName (v_T v) fqan db) of
        Some name \<Rightarrow> Some name
      | None \<Rightarrow> map_option gossip_zns_name (found (GetGossipZNSName (v_T v) fqan db)))"

text \<open>\<^term>\<open>None\<close> is a panic of the engine.\<close>

definition handleSearch ::
  "env \<Rightarrow> 'card search_env \<Rightarrow> (string \<Rightarrow> byte list \<Rightarrow> http_answer) \<Rightarrow> (byte list \<Rightarrow> 'r option) \<Rightarrow> int \<Rightarrow> SearchRequest option \<Rightarrow> Server \<Rightarrow> Engine \<Rightarrow>
    (nat \<times> ('card, 'r) read_payload) option" where
  "handleSearch v ev post unmarshal now body s e =
     (case body of
        None \<Rightarrow> Some (400, RP_Error ''invalid request body'')
      | Some req \<Rightarrow>
        if sq_FQAN req \<noteq> '''' then
          (case lookup_fqan v (sq_FQAN req) (s_store s) of
             Some name \<Rightarrow> Some (200, RP_Results [name_result v name (s_store s)] 1)
           | None \<Rightarrow> (case resolveFQANRemote v post unmarshal (sq_FQAN req) (s_cfg s) of
                 Some resp \<Rightarrow> Some (200, RP_Forwarded resp)
               | None \<Rightarrow> Some (200, RP_Results [] 0)))
        else
          let resolved = (if sq_DeveloperHandle req \<noteq> '''' \<and> sq_DeveloperID req = '''' then
                            (case found (GetDeveloperByHandle (v_T v) (sq_DeveloperHandle req) (RegistryHost v (s_cfg s)) (s_store s)) of
                               Some dev \<Rightarrow> Some (req\<lparr>sq_DeveloperID := dev_DeveloperID dev\<rparr>)
                             | None \<Rightarrow> None)
                          else Some req)
          in case resolved of
               None \<Rightarrow> Some (200, RP_Results [] 0)
             | Some req \<Rightarrow>
                 if \<not> hasFilter req then Some (400, RP_Error ''search requires at least one filter'')
                 else map_option (\<lambda>resp. (200, RP_Search resp)) (Search ev now (s_store s) req e))"

section \<open>Cards, categories, status\<close>

text \<open>The card of a named entity gets its FQAN; assigning to the nil map of a JSON null panics.\<close>

definition handleGetEntityCard ::
  "env \<Rightarrow> (string \<Rightarrow> http_answer) \<Rightarrow> (string \<times> 'v) list option json_codec \<Rightarrow> (string \<Rightarrow> 'v) \<Rightarrow> string \<Rightarrow> Server \<Rightarrow>
    (nat \<times> ('card, 'r) read_payload) option" where
  "handleGetEntityCard v http M str entityID s =
     (if entityID = '''' then Some (400, RP_Error ''entity_id is required'')
      else case found (GetEntity (v_T v) entityID (s_store s)) of
             None \<Rightarrow> Some (404, RP_Error ''entity not found'')
           | Some agent \<Rightarrow>
               (case FetchCardRaw http entityID (rr_EntityURL agent) of
                  Inl _ \<Rightarrow> Some (502, RP_Error ''failed to fetch agent card'')
                | Inr rawCard \<Rightarrow>
                    (case found (GetZNSNameByAgentID (v_T v) entityID (s_store s)) of
                       None \<Rightarrow> Some (200, RP_Raw rawCard)
                     | Some name \<Rightarrow>
                         (case jc_unmarshal M rawCard of
                            None \<Rightarrow> Some (200, RP_Raw rawCard)
                          | Some None \<Rightarrow> None
                          | Some (Some cardMap) \<Rightarrow>
                              (case jc_marshal M (Some (map_set ''fqan'' (str (zn_FQAN name)) cardMap)) of
                                 None \<Rightarrow> Some (200, RP_Raw rawCard)
                               | Some enriched \<Rightarrow> Some (200, RP_Raw enriched))))))"

definition handleGetCategories :: "(string \<Rightarrow> string \<Rightarrow> bool) \<Rightarrow> Server \<Rightarrow> nat \<times> ('card, 'r) read_payload" where
  "handleGetCategories collate s =
     (case GetAllCategories collate (s_store s) of
        Inl _ \<Rightarrow> (500, RP_Error ''failed to get categories'') | Inr categories \<Rightarrow> (200, RP_Strings ''categories'' categories))"

definition handleGetTags :: "(string \<Rightarrow> string \<Rightarrow> bool) \<Rightarrow> Server \<Rightarrow> nat \<times> ('card, 'r) read_payload" where
  "handleGetTags collate s =
     (case GetAllTags collate (s_store s) of
        Inl _ \<Rightarrow> (500, RP_Error ''failed to get tags'') | Inr tags \<Rightarrow> (200, RP_Strings ''tags'' tags))"

definition handleNetworkStatus ::
  "(int \<Rightarrow> string) \<Rightarrow> int \<Rightarrow> int \<Rightarrow> string \<Rightarrow> string \<Rightarrow> 'j Fetcher \<Rightarrow> Server \<Rightarrow> nat \<times> ('card, 'r) read_payload" where
  "handleNetworkStatus duration now startTime name nodeType f s =
     (200, RP_Status \<lparr>ns_RegistryID = kp_RegistryID (s_nodeIdentity s), ns_Name = name, ns_Version = ''0.1.0'',
        ns_Uptime = duration (now - startTime), ns_PeerCount = int (PeerCount (s_peerManager s)),
        ns_LocalAgents = count_of (CountEntities (s_store s)), ns_GossipEntries = count_of (CountGossipEntries (s_store s)),
        ns_CachedCards = int (CacheSize f), ns_NodeType = nodeType\<rparr>)"

definition handleRegistryInfo :: "string \<Rightarrow> Server \<Rightarrow> nat \<times> ('card, 'r) read_payload" where
  "handleRegistryInfo name s =
     (200, RP_Info \<lparr>ir_RegistryID = kp_RegistryID (s_nodeIdentity s), ir_Name = name,
        ir_DeveloperOnboarding = \<lparr>oi_Mode = c_OnboardingMode (s_cfg s),
          oi_AuthURL = (if c_OnboardingMode (s_cfg s) = ''restricted'' then c_AuthURL (s_cfg s) else '''')\<rparr>\<rparr>)"

definition handleListHandleEntities ::
  "env \<Rightarrow> (string \<Rightarrow> string \<Rightarrow> bool) \<Rightarrow> string \<Rightarrow> Server \<Rightarrow> nat \<times> ('card, 'r) read_payload" where
  "handleListHandleEntities v collate handle s =
     (if handle = '''' then (400, RP_Error ''handle is required'')
      else case ListZNSNamesByDeveloper (v_T v) collate handle (RegistryHost v (s_cfg s)) (s_store s) of
             Inl _ \<Rightarrow> (500, RP_Error ''failed to list entities'') | Inr names \<Rightarrow> (200, RP_Names names))"

section \<open>The search command of the client\<close>

record search_opts =
  so_category :: string
  so_status :: string
  so_maxResults :: int
  so_offset :: int
  so_minTrust :: real

text \<open>\<open>Sscanf_f\<close> is \<open>fmt.Sscanf\<close> with the verb \<open>%f\<close>.\<close>

definition search_flag :: "(string \<Rightarrow> real option) \<Rightarrow> string \<Rightarrow> (string \<Rightarrow> search_opts \<Rightarrow> search_opts) option" where
  "search_flag Sscanf_f a =
     (if a = ''--category'' then Some (\<lambda>b opts. opts\<lparr>so_category := b\<rparr>)
      else if a = ''--min-trust'' then Some (\<lambda>b opts. case Sscanf_f b of None \<Rightarrow> opts | Some x \<Rightarrow> opts\<lparr>so_minTrust := x\<rparr>)
      else if a = ''--status'' then Some (\<lambda>b opts. opts\<lparr>so_status := b\<rparr>)
      else if a = ''--max-results'' then Some (\<lambda>b opts. case Sscanf_d b of None \<Rightarrow> opts | Some n \<Rightarrow> opts\<lparr>so_maxResults := n\<rparr>)
      else if a = ''--offset'' then Some (\<lambda>b opts. case Sscanf_d b of None \<Rightarrow> opts | Some n \<Rightarrow> opts\<lparr>so_offset := n\<rparr>)
      else None)"

text \<open>The request of \<open>search QUERY ...\<close>; \<^term>\<open>None\<close> is the usage message.\<close>

definition cmdSearch :: "(string \<Rightarrow> real option) \<Rightarrow> string list \<Rightarrow> SearchRequest option" where
  "cmdSearch Sscanf_f args =
     (case args of
        [] \<Rightarrow> None
      | query # rest \<Rightarrow>
          let opts = parse_args (search_flag Sscanf_f) (\<lambda>_. None) rest
                \<lparr>so_category = '''', so_status = '''', so_maxResults = 20, so_offset = 0, so_minTrust = 0\<rparr>
          in Some \<lparr>sq_Query = query, sq_Category = so_category opts, sq_Tags = [], sq_Skills = [], sq_Protocols = [], sq_Languages = [],
               sq_Models = [], sq_MinTrustScore = so_minTrust opts, sq_Status = so_status opts, sq_DeveloperID = '''', sq_DeveloperHandle = '''',
               sq_FQAN = '''', sq_EntityType = '''', sq_MaxResults = so_maxResults opts, sq_Offset = so_offset opts, sq_Federated = True,
               sq_Enrich = False, sq_TimeoutMs = 0\<rparr>)"

section \<open>The engine behind the handlers\<close>

text \<open>The write handlers record their calls of the engine; this carries one out.\<close>

fun engine_call :: "'card search_env \<Rightarrow> index_call \<Rightarrow> Engine \<Rightarrow> Engine" where
  "engine_call ev (index_call.IndexAgent r) e = Engine.IndexAgent ev r e"
| "engine_call ev (index_call.RemoveAgent i) e = Engine.RemoveAgent i e"

section \<open>A registered entity is found\<close>

lemma sort_newest:
  assumes "\<And>y. y \<in> set xs \<Longrightarrow> lt x y"
  shows "sort_Slice lt (xs @ [x]) = x # sort_Slice lt xs"
  using assms by (induction xs) simp_all

lemma ListEntities_newest:
  assumes "CreateAgent T now a db = (Inr (), db')" "tf_Parse T (rr_UpdatedAt a) = Some now"
    and "\<forall>r\<in>set (db_entities db). er_updated r < now" and "0 < limit"
  shows "\<exists>agents row. ListEntities T '''' limit 0 db' = Inr (scanAgentRow T row # agents) \<and>
    er_rec row = a\<lparr>rr_SchemaVersion := or_default (rr_SchemaVersion a) CurrentSchemaVersion,
      rr_EntityType := or_default (rr_EntityType a) ''agent'', rr_CapabilitySummary := None, rr_CodebaseHash := '''', rr_Status := ''active''\<rparr>"
proof -
  obtain row where row: "db' = db\<lparr>db_entities := db_entities db @ [row]\<rparr>" "er_updated row = now" "\<not> db_fault db"
    "er_rec row = a\<lparr>rr_SchemaVersion := or_default (rr_SchemaVersion a) CurrentSchemaVersion,
      rr_EntityType := or_default (rr_EntityType a) ''agent'', rr_CapabilitySummary := None, rr_CodebaseHash := '''', rr_Status := ''active''\<rparr>"
    using assms(1,2) unfolding CreateAgent_def pool_Exec_def t_insert_def Let_def
    by (auto split: if_splits option.splits)
  have "sort_Slice newer_entity (db_entities db @ [row]) = row # sort_Slice newer_entity (db_entities db)"
    by (rule sort_newest) (use assms(3) row(2) in \<open>simp add: newer_entity_def\<close>)
  then show ?thesis using row assms(4) by (auto simp: ListEntities_def pool_Query_def page_def take_Cons')
qed

lemma registration_record_fields:
  assumes "registration_record v now req s = Inr rec"
  shows "rr_UpdatedAt rec = tf_Format (v_T v) now" "rr_Name rec = rq_Name req"
  using assms unfolding registration_record_def Let_def
  by (auto simp: entity_record_def NowRFC3339_def split: if_splits option.splits sum.splits)

definition name_query :: "string \<Rightarrow> int \<Rightarrow> SearchRequest" where
  "name_query name n = \<lparr>sq_Query = name, sq_Category = '''', sq_Tags = [], sq_Skills = [], sq_Protocols = [], sq_Languages = [],
     sq_Models = [], sq_MinTrustScore = 0, sq_Status = '''', sq_DeveloperID = '''', sq_DeveloperHandle = '''', sq_FQAN = '''',
     sq_EntityType = '''', sq_MaxResults = n, sq_Offset = 0, sq_Federated = False, sq_Enrich = False, sq_TimeoutMs = 0\<rparr>"

text \<open>What is among the ranked candidates is in the answer, unless it is cut off by the number of results asked for.\<close>

lemma name_query_found:
  assumes "i \<in> set (all_ids ev t (s_store s) (name_query name n) e)" "name \<noteq> ''''" "0 < n"
  shows "\<exists>r. handleSearch v ev post unmarshal t (Some (name_query name n)) s e = Some (200, RP_Search r) \<and>
    (sr_TotalFound r \<le> n \<longrightarrow> i \<in> res_EntityID ` set (sr_Results r))"
proof -
  let ?q = "name_query name n"
  have n: "request_max e ?q = n" using assms(3) by (simp add: request_max_def name_query_def)
  obtain resp where resp: "Search ev t (s_store s) ?q e = Some resp"
    "map res_EntityID (sr_Results resp) = take (nat n) (all_ids ev t (s_store s) ?q e)"
    "sr_TotalFound resp = int (length (all_ids ev t (s_store s) ?q e))"
    using Search_page[of ?q e ev t "s_store s"] n assms(3) by (auto simp: name_query_def)
  have "handleSearch v ev post unmarshal t (Some ?q) s e = Some (200, RP_Search resp)"
    using resp(1) assms(2) by (simp add: handleSearch_def hasFilter_def) (simp add: name_query_def)
  moreover have "i \<in> res_EntityID ` set (sr_Results resp)" if "sr_TotalFound resp \<le> n"
  proof -
    have "map res_EntityID (sr_Results resp) = all_ids ev t (s_store s) ?q e" using resp(2,3) that by simp
    then have "i \<in> set (map res_EntityID (sr_Results resp))" using assms(1) by (simp only:)
    then show ?thesis by simp
  qed
  ultimately show ?thesis by blast
qed


section \<open>Filters that are accepted and not applied\<close>

text \<open>The capability filters, the trust threshold and the status of a request.\<close>

definition with_unused :: "string list \<Rightarrow> string list \<Rightarrow> string list \<Rightarrow> string list \<Rightarrow> real \<Rightarrow> string \<Rightarrow> SearchRequest \<Rightarrow> SearchRequest" where
  "with_unused skills protocols languages mdls minTrust status req =
     req\<lparr>sq_Skills := skills, sq_Protocols := protocols, sq_Languages := languages, sq_Models := mdls,
       sq_MinTrustScore := minTrust, sq_Status := status\<rparr>"

lemma with_unused_sel [simp]:
  "sq_Query (with_unused a b c d m st req) = sq_Query req" "sq_Category (with_unused a b c d m st req) = sq_Category req"
  "sq_Tags (with_unused a b c d m st req) = sq_Tags req" "sq_DeveloperID (with_unused a b c d m st req) = sq_DeveloperID req"
  "sq_EntityType (with_unused a b c d m st req) = sq_EntityType req" "sq_MaxResults (with_unused a b c d m st req) = sq_MaxResults req"
  "sq_Offset (with_unused a b c d m st req) = sq_Offset req" "sq_Enrich (with_unused a b c d m st req) = sq_Enrich req"
  "sq_Federated (with_unused a b c d m st req) = sq_Federated req" "sq_FQAN (with_unused a b c d m st req) = sq_FQAN req"
  "sq_DeveloperHandle (with_unused a b c d m st req) = sq_DeveloperHandle req"
  by (simp_all add: with_unused_def)

lemma gather_unused:
  assumes "\<not> sq_Federated req"
  shows "gather v db (with_unused a b c d m st req) e = gather v db req e"
proof -
  let ?req = "with_unused a b c d m st req"
  have preds: "passes_filters ?req = passes_filters req" "qualifies ?req = qualifies req"
    "gossip_passes ?req = gossip_passes req" "gossip_candidate v ?req e = gossip_candidate v req e"
    by (rule ext, simp add: passes_filters_def qualifies_def gossip_passes_def gossip_candidate_def)+
  have adds: "add_keyword v db ?req x = add_keyword v db req x" "add_semantic v db ?req = add_semantic v db req"
    "add_exact ?req = add_exact req" for x
    by (intro ext, simp only: add_keyword_def add_semantic_def add_exact_def preds with_unused_sel)+
  have "searchLocal v db ?req limit e = searchLocal v db req limit e"
    "searchGossip v db ?req limit e = searchGossip v db req limit e" for limit
    by (simp_all only: searchLocal_def searchGossip_def local_map_def preds adds with_unused_sel)
  moreover have "request_max e ?req = request_max e req" by (simp add: request_max_def)
  ultimately show ?thesis
    using assms by (cases "ev_federated v") (simp_all add: gather_def)
qed

lemma Search_unused:
  assumes "\<not> sq_Federated req"
  shows "Search v now db (with_unused a b c d m st req) e = Search v now db req e"
proof -
  have "ranked_candidates v now (with_unused a b c d m st req) e cs = ranked_candidates v now req e cs" for cs
    by (simp add: ranked_candidates_def)
  moreover have "request_max e (with_unused a b c d m st req) = request_max e req" by (simp add: request_max_def)
  ultimately show ?thesis unfolding Search_def gather_unused[OF assms] with_unused_sel by (simp only:)
qed


text \<open>A search by the handle of a developer returns entities of that developer only. If such a search that names no developer
  id and is not federated is answered with results of the engine, a developer holds the handle on this registry and every result carries
  the id of that developer; if nobody holds the handle the answer is empty.\<close>

theorem handle_search_is_owned:
  assumes "\<not> sq_Federated req" "sq_FQAN req = ''''" "sq_DeveloperHandle req \<noteq> ''''" "sq_DeveloperID req = ''''"
    and "handleSearch v ev post unmarshal now (Some req) s e = Some (status, payload)"
    and "\<And>d. found (GetDeveloperByHandle (v_T v) (sq_DeveloperHandle req) (RegistryHost v (s_cfg s)) (s_store s)) = Some d \<Longrightarrow> dev_DeveloperID d \<noteq> ''''"
  shows "status = 200 \<and>
    (case found (GetDeveloperByHandle (v_T v) (sq_DeveloperHandle req) (RegistryHost v (s_cfg s)) (s_store s)) of
       None \<Rightarrow> payload = RP_Results [] 0
     | Some d \<Rightarrow> \<exists>r. payload = RP_Search r \<and> list_all (\<lambda>x. res_DeveloperID x = dev_DeveloperID d \<and> res_Status x \<noteq> ''inactive'') (sr_Results r))"
proof (cases "found (GetDeveloperByHandle (v_T v) (sq_DeveloperHandle req) (RegistryHost v (s_cfg s)) (s_store s))")
  case None
  then show ?thesis using assms(2-5) by (simp add: handleSearch_def)
next
  case (Some d)
  let ?req = "req\<lparr>sq_DeveloperID := dev_DeveloperID d\<rparr>"
  have "hasFilter ?req" using assms(3) by (simp add: hasFilter_def)
  then obtain r where r: "Search ev now (s_store s) ?req e = Some r" "status = 200" "payload = RP_Search r"
    using Some assms(2-5) by (auto simp: handleSearch_def)
  have "list_all (result_meets ?req) (sr_Results r)" using search_meets[of ?req] r(1) assms(1) by simp
  then show ?thesis using Some r assms(6)[OF Some] by (auto simp: result_meets_def list_all_iff)
qed

section \<open>Concrete searches\<close>



theorem handle_search_is_owned_witness:
  "\<exists>payload. handleSearch ApiHandles.sample_env EngineProps.sample_env (\<lambda>_ _. H_failed) (\<lambda>_. None :: string option) 9
     (Some ((name_query '''' 20)\<lparr>sq_DeveloperHandle := ''acme''\<rparr>)) (sample_server ''open'' empty_db) sample_engine = Some (200, payload) \<and> payload = RP_Results [] 0"
proof -
  let ?req = "(name_query '''' 20)\<lparr>sq_DeveloperHandle := ''acme''\<rparr>"
  have none: "found (GetDeveloperByHandle unix_time ''acme'' ''reg.example'' empty_db) = None"
    by (simp add: found_def GetDeveloperByHandle_def pool_Query_def empty_db_def)
  then have h: "handleSearch ApiHandles.sample_env EngineProps.sample_env (\<lambda>_ _. H_failed) (\<lambda>_. None :: string option) 9 (Some ?req)
      (sample_server ''open'' empty_db) sample_engine = Some (200, RP_Results [] 0)"
    by (simp add: handleSearch_def name_query_def)
  show ?thesis using handle_search_is_owned[OF _ _ _ _ h] none h by (simp add: name_query_def)
qed

end
