(* ===== verification/Embed.thy ===== *)
theory Embed
  imports Keyword Semantic
begin

text \<open>
  The embedding backends (\<open>src/internal/search/embeddings.go\<close>): the registry of factories, its use at startup, and the built-in
  feature-hashing embedder. A panic is \<^term>\<open>None\<close>; \<open>float32\<close> and \<open>float64\<close> are real numbers.
\<close>

section \<open>The registry of backends\<close>

record EmbedderConfig =
  ec_Dimensions :: int
  ec_ModelDir :: string
  ec_ModelName :: string
  ec_Endpoint :: string
  ec_OnnxRuntimePath :: string

text \<open>The fields of \<open>config.SearchConfig\<close> that choose the backend.\<close>

record BackendConfig =
  bc_EmbeddingBackend :: string
  bc_EmbeddingModel :: string
  bc_EmbeddingDimensions :: int
  bc_EmbeddingModelDir :: string
  bc_EmbeddingEndpoint :: string
  bc_OnnxRuntimePath :: string

datatype embed_error = E_no_backend | E_bad_dimensions | E_not_registered | E_factory | E_nil_embedder

text \<open>A factory returns an error (\<^term>\<open>Inl\<close>) or an embedder, which may be nil (\<^term>\<open>None\<close>).\<close>

type_synonym 'e factory = "EmbedderConfig \<Rightarrow> unit + 'e option"

definition RegisterEmbedder :: "string \<Rightarrow> 'e factory \<Rightarrow> (string \<times> 'e factory) list \<Rightarrow> (string \<times> 'e factory) list" where
  "RegisterEmbedder name factory registry = map_set name factory registry"

definition NewEmbedderFromConfig :: "BackendConfig \<Rightarrow> (string \<times> 'e factory) list \<Rightarrow> embed_error + 'e" where
  "NewEmbedderFromConfig cfg registry =
     (if bc_EmbeddingBackend cfg = '''' then Inl E_no_backend
      else if bc_EmbeddingDimensions cfg \<le> 0 then Inl E_bad_dimensions
      else case map_get (bc_EmbeddingBackend cfg) registry of
             None \<Rightarrow> Inl E_not_registered
           | Some factory \<Rightarrow>
               (case factory \<lparr>ec_Dimensions = bc_EmbeddingDimensions cfg, ec_ModelDir = bc_EmbeddingModelDir cfg,
                       ec_ModelName = bc_EmbeddingModel cfg, ec_Endpoint = bc_EmbeddingEndpoint cfg,
                       ec_OnnxRuntimePath = bc_OnnxRuntimePath cfg\<rparr> of
                  Inl _ \<Rightarrow> Inl E_factory
                | Inr None \<Rightarrow> Inl E_nil_embedder
                | Inr (Some embedder) \<Rightarrow> Inr embedder))"

definition ListEmbedders :: "(string list \<Rightarrow> string list) \<Rightarrow> (string \<times> 'e factory) list \<Rightarrow> string list" where
  "ListEmbedders ro registry = ro (map fst registry)"

section \<open>The hashing embedder\<close>

record HashEmbedder =
  he_dims :: nat

definition NewHashEmbedder :: "nat \<Rightarrow> HashEmbedder" where
  "NewHashEmbedder dimensions = \<lparr>he_dims = dimensions\<rparr>"

definition hash_factory :: "HashEmbedder factory" where
  "hash_factory cfg = (if ec_Dimensions cfg \<le> 0 then Inl () else Inr (Some (NewHashEmbedder (nat (ec_Dimensions cfg)))))"

text \<open>One feature: its hash selects the component and the sign.\<close>

definition add_feature :: "real \<Rightarrow> string \<Rightarrow> real list \<Rightarrow> real list" where
  "add_feature weight feature vec =
     (let hash = fnv1a_64 (string_bytes feature);
          idx = unat hash mod length vec;
          sign = (if hash AND 1 = 0 then - weight else weight)
      in vec[idx := vec ! idx + sign])"

definition bigrams :: "string list \<Rightarrow> string list" where
  "bigrams tokens = map (\<lambda>i. tokens ! i @ ''_'' @ tokens ! (i + 1)) [0..<length tokens - 1]"

definition l2_normalize :: "real list \<Rightarrow> real list" where
  "l2_normalize vec = (let mag = sqrt (sq_mag vec) in if mag > 0 then map (\<lambda>x. x / mag) vec else vec)"

definition hash_Embed :: "string \<Rightarrow> HashEmbedder \<Rightarrow> real list option" where
  "hash_Embed text e =
     (let vec = replicate (he_dims e) 0;
          tokens = kw_tokenize (ToLower text)
      in if length tokens = 0 then Some vec
         else if he_dims e = 0 then None
         else Some (l2_normalize (fold (add_feature (1 / 2)) (bigrams tokens) (fold (add_feature 1) tokens vec))))"

definition hash_Dimensions :: "HashEmbedder \<Rightarrow> nat" where
  "hash_Dimensions e = he_dims e"

section \<open>What the vectors are\<close>

lemma length_add_feature [simp]: "length (add_feature w f vec) = length vec"
  by (simp add: add_feature_def Let_def)

lemma length_fold_features [simp]: "length (fold (add_feature w) fs vec) = length vec"
  by (induction fs arbitrary: vec) simp_all

lemma l2_is_normalize: "l2_normalize v = normalize v"
  using sq_mag_nonneg[of v] by (auto simp: l2_normalize_def normalize_def Let_def)

lemma normalize_mag: "sq_mag (normalize v) = 1 \<or> sq_mag (normalize v) = 0"
  using normalize_unit[of v] by (cases "sq_mag v = 0") (auto simp: normalize_def)

lemma cos_self: "sq_mag v \<noteq> 0 \<Longrightarrow> cos_of v v = 1"
proof -
  assume v: "sq_mag v \<noteq> 0"
  then have "sqrt (sq_mag v) * sqrt (sq_mag v) = sq_mag v" using sq_mag_nonneg[of v] by simp
  then show "cos_of v v = 1" using v by (simp add: cos_of_def dot_self)
qed

text \<open>The hashing embedder fits the vector index. For a positive dimension every text has a vector: the embedder
  never indexes outside of it, the vector has exactly that dimension and is a unit vector or zero; so the index
  of that dimension never refuses it, and after any operations on the index, a document stored with the vector of a
  text is found by a search for the same text, with the full score of one, unless the vector is zero.\<close>

theorem hash_vectors_fit_index:
  assumes "0 < dims" and "\<And>xs. mset (ro xs) = mset xs"
  shows "\<exists>v. hash_Embed text (NewHashEmbedder dims) = Some v \<and> length v = dims \<and> (sq_mag v = 1 \<or> sq_mag v = 0) \<and>
    (sq_mag v = 1 \<longrightarrow>
      \<lparr>kr_DocID = did, kr_Score = 1\<rparr> \<in> set (sem_Search ro v 0 (sem_Index did v (fold sem_step ops (NewSemanticIndex dims)))))"
proof -
  let ?tokens = "kw_tokenize (ToLower text)"
  define w where "w = (if length ?tokens = 0 then replicate dims 0
    else l2_normalize (fold (add_feature (1 / 2)) (bigrams ?tokens) (fold (add_feature 1) ?tokens (replicate dims 0))))"
  have e: "hash_Embed text (NewHashEmbedder dims) = Some w"
    using assms(1) by (simp add: hash_Embed_def NewHashEmbedder_def w_def Let_def)
  have len: "length w = dims" by (simp add: w_def l2_is_normalize)
  have mag: "sq_mag w = 1 \<or> sq_mag w = 0"
    using normalize_mag by (auto simp: w_def l2_is_normalize sq_mag_zero)
  have found: "\<lparr>kr_DocID = did, kr_Score = 1\<rparr> \<in> set (sem_Search ro w 0 (sem_Index did w (fold sem_step ops (NewSemanticIndex dims))))"
    if "sq_mag w = 1"
  proof -
    let ?V = "fold (sem_spec dims) ops Map.empty"
    have "sem_rel dims (fold sem_step (ops @ [Sem_Index did w]) (NewSemanticIndex dims)) (fold (sem_spec dims) (ops @ [Sem_Index did w]) Map.empty)"
      by (rule sem_run_rel) (rule sem_New)
    then have r: "sem_rel dims (sem_Index did w (fold sem_step ops (NewSemanticIndex dims))) (?V(did \<mapsto> w))" using len by simp
    have "cos_of w w = 1" using that by (intro cos_self) simp
    then have "\<exists>v. (?V(did \<mapsto> w)) did = Some v \<and> 0 < cos_of w v \<and> cos_of w v = 1" by simp
    then show ?thesis unfolding sem_sims(1)[where ro = ro, OF r assms(2) len] by fastforce
  qed
  then show ?thesis using e len mag by blast
qed

theorem hash_vectors_fit_index_witness:
  "\<exists>v. hash_Embed ''weather'' (NewHashEmbedder 384) = Some v \<and> length v = 384"
  using hash_vectors_fit_index[of 384 "\<lambda>xs. xs" "''weather''"] by auto

text \<open>Startup with the built-in backend.\<close>

lemma hash_backend_starts:
  assumes "bc_EmbeddingBackend cfg = ''hash''" "0 < bc_EmbeddingDimensions cfg"
  shows "NewEmbedderFromConfig cfg (RegisterEmbedder ''hash'' hash_factory registry) = Inr (NewHashEmbedder (nat (bc_EmbeddingDimensions cfg)))"
  using assms by (simp add: NewEmbedderFromConfig_def RegisterEmbedder_def hash_factory_def)

end
