(* ===== verification/Wire.thy ===== *)
theory Wire
  imports Codec
begin

text \<open>
  The framing of the mesh protocol (\<open>src/internal/mesh/protocol.go\<close>): length-prefixed JSON messages over a
  connection, and the two ways in which the transport (\<open>transport.go\<close>) uses a connection from several
  goroutines at once.

  A connection is the bytes that will still arrive before the deadline or the end of the stream, the bytes
  handed to the network so far, and the number of bytes the network still takes before a write fails.
  \<open>J\<close> is \<open>encoding/json\<close> on envelopes.
\<close>

section \<open>Connections\<close>

record net_conn =
  cn_in :: "byte list"
  cn_out :: "byte list"
  cn_quota :: nat

definition conn_Write :: "byte list \<Rightarrow> net_conn \<Rightarrow> bool \<times> net_conn" where
  "conn_Write data c =
     (if length data \<le> cn_quota c then (True, c\<lparr>cn_out := cn_out c @ data, cn_quota := cn_quota c - length data\<rparr>)
      else (False, c\<lparr>cn_out := cn_out c @ take (cn_quota c) data, cn_quota := 0\<rparr>))"

definition ReadFull :: "nat \<Rightarrow> net_conn \<Rightarrow> byte list option \<times> net_conn" where
  "ReadFull n c =
     (if n \<le> length (cn_in c) then (Some (take n (cn_in c)), c\<lparr>cn_in := drop n (cn_in c)\<rparr>)
      else (None, c\<lparr>cn_in := []\<rparr>))"

section \<open>Messages\<close>

definition MsgHello :: string where "MsgHello = ''hello''"
definition MsgHeartbeat :: string where "MsgHeartbeat = ''heartbeat''"
definition MsgGossip :: string where "MsgGossip = ''gossip''"
definition MsgSearch :: string where "MsgSearch = ''search''"
definition MsgSearchAck :: string where "MsgSearchAck = ''search_ack''"
definition MsgDHT :: string where "MsgDHT = ''dht''"

definition maxMessageSize :: nat where "maxMessageSize = 2 ^ 20"

record Envelope =
  env_Type :: string
  env_Payload :: "byte list"

record env_json =
  js_marshal :: "Envelope \<Rightarrow> byte list option"
  js_unmarshal :: "byte list \<Rightarrow> Envelope option"

datatype wire_error = E_marshal | E_too_large | E_write_length | E_write_payload
  | E_read_length | E_read_payload | E_unmarshal

definition writeMessage :: "env_json \<Rightarrow> Envelope \<Rightarrow> net_conn \<Rightarrow> (wire_error + unit) \<times> net_conn" where
  "writeMessage J msg c =
     (case js_marshal J msg of
        None \<Rightarrow> (Inl E_marshal, c)
      | Some data \<Rightarrow>
          if length data > maxMessageSize then (Inl E_too_large, c)
          else let (ok, c) = conn_Write (putUint32 (word_of_nat (length data))) c
               in if \<not> ok then (Inl E_write_length, c)
                  else let (ok, c) = conn_Write data c
                       in if \<not> ok then (Inl E_write_payload, c) else (Inr (), c))"

definition readMessage :: "env_json \<Rightarrow> net_conn \<Rightarrow> (wire_error + Envelope) \<times> net_conn" where
  "readMessage J c =
     (case ReadFull 4 c of
        (None, c) \<Rightarrow> (Inl E_read_length, c)
      | (Some lenBuf, c) \<Rightarrow>
          let msgLen = getUint32 lenBuf
          in if msgLen > word_of_nat maxMessageSize then (Inl E_too_large, c)
             else case ReadFull (unat msgLen) c of
                    (None, c) \<Rightarrow> (Inl E_read_payload, c)
                  | (Some data, c) \<Rightarrow>
                      (case js_unmarshal J data of None \<Rightarrow> (Inl E_unmarshal, c) | Some e \<Rightarrow> (Inr e, c)))"

text \<open>\<open>sendTyped\<close> and \<open>decodePayload\<close>; \<open>marshal\<close> and \<open>unmarshal\<close> are \<open>encoding/json\<close> on the payload type.\<close>

definition sendTyped ::
  "env_json \<Rightarrow> ('p \<Rightarrow> byte list option) \<Rightarrow> string \<Rightarrow> 'p \<Rightarrow> net_conn \<Rightarrow> (wire_error + unit) \<times> net_conn" where
  "sendTyped J marshal msgType payload c =
     (case marshal payload of
        None \<Rightarrow> (Inl E_marshal, c)
      | Some data \<Rightarrow> writeMessage J \<lparr>env_Type = msgType, env_Payload = data\<rparr> c)"

definition decodePayload :: "(byte list \<Rightarrow> 'p option) \<Rightarrow> Envelope \<Rightarrow> 'p option" where
  "decodePayload unmarshal e = unmarshal (env_Payload e)"

section \<open>Frames\<close>

definition frame :: "byte list \<Rightarrow> byte list" where
  "frame data = putUint32 (word_of_nat (length data)) @ data"

definition fits :: "env_json \<Rightarrow> Envelope \<Rightarrow> bool" where
  "fits J msg = (case js_marshal J msg of None \<Rightarrow> False | Some data \<Rightarrow> length data \<le> maxMessageSize)"

definition msg_frame :: "env_json \<Rightarrow> Envelope \<Rightarrow> byte list" where
  "msg_frame J msg = frame (the (js_marshal J msg))"

text \<open>What the code relies on in \<open>encoding/json\<close>: a marshalled envelope unmarshals to itself, and no document
  begins with a byte below the first printable character that is not white space (JSON text begins with
  white space, a digit, a letter, a quote, a minus sign or a bracket).\<close>

definition json_ok :: "env_json \<Rightarrow> bool" where
  "json_ok J = ((\<forall>e d. js_marshal J e = Some d \<longrightarrow> js_unmarshal J d = Some e) \<and> js_unmarshal J [] = None \<and>
     (\<forall>d. js_unmarshal J (0 # d) = None))"

lemma json_okD: "json_ok J \<Longrightarrow> js_marshal J e = Some d \<Longrightarrow> js_unmarshal J d = Some e"
  and json_ok_empty: "json_ok J \<Longrightarrow> js_unmarshal J [] = None"
  and json_ok_nul: "json_ok J \<Longrightarrow> js_unmarshal J (0 # d) = None"
  by (auto simp: json_ok_def)

lemma max_size [simp]: "unat (word_of_nat maxMessageSize :: uint32) = maxMessageSize"
  by (simp add: maxMessageSize_def)

lemma size_word:
  "n \<le> maxMessageSize \<Longrightarrow> unat (word_of_nat n :: uint32) = n"
  by (simp add: unsigned_of_nat take_bit_nat_eq_self maxMessageSize_def)

lemma size_word_ok: "n \<le> maxMessageSize \<Longrightarrow> \<not> word_of_nat maxMessageSize < (word_of_nat n :: uint32)"
  by (simp add: word_less_nat_alt size_word)

lemma ReadFull_append: "ReadFull (length xs) (c\<lparr>cn_in := xs @ ys\<rparr>) = (Some xs, c\<lparr>cn_in := ys\<rparr>)"
  by (simp add: ReadFull_def)

lemma ReadFull_4: "ReadFull 4 (c\<lparr>cn_in := putUint32 w @ ys\<rparr>) = (Some (putUint32 w), c\<lparr>cn_in := ys\<rparr>)"
  using ReadFull_append[of "putUint32 w" ys c] by simp

lemma get_put [simp]: "getUint32 (putUint32 w) = w"
  using getUint32_putUint32[of w "[]"] by simp

text \<open>Reading a stream that begins with a length and at least that many bytes.\<close>

lemma readMessage_split:
  assumes "n \<le> maxMessageSize" "n \<le> length ys"
  shows "readMessage J (c\<lparr>cn_in := putUint32 (word_of_nat n) @ ys\<rparr>) =
    (case js_unmarshal J (take n ys) of None \<Rightarrow> Inl E_unmarshal | Some e \<Rightarrow> Inr e, c\<lparr>cn_in := drop n ys\<rparr>)"
  using assms by (simp add: readMessage_def ReadFull_4 size_word size_word_ok ReadFull_def Let_def split: option.splits)

lemma fits_frame:
  assumes "json_ok J" "fits J msg"
  obtains data where "js_marshal J msg = Some data" "length data \<le> maxMessageSize" "js_unmarshal J data = Some msg"
    "msg_frame J msg = frame data"
  using assms by (auto simp: fits_def msg_frame_def json_okD split: option.splits)

lemma readMessage_frame:
  assumes "json_ok J" "fits J msg"
  shows "readMessage J (c\<lparr>cn_in := msg_frame J msg @ ys\<rparr>) = (Inr msg, c\<lparr>cn_in := ys\<rparr>)"
  using assms by (rule fits_frame) (simp add: frame_def readMessage_split)

lemma writeMessage_frame:
  assumes "json_ok J" "fits J msg" "length (msg_frame J msg) \<le> cn_quota c"
  shows "writeMessage J msg c =
    (Inr (), c\<lparr>cn_out := cn_out c @ msg_frame J msg, cn_quota := cn_quota c - length (msg_frame J msg)\<rparr>)"
  using assms(1,2)
proof (rule fits_frame)
  fix data assume d: "js_marshal J msg = Some data" "length data \<le> maxMessageSize" "msg_frame J msg = frame data"
  then have "4 + length data \<le> cn_quota c" using assms(3) by (simp add: frame_def)
  then show ?thesis using d by (simp add: writeMessage_def conn_Write_def frame_def)
qed

section \<open>Sequences of messages\<close>

text \<open>A stream code: what is put can be taken off the front of a stream, whatever follows.\<close>

locale stream_code =
  fixes put :: "'a \<Rightarrow> 'b list" and get :: "'s \<Rightarrow> 'r \<times> 's" and feed :: "'b list \<Rightarrow> 's" and ok :: "'a \<Rightarrow> bool"
    and got :: "'a \<Rightarrow> 'r"
  assumes get_put_app: "ok x \<Longrightarrow> get (feed (put x @ ys)) = (got x, feed ys)"
begin

lemma get_all:
  "list_all ok xs \<Longrightarrow> run_ops (\<lambda>_. get) xs (feed (concat (map put xs) @ ys)) = (map got xs, feed ys)"
  by (induction xs) (simp_all add: get_put_app)

end

definition wire_fits :: "env_json \<Rightarrow> Envelope \<Rightarrow> bool" where
  "wire_fits J msg = (json_ok J \<and> fits J msg)"

interpretation wire: stream_code "msg_frame J" "readMessage J" "\<lambda>bs. c\<lparr>cn_in := bs\<rparr>" "wire_fits J" Inr
  for J and c :: net_conn
  by unfold_locales (simp add: wire_fits_def readMessage_frame)

lemma write_all:
  assumes "json_ok J"
  shows "list_all (fits J) msgs \<Longrightarrow> length (concat (map (msg_frame J) msgs)) \<le> cn_quota c \<Longrightarrow>
    \<exists>q. run_ops (writeMessage J) msgs c =
      (map (\<lambda>_. Inr ()) msgs, c\<lparr>cn_out := cn_out c @ concat (map (msg_frame J) msgs), cn_quota := q\<rparr>)"
proof (induction msgs arbitrary: c)
  case Nil
  show ?case by (intro exI[of _ "cn_quota c"]) simp
next
  case (Cons m ms)
  let ?c = "c\<lparr>cn_out := cn_out c @ msg_frame J m, cn_quota := cn_quota c - length (msg_frame J m)\<rparr>"
  have w: "writeMessage J m c = (Inr (), ?c)" using Cons.prems assms by (intro writeMessage_frame) simp_all
  obtain q where "run_ops (writeMessage J) ms ?c =
      (map (\<lambda>_. Inr ()) ms, ?c\<lparr>cn_out := cn_out ?c @ concat (map (msg_frame J) ms), cn_quota := q\<rparr>)"
    using Cons.IH[of ?c] Cons.prems by (auto simp: le_diff_conv2 add.commute)
  then show ?case using w by (intro exI[of _ q]) simp
qed


text \<open>A small codec that satisfies the laws: the type in hexadecimal, a separator, the payload.\<close>

definition toy_json :: env_json where
  "toy_json = \<lparr>js_marshal = (\<lambda>e. Some (123 # string_bytes (hex_EncodeToString (string_bytes (env_Type e))) @ 44 # env_Payload e)),
     js_unmarshal = (\<lambda>d. case d of
         b # bs \<Rightarrow> (if b \<noteq> 123 then None else
           (case hex_DecodeString (bytes_string (takeWhile (\<lambda>x. x \<noteq> 44) bs)) of
              None \<Rightarrow> None
            | Some t \<Rightarrow> (case dropWhile (\<lambda>x. x \<noteq> 44) bs of
                [] \<Rightarrow> None | _ # p \<Rightarrow> Some \<lparr>env_Type = bytes_string t, env_Payload = p\<rparr>)))
       | [] \<Rightarrow> None)\<rparr>"

lemma hex_no_comma: "x \<in> set (string_bytes (hex_EncodeToString bs)) \<Longrightarrow> x \<noteq> 44"
proof
  assume x: "x \<in> set (string_bytes (hex_EncodeToString bs))" "x = 44"
  have "44 \<notin> (set (string_bytes ''0123456789abcdef'') :: byte set)" by code_simp
  then show False using x set_hex_encode[of bs] by (auto simp: string_bytes_def)
qed

lemma toy_json_ok: "json_ok toy_json"
proof -
  have "js_unmarshal toy_json d = Some e" if "js_marshal toy_json e = Some d" for e d
  proof -
    let ?h = "string_bytes (hex_EncodeToString (string_bytes (env_Type e)))"
    have tw: "takeWhile (\<lambda>x. x \<noteq> 44) (?h @ 44 # env_Payload e) = ?h" "dropWhile (\<lambda>x. x \<noteq> 44) (?h @ 44 # env_Payload e) = 44 # env_Payload e"
      using hex_no_comma by (simp_all add: takeWhile_append2 dropWhile_append2)
    show ?thesis using that tw by (auto simp: toy_json_def)
  qed
  then show ?thesis by (auto simp: json_ok_def) (simp_all add: toy_json_def)
qed

lemma length_toy: "js_marshal toy_json e = Some d \<Longrightarrow> length d = 2 + 2 * length (env_Type e) + length (env_Payload e)"
  by (auto simp: toy_json_def)


text \<open>What a reader does on any stream: it takes at most the length and one megabyte off it, and it returns an
  envelope only for a complete frame of a document that unmarshals to it.\<close>

lemma readMessage_sound:
  assumes "readMessage J c = (r, c')"
  shows "\<exists>used. cn_in c = used @ cn_in c' \<and> (case r of
      Inr e \<Rightarrow> \<exists>len data. used = len @ data \<and> length len = 4 \<and> length data = unat (getUint32 len) \<and>
        length data \<le> maxMessageSize \<and> js_unmarshal J data = Some e
    | Inl E_read_length \<Rightarrow> length (cn_in c) < 4 \<and> cn_in c' = []
    | Inl E_read_payload \<Rightarrow> length (cn_in c) < 4 + maxMessageSize \<and> cn_in c' = []
    | Inl _ \<Rightarrow> length used \<le> 4 + maxMessageSize)"
proof (cases "4 \<le> length (cn_in c)")
  case False
  then show ?thesis using assms by (auto simp: readMessage_def ReadFull_def)
next
  case True
  define len where "len = take 4 (cn_in c)"
  define rest where "rest = drop 4 (cn_in c)"
  have split: "cn_in c = len @ rest" "length len = 4" using True by (simp_all add: len_def rest_def)
  let ?n = "unat (getUint32 len)"
  show ?thesis
  proof (cases "word_of_nat maxMessageSize < getUint32 len")
    case big: True
    then have "r = Inl E_too_large" "cn_in c' = rest"
      using assms True by (auto simp: readMessage_def ReadFull_def Let_def len_def rest_def)
    then show ?thesis using split by (intro exI[of _ len]) simp
  next
    case small: False
    then have n: "?n \<le> maxMessageSize" by (simp add: not_less word_le_nat_alt)
    show ?thesis
    proof (cases "?n \<le> length rest")
      case False
      then have "r = Inl E_read_payload" "cn_in c' = []"
        using assms True small by (auto simp: readMessage_def ReadFull_def Let_def len_def rest_def)
      then show ?thesis using split n False by (intro exI[of _ "cn_in c"]) simp
    next
      case True
      then have "r = (case js_unmarshal J (take ?n rest) of None \<Rightarrow> Inl E_unmarshal | Some e \<Rightarrow> Inr e)" "cn_in c' = drop ?n rest"
        using assms \<open>4 \<le> length (cn_in c)\<close> small
        by (auto simp: readMessage_def ReadFull_def Let_def len_def rest_def split: option.splits)
      moreover have "cn_in c = (len @ take ?n rest) @ drop ?n rest" using split by simp
      moreover have "length (take ?n rest) = ?n" using True by simp
      ultimately have r: "r = (case js_unmarshal J (take ?n rest) of None \<Rightarrow> Inl E_unmarshal | Some e \<Rightarrow> Inr e)"
        and c: "cn_in c = (len @ take ?n rest) @ cn_in c'" and l: "length (take ?n rest) = ?n" by simp_all
      show ?thesis
      proof (intro exI[of _ "len @ take ?n rest"] conjI, goal_cases)
        case 2
        then show ?case using r l n split(2) by (cases "js_unmarshal J (take ?n rest)") (auto intro: exI[of _ len])
      qed (rule c)
    qed
  qed
qed

section \<open>Two writers\<close>

text \<open>\<open>peerConn.send\<close> holds the connection's lock, \<open>SendDHTRequest\<close> calls \<open>writeMessage\<close> without it. Each
  hands its frame to the network in two writes, so the two frames can be mixed at that granularity.\<close>

definition writes :: "byte list \<Rightarrow> byte list list" where
  "writes data = [putUint32 (word_of_nat (length data)), data]"

lemma shuffles_writes:
  assumes "ws \<in> shuffles [l1, d1] [l2, d2]"
  shows "ws = [l1, d1] @ [l2, d2] \<or> ws = [l2, d2] @ [l1, d1] \<or>
    (\<exists>rest. mset rest = {#d1, d2#} \<and> (ws = l1 # l2 # rest \<or> ws = l2 # l1 # rest))"
proof -
  have all: "shuffles [l1, d1] [l2, d2] =
      {[l1, d1, l2, d2], [l1, l2, d1, d2], [l1, l2, d2, d1], [l2, d2, l1, d1], [l2, l1, d1, d2], [l2, l1, d2, d1]}"
    by (simp only: shuffles.simps image_insert image_empty Un_insert_left Un_empty_left image_Un) blast
  have m: "mset [d1, d2] = {#d1, d2#}" "mset [d2, d1] = {#d1, d2#}" by simp_all
  show ?thesis
    using assms[unfolded all]
    by (elim insertE emptyE) (simp_all only: append.simps m simp_thms, (use m in blast)+)
qed

lemma putUint32_small:
  "n \<le> maxMessageSize \<Longrightarrow> \<exists>t. putUint32 (word_of_nat n) = 0 # t"
  by (simp add: putUint32_def Let_def size_word byte_of_def maxMessageSize_def)

lemma length_then_length_fails:
  assumes "json_ok J" "0 < n" "n \<le> maxMessageSize" "m \<le> maxMessageSize" "n \<le> 4 + length ys"
  shows "fst (readMessage J (c\<lparr>cn_in := putUint32 (word_of_nat n) @ putUint32 (word_of_nat m) @ ys\<rparr>)) = Inl E_unmarshal"
proof -
  let ?ys = "putUint32 (word_of_nat m) @ ys"
  obtain t where t: "putUint32 (word_of_nat m) = 0 # t" using putUint32_small[OF assms(4)] by blast
  obtain k where "n = Suc k" using assms(2) gr0_conv_Suc by blast
  then have "take n ?ys = 0 # take k (t @ ys)" by (simp add: t)
  then have "js_unmarshal J (take n ?ys) = None" using json_ok_nul[OF assms(1)] by simp
  then show ?thesis using readMessage_split[of n ?ys J c] assms(3,5) by simp
qed

lemma length_concat_pair: "mset ws = {#d1, d2#} \<Longrightarrow> length (concat ws) = length d1 + length d2"
proof -
  assume "mset ws = {#d1, d2#}"
  then have "mset (map length ws) = {#length d1, length d2#}" by simp
  then have "sum_mset (mset (map length ws)) = length d1 + length d2" by (simp only: sum_mset.add_mset sum_mset.empty)
  then show ?thesis by (simp only: sum_mset_sum_list length_concat)
qed

text \<open>Writing without the connection's lock can cut a peer off. Of all the ways in which the two writes of a
  DHT request and the two writes of a locked message can be ordered, the peer reads both messages only in the
  two orders in which one frame is complete before the other begins; in every other order its reader fails on the
  first frame, which ends the read loop and the connection.\<close>

theorem unlocked_write_breaks_stream:
  assumes "json_ok J" and "js_marshal J a = Some da" "length da \<le> maxMessageSize"
    and "js_marshal J b = Some db" "length db \<le> maxMessageSize"
    and "ws \<in> shuffles (writes da) (writes db)"
  shows "(if ws = writes da @ writes db then fst (run_ops (\<lambda>_. readMessage J) [a, b] (c\<lparr>cn_in := concat ws\<rparr>)) = [Inr a, Inr b]
     else if ws = writes db @ writes da then fst (run_ops (\<lambda>_. readMessage J) [b, a] (c\<lparr>cn_in := concat ws\<rparr>)) = [Inr b, Inr a]
     else fst (readMessage J (c\<lparr>cn_in := concat ws\<rparr>)) = Inl E_unmarshal)"
proof -
  have pos: "0 < length da" "0 < length db"
    using assms(1,2,4) json_okD json_ok_empty by (metis length_greater_0_conv option.distinct(1))+
  have serial: "fst (run_ops (\<lambda>_. readMessage J) [x, y] (c\<lparr>cn_in := concat (writes dx @ writes dy)\<rparr>)) = [Inr x, Inr y]"
    if "js_marshal J x = Some dx" "length dx \<le> maxMessageSize" "js_marshal J y = Some dy" "length dy \<le> maxMessageSize" for x y dx dy
    using that wire.get_all[of J "[x, y]" "[]" c] assms(1)
    by (simp add: writes_def wire_fits_def fits_def msg_frame_def frame_def del: run_ops.simps)
  have fails: "fst (readMessage J (c\<lparr>cn_in := concat ws\<rparr>)) = Inl E_unmarshal"
    if "ws = putUint32 (word_of_nat (length x)) # putUint32 (word_of_nat (length y)) # rest" "mset rest = {#x, y#}"
      "0 < length x" "length x \<le> maxMessageSize" "length y \<le> maxMessageSize" for x y rest
    using length_then_length_fails[OF assms(1) that(3-5), of "concat rest" c] length_concat_pair[OF that(2)] by (simp add: that(1))
  have nonserial: "fst (readMessage J (c\<lparr>cn_in := concat ws\<rparr>)) = Inl E_unmarshal"
    if ne: "ws \<noteq> writes da @ writes db" "ws \<noteq> writes db @ writes da"
  proof -
    obtain rest where m: "mset rest = {#da, db#}" and "ws = putUint32 (word_of_nat (length da)) # putUint32 (word_of_nat (length db)) # rest \<or>
        ws = putUint32 (word_of_nat (length db)) # putUint32 (word_of_nat (length da)) # rest"
      using shuffles_writes[OF assms(6)[unfolded writes_def]] ne unfolding writes_def by blast
    moreover have "mset rest = {#db, da#}" by (simp add: m add_mset_commute)
    ultimately show ?thesis using fails[OF _ m pos(1) assms(3,5)] fails[OF _ _ pos(2) assms(5,3), of rest] by blast
  qed
  show ?thesis
  proof (cases "ws = writes da @ writes db")
    case True
    then show ?thesis using serial[OF assms(2-5)] by (simp only: if_True simp_thms)
  next
    case False
    then show ?thesis using serial[OF assms(4,5,2,3)] nonserial by (cases "ws = writes db @ writes da") (simp_all only: if_True if_False simp_thms)
  qed
qed

section \<open>Two readers\<close>

text \<open>\<open>SendSearchRequest\<close> reads the answer itself from the connection that the read loop of that peer is reading
  all the time. \<open>readMessage\<close> reads in two steps; between the steps of one goroutine the other may read. An
  acknowledgement that the read loop gets is logged as unexpected and dropped.\<close>

datatype phase = Waiting | Got nat | Done "wire_error + Envelope"

definition read_step :: "env_json \<Rightarrow> phase \<Rightarrow> net_conn \<Rightarrow> phase \<times> net_conn" where
  "read_step J p c = (case p of
       Waiting \<Rightarrow> (case ReadFull 4 c of
           (None, c) \<Rightarrow> (Done (Inl E_read_length), c)
         | (Some lenBuf, c) \<Rightarrow>
             let msgLen = getUint32 lenBuf
             in if msgLen > word_of_nat maxMessageSize then (Done (Inl E_too_large), c) else (Got (unat msgLen), c))
     | Got n \<Rightarrow> (case ReadFull n c of
           (None, c) \<Rightarrow> (Done (Inl E_read_payload), c)
         | (Some data, c) \<Rightarrow>
             (case js_unmarshal J data of None \<Rightarrow> (Done (Inl E_unmarshal), c) | Some e \<Rightarrow> (Done (Inr e), c)))
     | Done r \<Rightarrow> (Done r, c))"

text \<open>Run alone, the two steps are \<open>readMessage\<close>.\<close>

lemma read_steps_readMessage:
  "(let (p, c) = read_step J Waiting c in read_step J p c) = (let (r, c) = readMessage J c in (Done r, c))"
  by (cases "ReadFull 4 c"; cases "fst (ReadFull 4 c)")
    (auto simp: read_step_def readMessage_def Let_def split: option.splits prod.splits)

record readers =
  rd_loop :: phase
  rd_search :: phase
  rd_conn :: net_conn

datatype reader = ReadLoop | SearchCall

fun readers_step :: "env_json \<Rightarrow> reader \<Rightarrow> readers \<Rightarrow> readers" where
  "readers_step J ReadLoop s =
     (let (p, c) = read_step J (rd_loop s) (rd_conn s) in s\<lparr>rd_loop := p, rd_conn := c\<rparr>)"
| "readers_step J SearchCall s =
     (let (p, c) = read_step J (rd_search s) (rd_conn s) in s\<lparr>rd_search := p, rd_conn := c\<rparr>)"

text \<open>After the read loop has taken the length off an acknowledgement, the search call sees either the text of
  the document, whose first four characters are no length below one megabyte, or nothing.\<close>

definition ack_taken :: "env_json \<Rightarrow> byte list \<Rightarrow> readers \<Rightarrow> bool" where
  "ack_taken J data s =
     ((\<exists>t. data = 123 # t) \<and> length data \<le> maxMessageSize \<and>
      (case rd_search s of
         Done r \<Rightarrow> r = Inl E_too_large \<or> r = Inl E_read_length
       | Got _ \<Rightarrow> False
       | Waiting \<Rightarrow>
           rd_loop s = Got (length data) \<and> cn_in (rd_conn s) = data \<or>
           (\<exists>r. rd_loop s = Done r) \<and> cn_in (rd_conn s) = []))"

lemma brace_length: "getUint32 (123 # a # b # c # d) > word_of_nat maxMessageSize"
proof -
  let ?n = "((unat (123 :: byte) * 256 + unat a) * 256 + unat b) * 256 + unat c"
  have e: "?n = 2063597568 + unat a * 65536 + unat b * 256 + unat c" by simp
  have n: "?n < 2 ^ 32" "maxMessageSize < ?n"
    using unat_byte_le[of a] unat_byte_le[of b] unat_byte_le[of c] unfolding e maxMessageSize_def by simp_all
  have "unat (word_of_nat m :: uint32) = m" if "m < 2 ^ 32" for m using that by (simp add: unsigned_of_nat take_bit_nat_eq_self)
  then have "unat (word_of_nat ?n :: uint32) = ?n" using n(1) by blast
  then show ?thesis using n(2) unfolding getUint32_def word_less_nat_alt max_size nth_Cons_0 by simp
qed

lemma search_read_fails:
  assumes "\<exists>t. data = 123 # t" "cn_in c = data \<or> cn_in c = []"
  shows "fst (read_step J Waiting c) = Done (Inl E_too_large) \<or> fst (read_step J Waiting c) = Done (Inl E_read_length)"
proof (cases "4 \<le> length (cn_in c)")
  case True
  then obtain a b e t where "cn_in c = 123 # a # b # e # t"
    using assms by (auto simp: Suc_le_length_iff numeral_eq_Suc)
  then show ?thesis using brace_length[of a b e "[]"] by (simp add: read_step_def ReadFull_def)
qed (simp add: read_step_def ReadFull_def)

lemma loop_finishes:
  "cn_in c = data \<Longrightarrow> \<exists>r c'. read_step J (Got (length data)) c = (Done r, c') \<and> cn_in c' = []"
  by (auto simp: read_step_def ReadFull_def split: option.splits)

lemma ack_taken_step:
  assumes "ack_taken J data s"
  shows "ack_taken J data (readers_step J who s)"
proof (cases who)
  case ReadLoop
  show ?thesis
  proof (cases "rd_search s = Waiting \<and> rd_loop s = Got (length data) \<and> cn_in (rd_conn s) = data")
    case True
    then show ?thesis using assms loop_finishes[of "rd_conn s" data J] ReadLoop by (auto simp: ack_taken_def)
  next
    case False
    then have "(\<exists>r. rd_search s = Done r) \<or> (\<exists>r. rd_loop s = Done r)" using assms by (auto simp: ack_taken_def split: phase.splits)
    then show ?thesis using assms ReadLoop by (auto simp: ack_taken_def read_step_def split: phase.splits prod.splits)
  qed
next
  case SearchCall
  show ?thesis
  proof (cases "rd_search s")
    case Waiting
    then have "fst (read_step J Waiting (rd_conn s)) = Done (Inl E_too_large) \<or> fst (read_step J Waiting (rd_conn s)) = Done (Inl E_read_length)"
      using assms by (intro search_read_fails[of data]) (auto simp: ack_taken_def)
    then show ?thesis using assms SearchCall Waiting by (auto simp: ack_taken_def split: prod.splits)
  qed (use assms SearchCall in \<open>auto simp: ack_taken_def read_step_def\<close>)
qed

interpretation readers: invariant_machine "readers_step J" "ack_taken J data" for J data
  by unfold_locales (rule ack_taken_step)

text \<open>A federated search loses its answer to the read loop. The acknowledgement of a peer, a JSON object of at
  most one megabyte, has arrived and the read loop of the connection, which was waiting in a read before the
  search was sent, takes the next bytes. However the two goroutines then go on reading, the search call
  never gets the acknowledgement: it ends with an error or is still waiting.\<close>

theorem search_ack_lost_to_read_loop:
  assumes "js_marshal J ack = Some data" and "\<exists>t. data = 123 # t" and "length data \<le> maxMessageSize"
    and "s = fold (readers_step J) (ReadLoop # sched)
      \<lparr>rd_loop = Waiting, rd_search = Waiting, rd_conn = \<lparr>cn_in = msg_frame J ack, cn_out = out, cn_quota = q\<rparr>\<rparr>"
  shows "rd_search s = Waiting \<or> rd_search s = Done (Inl E_too_large) \<or> rd_search s = Done (Inl E_read_length)"
proof -
  let ?s0 = "\<lparr>rd_loop = Waiting, rd_search = Waiting, rd_conn = \<lparr>cn_in = msg_frame J ack, cn_out = out, cn_quota = q\<rparr>\<rparr>"
  have "ack_taken J data (readers_step J ReadLoop ?s0)"
    using assms(1-3) by (auto simp: ack_taken_def read_step_def ReadFull_def msg_frame_def frame_def size_word size_word_ok Let_def)
  then have "ack_taken J data s" unfolding assms(4) fold_simps by (rule readers.run_inv)
  then show ?thesis by (auto simp: ack_taken_def split: phase.splits)
qed

text \<open>What happens when it is the search call that reads: the answer arrives. The loss is due to the read loop only.\<close>

lemma search_ack_without_loop:
  assumes "json_ok J" "fits J ack"
  shows "rd_search (fold (readers_step J) [SearchCall, SearchCall]
    \<lparr>rd_loop = Waiting, rd_search = Waiting, rd_conn = c\<lparr>cn_in := msg_frame J ack @ rest\<rparr>\<rparr>) = Done (Inr ack)"
  using read_steps_readMessage[of J "c\<lparr>cn_in := msg_frame J ack @ rest\<rparr>"] readMessage_frame[OF assms, of rest c]
  by (simp add: Let_def split: prod.splits)

definition sample_ack :: Envelope where
  "sample_ack = \<lparr>env_Type = MsgSearchAck, env_Payload = [34, 34]\<rparr>"

lemma sample_ack_json: "\<exists>data. js_marshal toy_json sample_ack = Some data \<and> (\<exists>t. data = 123 # t) \<and> length data \<le> maxMessageSize"
  by (simp add: toy_json_def sample_ack_def maxMessageSize_def MsgSearchAck_def)

theorem search_ack_lost_to_read_loop_witness:
  "\<forall>sched. rd_search (fold (readers_step toy_json) (ReadLoop # sched)
      \<lparr>rd_loop = Waiting, rd_search = Waiting, rd_conn = \<lparr>cn_in = msg_frame toy_json sample_ack, cn_out = [], cn_quota = 0\<rparr>\<rparr>) \<noteq> Done (Inr sample_ack)"
proof
  fix sched
  obtain data where d: "js_marshal toy_json sample_ack = Some data" "\<exists>t. data = 123 # t" "length data \<le> maxMessageSize"
    using sample_ack_json by blast
  show "rd_search (fold (readers_step toy_json) (ReadLoop # sched)
      \<lparr>rd_loop = Waiting, rd_search = Waiting, rd_conn = \<lparr>cn_in = msg_frame toy_json sample_ack, cn_out = [], cn_quota = 0\<rparr>\<rparr>) \<noteq> Done (Inr sample_ack)"
    using search_ack_lost_to_read_loop[OF d refl, of sched "[]" 0] by auto
qed

theorem unlocked_write_breaks_stream_witness:
  "\<exists>da db. js_marshal toy_json \<lparr>env_Type = ''dht'', env_Payload = []\<rparr> = Some da \<and> js_marshal toy_json sample_ack = Some db \<and>
     fst (readMessage toy_json \<lparr>cn_in = concat [hd (writes da), hd (writes db), da, db], cn_out = [], cn_quota = 0\<rparr>) = Inl E_unmarshal"
proof -
  let ?a = "\<lparr>env_Type = ''dht'', env_Payload = []\<rparr>"
  obtain da where a: "js_marshal toy_json ?a = Some da" "length da = 8" using length_toy[of ?a] by (simp add: toy_json_def)
  obtain db where b: "js_marshal toy_json sample_ack = Some db" "length db = 24" using length_toy[of sample_ack]
    by (simp add: toy_json_def sample_ack_def MsgSearchAck_def)
  let ?ws = "[hd (writes da), hd (writes db), da, db]"
  have "?ws \<in> shuffles (writes da) (writes db)" by (simp add: writes_def image_iff)
  moreover have "hd (writes db) \<noteq> da" "hd (writes da) \<noteq> db"
    using a(2) b(2) by (auto simp: writes_def dest: arg_cong[of _ _ length])
  then have "?ws \<noteq> writes da @ writes db" "?ws \<noteq> writes db @ writes da" using a(2) b(2) by (auto simp: writes_def)
  ultimately show ?thesis
    using unlocked_write_breaks_stream[OF toy_json_ok a(1) _ b(1) _, where ws = ?ws and c = "\<lparr>cn_in = [], cn_out = [], cn_quota = 0\<rparr>"] a b
    by (simp add: maxMessageSize_def)
qed

end
