(* ===== verification/Transport.thy ===== *)
theory Transport
  imports Wire Peers Gossip Engine
begin

text \<open>
  The mesh transport (\<open>src/internal/mesh/transport.go\<close>, \<open>heartbeat.go\<close>, \<open>bootstrap.go\<close>): the handshake, the
  table of connections, the dispatch of incoming messages, broadcasts, heartbeats and dialling.

  A connection is a number. Messages handed to a connection are appended to \<open>tr_out\<close>, connections that are closed
  to \<open>tr_closed\<close>, addresses that a goroutine is started for to \<open>tr_dials\<close>, published events to \<open>tr_events\<close>.
  \<^term>\<open>None\<close> is a panic, which ends the process: the read loops have no recover. What is not code of the
  transport is the record \<open>mesh_env\<close>: the time format, the signature scheme and \<open>json.Marshal\<close> on
  announcements for the gossip handler, \<open>json.Unmarshal\<close> on the payload types, whether a send succeeds, whether
  \<open>make\<close> of a slice of the given length succeeds, the order in which a map is ranged over, and the two
  callbacks for searches and DHT messages.
\<close>

section \<open>Messages\<close>

record HelloMessage =
  hm_RegistryID :: string
  hm_Name :: string
  hm_PublicKey :: string
  hm_AgentCount :: int
  hm_Version :: string
  hm_ListenPort :: int
  hm_RegistryHost :: string

record SearchMessage =
  sm_RequestID :: string
  sm_Request :: "SearchRequest option"
  sm_OriginID :: string
  sm_TTL :: int

record 'card SearchAckMessage =
  sa_RequestID :: string
  sa_Results :: "'card SearchResult list"
  sa_Stats :: "SearchStats option"

datatype 'card mesh_payload = OHello HelloMessage | OHeartbeat HeartbeatMessage | OGossip GossipAnnouncement
  | OSearch SearchMessage | OSearchAck "'card SearchAckMessage" | ODHT "byte list"

definition ProtocolVersion :: string where "ProtocolVersion = ''0.1.0''"

section \<open>State\<close>

record peerConn =
  pc_conn :: nat
  pc_registryID :: string
  pc_name :: string
  pc_address :: string

record PeerEventData =
  pe_RegistryID :: string
  pe_Name :: string
  pe_Address :: string

record ('card, 'd) Transport =
  tr_ListenPort :: int
  tr_BootstrapPeers :: "string list"
  tr_nodeName :: string
  tr_peerMgr :: PeerManager
  tr_gossip :: GossipHandler
  tr_kp :: Keypair
  tr_conns :: "(string \<times> peerConn) list"
  tr_dhtPending :: "(string \<times> byte list option) list"
  tr_eventBus :: bool
  tr_dht :: 'd
  tr_out :: "(nat \<times> 'card mesh_payload) list"
  tr_closed :: "nat list"
  tr_dials :: "string list"
  tr_events :: "(string \<times> PeerEventData) list"

record ('card, 'd) mesh_env =
  me_T :: timefmt
  me_E :: ed25519
  me_marshal :: "GossipAnnouncement \<Rightarrow> byte list option"
  me_hello :: "byte list \<Rightarrow> HelloMessage option"
  me_heartbeat :: "byte list \<Rightarrow> HeartbeatMessage option"
  me_gossip :: "byte list \<Rightarrow> GossipAnnouncement option option"
  me_search :: "byte list \<Rightarrow> SearchMessage option"
  me_peek :: "byte list \<Rightarrow> string \<times> string"
  me_send :: "nat \<Rightarrow> 'card mesh_payload \<Rightarrow> bool"
  me_alloc :: "nat \<Rightarrow> bool"
  me_ro :: "string list \<Rightarrow> string list"
  me_onSearch :: "(SearchRequest \<Rightarrow> 'card SearchResponse option option) option"
  me_onDHT :: "(byte list \<Rightarrow> 'd \<Rightarrow> ('d \<times> byte list option) option) option"

definition NewTransport :: "int \<Rightarrow> string list \<Rightarrow> string \<Rightarrow> PeerManager \<Rightarrow> GossipHandler \<Rightarrow> Keypair \<Rightarrow> 'd \<Rightarrow> ('card, 'd) Transport" where
  "NewTransport port bootstrap name pm gh kp d = \<lparr>tr_ListenPort = port, tr_BootstrapPeers = bootstrap, tr_nodeName = name,
     tr_peerMgr = pm, tr_gossip = gh, tr_kp = kp, tr_conns = [], tr_dhtPending = [], tr_eventBus = False, tr_dht = d,
     tr_out = [], tr_closed = [], tr_dials = [], tr_events = []\<rparr>"

definition tr_SetEventBus :: "('card, 'd) Transport \<Rightarrow> ('card, 'd) Transport" where
  "tr_SetEventBus t = t\<lparr>tr_eventBus := True\<rparr>"

text \<open>\<open>peerConn.send\<close> and \<open>sendTyped\<close> on a connection: whether it succeeded, and the state with the message sent.\<close>

definition pc_send :: "('card, 'd) mesh_env \<Rightarrow> nat \<Rightarrow> 'card mesh_payload \<Rightarrow> ('card, 'd) Transport \<Rightarrow> bool \<times> ('card, 'd) Transport" where
  "pc_send v conn payload t =
     (if me_send v conn payload then (True, t\<lparr>tr_out := tr_out t @ [(conn, payload)]\<rparr>) else (False, t))"

definition conn_Close :: "nat \<Rightarrow> ('card, 'd) Transport \<Rightarrow> ('card, 'd) Transport" where
  "conn_Close conn t = t\<lparr>tr_closed := tr_closed t @ [conn]\<rparr>"

section \<open>Addresses\<close>

text \<open>\<open>net.SplitHostPort\<close> (\<^term>\<open>None\<close>: an error) and \<open>%d\<close>.\<close>

definition SplitHostPort :: "string \<Rightarrow> (string \<times> string) option" where
  "SplitHostPort hostport = (case LastIndexByte hostport (CHR '':'') of
       None \<Rightarrow> None
     | Some i \<Rightarrow>
         if hd hostport = CHR ''['' then
           (case IndexByte hostport (CHR '']'') of
              None \<Rightarrow> None
            | Some e \<Rightarrow>
                if e + 1 \<noteq> i then None
                else if CHR ''['' \<in> set (drop 1 hostport) \<or> CHR '']'' \<in> set (drop (e + 1) hostport) then None
                else Some (drop 1 (take e hostport), drop (i + 1) hostport))
         else if CHR '':'' \<in> set (take i hostport) then None
         else if CHR ''['' \<in> set hostport \<or> CHR '']'' \<in> set hostport then None
         else Some (take i hostport, drop (i + 1) hostport))"

fun dec_digits :: "nat \<Rightarrow> string" where
  "dec_digits n = (if n < 10 then [char_of (48 + n)] else dec_digits (n div 10) @ [char_of (48 + n mod 10)])"

declare dec_digits.simps [simp del]

definition fmt_int :: "int \<Rightarrow> string" where
  "fmt_int k = (if k < 0 then CHR ''-'' # dec_digits (nat (- k)) else dec_digits (nat k))"

definition resolvePeerAddr :: "string \<Rightarrow> int \<Rightarrow> string" where
  "resolvePeerAddr remoteAddr listenPort =
     (if listenPort > 0 then
        (case SplitHostPort remoteAddr of
           Some (host, _) \<Rightarrow> host @ '':'' @ fmt_int listenPort
         | None \<Rightarrow> remoteAddr)
      else remoteAddr)"

section \<open>Connections and peers\<close>

definition makeHello :: "('card, 'd) Transport \<Rightarrow> HelloMessage" where
  "makeHello t = \<lparr>hm_RegistryID = kp_RegistryID (tr_kp t), hm_Name = tr_nodeName t, hm_PublicKey = PublicKeyString (tr_kp t),
     hm_AgentCount = (case CountEntities (gh_store (tr_gossip t)) of Inl _ \<Rightarrow> 0 | Inr n \<Rightarrow> int n),
     hm_Version = ProtocolVersion, hm_ListenPort = tr_ListenPort t, hm_RegistryHost = ''''\<rparr>"

definition tr_publish :: "string \<Rightarrow> PeerEventData \<Rightarrow> ('card, 'd) Transport \<Rightarrow> ('card, 'd) Transport" where
  "tr_publish ty d t = (if tr_eventBus t then t\<lparr>tr_events := tr_events t @ [(ty, d)]\<rparr> else t)"

definition registerPeer ::
  "('card, 'd) mesh_env \<Rightarrow> int \<Rightarrow> HelloMessage \<Rightarrow> string \<Rightarrow> nat \<Rightarrow> ('card, 'd) Transport \<Rightarrow> ('card, 'd) Transport" where
  "registerPeer v now hello address conn t =
     (let pc = \<lparr>pc_conn = conn, pc_registryID = hm_RegistryID hello, pc_name = hm_Name hello, pc_address = address\<rparr>;
          t = t\<lparr>tr_conns := map_set (hm_RegistryID hello) pc (tr_conns t)\<rparr>;
          t = t\<lparr>tr_peerMgr := AddPeer (me_T v) (me_ro v (map fst (pm_peers (tr_peerMgr t)))) now
            \<lparr>pi_RegistryID = hm_RegistryID hello, pi_Name = hm_Name hello, pi_Address = address, pi_PublicKey = hm_PublicKey hello,
             pi_AgentCount = hm_AgentCount hello, pi_ConnectedAt = '''', pi_LastSeen = '''', pi_Latency = 0,
             pi_BloomFilter = [], pi_RegistryHost = ''''\<rparr> (tr_peerMgr t)\<rparr>
      in tr_publish ''peer_connected'' \<lparr>pe_RegistryID = hm_RegistryID hello, pe_Name = hm_Name hello, pe_Address = address\<rparr> t)"

definition unregisterPeer :: "string \<Rightarrow> nat \<Rightarrow> ('card, 'd) Transport \<Rightarrow> ('card, 'd) Transport" where
  "unregisterPeer registryID conn t =
     (let t = conn_Close conn t;
          pc = map_get registryID (tr_conns t);
          t = t\<lparr>tr_conns := map_del registryID (tr_conns t), tr_peerMgr := RemovePeer registryID (tr_peerMgr t)\<rparr>
      in tr_publish ''peer_disconnected'' \<lparr>pe_RegistryID = registryID,
           pe_Name = (case pc of None \<Rightarrow> '''' | Some pc \<Rightarrow> pc_name pc),
           pe_Address = (case pc of None \<Rightarrow> '''' | Some pc \<Rightarrow> pc_address pc)\<rparr> t)"

text \<open>The handshake of an incoming connection up to the registration (\<^term>\<open>None\<close>: the connection is not served).\<close>

definition inbound_hello ::
  "('card, 'd) mesh_env \<Rightarrow> nat \<Rightarrow> wire_error + Envelope \<Rightarrow> ('card, 'd) Transport \<Rightarrow> HelloMessage option \<times> ('card, 'd) Transport" where
  "inbound_hello v conn first t = (case first of
       Inl _ \<Rightarrow> (None, t)
     | Inr e \<Rightarrow>
         if env_Type e \<noteq> MsgHello then (None, t)
         else case decodePayload (me_hello v) e of
           None \<Rightarrow> (None, t)
         | Some hello \<Rightarrow>
             if hm_RegistryID hello = kp_RegistryID (tr_kp t) then (None, t)
             else if map_get (hm_RegistryID hello) (tr_conns t) \<noteq> None then (None, snd (pc_send v conn (OHello (makeHello t)) t))
             else let (ok, t) = pc_send v conn (OHello (makeHello t)) t
                  in if \<not> ok then (None, t) else (Some hello, t))"

text \<open>\<open>ConnectTo\<close> up to its return: \<open>dialled\<close> is the new connection, if dialling succeeds, and \<open>reply\<close> what is read
  from it. The read loop it starts in the background follows as separate events.\<close>

datatype connect_error = E_dial | E_send_hello | E_read_hello | E_no_hello | E_decode_hello | E_self

definition ConnectTo ::
  "('card, 'd) mesh_env \<Rightarrow> int \<Rightarrow> string \<Rightarrow> nat option \<Rightarrow> wire_error + Envelope \<Rightarrow> ('card, 'd) Transport \<Rightarrow>
   (connect_error + string) \<times> ('card, 'd) Transport" where
  "ConnectTo v now address dialled reply t = (case dialled of
       None \<Rightarrow> (Inl E_dial, t)
     | Some conn \<Rightarrow>
         let (ok, t) = pc_send v conn (OHello (makeHello t)) t
         in if \<not> ok then (Inl E_send_hello, conn_Close conn t)
            else case reply of
              Inl _ \<Rightarrow> (Inl E_read_hello, conn_Close conn t)
            | Inr e \<Rightarrow>
                if env_Type e \<noteq> MsgHello then (Inl E_no_hello, conn_Close conn t)
                else case decodePayload (me_hello v) e of
                  None \<Rightarrow> (Inl E_decode_hello, conn_Close conn t)
                | Some peerHello \<Rightarrow>
                    if hm_RegistryID peerHello = kp_RegistryID (tr_kp t) then (Inl E_self, conn_Close conn t)
                    else if map_get (hm_RegistryID peerHello) (tr_conns t) \<noteq> None then
                      (Inr (hm_RegistryID peerHello), conn_Close conn t)
                    else (Inr (hm_RegistryID peerHello),
                          registerPeer v now peerHello (resolvePeerAddr address (hm_ListenPort peerHello)) conn t))"

section \<open>Outgoing messages\<close>

definition conns_in_order :: "('card, 'd) mesh_env \<Rightarrow> ('card, 'd) Transport \<Rightarrow> (string \<times> peerConn) list" where
  "conns_in_order v t = List.map_filter (\<lambda>k. map_option (Pair k) (map_get k (tr_conns t))) (me_ro v (map fst (tr_conns t)))"

definition BroadcastExcept ::
  "('card, 'd) mesh_env \<Rightarrow> GossipAnnouncement \<Rightarrow> string \<Rightarrow> ('card, 'd) Transport \<Rightarrow> ('card, 'd) Transport" where
  "BroadcastExcept v ann exceptID t =
     fold (\<lambda>pc t. snd (pc_send v (pc_conn pc) (OGossip ann) t))
       (map snd (filter (\<lambda>(i, _). i \<noteq> exceptID) (conns_in_order v t))) t"

definition Broadcast :: "('card, 'd) mesh_env \<Rightarrow> GossipAnnouncement \<Rightarrow> ('card, 'd) Transport \<Rightarrow> ('card, 'd) Transport" where
  "Broadcast v ann t = BroadcastExcept v ann '''' t"

definition ConnectedPeerCount :: "('card, 'd) Transport \<Rightarrow> nat" where
  "ConnectedPeerCount t = length (tr_conns t)"

definition GetPeerAddresses :: "('card, 'd) mesh_env \<Rightarrow> ('card, 'd) Transport \<Rightarrow> string list" where
  "GetPeerAddresses v t = filter (\<lambda>a. a \<noteq> '''') (map (pc_address \<circ> snd) (conns_in_order v t))"

definition isKnownAddress :: "string \<Rightarrow> ('card, 'd) Transport \<Rightarrow> bool" where
  "isKnownAddress addr t = list_ex (\<lambda>(_, pc). pc_address pc = addr) (tr_conns t)"

definition sendHeartbeats :: "('card, 'd) mesh_env \<Rightarrow> BloomFilter option \<Rightarrow> ('card, 'd) Transport \<Rightarrow> ('card, 'd) Transport" where
  "sendHeartbeats v bloom t =
     (let hb = heartbeat_message (kp_RegistryID (tr_kp t))
            (case CountEntities (gh_store (tr_gossip t)) of Inl _ \<Rightarrow> 0 | Inr n \<Rightarrow> int n) (GetPeerAddresses v t) bloom
      in fold (\<lambda>(_, pc) t. snd (pc_send v (pc_conn pc) (OHeartbeat hb) t)) (conns_in_order v t) t)"

section \<open>Incoming messages\<close>

definition handleHeartbeat_message ::
  "('card, 'd) mesh_env \<Rightarrow> int \<Rightarrow> string \<Rightarrow> Envelope \<Rightarrow> ('card, 'd) Transport \<Rightarrow> ('card, 'd) Transport option" where
  "handleHeartbeat_message v now peerID e t = (case decodePayload (me_heartbeat v) e of
       None \<Rightarrow> Some t
     | Some hb \<Rightarrow>
         if length (hb_BloomFilter hb) > 0 \<and> hb_BloomSize hb > 0 \<and> \<not> me_alloc v (hb_BloomSize hb) then None
         else let t = t\<lparr>tr_peerMgr := handleHeartbeat (me_T v) now peerID hb (tr_peerMgr t)\<rparr>
              in Some (t\<lparr>tr_dials := tr_dials t @ filter (\<lambda>addr. \<not> isKnownAddress addr t) (hb_PeerAddrs hb)\<rparr>))"

definition handleGossipMessage ::
  "('card, 'd) mesh_env \<Rightarrow> int \<Rightarrow> string \<Rightarrow> Envelope \<Rightarrow> ('card, 'd) Transport \<Rightarrow> ('card, 'd) Transport" where
  "handleGossipMessage v now peerID e t = (case decodePayload (me_gossip v) e of
       None \<Rightarrow> t
     | Some None \<Rightarrow> t
     | Some (Some ann) \<Rightarrow>
         let (shouldForward, ann, gh) = HandleAnnouncement (me_E v) (me_marshal v) (me_T v) now ann (tr_gossip t);
             t = t\<lparr>tr_gossip := gh\<rparr>
         in if shouldForward then BroadcastExcept v ann peerID t else t)"

definition handleSearchRequest ::
  "('card, 'd) mesh_env \<Rightarrow> string \<Rightarrow> Envelope \<Rightarrow> ('card, 'd) Transport \<Rightarrow> ('card, 'd) Transport option" where
  "handleSearchRequest v peerID e t = (case decodePayload (me_search v) e of
       None \<Rightarrow> Some t
     | Some sm \<Rightarrow>
         let ack = \<lparr>sa_RequestID = sm_RequestID sm, sa_Results = [], sa_Stats = None\<rparr>;
             answered = (case me_onSearch v of
                 None \<Rightarrow> Some ack
               | Some onSearch \<Rightarrow>
                   (case sm_Request sm of
                      None \<Rightarrow> None
                    | Some req \<Rightarrow>
                        (case onSearch (req\<lparr>sq_Federated := False\<rparr>) of
                           None \<Rightarrow> None
                         | Some None \<Rightarrow> Some ack
                         | Some (Some resp) \<Rightarrow> Some (ack\<lparr>sa_Results := sr_Results resp, sa_Stats := Some (sr_SearchStats resp)\<rparr>))))
         in case answered of
              None \<Rightarrow> None
            | Some ack \<Rightarrow>
                (case map_get peerID (tr_conns t) of
                   None \<Rightarrow> Some t
                 | Some pc \<Rightarrow> Some (snd (pc_send v (pc_conn pc) (OSearchAck ack) t))))"

definition is_dht_reply :: "string \<Rightarrow> bool" where
  "is_dht_reply ty = (ty = ''dht_ping_reply'' \<or> ty = ''dht_store_reply'' \<or> ty = ''dht_find_node_reply'' \<or> ty = ''dht_find_value_reply'')"

definition handleDHTMessage ::
  "('card, 'd) mesh_env \<Rightarrow> string \<Rightarrow> Envelope \<Rightarrow> ('card, 'd) Transport \<Rightarrow> ('card, 'd) Transport option" where
  "handleDHTMessage v peerID e t =
     (let (requestID, ty) = me_peek v (env_Payload e);
          pending = (if is_dht_reply ty \<and> requestID \<noteq> '''' then map_get requestID (tr_dhtPending t) else None)
      in case pending of
           Some ch \<Rightarrow> Some (case ch of
               None \<Rightarrow> t\<lparr>tr_dhtPending := map_set requestID (Some (env_Payload e)) (tr_dhtPending t)\<rparr>
             | Some _ \<Rightarrow> t)
         | None \<Rightarrow>
             (case me_onDHT v of
                None \<Rightarrow> Some t
              | Some onDHT \<Rightarrow>
                  (case onDHT (env_Payload e) (tr_dht t) of
                     None \<Rightarrow> None
                   | Some (d, resp) \<Rightarrow>
                       let t = t\<lparr>tr_dht := d\<rparr>
                       in Some (case (resp, map_get peerID (tr_conns t)) of
                            (Some respBytes, Some pc) \<Rightarrow> snd (pc_send v (pc_conn pc) (ODHT respBytes) t)
                          | _ \<Rightarrow> t))))"

definition dispatch_message ::
  "('card, 'd) mesh_env \<Rightarrow> int \<Rightarrow> string \<Rightarrow> Envelope \<Rightarrow> ('card, 'd) Transport \<Rightarrow> ('card, 'd) Transport option" where
  "dispatch_message v now peerID e t =
     (if env_Type e = MsgHeartbeat then handleHeartbeat_message v now peerID e t
      else if env_Type e = MsgGossip then Some (handleGossipMessage v now peerID e t)
      else if env_Type e = MsgSearch then handleSearchRequest v peerID e t
      else if env_Type e = MsgSearchAck then Some t
      else if env_Type e = MsgDHT then handleDHTMessage v peerID e t
      else Some t)"

text \<open>The read loop on what the connection delivers, with the times of the reads; the first failing read ends it.
  \<open>handleInbound\<close> is the handshake, the registration, the read loop and the removal of the peer.\<close>

fun readLoop ::
  "('card, 'd) mesh_env \<Rightarrow> string \<Rightarrow> (int \<times> (wire_error + Envelope)) list \<Rightarrow> ('card, 'd) Transport \<Rightarrow> ('card, 'd) Transport option" where
  "readLoop v peerID [] t = Some t"
| "readLoop v peerID ((now, Inl err) # reads) t = Some t"
| "readLoop v peerID ((now, Inr e) # reads) t =
     (case dispatch_message v now peerID e t of None \<Rightarrow> None | Some t \<Rightarrow> readLoop v peerID reads t)"

definition handleInbound ::
  "('card, 'd) mesh_env \<Rightarrow> int \<Rightarrow> nat \<Rightarrow> string \<Rightarrow> wire_error + Envelope \<Rightarrow> (int \<times> (wire_error + Envelope)) list \<Rightarrow>
   ('card, 'd) Transport \<Rightarrow> ('card, 'd) Transport option" where
  "handleInbound v now conn remoteAddr first reads t =
     (case inbound_hello v conn first t of
        (None, t) \<Rightarrow> Some (conn_Close conn t)
      | (Some hello, t) \<Rightarrow>
          let t = registerPeer v now hello (resolvePeerAddr remoteAddr (hm_ListenPort hello)) conn t
          in map_option (\<lambda>t. conn_Close conn (unregisterPeer (hm_RegistryID hello) conn t))
               (readLoop v (hm_RegistryID hello) reads t))"

section \<open>DHT requests\<close>

text \<open>\<open>SendDHTRequest\<close> in two steps: up to the send (\<^term>\<open>Inl\<close> with the state after the deferred deletion, when it
  returns an error), and the end of the wait with what the channel holds (\<^term>\<open>None\<close>: the timeout).\<close>

definition dht_request_begin ::
  "('card, 'd) mesh_env \<Rightarrow> string \<Rightarrow> byte list \<Rightarrow> ('card, 'd) Transport \<Rightarrow> ('card, 'd) Transport + ('card, 'd) Transport" where
  "dht_request_begin v peerAddr msgBytes t =
     (let requestID = fst (me_peek v msgBytes);
          t = t\<lparr>tr_dhtPending := map_set requestID None (tr_dhtPending t)\<rparr>;
          give_up = (\<lambda>t. t\<lparr>tr_dhtPending := map_del requestID (tr_dhtPending t)\<rparr>)
      in case filter (\<lambda>(_, pc). pc_address pc = peerAddr) (conns_in_order v t) of
           [] \<Rightarrow> Inl (give_up t)
         | (_, pc) # _ \<Rightarrow>
             let (ok, t) = pc_send v (pc_conn pc) (ODHT msgBytes) t
             in if ok then Inr t else Inl (give_up t))"

definition dht_request_end :: "string \<Rightarrow> ('card, 'd) Transport \<Rightarrow> byte list option \<times> ('card, 'd) Transport" where
  "dht_request_end requestID t =
     (Option.bind (map_get requestID (tr_dhtPending t)) id, t\<lparr>tr_dhtPending := map_del requestID (tr_dhtPending t)\<rparr>)"

section \<open>Dialling the bootstrap peers\<close>

definition second :: int where "second = 1000000000"
definition maxDelay :: int where "maxDelay = 60 * second"

text \<open>The delay after a failed attempt, in nanoseconds. \<open>conv\<close> is the conversion of a float64 to an int64; outside
  the range of int64 its result depends on the implementation.\<close>

definition backoff_delay :: "(real \<Rightarrow> int) \<Rightarrow> nat \<Rightarrow> int" where
  "backoff_delay conv attempt =
     (let delay = conv (real_of_int second * 2 ^ (attempt - 1)) in if delay > maxDelay then maxDelay else delay)"

text \<open>The loop: \<open>results\<close> are the results of the calls of \<open>ConnectTo\<close> until one succeeds or the transport stops; the
  delays it waits, and whether it got connected.\<close>

fun backoff_loop :: "(real \<Rightarrow> int) \<Rightarrow> nat \<Rightarrow> bool list \<Rightarrow> int list \<times> bool" where
  "backoff_loop conv attempt [] = ([], False)"
| "backoff_loop conv attempt (True # _) = ([], True)"
| "backoff_loop conv attempt (False # results) =
     (let (delays, ok) = backoff_loop conv (attempt + 1) results in (backoff_delay conv (attempt + 1) # delays, ok))"

definition connectWithBackoff :: "(real \<Rightarrow> int) \<Rightarrow> bool list \<Rightarrow> int list \<times> bool" where
  "connectWithBackoff conv results = backoff_loop conv 0 results"

text \<open>One tick of \<open>ReconnectLoop\<close>.\<close>

definition reconnect_tick :: "('card, 'd) Transport \<Rightarrow> ('card, 'd) Transport" where
  "reconnect_tick t = t\<lparr>tr_dials := tr_dials t @ filter (\<lambda>addr. \<not> isKnownAddress addr t) (tr_BootstrapPeers t)\<rparr>"

end
