(* ===== verification/TransportProps.thy ===== *)
theory TransportProps
  imports Transport GossipProps
begin

text \<open>
  What the transport promises: the table of connections and the peer manager agree, an announcement is passed on to
  every other peer once, messages can crash the process only in known ways, DHT answers reach their request; and what
  it does not: the registration race, the addresses of IPv6 peers, the backoff beyond 34 attempts.
\<close>

section \<open>Sending changes nothing else\<close>

lemma pc_send_keeps [simp]:
  "tr_conns (snd (pc_send v c p t)) = tr_conns t" "tr_peerMgr (snd (pc_send v c p t)) = tr_peerMgr t"
  "tr_gossip (snd (pc_send v c p t)) = tr_gossip t" "tr_kp (snd (pc_send v c p t)) = tr_kp t"
  "tr_dhtPending (snd (pc_send v c p t)) = tr_dhtPending t" "tr_dht (snd (pc_send v c p t)) = tr_dht t"
  "tr_dials (snd (pc_send v c p t)) = tr_dials t"
  by (simp_all add: pc_send_def)

lemma pc_send_out: "tr_out (snd (pc_send v c p t)) = tr_out t @ (if me_send v c p then [(c, p)] else [])"
  by (simp add: pc_send_def)

lemma fold_send_keeps:
  "tr_conns (fold (\<lambda>x t. snd (pc_send v (f x) (g x) t)) pcs t) = tr_conns t"
  "tr_peerMgr (fold (\<lambda>x t. snd (pc_send v (f x) (g x) t)) pcs t) = tr_peerMgr t"
  "tr_gossip (fold (\<lambda>x t. snd (pc_send v (f x) (g x) t)) pcs t) = tr_gossip t"
  "tr_kp (fold (\<lambda>x t. snd (pc_send v (f x) (g x) t)) pcs t) = tr_kp t"
  "tr_out (fold (\<lambda>x t. snd (pc_send v (f x) (g x) t)) pcs t) =
     tr_out t @ map (\<lambda>x. (f x, g x)) (filter (\<lambda>x. me_send v (f x) (g x)) pcs)"
  by (induction pcs arbitrary: t) (simp_all add: pc_send_out)

lemma BroadcastExcept_keeps [simp]:
  "tr_conns (BroadcastExcept v ann x t) = tr_conns t" "tr_peerMgr (BroadcastExcept v ann x t) = tr_peerMgr t"
  "tr_gossip (BroadcastExcept v ann x t) = tr_gossip t" "tr_kp (BroadcastExcept v ann x t) = tr_kp t"
  by (simp_all add: BroadcastExcept_def fold_send_keeps)

lemma sendHeartbeats_keeps [simp]:
  "tr_conns (sendHeartbeats v bloom t) = tr_conns t" "tr_peerMgr (sendHeartbeats v bloom t) = tr_peerMgr t"
  "tr_gossip (sendHeartbeats v bloom t) = tr_gossip t" "tr_kp (sendHeartbeats v bloom t) = tr_kp t"
  by (simp_all add: sendHeartbeats_def Let_def split_def fold_send_keeps)

section \<open>Connections and peers agree\<close>

text \<open>What happens to a transport: incoming and outgoing connections, messages on the connection of a peer, the end of a
  connection, ticks, local announcements and DHT requests.\<close>

datatype mesh_event =
    Accept int nat string "wire_error + Envelope"
  | Dial int string "nat option" "wire_error + Envelope"
  | Deliver int string Envelope
  | Hangup string nat
  | HeartbeatTick "BloomFilter option"
  | ReconnectTick
  | Announce GossipAnnouncement
  | DhtBegin string "byte list"
  | DhtEnd string

fun mesh_step :: "('card, 'd) mesh_env \<Rightarrow> mesh_event \<Rightarrow> ('card, 'd) Transport \<Rightarrow> ('card, 'd) Transport option" where
  "mesh_step v (Accept now conn remoteAddr first) t =
     (case inbound_hello v conn first t of
        (None, t) \<Rightarrow> Some (conn_Close conn t)
      | (Some hello, t) \<Rightarrow> Some (registerPeer v now hello (resolvePeerAddr remoteAddr (hm_ListenPort hello)) conn t))"
| "mesh_step v (Dial now address dialled reply) t = Some (snd (ConnectTo v now address dialled reply t))"
| "mesh_step v (Deliver now peerID e) t = dispatch_message v now peerID e t"
| "mesh_step v (Hangup peerID conn) t = Some (unregisterPeer peerID conn t)"
| "mesh_step v (HeartbeatTick bloom) t = Some (sendHeartbeats v bloom t)"
| "mesh_step v ReconnectTick t = Some (reconnect_tick t)"
| "mesh_step v (Announce ann) t = Some (Broadcast v ann t)"
| "mesh_step v (DhtBegin addr raw) t = Some (case dht_request_begin v addr raw t of Inl t \<Rightarrow> t | Inr t \<Rightarrow> t)"
| "mesh_step v (DhtEnd rid) t = Some (snd (dht_request_end rid t))"

fun mesh_run :: "('card, 'd) mesh_env \<Rightarrow> mesh_event list \<Rightarrow> ('card, 'd) Transport \<Rightarrow> ('card, 'd) Transport option" where
  "mesh_run v [] t = Some t"
| "mesh_run v (ev # evs) t = (case mesh_step v ev t of None \<Rightarrow> None | Some t \<Rightarrow> mesh_run v evs t)"

text \<open>\<open>handleInbound\<close> is such a run.\<close>

lemma readLoop_run: "readLoop v peerID (map (\<lambda>(now, e). (now, Inr e)) msgs) t = mesh_run v (map (\<lambda>(now, e). Deliver now peerID e) msgs) t"
  by (induction msgs arbitrary: t) (auto split: option.splits)

lemma handleInbound_run:
  assumes "inbound_hello v conn first t = (Some hello, t1)"
    and "mesh_run v (Accept now conn remoteAddr first # map (\<lambda>(now, e). Deliver now (hm_RegistryID hello) e) msgs @
      [Hangup (hm_RegistryID hello) conn]) t = Some t'"
  shows "handleInbound v now conn remoteAddr first (map (\<lambda>(now, e). (now, Inr e)) msgs) t = Some (conn_Close conn t')"
proof -
  have app: "mesh_run v (evs @ [ev]) t = (case mesh_run v evs t of None \<Rightarrow> None | Some t \<Rightarrow> mesh_step v ev t)" for evs ev t
    by (induction evs arbitrary: t) (auto split: option.splits)
  show ?thesis
    using assms by (auto simp: handleInbound_def Let_def readLoop_run app split: option.splits)
qed

definition tr_inv :: "('card, 'd) Transport \<Rightarrow> bool" where
  "tr_inv t = (keys_distinct fst (tr_conns t) \<and> keys_distinct fst (pm_peers (tr_peerMgr t)) \<and>
     (\<forall>k pc. map_get k (tr_conns t) = Some pc \<longrightarrow> pc_registryID pc = k \<and> k \<noteq> kp_RegistryID (tr_kp t)) \<and>
     (\<forall>k p. map_get k (pm_peers (tr_peerMgr t)) = Some p \<longrightarrow>
        pi_RegistryID p = k \<and> (\<exists>pc. map_get k (tr_conns t) = Some pc \<and> pi_Address p = pc_address pc)))"

text \<open>The invariant looks at three fields only.\<close>

lemma tr_inv_cong:
  "tr_conns t' = tr_conns t \<Longrightarrow> tr_peerMgr t' = tr_peerMgr t \<Longrightarrow> tr_kp t' = tr_kp t \<Longrightarrow> tr_inv t' = tr_inv t"
  by (simp add: tr_inv_def)

lemma tr_inv_updates [simp]:
  "tr_inv (t\<lparr>tr_out := a\<rparr>) = tr_inv t" "tr_inv (t\<lparr>tr_closed := b\<rparr>) = tr_inv t" "tr_inv (t\<lparr>tr_dials := c\<rparr>) = tr_inv t"
  "tr_inv (t\<lparr>tr_events := d\<rparr>) = tr_inv t" "tr_inv (t\<lparr>tr_dhtPending := e\<rparr>) = tr_inv t" "tr_inv (t\<lparr>tr_dht := f\<rparr>) = tr_inv t"
  "tr_inv (t\<lparr>tr_gossip := g\<rparr>) = tr_inv t" "tr_inv (conn_Close k t) = tr_inv t"
  "tr_inv (snd (pc_send v n p t)) = tr_inv t" "tr_inv (BroadcastExcept v ann x t) = tr_inv t"
  "tr_inv (sendHeartbeats v bloom t) = tr_inv t"
  by (rule tr_inv_cong; simp add: conn_Close_def)+

lemma evictOldest_peers:
  "keys_distinct fst (pm_peers pm) \<Longrightarrow> keys_distinct fst (pm_peers (evictOldest T order pm)) \<and>
     (map_get k (pm_peers (evictOldest T order pm)) = Some p \<longrightarrow> map_get k (pm_peers pm) = Some p)"
  by (auto simp: evictOldest_def Let_def keys_distinct_map_ops map_get_del)

lemma AddPeer_peers:
  assumes "keys_distinct fst (pm_peers pm)"
  shows "keys_distinct fst (pm_peers (AddPeer T order now peer pm))"
    "map_get k (pm_peers (AddPeer T order now peer pm)) = Some p \<Longrightarrow>
       (if k = pi_RegistryID peer then pi_RegistryID p = k \<and> pi_Address p = pi_Address peer else map_get k (pm_peers pm) = Some p)"
  using assms evictOldest_peers[OF assms, of T order k p]
  by (auto simp: AddPeer_def Let_def keys_distinct_map_ops split: if_splits)

lemma registerPeer_inv:
  assumes "tr_inv t" "hm_RegistryID hello \<noteq> kp_RegistryID (tr_kp t)"
  shows "tr_inv (registerPeer v now hello address conn t)"
proof -
  have d: "keys_distinct fst (pm_peers (tr_peerMgr t))" using assms(1) by (simp add: tr_inv_def)
  let ?p = "\<lparr>pi_RegistryID = hm_RegistryID hello, pi_Name = hm_Name hello, pi_Address = address, pi_PublicKey = hm_PublicKey hello,
             pi_AgentCount = hm_AgentCount hello, pi_ConnectedAt = '''', pi_LastSeen = '''', pi_Latency = 0,
             pi_BloomFilter = [], pi_RegistryHost = ''''\<rparr>"
  let ?pm = "AddPeer (me_T v) (me_ro v (map fst (pm_peers (tr_peerMgr t)))) now ?p (tr_peerMgr t)"
  have peers: "pi_RegistryID p = k \<and> (if k = hm_RegistryID hello then pi_Address p = address
      else map_get k (pm_peers (tr_peerMgr t)) = Some p)" if "map_get k (pm_peers ?pm) = Some p" for k p
    using AddPeer_peers(2)[OF d that] assms(1) by (auto simp: tr_inv_def split: if_splits)
  show ?thesis
    using assms AddPeer_peers(1)[OF d] peers
    by (simp add: registerPeer_def Let_def tr_publish_def tr_inv_def keys_distinct_map_ops)
qed

lemma unregisterPeer_inv:
  assumes "tr_inv t"
  shows "tr_inv (unregisterPeer registryID conn t)"
  using assms
  by (auto simp: unregisterPeer_def Let_def tr_publish_def conn_Close_def tr_inv_def RemovePeer_def keys_distinct_map_ops map_get_del)

lemma inbound_hello_inv:
  assumes "tr_inv t" "inbound_hello v conn first t = (r, t')"
  shows "tr_inv t' \<and> (case r of None \<Rightarrow> True | Some hello \<Rightarrow> hm_RegistryID hello \<noteq> kp_RegistryID (tr_kp t') \<and>
    map_get (hm_RegistryID hello) (tr_conns t') = None)"
  using assms
  by (auto simp: inbound_hello_def pc_send_def split: sum.splits if_splits option.splits)

lemma ConnectTo_inv: "tr_inv t \<Longrightarrow> tr_inv (snd (ConnectTo v now address dialled reply t))"
proof -
  assume "tr_inv t"
  then show ?thesis
    by (auto simp: ConnectTo_def Let_def split_beta registerPeer_inv split: option.splits sum.splits)
qed

lemma handleHeartbeat_peers:
  assumes "keys_distinct fst (pm_peers pm)"
  shows "keys_distinct fst (pm_peers (handleHeartbeat T now k hb pm))"
    "map_get i (pm_peers (handleHeartbeat T now k hb pm)) = Some p \<Longrightarrow>
       \<exists>q. map_get i (pm_peers pm) = Some q \<and> pi_RegistryID p = pi_RegistryID q \<and> pi_Address p = pi_Address q"
  using assms
  by (auto simp: handleHeartbeat_def Let_def SetPeerBloomFilter_def UpdatePeerLastSeen_def keys_distinct_map_ops
      split: option.splits if_splits)

lemma tr_inv_peers:
  assumes "tr_inv t" "keys_distinct fst (pm_peers pm)"
    and "\<And>i p. map_get i (pm_peers pm) = Some p \<Longrightarrow>
      \<exists>q. map_get i (pm_peers (tr_peerMgr t)) = Some q \<and> pi_RegistryID p = pi_RegistryID q \<and> pi_Address p = pi_Address q"
  shows "tr_inv (t\<lparr>tr_peerMgr := pm\<rparr>)"
  using assms(1,2) assms(3) unfolding tr_inv_def by simp metis

lemma dispatch_inv:
  assumes inv: "tr_inv t" and "dispatch_message v now peerID e t = Some t'"
  shows "tr_inv t'"
proof -
  have hb: "tr_inv t'" if "handleHeartbeat_message v now peerID e t = Some t'"
  proof (cases "decodePayload (me_heartbeat v) e")
    case (Some hb)
    let ?t = "t\<lparr>tr_peerMgr := handleHeartbeat (me_T v) now peerID hb (tr_peerMgr t)\<rparr>"
    have "tr_inv ?t" using inv handleHeartbeat_peers by (intro tr_inv_peers) (auto simp: tr_inv_def)
    then show ?thesis using that Some by (auto simp: handleHeartbeat_message_def Let_def split: if_splits)
  qed (use that inv in \<open>simp add: handleHeartbeat_message_def\<close>)
  have gossip: "tr_inv (handleGossipMessage v now peerID e t)"
    using inv by (auto simp: handleGossipMessage_def Let_def split_beta split: option.splits)
  have search: "tr_inv t'" if "handleSearchRequest v peerID e t = Some t'"
    using that inv by (auto simp: handleSearchRequest_def Let_def split: option.splits)
  have dht: "tr_inv t'" if "handleDHTMessage v peerID e t = Some t'"
    using that inv by (auto simp: handleDHTMessage_def Let_def split_beta split: option.splits if_splits)
  show ?thesis
    using assms(2) inv hb gossip search dht by (auto simp: dispatch_message_def split: if_splits)
qed

lemma dht_begin_inv: "tr_inv t \<Longrightarrow> tr_inv (case dht_request_begin v addr raw t of Inl t \<Rightarrow> t | Inr t \<Rightarrow> t)"
  by (auto simp: dht_request_begin_def Let_def split_beta split: list.splits sum.splits)

lemma mesh_step_inv:
  assumes "tr_inv t" "mesh_step v ev t = Some t'"
  shows "tr_inv t'"
proof (cases ev)
  case (Accept now conn remoteAddr first)
  obtain r t1 where h: "inbound_hello v conn first t = (r, t1)" by (cases "inbound_hello v conn first t")
  then show ?thesis
    using inbound_hello_inv[OF assms(1) h] assms(2) Accept registerPeer_inv
    by (auto simp: conn_Close_def split: option.splits)
next
  case (Deliver now peerID e)
  then show ?thesis using assms dispatch_inv by simp
qed (use assms in \<open>auto simp: ConnectTo_inv unregisterPeer_inv dht_begin_inv reconnect_tick_def
      Broadcast_def dht_request_end_def\<close>)

lemma mesh_run_inv: "tr_inv t \<Longrightarrow> mesh_run v evs t = Some t' \<Longrightarrow> tr_inv t'"
  by (induction evs arbitrary: t) (auto split: option.splits intro: mesh_step_inv)

lemma NewTransport_inv: "tr_inv (NewTransport port bootstrap name (NewPeerManager n) gh kp d)"
  by (simp add: tr_inv_def NewTransport_def NewPeerManager_def keys_distinct_def map_get_def)


section \<open>Gossip\<close>

lemma handled_decision:
  "HandleAnnouncement E marshal T now ann gh = (True, ann', gh') \<Longrightarrow>
     ann' = ann\<lparr>ga_HopCount := ga_HopCount ann + 1\<rparr> \<and> gh_seen gh' (dedupKey ann) = Some now"
  by (erule Handle_cases) (auto dest: dispatch_keeps)

lemma mset_conns_in_order:
  assumes "keys_distinct fst (tr_conns t)" "mset (me_ro v (map fst (tr_conns t))) = mset (map fst (tr_conns t))"
  shows "mset (conns_in_order v t) = mset (tr_conns t)"
proof -
  let ?m = "tr_conns t" and ?ks = "me_ro v (map fst (tr_conns t))"
  let ?g = "\<lambda>k. (k, the (map_get k ?m))"
  have "map_get k ?m \<noteq> None" if "k \<in> set ?ks" for k
    using that mset_eq_setD[OF assms(2)] map_get_keys[of k ?m] by simp
  moreover have "List.map_filter (\<lambda>k. map_option (Pair k) (map_get k ?m)) ks = map ?g ks" if "\<And>k. k \<in> set ks \<Longrightarrow> map_get k ?m \<noteq> None" for ks
    using that
  proof (induction ks)
    case (Cons k ks)
    then obtain pc where "map_get k ?m = Some pc" by auto
    then show ?case using Cons by (simp add: map_filter_simps)
  qed (simp add: map_filter_simps)
  ultimately have "conns_in_order v t = map ?g ?ks" unfolding conns_in_order_def by blast
  moreover have "mset (map ?g ?ks) = mset (map ?g (map fst ?m))" by (simp only: mset_map assms(2))
  moreover have "map ?g (map fst ?m) = map (\<lambda>kv. kv) ?m"
    unfolding map_map by (rule map_cong) (use map_get_unique[OF assms(1)] in \<open>auto simp: comp_def\<close>)
  ultimately show ?thesis by (simp only: list.map_ident)
qed

lemma BroadcastExcept_out:
  "tr_out (BroadcastExcept v ann x t) = tr_out t @ map (\<lambda>kp. (pc_conn (snd kp), OGossip ann))
     (filter (\<lambda>kp. fst kp \<noteq> x \<and> me_send v (pc_conn (snd kp)) (OGossip ann)) (conns_in_order v t))"
  by (simp add: BroadcastExcept_def fold_send_keeps filter_map comp_def split_def conj_commute)

text \<open>C7: an announcement is passed on to every other peer, once. When a message of a peer carries an announcement that
  the gossip handler accepts, the messages sent in reaction to it are exactly one copy, with the hop count increased,
  for every connected peer but the one it came from and whose connection takes it, in some order; and when the
  same announcement is delivered again, by whatever peer and at whatever later time (the dedup window not having been
  cleaned in between), nothing is sent and nothing changes.\<close>

theorem gossip_flooded_once:
  assumes "tr_inv t" and "mset (me_ro v (map fst (tr_conns t))) = mset (map fst (tr_conns t))"
    and "decodePayload (me_gossip v) e = Some (Some ann)"
    and "HandleAnnouncement (me_E v) (me_marshal v) (me_T v) now ann (tr_gossip t) = (True, ann', gh)"
    and "t' = handleGossipMessage v now peerID e t"
  shows "ann' = ann\<lparr>ga_HopCount := ga_HopCount ann + 1\<rparr> \<and>
    (\<exists>sent. tr_out t' = tr_out t @ sent \<and>
       mset sent = mset (map (\<lambda>kp. (pc_conn (snd kp), OGossip ann'))
         (filter (\<lambda>kp. fst kp \<noteq> peerID \<and> me_send v (pc_conn (snd kp)) (OGossip ann')) (tr_conns t)))) \<and>
    handleGossipMessage v later otherPeer e t' = t'"
proof -
  let ?t = "t\<lparr>tr_gossip := gh\<rparr>"
  have t': "t' = BroadcastExcept v ann' peerID ?t" using assms(3-5) by (simp add: handleGossipMessage_def)
  have c: "conns_in_order v ?t = conns_in_order v t" by (simp add: conns_in_order_def)
  have out: "tr_out t' = tr_out t @ map (\<lambda>kp. (pc_conn (snd kp), OGossip ann'))
     (filter (\<lambda>kp. fst kp \<noteq> peerID \<and> me_send v (pc_conn (snd kp)) (OGossip ann')) (conns_in_order v t))"
    unfolding t' BroadcastExcept_out c by simp
  have "keys_distinct fst (tr_conns t)" using assms(1) by (simp add: tr_inv_def)
  then have "mset (conns_in_order v t) = mset (tr_conns t)" using assms(2) by (rule mset_conns_in_order)
  then have sent: "mset (map (\<lambda>kp. (pc_conn (snd kp), OGossip ann'))
      (filter (\<lambda>kp. fst kp \<noteq> peerID \<and> me_send v (pc_conn (snd kp)) (OGossip ann')) (conns_in_order v t))) =
    mset (map (\<lambda>kp. (pc_conn (snd kp), OGossip ann'))
      (filter (\<lambda>kp. fst kp \<noteq> peerID \<and> me_send v (pc_conn (snd kp)) (OGossip ann')) (tr_conns t)))"
    by (simp only: mset_map mset_filter)
  have dec: "ann' = ann\<lparr>ga_HopCount := ga_HopCount ann + 1\<rparr>" "gh_seen gh (dedupKey ann) = Some now"
    using handled_decision[OF assms(4)] by simp_all
  have g: "tr_gossip t' = gh" by (simp add: t')
  have "HandleAnnouncement (me_E v) (me_marshal v) (me_T v) later ann gh = (False, ann, gh)"
    using dec(2) by (simp add: HandleAnnouncement_def)
  then have "handleGossipMessage v later otherPeer e t' = t'" using assms(3) g by (simp add: handleGossipMessage_def)
  then show ?thesis using dec(1) out sent by blast
qed

section \<open>Messages that crash the process\<close>

text \<open>The environment in which the callbacks never panic, every slice can be made, and every search message has a
  request.\<close>

definition gentle :: "('card, 'd) mesh_env \<Rightarrow> bool" where
  "gentle v = ((\<forall>n. me_alloc v n) \<and> (\<forall>d sm. me_search v d = Some sm \<longrightarrow> sm_Request sm \<noteq> None) \<and>
     (\<forall>f. me_onSearch v = Some f \<longrightarrow> (\<forall>req. f req \<noteq> None)) \<and>
     (\<forall>f. me_onDHT v = Some f \<longrightarrow> (\<forall>raw d. f raw d \<noteq> None)))"

lemma gentle_search: "gentle v \<Longrightarrow> handleSearchRequest v peerID e t \<noteq> None"
  unfolding gentle_def
  by (auto simp: handleSearchRequest_def decodePayload_def Let_def split: option.splits) (metis option.distinct(1))+

lemma gentle_dht: "gentle v \<Longrightarrow> handleDHTMessage v peerID e t \<noteq> None"
  unfolding gentle_def
  by (auto simp: handleDHTMessage_def Let_def split_beta split: option.splits) (metis option.distinct(1))+

lemma gentle_step: "gentle v \<Longrightarrow> mesh_step v ev t \<noteq> None"
proof (cases ev)
  case (Deliver now peerID e)
  assume g: "gentle v"
  moreover have "handleHeartbeat_message v now peerID e t \<noteq> None"
    using g by (auto simp: handleHeartbeat_message_def gentle_def Let_def split: option.splits)
  ultimately show ?thesis using gentle_search[OF g, of peerID e t] gentle_dht[OF g, of peerID e t]
    by (simp add: Deliver dispatch_message_def)
qed (auto split: option.splits prod.splits)


section \<open>Two handshakes of one registry\<close>

text \<open>The check that a registry is not connected yet and its registration are separate steps under separate locks, and
  the removal of a peer does not look at the connection it is for.\<close>

lemma inbound_hello_accepts:
  assumes "env_Type e = MsgHello" "me_hello v (env_Payload e) = Some hello" "hm_RegistryID hello \<noteq> kp_RegistryID (tr_kp t)"
    and "map_get (hm_RegistryID hello) (tr_conns t) = None" "me_send v conn (OHello (makeHello t))"
  shows "inbound_hello v conn (Inr e) t = (Some hello, t\<lparr>tr_out := tr_out t @ [(conn, OHello (makeHello t))]\<rparr>)"
  using assms by (simp add: inbound_hello_def decodePayload_def pc_send_def)

lemma registerPeer_keeps [simp]:
  "tr_closed (registerPeer v now hello a conn t) = tr_closed t"
  "map_get k (tr_conns (registerPeer v now hello a conn t)) = (if k = hm_RegistryID hello then
     Some \<lparr>pc_conn = conn, pc_registryID = hm_RegistryID hello, pc_name = hm_Name hello, pc_address = a\<rparr>
     else map_get k (tr_conns t))"
  "keys_distinct fst (tr_conns t) \<Longrightarrow> keys_distinct fst (tr_conns (registerPeer v now hello a conn t))"
  by (simp_all add: registerPeer_def tr_publish_def Let_def keys_distinct_map_ops)

text \<open>A lost registration. Two connections of one registry whose handshakes both pass the check before either is
  registered are both served; when the first one ends, the entry of the second is deleted with it, so a connection that
  is open and being read is in the table no more: no broadcast and no heartbeat is ever sent to it, and
  its registry is no peer any more.\<close>

theorem reconnect_race_loses_peer:
  assumes "keys_distinct fst (tr_conns t)" and "keys_distinct fst (pm_peers (tr_peerMgr t))"
    and "env_Type e = MsgHello" "me_hello v (env_Payload e) = Some hello" "hm_RegistryID hello \<noteq> kp_RegistryID (tr_kp t)"
    and "map_get (hm_RegistryID hello) (tr_conns t) = None" and "\<And>c p. me_send v c p"
    and "c1 \<noteq> c2" "c2 \<notin> set (tr_closed t)" "\<forall>pc. (\<exists>k. map_get k (tr_conns t) = Some pc) \<longrightarrow> pc_conn pc \<noteq> c2"
    and "inbound_hello v c1 (Inr e) t = (h1, t1)" "inbound_hello v c2 (Inr e) t1 = (h2, t2)"
    and "t3 = unregisterPeer (hm_RegistryID hello) c1 (registerPeer v now2 hello a2 c2 (registerPeer v now1 hello a1 c1 t2))"
  shows "h1 = Some hello \<and> h2 = Some hello \<and> c2 \<notin> set (tr_closed t3) \<and>
    map_get (hm_RegistryID hello) (tr_conns t3) = None \<and> GetPeer (hm_RegistryID hello) (tr_peerMgr t3) = None \<and>
    (\<forall>ann. \<forall>p. (c2, p) \<in> set (tr_out (Broadcast v ann t3)) \<longrightarrow> (c2, p) \<in> set (tr_out t3))"
proof -
  have r1: "h1 = Some hello" "t1 = t\<lparr>tr_out := tr_out t @ [(c1, OHello (makeHello t))]\<rparr>"
    using assms(11) inbound_hello_accepts[OF assms(3-6), of c1] assms(7) by simp_all
  have "map_get (hm_RegistryID hello) (tr_conns t1) = None" "hm_RegistryID hello \<noteq> kp_RegistryID (tr_kp t1)"
    using assms(5,6) r1 by simp_all
  then have r2: "h2 = Some hello" "t2 = t1\<lparr>tr_out := tr_out t1 @ [(c2, OHello (makeHello t1))]\<rparr>"
    using assms(12) inbound_hello_accepts[OF assms(3,4), of t1 c2] assms(7) by simp_all
  let ?t = "registerPeer v now2 hello a2 c2 (registerPeer v now1 hello a1 c1 t2)"
  have t2: "tr_conns t2 = tr_conns t" "tr_closed t2 = tr_closed t" "tr_peerMgr t2 = tr_peerMgr t" using r1 r2 by simp_all
  have d: "keys_distinct fst (tr_conns ?t)" using assms(1) t2 by simp
  have "tr_conns t3 = map_del (hm_RegistryID hello) (tr_conns ?t)"
    by (simp add: assms(13) unregisterPeer_def Let_def tr_publish_def conn_Close_def)
  then have "map_get k (tr_conns t3) = (if k = hm_RegistryID hello then None else map_get k (tr_conns ?t))" for k
    using map_get_del[OF d, of k "hm_RegistryID hello"] by (simp only:)
  then have conns: "map_get k (tr_conns t3) = (if k = hm_RegistryID hello then None else map_get k (tr_conns t))" for k
    by (cases "k = hm_RegistryID hello") (simp_all add: t2)
  have pm: "keys_distinct fst (pm_peers (tr_peerMgr ?t))"
    using assms(2) AddPeer_peers(1) t2 by (simp add: registerPeer_def Let_def tr_publish_def)
  have "GetPeer (hm_RegistryID hello) (tr_peerMgr t3) = None"
    using map_get_del[OF pm, of "hm_RegistryID hello" "hm_RegistryID hello"]
    by (simp add: assms(13) unregisterPeer_def Let_def tr_publish_def conn_Close_def RemovePeer_def GetPeer_def)
  moreover have "tr_closed t3 = tr_closed t @ [c1]"
    using t2 by (simp add: assms(13) unregisterPeer_def Let_def tr_publish_def conn_Close_def)
  moreover have "pc_conn (snd kp) \<noteq> c2" if "kp \<in> set (conns_in_order v t3)" for kp
    using that conns assms(10) by (auto simp: conns_in_order_def List.map_filter_def split: if_splits)
  then have "(c2, p) \<in> set (tr_out (Broadcast v ann t3)) \<longrightarrow> (c2, p) \<in> set (tr_out t3)" for ann p
    by (auto simp: Broadcast_def BroadcastExcept_out)
  ultimately show ?thesis using r1(1) r2(1) conns assms(8,9) by simp
qed

section \<open>DHT requests and their answers\<close>

definition is_reply_to :: "('card, 'd) mesh_env \<Rightarrow> string \<Rightarrow> mesh_event \<Rightarrow> bool" where
  "is_reply_to v rid ev = (case ev of
       Deliver _ _ e \<Rightarrow> env_Type e = MsgDHT \<and> fst (me_peek v (env_Payload e)) = rid \<and> rid \<noteq> '''' \<and>
         is_dht_reply (snd (me_peek v (env_Payload e)))
     | _ \<Rightarrow> False)"

definition same_request :: "('card, 'd) mesh_env \<Rightarrow> string \<Rightarrow> mesh_event \<Rightarrow> bool" where
  "same_request v rid ev = (case ev of DhtBegin _ raw \<Rightarrow> fst (me_peek v raw) = rid | DhtEnd r \<Rightarrow> r = rid | _ \<Rightarrow> False)"

definition pend_keeps :: "string \<Rightarrow> ('card, 'd) Transport \<Rightarrow> ('card, 'd) Transport \<Rightarrow> bool" where
  "pend_keeps rid t t' = (keys_distinct fst (tr_dhtPending t') \<and> map_get rid (tr_dhtPending t') = map_get rid (tr_dhtPending t))"

lemma fold_send_pending [simp]:
  "tr_dhtPending (fold (\<lambda>x t. snd (pc_send v (f x) (g x) t)) pcs t) = tr_dhtPending t"
  by (induction pcs arbitrary: t) simp_all

lemma pending_unchanged [simp]:
  "tr_dhtPending (BroadcastExcept v ann x t) = tr_dhtPending t" "tr_dhtPending (sendHeartbeats v bloom t) = tr_dhtPending t"
  "tr_dhtPending (registerPeer v now hello a c t) = tr_dhtPending t" "tr_dhtPending (unregisterPeer r c t) = tr_dhtPending t"
  "tr_dhtPending (conn_Close c t) = tr_dhtPending t" "tr_dhtPending (reconnect_tick t) = tr_dhtPending t"
  by (simp_all add: BroadcastExcept_def sendHeartbeats_def registerPeer_def unregisterPeer_def tr_publish_def conn_Close_def
      reconnect_tick_def Let_def split_def)

lemma inbound_pending: "inbound_hello v conn first t = (r, t') \<Longrightarrow> tr_dhtPending t' = tr_dhtPending t"
  by (auto simp: inbound_hello_def pc_send_def split: sum.splits if_splits option.splits)

lemma connect_pending: "tr_dhtPending (snd (ConnectTo v now a d reply t)) = tr_dhtPending t"
  by (auto simp: ConnectTo_def pc_send_def Let_def split: sum.splits if_splits option.splits)

lemma dispatch_pending:
  assumes "dispatch_message v now peerID e t = Some t'" "keys_distinct fst (tr_dhtPending t)"
    and "\<not> is_reply_to v rid (Deliver now peerID e)"
  shows "pend_keeps rid t t'"
proof -
  have "pend_keeps rid t t'" if "handleDHTMessage v peerID e t = Some t'" "env_Type e = MsgDHT"
    using that assms(2,3)
    by (auto simp: handleDHTMessage_def pend_keeps_def is_reply_to_def Let_def split_beta keys_distinct_map_ops split: option.splits if_splits)
  moreover have "tr_dhtPending t' = tr_dhtPending t" if "handleHeartbeat_message v now peerID e t = Some t'"
    using that by (auto simp: handleHeartbeat_message_def Let_def split: option.splits if_splits)
  moreover have "tr_dhtPending t' = tr_dhtPending t" if "handleSearchRequest v peerID e t = Some t'"
    using that by (auto simp: handleSearchRequest_def Let_def split: option.splits)
  moreover have "tr_dhtPending (handleGossipMessage v now peerID e t) = tr_dhtPending t"
    by (auto simp: handleGossipMessage_def Let_def split_beta split: option.splits)
  ultimately show ?thesis
    using assms(1,2) by (auto simp: dispatch_message_def pend_keeps_def split: if_splits)
qed

lemma begin_pending:
  assumes "keys_distinct fst (tr_dhtPending t)" "fst (me_peek v raw) \<noteq> rid"
  shows "pend_keeps rid t (case dht_request_begin v addr raw t of Inl t \<Rightarrow> t | Inr t \<Rightarrow> t)"
  using assms
  by (auto simp: dht_request_begin_def pend_keeps_def Let_def split_beta keys_distinct_map_ops map_get_del split: list.splits sum.splits)

lemma step_pending:
  assumes "mesh_step v ev t = Some t'" "keys_distinct fst (tr_dhtPending t)" "\<not> is_reply_to v rid ev" "\<not> same_request v rid ev"
  shows "pend_keeps rid t t'"
proof (cases ev)
  case (Deliver now peerID e)
  then show ?thesis using assms dispatch_pending by simp
next
  case (DhtBegin addr raw)
  then show ?thesis using assms begin_pending[of t v raw rid addr] by (simp add: same_request_def)
next
  case (Accept now conn a first)
  obtain r t1 where "inbound_hello v conn first t = (r, t1)" by (cases "inbound_hello v conn first t")
  then show ?thesis using assms Accept inbound_pending[of v conn first t r t1] by (auto simp: pend_keeps_def split: option.splits)
qed (use assms in \<open>auto simp: pend_keeps_def connect_pending Broadcast_def dht_request_end_def same_request_def
      keys_distinct_map_ops map_get_del\<close>)

text \<open>A reply fills the channel of its request, if it is empty, and does not reach the DHT handler.\<close>

lemma reply_pending:
  assumes "is_reply_to v rid (Deliver now peerID e)" "map_get rid (tr_dhtPending t) = Some ch" "keys_distinct fst (tr_dhtPending t)"
  shows "\<exists>t'. mesh_step v (Deliver now peerID e) t = Some t' \<and> tr_dht t' = tr_dht t \<and> keys_distinct fst (tr_dhtPending t') \<and>
    map_get rid (tr_dhtPending t') = Some (case ch of None \<Rightarrow> Some (env_Payload e) | Some x \<Rightarrow> Some x)"
  using assms
  by (cases ch) (auto simp: is_reply_to_def dispatch_message_def handleDHTMessage_def Let_def split_beta keys_distinct_map_ops
      MsgDHT_def MsgHeartbeat_def MsgGossip_def MsgSearch_def MsgSearchAck_def)

lemma filled_stays:
  "mesh_run v evs t = Some t' \<Longrightarrow> list_all (\<lambda>ev. \<not> same_request v rid ev) evs \<Longrightarrow> keys_distinct fst (tr_dhtPending t) \<Longrightarrow>
   map_get rid (tr_dhtPending t) = Some (Some x) \<Longrightarrow> map_get rid (tr_dhtPending t') = Some (Some x)"
proof (induction evs arbitrary: t)
  case (Cons ev evs)
  then obtain t1 where s: "mesh_step v ev t = Some t1" "mesh_run v evs t1 = Some t'" by (auto split: option.splits)
  have "keys_distinct fst (tr_dhtPending t1) \<and> map_get rid (tr_dhtPending t1) = Some (Some x)"
  proof (cases "is_reply_to v rid ev")
    case True
    then obtain now peerID e where "ev = Deliver now peerID e" by (auto simp: is_reply_to_def split: mesh_event.splits)
    then show ?thesis using True s(1) reply_pending[of v rid now peerID e t "Some x"] Cons.prems by auto
  next
    case False
    then show ?thesis using step_pending[OF s(1) _ False] Cons.prems by (simp add: pend_keeps_def)
  qed
  then show ?case using Cons.IH[of t1] s(2) Cons.prems by simp
qed simp

lemma empty_stays:
  "mesh_run v evs t = Some t' \<Longrightarrow> list_all (\<lambda>ev. \<not> same_request v rid ev \<and> \<not> is_reply_to v rid ev) evs \<Longrightarrow>
   keys_distinct fst (tr_dhtPending t) \<Longrightarrow> map_get rid (tr_dhtPending t) = Some None \<Longrightarrow>
   keys_distinct fst (tr_dhtPending t') \<and> map_get rid (tr_dhtPending t') = Some None"
proof (induction evs arbitrary: t)
  case (Cons ev evs)
  then obtain t1 where s: "mesh_step v ev t = Some t1" "mesh_run v evs t1 = Some t'" by (auto split: option.splits)
  then have "pend_keeps rid t t1" using step_pending[OF s(1)] Cons.prems by simp
  then show ?case using Cons.IH[of t1] s(2) Cons.prems by (simp add: pend_keeps_def)
qed simp

lemma mesh_run_append: "mesh_run v (evs @ evs') t = Option.bind (mesh_run v evs t) (mesh_run v evs')"
  by (induction evs arbitrary: t) (auto split: option.splits)

text \<open>A DHT request gets its answer. Between the send of a request and the end of its wait any other traffic may
  happen, other requests included; when a reply with the identifier of the request arrives, from whichever peer, the
  request returns the payload of the first such reply, later ones are dropped, and when none arrives it times
  out.\<close>

theorem dht_request_gets_first_reply:
  assumes "keys_distinct fst (tr_dhtPending t0)" and "dht_request_begin v addr raw t0 = Inr t1" and "rid = fst (me_peek v raw)"
    and "list_all (\<lambda>ev. \<not> same_request v rid ev \<and> \<not> is_reply_to v rid ev) before"
    and "list_all (\<lambda>ev. \<not> same_request v rid ev) after" and "is_reply_to v rid (Deliver now peerID e)"
  shows "(mesh_run v before t1 = Some t \<longrightarrow> fst (dht_request_end rid t) = None) \<and>
    (mesh_run v (before @ Deliver now peerID e # after) t1 = Some t \<longrightarrow> fst (dht_request_end rid t) = Some (env_Payload e))"
proof -
  have t1: "keys_distinct fst (tr_dhtPending t1)" "map_get rid (tr_dhtPending t1) = Some None"
    using assms(1-3) by (auto simp: dht_request_begin_def Let_def split_beta keys_distinct_map_ops split: list.splits if_splits)
  have "fst (dht_request_end rid t) = Some (env_Payload e)" if r: "mesh_run v (before @ Deliver now peerID e # after) t1 = Some t"
  proof -
    obtain t2 where t2: "mesh_run v before t1 = Some t2" "mesh_run v (Deliver now peerID e # after) t2 = Some t"
      using r by (auto simp only: mesh_run_append bind_eq_Some_conv)
    then have p: "keys_distinct fst (tr_dhtPending t2)" "map_get rid (tr_dhtPending t2) = Some None"
      using empty_stays[OF t2(1) assms(4) t1] by simp_all
    obtain t3 where "mesh_step v (Deliver now peerID e) t2 = Some t3" "keys_distinct fst (tr_dhtPending t3)"
      "map_get rid (tr_dhtPending t3) = Some (Some (env_Payload e))"
      using reply_pending[OF assms(6) p(2,1)] by auto
    then show ?thesis using t2(2) filled_stays[OF _ assms(5), of t3 t "env_Payload e"] by (simp add: dht_request_end_def)
  qed
  then show ?thesis using empty_stays[OF _ assms(4) t1, of t] by (auto simp: dht_request_end_def)
qed

section \<open>Backoff\<close>

definition int64_conv :: "(real \<Rightarrow> int) \<Rightarrow> bool" where
  "int64_conv conv = (\<forall>k. - (2 ^ 63) \<le> k \<and> k < 2 ^ 63 \<longrightarrow> conv (real_of_int k) = k)"

text \<open>The backoff between dials of a bootstrap peer. Up to 34 failed attempts the delay doubles from one second up
  to a minute; from the 35th on the product leaves the range of int64, and where the conversion then gives the
  smallest int64 (as on amd64) the delay is negative, which the cap does not catch: the dials follow each other
  without any delay.\<close>

theorem backoff_bounds:
  assumes "int64_conv conv"
  shows "(1 \<le> n \<and> n \<le> 34 \<longrightarrow> backoff_delay conv n = min (second * 2 ^ (n - 1)) (60 * second)) \<and>
    (35 \<le> n \<and> conv (real_of_int (second * 2 ^ (n - 1))) = - (2 ^ 63) \<longrightarrow> backoff_delay conv n < 0)"
proof (intro conjI impI)
  assume n: "1 \<le> n \<and> n \<le> 34"
  then have "(2 :: int) ^ (n - 1) \<le> 2 ^ 33" by (intro power_increasing) auto
  then have "second * 2 ^ (n - 1) < 2 ^ 63" by (simp add: second_def)
  moreover have "- (2 ^ 63) \<le> second * 2 ^ (n - 1)" by (rule order_trans[of _ 0]) (simp_all add: second_def)
  ultimately have "conv (real_of_int (second * 2 ^ (n - 1))) = second * 2 ^ (n - 1)" using assms unfolding int64_conv_def by blast
  then show "backoff_delay conv n = min (second * 2 ^ (n - 1)) (60 * second)"
    by (simp add: backoff_delay_def maxDelay_def Let_def)
next
  assume "35 \<le> n \<and> conv (real_of_int (second * 2 ^ (n - 1))) = - (2 ^ 63)"
  then show "backoff_delay conv n < 0" by (simp add: backoff_delay_def maxDelay_def second_def Let_def)
qed

section \<open>Addresses of IPv6 peers\<close>

text \<open>The resolved address of a peer whose host contains a colon is not an address that can be dialled.\<close>

lemma dec_digits_set: "set (dec_digits n) \<subseteq> set ''0123456789''"
proof (induction n rule: dec_digits.induct)
  case (1 n)
  have "list_all (\<lambda>k. char_of (48 + k) \<in> set ''0123456789'') [0 :: nat..<10]" by code_simp
  then have d: "char_of (48 + k) \<in> set ''0123456789''" if "k < 10" for k :: nat
    using that by (auto simp only: list_all_iff set_upt atLeastLessThan_iff)
  then show ?case using 1 by (subst dec_digits.simps) auto
qed

lemma ipv6_address_unusable:
  assumes "CHR '':'' \<in> set host" "hd (host @ '':'') \<noteq> CHR ''[''" and "SplitHostPort remoteAddr = Some (host, port)" "listenPort > 0"
  shows "SplitHostPort (resolvePeerAddr remoteAddr listenPort) = None"
proof -
  have "CHR '':'' \<notin> set (fmt_int listenPort)" using dec_digits_set[of "nat listenPort"] assms(4) by (auto simp: fmt_int_def)
  then have "LastIndexByte (host @ CHR '':'' # fmt_int listenPort) (CHR '':'') = Some (length host)" by (rule LastIndexByte_append)
  moreover have "hd (host @ CHR '':'' # fmt_int listenPort) \<noteq> CHR ''[''" using assms(1,2) by (cases host) auto
  ultimately show ?thesis using assms by (simp add: resolvePeerAddr_def SplitHostPort_def)
qed

section \<open>A small mesh\<close>

definition sample_hello :: Envelope where
  "sample_hello = \<lparr>env_Type = MsgHello, env_Payload = [112]\<rparr>"

definition hello_p :: HelloMessage where
  "hello_p = \<lparr>hm_RegistryID = ''p'', hm_Name = ''peer'', hm_PublicKey = ''k'', hm_AgentCount = 1, hm_Version = ''0.1.0'',
     hm_ListenPort = 0, hm_RegistryHost = ''''\<rparr>"

definition sample_mesh :: "(string, unit) mesh_env" where
  "sample_mesh = \<lparr>me_T = unix_time, me_E = toy_ed25519, me_marshal = hop_marshal, me_hello = (\<lambda>_. Some hello_p),
     me_heartbeat = (\<lambda>_. None), me_gossip = (\<lambda>_. Some (Some (sample_announcement 5 3 ''register''))),
     me_search = (\<lambda>_. Some \<lparr>sm_RequestID = ''r'', sm_Request = None, sm_OriginID = '''', sm_TTL = 1\<rparr>),
     me_peek = (\<lambda>d. (''r'', if d = [] then ''dht_ping'' else ''dht_ping_reply'')), me_send = (\<lambda>_ _. True), me_alloc = (\<lambda>n. n < 100),
     me_ro = rev, me_onSearch = Some (\<lambda>_. Some None), me_onDHT = None\<rparr>"

definition sample_transport :: "(string, unit) Transport" where
  "sample_transport = NewTransport 4001 [] ''n'' (NewPeerManager 3) fresh_handler (registry_kp 1) ()"

lemma sample_mesh_simps [simp]:
  "me_hello sample_mesh d = Some hello_p" "me_send sample_mesh c p" "me_ro sample_mesh = rev" "me_T sample_mesh = unix_time"
  "me_peek sample_mesh d = (''r'', if d = [] then ''dht_ping'' else ''dht_ping_reply'')" "me_gossip sample_mesh d = Some (Some (sample_announcement 5 3 ''register''))"
  "me_E sample_mesh = toy_ed25519" "me_marshal sample_mesh = hop_marshal" "hm_RegistryID hello_p = ''p''" "hm_ListenPort hello_p = 0"
  by (simp_all add: sample_mesh_def hello_p_def)

lemma sample_transport_simps [simp]:
  "tr_conns sample_transport = []" "pm_peers (tr_peerMgr sample_transport) = []" "tr_closed sample_transport = []"
  "tr_gossip sample_transport = fresh_handler" "tr_dhtPending sample_transport = []" "tr_out sample_transport = []"
  by (simp_all add: sample_transport_def NewTransport_def NewPeerManager_def)

lemma sample_other: "''p'' \<noteq> kp_RegistryID kp"
  by (simp add: kp_RegistryID_def GenerateRegistryID_def)

definition one_peer :: "(string, unit) Transport" where
  "one_peer = registerPeer sample_mesh 5 hello_p ''h:9'' 1 (sample_transport\<lparr>tr_out := [(1, OHello (makeHello sample_transport))]\<rparr>)"

lemma one_peer_step: "mesh_step sample_mesh (Accept 5 1 ''h:9'' (Inr sample_hello)) sample_transport = Some one_peer"
  using inbound_hello_accepts[of sample_hello sample_mesh hello_p sample_transport 1] sample_other
  by (simp add: one_peer_def sample_hello_def map_get_def resolvePeerAddr_def)

lemma one_peer_simps [simp]:
  "tr_conns one_peer = [(''p'', \<lparr>pc_conn = 1, pc_registryID = ''p'', pc_name = ''peer'', pc_address = ''h:9''\<rparr>)]"
  "tr_gossip one_peer = fresh_handler" "tr_dhtPending one_peer = []" "tr_out one_peer = [(1, OHello (makeHello sample_transport))]"
  by (simp_all add: one_peer_def registerPeer_def Let_def tr_publish_def map_set_def t_upsert_def hello_p_def)

lemma one_peer_run: "mesh_run sample_mesh [Accept 5 1 ''h:9'' (Inr sample_hello)] sample_transport = Some one_peer"
  by (simp only: mesh_run.simps one_peer_step option.case)


theorem gossip_flooded_once_witness:
  "\<exists>ann' t'. tr_out t' = tr_out one_peer @ [(1, OGossip ann')] \<and> ga_HopCount ann' = 1 \<and>
     t' = handleGossipMessage sample_mesh 4 ''q'' \<lparr>env_Type = MsgGossip, env_Payload = []\<rparr> one_peer \<and>
     handleGossipMessage sample_mesh 9 ''s'' \<lparr>env_Type = MsgGossip, env_Payload = []\<rparr> t' = t'"
proof (rule sample_registered)
  let ?e = "\<lparr>env_Type = MsgGossip, env_Payload = []\<rparr>"
  fix gh g
  assume h: "HandleAnnouncement toy_ed25519 hop_marshal unix_time 4 (sample_announcement 5 3 ''register'')
      fresh_handler = (True, (sample_announcement 5 3 ''register'')\<lparr>ga_HopCount := 1\<rparr>, gh)"
  let ?ann = "(sample_announcement 5 3 ''register'')\<lparr>ga_HopCount := 1\<rparr>" and ?t = "handleGossipMessage sample_mesh 4 ''q'' ?e one_peer"
  have inv: "tr_inv one_peer" using mesh_run_inv[OF NewTransport_inv one_peer_run[unfolded sample_transport_def]] .
  obtain sent where "tr_out ?t = tr_out one_peer @ sent" "mset sent = {#(1, OGossip ?ann)#}"
      "handleGossipMessage sample_mesh 9 ''s'' ?e ?t = ?t"
    using gossip_flooded_once[OF inv _ _ _ refl, where v = sample_mesh and e = ?e and ann = "sample_announcement 5 3 ''register''" and now = 4 and
        ann' = ?ann and gh = gh and later = 9 and otherPeer = "''s''" and peerID = "''q''"] h
    by (auto simp: decodePayload_def)
  then show ?thesis by (intro exI[of _ ?ann] exI[of _ ?t]) simp
qed


theorem reconnect_race_loses_peer_witness:
  "\<exists>t2. snd (inbound_hello sample_mesh 2 (Inr sample_hello) (snd (inbound_hello sample_mesh 1 (Inr sample_hello) sample_transport))) = t2 \<and>
     (\<exists>t3. t3 = unregisterPeer ''p'' 1 (registerPeer sample_mesh 6 hello_p ''h:9'' 2 (registerPeer sample_mesh 5 hello_p ''h:9'' 1 t2)) \<and>
       map_get ''p'' (tr_conns t3) = None \<and> 2 \<notin> set (tr_closed t3))"
proof -
  obtain h1 t1 where 1: "inbound_hello sample_mesh 1 (Inr sample_hello) sample_transport = (h1, t1)" by fastforce
  obtain h2 t2 where 2: "inbound_hello sample_mesh 2 (Inr sample_hello) t1 = (h2, t2)" by fastforce
  show ?thesis
    using reconnect_race_loses_peer[OF _ _ _ _ _ _ _ _ _ _ 1 2 refl, of hello_p 6 "''h:9''" 5 "''h:9''"] sample_other 1 2
    by (simp add: keys_distinct_def sample_hello_def map_get_def)
qed

theorem dht_request_gets_first_reply_witness:
  "\<exists>t1 t. dht_request_begin sample_mesh ''h:9'' [] one_peer = Inr t1 \<and>
     mesh_run sample_mesh [Deliver 0 ''p'' \<lparr>env_Type = MsgDHT, env_Payload = [7]\<rparr>] t1 = Some t \<and> fst (dht_request_end ''r'' t) = Some [7]"
proof -
  let ?e = "\<lparr>env_Type = MsgDHT, env_Payload = [7]\<rparr>"
  obtain t1 where b: "dht_request_begin sample_mesh ''h:9'' [] one_peer = Inr t1"
    by (simp add: dht_request_begin_def conns_in_order_def map_filter_simps map_get_def pc_send_def)
  have r: "is_reply_to sample_mesh ''r'' (Deliver 0 ''p'' ?e)" by (simp add: is_reply_to_def is_dht_reply_def)
  have "map_get ''r'' (tr_dhtPending t1) = Some None" "keys_distinct fst (tr_dhtPending t1)"
    using b by (auto simp: dht_request_begin_def conns_in_order_def map_filter_simps map_get_def pc_send_def map_set_def
        t_upsert_def keys_distinct_def)
  then obtain t where "mesh_step sample_mesh (Deliver 0 ''p'' ?e) t1 = Some t" using reply_pending[OF r] by blast
  then have run: "mesh_run sample_mesh ([] @ Deliver 0 ''p'' ?e # []) t1 = Some t" by simp
  have "fst (dht_request_end ''r'' t) = Some [7]"
    using dht_request_gets_first_reply[OF _ b _ _ _ r, of "[]" "[]" t] run by (simp add: keys_distinct_def)
  then show ?thesis using b run by auto
qed

theorem backoff_bounds_witness:
  "backoff_delay (\<lambda>x. if - (2 ^ 63) \<le> x \<and> x < 2 ^ 63 then \<lfloor>x\<rfloor> else - (2 ^ 63)) 7 = 60 * second"
proof -
  let ?conv = "\<lambda>x :: real. if - (2 ^ 63) \<le> x \<and> x < 2 ^ 63 then \<lfloor>x\<rfloor> else - (2 ^ 63)"
  have "int64_conv ?conv"
    unfolding int64_conv_def
  proof (intro allI impI)
    fix k :: int assume k: "- (2 ^ 63) \<le> k \<and> k < 2 ^ 63"
    then have "real_of_int (- (2 ^ 63)) \<le> real_of_int k" "real_of_int k < real_of_int (2 ^ 63)" by (simp_all only: of_int_le_iff of_int_less_iff)
    then show "?conv (real_of_int k) = k" by simp
  qed
  then show ?thesis using backoff_bounds[of ?conv 7] by (simp add: second_def)
qed

end
