(* ===== verification/Federated.thy ===== *)
theory Federated
  imports TransportProps EngineProps
begin

text \<open>
  Federated search (\<open>src/internal/mesh/federated.go\<close>, \<open>SendSearchRequest\<close> of \<open>transport.go\<close>): the peers whose Bloom
  filters match the query are asked in parallel and their results put together; the search engine merges them
  with its own. \<open>order\<close> is the order in which the peer map is ranged over, \<open>rid\<close> the random request identifier,
  \<open>ask\<close> what a call of \<open>SendSearchRequest\<close> for a peer returns before the timeout (\<^term>\<open>None\<close>: an error or the
  timeout), and \<open>arrive\<close> the order in which the answers come in.
\<close>

section \<open>Asking one peer\<close>

datatype ask_error = E_not_connected | E_send_search | E_read_search | E_no_ack | E_decode_ack

definition SendSearchRequest ::
  "('card, 'd) mesh_env \<Rightarrow> (byte list \<Rightarrow> 'card SearchAckMessage option) \<Rightarrow> string \<Rightarrow> SearchMessage \<Rightarrow> wire_error + Envelope \<Rightarrow>
   ('card, 'd) Transport \<Rightarrow> (ask_error + 'card SearchAckMessage) \<times> ('card, 'd) Transport" where
  "SendSearchRequest v unmarshal peerID msg reply t =
     (case map_get peerID (tr_conns t) of
        None \<Rightarrow> (Inl E_not_connected, t)
      | Some pc \<Rightarrow>
          let (ok, t) = pc_send v (pc_conn pc) (OSearch msg) t
          in if \<not> ok then (Inl E_send_search, t)
             else case reply of
               Inl _ \<Rightarrow> (Inl E_read_search, t)
             | Inr e \<Rightarrow>
                 if env_Type e \<noteq> MsgSearchAck then (Inl E_no_ack, t)
                 else case decodePayload unmarshal e of None \<Rightarrow> (Inl E_decode_ack, t) | Some ack \<Rightarrow> (Inr ack, t))"

section \<open>Asking the relevant peers\<close>

record SearchEventData =
  se_Query :: string
  se_PeerID :: string
  se_ResultCount :: int
  se_Direction :: string

definition generateRequestID :: "byte list \<Rightarrow> string" where
  "generateRequestID random = hex_EncodeToString random"

definition federated_peers :: "int \<Rightarrow> int" where
  "federated_peers MaxFederatedPeers = (if MaxFederatedPeers \<le> 0 then 5 else MaxFederatedPeers)"

definition search_message :: "string \<Rightarrow> SearchRequest \<Rightarrow> ('card, 'd) Transport \<Rightarrow> SearchMessage" where
  "search_message rid req t = \<lparr>sm_RequestID = rid, sm_Request = Some req, sm_OriginID = kp_RegistryID (tr_kp t), sm_TTL = 1\<rparr>"

definition ack_results :: "'card SearchAckMessage option \<Rightarrow> 'card SearchResult list" where
  "ack_results answer = (case answer of None \<Rightarrow> [] | Some ack \<Rightarrow> sa_Results ack)"

text \<open>The events: one per peer when it is asked, one per answer. \<^term>\<open>None\<close> is a panic.\<close>

definition fs_Search ::
  "string list \<Rightarrow> (string \<Rightarrow> SearchMessage \<Rightarrow> 'card SearchAckMessage option) \<Rightarrow> (PeerInfo list \<Rightarrow> PeerInfo list) \<Rightarrow> int \<Rightarrow> string \<Rightarrow>
   SearchRequest \<Rightarrow> ('card, 'd) Transport \<Rightarrow> (('card SearchResult list \<times> int \<times> int) \<times> SearchEventData list) option" where
  "fs_Search order ask arrive MaxFederatedPeers rid req t =
     (if ConnectedPeerCount t = 0 then Some (([], 0, 0), [])
      else case GetRelevantPeers order (tokenizeQuery (sq_Query req) (sq_Category req) (sq_Tags req))
                  (federated_peers MaxFederatedPeers) (tr_peerMgr t) of
        None \<Rightarrow> None
      | Some [] \<Rightarrow> Some (([], 0, 0), [])
      | Some relevantPeers \<Rightarrow>
          let msg = search_message rid req t;
              answers = map (\<lambda>p. (p, ask (pi_RegistryID p) msg)) (arrive relevantPeers);
              allResults = concat (map (ack_results \<circ> snd) answers);
              outgoing = map (\<lambda>p. \<lparr>se_Query = sq_Query req, se_PeerID = pi_RegistryID p, se_ResultCount = 0, se_Direction = ''outgoing''\<rparr>) relevantPeers;
              incoming = map (\<lambda>(p, a). \<lparr>se_Query = sq_Query req, se_PeerID = pi_RegistryID p,
                se_ResultCount = int (length (ack_results a)), se_Direction = ''incoming''\<rparr>) (filter (\<lambda>(_, a). a \<noteq> None) answers)
          in Some ((allResults, int (length relevantPeers), int (length allResults)),
                   (if tr_eventBus t then outgoing @ incoming else [])))"

section \<open>What a federated search finds\<close>

text \<open>The peers that are asked: connected, at most as many as configured, each once.\<close>

definition asked :: "string list \<Rightarrow> int \<Rightarrow> SearchRequest \<Rightarrow> ('card, 'd) Transport \<Rightarrow> PeerInfo list" where
  "asked order maxPeers req t =
     (if ConnectedPeerCount t = 0 then []
      else the (GetRelevantPeers order (tokenizeQuery (sq_Query req) (sq_Category req) (sq_Tags req)) (federated_peers maxPeers) (tr_peerMgr t)))"

lemma fs_Search_asked:
  assumes inv: "tr_inv t" and keyed: "pm_keyed (tr_peerMgr t)" "blooms_ok (tr_peerMgr t)"
    and order: "set order = fst ` set (pm_peers (tr_peerMgr t))" and arrive: "\<And>ps. mset (arrive ps) = mset ps"
  shows "\<exists>results events. fs_Search order ask arrive maxPeers rid req t =
      Some ((results, int (length (asked order maxPeers req t)), int (length results)), events) \<and>
    mset results = (\<Sum>p\<in>#mset (asked order maxPeers req t). mset (ack_results (ask (pi_RegistryID p) (search_message rid req t)))) \<and>
    int (length (asked order maxPeers req t)) \<le> federated_peers maxPeers \<and>
    (\<forall>p\<in>set (asked order maxPeers req t). \<exists>pc. map_get (pi_RegistryID p) (tr_conns t) = Some pc \<and> pc_address pc = pi_Address p)"
proof -
  let ?tokens = "tokenizeQuery (sq_Query req) (sq_Category req) (sq_Tags req)" and ?n = "federated_peers maxPeers"
  obtain ps where ps: "GetRelevantPeers order ?tokens ?n (tr_peerMgr t) = Some ps" "int (length ps) \<le> max 0 ?n"
    "\<forall>p\<in>set ps. GetPeer (pi_RegistryID p) (tr_peerMgr t) = Some p"
    using relevant_peers_ranked[OF keyed order, of ?tokens ?n] by blast
  have n: "0 < ?n" by (simp add: federated_peers_def)
  have conn: "\<forall>p\<in>set ps. \<exists>pc. map_get (pi_RegistryID p) (tr_conns t) = Some pc \<and> pc_address pc = pi_Address p"
    using ps(3) inv unfolding tr_inv_def GetPeer_def by metis
  have sum: "mset (concat (map f xs)) = (\<Sum>p\<in>#mset xs. mset (f p))" for f :: "PeerInfo \<Rightarrow> 'a SearchResult list" and xs
    by (induction xs) simp_all
  let ?f = "\<lambda>p. ack_results (ask (pi_RegistryID p) (search_message rid req t))"
  have results: "mset (concat (map ?f (arrive ps))) = (\<Sum>p\<in>#mset ps. mset (?f p))" by (simp only: sum arrive)
  show ?thesis
  proof (cases "ConnectedPeerCount t = 0 \<or> ps = []")
    case True
    then have "asked order maxPeers req t = []" "\<exists>events. fs_Search order ask arrive maxPeers rid req t = Some (([], 0, 0), events)"
      using ps(1) by (auto simp: asked_def fs_Search_def)
    then show ?thesis using n by auto
  next
    case False
    then have a: "asked order maxPeers req t = ps" using ps(1) by (simp add: asked_def)
    obtain events where "fs_Search order ask arrive maxPeers rid req t =
        Some ((concat (map ?f (arrive ps)), int (length ps), int (length (concat (map ?f (arrive ps))))), events)"
      using False ps(1) by (cases ps) (simp_all add: fs_Search_def Let_def comp_def)
    then show ?thesis using results ps(2) n conn unfolding a by auto
  qed
qed

text \<open>What the peers answered is part of what the engine ranks.\<close>

lemma federated_in_all_ids:
  assumes "ev_federated v = Some search" "search req = (results, peers, n)" "sq_Federated req" "sq_EntityType req = ''''"
    and "sc_MinScore (en_cfg e) \<le> 0" "r \<in> set results"
  shows "res_EntityID r \<in> set (all_ids v now db req e)"
proof -
  let ?cs = "fst (gather v db req e)"
  have "federated_candidate r \<in> set ?cs" using assms(1-3,6) by (simp add: gather_def Let_def)
  then have "cr_EntityID (federated_candidate r) \<in> cr_EntityID ` set (Deduplicate ?cs)" using Deduplicate_ids(2) by blast
  also have "\<dots> = set (map cr_EntityID (Rank (ev_T v) now (sc_Ranking (en_cfg e)) (Deduplicate ?cs)))"
    using arg_cong[OF mset_Rank_ids[of "ev_T v" now "sc_Ranking (en_cfg e)" "Deduplicate ?cs"], of set_mset] by simp
  finally show ?thesis using assms(4,5) by (simp add: all_ids_def ranked_candidates_def Let_def not_less federated_candidate_def)
qed


text \<open>The acknowledgement of a peer does carry the page of its engine.\<close>

lemma handleSearchRequest_answers:
  assumes "me_search v (env_Payload e) = Some sm" "sm_Request sm = Some req" "me_onSearch v = Some (\<lambda>r. map_option Some (Search w now db r eng))"
    and "Search w now db (req\<lparr>sq_Federated := False\<rparr>) eng = Some resp" "map_get peerID (tr_conns t) = Some pc"
  shows "handleSearchRequest v peerID e t = Some (snd (pc_send v (pc_conn pc)
    (OSearchAck \<lparr>sa_RequestID = sm_RequestID sm, sa_Results = sr_Results resp, sa_Stats = Some (sr_SearchStats resp)\<rparr>) t))"
  using assms by (simp add: handleSearchRequest_def decodePayload_def)

section \<open>A small federation\<close>

definition fed_query :: SearchRequest where
  "fed_query = sample_query\<lparr>sq_Federated := True\<rparr>"

definition sample_page :: "string SearchResponse" where
  "sample_page = the (Search sample_env 100 sample_registry (fed_query\<lparr>sq_Federated := False\<rparr>) sample_engine)"

lemma sample_page_search: "Search sample_env 100 sample_registry (fed_query\<lparr>sq_Federated := False\<rparr>) sample_engine = Some sample_page"
proof -
  obtain r where "Search sample_env 100 sample_registry (fed_query\<lparr>sq_Federated := False\<rparr>) sample_engine = Some r"
    using Search_page[of "fed_query\<lparr>sq_Federated := False\<rparr>" sample_engine sample_env 100 sample_registry]
    by (auto simp: fed_query_def sample_query_def request_max_def)
  then show ?thesis by (simp add: sample_page_def)
qed

definition sample_answer :: "string \<Rightarrow> SearchMessage \<Rightarrow> string SearchAckMessage option" where
  "sample_answer _ msg = Some \<lparr>sa_RequestID = sm_RequestID msg, sa_Results = sr_Results sample_page, sa_Stats = None\<rparr>"

lemma one_peer_manager:
  "pm_peers (tr_peerMgr one_peer) = [(''p'', \<lparr>pi_RegistryID = ''p'', pi_Name = ''peer'', pi_Address = ''h:9'', pi_PublicKey = ''k'',
     pi_AgentCount = 1, pi_ConnectedAt = tf_Format unix_time 5, pi_LastSeen = tf_Format unix_time 5, pi_Latency = 0, pi_BloomFilter = [], pi_RegistryHost = ''''\<rparr>)]"
  "pm_blooms (tr_peerMgr one_peer) = []"
  by (simp_all add: one_peer_def registerPeer_def Let_def tr_publish_def AddPeer_def sample_transport_def NewTransport_def
      NewPeerManager_def map_set_def t_upsert_def hello_p_def)


end
