(* ===== verification/RateLimit.thy ===== *)
theory RateLimit
  imports Api
begin

text \<open>
  The per-client rate limiter of the API (\<open>src/internal/api/middleware.go\<close>) and the wrapper
  \<open>rateLimited\<close> of \<open>server.go\<close> that puts it in front of a handler. Times are nanoseconds; a call
  reads the clock once. The limiter's calls and the clean-up ticks are one sequence of operations, as the
  mutex makes them.
\<close>

section \<open>The limiter\<close>

record bucket =
  bk_tokens :: int
  bk_lastReset :: int

record RateLimiter =
  rl_buckets :: "(string \<times> bucket) list"
  rl_rate :: int

definition minute :: int where "minute = 60000000000"

definition NewRateLimiter :: "int \<Rightarrow> RateLimiter" where
  "NewRateLimiter ratePerMinute = \<lparr>rl_buckets = [], rl_rate = ratePerMinute\<rparr>"

definition Allow :: "int \<Rightarrow> string \<Rightarrow> RateLimiter \<Rightarrow> bool \<times> RateLimiter" where
  "Allow now key rl =
     (let fresh = \<lparr>bk_tokens = rl_rate rl - 1, bk_lastReset = now\<rparr>
      in case map_get key (rl_buckets rl) of
           None \<Rightarrow> (True, rl\<lparr>rl_buckets := map_set key fresh (rl_buckets rl)\<rparr>)
         | Some b \<Rightarrow>
             if now - bk_lastReset b > minute then (True, rl\<lparr>rl_buckets := map_set key fresh (rl_buckets rl)\<rparr>)
             else if bk_tokens b > 0 then
               (True, rl\<lparr>rl_buckets := map_set key (b\<lparr>bk_tokens := bk_tokens b - 1\<rparr>) (rl_buckets rl)\<rparr>)
             else (False, rl))"

definition cleanup_tick :: "int \<Rightarrow> RateLimiter \<Rightarrow> RateLimiter" where
  "cleanup_tick now rl =
     rl\<lparr>rl_buckets := t_delete (\<lambda>kb. now - bk_lastReset (snd kb) > 2 * minute) (rl_buckets rl)\<rparr>"

section \<open>Clients and the wrapper\<close>

text \<open>What the limiter reads of a request: two headers (empty when absent) and the peer address.\<close>

record client =
  cl_XForwardedFor :: string
  cl_XRealIP :: string
  cl_RemoteAddr :: string

text \<open>The first part of \<open>strings.Split(s, sep)\<close>, which always has one.\<close>

definition first_part :: "string \<Rightarrow> char \<Rightarrow> string" where
  "first_part s c = takeWhile (\<lambda>x. x \<noteq> c) s"

definition extractIP :: "client \<Rightarrow> string" where
  "extractIP r =
     (if cl_XForwardedFor r \<noteq> '''' then TrimSpace (first_part (cl_XForwardedFor r) (CHR '',''))
      else if cl_XRealIP r \<noteq> '''' then cl_XRealIP r
      else first_part (cl_RemoteAddr r) (CHR '':''))"

definition rateLimited :: "int \<Rightarrow> client \<Rightarrow> ('s \<Rightarrow> response \<times> 's) \<Rightarrow> RateLimiter \<times> 's \<Rightarrow> response \<times> RateLimiter \<times> 's" where
  "rateLimited now r handler st =
     (case Allow now (extractIP r) (fst st) of
        (True, rl) \<Rightarrow> (let (resp, s) = handler (snd st) in (resp, rl, s))
      | (False, rl) \<Rightarrow> (writeError 429 ''rate limit exceeded'', rl, snd st))"

section \<open>Runs\<close>

datatype rl_op = Request int string | Cleanup int

fun rl_step :: "rl_op \<Rightarrow> RateLimiter \<Rightarrow> bool \<times> RateLimiter" where
  "rl_step (Request now key) rl = Allow now key rl"
| "rl_step (Cleanup now) rl = (False, cleanup_tick now rl)"

fun op_time :: "rl_op \<Rightarrow> int" where
  "op_time (Request now key) = now"
| "op_time (Cleanup now) = now"

text \<open>The requests of a client that a run allows.\<close>

definition allowed :: "string \<Rightarrow> rl_op list \<Rightarrow> RateLimiter \<Rightarrow> nat" where
  "allowed key ops rl =
     length (filter (\<lambda>(op, ok). ok \<and> (\<exists>t. op = Request t key)) (zip ops (fst (run_ops rl_step ops rl))))"

lemma allowed_Nil [simp]: "allowed key [] rl = 0"
  by (simp add: allowed_def)

lemma allowed_Cons:
  "allowed key (op # ops) rl =
     (if fst (rl_step op rl) \<and> (\<exists>t. op = Request t key) then 1 else 0) + allowed key ops (snd (rl_step op rl))"
  by (simp add: allowed_def split_beta)

definition rl_inv :: "int \<Rightarrow> RateLimiter \<Rightarrow> bool" where
  "rl_inv rate rl = (rl_rate rl = rate \<and> keys_distinct fst (rl_buckets rl) \<and>
     (\<forall>k b. map_get k (rl_buckets rl) = Some b \<longrightarrow> bk_tokens b \<le> rate - 1))"

lemma Allow_inv: "rl_inv rate rl \<Longrightarrow> rl_inv rate (snd (Allow now key rl))"
  by (auto simp: rl_inv_def Allow_def Let_def keys_distinct_map_ops split: option.splits) force+

lemma map_get_cleanup:
  "keys_distinct fst (rl_buckets rl) \<Longrightarrow> map_get k (rl_buckets (cleanup_tick now rl)) =
     (case map_get k (rl_buckets rl) of None \<Rightarrow> None
      | Some b \<Rightarrow> if now - bk_lastReset b > 2 * minute then None else Some b)"
  by (simp add: cleanup_tick_def map_get_def t_get_delete split: option.splits)

lemma cleanup_inv: "rl_inv rate rl \<Longrightarrow> rl_inv rate (cleanup_tick now rl)"
  by (auto simp: rl_inv_def map_get_cleanup split: option.splits if_splits)
    (auto simp: cleanup_tick_def keys_distinct_delete)

interpretation limiter: invariant_machine "\<lambda>op rl. snd (rl_step op rl)" "rl_inv rate" for rate
proof unfold_locales
  fix rl op assume "rl_inv rate rl"
  then show "rl_inv rate (snd (rl_step op rl))" by (cases op) (simp_all add: Allow_inv cleanup_inv)
qed

lemma run_ops_state: "snd (run_ops f ops s) = fold (\<lambda>op s. snd (f op s)) ops s"
  by (induction ops arbitrary: s) (simp_all add: split_beta)

lemma NewRateLimiter_inv: "rl_inv rate (NewRateLimiter rate)"
  by (simp add: NewRateLimiter_def rl_inv_def keys_distinct_def map_get_def)

text \<open>How many more requests of a client can be allowed until \<open>stop\<close>: the tokens that are left, and a
  whole rate if its bucket can still be reset.\<close>

definition budget :: "int \<Rightarrow> string \<Rightarrow> RateLimiter \<Rightarrow> int" where
  "budget stop key rl =
     (case map_get key (rl_buckets rl) of
        None \<Rightarrow> max 1 (rl_rate rl)
      | Some b \<Rightarrow> max 0 (bk_tokens b) + (if stop - bk_lastReset b > minute then max 1 (rl_rate rl) else 0))"

lemma budget_step:
  assumes "rl_inv rate rl" "op_time op \<le> stop" "stop - minute \<le> op_time op"
  shows "(if fst (rl_step op rl) \<and> (\<exists>t. op = Request t key) then 1 else 0) + budget stop key (snd (rl_step op rl))
    \<le> budget stop key rl"
proof (cases op)
  case (Request now k)
  show ?thesis
  proof (cases "k = key")
    case True
    then show ?thesis
      using assms Request by (auto simp: budget_def Allow_def Let_def split: option.splits)
  next
    case False
    then show ?thesis
      using Request by (auto simp: budget_def Allow_def Let_def split: option.splits)
  qed
next
  case (Cleanup now)
  have "keys_distinct fst (rl_buckets rl)" using assms(1) by (simp add: rl_inv_def)
  then show ?thesis
    using assms(2) Cleanup
    by (auto simp: budget_def map_get_cleanup minute_def split: option.splits) (auto simp: cleanup_tick_def)
qed

lemma allowed_budget:
  "rl_inv rate rl \<Longrightarrow> \<forall>op\<in>set ops. stop - minute \<le> op_time op \<and> op_time op \<le> stop \<Longrightarrow>
   int (allowed key ops rl) \<le> budget stop key rl"
proof (induction ops arbitrary: rl)
  case Nil
  then show ?case by (auto simp: budget_def split: option.splits)
next
  case (Cons op ops)
  then show ?case
    using budget_step[OF Cons.prems(1), of op stop key] Cons.IH[OF limiter.step_inv[OF Cons.prems(1), of op]]
    by (auto simp: allowed_Cons split: if_splits)
qed

lemma allowed_in_a_minute:
  assumes inv: "rl_inv rate rl" and "\<forall>op\<in>set ops. start \<le> op_time op \<and> op_time op \<le> start + minute"
  shows "int (allowed key ops rl) \<le> max 1 (2 * rate - 1)"
proof -
  have "int (allowed key ops rl) \<le> budget (start + minute) key rl"
    using allowed_budget[OF inv, of ops "start + minute" key] assms(2) by simp
  also have "\<dots> \<le> max 1 (2 * rate - 1)"
  proof (cases "map_get key (rl_buckets rl)")
    case None
    then show ?thesis using inv by (simp add: budget_def rl_inv_def)
  next
    case (Some b)
    then have "bk_tokens b \<le> rate - 1" "rl_rate rl = rate" using inv by (auto simp: rl_inv_def)
    then show ?thesis using Some by (auto simp: budget_def max_def)
  qed
  finally show ?thesis .
qed

lemma run_inv_new: "rl_inv rate (snd (run_ops rl_step ops (NewRateLimiter rate)))"
  unfolding run_ops_state by (rule limiter.run_inv[OF NewRateLimiter_inv])

text \<open>The limiter bounds every client. Whatever happened before, in any run of requests and
  clean-ups that takes no more than a minute, at most twice the configured rate less one requests of a client
  are allowed (at least one is possible even with a rate of zero or less).\<close>

theorem rate_limit_bound:
  assumes "rl = snd (run_ops rl_step before (NewRateLimiter rate))"
    and "\<forall>op\<in>set ops. start \<le> op_time op \<and> op_time op \<le> start + minute"
  shows "int (allowed key ops rl) \<le> max 1 (2 * rate - 1)"
  using allowed_in_a_minute[OF _ assms(2)] run_inv_new unfolding assms(1) by blast

theorem rate_limit_bound_witness:
  "allowed ''ip'' [Request 59000000000 ''ip'', Request 61000000000 ''ip'', Cleanup 62000000000, Request 63000000000 ''ip'', Request 64000000000 ''ip'']
      (snd (run_ops rl_step [Request 0 ''ip''] (NewRateLimiter 2))) = 3 \<and>
   int (allowed ''ip'' [Request 59000000000 ''ip'', Request 61000000000 ''ip'', Cleanup 62000000000, Request 63000000000 ''ip'', Request 64000000000 ''ip'']
      (snd (run_ops rl_step [Request 0 ''ip''] (NewRateLimiter 2)))) \<le> max 1 (2 * 2 - 1)"
proof
  show "int (allowed ''ip'' [Request 59000000000 ''ip'', Request 61000000000 ''ip'', Cleanup 62000000000, Request 63000000000 ''ip'', Request 64000000000 ''ip'']
      (snd (run_ops rl_step [Request 0 ''ip''] (NewRateLimiter 2)))) \<le> max 1 (2 * 2 - 1)"
    by (rule rate_limit_bound[OF refl, of _ 5000000000]) (simp add: minute_def)
  show "allowed ''ip'' [Request 59000000000 ''ip'', Request 61000000000 ''ip'', Cleanup 62000000000, Request 63000000000 ''ip'', Request 64000000000 ''ip'']
      (snd (run_ops rl_step [Request 0 ''ip''] (NewRateLimiter 2))) = 3"
    by (simp add: allowed_def NewRateLimiter_def Allow_def map_get_def map_set_def t_upsert_def t_update_def
        cleanup_tick_def t_delete_def minute_def)
qed

section \<open>Refusals\<close>

lemma allowed_append:
  "allowed key (ops @ ops') rl = allowed key ops rl + allowed key ops' (snd (run_ops rl_step ops rl))"
proof (induction ops arbitrary: rl)
  case (Cons op ops)
  then show ?case by (simp add: allowed_Cons split_beta)
qed simp

lemma run_ops_snoc: "snd (run_ops f (ops @ [op]) s) = snd (f op (snd (run_ops f ops s)))"
  by (simp add: run_ops_state)

text \<open>Every bucket was set by a request of its key at the time it shows, and since then as many requests were
  allowed as tokens are gone.\<close>

lemma bucket_history:
  "map_get key (rl_buckets (snd (run_ops rl_step ops (NewRateLimiter rate)))) = Some b \<Longrightarrow>
   \<exists>us vs. ops = us @ Request (bk_lastReset b) key # vs \<and>
     fst (Allow (bk_lastReset b) key (snd (run_ops rl_step us (NewRateLimiter rate)))) \<and>
     int (allowed key (Request (bk_lastReset b) key # vs) (snd (run_ops rl_step us (NewRateLimiter rate)))) =
       rate - bk_tokens b"
proof (induction ops arbitrary: b rule: rev_induct)
  case Nil
  then show ?case by (simp add: NewRateLimiter_def map_get_def)
next
  case (snoc op ops)
  let ?rl = "snd (run_ops rl_step ops (NewRateLimiter rate))"
  have inv: "rl_inv rate ?rl"
    unfolding run_ops_state by (rule limiter.run_inv[OF NewRateLimiter_inv])
  have rate: "rl_rate ?rl = rate" and d: "keys_distinct fst (rl_buckets ?rl)" using inv by (simp_all add: rl_inv_def)
  have after: "map_get key (rl_buckets (snd (rl_step op ?rl))) = Some b"
    using snoc.prems by (simp add: run_ops_snoc)
  have later: ?case if old: "map_get key (rl_buckets ?rl) = Some b'" "bk_lastReset b' = bk_lastReset b"
      and n: "(if fst (rl_step op ?rl) \<and> (\<exists>t. op = Request t key) then 1 else 0) = bk_tokens b' - bk_tokens b" for b'
  proof -
    obtain us vs where h: "ops = us @ Request (bk_lastReset b) key # vs"
      "fst (Allow (bk_lastReset b) key (snd (run_ops rl_step us (NewRateLimiter rate))))"
      "int (allowed key (Request (bk_lastReset b) key # vs) (snd (run_ops rl_step us (NewRateLimiter rate)))) = rate - bk_tokens b'"
      using snoc.IH[OF old(1)] old(2) by auto
    have "?rl = snd (run_ops rl_step (Request (bk_lastReset b) key # vs) (snd (run_ops rl_step us (NewRateLimiter rate))))"
      unfolding h(1) run_ops_state by simp
    then have "int (allowed key ((Request (bk_lastReset b) key # vs) @ [op]) (snd (run_ops rl_step us (NewRateLimiter rate)))) =
        rate - bk_tokens b"
      unfolding allowed_append using h(3) n by (simp add: allowed_Cons split: if_splits)
    then show ?thesis using h(1,2) by (intro exI[of _ us] exI[of _ "vs @ [op]"]) simp
  qed
  have reset: ?case if "op = Request (bk_lastReset b) key" "fst (Allow (bk_lastReset b) key ?rl)" "bk_tokens b = rate - 1"
    using that by (intro exI[of _ ops] exI[of _ "[]"]) (simp add: allowed_Cons)
  show ?case
  proof (cases op)
    case (Cleanup now)
    then show ?thesis
      using after later[of b] by (auto simp: map_get_cleanup[OF d] split: option.splits if_splits)
  next
    case (Request now k)
    show ?thesis
    proof (cases "k = key")
      case False
      then have "map_get key (rl_buckets ?rl) = Some b"
        using after Request by (auto simp: Allow_def Let_def split: option.splits if_splits)
      then show ?thesis using later[of b] False Request by simp
    next
      case True
      have fresh: ?thesis if "b = \<lparr>bk_tokens = rate - 1, bk_lastReset = now\<rparr>" "fst (Allow now key ?rl)"
        using reset that Request True by simp
      show ?thesis
      proof (cases "map_get key (rl_buckets ?rl)")
        case None
        then have "fst (Allow now key ?rl)" "b = \<lparr>bk_tokens = rate - 1, bk_lastReset = now\<rparr>"
          using after Request True rate by (simp_all add: Allow_def)
        then show ?thesis by (rule fresh[rotated])
      next
        case (Some b')
        then consider "fst (Allow now key ?rl)" "b = \<lparr>bk_tokens = rate - 1, bk_lastReset = now\<rparr>"
          | "fst (Allow now key ?rl)" "b = b'\<lparr>bk_tokens := bk_tokens b' - 1\<rparr>" | "\<not> fst (Allow now key ?rl)" "b = b'"
          using after Request True rate by (auto simp: Allow_def Let_def split: if_splits)
        then show ?thesis
          using fresh later[OF Some] Request True by cases simp_all
      qed
    qed
  qed
qed

text \<open>The limiter refuses only clients that used their rate up. When a request is refused, the run
  so far contains a request of the same client, at most a minute old, from which on at least the configured
  rate of its requests (and at least one) were allowed.\<close>

theorem rate_limit_refusal_justified:
  assumes "\<not> fst (Allow now key (snd (run_ops rl_step ops (NewRateLimiter rate))))"
  shows "\<exists>us t vs. ops = us @ Request t key # vs \<and> now - t \<le> minute \<and>
    max 1 rate \<le> int (allowed key (Request t key # vs) (snd (run_ops rl_step us (NewRateLimiter rate))))"
proof -
  let ?rl = "snd (run_ops rl_step ops (NewRateLimiter rate))"
  obtain b where b: "map_get key (rl_buckets ?rl) = Some b" "\<not> now - bk_lastReset b > minute" "bk_tokens b \<le> 0"
    using assms by (auto simp: Allow_def Let_def split: option.splits if_splits)
  obtain us vs where h: "ops = us @ Request (bk_lastReset b) key # vs"
    "fst (Allow (bk_lastReset b) key (snd (run_ops rl_step us (NewRateLimiter rate))))"
    "int (allowed key (Request (bk_lastReset b) key # vs) (snd (run_ops rl_step us (NewRateLimiter rate)))) = rate - bk_tokens b"
    using bucket_history[OF b(1)] by blast
  moreover have "1 \<le> int (allowed key (Request (bk_lastReset b) key # vs) (snd (run_ops rl_step us (NewRateLimiter rate))))"
    using h(2) by (simp add: allowed_Cons)
  ultimately show ?thesis using b(2,3) by (intro exI[of _ us] exI[of _ "bk_lastReset b"] exI[of _ vs]) auto
qed

theorem rate_limit_refusal_justified_witness:
  "\<exists>us t vs. [Request 1 ''ip'', Request 2 ''ip''] = us @ Request t ''ip'' # vs \<and> 3 - t \<le> minute \<and>
    max 1 2 \<le> int (allowed ''ip'' (Request t ''ip'' # vs) (snd (run_ops rl_step us (NewRateLimiter 2))))"
  by (rule rate_limit_refusal_justified)
    (simp add: NewRateLimiter_def Allow_def map_get_def map_set_def t_upsert_def t_update_def minute_def)

section \<open>Who is limited\<close>

text \<open>The limit binds only clients that let it. The client is identified by a header it sends, so
  any number of requests from one address, at the same instant, all reach the handler when each carries another
  \<open>X-Forwarded-For\<close>, whatever the rate.\<close>

theorem forwarded_header_evades_limit:
  "\<exists>cs. length cs = n \<and> list_all (\<lambda>c. cl_RemoteAddr c = addr) cs \<and>
     list_all (\<lambda>ok. ok) (fst (run_ops rl_step (map (\<lambda>c. Request now (extractIP c)) cs) (NewRateLimiter rate)))"
proof -
  define c where "c i = \<lparr>cl_XForwardedFor = replicate (Suc i) (CHR ''a''), cl_XRealIP = '''', cl_RemoteAddr = addr\<rparr>" for i
  have "takeWhile (\<lambda>x. x \<noteq> CHR '','') (replicate n (CHR ''a'')) = replicate n (CHR ''a'')" for n
    by (induction n) simp_all
  moreover have "dropWhile is_space (replicate n (CHR ''a'')) = replicate n (CHR ''a'')" for n
    by (cases n) (simp_all add: is_space_def)
  ultimately have ip: "extractIP (c i) = replicate (Suc i) (CHR ''a'')" for i
    by (simp add: extractIP_def c_def first_part_def TrimSpace_def del: replicate_Suc)
  have new: "fst (Allow now k rl) \<and> fst ` set (rl_buckets (snd (Allow now k rl))) = insert k (fst ` set (rl_buckets rl))"
    if "k \<notin> fst ` set (rl_buckets rl)" for k rl
    using that map_get_keys[of k "rl_buckets rl"] by (auto simp: Allow_def keys_map_set)
  have run: "list_all (\<lambda>ok. ok) (fst (run_ops rl_step (map (Request now) ks) rl))"
    if "distinct ks" "set ks \<inter> fst ` set (rl_buckets rl) = {}" for ks rl
    using that
  proof (induction ks arbitrary: rl)
    case (Cons k ks)
    then show ?case using new[of k rl] by (simp add: split_beta)
  qed simp
  have "distinct (map (\<lambda>i. extractIP (c i)) [0..<n])" by (simp add: ip distinct_map inj_on_def)
  then have "list_all (\<lambda>ok. ok) (fst (run_ops rl_step (map (\<lambda>c. Request now (extractIP c)) (map c [0..<n])) (NewRateLimiter rate)))"
    using run[of "map (\<lambda>i. extractIP (c i)) [0..<n]" "NewRateLimiter rate"] by (simp add: comp_def NewRateLimiter_def)
  then show ?thesis by (intro exI[of _ "map c [0..<n]"]) (simp add: c_def list_all_iff)
qed

end
