(* ===== verification/Startup.thy ===== *)
theory Startup
  imports Settings Federated DhtProps RateLimit
begin

text \<open>
  Initialising and starting a node (\<open>cmd/agentdns/main.go\<close>, \<open>cmdInit\<close> and \<open>cmdStart\<close>): how the configuration reaches the
  components and how these are connected. The components are those of the other theories. Parameters, in the record
  \<open>start_env\<close>, are the files of the home directory with their formats, connecting to PostgreSQL and to Redis, the embedding
  backends that are linked in, and the listening socket. The running node is a record of its components; the gossip
  handler and the peer manager, which the transport and the server share, are in both.
\<close>

section \<open>Initialisation\<close>

definition config_toml :: "'w key_files \<Rightarrow> string" where "config_toml K = kf_home K @ ''/.zynd/config.toml''"

definition init_flag :: "string \<Rightarrow> (string \<Rightarrow> string \<Rightarrow> string) option" where
  "init_flag a = (if a = ''--https-endpoint'' then Some (\<lambda>val _. val) else None)"

definition init_config :: "'w key_files \<Rightarrow> string \<Rightarrow> NodeSettings" where
  "init_config K httpsEndpoint =
     (let cfg = DefaultSettings (kf_home K);
          cfg = cfg\<lparr>ns_Node := (ns_Node cfg)\<lparr>nc_DataDir := kf_home K @ ''/.zynd/data''\<rparr>\<rparr>
      in if httpsEndpoint \<noteq> '''' then cfg\<lparr>ns_Node := (ns_Node cfg)\<lparr>nc_HTTPSEndpoint := httpsEndpoint\<rparr>\<rparr> else cfg)"

definition cmdInit ::
  "ed25519 \<Rightarrow> 'w key_files \<Rightarrow> 'w toml_files \<Rightarrow> byte list option \<Rightarrow> string list \<Rightarrow> 'w files \<Rightarrow> cli_outcome \<times> 'w files" where
  "cmdInit E K M rand args fs =
     (let httpsEndpoint = parse_args init_flag (\<lambda>_. None) args ''''
      in if fs (identity_json K) \<noteq> None then (C_info ''Node already initialized'', fs)
         else if \<not> kf_mkdir K then (C_fatal ''failed to create data directory'', fs)
         else case GenerateKeypair E rand of
                None \<Rightarrow> (C_fatal ''failed to generate keypair'', fs)
              | Some kp \<Rightarrow>
                  (case save_key K kp (identity_json K) fs of
                     (False, fs) \<Rightarrow> (C_fatal ''failed to save keypair'', fs)
                   | (True, fs) \<Rightarrow>
                       (case Save M (init_config K httpsEndpoint) (config_toml K) fs of
                          (Inl _, fs) \<Rightarrow> (C_fatal ''failed to save config'', fs)
                        | (Inr _, fs) \<Rightarrow> (C_info (kp_RegistryID kp), fs))))"

section \<open>The parts of a node\<close>

text \<open>\<open>time.Duration (n) * time.Second\<close> in 64 bits.\<close>

definition Duration_of :: "int \<Rightarrow> int \<Rightarrow> int" where
  "Duration_of n dunit = sint (word_of_int n * word_of_int dunit :: 64 word)"

definition server_config :: "NodeSettings \<Rightarrow> ServerConfig" where
  "server_config cfg = \<lparr>c_HTTPSEndpoint = nc_HTTPSEndpoint (ns_Node cfg), c_OnboardingMode = oc_Mode (ns_Onboarding cfg),
     c_AuthURL = oc_AuthURL (ns_Onboarding cfg), c_WebhookSecret = oc_WebhookSecret (ns_Onboarding cfg),
     c_MaxClockSkewS = hc_MaxClockSkewS (ns_Heartbeat cfg), c_InactiveThresholdS = hc_InactiveThresholdS (ns_Heartbeat cfg)\<rparr>"

definition NewServer :: "NodeSettings \<Rightarrow> PeerManager \<Rightarrow> GossipHandler \<Rightarrow> Keypair \<Rightarrow> Server" where
  "NewServer cfg peerManager gossip kp = \<lparr>s_cfg = server_config cfg, s_gossip = gossip, s_nodeIdentity = kp,
     s_peerManager = peerManager, s_index = [], s_events = []\<rparr>"

definition redis_config :: "NodeSettings \<Rightarrow> RedisConfig" where
  "redis_config cfg = (ns_Redis cfg)\<lparr>rd_Prefix := (if rd_Prefix (ns_Redis cfg) = '''' then ''zns:'' @ nc_Name (ns_Node cfg) @ '':''
     else rd_Prefix (ns_Redis cfg))\<rparr>"

definition dht_config :: "DHTConfig \<Rightarrow> Config" where
  "dht_config c = \<lparr>cf_K = dc_K c, cf_Alpha = dc_Alpha c, cf_RepublishInterval = Duration_of (dc_RepublishIntervalS c) nsSecond,
     cf_ExpireAfter = Duration_of (dc_ExpireAfterS c) nsSecond, cf_LookupTimeout = Duration_of (dc_LookupTimeoutMs c) 1000000\<rparr>"

text \<open>The entry that the announcement callback hands to the search engine.\<close>

definition callback_entry :: "timefmt \<Rightarrow> int \<Rightarrow> GossipAnnouncement \<Rightarrow> GossipEntry" where
  "callback_entry T now ann = \<lparr>ge_EntityID = ga_EntityID ann, ge_Name = ga_Name ann, ge_Category = ga_Category ann,
     ge_Tags = ga_Tags ann, ge_Summary = ga_Summary ann, ge_CapabilitySummary = None, ge_HomeRegistry = ga_HomeRegistry ann,
     ge_EntityURL = ga_EntityURL ann, ge_ReceivedAt = tf_Format T now, ge_Tombstoned = False, ge_TombstoneAt = '''',
     ge_DeveloperID = '''', ge_DeveloperPublicKey = '''', ge_DeveloperProof = None, ge_Status = '''', ge_OriginPublicKey = '''',
     ge_EntityType = '''', ge_ServiceEndpoint = '''', ge_OpenAPIURL = '''', ge_EntityPricing = None\<rparr>"

definition announce_callback :: "'card search_env \<Rightarrow> timefmt \<Rightarrow> int \<Rightarrow> GossipAnnouncement \<Rightarrow> Engine \<Rightarrow> Engine" where
  "announce_callback ev T now ann e = IndexGossipEntry ev (callback_entry T now ann) e"

text \<open>The lookup that \<open>SetDHT\<close> gives to the server.\<close>

definition api_record :: "EntityDHTRecord \<Rightarrow> dhtRecord" where
  "api_record rec = \<lparr>dhtRecord.dr_EntityID = EntityDHTRecord.dr_EntityID rec, dr_Name = EntityDHTRecord.dr_Name rec,
     dr_Category = EntityDHTRecord.dr_Category rec, dr_Tags = EntityDHTRecord.dr_Tags rec, dr_Summary = EntityDHTRecord.dr_Summary rec,
     dr_EntityURL = EntityDHTRecord.dr_EntityURL rec, dr_PublicKey = EntityDHTRecord.dr_PublicKey rec,
     dr_HomeRegistry = EntityDHTRecord.dr_HomeRegistry rec, dr_DeveloperID = EntityDHTRecord.dr_DeveloperID rec,
     dr_Status = EntityDHTRecord.dr_Status rec\<rparr>"

definition dht_lookup :: "network \<Rightarrow> schedule \<Rightarrow> string \<Rightarrow> int \<Rightarrow> string \<Rightarrow> DHT \<Rightarrow> (DHT \<times> dhtRecord option) option" where
  "dht_lookup net sched rid now agentID d =
     (case NodeIDFromAgentID agentID of
        None \<Rightarrow> Some (d, None)
      | Some key \<Rightarrow> map_option (\<lambda>(d, rec). (d, map_option api_record rec)) (FindValue net sched rid now key d))"

text \<open>The intervals that \<open>time.NewTicker\<close> is called with by the goroutines of a node; the others are constants. A ticker panics
  on an interval that is not positive, and a panic in a goroutine ends the process.\<close>

definition tickers :: "NodeSettings \<Rightarrow> int list" where
  "tickers cfg = [Duration_of (gc_DedupWindowSeconds (ns_Gossip cfg)) nsSecond, Duration_of (bl_UpdateIntervalSeconds (ns_Bloom cfg)) nsSecond]
     @ (if hc_Enabled (ns_Heartbeat cfg) then [Duration_of (hc_SweepIntervalS (ns_Heartbeat cfg)) nsSecond] else [])
     @ (if dc_Enabled (ns_DHT cfg) then [default_to (cf_RepublishInterval (dht_config (ns_DHT cfg))) (3600 * nsSecond)] else [])"

section \<open>Start\<close>

record ('w, 'e, 'card) start_env =
  su_keys :: "'w key_files"
  su_toml :: "'w toml_files"
  su_store :: "string \<Rightarrow> DB option"
  su_ParseURL :: "string \<Rightarrow> redis_options option"
  su_dial :: "redis_options \<Rightarrow> bool"
  su_embedders :: "(string \<times> 'e factory) list"
  su_Dimensions :: "'e \<Rightarrow> nat"
  su_search :: "'e \<Rightarrow> 'card search_env"
  su_listen :: "int \<Rightarrow> bool \<Rightarrow> bool"

record ('card, 'j) Node =
  nd_fetcher :: "'j Fetcher"
  nd_engine :: Engine
  nd_transport :: "('card, DHT option) Transport"
  nd_MaxFederatedPeers :: int
  nd_server :: Server
  nd_searchRL :: RateLimiter
  nd_registerRL :: RateLimiter

datatype ('card, 'j) start_outcome = St_fatal string | St_panic | St_running "('card, 'j) Node"

definition start_flag :: "string \<Rightarrow> (string \<Rightarrow> string \<Rightarrow> string) option" where
  "start_flag a = (if a = ''--config'' then Some (\<lambda>val _. val) else None)"

definition start_redis :: "('w, 'e, 'card) start_env \<Rightarrow> NodeSettings \<Rightarrow> RedisCache option" where
  "start_redis U cfg =
     (if rd_URL (ns_Redis cfg) = '''' then None
      else case NewRedisCache (su_ParseURL U) (su_dial U) (redis_config cfg) of
             Inl _ \<Rightarrow> None
           | Inr c \<Rightarrow> map_option snd c)"

definition start_dht :: "NodeSettings \<Rightarrow> Keypair \<Rightarrow> DHT option option" where
  "start_dht cfg kp =
     (if dc_Enabled (ns_DHT cfg) then
        map_option Some (dht_New (NodeIDFromPublicKey (kp_PublicKey kp)) (''0.0.0.0:'' @ fmt_int (mc_ListenPort (ns_Mesh cfg)))
          (dht_config (ns_DHT cfg)))
      else Some None)"

definition wire_node :: "('w, 'e, 'card) start_env \<Rightarrow> NodeSettings \<Rightarrow> Keypair \<Rightarrow> DB \<Rightarrow> 'e \<Rightarrow> DHT option \<Rightarrow> ('card, 'j) Node" where
  "wire_node U cfg kp st embedder dhtNode =
     (let ttl = cc_AgentCardTTLSeconds (ns_Cache cfg);
          fetcher = NewFetcher (NewLRUCache (cc_MaxAgentCards (ns_Cache cfg)) ttl) (start_redis U cfg) ttl;
          engine = snd (RebuildIndexes (su_search U embedder) st (NewEngine (ss_engine (ns_Search cfg)) (su_Dimensions U embedder)));
          peerMgr = NewPeerManager (mc_MaxPeers (ns_Mesh cfg));
          gossip = SetEventBus (SetBroadcastFunc (SetAnnounceCallback
            (NewGossipHandler st (gc_MaxHops (ns_Gossip cfg)) (gc_DedupWindowSeconds (ns_Gossip cfg)))));
          transport = tr_SetEventBus (NewTransport (mc_ListenPort (ns_Mesh cfg)) (mc_BootstrapPeers (ns_Mesh cfg)) (nc_Name (ns_Node cfg))
            peerMgr gossip kp dhtNode)
      in \<lparr>nd_fetcher = fetcher, nd_engine = engine, nd_transport = transport,
          nd_MaxFederatedPeers = ss_MaxFederatedPeers (ns_Search cfg), nd_server = NewServer cfg peerMgr gossip kp,
          nd_searchRL = NewRateLimiter (ac_RateLimitSearch (ns_API cfg)), nd_registerRL = NewRateLimiter (ac_RateLimitRegister (ns_API cfg))\<rparr>)"

definition start_node :: "('w, 'e, 'card) start_env \<Rightarrow> NodeSettings \<Rightarrow> Keypair \<Rightarrow> ('card, 'j) start_outcome" where
  "start_node U cfg kp =
     (if rg_PostgresURL (ns_Registry cfg) = '''' then St_fatal ''postgres_url is required in [registry] config section''
      else case su_store U (rg_PostgresURL (ns_Registry cfg)) of
             None \<Rightarrow> St_fatal ''failed to initialize PostgreSQL store''
           | Some st \<Rightarrow>
               (case NewEmbedderFromConfig (ss_backend (ns_Search cfg)) (su_embedders U) of
                  Inl _ \<Rightarrow> St_fatal ''failed to initialize embedding backend''
                | Inr embedder \<Rightarrow>
                    (case start_dht cfg kp of
                       None \<Rightarrow> St_panic
                     | Some dhtNode \<Rightarrow>
                         if \<not> su_listen U (mc_ListenPort (ns_Mesh cfg)) (mc_TLSEnabled (ns_Mesh cfg)) then St_fatal ''failed to start mesh listener''
                         else if list_ex (\<lambda>d. d \<le> 0) (tickers cfg) then St_panic
                         else St_running (wire_node U cfg kp st embedder dhtNode))))"

definition cmdStart :: "('w, 'e, 'card) start_env \<Rightarrow> string list \<Rightarrow> 'w files \<Rightarrow> ('card, 'j) start_outcome" where
  "cmdStart U args fs =
     (case Load (su_toml U) (kf_home (su_keys U)) (parse_args start_flag (\<lambda>_. None) args (config_toml (su_keys U))) fs of
        Inl _ \<Rightarrow> St_fatal ''failed to load config''
      | Inr cfg \<Rightarrow>
          (case load_key (su_keys U) fs (identity_json (su_keys U)) of
             None \<Rightarrow> St_fatal ''failed to load identity''
           | Some kp \<Rightarrow> start_node U cfg kp))"

section \<open>Starting an initialised node\<close>

lemma Duration_of_small: "0 \<le> n * u \<Longrightarrow> n * u < 2 ^ 63 \<Longrightarrow> Duration_of n u = n * u"
proof -
  assume h: "0 \<le> n * u" "n * u < 2 ^ 63"
  have "word_of_int n * word_of_int u = (word_of_int (n * u) :: 64 word)" by simp
  then have "Duration_of n u = sint (word_of_int (n * u) :: 64 word)" unfolding Duration_of_def by (rule arg_cong)
  also have "\<dots> = n * u" using h by (subst sint_sbintrunc', intro signed_take_bit_int_eq_self) simp_all
  finally show ?thesis .
qed

lemma init_outcome:
  assumes K: "files_ok K" "fs (identity_json K) = None" and seed: "length seed = SeedSize"
    and M: "tm_mkdir M" "tm_create M" "\<And>cfg. snd (tm_encode M cfg)" "toml_ok M" "\<not> tm_unreadable M (config_toml K)"
  obtains kp fs' where "cmdInit E K M (Some seed) args fs = (C_info (kp_RegistryID kp), fs')"
    "load_key K fs' (identity_json K) = Some kp" "kp = keypair_of E (ed_NewKeyFromSeed E seed)"
    "Load M homeDir (config_toml K) fs' = Inr (init_config K (parse_args init_flag (\<lambda>_. None) args ''''))"
proof -
  let ?kp = "keypair_of E (ed_NewKeyFromSeed E seed)" and ?cfg = "init_config K (parse_args init_flag (\<lambda>_. None) args '''')"
  have gen: "GenerateKeypair E (Some seed) = Some ?kp" by (simp add: GenerateKeypair_def)
  obtain fs1 where f1: "save_key K ?kp (identity_json K) fs = (True, fs1)" "load_key K fs1 (identity_json K) = Some ?kp"
    using save_load[OF K(1), of ?kp] by (auto simp: keypair_of_def)
  obtain fs2 where f2: "Save M ?cfg (config_toml K) fs1 = (Inr (), fs2)"
    using M(1,2) M(3)[of ?cfg] by (cases "tm_encode M ?cfg") (simp add: Save_def)
  have ne: "config_toml K \<noteq> ''''" "identity_json K \<noteq> config_toml K" by (simp_all add: config_toml_def identity_json_def)
  have "fs2 (identity_json K) = fs1 (identity_json K)" by (rule load_saved(2)[OF M(4) f2 ne(1) M(5) ne(2)])
  then have key: "load_key K fs2 (identity_json K) = Some ?kp" using f1(2) by (simp add: load_key_def)
  have init: "cmdInit E K M (Some seed) args fs = (C_info (kp_RegistryID ?kp), fs2)"
    using K gen f1(1) f2 unfolding cmdInit_def Let_def files_ok_def by simp
  show ?thesis by (rule that[OF init key refl load_saved(1)[OF M(4) f2 ne(1) M(5)]])
qed

lemma init_config_sections:
  "ns_Mesh (init_config K h) = ns_Mesh (DefaultSettings (kf_home K))" "ns_Gossip (init_config K h) = ns_Gossip (DefaultSettings (kf_home K))"
  "ns_Registry (init_config K h) = ns_Registry (DefaultSettings (kf_home K))" "ns_Search (init_config K h) = default_search"
  "ns_Cache (init_config K h) = ns_Cache (DefaultSettings (kf_home K))" "ns_Redis (init_config K h) = ns_Redis (DefaultSettings (kf_home K))"
  "ns_API (init_config K h) = ns_API (DefaultSettings (kf_home K))" "ns_Bloom (init_config K h) = ns_Bloom (DefaultSettings (kf_home K))"
  "ns_Heartbeat (init_config K h) = ns_Heartbeat (DefaultSettings (kf_home K))" "ns_DHT (init_config K h) = ns_DHT (DefaultSettings (kf_home K))"
  "ns_Onboarding (init_config K h) = ns_Onboarding (DefaultSettings (kf_home K))" "nc_HTTPSEndpoint (ns_Node (init_config K h)) = h"
  by (simp_all add: init_config_def DefaultSettings_def Let_def)

lemma default_tickers: "list_all (\<lambda>d. 0 < d) (tickers (init_config K h))"
  by (simp add: tickers_def init_config_sections DefaultSettings_def dht_config_def Duration_of_small nsSecond_def default_to_def)

lemma wire_node_parts:
  "s_cfg (nd_server (wire_node U cfg kp st em d)) = server_config cfg" "s_nodeIdentity (nd_server (wire_node U cfg kp st em d)) = kp"
  "s_peerManager (nd_server (wire_node U cfg kp st em d)) = NewPeerManager (mc_MaxPeers (ns_Mesh cfg))"
  "s_gossip (nd_server (wire_node U cfg kp st em d)) = SetEventBus (SetBroadcastFunc (SetAnnounceCallback
     (NewGossipHandler st (gc_MaxHops (ns_Gossip cfg)) (gc_DedupWindowSeconds (ns_Gossip cfg)))))"
  "tr_peerMgr (nd_transport (wire_node U cfg kp st em d)) = NewPeerManager (mc_MaxPeers (ns_Mesh cfg))"
  "tr_kp (nd_transport (wire_node U cfg kp st em d)) = kp" "tr_dht (nd_transport (wire_node U cfg kp st em d)) = d"
  "tr_gossip (nd_transport (wire_node U cfg kp st em d)) = SetEventBus (SetBroadcastFunc (SetAnnounceCallback
     (NewGossipHandler st (gc_MaxHops (ns_Gossip cfg)) (gc_DedupWindowSeconds (ns_Gossip cfg)))))"
  by (simp_all add: wire_node_def Let_def tr_SetEventBus_def NewTransport_def NewServer_def)

lemma tr_SetEventBus_inv [simp]: "tr_inv (tr_SetEventBus t) = tr_inv t"
  by (simp add: tr_SetEventBus_def tr_inv_def)

lemma wire_node_inv: "tr_inv (nd_transport (wire_node U cfg kp st em d))"
  by (simp add: wire_node_def Let_def NewTransport_inv)

lemma start_dht_enabled:
  assumes "dc_Enabled (ns_DHT cfg)"
  shows "(start_dht cfg kp = None) = (dc_K (ns_DHT cfg) < 0)"
    "0 \<le> dc_K (ns_DHT cfg) \<Longrightarrow> 0 \<le> dc_Alpha (ns_DHT cfg) \<Longrightarrow> \<exists>d. start_dht cfg kp = Some (Some d) \<and> dht_inv d \<and> d_store d = Map.empty"
proof -
  show "(start_dht cfg kp = None) = (dc_K (ns_DHT cfg) < 0)"
    using assms by (auto simp: start_dht_def dht_New_def Let_def NewRoutingTable_def newKBucket_def default_to_def dht_config_def DefaultK_def)
  assume "0 \<le> dc_K (ns_DHT cfg)" "0 \<le> dc_Alpha (ns_DHT cfg)"
  then have k: "0 \<le> cf_K (dht_config (ns_DHT cfg))" "0 \<le> cf_Alpha (dht_config (ns_DHT cfg))" by (simp_all add: dht_config_def)
  obtain d where "dht_New (NodeIDFromPublicKey (kp_PublicKey kp)) (''0.0.0.0:'' @ fmt_int (mc_ListenPort (ns_Mesh cfg))) (dht_config (ns_DHT cfg)) = Some d"
    "dht_inv d" "d_store d = Map.empty"
    by (rule dht_New_inv[OF k])
  then show "\<exists>d. start_dht cfg kp = Some (Some d) \<and> dht_inv d \<and> d_store d = Map.empty" using assms by (simp add: start_dht_def)
qed

lemma default_fetcher: "fresh_fetcher (seconds 3600) (seconds 3600) rc (nd_fetcher (wire_node U (init_config K h) kp st em d))"
  by (simp add: wire_node_def Let_def init_config_sections DefaultSettings_def start_redis_def) (rule NewFetcher_fresh, simp_all)


section \<open>Configurations that do not run\<close>

lemma Duration_of_pos:
  assumes "\<bar>n\<bar> < 2 ^ 33"
  shows "0 < Duration_of n nsSecond \<longleftrightarrow> 0 < n" "Duration_of n nsSecond = 0 \<longleftrightarrow> n = 0"
proof -
  have "- (2 ^ 63) \<le> n * 1000000000" "n * 1000000000 < 2 ^ 63" using assms by (auto simp: abs_less_iff)
  then have "sint (word_of_int (n * 1000000000) :: 64 word) = n * 1000000000"
    by (subst sint_sbintrunc', intro signed_take_bit_int_eq_self) simp_all
  then have "Duration_of n nsSecond = n * 1000000000" by (simp add: Duration_of_def nsSecond_def)
  then show "0 < Duration_of n nsSecond \<longleftrightarrow> 0 < n" "Duration_of n nsSecond = 0 \<longleftrightarrow> n = 0" by auto
qed

text \<open>Which configurations run. The configuration is not validated when it is loaded. With the database, the embedding backend and the mesh
  port available, the node runs exactly if the duplicate window and the update interval of the Bloom filters are positive, the sweep
  interval is positive unless heartbeats are disabled, and the DHT, unless it is disabled, has a bucket size and a republish interval that are not
  negative; any other configuration makes the process panic after it has started listening, whatever the other fields say.\<close>

theorem start_survives_iff:
  fixes U :: "('w, 'e, 'card) start_env"
  assumes "Load (su_toml U) (kf_home (su_keys U)) (parse_args start_flag (\<lambda>_. None) args (config_toml (su_keys U))) fs = Inr cfg"
    and "load_key (su_keys U) fs (identity_json (su_keys U)) = Some kp"
    and "rg_PostgresURL (ns_Registry cfg) \<noteq> ''''" "su_store U (rg_PostgresURL (ns_Registry cfg)) = Some st"
    and "NewEmbedderFromConfig (ss_backend (ns_Search cfg)) (su_embedders U) = Inr embedder"
    and "su_listen U (mc_ListenPort (ns_Mesh cfg)) (mc_TLSEnabled (ns_Mesh cfg))"
    and small: "\<bar>gc_DedupWindowSeconds (ns_Gossip cfg)\<bar> < 2 ^ 33" "\<bar>bl_UpdateIntervalSeconds (ns_Bloom cfg)\<bar> < 2 ^ 33"
      "\<bar>hc_SweepIntervalS (ns_Heartbeat cfg)\<bar> < 2 ^ 33" "\<bar>dc_RepublishIntervalS (ns_DHT cfg)\<bar> < 2 ^ 33"
  shows "if 0 < gc_DedupWindowSeconds (ns_Gossip cfg) \<and> 0 < bl_UpdateIntervalSeconds (ns_Bloom cfg) \<and>
       (hc_Enabled (ns_Heartbeat cfg) \<longrightarrow> 0 < hc_SweepIntervalS (ns_Heartbeat cfg)) \<and>
       (dc_Enabled (ns_DHT cfg) \<longrightarrow> 0 \<le> dc_K (ns_DHT cfg) \<and> 0 \<le> dc_RepublishIntervalS (ns_DHT cfg))
     then \<exists>node. cmdStart U args fs = St_running (node :: ('card, 'j) Node)
     else cmdStart U args fs = (St_panic :: ('card, 'j) start_outcome)"
proof -
  have start: "cmdStart U args fs = (start_node U cfg kp :: ('card, 'j) start_outcome)" using assms(1,2) by (simp add: cmdStart_def)
  have dht: "(start_dht cfg kp = None) = (dc_Enabled (ns_DHT cfg) \<and> dc_K (ns_DHT cfg) < 0)"
    using start_dht_enabled(1)[of cfg kp] by (auto simp: start_dht_def)
  have rep: "0 < default_to (Duration_of (dc_RepublishIntervalS (ns_DHT cfg)) nsSecond) (3600 * nsSecond) \<longleftrightarrow> 0 \<le> dc_RepublishIntervalS (ns_DHT cfg)"
    using Duration_of_pos[OF small(4)] by (auto simp: default_to_def nsSecond_def)
  have "list_ex (\<lambda>d. d \<le> 0) (tickers cfg) \<longleftrightarrow> \<not> (0 < gc_DedupWindowSeconds (ns_Gossip cfg) \<and> 0 < bl_UpdateIntervalSeconds (ns_Bloom cfg) \<and>
       (hc_Enabled (ns_Heartbeat cfg) \<longrightarrow> 0 < hc_SweepIntervalS (ns_Heartbeat cfg)) \<and> (dc_Enabled (ns_DHT cfg) \<longrightarrow> 0 \<le> dc_RepublishIntervalS (ns_DHT cfg)))"
    using Duration_of_pos(1)[OF small(1)] Duration_of_pos(1)[OF small(2)] Duration_of_pos(1)[OF small(3)] rep
    by (auto simp: tickers_def dht_config_def not_le)
  then show ?thesis
    using assms(3-6) dht unfolding start start_node_def by (cases "start_dht cfg kp") auto
qed

section \<open>The DHT of a started node\<close>

text \<open>Everything that the program does with the DHT of a node besides answering messages: lookups for the server and
  the two background loops. The result is the record found and the messages sent for storing.\<close>

datatype dht_use =
    UseLookup network schedule string int string
  | UseExpire int
  | UseRepublish "string \<Rightarrow> network" schedule string int "string list"

fun use_dht :: "dht_use \<Rightarrow> DHT \<Rightarrow> ((dhtRecord option \<times> (string \<times> Message) list) \<times> DHT) option" where
  "use_dht (UseLookup net sched rid now agentID) d = map_option (\<lambda>(d', r). ((r, []), d')) (dht_lookup net sched rid now agentID d)"
| "use_dht (UseExpire now) d = Some ((None, []), expire now d)"
| "use_dht (UseRepublish nets sched rid now order) d = map_option (\<lambda>msgs. ((None, msgs), d)) (republish nets sched rid now order d)"

fun use_dhts :: "dht_use list \<Rightarrow> DHT \<Rightarrow> ((dhtRecord option \<times> (string \<times> Message) list) list \<times> DHT) option" where
  "use_dhts [] d = Some ([], d)"
| "use_dhts (u # us) d = (case use_dht u d of None \<Rightarrow> None
     | Some (r, d) \<Rightarrow> map_option (\<lambda>(rs, d). (r # rs, d)) (use_dhts us d))"

definition dht_idle :: "DHT \<Rightarrow> bool" where
  "dht_idle d = (d_store d = Map.empty \<and> AllNodes (d_routingTable d) = [] \<and> 0 \<le> cf_Alpha (d_config d))"

lemma idle_find:
  assumes "dht_idle d"
  shows "FindValue net sched rid now key d = Some (d, None)"
  using assms by (simp add: dht_idle_def FindValue_def getLocal_def iterativeFindValue_def FindClosest_Some sort_Slice_def)

lemma idle_republish: "d_store d = Map.empty \<Longrightarrow> republish nets sched rid now order d = Some []"
  by (induction order) (simp_all add: Let_def)

lemma idle_use: "dht_idle d \<Longrightarrow> use_dht u d = Some ((None, []), d)"
proof (cases u)
  case (UseLookup net sched rid now agentID)
  assume "dht_idle d"
  then show ?thesis using UseLookup by (simp add: dht_lookup_def idle_find split: option.split)
next
  case (UseExpire now)
  assume "dht_idle d"
  then show ?thesis using UseExpire by (simp add: dht_idle_def expire_def Let_def)
next
  case (UseRepublish nets sched rid now order)
  assume "dht_idle d"
  then show ?thesis using UseRepublish idle_republish[of d] by (simp add: dht_idle_def)
qed

lemma start_dht_idle:
  assumes "start_dht cfg kp = Some (Some d)" "0 \<le> dc_Alpha (ns_DHT cfg)"
  shows "dht_idle d"
  using assms by (auto simp: start_dht_def dht_New_def Let_def NewRoutingTable_def newKBucket_def dht_idle_def AllNodes_def kb_Entries_def default_to_def
      dht_config_def DefaultAlpha_def split: if_splits option.splits)


section \<open>Concrete nodes\<close>

text \<open>A home directory that holds key files and configurations as they are.\<close>

definition sample_keys :: "(string \<times> string + NodeSettings) key_files" where
  "sample_keys = \<lparr>kf_unmarshal = (\<lambda>w. case w of Inl p \<Rightarrow> Some p | Inr _ \<Rightarrow> None), kf_marshal = (\<lambda>p. Some (Inl p)), kf_mkdir = True,
     kf_write = True, kf_home = ''/h''\<rparr>"

definition sample_toml :: "(string \<times> string + NodeSettings) toml_files" where
  "sample_toml = \<lparr>tm_decode = (\<lambda>w base. case w of Inl _ \<Rightarrow> None | Inr cfg \<Rightarrow> Some cfg), tm_encode = (\<lambda>cfg. (Inr cfg, True)),
     tm_unreadable = (\<lambda>_. False), tm_mkdir = True, tm_create = True\<rparr>"

definition sample_start :: "(string \<times> string + NodeSettings, HashEmbedder, string) start_env" where
  "sample_start = \<lparr>su_keys = sample_keys, su_toml = sample_toml, su_store = (\<lambda>_. Some empty_db), su_ParseURL = (\<lambda>_. None), su_dial = (\<lambda>_. True),
     su_embedders = RegisterEmbedder ''hash'' hash_factory [], su_Dimensions = hash_Dimensions,
     su_search = (\<lambda>_. EngineProps.sample_env), su_listen = (\<lambda>_ _. True)\<rparr>"

lemma sample_start_ok: "files_ok (su_keys sample_start)" "toml_ok (su_toml sample_start)"
  by (simp_all add: sample_start_def sample_keys_def sample_toml_def files_ok_def toml_ok_def)


theorem start_survives_iff_witness:
  "cmdStart sample_start [] ((\<lambda>_. None)(''/h/.zynd/identity.json'' \<mapsto> Inl ('''', ''''), ''/h/.zynd/config.toml'' \<mapsto>
      Inr ((DefaultSettings ''/h'')\<lparr>ns_Gossip := \<lparr>gc_MaxHops = 10, gc_MaxAnnouncementsPerSecond = 100, gc_DedupWindowSeconds = 0\<rparr>\<rparr>)))
    = (St_panic :: (string, unit) start_outcome)"
proof -
  let ?cfg = "(DefaultSettings ''/h'')\<lparr>ns_Gossip := \<lparr>gc_MaxHops = 10, gc_MaxAnnouncementsPerSecond = 100, gc_DedupWindowSeconds = 0\<rparr>\<rparr>"
  let ?fs = "(\<lambda>_. None)(''/h/.zynd/identity.json'' \<mapsto> Inl ('''', ''''), ''/h/.zynd/config.toml'' \<mapsto> Inr ?cfg)"
  let ?kp = "\<lparr>kp_PublicKey = [], kp_PrivateKey = [], kp_PublicKeyB64 = '''', kp_PrivateKeyB64 = ''''\<rparr>"
  have u: "config_toml sample_keys = ''/h/.zynd/config.toml''" "identity_json sample_keys = ''/h/.zynd/identity.json''" "kf_home sample_keys = ''/h''"
    "su_keys sample_start = sample_keys" "su_toml sample_start = sample_toml"
    by (simp_all add: config_toml_def identity_json_def sample_keys_def sample_start_def)
  have b64: "b64_DecodeString '''' = Some []" by code_simp
  have 1: "Load (su_toml sample_start) (kf_home (su_keys sample_start)) (parse_args start_flag (\<lambda>_. None) [] (config_toml (su_keys sample_start))) ?fs = Inr ?cfg"
    unfolding u by (simp add: Load_def sample_toml_def)
  have 2: "load_key (su_keys sample_start) ?fs (identity_json (su_keys sample_start)) = Some ?kp"
    unfolding u by (simp add: load_key_def LoadKeypair_def sample_keys_def b64)
  have 3: "su_store sample_start x = Some empty_db" "su_listen sample_start n b" for x n b by (simp_all add: sample_start_def)
  have 4: "NewEmbedderFromConfig (ss_backend (ns_Search ?cfg)) (su_embedders sample_start) = Inr (NewHashEmbedder 384)"
    by (simp add: sample_start_def DefaultSettings_def default_search_def NewEmbedderFromConfig_def RegisterEmbedder_def hash_factory_def)
  show ?thesis
    using start_survives_iff[OF 1 2 _ 3(1) 4 3(2), where 'j = unit] by (simp add: DefaultSettings_def)
qed


end
