(* ===== verification/Bus.thy ===== *)
theory Bus
  imports Prelude "HOL-Library.Sublist"
begin

text \<open>
  The event bus (\<open>src/internal/events/bus.go\<close>). A channel is an object with a buffer of at most 256 events; the
  bus keeps the channels it has made and the set of those that are subscribed. Sending on a closed channel and
  closing a channel twice panic (\<^term>\<open>None\<close>). Where \<open>Publish\<close> ranges over the set, the order it happens to
  see is the argument \<open>order\<close>; \<open>ts\<close> is the formatted time. The subscribers (the WebSocket handlers) are
  goroutines of their own: they subscribe, receive, and unsubscribe once, and their steps interleave with
  publications. \<open>Publish\<close> holds the read lock to its end and \<open>Unsubscribe\<close> deletes under the write lock and closes
  the channel after it has released it, so these are the atomic steps.
\<close>

section \<open>The bus\<close>

record 'd Event =
  e_Type :: string
  e_Timestamp :: string
  e_Data :: 'd

record 'd channel =
  ch_buf :: "'d Event list"
  ch_closed :: bool

record 'd Bus =
  bus_chans :: "'d channel list"
  bus_subscribers :: "nat list"

definition buffer_size :: nat where "buffer_size = 256"

definition NewBus :: "'d Bus" where
  "NewBus = \<lparr>bus_chans = [], bus_subscribers = []\<rparr>"

definition Subscribe :: "'d Bus \<Rightarrow> nat \<times> 'd Bus" where
  "Subscribe b =
     (let ch = length (bus_chans b)
      in (ch, b\<lparr>bus_chans := bus_chans b @ [\<lparr>ch_buf = [], ch_closed = False\<rparr>], bus_subscribers := bus_subscribers b @ [ch]\<rparr>))"

text \<open>The two steps of \<open>Unsubscribe\<close>.\<close>

definition unsubscribe_delete :: "nat \<Rightarrow> 'd Bus \<Rightarrow> 'd Bus" where
  "unsubscribe_delete ch b = b\<lparr>bus_subscribers := removeAll ch (bus_subscribers b)\<rparr>"

definition close_channel :: "nat \<Rightarrow> 'd Bus \<Rightarrow> 'd Bus option" where
  "close_channel ch b =
     (let c = bus_chans b ! ch
      in if ch_closed c then None else Some (b\<lparr>bus_chans := (bus_chans b)[ch := c\<lparr>ch_closed := True\<rparr>]\<rparr>))"

definition Unsubscribe :: "nat \<Rightarrow> 'd Bus \<Rightarrow> 'd Bus option" where
  "Unsubscribe ch b = close_channel ch (unsubscribe_delete ch b)"

text \<open>One send of \<open>Publish\<close> (a \<open>select\<close> with a default), and the whole.\<close>

definition try_send :: "'d Event \<Rightarrow> 'd channel \<Rightarrow> 'd channel option" where
  "try_send e c =
     (if ch_closed c then None
      else if length (ch_buf c) < buffer_size then Some (c\<lparr>ch_buf := ch_buf c @ [e]\<rparr>) else Some c)"

fun publish_loop :: "'d Event \<Rightarrow> nat list \<Rightarrow> 'd Bus \<Rightarrow> 'd Bus option" where
  "publish_loop e [] b = Some b"
| "publish_loop e (ch # chs) b =
     (case try_send e (bus_chans b ! ch) of
        None \<Rightarrow> None
      | Some c \<Rightarrow> publish_loop e chs (b\<lparr>bus_chans := (bus_chans b)[ch := c]\<rparr>))"

definition bus_Publish :: "(nat list \<Rightarrow> nat list) \<Rightarrow> string \<Rightarrow> string \<Rightarrow> 'd \<Rightarrow> 'd Bus \<Rightarrow> 'd Bus option" where
  "bus_Publish order eventType ts data b =
     publish_loop \<lparr>e_Type = eventType, e_Timestamp = ts, e_Data = data\<rparr> (order (bus_subscribers b)) b"

definition receive :: "nat \<Rightarrow> 'd Bus \<Rightarrow> ('d Event \<times> 'd Bus) option" where
  "receive ch b = (case ch_buf (bus_chans b ! ch) of
       [] \<Rightarrow> None
     | e # es \<Rightarrow> Some (e, b\<lparr>bus_chans := (bus_chans b)[ch := (bus_chans b ! ch)\<lparr>ch_buf := es\<rparr>]\<rparr>))"

section \<open>The bus with its subscribers\<close>

datatype client_phase = Live | Leaving | Gone

text \<open>Beside the bus: what every subscriber is doing, what it has received, and what was published since it
  subscribed.\<close>

record 'd system =
  sy_bus :: "'d Bus"
  sy_phase :: "client_phase list"
  sy_got :: "'d Event list list"
  sy_due :: "'d Event list list"

definition start :: "'d system" where
  "start = \<lparr>sy_bus = NewBus, sy_phase = [], sy_got = [], sy_due = []\<rparr>"

definition published :: "'d Event \<Rightarrow> 'd system \<Rightarrow> 'd Event list list" where
  "published e s = map (\<lambda>i. if sy_phase s ! i = Live then sy_due s ! i @ [e] else sy_due s ! i) [0..<length (sy_due s)]"

inductive bus_step :: "'d system \<Rightarrow> 'd system \<Rightarrow> bool" where
  join: "Subscribe (sy_bus s) = (ch, b) \<Longrightarrow>
    bus_step s \<lparr>sy_bus = b, sy_phase = sy_phase s @ [Live], sy_got = sy_got s @ [[]], sy_due = sy_due s @ [[]]\<rparr>"
| publish: "(\<And>xs. mset (order xs) = mset xs) \<Longrightarrow> bus_Publish order typ ts data (sy_bus s) = Some b \<Longrightarrow>
    bus_step s (s\<lparr>sy_bus := b, sy_due := published \<lparr>e_Type = typ, e_Timestamp = ts, e_Data = data\<rparr> s\<rparr>)"
| recv: "ch < length (sy_phase s) \<Longrightarrow> sy_phase s ! ch = Live \<Longrightarrow> receive ch (sy_bus s) = Some (e, b) \<Longrightarrow>
    bus_step s (s\<lparr>sy_bus := b, sy_got := (sy_got s)[ch := sy_got s ! ch @ [e]]\<rparr>)"
| leave: "ch < length (sy_phase s) \<Longrightarrow> sy_phase s ! ch = Live \<Longrightarrow>
    bus_step s (s\<lparr>sy_bus := unsubscribe_delete ch (sy_bus s), sy_phase := (sy_phase s)[ch := Leaving]\<rparr>)"
| close: "ch < length (sy_phase s) \<Longrightarrow> sy_phase s ! ch = Leaving \<Longrightarrow> close_channel ch (sy_bus s) = Some b \<Longrightarrow>
    bus_step s (s\<lparr>sy_bus := b, sy_phase := (sy_phase s)[ch := Gone]\<rparr>)"

inductive_simps bus_step_simps: "bus_step s t"

inductive reachable :: "'d system \<Rightarrow> bool" where
  init: "reachable start"
| next_step: "reachable s \<Longrightarrow> bus_step s t \<Longrightarrow> reachable t"

section \<open>The invariant\<close>

text \<open>The channels of the subscribers are the channels of the bus; the live ones are subscribed, once, and the closed
  ones are those of subscribers that are gone. A live subscriber has got, or will get from its buffer, a part of
  what was published since it came, in order, and everything as long as that fits the buffer.\<close>

definition chan_ok :: "client_phase \<Rightarrow> 'd channel \<Rightarrow> 'd Event list \<Rightarrow> 'd Event list \<Rightarrow> bool" where
  "chan_ok p c got due =
     ((ch_closed c \<longleftrightarrow> p = Gone) \<and> length (ch_buf c) \<le> buffer_size \<and>
      (p = Live \<longrightarrow> subseq (got @ ch_buf c) due \<and> (length due \<le> buffer_size \<longrightarrow> got @ ch_buf c = due)))"

definition sys_inv :: "'d system \<Rightarrow> bool" where
  "sys_inv s =
     (length (bus_chans (sy_bus s)) = length (sy_phase s) \<and> length (sy_got s) = length (sy_phase s) \<and>
      length (sy_due s) = length (sy_phase s) \<and> distinct (bus_subscribers (sy_bus s)) \<and>
      (\<forall>i. i \<in> set (bus_subscribers (sy_bus s)) \<longleftrightarrow> i < length (sy_phase s) \<and> sy_phase s ! i = Live) \<and>
      (\<forall>i<length (sy_phase s). chan_ok (sy_phase s ! i) (bus_chans (sy_bus s) ! i) (sy_got s ! i) (sy_due s ! i)))"

lemma try_send_ok: "\<not> ch_closed c \<Longrightarrow> \<exists>c'. try_send e c = Some c'"
  by (simp add: try_send_def)

lemma try_send_chan_ok:
  assumes "chan_ok Live c got due" "try_send e c = Some c'"
  shows "chan_ok Live c' got (due @ [e])"
proof -
  have "subseq (got @ ch_buf c @ [e]) (due @ [e])" if "subseq (got @ ch_buf c) due"
    using list_emb_append_mono[OF that, of "[e]" "[e]"] by simp
  then show ?thesis using assms by (auto simp: chan_ok_def try_send_def split: if_splits)
qed

text \<open>What the loop of \<open>Publish\<close> does to every channel.\<close>

lemma publish_loop_spec:
  assumes "distinct chs" "\<forall>i\<in>set chs. i < length (bus_chans b) \<and> \<not> ch_closed (bus_chans b ! i)"
  shows "\<exists>b'. publish_loop e chs b = Some b' \<and> bus_subscribers b' = bus_subscribers b \<and>
    length (bus_chans b') = length (bus_chans b) \<and>
    (\<forall>i<length (bus_chans b). if i \<in> set chs then try_send e (bus_chans b ! i) = Some (bus_chans b' ! i)
       else bus_chans b' ! i = bus_chans b ! i)"
  using assms
proof (induction chs arbitrary: b)
  case (Cons ch chs)
  then obtain c where c: "try_send e (bus_chans b ! ch) = Some c" using try_send_ok by force
  let ?b = "b\<lparr>bus_chans := (bus_chans b)[ch := c]\<rparr>"
  have "\<forall>i\<in>set chs. i < length (bus_chans ?b) \<and> \<not> ch_closed (bus_chans ?b ! i)"
    using Cons.prems by (auto simp: nth_list_update)
  then obtain b' where b': "publish_loop e chs ?b = Some b'" "bus_subscribers b' = bus_subscribers ?b"
    "length (bus_chans b') = length (bus_chans ?b)"
    "\<forall>i<length (bus_chans b). if i \<in> set chs then try_send e ((bus_chans b)[ch := c] ! i) = Some (bus_chans b' ! i)
       else bus_chans b' ! i = (bus_chans b)[ch := c] ! i"
    using Cons.IH[of ?b] Cons.prems(1) by (auto cong: if_cong)
  show ?case
  proof (intro exI[of _ b'] conjI allI impI)
    fix i assume i: "i < length (bus_chans b)"
    have "if i \<in> set chs then try_send e ((bus_chans b)[ch := c] ! i) = Some (bus_chans b' ! i)
       else bus_chans b' ! i = (bus_chans b)[ch := c] ! i" using b'(4) i by blast
    then show "if i \<in> set (ch # chs) then try_send e (bus_chans b ! i) = Some (bus_chans b' ! i) else bus_chans b' ! i = bus_chans b ! i"
      using i c Cons.prems(1) by (cases "i = ch") (auto split: if_splits)
  qed (use c b' in simp_all)
qed simp

lemma start_inv: "sys_inv start"
  by (simp add: sys_inv_def start_def NewBus_def)

lemma publish_ok:
  assumes "sys_inv s" "\<And>xs. mset (order xs) = mset xs"
  shows "\<exists>b. bus_Publish order typ ts data (sy_bus s) = Some b"
proof -
  have "set (order (bus_subscribers (sy_bus s))) = set (bus_subscribers (sy_bus s))" "distinct (order (bus_subscribers (sy_bus s)))"
    using assms(2)[of "bus_subscribers (sy_bus s)"] assms(1) by (auto simp: sys_inv_def dest: mset_eq_setD mset_eq_imp_distinct_iff)
  then show ?thesis
    using assms(1) publish_loop_spec[of "order (bus_subscribers (sy_bus s))" "sy_bus s" "\<lparr>e_Type = typ, e_Timestamp = ts, e_Data = data\<rparr>"]
    by (auto simp: bus_Publish_def sys_inv_def chan_ok_def)
qed

lemma publish_inv:
  assumes inv: "sys_inv s" and order: "\<And>xs. mset (order xs) = mset xs" and pub: "bus_Publish order typ ts data (sy_bus s) = Some b"
  shows "sys_inv (s\<lparr>sy_bus := b, sy_due := published \<lparr>e_Type = typ, e_Timestamp = ts, e_Data = data\<rparr> s\<rparr>)"
proof -
  let ?e = "\<lparr>e_Type = typ, e_Timestamp = ts, e_Data = data\<rparr>" and ?b = "sy_bus s"
  have set: "set (order (bus_subscribers ?b)) = set (bus_subscribers ?b)" and dist: "distinct (order (bus_subscribers ?b))"
    using order[of "bus_subscribers ?b"] inv by (auto simp: sys_inv_def dest: mset_eq_setD mset_eq_imp_distinct_iff)
  have open_chans: "\<forall>i\<in>set (order (bus_subscribers ?b)). i < length (bus_chans ?b) \<and> \<not> ch_closed (bus_chans ?b ! i)"
    using inv by (auto simp: set sys_inv_def chan_ok_def)
  have b: "bus_subscribers b = bus_subscribers ?b" "length (bus_chans b) = length (bus_chans ?b)"
    "\<forall>i<length (bus_chans ?b). if i \<in> set (bus_subscribers ?b) then try_send ?e (bus_chans ?b ! i) = Some (bus_chans b ! i)
       else bus_chans b ! i = bus_chans ?b ! i"
    using publish_loop_spec[OF dist open_chans, of ?e] pub set by (auto simp: bus_Publish_def)
  have "chan_ok (sy_phase s ! i) (bus_chans b ! i) (sy_got s ! i) (published ?e s ! i)" if i: "i < length (sy_phase s)" for i
  proof -
    have ok: "chan_ok (sy_phase s ! i) (bus_chans ?b ! i) (sy_got s ! i) (sy_due s ! i)" using inv i by (simp add: sys_inv_def)
    show ?thesis
    proof (cases "sy_phase s ! i = Live")
      case True
      then have "try_send ?e (bus_chans ?b ! i) = Some (bus_chans b ! i)" using b(3) inv i by (auto simp: sys_inv_def)
      then show ?thesis using try_send_chan_ok[OF ok[unfolded True]] True i inv by (simp add: published_def sys_inv_def)
    next
      case False
      then have "bus_chans b ! i = bus_chans ?b ! i" using b(3) inv i by (auto simp: sys_inv_def)
      then show ?thesis using ok False i inv by (simp add: published_def sys_inv_def)
    qed
  qed
  then show ?thesis using inv b by (simp add: sys_inv_def published_def)
qed

lemma recv_inv:
  assumes inv: "sys_inv s" and ch: "ch < length (sy_phase s)" "sy_phase s ! ch = Live" and r: "receive ch (sy_bus s) = Some (e, b)"
  shows "sys_inv (s\<lparr>sy_bus := b, sy_got := (sy_got s)[ch := sy_got s ! ch @ [e]]\<rparr>)"
proof -
  obtain es where es: "ch_buf (bus_chans (sy_bus s) ! ch) = e # es"
    "b = (sy_bus s)\<lparr>bus_chans := (bus_chans (sy_bus s))[ch := (bus_chans (sy_bus s) ! ch)\<lparr>ch_buf := es\<rparr>]\<rparr>"
    using r by (auto simp: receive_def split: list.splits)
  have "chan_ok Live (bus_chans (sy_bus s) ! ch) (sy_got s ! ch) (sy_due s ! ch)" using inv ch by (auto simp: sys_inv_def)
  then have "chan_ok Live ((bus_chans (sy_bus s) ! ch)\<lparr>ch_buf := es\<rparr>) (sy_got s ! ch @ [e]) (sy_due s ! ch)"
    using es(1) by (simp add: chan_ok_def)
  then show ?thesis using inv ch unfolding sys_inv_def es(2) by (auto simp: nth_list_update)
qed

lemma leave_inv:
  assumes "sys_inv s" "ch < length (sy_phase s)" "sy_phase s ! ch = Live"
  shows "sys_inv (s\<lparr>sy_bus := unsubscribe_delete ch (sy_bus s), sy_phase := (sy_phase s)[ch := Leaving]\<rparr>)"
  using assms by (auto simp: sys_inv_def unsubscribe_delete_def distinct_removeAll nth_list_update chan_ok_def)

lemma close_inv:
  assumes "sys_inv s" "ch < length (sy_phase s)" "sy_phase s ! ch = Leaving" "close_channel ch (sy_bus s) = Some b"
  shows "sys_inv (s\<lparr>sy_bus := b, sy_phase := (sy_phase s)[ch := Gone]\<rparr>)"
  using assms by (auto simp: sys_inv_def close_channel_def Let_def nth_list_update chan_ok_def split: if_splits)

lemma join_inv:
  assumes "sys_inv s" "Subscribe (sy_bus s) = (ch, b)"
  shows "sys_inv \<lparr>sy_bus = b, sy_phase = sy_phase s @ [Live], sy_got = sy_got s @ [[]], sy_due = sy_due s @ [[]]\<rparr>"
proof -
  have b: "b = (sy_bus s)\<lparr>bus_chans := bus_chans (sy_bus s) @ [\<lparr>ch_buf = [], ch_closed = False\<rparr>],
      bus_subscribers := bus_subscribers (sy_bus s) @ [length (sy_phase s)]\<rparr>"
    using assms by (auto simp: Subscribe_def Let_def sys_inv_def)
  have "length (sy_phase s) \<notin> set (bus_subscribers (sy_bus s))" using assms(1) by (simp add: sys_inv_def)
  then show ?thesis using assms(1) unfolding sys_inv_def b
    by (auto simp: nth_append chan_ok_def less_Suc_eq)
qed

lemma step_keeps_inv: "bus_step s t \<Longrightarrow> sys_inv s \<Longrightarrow> sys_inv t"
proof (induction rule: bus_step.induct)
  case (publish f et tm dt s b)
  then show ?case by (intro publish_inv[of s f]) auto
qed (simp_all add: join_inv recv_inv leave_inv close_inv)

lemma reachable_inv: "reachable s \<Longrightarrow> sys_inv s"
  by (induction rule: reachable.induct) (simp_all add: start_inv step_keeps_inv)


lemma sample_reachable:
  "\<exists>s. reachable (s :: string system) \<and> sy_phase s = [Live] \<and> sy_due s = [[\<lparr>e_Type = ''peer_connected'', e_Timestamp = ''t'', e_Data = ''x''\<rparr>]]"
proof -
  define s1 :: "string system" where "s1 = \<lparr>sy_bus = snd (Subscribe NewBus), sy_phase = [Live], sy_got = [[]], sy_due = [[]]\<rparr>"
  have "bus_step start s1" using bus_step.join[of start "fst (Subscribe (NewBus :: string Bus))" "snd (Subscribe (NewBus :: string Bus))"]
    by (simp add: start_def s1_def Subscribe_def Let_def)
  then have r: "reachable s1" using reachable.init reachable.next_step by blast
  obtain b where "bus_Publish (\<lambda>xs. xs) ''peer_connected'' ''t'' ''x'' (sy_bus s1) = Some b"
    using publish_ok[OF reachable_inv[OF r], of "\<lambda>xs. xs" "''peer_connected''" "''t''" "''x''"] by auto
  then have "bus_step s1 (s1\<lparr>sy_bus := b, sy_due := published \<lparr>e_Type = ''peer_connected'', e_Timestamp = ''t'', e_Data = ''x''\<rparr> s1\<rparr>)"
    by (rule bus_step.publish[rotated]) simp
  then show ?thesis using reachable.next_step[OF r] by (force simp: s1_def published_def)
qed


text \<open>Unsubscribing a channel twice is a panic.\<close>

lemma unsubscribe_twice: "ch < length (bus_chans b) \<Longrightarrow> Unsubscribe ch b = Some b' \<Longrightarrow> Unsubscribe ch b' = None"
  by (auto simp: Unsubscribe_def close_channel_def unsubscribe_delete_def Let_def split: if_splits)

end
