(* ===== verification/Federation.thy ===== *)
theory Federation
  imports ApiSearch TransportProps
begin

text \<open>
  Two registries together: what is registered on one is announced over the mesh and found by a search on the other. The
  announcement comes from \<open>CreateAnnouncement\<close> of one registry and goes through \<open>HandleAnnouncement\<close> of the other into its gossip
  index, which \<open>handleSearch\<close> reads. The second part is about entities that were announced as deregistered, the third about attestations.
\<close>

section \<open>A gossiped entity is found\<close>

lemma str_Contains_refl [simp]: "str_Contains s s"
  unfolding str_Contains_iff by (rule exI[of _ "[]"], rule exI[of _ "[]"]) simp

lemma keyword_where_name:
  assumes "list_all plain_char (ToLower name)"
  shows "keyword_where tags_text name '''' [] name summary tags category"
  using assms unfolding keyword_where_def likeQuery_def by (simp add: like_substring[simplified])

text \<open>The announcement of a new entity becomes the last row of the gossip index.\<close>

lemma register_new_row:
  assumes v: "announcement_valid E marshal ann" "gh_seen gh (dedupKey ann) = None"
    and ann: "ga_Type ann = ''agent_announce''" "ga_Action ann = ''register''"
    and gh: "\<not> db_fault (gh_store gh)" "\<forall>r\<in>set (db_gossip (gh_store gh)). gkey r \<noteq> ga_EntityID ann"
    and T: "tf_Parse T (tf_Format T now) = Some now"
  obtains gh' row where "HandleAnnouncement E marshal T now ann gh = (True, ann\<lparr>ga_HopCount := ga_HopCount ann + 1\<rparr>, gh')"
    "db_gossip (gh_store gh') = db_gossip (gh_store gh) @ [row]" "\<not> db_fault (gh_store gh')" "gr_received row = now"
    "ge_EntityID (gr_rec row) = ga_EntityID ann" "ge_Name (gr_rec row) = ga_Name ann" "ge_Status (gr_rec row) = ''active''"
    "\<not> ge_Tombstoned (gr_rec row)"
proof -
  let ?e = "gossip_entry_of T now ann"
  let ?row = "\<lparr>gr_rec = ?e\<lparr>ge_Status := or_default (ge_Status ?e) ''inactive'', ge_EntityType := or_default (ge_EntityType ?e) ''agent''\<rparr>,
      gr_received = now, gr_tombstone_at = None\<rparr>"
  let ?gh = "gh\<lparr>gh_seen := (gh_seen gh)(dedupKey ann \<mapsto> now)\<rparr>"
  have "t_get gkey (ga_EntityID ann) (db_gossip (gh_store gh)) = None" using gh(2) by (auto simp: t_get_None)
  then have up: "snd (UpsertGossipEntry T ?e (gh_store gh)) = (gh_store gh)\<lparr>db_gossip := db_gossip (gh_store gh) @ [?row]\<rparr>"
    using gh(1) T by (simp add: UpsertGossipEntry_def pool_Exec_def gossip_entry_of_def t_upsert_def)
  have "dispatch T now ann ?gh = Some (emit (gh_onAnnounce gh) (Indexed ann) (?gh\<lparr>gh_store := snd (UpsertGossipEntry T ?e (gh_store gh))\<rparr>))"
    using ann by (simp add: dispatch_def handle_agent_announce_def)
  then obtain gh1 where d: "dispatch T now ann ?gh = Some gh1" "gh_store gh1 = (gh_store gh)\<lparr>db_gossip := db_gossip (gh_store gh) @ [?row]\<rparr>"
    using up by simp
  let ?gh' = "emit (gh_eventBus gh1) (Published ''gossip_incoming'' (gossip_event ''incoming'' ann)) gh1"
  have h: "HandleAnnouncement E marshal T now ann gh = (True, ann\<lparr>ga_HopCount := ga_HopCount ann + 1\<rparr>, ?gh')"
    using v d(1) by (simp add: HandleAnnouncement_def)
  have e: "ge_EntityID ?e = ga_EntityID ann" "ge_Name ?e = ga_Name ann" "ge_Status ?e = ''active''" "\<not> ge_Tombstoned ?e"
    by (simp_all add: gossip_entry_of_def)
  show thesis by (rule that[of ?gh' ?row]) (simp_all add: h d(2) gh(1) e or_default_def)
qed

lemma gossip_newest_found:
  assumes "db_gossip db = rows @ [row]" "\<not> db_fault db" "\<forall>r\<in>set rows. gr_received r < gr_received row"
    and row: "ge_Status (gr_rec row) = ''active''" "\<not> ge_Tombstoned (gr_rec row)" "ge_Name (gr_rec row) = name" "list_all plain_char (ToLower name)"
    and "sc_MinScore (en_cfg e) \<le> 0"
  shows "ge_EntityID (gr_rec row) \<in> set (all_ids ev t db (name_query name n) e)"
proof -
  let ?q = "name_query name n" and ?l = "internal_limit (request_max e (name_query name n))"
  let ?P = "\<lambda>r. \<not> ge_Tombstoned (gr_rec r) \<and>
       keyword_where (ev_tags_text ev) name '''' [] (ge_Name (gr_rec r)) (ge_Summary (gr_rec r)) (ge_Tags (gr_rec r)) (ge_Category (gr_rec r))"
  have "?P row" using row keyword_where_name by simp
  then have "sort_Slice newer_gossip (filter ?P (db_gossip db)) = row # sort_Slice newer_gossip (filter ?P rows)"
    unfolding assms(1) using assms(3) by (simp del: foldr.simps) (intro sort_newest, auto simp: newer_gossip_def)
  moreover have "0 < ?l" by (simp add: internal_limit_def)
  ultimately obtain es where es: "SearchGossipByKeyword (ev_T ev) (ev_tags_text ev) name '''' [] ?l db = Inr (scanGossipSearchRow (ev_T ev) row # es)"
    using assms(2) by (auto simp: SearchGossipByKeyword_def pool_Query_def page_def take_Cons')
  let ?g = "gossip_candidate ev ?q e (scanGossipSearchRow (ev_T ev) row)"
  have "gossip_passes ?q (scanGossipSearchRow (ev_T ev) row)" using row(1) by (simp add: gossip_passes_def scanGossipSearchRow_def name_query_def)
  then have "?g \<in> set (searchGossip ev db ?q ?l e)" using es by (simp add: searchGossip_def name_query_def)
  then have mem: "?g \<in> set (fst (gather ev db ?q e))" by (auto simp: gather_def Let_def split_beta)
  have i: "cr_EntityID ?g = ge_EntityID (gr_rec row)" by (simp add: gossip_candidate_def Let_def scanGossipSearchRow_def)
  have "cr_EntityID ?g \<in> cr_EntityID ` set (Deduplicate (fst (gather ev db ?q e)))" using mem Deduplicate_ids(2) by blast
  also have "\<dots> = set (map cr_EntityID (Rank (ev_T ev) t (sc_Ranking (en_cfg e)) (Deduplicate (fst (gather ev db ?q e)))))"
    using arg_cong[OF mset_Rank_ids[of "ev_T ev" t "sc_Ranking (en_cfg e)" "Deduplicate (fst (gather ev db ?q e))"], of set_mset] by simp
  finally show ?thesis using assms(8) i by (simp add: all_ids_def ranked_candidates_def Let_def not_less) (simp add: name_query_def)
qed

text \<open>C23: what is registered on one registry is found on another. A registry announces a registered entity, signed with its generated key and with
  a positive hop limit. A neighbour that has not seen the announcement and does not know the entity accepts it for forwarding, and a
  search for the name of the entity there, without asking any peer, then answers with status 200 and has the entity among its results, unless there
  are more results than asked for. This holds whatever else the neighbour stores and has indexed, as long as its other entries were
  received earlier, it has no minimal score, and the name has none of the characters that the pattern match treats specially.\<close>

theorem announced_entity_is_searchable:
  assumes E: "ed25519_ok E" "generated E kp" "0 < gh_MaxHops home"
    "marshal (agent_announcement T t0 agent ''register'' (kp_RegistryID kp) (PublicKeyString kp) home) = Some data"
    and ann: "ann = CreateAnnouncement marshal T t0 agent ''register'' (kp_RegistryID kp) (PublicKeyString kp) (kp_Sign E kp) home"
    and peer: "gh_seen (s_gossip s) (dedupKey ann) = None" "\<not> db_fault (s_store s)"
      "\<forall>r\<in>set (db_gossip (s_store s)). gkey r \<noteq> rr_EntityID agent \<and> gr_received r < now"
    and T: "tf_Parse T (tf_Format T now) = Some now"
    and query: "rr_Name agent \<noteq> ''''" "list_all plain_char (ToLower (rr_Name agent))" "0 < n" "sc_MinScore (en_cfg e) \<le> 0"
  shows "\<exists>gh' r. HandleAnnouncement E marshal T now ann (s_gossip s) = (True, ann\<lparr>ga_HopCount := 1\<rparr>, gh') \<and>
    handleSearch v ev post unmarshal t (Some (name_query (rr_Name agent) n)) (s\<lparr>s_gossip := gh'\<rparr>) e = Some (200, RP_Search r) \<and>
    (sr_TotalFound r \<le> n \<longrightarrow> rr_EntityID agent \<in> res_EntityID ` set (sr_Results r))"
proof -
  have valid: "announcement_valid E marshal ann"
    unfolding ann CreateAnnouncement_def using E by (intro signed_valid) auto
  have a: "ga_Type ann = ''agent_announce''" "ga_Action ann = ''register''" "ga_HopCount ann = 0"
    "ga_EntityID ann = rr_EntityID agent" "ga_Name ann = rr_Name agent"
    by (simp_all add: ann CreateAnnouncement_def)
  have "\<forall>r\<in>set (db_gossip (s_store s)). gkey r \<noteq> ga_EntityID ann" using peer(3) a(4) by simp
  then obtain gh' row where h: "HandleAnnouncement E marshal T now ann (s_gossip s) = (True, ann\<lparr>ga_HopCount := ga_HopCount ann + 1\<rparr>, gh')"
    "db_gossip (gh_store gh') = db_gossip (s_store s) @ [row]" "\<not> db_fault (gh_store gh')" "gr_received row = now"
    "ge_EntityID (gr_rec row) = ga_EntityID ann" "ge_Name (gr_rec row) = ga_Name ann" "ge_Status (gr_rec row) = ''active''"
    "\<not> ge_Tombstoned (gr_rec row)"
    using register_new_row[OF valid peer(1) a(1,2) peer(2) _ T] by blast
  have "\<forall>r\<in>set (db_gossip (s_store s)). gr_received r < gr_received row" using peer(3) h(4) by simp
  from gossip_newest_found[OF h(2,3) this h(7,8) refl _ query(4), of ev t n]
  have "rr_EntityID agent \<in> set (all_ids ev t (s_store (s\<lparr>s_gossip := gh'\<rparr>)) (name_query (rr_Name agent) n) e)"
    using query(2) h(5,6) a(4,5) by simp
  from name_query_found[OF this query(1,3), of v post unmarshal] show ?thesis using h(1) a(3) by auto
qed

section \<open>An entity that comes back\<close>

text \<open>A deregistered entity keeps its row, marked as removed, until the collection of tombstones.\<close>

definition buried :: "string \<Rightarrow> DB \<Rightarrow> bool" where
  "buried i db = (i \<in> gkey ` set (db_gossip db) \<and> (\<forall>r\<in>set (db_gossip db). gkey r = i \<longrightarrow> ge_Tombstoned (gr_rec r)))"

lemma buried_same: "db_gossip db' = db_gossip db \<Longrightarrow> buried i db \<Longrightarrow> buried i db'"
  by (simp add: buried_def)

lemma buried_update:
  assumes "buried i db" "\<And>r. gkey (f r) = gkey r" "\<And>r. ge_Tombstoned (gr_rec r) \<Longrightarrow> ge_Tombstoned (gr_rec (f r))"
  shows "buried i (db\<lparr>db_gossip := t_update P f (db_gossip db)\<rparr>)"
proof -
  have "map gkey (t_update P f (db_gossip db)) = map gkey (db_gossip db)"
    using assms(2) by (simp add: t_update_def)
  then have "gkey ` set (t_update P f (db_gossip db)) = gkey ` set (db_gossip db)" by (metis list.set_map)
  moreover have "ge_Tombstoned (gr_rec r)" if "r \<in> set (t_update P f (db_gossip db))" "gkey r = i" for r
    using that assms by (auto simp: buried_def t_update_def split: if_splits)
  ultimately show ?thesis using assms(1) by (simp add: buried_def)
qed

lemma buried_upsert:
  assumes "buried i db"
  shows "buried i (db\<lparr>db_gossip := t_upsert gkey gossip_merge row (db_gossip db)\<rparr>)"
proof (cases "t_get gkey (gkey row) (db_gossip db)")
  case None
  then have "gkey row \<noteq> i" using assms by (auto simp: buried_def t_get_None)
  then show ?thesis using assms None by (auto simp: buried_def t_upsert_def)
next
  case (Some old)
  have "gkey (gossip_merge r row) = gkey r" "ge_Tombstoned (gr_rec (gossip_merge r row)) = ge_Tombstoned (gr_rec r)" for r
    by (simp_all add: gossip_merge_def)
  then show ?thesis using buried_update[OF assms, of "\<lambda>r. gossip_merge r row" "\<lambda>r. gkey r = gkey row"] Some by (simp add: t_upsert_def)
qed

lemma buried_gossip_tables:
  assumes "buried i db"
  shows "buried i (snd (UpsertGossipEntry T en db))" "buried i (snd (TombstoneGossipEntry now j db))" "buried i (snd (UpdateGossipEntryStatus j st db))"
    "buried i (snd (UpsertGossipDeveloper T d db))" "buried i (snd (TombstoneGossipDeveloper now k db))"
    "buried i (snd (UpsertGossipZNSName T zn db))" "buried i (snd (TombstoneGossipZNSName f db))"
    "buried i (snd (UpsertRegistryProof T p db))" "buried i (snd (CreatePeerAttestation T a db))" "buried i (snd (UpdateRegistryVerificationTier k tier db))"
  using assms unfolding UpsertGossipEntry_def TombstoneGossipEntry_def UpdateGossipEntryStatus_def UpsertGossipDeveloper_def TombstoneGossipDeveloper_def
    UpsertGossipZNSName_def TombstoneGossipZNSName_def UpsertRegistryProof_def CreatePeerAttestation_def UpdateRegistryVerificationTier_def pool_Exec_def Let_def
  by (auto intro!: buried_upsert buried_update intro: buried_same split: option.splits)

lemma buried_dispatch:
  assumes "dispatch T now ann gh = Some gh'" "buried i (gh_store gh)"
  shows "buried i (gh_store gh')"
  using assms unfolding dispatch_def handle_agent_announce_def handle_developer_announce_def handle_dev_handle_def
    handle_name_binding_def handle_registry_proof_def handle_peer_attestation_def Let_def
  by (auto simp: buried_gossip_tables split: if_splits)

interpretation graves: invariant_machine "gossip_step E marshal T" "\<lambda>gh :: GossipHandler. buried i (gh_store gh)"
proof
  fix s :: GossipHandler and op assume b: "buried i (gh_store s)"
  show "buried i (gh_store (gossip_step E marshal T op s))"
  proof (cases op)
    case (Receive now ann)
    obtain fwd ann' gh' where h: "HandleAnnouncement E marshal T now ann s = (fwd, ann', gh')" by (metis prod_cases3)
    then have "buried i (gh_store gh')"
      by (cases rule: Handle_cases) (use b in \<open>auto dest: buried_dispatch\<close>)
    then show ?thesis using Receive h by simp
  qed (use b in simp_all)
qed


section \<open>Concrete registries\<close>

theorem announced_entity_is_searchable_witness:
  "\<exists>gh' r. HandleAnnouncement toy_ed25519 hop_marshal unix_time 4 (sample_announcement 5 3 ''register'') (s_gossip (sample_server ''open'' empty_db)) =
      (True, (sample_announcement 5 3 ''register'')\<lparr>ga_HopCount := 1\<rparr>, gh') \<and>
    handleSearch ApiHandles.sample_env EngineProps.sample_env (\<lambda>_ _. H_failed) (\<lambda>_. None :: string option) 9 (Some (name_query ''n'' 20))
      ((sample_server ''open'' empty_db)\<lparr>s_gossip := gh'\<rparr>) sample_engine = Some (200, RP_Search r) \<and>
    (sr_TotalFound r \<le> 20 \<longrightarrow> ''a'' \<in> res_EntityID ` set (sr_Results r))"
proof -
  have i: "rr_EntityID (sample_agent ''a'' ''w'') = ''a''" "rr_Name (sample_agent ''a'' ''w'') = ''n''"
    by (simp_all add: sample_agent_def)
  have p: "list_all plain_char (ToLower ''n'')" by code_simp
  have s: "gh_seen (s_gossip (sample_server ''open'' empty_db)) k = None" for k
    by (simp add: sample_server_def SetBroadcastFunc_def NewGossipHandler_def)
  show ?thesis
    using announced_entity_is_searchable[OF toy_ed25519_ok registry_kp_generated[of 5] _ _ sample_announcement_def s,
        where now = 4 and n = 20 and e = sample_engine and v = ApiHandles.sample_env and ev = EngineProps.sample_env and
          post = "\<lambda>_ _. H_failed" and unmarshal = "\<lambda>_. None :: string option" and t = 9] i p unix_time_parse[of 4]
    by (simp add: hop_marshal_def sample_engine_def NewEngine_def)
qed

lemma not_among_ids: "\<forall>c\<in>set cs. f c \<noteq> i \<Longrightarrow> i \<notin> f ` set cs"
  by auto


section \<open>Attestations of one key\<close>

definition vote :: "(GossipAnnouncement \<Rightarrow> byte list option) \<Rightarrow> timefmt \<Rightarrow> int \<Rightarrow> string \<Rightarrow> ed25519 \<Rightarrow> Keypair \<Rightarrow> GossipHandler \<Rightarrow> string \<Rightarrow> GossipAnnouncement" where
  "vote marshal T t subject E kp home attester =
     CreatePeerAttestationAnnouncement marshal T t
       \<lparr>pa_AttesterID = attester, pa_AttesterDomain = '''', pa_SubjectID = subject, pa_SubjectDomain = '''', pa_VerifiedLayers = [],
        pa_AttestedAt = tf_Format T t, pa_Signature = ''''\<rparr>
       ''attest'' (kp_RegistryID kp) (PublicKeyString kp) (kp_Sign E kp) home"

lemma vote_simps:
  "ga_Type (vote m T t subject E kp home a) = ''peer_attestation''" "ga_Action (vote m T t subject E kp home a) = ''attest''"
  "ga_SubjectID (vote m T t subject E kp home a) = subject" "ga_AttesterID (vote m T t subject E kp home a) = a"
  "ga_Timestamp (vote m T t subject E kp home a) = tf_Format T t"
  "dedupKey (vote m T t subject E kp home a) = dedupKey (vote m T t subject E kp home b) \<longleftrightarrow> a = b"
  by (simp_all add: vote_def CreatePeerAttestationAnnouncement_def sign_announcement_def announcement_envelope_def zero_announcement_def dedupKey_def)

definition has_tier :: "timefmt \<Rightarrow> string \<Rightarrow> string \<Rightarrow> DB \<Rightarrow> bool" where
  "has_tier T subject tier db = (\<exists>p. GetRegistryProof T subject db = Inr (Some p) \<and> ri_VerificationTier p = tier)"

lemma vote_counts:
  assumes E: "ed25519_ok E" "generated E kp" "0 < gh_MaxHops home" "\<And>ann. marshal ann \<noteq> None" "tf_Parse T (tf_Format T t) = Some t"
    and gh: "db_inv (gh_store gh)" "\<not> db_fault (gh_store gh)" "gh_seen gh (dedupKey (vote marshal T t s E kp home a)) = None"
      "\<exists>p. GetRegistryProof T s (gh_store gh) = Inr (Some p)"
    and gh': "gh' = snd (snd (HandleAnnouncement E marshal T now (vote marshal T t s E kp home a) gh))"
  shows "db_inv (gh_store gh') \<and> \<not> db_fault (gh_store gh') \<and> voters s (gh_store gh') = insert a (voters s (gh_store gh)) \<and>
    gh_seen gh' = (gh_seen gh)(dedupKey (vote marshal T t s E kp home a) \<mapsto> now) \<and>
    (\<exists>p. GetRegistryProof T s (gh_store gh') = Inr (Some p)) \<and>
    (3 \<le> card (voters s (gh_store gh')) \<longrightarrow> has_tier T s ''mesh-verified'' (gh_store gh'))"
proof -
  let ?v = "vote marshal T t s E kp home a"
  have "announcement_valid E marshal ?v"
    unfolding vote_def CreatePeerAttestationAnnouncement_def using E(3,4)
    by (intro signed_valid[OF E(1,2) option.collapse[symmetric]]) (simp_all add: announcement_envelope_def zero_announcement_def)
  then have g: "gh_store gh' = handle_peer_attestation T now ?v (gh_store gh)" "gh_seen gh' = (gh_seen gh)(dedupKey ?v \<mapsto> now)"
    using gh(3) unfolding gh' by (simp_all add: HandleAnnouncement_def dispatch_def vote_simps emit_def Let_def)
  have p: "tf_Parse T (ga_Timestamp ?v) = Some t" by (simp add: vote_simps E(5))
  obtain db1 where "db_inv db1" "\<not> db_fault db1" "db_proofs db1 = db_proofs (gh_store gh)"
    "voters (ga_SubjectID ?v) db1 = insert (ga_AttesterID ?v) (voters (ga_SubjectID ?v) (gh_store gh))"
    "handle_peer_attestation T now ?v (gh_store gh) = (if card (voters (ga_SubjectID ?v) db1) \<ge> 3
       then snd (UpdateRegistryVerificationTier (ga_SubjectID ?v) ''mesh-verified'' db1) else db1)"
    by (rule handle_peer_attestation_eq[OF gh(1,2) vote_simps(2) p, where now = now])
  note db1 = this[unfolded vote_simps(3,4) g(1)[symmetric]]
  have "db_inv (gh_store gh')" using db1(1) store_ops_inv by (simp add: db1(5))
  moreover have "\<not> db_fault (gh_store gh')" "voters s (gh_store gh') = voters s db1"
    using db1(2) by (simp_all add: db1(5) voters_def UpdateRegistryVerificationTier_def pool_Exec_def)
  moreover obtain row where "t_get pkey s (db_proofs db1) = Some row"
    using gh(2,4) db1(3) by (auto simp: GetRegistryProof_def pool_Query_def)
  then have "(\<exists>p. GetRegistryProof T s (gh_store gh') = Inr (Some p)) \<and> (3 \<le> card (voters s db1) \<longrightarrow> has_tier T s ''mesh-verified'' (gh_store gh'))"
    using db1(2) by (auto simp: db1(5) has_tier_def GetRegistryProof_def pool_Query_def UpdateRegistryVerificationTier_def pool_Exec_def
        t_get_update scanProof_def dest: t_get_Some)
  ultimately show ?thesis using g(2) db1(4) by simp
qed


definition sample_proof :: RegistryIdentityProof where
  "sample_proof = \<lparr>ri_Type = '''', ri_Version = '''', ri_Domain = ''d'', ri_RegistryID = ''s'', ri_Ed25519PublicKey = '''', ri_TLSSPKIFingerprint = '''',
     ri_IssuedAt = tf_Format unix_time 4, ri_ExpiresAt = tf_Format unix_time 4, ri_Signature = '''', ri_VerificationTier = ''self-announced'',
     ri_ReceivedAt = tf_Format unix_time 4\<rparr>"


end
