(* ===== verification/EmbedModels.thy ===== *)
theory EmbedModels
  imports Settings
begin

text \<open>
  The other embedding backends (\<open>internal/search/http_embedder.go\<close>, \<open>onnx_embedder.go\<close>), the registry of models with the
  downloader (\<open>model_registry.go\<close>) and the commands for models (\<open>cmd/agentdns/models.go\<close>).

  The embedding service is a function from a request to an HTTP answer, its JSON codec a parameter. The tokenizer and the inference session of
  ONNX Runtime are functions too; the buffers they share with the embedder are its state. Vectors are lists of reals.
\<close>

section \<open>The HTTP backend\<close>

record HTTPEmbedder =
  ht_endpoint :: string
  ht_dimensions :: nat

definition http_factory :: "HTTPEmbedder factory" where
  "http_factory cfg =
     (if ec_Endpoint cfg = '''' then Inl ()
      else let dims = (if ec_Dimensions cfg \<le> 0 then 384 else ec_Dimensions cfg)
           in Inr (Some \<lparr>ht_endpoint = ec_Endpoint cfg, ht_dimensions = nat dims\<rparr>))"

text \<open>The response of either format: the field \<open>embedding\<close> and the embeddings in \<open>data\<close>.\<close>

record httpEmbedResponse =
  hr_Embedding :: "real list"
  hr_Data :: "real list list"

text \<open>\<open>copy\<close> into a slice: as many elements as both have.\<close>

definition copy_into :: "'a list \<Rightarrow> 'a list \<Rightarrow> 'a list" where
  "copy_into dst src = take (length dst) src @ drop (length src) dst"

definition http_Embed ::
  "(string \<times> nat \<Rightarrow> byte list option) \<Rightarrow> (string \<Rightarrow> byte list \<Rightarrow> http_answer) \<Rightarrow> (byte list \<Rightarrow> bool \<Rightarrow> httpEmbedResponse option) \<Rightarrow>
    string \<Rightarrow> HTTPEmbedder \<Rightarrow> real list" where
  "http_Embed marshal post decode text e =
     (let zero = replicate (ht_dimensions e) 0
      in case marshal (text, ht_dimensions e) of
           None \<Rightarrow> zero
         | Some reqBody \<Rightarrow>
             (case post (ht_endpoint e) reqBody of
                H_bad_url \<Rightarrow> zero
              | H_failed \<Rightarrow> zero
              | H_response status body breaks \<Rightarrow>
                  if status \<noteq> 200 then zero
                  else case decode body breaks of
                         None \<Rightarrow> zero
                       | Some result \<Rightarrow>
                           let raw = hr_Embedding result;
                               raw = (if length raw = 0 \<and> length (hr_Data result) > 0 then hd (hr_Data result) else raw)
                           in if length raw = 0 then zero else normalize (copy_into zero raw)))"

section \<open>The ONNX backend\<close>

definition onnx_candidates :: "string \<Rightarrow> string list option" where
  "onnx_candidates GOOS =
     (if GOOS = ''linux'' then Some [''/usr/local/lib/libonnxruntime.so'', ''/usr/local/lib/libonnxruntime.so.1'', ''/usr/lib/libonnxruntime.so'',
        ''/usr/lib/x86_64-linux-gnu/libonnxruntime.so'', ''/usr/lib/aarch64-linux-gnu/libonnxruntime.so'', ''/opt/onnxruntime/lib/libonnxruntime.so'',
        ''/usr/local/lib/onnxruntime.so'', ''/usr/lib/onnxruntime.so'']
      else if GOOS = ''darwin'' then Some [''/usr/local/lib/libonnxruntime.dylib'', ''/opt/homebrew/lib/libonnxruntime.dylib'',
        ''/usr/local/lib/onnxruntime.dylib'', ''/opt/homebrew/lib/onnxruntime.dylib'']
      else if GOOS = ''windows'' then Some [''C:'' @ [CHR 0x5C] @ ''Program Files'' @ [CHR 0x5C] @ ''onnxruntime'' @ [CHR 0x5C] @ ''lib'' @ [CHR 0x5C] @ ''onnxruntime.dll'',
        ''C:'' @ [CHR 0x5C] @ ''onnxruntime'' @ [CHR 0x5C] @ ''lib'' @ [CHR 0x5C] @ ''onnxruntime.dll'']
      else None)"

definition findOnnxRuntimeLibrary :: "string \<Rightarrow> string \<Rightarrow> (string \<Rightarrow> bool) \<Rightarrow> string \<Rightarrow> string option" where
  "findOnnxRuntimeLibrary GOOS env exists configPath =
     (if configPath \<noteq> '''' then if exists configPath then Some configPath else None
      else if env \<noteq> '''' then if exists env then Some env else None
      else Option.bind (onnx_candidates GOOS) (find exists))"

record ONNXEmbedder =
  oe_dims :: nat
  oe_maxSeqLen :: nat
  oe_inputIDs :: "int list"
  oe_mask :: "int list"
  oe_typeIDs :: "int list"
  oe_output :: "real list"

definition new_onnx :: "nat \<Rightarrow> ONNXEmbedder" where
  "new_onnx dims = \<lparr>oe_dims = dims, oe_maxSeqLen = 128, oe_inputIDs = replicate 128 0, oe_mask = replicate 128 0,
     oe_typeIDs = replicate 128 0, oe_output = replicate (128 * dims) 0\<rparr>"

text \<open>One token of the pooling loop: its vector is added when the token is not masked.\<close>

definition pool_token :: "nat \<Rightarrow> int list \<Rightarrow> real list \<Rightarrow> nat \<Rightarrow> real list \<times> nat \<Rightarrow> real list \<times> nat" where
  "pool_token dims msk out t st =
     (if msk ! t = 0 then st
      else (map (\<lambda>d. fst st ! d + out ! (t * dims + d)) [0..<dims], snd st + 1))"

definition mean_pool :: "nat \<Rightarrow> int list \<Rightarrow> real list \<Rightarrow> nat \<Rightarrow> real list" where
  "mean_pool dims msk out seqLen =
     (let (vec, tokenCount) = fold (pool_token dims msk out) [0..<seqLen] (replicate dims 0, 0)
      in if tokenCount > 0 then map (\<lambda>x. x * (1 / real tokenCount)) vec else vec)"

definition unit_length :: "real list \<Rightarrow> real list" where
  "unit_length vec = (let mag = sqrt (sq_mag vec) in if mag > 0 then map (\<lambda>x. x * (1 / mag)) vec else vec)"

text \<open>The state is the buffers, which the session reads and writes; \<^term>\<open>None\<close> is the panic when the tokenizer returns a mask
  that is shorter than the tokens.\<close>

definition onnx_Embed ::
  "(string \<Rightarrow> int list \<times> int list) \<Rightarrow> (int list \<Rightarrow> int list \<Rightarrow> int list \<Rightarrow> real list option) \<Rightarrow> string \<Rightarrow> ONNXEmbedder \<Rightarrow> (real list \<times> ONNXEmbedder) option" where
  "onnx_Embed encode run text e =
     (let (ids, msk) = encode text;
          long = length ids > oe_maxSeqLen e;
          ids = (if long then take (oe_maxSeqLen e) ids else ids);
          msk = (if long then take (oe_maxSeqLen e) msk else msk);
          seqLen = length ids
      in if length msk < seqLen then None
         else let e = e\<lparr>oe_inputIDs := copy_into (map (\<lambda>_. 0) (oe_inputIDs e)) ids,
                        oe_mask := copy_into (map (\<lambda>_. 0) (oe_mask e)) (take seqLen msk),
                        oe_typeIDs := map (\<lambda>_. 0) (oe_typeIDs e)\<rparr>
              in case run (oe_inputIDs e) (oe_mask e) (oe_typeIDs e) of
                   None \<Rightarrow> Some (replicate (oe_dims e) 0, e)
                 | Some out \<Rightarrow>
                     let e = e\<lparr>oe_output := copy_into (oe_output e) out\<rparr>
                     in Some (unit_length (mean_pool (oe_dims e) (oe_mask e) (oe_output e) seqLen), e))"

definition onnx_Dimensions :: "ONNXEmbedder \<Rightarrow> nat" where
  "onnx_Dimensions e = oe_dims e"

section \<open>Models and their files\<close>

record ModelInfo =
  mi_Name :: string
  mi_Dimensions :: nat
  mi_SizeBytes :: nat
  mi_Description :: string
  mi_ModelURL :: string
  mi_TokenizerURL :: string
  mi_ModelSHA256 :: string
  mi_TokenizerSHA256 :: string
  mi_License :: string
  mi_Languages :: "string list"
  mi_Performance :: string

definition ModelRegistry :: "(string \<times> ModelInfo) list" where
  "ModelRegistry = [
     (''all-MiniLM-L6-v2'', \<lparr>mi_Name = ''all-MiniLM-L6-v2'', mi_Dimensions = 384, mi_SizeBytes = 90000000,
       mi_Description = ''Fast, lightweight semantic search model from SentenceTransformers. Best for general-purpose search with low resource requirements.'',
       mi_ModelURL = ''https://huggingface.co/sentence-transformers/all-MiniLM-L6-v2/resolve/main/onnx/model.onnx'',
       mi_TokenizerURL = ''https://huggingface.co/sentence-transformers/all-MiniLM-L6-v2/resolve/main/tokenizer.json'',
       mi_ModelSHA256 = '''', mi_TokenizerSHA256 = '''', mi_License = ''Apache-2.0'', mi_Languages = [''en''], mi_Performance = ''fast''\<rparr>),
     (''bge-small-en-v1.5'', \<lparr>mi_Name = ''bge-small-en-v1.5'', mi_Dimensions = 384, mi_SizeBytes = 130000000,
       mi_Description = ''BAAI BGE model, state-of-the-art for retrieval tasks. Better recall than MiniLM with moderate speed.'',
       mi_ModelURL = ''https://huggingface.co/BAAI/bge-small-en-v1.5/resolve/main/onnx/model.onnx'',
       mi_TokenizerURL = ''https://huggingface.co/BAAI/bge-small-en-v1.5/resolve/main/tokenizer.json'',
       mi_ModelSHA256 = '''', mi_TokenizerSHA256 = '''', mi_License = ''MIT'', mi_Languages = [''en''], mi_Performance = ''balanced''\<rparr>),
     (''e5-small-v2'', \<lparr>mi_Name = ''e5-small-v2'', mi_Dimensions = 384, mi_SizeBytes = 130000000,
       mi_Description = ''Microsoft E5 model, multilingual with high quality embeddings. Best overall quality for search.'',
       mi_ModelURL = ''https://huggingface.co/intfloat/e5-small-v2/resolve/main/onnx/model.onnx'',
       mi_TokenizerURL = ''https://huggingface.co/intfloat/e5-small-v2/resolve/main/tokenizer.json'',
       mi_ModelSHA256 = '''', mi_TokenizerSHA256 = '''', mi_License = ''MIT'',
       mi_Languages = [''en'', ''es'', ''fr'', ''de'', ''it'', ''pt'', ''zh'', ''ja'', ''ko''], mi_Performance = ''quality''\<rparr>)]"

definition GetModelInfo :: "string \<Rightarrow> ModelInfo option" where
  "GetModelInfo name = map_of ModelRegistry name"

definition ListModels :: "(string list \<Rightarrow> string list) \<Rightarrow> string list" where
  "ListModels ro = ro (map fst ModelRegistry)"

datatype disk_entry = File "byte list" | Dir

type_synonym model_files = "string \<Rightarrow> disk_entry option"

text \<open>The network and what may fail of the file system.\<close>

record download_env =
  dl_get :: "string \<Rightarrow> http_answer"
  dl_mkdir :: bool
  dl_temp :: bool
  dl_write :: bool
  dl_rename :: bool
  dl_readable :: "string \<Rightarrow> bool"

datatype download_error = E_unknown_model | E_model_dir | E_http_get | E_http_status int | E_temp_file | E_download | E_sha256 | E_move_file

definition file_hash :: "byte list \<Rightarrow> string" where
  "file_hash b = hex_EncodeToString (sha256_Sum256 b)"

definition fileExistsWithValidHash :: "download_env \<Rightarrow> string \<Rightarrow> string \<Rightarrow> model_files \<Rightarrow> bool" where
  "fileExistsWithValidHash D path expected fs =
     (case fs path of
        None \<Rightarrow> False
      | Some Dir \<Rightarrow> False
      | Some (File b) \<Rightarrow> if expected = '''' then True else if \<not> dl_readable D path then False else file_hash b = expected)"

definition downloadFile :: "download_env \<Rightarrow> string \<Rightarrow> string \<Rightarrow> string \<Rightarrow> model_files \<Rightarrow> (download_error + unit) \<times> model_files" where
  "downloadFile D url dest expected fs =
     (case dl_get D url of
        H_bad_url \<Rightarrow> (Inl E_http_get, fs)
      | H_failed \<Rightarrow> (Inl E_http_get, fs)
      | H_response status body breaks \<Rightarrow>
          if status \<noteq> 200 then (Inl (E_http_status status), fs)
          else if \<not> dl_temp D then (Inl E_temp_file, fs)
          else if breaks \<or> \<not> dl_write D then (Inl E_download, fs)
          else if expected \<noteq> '''' \<and> file_hash body \<noteq> expected then (Inl E_sha256, fs)
          else if \<not> dl_rename D \<or> fs dest = Some Dir then (Inl E_move_file, fs)
          else (Inr (), fs(dest \<mapsto> File body)))"

definition model_path :: "string \<Rightarrow> string \<Rightarrow> string \<Rightarrow> string" where
  "model_path baseDir name f = filepath_Join [filepath_Join [baseDir, name], f]"

definition ModelExists :: "download_env \<Rightarrow> string \<Rightarrow> string \<Rightarrow> model_files \<Rightarrow> bool" where
  "ModelExists D baseDir name fs =
     (case GetModelInfo name of
        None \<Rightarrow> False
      | Some info \<Rightarrow> fileExistsWithValidHash D (model_path baseDir name ''model.onnx'') (mi_ModelSHA256 info) fs \<and>
          fileExistsWithValidHash D (model_path baseDir name ''tokenizer.json'') (mi_TokenizerSHA256 info) fs)"

text \<open>Fetch a file unless it is there.\<close>

definition ensure_file :: "download_env \<Rightarrow> string \<Rightarrow> string \<Rightarrow> string \<Rightarrow> model_files \<Rightarrow> (download_error + unit) \<times> model_files" where
  "ensure_file D url path expected fs =
     (if \<not> fileExistsWithValidHash D path expected fs then downloadFile D url path expected fs else (Inr (), fs))"

definition DownloadModel :: "download_env \<Rightarrow> string \<Rightarrow> string \<Rightarrow> model_files \<Rightarrow> (download_error + string) \<times> model_files" where
  "DownloadModel D baseDir name fs =
     (case GetModelInfo name of
        None \<Rightarrow> (Inl E_unknown_model, fs)
      | Some info \<Rightarrow>
          if \<not> dl_mkdir D then (Inl E_model_dir, fs)
          else case ensure_file D (mi_ModelURL info) (model_path baseDir name ''model.onnx'') (mi_ModelSHA256 info) fs of
                 (Inl err, fs) \<Rightarrow> (Inl err, fs)
               | (Inr _, fs) \<Rightarrow>
                   (case ensure_file D (mi_TokenizerURL info) (model_path baseDir name ''tokenizer.json'') (mi_TokenizerSHA256 info) fs of
                      (Inl err, fs) \<Rightarrow> (Inl err, fs)
                    | (Inr _, fs) \<Rightarrow> (Inr (filepath_Join [baseDir, name]), fs)))"

text \<open>The factory of the backend: \<open>libraries\<close> finds the runtime, \<open>init\<close> loads it, \<open>session\<close> opens the tokenizer and the model.\<close>

definition onnx_factory ::
  "download_env \<Rightarrow> (string \<Rightarrow> string option) \<Rightarrow> (string \<Rightarrow> bool) \<Rightarrow> (string \<Rightarrow> bool) \<Rightarrow> string \<Rightarrow> EmbedderConfig \<Rightarrow> model_files \<Rightarrow>
    (unit + ONNXEmbedder option) \<times> model_files" where
  "onnx_factory D libraries init session HOME cfg fs =
     (case libraries (ec_OnnxRuntimePath cfg) of
        None \<Rightarrow> (Inl (), fs)
      | Some lib \<Rightarrow>
          if \<not> init lib then (Inl (), fs)
          else let name = (if ec_ModelName cfg = '''' then ''all-MiniLM-L6-v2'' else ec_ModelName cfg)
               in case GetModelInfo name of
                    None \<Rightarrow> (Inl (), fs)
                  | Some info \<Rightarrow>
                      let baseDir = (if ec_ModelDir cfg = '''' then HOME @ ''/.zynd/models'' else ec_ModelDir cfg);
                          (ready, fs) = (if \<not> ModelExists D baseDir name fs then
                             (case DownloadModel D baseDir name fs of (Inl _, fs) \<Rightarrow> (False, fs) | (Inr _, fs) \<Rightarrow> (True, fs)) else (True, fs));
                          dir = filepath_Join [baseDir, name]
                      in if \<not> ready then (Inl (), fs)
                         else if fs (filepath_Join [dir, ''model.onnx'']) = None \<or> fs (filepath_Join [dir, ''tokenizer.json'']) = None \<or> \<not> session dir then (Inl (), fs)
                         else (Inr (Some (new_onnx (mi_Dimensions info))), fs))"

section \<open>Commands\<close>

definition truncate :: "string \<Rightarrow> nat \<Rightarrow> string option" where
  "truncate s maxLen =
     (if length s \<le> maxLen then Some s else if maxLen < 3 then None else Some (take (maxLen - 3) s @ ''...''))"

text \<open>What a command shows: the row of a model has its name, dimensions, size, performance and description.\<close>

datatype models_outcome =
    M_usage
  | M_unknown string
  | M_listed "(string \<times> nat \<times> nat \<times> string \<times> string option) list"
  | M_present string
  | M_downloaded string
  | M_no_home
  | M_error download_error
  | M_info ModelInfo bool

definition cmdModelsList :: "((string \<times> ModelInfo) list \<Rightarrow> (string \<times> ModelInfo) list) \<Rightarrow> models_outcome" where
  "cmdModelsList ro =
     M_listed (map (\<lambda>(name, info). (name, mi_Dimensions info, mi_SizeBytes info, mi_Performance info, truncate (mi_Description info) 60))
       (ro ModelRegistry))"

definition cmdModelsDownload :: "download_env \<Rightarrow> string option \<Rightarrow> string list \<Rightarrow> model_files \<Rightarrow> models_outcome \<times> model_files" where
  "cmdModelsDownload D home args fs =
     (case args of
        [] \<Rightarrow> (M_usage, fs)
      | modelName # _ \<Rightarrow>
          if GetModelInfo modelName = None then (M_unknown modelName, fs)
          else case home of
                 None \<Rightarrow> (M_no_home, fs)
               | Some homeDir \<Rightarrow>
                   let baseDir = filepath_Join [homeDir, ''.zynd'', ''models'']
                   in if ModelExists D baseDir modelName fs then (M_present (filepath_Join [baseDir, modelName]), fs)
                      else case DownloadModel D baseDir modelName fs of
                             (Inl err, fs) \<Rightarrow> (M_error err, fs)
                           | (Inr modelDir, fs) \<Rightarrow> (M_downloaded modelDir, fs))"

definition cmdModelsInfo :: "download_env \<Rightarrow> string option \<Rightarrow> string list \<Rightarrow> model_files \<Rightarrow> models_outcome" where
  "cmdModelsInfo D home args fs =
     (case args of
        [] \<Rightarrow> M_usage
      | modelName # _ \<Rightarrow>
          (case GetModelInfo modelName of
             None \<Rightarrow> M_unknown modelName
           | Some info \<Rightarrow>
               let homeDir = (case home of None \<Rightarrow> '''' | Some h \<Rightarrow> h);
                   baseDir = filepath_Join [homeDir, ''.zynd'', ''models'']
               in M_info info (ModelExists D baseDir modelName fs)))"

definition cmdModels ::
  "download_env \<Rightarrow> ((string \<times> ModelInfo) list \<Rightarrow> (string \<times> ModelInfo) list) \<Rightarrow> string option \<Rightarrow> string list \<Rightarrow> model_files \<Rightarrow>
    models_outcome \<times> model_files" where
  "cmdModels D ro home args fs =
     (case args of
        [] \<Rightarrow> (M_usage, fs)
      | subcommand # rest \<Rightarrow>
          if subcommand = ''list'' then (cmdModelsList ro, fs)
          else if subcommand = ''download'' then cmdModelsDownload D home rest fs
          else if subcommand = ''info'' then (cmdModelsInfo D home rest fs, fs)
          else (M_usage, fs))"

section \<open>Vectors of the HTTP backend\<close>

lemma length_copy_into [simp]: "length (copy_into dst src) = length dst"
  by (simp add: copy_into_def)

lemma copy_into_full: "length src = length dst \<Longrightarrow> copy_into dst src = src"
  by (simp add: copy_into_def)

lemma sq_mag_replicate [simp]: "sq_mag (replicate n 0) = 0"
  by (auto simp: sq_mag_zero)

text \<open>C33: Whatever the embedding service does, the HTTP backend returns a vector the index can use. The vector has the
  dimension of the backend and is a unit vector or zero; it is not zero only when the service answered with status 200 and
  a decodable body, and then it is the normalized vector of the answer, cut or padded with zeros to the dimension.\<close>

theorem http_vectors_fit_index:
  assumes "http_factory cfg = Inr (Some e)"
  shows "ec_Endpoint cfg \<noteq> '''' \<and> ht_dimensions e = nat (if ec_Dimensions cfg \<le> 0 then 384 else ec_Dimensions cfg) \<and>
    length (http_Embed marshal post decode s e) = ht_dimensions e \<and>
    (sq_mag (http_Embed marshal post decode s e) = 1 \<or> http_Embed marshal post decode s e = replicate (ht_dimensions e) 0) \<and>
    (sq_mag (http_Embed marshal post decode s e) = 1 \<longrightarrow>
      (\<exists>req body breaks r. marshal (s, ht_dimensions e) = Some req \<and> post (ec_Endpoint cfg) req = H_response 200 body breaks \<and>
        decode body breaks = Some r \<and>
        http_Embed marshal post decode s e =
          normalize (take (ht_dimensions e) (if hr_Embedding r = [] then hd (hr_Data r) else hr_Embedding r) @
            replicate (ht_dimensions e - length (if hr_Embedding r = [] then hd (hr_Data r) else hr_Embedding r)) 0)))"
proof -
  have e: "ec_Endpoint cfg \<noteq> ''''" "ht_endpoint e = ec_Endpoint cfg"
    "ht_dimensions e = nat (if ec_Dimensions cfg \<le> 0 then 384 else ec_Dimensions cfg)"
    using assms by (auto simp: http_factory_def Let_def split: if_splits)
  define n where "n = ht_dimensions e"
  let ?v = "http_Embed marshal post decode s e"
  have zero: "normalize v = replicate (length v) 0" if "sq_mag v = 0" for v
    using that by (auto simp: normalize_def sq_mag_zero subset_singleton_iff intro!: replicate_eqI)
  consider "?v = replicate n 0"
    | req body breaks r raw where "marshal (s, n) = Some req" "post (ec_Endpoint cfg) req = H_response 200 body breaks"
      "decode body breaks = Some r" "raw = (if hr_Embedding r = [] then hd (hr_Data r) else hr_Embedding r)"
      "?v = normalize (copy_into (replicate n 0) raw)"
    unfolding http_Embed_def e(2) n_def[symmetric] Let_def
    by (cases "marshal (s, n)"; cases "post (ec_Endpoint cfg) (the (marshal (s, n)))") (force split: option.splits if_splits)+
  then show ?thesis
  proof cases
    case 1
    then show ?thesis using e(1,3) by (simp add: n_def)
  next
    case 2
    have "copy_into (replicate n 0) raw = take n raw @ replicate (n - length raw) 0" by (simp add: copy_into_def)
    moreover have "sq_mag ?v = 1 \<or> ?v = replicate n 0"
      using zero[of "copy_into (replicate n 0) raw"] normalize_unit[of "copy_into (replicate n 0) raw"] 2(5) by auto
    moreover have "length ?v = n" using 2(5) by simp
    ultimately show ?thesis using e(1,3) 2 unfolding n_def by auto
  qed
qed

definition sample_http :: "(string \<times> nat \<Rightarrow> byte list option) \<times> (string \<Rightarrow> byte list \<Rightarrow> http_answer) \<times> (byte list \<Rightarrow> bool \<Rightarrow> httpEmbedResponse option)" where
  "sample_http = (\<lambda>_. Some [1], \<lambda>_ _. H_response 200 [2] False, \<lambda>_ _. Some \<lparr>hr_Embedding = [], hr_Data = [[3, 4, 5]]\<rparr>)"

theorem http_vectors_fit_index_witness:
  "let cfg = \<lparr>ec_Dimensions = 2, ec_ModelDir = '''', ec_ModelName = '''', ec_Endpoint = ''http://e'', ec_OnnxRuntimePath = ''''\<rparr>;
       e = \<lparr>ht_endpoint = ''http://e'', ht_dimensions = 2\<rparr>
   in http_factory cfg = Inr (Some e) \<and>
      length (http_Embed (fst sample_http) (fst (snd sample_http)) (snd (snd sample_http)) ''x'' e) = 2 \<and>
      http_Embed (fst sample_http) (fst (snd sample_http)) (snd (snd sample_http)) ''x'' e = [3 / 5, 4 / 5]"
proof -
  let ?cfg = "\<lparr>ec_Dimensions = 2, ec_ModelDir = '''', ec_ModelName = '''', ec_Endpoint = ''http://e'', ec_OnnxRuntimePath = ''''\<rparr> :: EmbedderConfig"
  let ?e = "\<lparr>ht_endpoint = ''http://e'', ht_dimensions = 2\<rparr> :: HTTPEmbedder"
  have f: "http_factory ?cfg = Inr (Some ?e)" by (simp add: http_factory_def)
  have "sqrt 25 = (5 :: real)" by (rule real_sqrt_unique) simp_all
  then have "http_Embed (fst sample_http) (fst (snd sample_http)) (snd (snd sample_http)) ''x'' ?e = [3 / 5, 4 / 5]"
    by (simp add: http_Embed_def sample_http_def copy_into_def normalize_def sq_mag_def numeral_2_eq_2)
  then show ?thesis
    using f http_vectors_fit_index[where marshal = "fst sample_http" and post = "fst (snd sample_http)"
        and decode = "snd (snd sample_http)" and s = "''x''", OF f] by (simp add: Let_def)
qed

section \<open>Vectors of the ONNX backend\<close>

lemma unit_length_is_normalize: "unit_length v = normalize v"
  using sq_mag_nonneg[of v] by (auto simp: unit_length_def normalize_def Let_def)

text \<open>The mean of the rows whose token is not masked, written without the running sums of the code.\<close>

definition token_mean :: "nat \<Rightarrow> int list \<Rightarrow> (nat \<Rightarrow> nat \<Rightarrow> real) \<Rightarrow> real list" where
  "token_mean dims msk row =
     (let ts = filter (\<lambda>t. msk ! t \<noteq> 0) [0..<length msk]
      in map (\<lambda>d. (\<Sum>t\<leftarrow>ts. row t d) / real (length ts)) [0..<dims])"

lemma pool_fold:
  assumes "length vec = dims"
  shows "fold (pool_token dims msk out) ts (vec, n) =
    (map (\<lambda>d. vec ! d + (\<Sum>t\<leftarrow>filter (\<lambda>t. msk ! t \<noteq> 0) ts. out ! (t * dims + d))) [0..<dims], n + length (filter (\<lambda>t. msk ! t \<noteq> 0) ts))"
  using assms
proof (induction ts arbitrary: vec n)
  case Nil
  then show ?case using map_nth[of vec] by simp
next
  case (Cons t ts)
  then show ?case by (simp add: pool_token_def add.assoc)
qed

lemma mean_pool_is_mean:
  assumes "seqLen \<le> length msk"
  shows "mean_pool dims msk out seqLen = token_mean dims (take seqLen msk) (\<lambda>t d. out ! (t * dims + d))"
proof -
  have f: "filter (\<lambda>t. take seqLen msk ! t \<noteq> 0) [0..<length (take seqLen msk)] = filter (\<lambda>t. msk ! t \<noteq> 0) [0..<seqLen]"
    using assms by (auto intro!: filter_cong)
  show ?thesis
    unfolding mean_pool_def token_mean_def Let_def f
    by (simp add: pool_fold divide_inverse)
qed

definition onnx_ok :: "nat \<Rightarrow> ONNXEmbedder \<Rightarrow> bool" where
  "onnx_ok dims e \<longleftrightarrow> oe_dims e = dims \<and> oe_maxSeqLen e = 128 \<and> length (oe_inputIDs e) = 128 \<and> length (oe_mask e) = 128 \<and>
     length (oe_typeIDs e) = 128 \<and> length (oe_output e) = 128 * dims"

lemma new_onnx_ok: "onnx_ok dims (new_onnx dims)"
  by (simp add: onnx_ok_def new_onnx_def)

text \<open>The vector of a text as a function of the tokenizer and the model alone.\<close>

definition pad_128 :: "int list \<Rightarrow> int list" where
  "pad_128 xs = xs @ replicate (128 - length xs) 0"

definition onnx_vector ::
  "(string \<Rightarrow> int list \<times> int list) \<Rightarrow> (int list \<Rightarrow> int list \<Rightarrow> int list \<Rightarrow> real list option) \<Rightarrow> nat \<Rightarrow> string \<Rightarrow> real list" where
  "onnx_vector encode run dims s =
     (let ids = take 128 (fst (encode s)); msk = take 128 (snd (encode s))
      in case run (pad_128 ids) (pad_128 msk) (replicate 128 0) of
           None \<Rightarrow> replicate dims 0
         | Some out \<Rightarrow> normalize (token_mean dims msk (\<lambda>t d. out ! (t * dims + d))))"

lemma onnx_Embed_step:
  assumes e: "onnx_ok dims e"
    and enc: "length (snd (encode s)) = length (fst (encode s))"
    and run: "\<And>a b c out. run a b c = Some out \<Longrightarrow> length out = 128 * dims"
  shows "\<exists>e'. onnx_Embed encode run s e = Some (onnx_vector encode run dims s, e') \<and> onnx_ok dims e'"
proof -
  obtain ids msk where p: "encode s = (ids, msk)" by fastforce
  have len: "length msk = length ids" using enc p by simp
  note ok = e[unfolded onnx_ok_def]
  let ?ids = "take 128 ids" and ?msk = "take 128 msk"
  have z: "map (\<lambda>_. 0 :: int) xs = replicate 128 0" if "length xs = 128" for xs :: "int list"
    using that by (simp add: map_replicate_const)
  have c: "copy_into (replicate 128 0) ys = pad_128 ys" if "length ys \<le> 128" for ys :: "int list"
    using that by (simp add: copy_into_def pad_128_def)
  let ?e = "e\<lparr>oe_inputIDs := pad_128 ?ids, oe_mask := pad_128 ?msk, oe_typeIDs := replicate 128 0\<rparr>"
  have "onnx_Embed encode run s e =
    (case run (pad_128 ?ids) (pad_128 ?msk) (replicate 128 0) of
       None \<Rightarrow> Some (replicate dims 0, ?e)
     | Some out \<Rightarrow> Some (unit_length (mean_pool dims (pad_128 ?msk) (copy_into (oe_output e) out) (length ?ids)), ?e\<lparr>oe_output := copy_into (oe_output e) out\<rparr>))"
    using ok len by (simp add: onnx_Embed_def p Let_def z c cong: option.case_cong)
  moreover have "mean_pool dims (pad_128 ?msk) out (length ?ids) = token_mean dims ?msk (\<lambda>t d. out ! (t * dims + d))" for out
  proof -
    have "take (min (length ids) 128) msk = take 128 msk" using len by (simp add: min_def)
    then show ?thesis using len by (subst mean_pool_is_mean) (simp_all add: pad_128_def)
  qed
  ultimately show ?thesis
    using ok run[of "pad_128 ?ids" "pad_128 ?msk" "replicate 128 0"]
    by (auto simp: onnx_vector_def p copy_into_full unit_length_is_normalize onnx_ok_def pad_128_def split: option.splits)
qed

text \<open>A sequence of texts through the same embedder; the result is the list of the vectors.\<close>

definition onnx_EmbedAll ::
  "(string \<Rightarrow> int list \<times> int list) \<Rightarrow> (int list \<Rightarrow> int list \<Rightarrow> int list \<Rightarrow> real list option) \<Rightarrow> string list \<Rightarrow> ONNXEmbedder \<Rightarrow> (real list list \<times> ONNXEmbedder) option" where
  "onnx_EmbedAll encode run inputs e =
     fold (\<lambda>s st. Option.bind st (\<lambda>(vs, e). map_option (\<lambda>(v, e'). (vs @ [v], e')) (onnx_Embed encode run s e))) inputs (Some ([], e))"

text \<open>C30: the embedder is a function of the text, although all its calls share buffers. If the tokenizer gives every token a
  mask and the session fills its output tensor, then any sequence of texts is embedded without a panic, and the vector of each
  text is the normalized mean of the model's rows for its first 128 tokens that are not masked, whatever was embedded before:
  no token, mask or output of an earlier text reaches a later one. Every vector has the dimension of the model and is a unit vector or zero.\<close>

theorem onnx_embeds_independently:
  assumes "\<And>s. length (snd (encode s)) = length (fst (encode s))"
    and "\<And>a b c out. run a b c = Some out \<Longrightarrow> length out = 128 * dims"
  shows "\<exists>e. onnx_EmbedAll encode run inputs (new_onnx dims) = Some (map (onnx_vector encode run dims) inputs, e) \<and>
    (\<forall>v\<in>set (map (onnx_vector encode run dims) inputs). length v = onnx_Dimensions e \<and> (sq_mag v = 1 \<or> sq_mag v = 0))"
proof -
  have "\<exists>e'. fold (\<lambda>s st. Option.bind st (\<lambda>(vs, e). map_option (\<lambda>(v, e'). (vs @ [v], e')) (onnx_Embed encode run s e))) inputs (Some (vs, e)) =
      Some (vs @ map (onnx_vector encode run dims) inputs, e') \<and> onnx_ok dims e'" if "onnx_ok dims e" for vs e
    using that
  proof (induction inputs arbitrary: vs e)
    case (Cons s inputs)
    obtain e' where "onnx_Embed encode run s e = Some (onnx_vector encode run dims s, e')" "onnx_ok dims e'"
      using onnx_Embed_step[of dims e encode s run, OF Cons.prems assms(1)] assms(2) by blast
    then show ?case using Cons.IH[of e' "vs @ [onnx_vector encode run dims s]"] by simp
  qed simp
  from this[OF new_onnx_ok, of "[]"]
  obtain e where e: "onnx_EmbedAll encode run inputs (new_onnx dims) = Some (map (onnx_vector encode run dims) inputs, e)" "onnx_ok dims e"
    by (auto simp: onnx_EmbedAll_def)
  have "length (onnx_vector encode run dims s) = dims \<and> (sq_mag (onnx_vector encode run dims s) = 1 \<or> sq_mag (onnx_vector encode run dims s) = 0)" for s
    using normalize_mag by (auto simp: onnx_vector_def token_mean_def Let_def split: option.splits)
  then show ?thesis using e by (auto simp: onnx_ok_def onnx_Dimensions_def)
qed

theorem onnx_embeds_independently_witness:
  "let encode = (\<lambda>s. (map (\<lambda>c. int (of_char c)) s, map (\<lambda>_. 1) s)); run = (\<lambda>a b c. if b ! 0 = 0 then None else Some (replicate 256 (real_of_int (a ! 0))))
   in \<exists>e. onnx_EmbedAll encode run [''ab'', '''', ''a''] (new_onnx 2) = Some (map (onnx_vector encode run 2) [''ab'', '''', ''a''], e) \<and>
     onnx_vector encode run 2 '''' = [0, 0]"
proof -
  let ?encode = "\<lambda>s :: string. (map (\<lambda>c. int (of_char c)) s, map (\<lambda>_. 1 :: int) s)"
    and ?run = "\<lambda>a b c :: int list. if b ! 0 = (0 :: int) then None else Some (replicate 256 (real_of_int (a ! 0)))"
  have "onnx_vector ?encode ?run 2 '''' = [0, 0]" by (simp add: onnx_vector_def pad_128_def numeral_2_eq_2)
  moreover have "\<exists>e. onnx_EmbedAll ?encode ?run [''ab'', '''', ''a''] (new_onnx 2) = Some (map (onnx_vector ?encode ?run 2) [''ab'', '''', ''a''], e)"
  proof -
    have "length (snd (?encode s)) = length (fst (?encode s))" for s by simp
    moreover have "length out = 128 * 2" if "?run a b c = Some out" for a b c out using that by (auto split: if_splits)
    ultimately show ?thesis
      using onnx_embeds_independently[where encode = ?encode and run = ?run and dims = 2 and inputs = "[''ab'', '''', ''a'']"] by blast
  qed
  ultimately show ?thesis unfolding Let_def by blast
qed

section \<open>Downloads\<close>

lemma registry_has_no_hashes:
  assumes "GetModelInfo name = Some info"
  shows "mi_ModelSHA256 info = ''''" "mi_TokenizerSHA256 info = ''''" "mi_Dimensions info = 384"
  using assms map_of_SomeD[of ModelRegistry name info] by (auto simp: GetModelInfo_def ModelRegistry_def)

definition is_file :: "model_files \<Rightarrow> string \<Rightarrow> bool" where
  "is_file fs path \<longleftrightarrow> (\<exists>b. fs path = Some (File b))"

lemma unhashed_is_file: "fileExistsWithValidHash D path '''' fs = is_file fs path"
  by (auto simp: fileExistsWithValidHash_def is_file_def split: option.splits disk_entry.splits)

lemma ModelExists_iff:
  "ModelExists D baseDir name fs \<longleftrightarrow>
    GetModelInfo name \<noteq> None \<and> is_file fs (model_path baseDir name ''model.onnx'') \<and> is_file fs (model_path baseDir name ''tokenizer.json'')"
  by (auto simp: ModelExists_def registry_has_no_hashes unhashed_is_file split: option.splits)

lemma ensure_file_cases:
  obtains (present) "is_file fs path" "ensure_file D url path '''' fs = (Inr (), fs)"
  | (served) body where "\<not> is_file fs path" "dl_get D url = H_response 200 body False"
      "ensure_file D url path '''' fs = (Inr (), fs(path \<mapsto> File body))"
  | (failed) err where "ensure_file D url path '''' fs = (Inl err, fs)"
proof (cases "is_file fs path")
  case True
  then show ?thesis using present by (simp add: ensure_file_def unhashed_is_file)
next
  case False
  then have e: "ensure_file D url path '''' fs = downloadFile D url path '''' fs" by (simp add: ensure_file_def unhashed_is_file)
  have "(\<exists>err. downloadFile D url path '''' fs = (Inl err, fs)) \<or>
    (\<exists>body. dl_get D url = H_response 200 body False \<and> downloadFile D url path '''' fs = (Inr (), fs(path \<mapsto> File body)))"
    by (cases "dl_get D url") (auto simp: downloadFile_def)
  then show ?thesis using served failed False unfolding e by blast
qed


definition sample_dl :: download_env where
  "sample_dl = \<lparr>dl_get = (\<lambda>_. H_response 200 [7] False), dl_mkdir = True, dl_temp = True, dl_write = True, dl_rename = True, dl_readable = (\<lambda>_. True)\<rparr>"

lemma sample_paths:
  "model_path ''/m'' ''e5-small-v2'' ''model.onnx'' = ''/m/e5-small-v2/model.onnx''"
  "model_path ''/m'' ''e5-small-v2'' ''tokenizer.json'' = ''/m/e5-small-v2/tokenizer.json''"
  by code_simp+

lemma sample_download:
  "DownloadModel sample_dl ''/m'' ''e5-small-v2'' Map.empty =
    (Inr (filepath_Join [''/m'', ''e5-small-v2'']), [''/m/e5-small-v2/model.onnx'' \<mapsto> File [7], ''/m/e5-small-v2/tokenizer.json'' \<mapsto> File [7]])"
proof -
  obtain info where i: "GetModelInfo ''e5-small-v2'' = Some info" by (simp add: GetModelInfo_def ModelRegistry_def)
  show ?thesis
    using registry_has_no_hashes[OF i]
    by (simp add: DownloadModel_def i ensure_file_def unhashed_is_file is_file_def downloadFile_def sample_paths sample_dl_def)
qed


lemma downloaded_exists:
  assumes "DownloadModel D baseDir name fs = (Inr dir, fs')"
  shows "ModelExists D baseDir name fs'"
proof (cases "GetModelInfo name")
  case (Some info)
  let ?m = "model_path baseDir name ''model.onnx''" and ?t = "model_path baseDir name ''tokenizer.json''"
  have after: "is_file fs2 path" if "ensure_file D url path '''' fs1 = (Inr u, fs2)" for url path fs1 fs2 u
    using that by (cases rule: ensure_file_cases[where fs = fs1 and path = path and D = D and url = url]) (auto simp: is_file_def)
  have keeps: "is_file fs2 q" if "ensure_file D url path '''' fs1 = (Inr u, fs2)" "is_file fs1 q" for url path fs1 fs2 u q
    using that by (cases rule: ensure_file_cases[where fs = fs1 and path = path and D = D and url = url]) (auto simp: is_file_def)
  obtain fs1 where "ensure_file D (mi_ModelURL info) ?m '''' fs = (Inr (), fs1)" "ensure_file D (mi_TokenizerURL info) ?t '''' fs1 = (Inr (), fs')"
    using assms Some registry_has_no_hashes[OF Some] by (auto simp: DownloadModel_def split: if_splits prod.splits sum.splits)
  then show ?thesis using after keeps Some by (auto simp: ModelExists_iff)
qed (use assms in \<open>simp add: DownloadModel_def\<close>)

text \<open>No model is verified. The registry has no hash for any file, so whatever a server answers with status 200 is stored and
  counts as the model, and two regular files of any content pass \<open>ModelExists\<close>.\<close>

theorem models_are_not_verified:
  assumes info: "GetModelInfo name = Some info"
    and served: "dl_get D (mi_ModelURL info) = H_response 200 body1 False" "dl_get D (mi_TokenizerURL info) = H_response 200 body2 False"
    and works: "dl_mkdir D" "dl_temp D" "dl_write D" "dl_rename D"
    and free: "fs m = None" "fs t = None" "m \<noteq> t"
    and paths: "m = model_path baseDir name ''model.onnx''" "t = model_path baseDir name ''tokenizer.json''"
  shows "DownloadModel D baseDir name fs = (Inr (filepath_Join [baseDir, name]), fs(m \<mapsto> File body1, t \<mapsto> File body2)) \<and>
    (\<forall>b1 b2. ModelExists D baseDir name (fs(m \<mapsto> File b1, t \<mapsto> File b2)))"
proof -
  have "ensure_file D (mi_ModelURL info) m '''' fs = (Inr (), fs(m \<mapsto> File body1))"
    using served(1) works free(1) by (simp add: ensure_file_def unhashed_is_file is_file_def downloadFile_def)
  moreover have "ensure_file D (mi_TokenizerURL info) t '''' (fs(m \<mapsto> File body1)) = (Inr (), fs(m \<mapsto> File body1, t \<mapsto> File body2))"
    using served(2) works free(2,3) by (simp add: ensure_file_def unhashed_is_file is_file_def downloadFile_def)
  ultimately show ?thesis
    using info works(1) registry_has_no_hashes[OF info] by (simp add: DownloadModel_def ModelExists_iff paths[symmetric] is_file_def)
qed

theorem models_are_not_verified_witness:
  "DownloadModel sample_dl ''/m'' ''e5-small-v2'' Map.empty =
    (Inr (filepath_Join [''/m'', ''e5-small-v2'']), [''/m/e5-small-v2/model.onnx'' \<mapsto> File [7], ''/m/e5-small-v2/tokenizer.json'' \<mapsto> File [7]])"
proof -
  obtain info where i: "GetModelInfo ''e5-small-v2'' = Some info" by (simp add: GetModelInfo_def ModelRegistry_def)
  have "dl_get sample_dl u = H_response 200 [7] False" "dl_mkdir sample_dl" "dl_temp sample_dl" "dl_write sample_dl" "dl_rename sample_dl" for u
    by (simp_all add: sample_dl_def)
  note s = this
  have d: "''/m/e5-small-v2/model.onnx'' \<noteq> ''/m/e5-small-v2/tokenizer.json''" by simp
  show ?thesis
    by (rule models_are_not_verified[OF i s(1) s(1) s(2-5) _ _ d sample_paths[symmetric], THEN conjunct1]) (rule refl)+
qed

section \<open>Startup of the ONNX backend\<close>

lemma findOnnxRuntimeLibrary_exists:
  assumes "findOnnxRuntimeLibrary GOOS env exists configPath = Some lib"
  shows "exists lib" "configPath \<noteq> '''' \<Longrightarrow> lib = configPath" "configPath = '''' \<Longrightarrow> env \<noteq> '''' \<Longrightarrow> lib = env"
  using assms by (auto simp: findOnnxRuntimeLibrary_def find_Some_iff bind_eq_Some_conv split: if_splits)

text \<open>What holds when the ONNX backend starts. The runtime library that was loaded exists, and is the configured one, or
  the one of the environment, whenever either is set; both files of the model are on disk; and the vectors have the dimension of the
  model, 384, whatever dimension the configuration asks for.\<close>

theorem onnx_backend_starts:
  assumes "onnx_factory D (findOnnxRuntimeLibrary GOOS env exists) init session HOME cfg fs = (Inr (Some e), fs')"
  shows "\<exists>lib name baseDir. exists lib \<and> init lib \<and>
    (ec_OnnxRuntimePath cfg \<noteq> '''' \<longrightarrow> lib = ec_OnnxRuntimePath cfg) \<and>
    (ec_OnnxRuntimePath cfg = '''' \<and> env \<noteq> '''' \<longrightarrow> lib = env) \<and>
    name = (if ec_ModelName cfg = '''' then ''all-MiniLM-L6-v2'' else ec_ModelName cfg) \<and>
    baseDir = (if ec_ModelDir cfg = '''' then HOME @ ''/.zynd/models'' else ec_ModelDir cfg) \<and>
    ModelExists D baseDir name fs' \<and> e = new_onnx 384 \<and> onnx_Dimensions e = 384"
proof -
  define name where "name = (if ec_ModelName cfg = '''' then ''all-MiniLM-L6-v2'' else ec_ModelName cfg)"
  define baseDir where "baseDir = (if ec_ModelDir cfg = '''' then HOME @ ''/.zynd/models'' else ec_ModelDir cfg)"
  obtain lib where lib: "findOnnxRuntimeLibrary GOOS env exists (ec_OnnxRuntimePath cfg) = Some lib" "init lib"
    using assms by (auto simp: onnx_factory_def split: option.splits if_splits)
  obtain info where info: "GetModelInfo name = Some info"
    using assms lib by (cases "GetModelInfo name") (simp_all add: onnx_factory_def name_def[symmetric] Let_def)
  note h = registry_has_no_hashes[OF info]
  note a = assms[unfolded onnx_factory_def name_def[symmetric] baseDir_def[symmetric] Let_def, simplified lib info option.case if_True not_True_eq_False if_False]
  have "ModelExists D baseDir name fs' \<and> e = new_onnx 384"
  proof (cases "ModelExists D baseDir name fs")
    case True
    then show ?thesis using a h(3) by (auto split: if_splits)
  next
    case False
    obtain r fs2 where d: "DownloadModel D baseDir name fs = (r, fs2)" by fastforce
    then have "ModelExists D baseDir name fs2" if "r = Inr dir" for dir
      using that downloaded_exists by blast
    then show ?thesis using a h(3) False d by (auto split: if_splits sum.splits)
  qed
  then show ?thesis
    using lib findOnnxRuntimeLibrary_exists[OF lib(1)] by (auto simp: name_def baseDir_def onnx_Dimensions_def new_onnx_def)
qed

theorem onnx_backend_starts_witness:
  "let cfg = \<lparr>ec_Dimensions = 768, ec_ModelDir = ''/m'', ec_ModelName = ''e5-small-v2'', ec_Endpoint = '''', ec_OnnxRuntimePath = ''/lib/o.so''\<rparr>
   in \<exists>e fs'. onnx_factory sample_dl (findOnnxRuntimeLibrary ''linux'' '''' (\<lambda>p. p = ''/lib/o.so'')) (\<lambda>_. True) (\<lambda>_. True) ''/root'' cfg Map.empty =
      (Inr (Some e), fs') \<and> onnx_Dimensions e = 384"
proof -
  let ?cfg = "\<lparr>ec_Dimensions = 768, ec_ModelDir = ''/m'', ec_ModelName = ''e5-small-v2'', ec_Endpoint = '''', ec_OnnxRuntimePath = ''/lib/o.so''\<rparr> :: EmbedderConfig"
  let ?r = "onnx_factory sample_dl (findOnnxRuntimeLibrary ''linux'' '''' (\<lambda>p. p = ''/lib/o.so'')) (\<lambda>_. True) (\<lambda>_. True) ''/root'' ?cfg Map.empty"
  obtain info where i: "GetModelInfo ''e5-small-v2'' = Some info" by (simp add: GetModelInfo_def ModelRegistry_def)
  have "\<not> ModelExists sample_dl ''/m'' ''e5-small-v2'' Map.empty" by (simp add: ModelExists_iff is_file_def)
  moreover have "filepath_Join [filepath_Join [''/m'', ''e5-small-v2''], ''model.onnx''] = ''/m/e5-small-v2/model.onnx''"
    "filepath_Join [filepath_Join [''/m'', ''e5-small-v2''], ''tokenizer.json''] = ''/m/e5-small-v2/tokenizer.json''"
    using sample_paths by (simp_all add: model_path_def)
  ultimately obtain e fs' where r: "?r = (Inr (Some e), fs')"
    by (simp add: onnx_factory_def findOnnxRuntimeLibrary_def i sample_download)
  show ?thesis unfolding Let_def using r onnx_backend_starts[OF r] by blast
qed

end
