(* ===== verification/Gateway.thy ===== *)
theory Gateway
  imports Settings RateLimit
begin

text \<open>
  The HTTP gateway in front of the handlers: the routes that \<open>Handler\<close> of \<open>internal/api/server.go\<close> registers, the multiplexer of
  \<open>net/http\<close> as the gateway uses it, the two rate limiters, and the middleware (\<open>internal/api/middleware.go\<close>).

  A request has the method, the segments of its cleaned path (each unescaped, the last one empty for a trailing slash; the
  multiplexer redirects a path that is not clean to its clean form), and what the limiter reads. The handlers are an argument, a function of the route, the path values, the request and the state; they are the
  definitions of \<open>Api\<close>, \<open>ApiHandles\<close> and \<open>ApiSearch\<close>. What is proved here holds for any handlers.
\<close>

section \<open>Routes\<close>

datatype route =
    R_RegisterDeveloper | R_GetDeveloper | R_UpdateDeveloper | R_DeleteDeveloper | R_ListDeveloperEntities
  | R_RegisterEntity | R_ListEntities | R_GetEntity | R_UpdateEntity | R_DeleteEntity | R_GetEntityCard | R_EntityHeartbeat
  | R_Search | R_GetCategories | R_GetTags
  | R_ClaimHandle | R_GetHandle | R_CheckHandleAvailable | R_ReleaseHandle | R_VerifyHandle | R_ListHandleEntities
  | R_RegisterName | R_GetName | R_CheckNameAvailable | R_UpdateName | R_ReleaseName | R_ListVersions
  | R_ResolveName | R_RegistryIdentityProof
  | R_NetworkStatus | R_GetPeers | R_AddPeer | R_NetworkStats | R_RegistryInfo
  | R_ApproveDeveloper | R_Health | R_ActivityStream | R_Swagger

text \<open>A segment of a pattern is literal, a wildcard, or the end of a pattern that ends in a slash.\<close>

datatype seg = Lit string | Wild | Rest

datatype limiter_of = Unlimited | SearchRL | RegisterRL

record route_row =
  rt_method :: string
  rt_segs :: "seg list"
  rt_limiter :: limiter_of
  rt_route :: route

definition row :: "string \<Rightarrow> seg list \<Rightarrow> limiter_of \<Rightarrow> route \<Rightarrow> route_row" where
  "row method segs l r = \<lparr>rt_method = method, rt_segs = segs, rt_limiter = l, rt_route = r\<rparr>"

definition routes :: "route_row list" where
  "routes = [
     row ''POST'' [Lit ''v1'', Lit ''developers''] RegisterRL R_RegisterDeveloper,
     row ''GET'' [Lit ''v1'', Lit ''developers'', Wild] Unlimited R_GetDeveloper,
     row ''PUT'' [Lit ''v1'', Lit ''developers'', Wild] Unlimited R_UpdateDeveloper,
     row ''DELETE'' [Lit ''v1'', Lit ''developers'', Wild] Unlimited R_DeleteDeveloper,
     row ''GET'' [Lit ''v1'', Lit ''developers'', Wild, Lit ''entities''] Unlimited R_ListDeveloperEntities,
     row ''POST'' [Lit ''v1'', Lit ''entities''] RegisterRL R_RegisterEntity,
     row ''GET'' [Lit ''v1'', Lit ''entities''] Unlimited R_ListEntities,
     row ''GET'' [Lit ''v1'', Lit ''entities'', Wild] Unlimited R_GetEntity,
     row ''PUT'' [Lit ''v1'', Lit ''entities'', Wild] Unlimited R_UpdateEntity,
     row ''DELETE'' [Lit ''v1'', Lit ''entities'', Wild] Unlimited R_DeleteEntity,
     row ''GET'' [Lit ''v1'', Lit ''entities'', Wild, Lit ''card''] Unlimited R_GetEntityCard,
     row ''GET'' [Lit ''v1'', Lit ''entities'', Wild, Lit ''ws''] Unlimited R_EntityHeartbeat,
     row ''POST'' [Lit ''v1'', Lit ''search''] SearchRL R_Search,
     row ''GET'' [Lit ''v1'', Lit ''categories''] Unlimited R_GetCategories,
     row ''GET'' [Lit ''v1'', Lit ''tags''] Unlimited R_GetTags,
     row ''POST'' [Lit ''v1'', Lit ''handles''] RegisterRL R_ClaimHandle,
     row ''GET'' [Lit ''v1'', Lit ''handles'', Wild] Unlimited R_GetHandle,
     row ''GET'' [Lit ''v1'', Lit ''handles'', Wild, Lit ''available''] Unlimited R_CheckHandleAvailable,
     row ''DELETE'' [Lit ''v1'', Lit ''handles'', Wild] Unlimited R_ReleaseHandle,
     row ''POST'' [Lit ''v1'', Lit ''handles'', Wild, Lit ''verify''] Unlimited R_VerifyHandle,
     row ''GET'' [Lit ''v1'', Lit ''handles'', Wild, Lit ''entities''] Unlimited R_ListHandleEntities,
     row ''POST'' [Lit ''v1'', Lit ''names''] RegisterRL R_RegisterName,
     row ''GET'' [Lit ''v1'', Lit ''names'', Wild, Wild] Unlimited R_GetName,
     row ''GET'' [Lit ''v1'', Lit ''names'', Wild, Wild, Lit ''available''] Unlimited R_CheckNameAvailable,
     row ''PUT'' [Lit ''v1'', Lit ''names'', Wild, Wild] Unlimited R_UpdateName,
     row ''DELETE'' [Lit ''v1'', Lit ''names'', Wild, Wild] Unlimited R_ReleaseName,
     row ''GET'' [Lit ''v1'', Lit ''names'', Wild, Wild, Lit ''versions''] Unlimited R_ListVersions,
     row ''GET'' [Lit ''v1'', Lit ''resolve'', Wild, Wild] Unlimited R_ResolveName,
     row ''GET'' [Lit ''.well-known'', Lit ''zynd-registry.json''] Unlimited R_RegistryIdentityProof,
     row ''GET'' [Lit ''v1'', Lit ''network'', Lit ''status''] Unlimited R_NetworkStatus,
     row ''GET'' [Lit ''v1'', Lit ''network'', Lit ''peers''] Unlimited R_GetPeers,
     row ''POST'' [Lit ''v1'', Lit ''network'', Lit ''peers''] Unlimited R_AddPeer,
     row ''GET'' [Lit ''v1'', Lit ''network'', Lit ''stats''] Unlimited R_NetworkStats,
     row ''GET'' [Lit ''v1'', Lit ''info''] Unlimited R_RegistryInfo,
     row ''POST'' [Lit ''v1'', Lit ''admin'', Lit ''developers'', Lit ''approve''] Unlimited R_ApproveDeveloper,
     row ''GET'' [Lit ''health''] Unlimited R_Health,
     row ''GET'' [Lit ''v1'', Lit ''ws'', Lit ''activity''] Unlimited R_ActivityStream,
     row ''GET'' [Lit ''swagger'', Rest] Unlimited R_Swagger]"

text \<open>Matching of a path; the result is the path values.\<close>

fun seg_match :: "seg list \<Rightarrow> string list \<Rightarrow> string list option" where
  "seg_match [] [] = Some []"
| "seg_match (Rest # ps) (s # ss) = Some []"
| "seg_match (Lit a # ps) (s # ss) = (if s = a then seg_match ps ss else None)"
| "seg_match (Wild # ps) (s # ss) = (if s = '''' then None else map_option ((#) s) (seg_match ps ss))"
| "seg_match _ _ = None"

text \<open>A pattern for GET serves HEAD as well.\<close>

definition method_match :: "string \<Rightarrow> string \<Rightarrow> bool" where
  "method_match pattern method \<longleftrightarrow> method = pattern \<or> pattern = ''GET'' \<and> method = ''HEAD''"

record http_request =
  rq_method :: string
  rq_path :: "string list"
  rq_client :: client
  rq_auth :: string
  rq_body :: "byte list"

definition row_match :: "http_request \<Rightarrow> route_row \<Rightarrow> bool" where
  "row_match req r \<longleftrightarrow> method_match (rt_method r) (rq_method req) \<and> seg_match (rt_segs r) (rq_path req) \<noteq> None"

section \<open>The gateway\<close>

text \<open>The state: the two limiters and the state of the handlers.\<close>

record 's gateway =
  gw_searchRL :: RateLimiter
  gw_registerRL :: RateLimiter
  gw_state :: 's

definition new_gateway :: "APIConfig \<Rightarrow> 's \<Rightarrow> 's gateway" where
  "new_gateway cfg s = \<lparr>gw_searchRL = NewRateLimiter (ac_RateLimitSearch cfg), gw_registerRL = NewRateLimiter (ac_RateLimitRegister cfg), gw_state = s\<rparr>"

type_synonym 's handlers = "route \<Rightarrow> string list \<Rightarrow> http_request \<Rightarrow> 's \<Rightarrow> response \<times> 's"

definition call_route :: "int \<Rightarrow> 's handlers \<Rightarrow> route_row \<Rightarrow> http_request \<Rightarrow> 's gateway \<Rightarrow> response \<times> 's gateway" where
  "call_route now handlers r req g =
     (let handler = handlers (rt_route r) (the (seg_match (rt_segs r) (rq_path req))) req
      in case rt_limiter r of
           Unlimited \<Rightarrow> (let (resp, s) = handler (gw_state g) in (resp, g\<lparr>gw_state := s\<rparr>))
         | SearchRL \<Rightarrow> (let (resp, rl, s) = rateLimited now (rq_client req) handler (gw_searchRL g, gw_state g)
                         in (resp, g\<lparr>gw_searchRL := rl, gw_state := s\<rparr>))
         | RegisterRL \<Rightarrow> (let (resp, rl, s) = rateLimited now (rq_client req) handler (gw_registerRL g, gw_state g)
                           in (resp, g\<lparr>gw_registerRL := rl, gw_state := s\<rparr>)))"

text \<open>The multiplexer: the route that matches; or a redirection when a route matches the path with a slash at its end; or 405 when the path,
  with or without the slash, has a route for another method; or 404.\<close>

definition path_variants :: "string list \<Rightarrow> string list list" where
  "path_variants path = (if path \<noteq> [] \<and> last path = '''' then [path] else [path, path @ ['''']])"

definition mux_ServeHTTP :: "int \<Rightarrow> 's handlers \<Rightarrow> http_request \<Rightarrow> 's gateway \<Rightarrow> response \<times> 's gateway" where
  "mux_ServeHTTP now handlers req g =
     (case find (row_match req) routes of
        Some r \<Rightarrow> call_route now handlers r req g
      | None \<Rightarrow>
          if list_ex (\<lambda>path. list_ex (row_match (req\<lparr>rq_path := path\<rparr>)) routes) (path_variants (rq_path req)) then ((301, PFields []), g)
          else if list_ex (\<lambda>path. list_ex (\<lambda>r. seg_match (rt_segs r) path \<noteq> None) routes) (path_variants (rq_path req)) then
            (writeError 405 ''Method Not Allowed'', g)
          else (writeError 404 ''404 page not found'', g))"

section \<open>Middleware\<close>

definition cors_origin :: "string list \<Rightarrow> string" where
  "cors_origin origins = (if length origins > 0 \<and> hd origins \<noteq> ''*'' then str_Join origins '', '' else ''*'')"

definition CORSMiddleware ::
  "string list \<Rightarrow> (http_request \<Rightarrow> 's gateway \<Rightarrow> response \<times> 's gateway) \<Rightarrow> http_request \<Rightarrow> 's gateway \<Rightarrow>
    (string \<times> string) list \<times> response \<times> 's gateway" where
  "CORSMiddleware origins next req g =
     (let headers = [(''Access-Control-Allow-Origin'', cors_origin origins),
          (''Access-Control-Allow-Methods'', ''GET, POST, PUT, DELETE, OPTIONS''),
          (''Access-Control-Allow-Headers'', ''Content-Type, Authorization''),
          (''Access-Control-Max-Age'', ''86400'')]
      in if rq_method req = ''OPTIONS'' then (headers, (204, PFields []), g)
         else (headers, next req g))"

text \<open>\<open>Handler\<close>, without the log line of \<open>LoggingMiddleware\<close>.\<close>

definition Handler :: "APIConfig \<Rightarrow> int \<Rightarrow> 's handlers \<Rightarrow> http_request \<Rightarrow> 's gateway \<Rightarrow> (string \<times> string) list \<times> response \<times> 's gateway" where
  "Handler cfg now handlers = CORSMiddleware (ac_CORSOrigins cfg) (mux_ServeHTTP now handlers)"

section \<open>Routes do not overlap\<close>

fun segs_overlap :: "seg list \<Rightarrow> seg list \<Rightarrow> bool" where
  "segs_overlap [] [] = True"
| "segs_overlap (Rest # ps) (q # qs) = True"
| "segs_overlap (p # ps) (Rest # qs) = True"
| "segs_overlap (Lit a # ps) (Lit b # qs) = (a = b \<and> segs_overlap ps qs)"
| "segs_overlap (p # ps) (q # qs) = segs_overlap ps qs"
| "segs_overlap _ _ = False"

lemma overlap_sound:
  assumes "seg_match ps ss \<noteq> None" "seg_match qs ss \<noteq> None"
  shows "segs_overlap ps qs"
  using assms
proof (induction ps ss arbitrary: qs rule: seg_match.induct)
  case 1
  then show ?case by (cases qs) auto
next
  case (2 ps s ss)
  then show ?case by (cases qs) auto
next
  case (3 a ps s ss)
  then show ?case by (cases qs rule: list.exhaust; cases "hd qs") (auto split: if_splits)
next
  case (4 ps s ss)
  then show ?case by (cases qs rule: list.exhaust; cases "hd qs") (auto split: if_splits)
qed auto

definition methods_overlap :: "string \<Rightarrow> string \<Rightarrow> bool" where
  "methods_overlap p q \<longleftrightarrow> p = q \<or> p = ''GET'' \<and> q = ''HEAD'' \<or> p = ''HEAD'' \<and> q = ''GET''"

definition rows_overlap :: "route_row \<Rightarrow> route_row \<Rightarrow> bool" where
  "rows_overlap r r' \<longleftrightarrow> methods_overlap (rt_method r) (rt_method r') \<and> segs_overlap (rt_segs r) (rt_segs r')"

lemma row_overlap_sound: "row_match req r \<Longrightarrow> row_match req r' \<Longrightarrow> rows_overlap r r'"
  using overlap_sound by (auto simp: row_match_def rows_overlap_def methods_overlap_def method_match_def)

lemma routes_disjoint: "sorted_wrt (\<lambda>r r'. \<not> rows_overlap r r') routes"
  by code_simp

lemma find_unique:
  assumes "sorted_wrt (\<lambda>r r'. \<not> R r r') rs" "\<And>r r'. P r \<Longrightarrow> P r' \<Longrightarrow> R r r'"
  shows "find P rs = Some r \<longleftrightarrow> r \<in> set rs \<and> P r"
  using assms(1)
proof (induction rs)
  case (Cons x rs)
  then show ?case using assms(2) by (cases "P x") auto
qed simp

lemma find_route_iff: "find (row_match req) routes = Some r \<longleftrightarrow> r \<in> set routes \<and> row_match req r"
  by (rule find_unique[OF routes_disjoint]) (rule row_overlap_sound)

text \<open>C28: the routes are unambiguous. No two of the registered patterns match the same request, so registering them
  never panics, the order in which they are registered does not matter, and a request that matches the pattern of a route, by its
  method (GET serves HEAD) and the segments of its path, is dispatched to this route.\<close>

theorem routes_unambiguous:
  assumes "mset rts = mset routes"
  shows "find (row_match req) rts = Some r \<longleftrightarrow> r \<in> set routes \<and> row_match req r"
proof -
  have unique: "x = y" if "x \<in> set routes" "y \<in> set routes" "row_match req x" "row_match req y" for x y
    using find_route_iff[of req x] find_route_iff[of req y] that by simp
  have s: "set rts = set routes" using assms by (metis set_mset_mset)
  have found: "x \<in> set routes \<and> row_match req x" if "find (row_match req) rts = Some x" for x
    using that s by (auto simp: find_Some_iff)
  have "find (row_match req) rts \<noteq> None" if "r \<in> set routes" "row_match req r" using that s by (auto simp: find_None_iff)
  then show ?thesis using found unique by blast
qed

theorem routes_unambiguous_witness:
  "find (row_match \<lparr>rq_method = ''HEAD'', rq_path = [''v1'', ''entities'', ''x'', ''card''],
       rq_client = \<lparr>cl_XForwardedFor = '''', cl_XRealIP = '''', cl_RemoteAddr = ''''\<rparr>, rq_auth = '''', rq_body = []\<rparr>) (rev routes) =
     Some (row ''GET'' [Lit ''v1'', Lit ''entities'', Wild, Lit ''card''] Unlimited R_GetEntityCard)"
  (is "find (row_match ?req) _ = Some ?r")
proof -
  have "?r \<in> set routes" by (simp add: routes_def)
  moreover have "row_match ?req ?r" by code_simp
  ultimately show ?thesis by (simp only: routes_unambiguous mset_rev simp_thms)
qed

section \<open>Limits of the gateway\<close>

text \<open>Requests and ticks of the two clean-up loops, with their times.\<close>

datatype gw_op = Serve int http_request | CleanSearch int | CleanRegister int

fun gw_time :: "gw_op \<Rightarrow> int" where
  "gw_time (Serve now req) = now"
| "gw_time (CleanSearch now) = now"
| "gw_time (CleanRegister now) = now"

fun gw_step :: "APIConfig \<Rightarrow> 's handlers \<Rightarrow> gw_op \<Rightarrow> 's gateway \<Rightarrow> 's gateway" where
  "gw_step cfg h (Serve now req) g = snd (snd (Handler cfg now h req g))"
| "gw_step cfg h (CleanSearch now) g = g\<lparr>gw_searchRL := cleanup_tick now (gw_searchRL g)\<rparr>"
| "gw_step cfg h (CleanRegister now) g = g\<lparr>gw_registerRL := cleanup_tick now (gw_registerRL g)\<rparr>"

text \<open>Handlers that record their calls: the state is the list of the routes that were called, with the key of the client.\<close>

definition recording :: "(route \<times> string) list handlers" where
  "recording r vals req calls = ((200, PFields []), calls @ [(r, extractIP (rq_client req))])"

text \<open>What one step is for a limiter.\<close>

definition limiter_state :: "limiter_of \<Rightarrow> 's gateway \<Rightarrow> RateLimiter" where
  "limiter_state l g = (if l = SearchRL then gw_searchRL g else gw_registerRL g)"

fun limiter_ops :: "limiter_of \<Rightarrow> gw_op \<Rightarrow> rl_op list" where
  "limiter_ops l (Serve now req) =
     (if rq_method req = ''OPTIONS'' then []
      else case find (row_match req) routes of
             Some r \<Rightarrow> if rt_limiter r = l then [Request now (extractIP (rq_client req))] else []
           | None \<Rightarrow> [])"
| "limiter_ops l (CleanSearch now) = (if l = SearchRL then [Cleanup now] else [])"
| "limiter_ops l (CleanRegister now) = (if l = RegisterRL then [Cleanup now] else [])"

definition calls_of :: "limiter_of \<Rightarrow> string \<Rightarrow> (route \<times> string) list \<Rightarrow> nat" where
  "calls_of l key calls = length (filter (\<lambda>(r, k). k = key \<and> (\<exists>x\<in>set routes. rt_route x = r \<and> rt_limiter x = l)) calls)"

lemma routes_distinct: "distinct (map rt_route routes)"
  by code_simp

lemma limiter_of_route:
  assumes "x \<in> set routes"
  shows "(\<exists>y\<in>set routes. rt_route y = rt_route x \<and> rt_limiter y = l) \<longleftrightarrow> rt_limiter x = l"
  using assms routes_distinct by (metis distinct_map inj_on_def)

lemma gw_step_limiter:
  assumes "l = SearchRL \<or> l = RegisterRL"
  shows "limiter_state l (gw_step cfg recording op g) = snd (run_ops rl_step (limiter_ops l op) (limiter_state l g)) \<and>
    (\<exists>new. gw_state (gw_step cfg recording op g) = gw_state g @ new \<and>
      calls_of l key new = allowed key (limiter_ops l op) (limiter_state l g))"
proof (cases op)
  case (Serve now req)
  show ?thesis
  proof (cases "rq_method req = ''OPTIONS''")
    case True
    then show ?thesis by (simp add: Serve Handler_def CORSMiddleware_def calls_of_def)
  next
    case options: False
    show ?thesis
    proof (cases "find (row_match req) routes")
      case None
      then show ?thesis using options by (simp add: Serve Handler_def CORSMiddleware_def mux_ServeHTTP_def calls_of_def)
    next
      case (Some r)
      then have "r \<in> set routes" by (auto simp: find_Some_iff)
      note own = limiter_of_route[OF this]
      let ?k = "extractIP (rq_client req)"
      have one: "calls_of l key [(rt_route r, k)] = (if k = key \<and> rt_limiter r = l then 1 else 0)" for k
        using own by (simp add: calls_of_def)
      have none: "calls_of l key [] = 0" by (simp add: calls_of_def)
      obtain ok rl where a: "Allow now ?k (limiter_state (rt_limiter r) g) = (ok, rl)" by fastforce
      have st: "gw_step cfg recording op g = snd (call_route now recording r req g)"
        using options Some by (simp add: Serve Handler_def CORSMiddleware_def mux_ServeHTTP_def)
      show ?thesis
        unfolding st using options Some assms a one none
        by (cases "rt_limiter r"; cases ok)
          (auto simp: Serve call_route_def rateLimited_def recording_def limiter_state_def allowed_Cons split_beta)
    qed
  qed
qed (use assms in \<open>auto simp: limiter_state_def calls_of_def allowed_Cons\<close>)

lemma gw_run_limiter:
  assumes "l = SearchRL \<or> l = RegisterRL"
  shows "limiter_state l (fold (gw_step cfg recording) ops g) = snd (run_ops rl_step (concat (map (limiter_ops l) ops)) (limiter_state l g)) \<and>
    (\<exists>new. gw_state (fold (gw_step cfg recording) ops g) = gw_state g @ new \<and>
      calls_of l key new = allowed key (concat (map (limiter_ops l) ops)) (limiter_state l g))"
proof (induction ops arbitrary: g)
  case Nil
  then show ?case by (simp add: calls_of_def)
next
  case (Cons op ops)
  obtain new where s: "limiter_state l (gw_step cfg recording op g) = snd (run_ops rl_step (limiter_ops l op) (limiter_state l g))"
    "gw_state (gw_step cfg recording op g) = gw_state g @ new" "calls_of l key new = allowed key (limiter_ops l op) (limiter_state l g)"
    using gw_step_limiter[OF assms] by blast
  obtain new2 where "limiter_state l (fold (gw_step cfg recording) ops (gw_step cfg recording op g)) =
      snd (run_ops rl_step (concat (map (limiter_ops l) ops)) (limiter_state l (gw_step cfg recording op g)))"
    "gw_state (fold (gw_step cfg recording) ops (gw_step cfg recording op g)) = gw_state (gw_step cfg recording op g) @ new2"
    "calls_of l key new2 = allowed key (concat (map (limiter_ops l) ops)) (limiter_state l (gw_step cfg recording op g))"
    using Cons.IH by blast
  then show ?case
    using s by (auto simp: allowed_append run_ops_state calls_of_def intro!: exI[of _ "new @ new2"])
qed

lemma limited_routes:
  "(\<exists>x\<in>set routes. rt_route x = r \<and> rt_limiter x = RegisterRL) \<longleftrightarrow> r \<in> {R_RegisterDeveloper, R_RegisterEntity, R_ClaimHandle, R_RegisterName}"
  "(\<exists>x\<in>set routes. rt_route x = r \<and> rt_limiter x = SearchRL) \<longleftrightarrow> r = R_Search"
proof -
  have "map rt_route (filter (\<lambda>x. rt_limiter x = RegisterRL) routes) = [R_RegisterDeveloper, R_RegisterEntity, R_ClaimHandle, R_RegisterName]"
    "map rt_route (filter (\<lambda>x. rt_limiter x = SearchRL) routes) = [R_Search]" by code_simp+
  note s = this[THEN arg_cong[where f = set]]
  have e: "(\<exists>x\<in>set routes. rt_route x = r \<and> rt_limiter x = l) \<longleftrightarrow> r \<in> set (map rt_route (filter (\<lambda>x. rt_limiter x = l) routes))" for l by auto
  show "(\<exists>x\<in>set routes. rt_route x = r \<and> rt_limiter x = RegisterRL) \<longleftrightarrow> r \<in> {R_RegisterDeveloper, R_RegisterEntity, R_ClaimHandle, R_RegisterName}"
    unfolding e s(1) by simp
  show "(\<exists>x\<in>set routes. rt_route x = r \<and> rt_limiter x = SearchRL) \<longleftrightarrow> r = R_Search"
    unfolding e s(2) by simp
qed

lemma limiter_times:
  assumes "\<forall>op\<in>set ops. start \<le> gw_time op \<and> gw_time op \<le> start + minute" "x \<in> set (concat (map (limiter_ops l) ops))"
  shows "start \<le> op_time x \<and> op_time x \<le> start + minute"
proof -
  obtain op where op: "op \<in> set ops" "x \<in> set (limiter_ops l op)" using assms(2) by auto
  have "op_time x = gw_time op" using op(2) by (cases op) (auto split: if_splits option.splits)
  then show ?thesis using assms(1) op(1) by simp
qed

text \<open>C27: the two budgets of a client. Whatever happened before, in any minute the handlers that register something (developers,
  entities, handles and names together) are called at most twice the register rate less one times for a client, and the search
  handler at most twice the search rate less one times.\<close>

theorem gateway_bounds_clients:
  assumes "g = fold (gw_step cfg recording) before (new_gateway cfg [])"
    and "\<forall>op\<in>set ops. start \<le> gw_time op \<and> gw_time op \<le> start + minute"
  shows "\<exists>new. gw_state (fold (gw_step cfg recording) ops g) = gw_state g @ new \<and>
    int (length (filter (\<lambda>(r, k). k = key \<and> r \<in> {R_RegisterDeveloper, R_RegisterEntity, R_ClaimHandle, R_RegisterName}) new))
      \<le> max 1 (2 * ac_RateLimitRegister cfg - 1) \<and>
    int (length (filter (\<lambda>(r, k). k = key \<and> r = R_Search) new)) \<le> max 1 (2 * ac_RateLimitSearch cfg - 1)"
proof -
  define rate where "rate l = (if l = SearchRL then ac_RateLimitSearch cfg else ac_RateLimitRegister cfg)" for l
  have inv: "rl_inv (rate l) (limiter_state l g)" if "l = SearchRL \<or> l = RegisterRL" for l
    using gw_run_limiter[OF that, of cfg before "new_gateway cfg []"] run_inv_new that
    unfolding assms(1) by (auto simp: limiter_state_def new_gateway_def rate_def)
  obtain new where new: "gw_state (fold (gw_step cfg recording) ops g) = gw_state g @ new"
    using gw_run_limiter[of SearchRL cfg ops g] by auto
  have "int (calls_of l key new) \<le> max 1 (2 * rate l - 1)" if l: "l = SearchRL \<or> l = RegisterRL" for l
  proof -
    have "calls_of l key new = allowed key (concat (map (limiter_ops l) ops)) (limiter_state l g)"
      using gw_run_limiter[OF l, of cfg ops g key] new by auto
    moreover have "\<forall>x\<in>set (concat (map (limiter_ops l) ops)). start \<le> op_time x \<and> op_time x \<le> start + minute"
      using limiter_times[OF assms(2)] by blast
    ultimately show ?thesis using allowed_in_a_minute[OF inv[OF l]] by simp
  qed
  from this[of SearchRL] this[of RegisterRL] show ?thesis
    unfolding calls_of_def limited_routes by (intro exI[of _ new]) (simp add: new rate_def)
qed

definition sample_request :: "string \<Rightarrow> string list \<Rightarrow> http_request" where
  "sample_request method path = \<lparr>rq_method = method, rq_path = path,
     rq_client = \<lparr>cl_XForwardedFor = '''', cl_XRealIP = '''', cl_RemoteAddr = ''ip''\<rparr>, rq_auth = '''', rq_body = []\<rparr>"

definition sample_api :: APIConfig where
  "sample_api = \<lparr>ac_Listen = '':8080'', ac_RateLimitSearch = 100, ac_RateLimitRegister = 1, ac_CORSOrigins = [''https://a'', ''https://b'']\<rparr>"

lemma sample_gateway_run:
  "gw_state (fold (gw_step sample_api recording)
     [Serve 1 (sample_request ''POST'' [''v1'', ''names'']), Serve 2 (sample_request ''POST'' [''v1'', ''entities'']), Serve 3 (sample_request ''GET'' [''v1'', ''entities''])]
     (new_gateway sample_api [])) = [(R_RegisterName, ''ip''), (R_ListEntities, ''ip'')]"
  by code_simp

theorem gateway_bounds_clients_witness:
  "let ops = [Serve 1 (sample_request ''POST'' [''v1'', ''names'']), Serve 2 (sample_request ''POST'' [''v1'', ''entities'']), Serve 3 (sample_request ''GET'' [''v1'', ''entities''])]
   in \<exists>new. gw_state (fold (gw_step sample_api recording) ops (new_gateway sample_api [])) = new \<and> new = [(R_RegisterName, ''ip''), (R_ListEntities, ''ip'')] \<and>
     int (length (filter (\<lambda>(r, k). k = ''ip'' \<and> r \<in> {R_RegisterDeveloper, R_RegisterEntity, R_ClaimHandle, R_RegisterName}) new)) \<le> 1"
proof -
  let ?ops = "[Serve 1 (sample_request ''POST'' [''v1'', ''names'']), Serve 2 (sample_request ''POST'' [''v1'', ''entities'']), Serve 3 (sample_request ''GET'' [''v1'', ''entities''])]"
  have "\<forall>op\<in>set ?ops. (0 :: int) \<le> gw_time op \<and> gw_time op \<le> 0 + minute" by (simp add: minute_def)
  note t = this
  have "gw_state (new_gateway sample_api []) = []" "ac_RateLimitRegister sample_api = 1" by (simp_all add: new_gateway_def sample_api_def)
  then show ?thesis
    using gateway_bounds_clients[where before = "[]" and cfg = sample_api and key = "''ip''", OF refl t]
    unfolding Let_def fold_Nil id_apply sample_gateway_run by (intro exI[of _ "[(R_RegisterName, ''ip''), (R_ListEntities, ''ip'')]"]) auto
qed

text \<open>C29: every answer of the gateway is its own or one handler's. A request that matches no route, a preflight request and a request over
  the limit are answered by the gateway, with 301, 404 or 405, with 204, and with 429, and the handlers' state is unchanged; any other
  answer, and the new state, is that of the handler of a route that matches, which was called once on the path values. The answer
  always carries the CORS headers.\<close>

theorem gateway_calls_one_handler:
  assumes "Handler cfg now h req g = (hs, resp, g')"
  shows "map_of hs ''Access-Control-Allow-Origin'' = Some (cors_origin (ac_CORSOrigins cfg)) \<and>
    (fst resp \<in> {204, 301, 404, 405, 429} \<and> gw_state g' = gw_state g \<or>
     (\<exists>r\<in>set routes. \<exists>vals. method_match (rt_method r) (rq_method req) \<and> seg_match (rt_segs r) (rq_path req) = Some vals \<and>
       rq_method req \<noteq> ''OPTIONS'' \<and> h (rt_route r) vals req (gw_state g) = (resp, gw_state g')))"
proof -
  have hs: "map_of hs ''Access-Control-Allow-Origin'' = Some (cors_origin (ac_CORSOrigins cfg))"
    using assms by (auto simp: Handler_def CORSMiddleware_def Let_def split: if_splits)
  show ?thesis
  proof (cases "rq_method req = ''OPTIONS'' \<or> find (row_match req) routes = None")
    case True
    then have "fst resp \<in> {204, 301, 404, 405} \<and> g' = g"
      using assms by (cases "rq_method req = ''OPTIONS''")
        (auto simp: Handler_def CORSMiddleware_def mux_ServeHTTP_def writeError_def Let_def simp del: find_None_iff split: if_splits)
    then show ?thesis using hs by auto
  next
    case False
    then obtain r where r: "find (row_match req) routes = Some r" "rq_method req \<noteq> ''OPTIONS''" by auto
    then have m: "r \<in> set routes" "row_match req r" by (auto simp: find_Some_iff)
    obtain vals where v: "seg_match (rt_segs r) (rq_path req) = Some vals" using m(2) by (auto simp: row_match_def)
    have "call_route now h r req g = (resp, g')"
      using assms r by (simp add: Handler_def CORSMiddleware_def mux_ServeHTTP_def)
    then have "fst resp = 429 \<and> gw_state g' = gw_state g \<or> h (rt_route r) vals req (gw_state g) = (resp, gw_state g')"
      by (auto simp: call_route_def rateLimited_def v writeError_def Let_def split: limiter_of.splits prod.splits bool.splits)
    then show ?thesis using hs m v r(2) by (auto simp: row_match_def)
  qed
qed

theorem gateway_calls_one_handler_witness:
  "\<exists>hs resp g'. Handler sample_api 1 recording (sample_request ''PUT'' [''v1'', ''names'', ''d'', ''e'']) (new_gateway sample_api []) = (hs, resp, g') \<and>
    map_of hs ''Access-Control-Allow-Origin'' = Some ''https://a, https://b''"
proof -
  obtain hs resp g' where e: "Handler sample_api 1 recording (sample_request ''PUT'' [''v1'', ''names'', ''d'', ''e'']) (new_gateway sample_api []) = (hs, resp, g')"
    using prod_cases3 by blast
  show ?thesis using gateway_calls_one_handler[OF e] e by (simp add: sample_api_def cors_origin_def)
qed

section \<open>CORS\<close>

text \<open>What a browser asks of the header: the origin itself or a star.\<close>

definition browser_accepts :: "string \<Rightarrow> string \<Rightarrow> bool" where
  "browser_accepts origin header \<longleftrightarrow> header = ''*'' \<or> header = origin"

text \<open>With more than one configured origin no browser accepts any of them. The configured origins are joined to one header, which is
  neither a star nor any origin without a comma; a single origin works.\<close>

theorem cors_several_origins_unusable:
  assumes "hd origins \<noteq> ''*''"
  shows "(2 \<le> length origins \<longrightarrow> (\<forall>origin. CHR '','' \<notin> set origin \<longrightarrow> \<not> browser_accepts origin (cors_origin origins))) \<and>
    (\<forall>origin. origins = [origin] \<longrightarrow> browser_accepts origin (cors_origin origins))"
proof -
  have "CHR '','' \<in> set (cors_origin origins)" if two: "2 \<le> length origins"
  proof -
    obtain a b rest where "origins = a # b # rest" using two by (cases origins; cases "tl origins") auto
    then show ?thesis using assms by (simp add: cors_origin_def)
  qed
  then show ?thesis using assms by (auto simp: browser_accepts_def cors_origin_def)
qed

theorem cors_several_origins_unusable_witness:
  "\<not> browser_accepts ''https://a'' (cors_origin [''https://a'', ''https://b''])"
  using cors_several_origins_unusable[of "[''https://a'', ''https://b'']"] by simp

end
