(* ===== verification/Client.thy ===== *)
theory Client
  imports Cli Gateway
begin

text \<open>
  The commands \<open>resolve\<close> and \<open>card\<close> of \<open>cmd/agentdns/main.go\<close>, from the URL they build to the route and the handler that answers.

  A path of plain characters is taken apart as \<open>net/http\<close> does it: the server splits it at the slashes and redirects a path that is not
  clean to its clean form, and the client follows. What becomes of a path with other characters (escapes, a query) is the parameter \<open>esc\<close>.
\<close>

section \<open>Paths of URLs\<close>

definition url_plain_chars :: string where
  "url_plain_chars = ''abcdefghijklmnopqrstuvwxyzABCDEFGHIJKLMNOPQRSTUVWXYZ0123456789-_.~:/''"

definition clean_segments :: "string list \<Rightarrow> string list" where
  "clean_segments segs =
     (let cleaned = fold (clean_part True) segs []
      in if cleaned = [] then [''''] else if last segs = '''' then cleaned @ [''''] else cleaned)"

definition url_segments :: "(string \<Rightarrow> string list option) \<Rightarrow> string \<Rightarrow> string list option" where
  "url_segments esc path =
     (if set path \<subseteq> set url_plain_chars then Some (clean_segments (split_slash (tl path) [])) else esc path)"

text \<open>The route and the path values of a GET request; \<^term>\<open>Some None\<close> is an answer with status 404 or 405, \<^term>\<open>None\<close> a URL that cannot be parsed.\<close>

definition get_route :: "(string \<Rightarrow> string list option) \<Rightarrow> string \<Rightarrow> (route \<times> string list) option option" where
  "get_route esc path =
     map_option (\<lambda>segs. map_option (\<lambda>r. (rt_route r, the (seg_match (rt_segs r) segs)))
         (find (row_match (sample_request ''GET'' segs)) routes))
       (url_segments esc path)"

section \<open>The commands\<close>

definition status_outcome :: "response \<Rightarrow> cli_outcome" where
  "status_outcome resp = (if fst resp = 404 then C_failed resp else C_ok resp)"

definition not_routed :: response where
  "not_routed = writeError 404 ''404 page not found''"

text \<open>A path can lead to another route (\<open>../categories\<close>); \<open>others\<close> are the answers of those.\<close>

definition cmdResolve ::
  "(string \<Rightarrow> string list option) \<Rightarrow> (route \<Rightarrow> string list \<Rightarrow> response) \<Rightarrow> env \<Rightarrow> (string \<Rightarrow> dhtRecord option) option \<Rightarrow> bool \<Rightarrow> string list \<Rightarrow> Server \<Rightarrow>
    cli_outcome \<times> Server" where
  "cmdResolve esc others v findValue reachable args s =
     (case args of
        [] \<Rightarrow> (C_usage, s)
      | target # _ \<Rightarrow>
          let path = (if str_Contains target ''/''
                then (case SplitN target (CHR ''/'') 2 of
                        [developer, entity] \<Rightarrow> Some (''/v1/resolve/'' @ developer @ ''/'' @ entity)
                      | _ \<Rightarrow> None)
                else Some (''/v1/entities/'' @ target))
          in case path of
               None \<Rightarrow> (C_usage, s)
             | Some path \<Rightarrow>
                 if \<not> reachable then (C_fatal ''failed to connect to registry'', s)
                 else (case get_route esc path of
                         None \<Rightarrow> (C_fatal ''failed to connect to registry'', s)
                       | Some None \<Rightarrow> (status_outcome not_routed, s)
                       | Some (Some (r, vals)) \<Rightarrow>
                           if r = R_ResolveName then
                             (let (resp, s) = handleResolveName v (vals ! 0) (vals ! 1) s in (status_outcome resp, s))
                           else if r = R_GetEntity then (status_outcome (handleGetEntity v findValue (vals ! 0) s), s)
                           else (status_outcome (others r vals), s)))"

section \<open>Names and identifiers reach their handlers\<close>

text \<open>What names, handles, hosts and identifiers are made of.\<close>

definition plain_part :: "string \<Rightarrow> bool" where
  "plain_part s \<longleftrightarrow> s \<noteq> '''' \<and> s \<noteq> ''.'' \<and> s \<noteq> ''..'' \<and> CHR ''/'' \<notin> set s \<and> set s \<subseteq> set url_plain_chars"

lemma split_slash_last: "CHR ''/'' \<notin> set s \<Longrightarrow> split_slash s acc = [rev acc @ s]"
  by (induction s arbitrary: acc) auto

lemma split_slash_step: "CHR ''/'' \<notin> set s \<Longrightarrow> split_slash (s @ CHR ''/'' # t) acc = (rev acc @ s) # split_slash t []"
  by (induction s arbitrary: acc) auto

lemma clean_plain: "\<forall>s\<in>set segs. plain_part s \<Longrightarrow> fold (clean_part True) segs out = out @ segs"
  by (induction segs arbitrary: out) (auto simp: clean_part_def plain_part_def)

lemma clean_segments_plain: "segs \<noteq> [] \<Longrightarrow> \<forall>s\<in>set segs. plain_part s \<Longrightarrow> clean_segments segs = segs"
  using last_in_set[of segs] by (auto simp: clean_segments_def clean_plain plain_part_def)

lemma plain_literals: "plain_part ''v1''" "plain_part ''resolve''" "plain_part ''entities''"
  by code_simp+

lemma url_segments_plain:
  assumes "plain_part d" "plain_part e"
  shows "url_segments esc (''/v1/entities/'' @ e) = Some [''v1'', ''entities'', e]"
    "url_segments esc (''/v1/resolve/'' @ d @ ''/'' @ e) = Some [''v1'', ''resolve'', d, e]"
    "plain_part h \<Longrightarrow> url_segments esc (''/v1/resolve/'' @ h @ ''/'' @ d @ ''/'' @ e) = Some [''v1'', ''resolve'', h, d, e]"
proof -
  have p: "set ''/v1/entities/'' \<subseteq> set url_plain_chars" "set ''/v1/resolve/'' \<subseteq> set url_plain_chars" "set ''/'' \<subseteq> set url_plain_chars"
    by code_simp+
  have v: "split_slash (''v1/entities/'' @ t) [] = ''v1'' # ''entities'' # split_slash t []"
    "split_slash (''v1/resolve/'' @ t) [] = ''v1'' # ''resolve'' # split_slash t []" for t by simp_all
  have s: "split_slash x [] = [x]" "split_slash (x @ ''/'' @ t) [] = x # split_slash t []" if "plain_part x" for x t
    using that by (simp_all add: plain_part_def split_slash_last split_slash_step)
  have tl: "tl (''/v1/entities/'' @ t) = ''v1/entities/'' @ t" "tl (''/v1/resolve/'' @ t) = ''v1/resolve/'' @ t" for t by simp_all
  have c: "set x \<subseteq> set url_plain_chars" if "plain_part x" for x using that by (simp add: plain_part_def)
  show "url_segments esc (''/v1/entities/'' @ e) = Some [''v1'', ''entities'', e]"
    unfolding url_segments_def tl v s[OF assms(2)] using p c[OF assms(2)] assms plain_literals by (simp add: clean_segments_plain)
  show "url_segments esc (''/v1/resolve/'' @ d @ ''/'' @ e) = Some [''v1'', ''resolve'', d, e]"
    unfolding url_segments_def tl v s[OF assms(1)] s[OF assms(2)] using p c[OF assms(1)] c[OF assms(2)] assms plain_literals
    by (simp add: clean_segments_plain)
  show "url_segments esc (''/v1/resolve/'' @ h @ ''/'' @ d @ ''/'' @ e) = Some [''v1'', ''resolve'', h, d, e]" if h: "plain_part h"
    unfolding url_segments_def tl v s[OF h] s[OF assms(1)] s[OF assms(2)] using p c[OF h] c[OF assms(1)] c[OF assms(2)] h assms plain_literals
    by (simp add: clean_segments_plain)
qed


lemma get_routes:
  assumes "plain_part d" "plain_part e"
  shows "get_route esc (''/v1/entities/'' @ e) = Some (Some (R_GetEntity, [e]))"
    "get_route esc (''/v1/resolve/'' @ d @ ''/'' @ e) = Some (Some (R_ResolveName, [d, e]))"
    "plain_part h \<Longrightarrow> get_route esc (''/v1/resolve/'' @ h @ ''/'' @ d @ ''/'' @ e) = Some None"
proof -
  have ne: "d \<noteq> ''''" "e \<noteq> ''''" using assms by (simp_all add: plain_part_def)
  have "find (row_match (sample_request ''GET'' [''v1'', ''entities'', e])) routes = Some (row ''GET'' [Lit ''v1'', Lit ''entities'', Wild] Unlimited R_GetEntity)"
    unfolding find_route_iff by (simp add: routes_def) (simp add: row_match_def row_def method_match_def sample_request_def ne)
  then show "get_route esc (''/v1/entities/'' @ e) = Some (Some (R_GetEntity, [e]))"
    unfolding get_route_def url_segments_plain(1)[OF assms] by (simp add: row_def ne)
  have "find (row_match (sample_request ''GET'' [''v1'', ''resolve'', d, e])) routes = Some (row ''GET'' [Lit ''v1'', Lit ''resolve'', Wild, Wild] Unlimited R_ResolveName)"
    unfolding find_route_iff by (simp add: routes_def) (simp add: row_match_def row_def method_match_def sample_request_def ne)
  then show "get_route esc (''/v1/resolve/'' @ d @ ''/'' @ e) = Some (Some (R_ResolveName, [d, e]))"
    unfolding get_route_def url_segments_plain(2)[OF assms] by (simp add: row_def ne)
  have "list_all (\<lambda>r. seg_match (rt_segs r) [''v1'', ''resolve'', h, d, e] = None) routes" for h
    by (simp add: routes_def row_def)
  then have "find (row_match (sample_request ''GET'' [''v1'', ''resolve'', h, d, e])) routes = None" for h
    by (auto simp: find_None_iff list_all_iff row_match_def sample_request_def)
  then show "get_route esc (''/v1/resolve/'' @ h @ ''/'' @ d @ ''/'' @ e) = Some None" if "plain_part h"
    unfolding get_route_def url_segments_plain(3)[OF assms that] by simp
qed

text \<open>What \<open>resolve\<close> asks. For a developer handle and an entity name of plain characters the command prints what the handler of
  name resolution answers for exactly these two, and for an identifier what the lookup of the entity answers. The fully
  qualified name, with the host of the registry before the two, which the registry itself prints in its answers, is never resolved: the path
  it makes matches no route, and the command reports that the name was not found, whatever is registered.\<close>

theorem resolve_reaches_registry:
  assumes "plain_part d" "plain_part e" "plain_part h"
  shows "cmdResolve esc others v findValue True [d @ ''/'' @ e] s = (let (resp, s') = handleResolveName v d e s in (status_outcome resp, s')) \<and>
    cmdResolve esc others v findValue True [e] s = (status_outcome (handleGetEntity v findValue e s), s) \<and>
    cmdResolve esc others v findValue True [h @ ''/'' @ d @ ''/'' @ e] s = (C_failed not_routed, s)"
proof -
  have slash: "str_Contains (x @ ''/'' @ y) ''/''" "\<not> str_Contains e ''/''" for x y
    using assms(2) by (auto simp: str_Contains_iff plain_part_def)
  have two: "SplitN (x @ ''/'' @ y) (CHR ''/'') 2 = [x, y]" if "plain_part x" for x y
    using that SplitN_step[of "CHR ''/''" x 2 y] by (simp add: plain_part_def SplitN_last)
  note r = get_routes[OF assms(1,2)]
  have "cmdResolve esc others v findValue True [d @ ''/'' @ e] s = (let (resp, s') = handleResolveName v d e s in (status_outcome resp, s'))"
    unfolding cmdResolve_def by (simp add: slash(1)[simplified] two[OF assms(1), simplified] r(2)[simplified])
  moreover have "cmdResolve esc others v findValue True [e] s = (status_outcome (handleGetEntity v findValue e s), s)"
    unfolding cmdResolve_def by (simp add: slash(2) r(1)[simplified])
  moreover have "cmdResolve esc others v findValue True [h @ ''/'' @ d @ ''/'' @ e] s = (C_failed not_routed, s)"
    unfolding cmdResolve_def
    by (simp add: slash(1)[simplified] two[OF assms(3), simplified] r(3)[OF assms(3), simplified] status_outcome_def not_routed_def writeError_def)
  ultimately show ?thesis by blast
qed

theorem resolve_reaches_registry_witness:
  "fst (cmdResolve (\<lambda>_. None) (\<lambda>_ _. not_routed) ApiHandles.sample_env None True [''reg.example/acme/bot''] (sample_server ''open'' empty_db)) = C_failed not_routed"
proof -
  have "plain_part ''acme''" "plain_part ''bot''" "plain_part ''reg.example''" by code_simp+
  from resolve_reaches_registry[OF this, of "\<lambda>_. None" "\<lambda>_ _. not_routed" ApiHandles.sample_env None "sample_server ''open'' empty_db"]
  show ?thesis by simp
qed

end
