(* ===== verification/Tls.thy ===== *)
theory Tls
  imports Sha256 Codec
begin

text \<open>
  Fingerprints of TLS keys (\<open>internal/zns/tls_verify.go\<close>). Files, PEM, X.509 and the TLS connection are parameters: a parsed certificate
  is represented by its raw SubjectPublicKeyInfo.
\<close>

datatype spki_error = E_cert_file | E_cert_pem | E_cert_parse | E_tls_dial | E_no_certificates

definition spki_fingerprint :: "byte list \<Rightarrow> string" where
  "spki_fingerprint spki = ''sha256:'' @ hex_EncodeToString (sha256_Sum256 spki)"

definition ExtractSPKIFingerprint ::
  "(string \<Rightarrow> byte list option) \<Rightarrow> (byte list \<Rightarrow> byte list option) \<Rightarrow> (byte list \<Rightarrow> byte list option) \<Rightarrow> string \<Rightarrow> spki_error + string" where
  "ExtractSPKIFingerprint readFile pem_Decode parseCertificate certPath =
     (case readFile certPath of
        None \<Rightarrow> Inl E_cert_file
      | Some contents \<Rightarrow>
          (case pem_Decode contents of
             None \<Rightarrow> Inl E_cert_pem
           | Some block \<Rightarrow>
               (case parseCertificate block of
                  None \<Rightarrow> Inl E_cert_parse
                | Some spki \<Rightarrow> Inr (spki_fingerprint spki))))"

text \<open>\<open>dial\<close> gives the certificates of the peer, the leaf first, when the handshake succeeds.\<close>

definition VerifySPKIMatch :: "(string \<Rightarrow> byte list list option) \<Rightarrow> string \<Rightarrow> string \<Rightarrow> spki_error + bool" where
  "VerifySPKIMatch dial addr expectedFingerprint =
     (case dial addr of
        None \<Rightarrow> Inl E_tls_dial
      | Some certs \<Rightarrow>
          if length certs = 0 then Inl E_no_certificates
          else Inr (spki_fingerprint (hd certs) = expectedFingerprint))"

lemma fingerprint_eq: "spki_fingerprint a = spki_fingerprint b \<longleftrightarrow> sha256_Sum256 a = sha256_Sum256 b"
  unfolding spki_fingerprint_def using hex_decode_encode by (metis option.inject same_append_eq)

text \<open>The pin of a certificate file matches exactly the hosts whose leaf key has the same SHA-256 hash; in particular the
  host that serves the certificate, whatever else is in its chain, and not a host that only has it further up in the chain.\<close>

theorem spki_pin_matches:
  assumes "ExtractSPKIFingerprint readFile pem_Decode parseCertificate certPath = Inr fp"
    and "dial addr = Some (leaf # chain)"
  shows "\<exists>contents block spki. readFile certPath = Some contents \<and> pem_Decode contents = Some block \<and> parseCertificate block = Some spki \<and>
    VerifySPKIMatch dial addr fp = Inr (sha256_Sum256 leaf = sha256_Sum256 spki) \<and>
    (leaf = spki \<longrightarrow> VerifySPKIMatch dial addr fp = Inr True)"
  using assms by (auto simp: ExtractSPKIFingerprint_def VerifySPKIMatch_def fingerprint_eq split: option.splits)

theorem spki_pin_matches_witness:
  "VerifySPKIMatch (\<lambda>_. Some [[1, 2], [3]]) ''h:443'' (spki_fingerprint [1, 2]) = Inr True"
proof -
  have "ExtractSPKIFingerprint (\<lambda>_. Some [9]) Some (\<lambda>_. Some [1, 2]) ''c.pem'' = Inr (spki_fingerprint [1, 2])"
    by (simp add: ExtractSPKIFingerprint_def)
  from spki_pin_matches[OF this, of "\<lambda>_. Some [[1, 2], [3]]" "''h:443''" "[1, 2]" "[[3]]"] show ?thesis by auto
qed

end
