(* ===== verification/Spec2Isabelle.thy ===== *)
theory Spec2Isabelle
  imports DhtRace Startup Bus Migrate Federation EmbedModels Client Tls
begin

text \<open>
  \<^bold>\<open>AgentDNS\<close>: a registry node for AI agents and services, in Go under \<open>src/\<close>. Nodes keep the entities that are
  registered with them in PostgreSQL, tell each other about registrations by signed gossip, answer searches from
  their own indexes and from their peers, resolve names of the Zynd Naming Service, and share entity
  locations in a Kademlia DHT.

  \<^bold>\<open>The parts and how they interact.\<close> The HTTP API (\<open>internal/api\<close>) checks signatures (\<open>internal/identity\<close>), writes the store
  (\<open>internal/store\<close>), updates the search engine (\<open>internal/search\<close>, \<open>internal/ranking\<close>, \<open>internal/card\<close>) and asks the gossip
  handler to announce what changed. The mesh (\<open>internal/mesh\<close>) carries announcements, heartbeats with Bloom
  filters, federated searches and DHT messages (\<open>internal/dht\<close>) between nodes over framed connections. Names and
  handles are checked by \<open>internal/zns\<close>; activity is published on the event bus (\<open>internal/events\<close>). The commands of
  \<open>cmd/agentdns\<close> create a node, start it from its configuration (\<open>internal/config\<close>) and act as its client.

  \<^bold>\<open>Which theory models what.\<close> Definitions keep the names of the source, with a prefix where a name would be taken twice
  (\<open>kw_Search\<close>, \<open>rr_Name\<close>); a struct is a record, an error a sum or an option, a method a function on the state.

  \<^item> \<open>Prelude\<close>: \<open>sort.Slice\<close> as an insertion sort with its laws (locales \<open>slice_less\<close>, \<open>slice_key\<close>), machines that keep an
    invariant or move up a preorder (\<open>guarded_machine\<close>, \<open>invariant_machine\<close>, \<open>monotone_machine\<close>) and functional
    refinement (\<open>refines\<close>). \<open>Codec\<close>: bytes, hexadecimal, base64, big endian, FNV. \<open>Sha256\<close>: SHA-256. \<open>GoStrings\<close>:
    the functions of \<open>strings\<close> that are used. \<open>GoMap\<close>: Go maps as association lists. \<open>Table\<close>: tables as lists of rows with keys.
  \<^item> \<open>Kademlia\<close>, \<open>Routing\<close>, \<open>Dht\<close> (\<open>internal/dht\<close>: \<open>types.go\<close>, \<open>routing.go\<close>, \<open>dht.go\<close>, \<open>mesh_adapter.go\<close>): identifiers and the XOR distance,
    buckets, the message handler, iterative lookups. \<open>DhtProps\<close> shows that no run panics or breaks the table, that lookups
    terminate and return what they should, that a stored record is found; \<open>DhtRace\<close> shows what two concurrent additions do.
  \<^item> \<open>Models\<close>, \<open>Identity\<close>, \<open>Zns\<close> (\<open>internal/models\<close>, \<open>internal/identity\<close>, \<open>internal/zns\<close>): records, signable bytes, key pairs and
    derivation proofs, name syntax, DNS verification; round trips of keys, proofs and names.
  \<^item> \<open>Store\<close>, \<open>StoreSearch\<close> (\<open>internal/store/postgres.go\<close>): every method as a function on lists of rows, SQL conditions written
    out, \<open>db_fault\<close> for a database that fails. \<open>StoreProps\<close>: keys, unique indexes and foreign keys survive any sequence
    of writes; round trips; exact effect of the liveness sweep.
  \<^item> \<open>Gossip\<close> (\<open>internal/mesh/gossip.go\<close>): the announcement handler. \<open>GossipProps\<close>: its decision, origin pinning, duplicate suppression,
    attestation quorum, and what it lets through.
  \<^item> \<open>Bloom\<close>, \<open>Peers\<close> (\<open>bloom.go\<close>, \<open>heartbeat.go\<close>, \<open>peers.go\<close>): no false negatives over the wire, bounded peer set, routing of queries to
    the peers that can answer them.
  \<^item> \<open>Wire\<close> (\<open>protocol.go\<close>): frames on a byte stream, two writers and two readers of one connection. \<open>Transport\<close>
    (\<open>transport.go\<close>, \<open>heartbeat.go\<close>, \<open>bootstrap.go\<close>): handshakes, connections, dispatch, broadcasts, DHT requests, backoff;
    \<open>TransportProps\<close> its invariant, flooding, crashes and races. \<open>Federated\<close> (\<open>federated.go\<close>): the fan-out, composed with the engine.
    \<open>Bus\<close> (\<open>internal/events/bus.go\<close>): the bus and its subscribers as a step relation.
  \<^item> \<open>Terms\<close>, \<open>Keyword\<close>, \<open>Keyword2\<close>, \<open>Semantic\<close>, \<open>Ranking\<close> (\<open>internal/search/keyword.go\<close>, \<open>keyword_v2.go\<close>, \<open>tokenizer.go\<close>, \<open>semantic.go\<close>,
    \<open>internal/ranking\<close>): the incremental indexes equal their formulas computed from scratch over the documents they
    hold. \<open>Engine\<close> (\<open>engine.go\<close>): the whole search; \<open>EngineProps\<close>: paging, filters, exact matches. \<open>Lru\<close>
    (\<open>internal/card/cache.go\<close>): the card cache refines a bounded list by last use, and a race.
  \<^item> \<open>Api\<close> (\<open>internal/api/server.go\<close>, \<open>heartbeat.go\<close>, \<open>monitor.go\<close>): the handlers with their checks in order. \<open>ApiProps\<close>, \<open>ApiHandles\<close>: who can
    change what, refused requests change nothing, registered names resolve, handles. \<open>ApiSearch\<close>: the search endpoint over the
    engine, and the endpoints that only read; what was registered is found. \<open>RateLimit\<close> (\<open>middleware.go\<close>): bounds
    of the limiter. \<open>Gateway\<close>: the route table of \<open>Handler\<close>, dispatch, CORS, and the limiters around the routes; the routes do not
    overlap, and the handlers behind a limiter are bounded together for every client.
  \<^item> \<open>Embed\<close>, \<open>EmbedModels\<close> (\<open>internal/search/embeddings.go\<close>, \<open>http_embedder.go\<close>, \<open>onnx_embedder.go\<close>, \<open>model_registry.go\<close>): the three embedding backends and
    the downloads of models; vectors fit the index, embedding does not depend on earlier texts, downloads are atomic.
  \<^item> \<open>Redis\<close> (\<open>internal/cache/redis.go\<close>), \<open>CardFetch\<close> (\<open>internal/card/fetch.go\<close>): the shared cache and the fetching of cards through three tiers; bounds on the
    age of what is served. \<open>Tls\<close> (\<open>internal/zns/tls_verify.go\<close>): key fingerprints.
  \<^item> \<open>Settings\<close>, \<open>Startup\<close>, \<open>Migrate\<close> (\<open>internal/config\<close>, \<open>cmd/agentdns/main.go\<close>, \<open>db.go\<close>, \<open>internal/store/migrations.go\<close>): configuration, \<open>init\<close> and
    \<open>start\<close>, which wires all components, migrations and \<open>db reset\<close>: an initialised node starts in the invariants of its
    components, exactly which configurations run, migrations are applied once over failing runs. \<open>Cli\<close> (\<open>cmd/agentdns/main.go\<close>): the client
    commands composed with the handlers that answer them, from key generation to a registered entity. \<open>Client\<close>: the command \<open>resolve\<close>
    from the URL it builds through the routes to the handler.
  \<^item> \<open>Federation\<close>: two registries together, from the registration on one to the search on the other.

  \<^bold>\<open>What is a parameter.\<close> Code that is not under \<open>src/\<close> is an argument: the signature scheme (\<open>ed25519\<close>, with the law that
    signatures of a key verify), JSON and TOML (\<open>marshal\<close> functions, with injectivity or round trip laws where needed), time formatting
    (\<open>timefmt\<close>), the DNS resolver, HTTP answers (\<open>http_answer\<close>), the Redis server (a record of its commands), files, the effect of a
    migration file, the tokenizer and the session of ONNX Runtime, the text form of JSON columns, the order in which a
    map is ranged over (any permutation of its keys), which peers answer and when. Each law has an instance that
    satisfies it, and each property with hypotheses a witness.

  \<^bold>\<open>Conventions.\<close> The time is an argument, read once per call; a panic is \<^term>\<open>None\<close>; \<open>float64\<close> is a real number (no rounding); a
    \<open>w\<close>-bit integer is a word where wrap-around can happen; upper and lower case concern ASCII. Loops are recursive
    functions with termination proofs; there is no fuel. Critical sections are atomic; where the code leaves one
    and relies on what it saw there, the steps are separate and the interleavings explicit (\<open>DhtRace\<close>, \<open>Lru\<close>, \<open>Wire\<close>,
    \<open>Bus\<close>, \<open>reconnect_race_loses_peer\<close>).

  \<^bold>\<open>Not modelled.\<close> The generated API description (\<open>docs/docs.go\<close>) and the Swagger page, the load test command (\<open>cmd/agentdns/test.go\<close>),
    what the commands print and the dispatch of \<open>main\<close>, the text of the SQL migrations beyond the constraints they
    declare, the creation of X.509 certificates, sockets and WebSocket upgrades, signals and shutdown, logging, and the card format of
    \<open>models/zynd_agent_card.go\<close>, which no code of the node uses.
\<close>

end
